(* ===== verification/Go_Prelude.thy ===== *)
theory Go_Prelude
  imports Main "HOL-Library.List_Lexorder" "HOL-Library.Char_ord"
begin

text \<open>
  What the components share of Go and its standard library.

  \<^item> A Go string is a sequence of bytes: \<^typ>\<open>string\<close>, whose characters are exactly the
    256 byte values. Ranging over a string and \<open>strings.TrimSpace\<close> work on runes, so the
    UTF-8 decoder of package \<open>unicode/utf8\<close> is written out, with its treatment of
    malformed input (U+FFFD, one byte wide).
  \<^item> \<open>time.Time\<close> is the integer number of nanoseconds since Go's zero time; every time
    the program stores is in UTC, so \<open>Equal\<close> is equality. \<open>time.Duration\<close> is an integer
    number of nanoseconds.
  \<^item> A Go \<open>int64\<close> is an \<^typ>\<open>int\<close> with the wrap-around written out (\<open>i64\<close>).
  \<^item> A function with an error result returns a sum, \<open>Inl\<close> the error.
  \<^item> Case mapping beyond ASCII, SHA-256, base64 and media types are a record of functions
    (\<open>golib\<close>) that the definitions using them take as an argument.
\<close>

section \<open>Collections of facts\<close>

named_theorems go_str \<open>strings, runes and hexadecimal text\<close>
named_theorems go_map \<open>lookups after map and list-set updates\<close>

section \<open>Types\<close>

type_synonym time = int
type_synonym duration = int
type_synonym ('e, 'a) result = "'e + 'a"

definition zero_time :: time where
  "zero_time = 0"

definition second :: duration where
  "second = 1000000000"

definition minute :: duration where
  "minute = 60 * second"

definition hour :: duration where
  "hour = 60 * minute"

text \<open>Signed 64-bit wrap-around.\<close>

definition i64 :: "int \<Rightarrow> int" where
  "i64 x = (x + 2 ^ 63) mod 2 ^ 64 - 2 ^ 63"

section \<open>Bytes and runes\<close>

definition bytes :: "string \<Rightarrow> nat list" where
  "bytes s = map of_char s"

definition of_bytes :: "nat list \<Rightarrow> string" where
  "of_bytes bs = map char_of bs"

definition RuneError :: nat where
  "RuneError = 65533"

definition continuation :: "nat \<Rightarrow> bool" where
  "continuation b \<longleftrightarrow> 128 \<le> b \<and> b \<le> 191"

text \<open>The range of the second byte depends on the first one.\<close>

definition second_byte_ok :: "nat \<Rightarrow> nat \<Rightarrow> bool" where
  "second_byte_ok b0 b1 \<longleftrightarrow>
     (if b0 = 224 then 160 \<le> b1 \<and> b1 \<le> 191
      else if b0 = 237 then 128 \<le> b1 \<and> b1 \<le> 159
      else if b0 = 240 then 144 \<le> b1 \<and> b1 \<le> 191
      else if b0 = 244 then 128 \<le> b1 \<and> b1 \<le> 143
      else continuation b1)"

text \<open>\<open>utf8.DecodeRune\<close>: the first rune and its width in bytes.\<close>

fun DecodeRune :: "nat list \<Rightarrow> nat \<times> nat" where
  "DecodeRune [] = (RuneError, 0)"
| "DecodeRune (b0 # r0) =
     (if b0 < 128 then (b0, 1)
      else if b0 < 194 \<or> 244 < b0 then (RuneError, 1)
      else case r0 of
        [] \<Rightarrow> (RuneError, 1)
      | b1 # r1 \<Rightarrow>
          if \<not> second_byte_ok b0 b1 then (RuneError, 1)
          else if b0 < 224 then ((b0 - 192) * 64 + (b1 - 128), 2)
          else (case r1 of
            [] \<Rightarrow> (RuneError, 1)
          | b2 # r2 \<Rightarrow>
              if \<not> continuation b2 then (RuneError, 1)
              else if b0 < 240 then ((b0 - 224) * 4096 + (b1 - 128) * 64 + (b2 - 128), 3)
              else (case r2 of
                [] \<Rightarrow> (RuneError, 1)
              | b3 # r3 \<Rightarrow>
                  if \<not> continuation b3 then (RuneError, 1)
                  else ((b0 - 240) * 262144 + (b1 - 128) * 4096 + (b2 - 128) * 64 + (b3 - 128), 4))))"

text \<open>\<open>for _, r := range s\<close> visits these runes.\<close>

function rune_list :: "nat list \<Rightarrow> nat list" where
  "rune_list [] = []"
| "rune_list (b # bs) =
     (case DecodeRune (b # bs) of (r, w) \<Rightarrow> r # rune_list (drop (w - 1) bs))"
  by pat_completeness auto
termination
  by (relation "measure length") auto

definition runes :: "string \<Rightarrow> nat list" where
  "runes s = rune_list (bytes s)"

text \<open>\<open>utf8.ValidString\<close>.\<close>

function valid_utf8 :: "nat list \<Rightarrow> bool" where
  "valid_utf8 [] = True"
| "valid_utf8 (b # bs) =
     (case DecodeRune (b # bs) of
        (r, w) \<Rightarrow> \<not> (r = RuneError \<and> w = 1) \<and> valid_utf8 (drop (w - 1) bs))"
  by pat_completeness auto
termination
  by (relation "measure length") auto

definition ValidString :: "string \<Rightarrow> bool" where
  "ValidString s = valid_utf8 (bytes s)"

text \<open>\<open>utf8.AppendRune\<close>; surrogates and values past U+10FFFF become U+FFFD.\<close>

definition EncodeRune :: "nat \<Rightarrow> nat list" where
  "EncodeRune r =
     (if r < 128 then [r]
      else if r < 2048 then [192 + r div 64, 128 + r mod 64]
      else if (55296 \<le> r \<and> r \<le> 57343) \<or> 1114111 < r then [239, 191, 189]
      else if r < 65536 then [224 + r div 4096, 128 + r div 64 mod 64, 128 + r mod 64]
      else [240 + r div 262144, 128 + r div 4096 mod 64, 128 + r div 64 mod 64, 128 + r mod 64])"

definition string_of_runes :: "nat list \<Rightarrow> string" where
  "string_of_runes rs = of_bytes (concat (map EncodeRune rs))"

text \<open>\<open>unicode.IsControl\<close> and \<open>unicode.IsSpace\<close>.\<close>

definition IsControl :: "nat \<Rightarrow> bool" where
  "IsControl r \<longleftrightarrow> r < 32 \<or> (127 \<le> r \<and> r < 160)"

definition IsSpace :: "nat \<Rightarrow> bool" where
  "IsSpace r \<longleftrightarrow>
     (9 \<le> r \<and> r \<le> 13) \<or> r = 32 \<or> r = 133 \<or> r = 160 \<or> r = 5760 \<or> (8192 \<le> r \<and> r \<le> 8202) \<or>
     r = 8232 \<or> r = 8233 \<or> r = 8239 \<or> r = 8287 \<or> r = 12288"

section \<open>Package strings\<close>

text \<open>\<open>TrimLeftFunc(s, unicode.IsSpace)\<close> over the bytes of the string.\<close>

function trim_left :: "nat list \<Rightarrow> nat list" where
  "trim_left [] = []"
| "trim_left (b # bs) =
     (case DecodeRune (b # bs) of
        (r, w) \<Rightarrow> if IsSpace r then trim_left (drop (w - 1) bs) else b # bs)"
  by pat_completeness auto
termination
  by (relation "measure length") auto

text \<open>
  \<open>utf8.DecodeLastRune\<close> on the reversed bytes: walk back over at most three continuation
  bytes to a byte that starts a rune, decode from there and require the rune to end at the
  end of the string.
\<close>

definition last_rune_at :: "nat \<Rightarrow> nat list \<Rightarrow> nat \<times> nat" where
  "last_rune_at k rb =
     (case DecodeRune (rev (take (Suc k) rb)) of
        (r, w) \<Rightarrow> if w = Suc k then (r, w) else (RuneError, 1))"

fun DecodeLastRune_rev :: "nat list \<Rightarrow> nat \<times> nat" where
  "DecodeLastRune_rev [] = (RuneError, 0)"
| "DecodeLastRune_rev (b # bs) =
     (if b < 128 then (b, 1)
      else case takeWhile continuation (take 3 bs) of
        cs \<Rightarrow> last_rune_at (Suc (length cs)) (b # bs))"

function trim_right_rev :: "nat list \<Rightarrow> nat list" where
  "trim_right_rev [] = []"
| "trim_right_rev (b # bs) =
     (case DecodeLastRune_rev (b # bs) of
        (r, w) \<Rightarrow> if IsSpace r then trim_right_rev (drop (w - 1) bs) else b # bs)"
  by pat_completeness auto
termination
  by (relation "measure length") auto

definition TrimSpace :: "string \<Rightarrow> string" where
  "TrimSpace s = of_bytes (rev (trim_right_rev (rev (trim_left (bytes s)))))"

definition HasPrefix :: "string \<Rightarrow> string \<Rightarrow> bool" where
  "HasPrefix s p \<longleftrightarrow> take (length p) s = p"

definition HasSuffix :: "string \<Rightarrow> string \<Rightarrow> bool" where
  "HasSuffix s p \<longleftrightarrow> HasPrefix (rev s) (rev p)"

text \<open>\<open>strings.Contains\<close>: a substring search.\<close>

fun Contains :: "string \<Rightarrow> string \<Rightarrow> bool" where
  "Contains [] p = (p = [])"
| "Contains (c # s) p = (HasPrefix (c # s) p \<or> Contains s p)"

text \<open>\<open>strings.ContainsAny\<close> for a set of ASCII characters.\<close>

definition ContainsAny :: "string \<Rightarrow> string \<Rightarrow> bool" where
  "ContainsAny s cs = list_ex (\<lambda>c. c \<in> set cs) s"

text \<open>\<open>strings.Split(s, sep)\<close> for a one-byte separator.\<close>

fun Split :: "char \<Rightarrow> string \<Rightarrow> string list" where
  "Split sep [] = [[]]"
| "Split sep (c # s) =
     (if c = sep then [] # Split sep s
      else case Split sep s of [] \<Rightarrow> [[c]] | w # ws \<Rightarrow> (c # w) # ws)"

definition is_ascii :: "string \<Rightarrow> bool" where
  "is_ascii s = list_all (\<lambda>c. (of_char c :: nat) < 128) s"

definition ascii_lower :: "char \<Rightarrow> char" where
  "ascii_lower c = (if CHR ''A'' \<le> c \<and> c \<le> CHR ''Z'' then char_of (of_char c + 32 :: nat) else c)"

definition ascii_upper :: "char \<Rightarrow> char" where
  "ascii_upper c = (if CHR ''a'' \<le> c \<and> c \<le> CHR ''z'' then char_of (of_char c - 32 :: nat) else c)"

text \<open>
  The library functions whose tables or algorithms are not written out: SHA-256 (the raw
  digest), case mapping and case folding of strings with non-ASCII characters, base64
  decoding and the acceptance of a media type.
\<close>

record golib =
  sha256_sum :: "string \<Rightarrow> string"
  uni_lower :: "string \<Rightarrow> string"
  uni_upper :: "string \<Rightarrow> string"
  uni_fold :: "string \<Rightarrow> string \<Rightarrow> bool"
  base64_decode :: "string \<Rightarrow> string option"
  media_type_ok :: "string \<Rightarrow> bool"

text \<open>\<open>strings.ToLower\<close>, \<open>ToUpper\<close> and \<open>EqualFold\<close> work byte by byte on ASCII input.\<close>

definition ToLower :: "('l) golib_scheme \<Rightarrow> string \<Rightarrow> string" where
  "ToLower L s = (if is_ascii s then map ascii_lower s else uni_lower L s)"

definition ToUpper :: "('l) golib_scheme \<Rightarrow> string \<Rightarrow> string" where
  "ToUpper L s = (if is_ascii s then map ascii_upper s else uni_upper L s)"

definition EqualFold :: "('l) golib_scheme \<Rightarrow> string \<Rightarrow> string \<Rightarrow> bool" where
  "EqualFold L s t =
     (if is_ascii s \<and> is_ascii t then map ascii_lower s = map ascii_lower t else uni_fold L s t)"

section \<open>Package encoding/hex\<close>

definition hex_digits :: string where
  "hex_digits = ''0123456789abcdef''"

definition hex_byte :: "char \<Rightarrow> string" where
  "hex_byte c = [hex_digits ! (of_char c div 16), hex_digits ! (of_char c mod 16)]"

definition hex_encode :: "string \<Rightarrow> string" where
  "hex_encode s = concat (map hex_byte s)"

definition is_hex_digit :: "char \<Rightarrow> bool" where
  "is_hex_digit c \<longleftrightarrow>
     (CHR ''0'' \<le> c \<and> c \<le> CHR ''9'') \<or> (CHR ''a'' \<le> c \<and> c \<le> CHR ''f'') \<or>
     (CHR ''A'' \<le> c \<and> c \<le> CHR ''F'')"

text \<open>Whether \<open>hex.DecodeString\<close> returns no error, and the length it decodes to.\<close>

definition hex_ok :: "string \<Rightarrow> bool" where
  "hex_ok s \<longleftrightarrow> even (length s) \<and> list_all is_hex_digit s"

definition hex_decoded_len :: "string \<Rightarrow> nat" where
  "hex_decoded_len s = length s div 2"

text \<open>A prefix followed by \<open>n\<close> hexadecimal digits, the shape of every identifier.\<close>

definition prefixed_hex :: "string \<Rightarrow> nat \<Rightarrow> string \<Rightarrow> bool" where
  "prefixed_hex p n v \<longleftrightarrow>
     HasPrefix v p \<and> length v = length p + n \<and> hex_ok (drop (length p) v)"

definition sha256_hex :: "('l) golib_scheme \<Rightarrow> string \<Rightarrow> string" where
  "sha256_hex L s = hex_encode (sha256_sum L s)"

section \<open>Sets kept as duplicate-free lists\<close>

definition sadd :: "'a \<Rightarrow> 'a list \<Rightarrow> 'a list" where
  "sadd x xs = (if x \<in> set xs then xs else xs @ [x])"

definition srem :: "'a \<Rightarrow> 'a list \<Rightarrow> 'a list" where
  "srem x xs = filter (\<lambda>y. y \<noteq> x) xs"

section \<open>Facts on runes and trimming\<close>

lemma DecodeRune_width [go_str]:
  "DecodeRune (b # bs) = (r, w) \<Longrightarrow> 1 \<le> w \<and> w \<le> 4 \<and> w \<le> Suc (length bs)"
  by (auto split: if_splits list.splits)

lemma DecodeRune_prefix:
  assumes "p \<noteq> []"
  shows "DecodeRune p = DecodeRune (p @ t) \<or> DecodeRune p = (RuneError, 1)"
  using assms by (cases p) (auto split: list.splits)

lemma DecodeRune_ascii [simp]: "b < 128 \<Longrightarrow> DecodeRune (b # bs) = (b, 1)"
  by simp

lemma DecodeLastRune_ascii [simp]: "b < 128 \<Longrightarrow> DecodeLastRune_rev (b # bs) = (b, 1)"
  by simp

declare DecodeRune.simps(2) [simp del]
declare DecodeLastRune_rev.simps(2) [simp del]

lemma IsSpace_RuneError [simp]: "\<not> IsSpace RuneError"
  by (simp add: IsSpace_def RuneError_def)

lemma trim_left_idem: "trim_left (trim_left bs) = trim_left bs"
  by (induction bs rule: trim_left.induct) (auto split: prod.splits)

lemma trim_right_rev_idem: "trim_right_rev (trim_right_rev bs) = trim_right_rev bs"
  by (induction bs rule: trim_right_rev.induct) (auto split: prod.splits)

lemma trim_left_fixed:
  "trim_left bs = bs \<longleftrightarrow> bs = [] \<or> \<not> IsSpace (fst (DecodeRune bs))"
proof (cases bs)
  case (Cons b cs)
  have len: "length (trim_left xs) \<le> length xs" for xs
    by (induction xs rule: trim_left.induct) (auto split: prod.splits)
  show ?thesis
  proof (cases "IsSpace (fst (DecodeRune bs))")
    case True
    then have "trim_left bs = trim_left (drop (snd (DecodeRune bs) - 1) cs)"
      using Cons by (auto split: prod.splits)
    then have "length (trim_left bs) < length bs"
      using len [of "drop (snd (DecodeRune bs) - 1) cs"] Cons by auto
    then have "trim_left bs \<noteq> bs" by (metis less_irrefl)
    with True Cons show ?thesis by blast
  next
    case False
    with Cons show ?thesis by (auto split: prod.splits)
  qed
qed simp

lemma trim_right_rev_suffix: "\<exists>t. bs = t @ trim_right_rev bs"
proof (induction bs rule: trim_right_rev.induct)
  case (2 b bs)
  obtain r w where d: "DecodeLastRune_rev (b # bs) = (r, w)" by force
  show ?case
  proof (cases "IsSpace r")
    case True
    from "2.IH" [OF d [symmetric] True] obtain t where
      "drop (w - 1) bs = t @ trim_right_rev (drop (w - 1) bs)" by blast
    then have "bs = take (w - 1) bs @ t @ trim_right_rev (drop (w - 1) bs)"
      by (metis append_take_drop_id)
    with d True have "b # bs = (b # take (w - 1) bs @ t) @ trim_right_rev (b # bs)"
      by simp
    then show ?thesis by blast
  next
    case False
    with d show ?thesis by simp
  qed
qed simp

lemma trim_left_prefix_fixed:
  assumes "trim_left bs = bs" and "bs = p @ t"
  shows "trim_left p = p"
proof (cases "p = []")
  case False
  with DecodeRune_prefix [of p t] assms have
    "DecodeRune p = DecodeRune bs \<or> DecodeRune p = (RuneError, 1)" by simp
  with assms False show ?thesis
    using trim_left_fixed [of bs] trim_left_fixed [of p] by auto
qed simp

lemma bytes_of_bytes: "list_all (\<lambda>b. b < 256) bs \<Longrightarrow> bytes (of_bytes bs) = bs"
  by (induction bs) (auto simp: bytes_def of_bytes_def)

lemma of_bytes_bytes [simp]: "of_bytes (bytes s) = s"
  by (simp add: of_bytes_def bytes_def comp_def)

lemma bytes_lt: "b \<in> set (bytes s) \<Longrightarrow> b < 256"
  by (auto simp: bytes_def)

lemma set_trim_left: "set (trim_left bs) \<subseteq> set bs"
proof (induction bs rule: trim_left.induct)
  case (2 b bs)
  then show ?case by (auto split: prod.splits dest: in_set_dropD)
qed simp

lemma set_trim_right_rev: "set (trim_right_rev bs) \<subseteq> set bs"
  using trim_right_rev_suffix [of bs] by (metis set_append sup_ge2)

theorem TrimSpace_idem [simp]: "TrimSpace (TrimSpace s) = TrimSpace s"
proof -
  define l where "l = trim_left (bytes s)"
  define r where "r = rev (trim_right_rev (rev l))"
  obtain t where t: "rev l = t @ trim_right_rev (rev l)"
    using trim_right_rev_suffix by blast
  then have split: "l = r @ rev t"
    unfolding r_def by (metis rev_append rev_rev_ident)
  have fixl: "trim_left l = l" by (simp add: l_def trim_left_idem)
  have fixr: "trim_left r = r" by (rule trim_left_prefix_fixed [OF fixl split])
  have "set r \<subseteq> set (bytes s)"
    using set_trim_right_rev [of "rev l"] set_trim_left [of "bytes s"] by (auto simp: r_def l_def)
  then have b: "bytes (of_bytes r) = r"
    by (intro bytes_of_bytes) (auto simp: list_all_iff dest: bytes_lt)
  have "rev (trim_right_rev (rev r)) = r"
    by (simp add: r_def trim_right_rev_idem)
  then show ?thesis
    by (simp add: TrimSpace_def l_def [symmetric] r_def [symmetric] b fixr)
qed

lemma TrimSpace_Nil [simp]: "TrimSpace [] = []"
  by (simp add: TrimSpace_def bytes_def of_bytes_def)

lemma TrimSpace_id:
  assumes "s \<noteq> []"
    and "(of_char (hd s) :: nat) < 128" and "\<not> IsSpace (of_char (hd s))"
    and "(of_char (last s) :: nat) < 128" and "\<not> IsSpace (of_char (last s))"
  shows "TrimSpace s = s"
proof -
  from assms(1) obtain c cs where s: "s = c # cs" by (cases s) auto
  from assms(1) obtain d ds where r: "rev s = d # ds" by (cases "rev s") auto
  from r assms(1) have d: "d = last s" by (metis hd_rev list.sel(1))
  have "trim_left (bytes s) = bytes s"
    using assms(2,3) s by (simp add: bytes_def)
  moreover have "trim_right_rev (rev (bytes s)) = rev (bytes s)"
    using assms(4,5) unfolding bytes_def rev_map r d by simp
  ultimately show ?thesis by (simp add: TrimSpace_def)
qed

section \<open>Facts on hexadecimal text\<close>

lemma length_hex_digits [simp]: "length hex_digits = 16"
  by (simp add: hex_digits_def)

lemma hex_digits_nth_eq: "i < 16 \<Longrightarrow> j < 16 \<Longrightarrow> hex_digits ! i = hex_digits ! j \<longleftrightarrow> i = j"
  by (rule nth_eq_iff_index_eq) (simp_all add: hex_digits_def)

lemma of_char_div_16: "(of_char c :: nat) div 16 < 16"
proof -
  have "(of_char c :: nat) < 256" by simp
  then show ?thesis by (simp add: less_mult_imp_div_less)
qed

lemma hex_byte_inj: "hex_byte c = hex_byte d \<longleftrightarrow> c = d"
proof
  assume "hex_byte c = hex_byte d"
  then have "(of_char c :: nat) div 16 = of_char d div 16" "(of_char c :: nat) mod 16 = of_char d mod 16"
    by (simp_all add: hex_byte_def hex_digits_nth_eq of_char_div_16)
  then have "(of_char c :: nat) = of_char d" by (metis div_mult_mod_eq)
  then show "c = d" by simp
qed simp

lemma length_hex_encode [simp, go_str]: "length (hex_encode s) = 2 * length s"
  by (induction s) (simp_all add: hex_encode_def hex_byte_def)

lemma hex_encode_Nil [simp]: "hex_encode [] = []"
  by (simp add: hex_encode_def)

lemma hex_encode_Cons: "hex_encode (c # s) = hex_byte c @ hex_encode s"
  by (simp add: hex_encode_def)

lemma set_hex_encode: "set (hex_encode s) \<subseteq> set hex_digits"
proof (induction s)
  case (Cons c s)
  have "length hex_digits = 16" by (simp add: hex_digits_def)
  then have "set (hex_byte c) \<subseteq> set hex_digits" by (simp add: hex_byte_def of_char_div_16)
  with Cons show ?case by (simp add: hex_encode_Cons)
qed simp

lemma hex_ok_ascii: "hex_ok s \<Longrightarrow> is_ascii s"
  by (auto simp: hex_ok_def is_ascii_def is_hex_digit_def list_all_iff less_eq_char_def elim!: order_le_less_trans)

lemma EqualFold_ascii_refl: "is_ascii s \<Longrightarrow> EqualFold L s s"
  by (simp add: EqualFold_def)

lemma hex_encode_inj [simp, go_str]: "hex_encode s = hex_encode t \<longleftrightarrow> s = t"
proof
  assume "hex_encode s = hex_encode t"
  then show "s = t"
  proof (induction s arbitrary: t)
    case Nil
    then have "length (hex_encode t) = 0" by simp
    then show ?case by simp
  next
    case (Cons c s)
    then have "length (hex_encode t) = 2 * length (c # s)" by (metis length_hex_encode)
    then obtain d t' where t: "t = d # t'" by (cases t) auto
    have "hex_byte c = hex_byte d \<and> hex_encode s = hex_encode t'"
      using Cons.prems unfolding t hex_encode_Cons by (simp add: hex_byte_def)
    then show ?case using Cons.IH t hex_byte_inj by simp
  qed
qed simp

lemma hex_digits_is_hex: "i < 16 \<Longrightarrow> is_hex_digit (hex_digits ! i)"
proof -
  assume i: "i < 16"
  have "list_all is_hex_digit hex_digits"
    by (simp add: hex_digits_def is_hex_digit_def less_eq_char_def)
  with i show ?thesis by (simp add: list_all_length)
qed

lemma hex_encode_digits [simp]: "list_all is_hex_digit (hex_encode s)"
  by (induction s) (simp_all add: hex_encode_Cons hex_byte_def hex_digits_is_hex of_char_div_16)

lemma hex_ok_encode [simp, go_str]: "hex_ok (hex_encode s)"
  by (simp add: hex_ok_def)

lemma ToLower_hex [simp]: "ToLower L (hex_encode s) = hex_encode s"
proof -
  have "list_all (\<lambda>c. ascii_lower c = c \<and> (of_char c :: nat) < 128) hex_digits" by code_simp
  with set_hex_encode [of s] have "\<forall>c\<in>set (hex_encode s). ascii_lower c = c \<and> (of_char c :: nat) < 128"
    unfolding list_all_iff by blast
  then show ?thesis by (simp add: ToLower_def is_ascii_def list_all_iff map_idI)
qed

lemma hex_encode_eq_Nil [simp]: "hex_encode s = [] \<longleftrightarrow> s = []"
  by (metis length_0_conv length_hex_encode mult_is_0 zero_neq_numeral)

lemma colon_not_hex: "\<not> is_hex_digit CHR '':''"
  by (simp add: is_hex_digit_def less_eq_char_def)

lemma hex_encode_no_colon [simp]: "CHR '':'' \<notin> set (hex_encode s)"
  using hex_encode_digits [of s] colon_not_hex by (auto simp: list_all_iff)

lemma HasPrefix_append [simp]: "HasPrefix (p @ s) p"
  by (simp add: HasPrefix_def)

lemma HasPrefix_iff: "HasPrefix s p \<longleftrightarrow> (\<exists>t. s = p @ t)"
  unfolding HasPrefix_def by (metis append_eq_conv_conj append_take_drop_id)

lemma prefixed_hex_append [simp]:
  "prefixed_hex p (2 * length r) (p @ hex_encode r)"
  by (simp add: prefixed_hex_def)

lemma prefixed_hex_nonempty: "prefixed_hex p n v \<Longrightarrow> 0 < n \<Longrightarrow> v \<noteq> []"
  by (auto simp: prefixed_hex_def)

section \<open>Facts on integers, list sets and results\<close>

lemma i64_id: "- (2 ^ 63) \<le> x \<Longrightarrow> x < 2 ^ 63 \<Longrightarrow> i64 x = x"
  by (simp add: i64_def)

lemma set_sadd [simp, go_map]: "set (sadd x xs) = insert x (set xs)"
  by (auto simp: sadd_def)

lemma set_srem [simp, go_map]: "set (srem x xs) = set xs - {x}"
  by (auto simp: srem_def)

lemma distinct_sadd [simp]: "distinct xs \<Longrightarrow> distinct (sadd x xs)"
  by (auto simp: sadd_def)

lemma distinct_srem [simp]: "distinct xs \<Longrightarrow> distinct (srem x xs)"
  by (auto simp: srem_def)

lemma DecodeRune_tail:
  "DecodeRune (b # bs) = (r, w) \<Longrightarrow> \<forall>x\<in>set (take (w - 1) bs). 128 \<le> x"
  by (auto simp: DecodeRune.simps(2) second_byte_ok_def continuation_def split: if_splits list.splits)

text \<open>A byte below 128 is a rune of its own wherever it occurs, even in malformed text.\<close>

lemma ascii_byte_rune: "x \<in> set bs \<Longrightarrow> x < 128 \<Longrightarrow> x \<in> set (rune_list bs)"
proof (induction bs rule: rune_list.induct)
  case (2 b bs)
  obtain r w where rw: "DecodeRune (b # bs) = (r, w)" by fastforce
  show ?case
  proof (cases "x = b")
    case True
    with 2 rw show ?thesis by simp
  next
    case False
    with 2(2) have "x \<in> set (take (w - 1) bs) \<or> x \<in> set (drop (w - 1) bs)"
      by (metis append_take_drop_id set_ConsD set_append UnE)
    with DecodeRune_tail [OF rw] 2(3) have "x \<in> set (drop (w - 1) bs)" by (metis not_le)
    with 2 rw show ?thesis by simp
  qed
qed simp

lemma no_nul: "\<not> list_ex IsControl (runes s) \<Longrightarrow> CHR 0x00 \<notin> set s"
proof
  assume a: "\<not> list_ex IsControl (runes s)" "CHR 0x00 \<in> set s"
  then have "(of_char CHR 0x00 :: nat) \<in> set (bytes s)" unfolding bytes_def by (metis imageI list.set_map)
  then have "0 \<in> set (runes s)" using ascii_byte_rune [of 0 "bytes s"] by (simp add: runes_def)
  with a(1) show False by (auto simp: list_ex_iff IsControl_def)
qed

lemma hex_digit_not_space: "is_hex_digit c \<Longrightarrow> (of_char c :: nat) < 128 \<and> \<not> IsSpace (of_char c)"
  by (auto simp: is_hex_digit_def IsSpace_def less_eq_char_def)

lemma TrimSpace_hex [simp]: "s \<noteq> [] \<Longrightarrow> TrimSpace (hex_encode s) = hex_encode s"
proof (rule TrimSpace_id)
  assume s: "s \<noteq> []"
  then show "hex_encode s \<noteq> []" by simp
  moreover have "\<forall>c\<in>set (hex_encode s). is_hex_digit c" using hex_encode_digits [of s] by (simp add: list_all_iff)
  ultimately show "(of_char (hd (hex_encode s)) :: nat) < 128" "\<not> IsSpace (of_char (hd (hex_encode s)))"
    "(of_char (last (hex_encode s)) :: nat) < 128" "\<not> IsSpace (of_char (last (hex_encode s)))"
    using hex_digit_not_space by simp_all
qed

lemma last_hex_encode: "bs \<noteq> [] \<Longrightarrow> is_hex_digit (last (hex_encode bs))"
proof -
  assume "bs \<noteq> []"
  then have "hex_encode bs \<noteq> []" using length_hex_encode [of bs] by (metis length_0_conv mult_is_0 zero_neq_numeral)
  then have "last (hex_encode bs) \<in> set (hex_encode bs)" by (rule last_in_set)
  then show ?thesis using hex_encode_digits [of bs] by (simp add: list_all_iff)
qed

end
