(* ===== verification/Protocol.thy ===== *)
theory Protocol
  imports Go_Prelude
begin

text \<open>
  Package \<open>internal/protocol\<close>: the wire types shared by the relay, the receiver and the
  requester (\<open>collaboration.go\<close>), and the portable file names (\<open>path.go\<close>).

  A Go string type with named constants is a datatype with one constructor per constant and
  one (\<open>...Other\<close>) for every other string, which the JSON decoder accepts too; the empty
  string is such an other value.
\<close>

section \<open>Wire types\<close>

definition APIVersion :: string where
  "APIVersion = ''v1''"

definition MaxNeedBytes :: nat where
  "MaxNeedBytes = 200"

definition MaxAttachments :: nat where
  "MaxAttachments = 5"

definition MaxAttachmentBytes :: int where
  "MaxAttachmentBytes = 2 * 1024 * 1024"

definition MaxRequestPayloadBytes :: int where
  "MaxRequestPayloadBytes = 2 * 1024 * 1024"

definition MaxPromptBytes :: nat where
  "MaxPromptBytes = 32 * 1024"

definition MaxTitleBytes :: nat where
  "MaxTitleBytes = 200"

datatype PermissionMode =
    PermissionReadOnly | PermissionGuardedWrite | PermissionCustom | PermissionOther string

fun PermissionMode_Valid :: "PermissionMode \<Rightarrow> bool" where
  "PermissionMode_Valid (PermissionOther _) = False"
| "PermissionMode_Valid _ = True"

text \<open>\<open>string(mode)\<close>.\<close>

fun mode_string :: "PermissionMode \<Rightarrow> string" where
  "mode_string PermissionReadOnly = ''read_only''"
| "mode_string PermissionGuardedWrite = ''guarded_write''"
| "mode_string PermissionCustom = ''custom''"
| "mode_string (PermissionOther s) = s"

datatype Availability =
    AvailabilityAvailable | AvailabilityBusy | AvailabilityAway | AvailabilityOffline
  | AvailabilityOther string

record RuntimeCapabilities =
  rc_Resume :: bool
  rc_StructuredEvents :: bool
  rc_Skills :: bool
  rc_MCP :: bool
  rc_ReadOnly :: bool
  rc_GuardedWrite :: bool
  rc_ReturnedFiles :: bool

record RuntimeDescriptor =
  rd_ID :: string
  rd_DisplayName :: string
  rd_Version :: string
  rd_Capabilities :: RuntimeCapabilities

record AgentCard =
  card_AgentID :: string
  card_MemberID :: string
  card_DisplayName :: string
  card_DeviceName :: string
  card_Availability :: Availability
  card_AcceptingRequests :: bool
  card_Runtime :: RuntimeDescriptor
  card_PermissionMode :: PermissionMode
  card_Capabilities :: "string list"
  card_WorkspaceAliases :: "string list"
  card_Online :: bool
  card_LastSeen :: time

record AgentHeartbeat =
  hb_DisplayName :: string
  hb_DeviceName :: string
  hb_Availability :: Availability
  hb_AcceptingRequests :: bool
  hb_Runtime :: RuntimeDescriptor
  hb_PermissionMode :: PermissionMode
  hb_Capabilities :: "string list"
  hb_WorkspaceAliases :: "string list"

record AgentDirectoryResponse =
  dir_Agents :: "AgentCard list"
  dir_ObservedAt :: time

record RequestedAccess =
  ra_WorkspaceAlias :: string
  ra_Mode :: PermissionMode

record AttachmentInput =
  ai_Name :: string
  ai_MIMEType :: string
  ai_Encoding :: string
  ai_SizeBytes :: int
  ai_SHA256 :: string
  ai_ContentBase64 :: string

record ArtifactDescriptor =
  ad_ArtifactID :: string
  ad_Name :: string
  ad_MIMEType :: string
  ad_SizeBytes :: int
  ad_SHA256 :: string

record ArtifactContent =
  ac_Descriptor :: ArtifactDescriptor
  ac_Encoding :: string
  ac_ContentBase64 :: string

datatype RequestStatus =
    StatusPreparing | StatusAwaitingApproval | StatusAccepted | StatusRunning | StatusCompleted
  | StatusRejected | StatusExpired | StatusCancelled | StatusFailed | StatusOther string

fun Terminal :: "RequestStatus \<Rightarrow> bool" where
  "Terminal StatusCompleted = True"
| "Terminal StatusRejected = True"
| "Terminal StatusExpired = True"
| "Terminal StatusCancelled = True"
| "Terminal StatusFailed = True"
| "Terminal _ = False"

record CreateRequest =
  cr_TargetAgentID :: string
  cr_ConversationID :: string
  cr_Title :: string
  cr_Prompt :: string
  cr_RequestedAccess :: "RequestedAccess list"
  cr_Attachments :: "AttachmentInput list"
  cr_ExpiresInSeconds :: int
  cr_IdempotencyKey :: string

record Request =
  rq_APIVersion :: string
  rq_RequestID :: string
  rq_ConversationID :: string
  rq_RequesterAgentID :: string
  rq_RequesterMemberID :: string
  rq_RequesterDisplayName :: string
  rq_TargetAgentID :: string
  rq_Title :: string
  rq_Prompt :: string
  rq_PromptPreview :: string
  rq_PromptBytes :: int
  rq_PromptSHA256 :: string
  rq_RequestedAccess :: "RequestedAccess list"
  rq_Attachments :: "ArtifactDescriptor list"
  rq_ResultFiles :: "ArtifactDescriptor list"
  rq_Status :: RequestStatus
  rq_Answer :: string
  rq_Error :: string
  rq_CreatedAt :: time
  rq_UpdatedAt :: time
  rq_ExpiresAt :: time
  rq_Version :: int

record RequestNotice =
  rn_RequestID :: string
  rn_ConversationID :: string
  rn_Status :: RequestStatus
  rn_RequesterAgentID :: string
  rn_RequesterMemberID :: string
  rn_RequesterDisplayName :: string
  rn_Title :: string
  rn_PromptPreview :: string
  rn_PromptBytes :: int
  rn_PromptSHA256 :: string
  rn_RequestedAccess :: "RequestedAccess list"
  rn_Attachments :: "ArtifactDescriptor list"
  rn_CreatedAt :: time
  rn_ExpiresAt :: time
  rn_ResumesSession :: bool

record ExecutionPayload =
  ep_RequestID :: string
  ep_ConversationID :: string
  ep_RequesterAgentID :: string
  ep_RequesterMemberID :: string
  ep_RequesterDisplayName :: string
  ep_Title :: string
  ep_Prompt :: string
  ep_RequestedAccess :: "RequestedAccess list"
  ep_Attachments :: "ArtifactDescriptor list"
  ep_ExpiresAt :: time

record ProposalPayload =
  pp_RequestID :: string
  pp_ConversationID :: string
  pp_RequesterAgentID :: string
  pp_RequesterMemberID :: string
  pp_RequesterDisplayName :: string
  pp_Title :: string
  pp_Prompt :: string
  pp_RequestedAccess :: "RequestedAccess list"
  pp_Attachments :: "ArtifactDescriptor list"
  pp_ExpiresAt :: time

datatype Decision = DecisionAllowOnce | DecisionDeny | DecisionOther string

record DecisionPayload =
  dp_Decision :: Decision
  dp_DecisionID :: string

record ResultPayload =
  rp_ExecutionClaimID :: string
  rp_State :: RequestStatus
  rp_Answer :: string
  rp_Error :: string
  rp_ResultFiles :: "AttachmentInput list"

record MutationResponse =
  mr_RequestID :: string
  mr_ConversationID :: string
  mr_Status :: RequestStatus

section \<open>Portable file names\<close>

datatype path_error =
    NotDirectChild | NotUTF8OrTooLong | ReservedCharacter | TrailingDotOrSpace | ControlCharacter
  | ReservedDevice | NotRelativePath

text \<open>The superscript digits of \<open>COM\<close> and \<open>LPT\<close> are two bytes each in UTF-8.\<close>

definition superscripts :: "string list" where
  "superscripts = [[CHR 0xC2, CHR 0xB9], [CHR 0xC2, CHR 0xB2], [CHR 0xC2, CHR 0xB3]]"

definition reserved_devices :: "string list" where
  "reserved_devices =
     [''CON'', ''PRN'', ''AUX'', ''NUL'', ''CLOCK$'', ''CONIN$'', ''CONOUT$'',
      ''COM1'', ''COM2'', ''COM3'', ''COM4'', ''COM5'', ''COM6'', ''COM7'', ''COM8'', ''COM9''] @
     map (\<lambda>d. ''COM'' @ d) superscripts @
     [''LPT1'', ''LPT2'', ''LPT3'', ''LPT4'', ''LPT5'', ''LPT6'', ''LPT7'', ''LPT8'', ''LPT9''] @
     map (\<lambda>d. ''LPT'' @ d) superscripts"

definition reserved_characters :: string where
  "reserved_characters = ''<>:'' @ [CHR 0x22] @ ''/'' @ [CHR 0x5C] @ ''|?*''"

definition ValidatePortableFilename :: "('l) golib_scheme \<Rightarrow> string \<Rightarrow> (path_error, unit) result" where
  "ValidatePortableFilename L name =
     (if name = [] \<or> name \<noteq> TrimSpace name \<or> name = ''.'' \<or> name = ''..'' then Inl NotDirectChild
      else if \<not> ValidString name \<or> 255 < length name then Inl NotUTF8OrTooLong
      else if ContainsAny name reserved_characters then Inl ReservedCharacter
      else if HasSuffix name ''.'' \<or> HasSuffix name '' '' then Inl TrailingDotOrSpace
      else if list_ex IsControl (runes name) then Inl ControlCharacter
      else if ToUpper L (takeWhile (\<lambda>c. c \<noteq> CHR ''.'') name) \<in> set reserved_devices
        then Inl ReservedDevice
      else Inr ())"

text \<open>\<open>io/fs.ValidPath\<close>: UTF-8, and either \<open>.\<close> or no empty, \<open>.\<close> or \<open>..\<close> element.\<close>

definition fs_ValidPath :: "string \<Rightarrow> bool" where
  "fs_ValidPath name \<longleftrightarrow>
     ValidString name \<and>
     (name = ''.'' \<or> list_all (\<lambda>e. e \<noteq> [] \<and> e \<noteq> ''.'' \<and> e \<noteq> ''..'') (Split CHR ''/'' name))"

fun validate_components :: "('l) golib_scheme \<Rightarrow> string list \<Rightarrow> (path_error, unit) result" where
  "validate_components L [] = Inr ()"
| "validate_components L (c # cs) =
     (case ValidatePortableFilename L c of Inl e \<Rightarrow> Inl e | Inr _ \<Rightarrow> validate_components L cs)"

definition ValidatePortableRelativePath ::
  "('l) golib_scheme \<Rightarrow> string \<Rightarrow> (path_error, unit) result" where
  "ValidatePortableRelativePath L value =
     (if value = [] \<or> value \<noteq> TrimSpace value \<or> value = ''.'' \<or> \<not> fs_ValidPath value
      then Inl NotRelativePath
      else validate_components L (Split CHR ''/'' value))"

end
