(* ===== verification/Auth.thy ===== *)
theory Auth
  imports Go_Prelude
begin

text \<open>
  Package \<open>internal/auth\<close>: bearer credentials (\<open>token.go\<close>) and the principal the relay
  derives from one (\<open>principal.go\<close>). The random bytes of \<open>crypto/rand\<close> are an argument,
  \<open>None\<close> when the source fails. \<open>Kind\<close> ranges over a Go map, whose iteration order is not
  determined: the order is an argument too, and \<open>Kind_order_irrelevant\<close> shows that it does
  not matter.
\<close>

section \<open>Credentials\<close>

datatype TokenKind = TokenBootstrap | TokenAdmin | TokenInvite | TokenDevice | TokenOther string

datatype auth_error = ErrInvalidToken | ErrRandom

fun tokenPrefixes :: "TokenKind \<Rightarrow> string option" where
  "tokenPrefixes TokenBootstrap = Some ''tr_boot_''"
| "tokenPrefixes TokenAdmin = Some ''tr_admin_''"
| "tokenPrefixes TokenInvite = Some ''tr_inv_''"
| "tokenPrefixes TokenDevice = Some ''tr_dev_''"
| "tokenPrefixes (TokenOther _) = None"

text \<open>The keys of the Go map, in one possible order.\<close>

definition token_kinds :: "TokenKind list" where
  "token_kinds = [TokenBootstrap, TokenAdmin, TokenInvite, TokenDevice]"

definition NewToken :: "string option \<Rightarrow> TokenKind \<Rightarrow> (auth_error, string) result" where
  "NewToken random kind =
     (case tokenPrefixes kind of
        None \<Rightarrow> Inl ErrInvalidToken
      | Some prefix \<Rightarrow>
          (case random of None \<Rightarrow> Inl ErrRandom | Some bs \<Rightarrow> Inr (prefix @ hex_encode bs)))"

definition kind_matches :: "string \<Rightarrow> TokenKind \<Rightarrow> bool" where
  "kind_matches token kind =
     (case tokenPrefixes kind of
        None \<Rightarrow> False
      | Some prefix \<Rightarrow>
          HasPrefix token prefix \<and> length token = length prefix + 64 \<and>
          hex_ok (drop (length prefix) token))"

definition Kind :: "TokenKind list \<Rightarrow> string \<Rightarrow> (auth_error, TokenKind) result" where
  "Kind order token =
     (case find (kind_matches (TrimSpace token)) order of
        None \<Rightarrow> Inl ErrInvalidToken
      | Some kind \<Rightarrow> Inr kind)"

definition Hash :: "('l) golib_scheme \<Rightarrow> string \<Rightarrow> string" where
  "Hash L token = sha256_hex L (TrimSpace token)"

definition Equal :: "('l) golib_scheme \<Rightarrow> string \<Rightarrow> string \<Rightarrow> bool" where
  "Equal L left right \<longleftrightarrow> sha256_sum L (TrimSpace left) = sha256_sum L (TrimSpace right)"

section \<open>Principals\<close>

datatype Role = RoleAdmin | RoleMember | RoleOther string

record Principal =
  pr_OrganizationID :: string
  pr_MemberID :: string
  pr_DeviceID :: string
  pr_AgentID :: string
  pr_DisplayName :: string
  pr_DeviceName :: string
  pr_Runtime :: string
  pr_PermissionMode :: string
  pr_CredentialHash :: string
  pr_Role :: Role
  pr_TokenKind :: TokenKind
  pr_IssuedAt :: time

definition IsAdmin :: "Principal \<Rightarrow> bool" where
  "IsAdmin p \<longleftrightarrow> pr_Role p = RoleAdmin \<and> pr_TokenKind p = TokenAdmin"

section \<open>A credential has one kind\<close>

lemma kind_matches_unique:
  assumes "kind_matches t k" and "kind_matches t k'"
  shows "k = k'"
proof -
  have "HasPrefix t ''tr_boot_'' \<Longrightarrow> take 4 t = ''tr_b''"
    "HasPrefix t ''tr_admin_'' \<Longrightarrow> take 4 t = ''tr_a''"
    "HasPrefix t ''tr_inv_'' \<Longrightarrow> take 4 t = ''tr_i''"
    "HasPrefix t ''tr_dev_'' \<Longrightarrow> take 4 t = ''tr_d''"
    by (auto simp: HasPrefix_iff)
  with assms show ?thesis
    by (cases k; cases k') (auto simp: kind_matches_def)
qed

lemma find_unique:
  assumes "\<And>x y. P x \<Longrightarrow> P y \<Longrightarrow> x = y" and "set xs = set ys"
  shows "find P xs = find P ys"
proof (cases "find P xs")
  case None
  with assms(2) have "find P ys = None" by (simp add: find_None_iff)
  with None show ?thesis by simp
next
  case (Some x)
  then have x: "P x" "x \<in> set ys" using assms(2) by (auto simp: find_Some_iff)
  then obtain y where "find P ys = Some y" by (metis find_None_iff not_Some_eq)
  moreover from this have "P y" by (auto simp: find_Some_iff)
  ultimately show ?thesis using assms(1) x(1) Some by metis
qed

text \<open>
  \<open>auth.Kind\<close> is a function of the token: whatever order Go's randomised map iteration
  visits the four prefixes in, the answer is the same.
\<close>

lemma Kind_order_irrelevant:
  "set order = set token_kinds \<Longrightarrow> Kind order token = Kind token_kinds token"
  unfolding Kind_def using kind_matches_unique find_unique by metis

lemma TrimSpace_token:
  assumes "p \<noteq> []" and "bs \<noteq> []" and "(of_char (hd p) :: nat) < 128" and "\<not> IsSpace (of_char (hd p))"
  shows "TrimSpace (p @ hex_encode bs) = p @ hex_encode bs"
proof -
  have ne: "hex_encode bs \<noteq> []" using assms(2) by (metis length_0_conv length_hex_encode mult_is_0 zero_neq_numeral)
  have "is_hex_digit (last (hex_encode bs))"
    using hex_encode_digits [of bs] ne by (auto simp: list_all_iff)
  with ne assms show ?thesis
    using hex_digit_not_space by (intro TrimSpace_id) auto
qed

lemma kind_matches_new:
  assumes "tokenPrefixes k = Some p" and "length bs = 32"
  shows "kind_matches (p @ hex_encode bs) k"
  using assms by (simp add: kind_matches_def)

lemma tokenPrefixes_start: "tokenPrefixes k = Some p \<Longrightarrow> \<exists>q. p = CHR ''t'' # q"
  by (cases k) auto

text \<open>
  A credential minted by \<open>NewToken\<close> from 32 random bytes is recognised by \<open>Kind\<close> as
  exactly the kind it was minted for, in every map iteration order: an invitation is never
  taken for a device or administrator credential, nor the other way round.
\<close>

theorem Kind_NewToken:
  assumes "NewToken (Some bs) k = Inr t" and "length bs = 32" and "set order = set token_kinds"
  shows "Kind order t = Inr k"
proof -
  from assms(1) obtain p where p: "tokenPrefixes k = Some p" and t: "t = p @ hex_encode bs"
    by (auto simp: NewToken_def split: option.splits)
  have bs: "bs \<noteq> []" using assms(2) by auto
  have "TrimSpace t = t"
    unfolding t using tokenPrefixes_start [OF p] bs by (auto intro!: TrimSpace_token simp: IsSpace_def)
  then have m: "kind_matches (TrimSpace t) k"
    unfolding t using kind_matches_new [OF p assms(2)] by simp
  have k: "k \<in> set order" using p assms(3) by (cases k) (auto simp: token_kinds_def)
  then obtain k' where "find (kind_matches (TrimSpace t)) order = Some k'"
    using m by (metis find_None_iff not_Some_eq)
  moreover from this have "kind_matches (TrimSpace t) k'" by (auto simp: find_Some_iff)
  ultimately show ?thesis
    using m kind_matches_unique by (auto simp: Kind_def)
qed

theorem Kind_NewToken_witness:
  "NewToken (Some (replicate 32 CHR ''x'')) TokenInvite =
     Inr (''tr_inv_'' @ hex_encode (replicate 32 CHR ''x'')) \<and>
   Kind token_kinds (''tr_inv_'' @ hex_encode (replicate 32 CHR ''x'')) = Inr TokenInvite"
proof -
  have mint: "NewToken (Some (replicate 32 CHR ''x'')) TokenInvite =
     Inr (''tr_inv_'' @ hex_encode (replicate 32 CHR ''x''))"
    by (simp add: NewToken_def)
  show ?thesis using mint Kind_NewToken [OF mint, of token_kinds] by simp
qed

end
