(* ===== verification/Redis_Model.thy ===== *)
theory Redis_Model
  imports Go_Prelude
begin

text \<open>
  The shape of the relay's stored state and of its optimistic transactions.

  \<^item> A string key holds a JSON document: \<open>Json x\<close> when it decodes to the record \<open>x\<close> the
    reader expects, \<open>Junk\<close> when it does not decode. A key may carry a deadline after which
    \<open>GET\<close> no longer finds it; the clock is the server's own and moves between commands.
  \<^item> \<open>rdb.Watch\<close> runs a body that reads and then queues writes for \<open>EXEC\<close>. Other clients act
    between the steps: the environment of one attempt says what they do before the body
    reads and between its reads and its \<open>EXEC\<close>, whether the reply to \<open>EXEC\<close> is lost, and what
    the caller's clock shows. \<open>EXEC\<close> applies the writes only if no watched key changed.
  \<^item> The callers retry an aborted attempt at most five times (\<open>watch_loop\<close>).
\<close>

section \<open>Keys, values and deadlines\<close>

datatype 'a raw = Json 'a | Junk

type_synonym 'a cell = "'a raw \<times> time option"
type_synonym 'a cells = "string \<Rightarrow> 'a cell option"

definition expired_at :: "time \<Rightarrow> time option \<Rightarrow> bool" where
  "expired_at clk d = (case d of None \<Rightarrow> False | Some t \<Rightarrow> t \<le> clk)"

definition rget :: "time \<Rightarrow> 'a cells \<Rightarrow> string \<Rightarrow> 'a raw option" where
  "rget clk m k =
     (case m k of None \<Rightarrow> None | Some (v, d) \<Rightarrow> if expired_at clk d then None else Some v)"

text \<open>\<open>SET key value EX ttl\<close>; a zero duration stores without a deadline.\<close>

definition rset :: "time \<Rightarrow> string \<Rightarrow> 'a \<Rightarrow> duration \<Rightarrow> 'a cells \<Rightarrow> 'a cells" where
  "rset clk k v ttl m = m(k \<mapsto> (Json v, if ttl = 0 then None else Some (clk + ttl)))"

definition rexpire :: "time \<Rightarrow> string \<Rightarrow> duration \<Rightarrow> 'a cells \<Rightarrow> 'a cells" where
  "rexpire clk k ttl m =
     (case m k of
        None \<Rightarrow> m
      | Some (v, d) \<Rightarrow> if expired_at clk d then m else m(k \<mapsto> (v, Some (clk + ttl))))"

definition rdel :: "string \<Rightarrow> 'a cells \<Rightarrow> 'a cells" where
  "rdel k m = m(k := None)"

text \<open>A set is a duplicate-free list, in the order \<open>SMEMBERS\<close> returns it.\<close>

type_synonym sets = "string \<Rightarrow> (string list \<times> time option) option"

definition smembers :: "time \<Rightarrow> sets \<Rightarrow> string \<Rightarrow> string list" where
  "smembers clk m k =
     (case m k of None \<Rightarrow> [] | Some (xs, d) \<Rightarrow> if expired_at clk d then [] else xs)"

definition set_deadline :: "time \<Rightarrow> sets \<Rightarrow> string \<Rightarrow> time option" where
  "set_deadline clk m k =
     (case m k of None \<Rightarrow> None | Some (xs, d) \<Rightarrow> if expired_at clk d then None else d)"

definition sismember :: "time \<Rightarrow> sets \<Rightarrow> string \<Rightarrow> string \<Rightarrow> bool" where
  "sismember clk m k x \<longleftrightarrow> x \<in> set (smembers clk m k)"

definition r_sadd :: "time \<Rightarrow> string \<Rightarrow> string \<Rightarrow> sets \<Rightarrow> sets" where
  "r_sadd clk k x m = m(k \<mapsto> (sadd x (smembers clk m k), set_deadline clk m k))"

text \<open>Removing the last member removes the key.\<close>

definition r_srem :: "time \<Rightarrow> string \<Rightarrow> string \<Rightarrow> sets \<Rightarrow> sets" where
  "r_srem clk k x m =
     (let xs = srem x (smembers clk m k)
      in if xs = [] then m(k := None) else m(k \<mapsto> (xs, set_deadline clk m k)))"

definition s_expire :: "time \<Rightarrow> string \<Rightarrow> duration \<Rightarrow> sets \<Rightarrow> sets" where
  "s_expire clk k ttl m =
     (if smembers clk m k = [] then m else m(k \<mapsto> (smembers clk m k, Some (clk + ttl))))"

section \<open>Optimistic transactions\<close>

text \<open>
  How the body of a \<open>Watch\<close> ends: with an error, with a result and no write, with
  \<open>redis.TxFailedErr\<close> of its own making, or with queued writes and the result the caller
  gets if they are applied.
\<close>

datatype ('db, 'e, 'r) txn = TxErr 'e | TxDone 'r | TxRetry | TxExec "'db \<Rightarrow> 'db" 'r

text \<open>
  What \<open>EXEC\<close> does: it replies, it aborts although the watched keys read the same (they were
  written back), or the connection fails, after the writes were applied (\<open>True\<close>) or not.
\<close>

datatype exec_outcome = ExecReply | ExecAbort | ExecFault bool

record 'db attempt =
  att_pre :: "'db \<Rightarrow> 'db"
  att_now :: time
  att_mid :: "'db \<Rightarrow> 'db"
  att_stamp :: time
  att_exec :: exec_outcome

fun watch_loop ::
  "('db \<Rightarrow> bool) \<Rightarrow> ('db \<Rightarrow> 'w) \<Rightarrow> ('db attempt \<Rightarrow> 'db \<Rightarrow> ('db, 'e, 'r) txn) \<Rightarrow> 'e \<Rightarrow> 'e \<Rightarrow>
   nat \<Rightarrow> (nat \<Rightarrow> 'db attempt) \<Rightarrow> 'db \<Rightarrow> 'db \<times> ('e, 'r) result" where
  "watch_loop up view body fault exhausted 0 atts db = (db, Inl exhausted)"
| "watch_loop up view body fault exhausted (Suc n) atts db =
     (let a = atts 0; db1 = att_pre a db in
      case body a db1 of
        TxErr e \<Rightarrow> (db1, Inl e)
      | TxDone r \<Rightarrow> (db1, Inr r)
      | TxRetry \<Rightarrow> watch_loop up view body fault exhausted n (\<lambda>i. atts (Suc i)) db1
      | TxExec f r \<Rightarrow>
          (let db2 = att_mid a db1; unchanged = (view db2 = view db1) in
           if \<not> up db2 then (db2, Inl fault)
           else case att_exec a of
             ExecFault applied \<Rightarrow> (if applied \<and> unchanged then f db2 else db2, Inl fault)
           | ExecAbort \<Rightarrow> watch_loop up view body fault exhausted n (\<lambda>i. atts (Suc i)) db2
           | ExecReply \<Rightarrow>
               if unchanged then (f db2, Inr r)
               else watch_loop up view body fault exhausted n (\<lambda>i. atts (Suc i)) db2))"

text \<open>An attempt that nobody disturbs.\<close>

definition calm :: "time \<Rightarrow> 'db attempt" where
  "calm t = \<lparr>att_pre = id, att_now = t, att_mid = id, att_stamp = t,
             att_exec = ExecReply\<rparr>"

text \<open>The same body run as one indivisible step.\<close>

definition atomic_step ::
  "('db attempt \<Rightarrow> 'db \<Rightarrow> ('db, 'e, 'r) txn) \<Rightarrow> 'e \<Rightarrow> 'db attempt \<Rightarrow> 'db \<Rightarrow> 'db \<times> ('e, 'r) result" where
  "atomic_step body retry a d =
     (case body a d of
        TxErr e \<Rightarrow> (d, Inl e)
      | TxDone r \<Rightarrow> (d, Inr r)
      | TxRetry \<Rightarrow> (d, Inl retry)
      | TxExec f r \<Rightarrow> (f d, Inr r))"

section \<open>The contract of a watched body\<close>

text \<open>
  The keys a body watches must determine the writes it queues: reading the same values under
  the watched keys (and the server answering), it queues the same writes and reports the same result. Every transaction
  of the relay is shown to meet this contract; what follows from it is proved once here.
\<close>

locale watched =
  fixes up :: "'db \<Rightarrow> bool"
    and view :: "'db \<Rightarrow> 'w"
    and body :: "'db attempt \<Rightarrow> 'db \<Rightarrow> ('db, 'e, 'r) txn"
  assumes exec_determined:
    "body a d = TxExec f r \<Longrightarrow> up d' \<Longrightarrow> view d' = view d \<Longrightarrow> body a d' = TxExec f r"
begin

text \<open>A reply is the reply of one indivisible step, and nothing happens after it.\<close>

lemma loop_linearizes:
  assumes "watch_loop up view body fault exhausted n atts db = (db', Inr r)"
  shows "\<exists>i<n. \<exists>d. atomic_step body exhausted (atts i) d = (db', Inr r)"
  using assms
proof (induction n arbitrary: atts db)
  case (Suc n)
  let ?a = "atts 0"
  let ?db1 = "att_pre ?a db"
  let ?db2 = "att_mid ?a ?db1"
  have later: "watch_loop up view body fault exhausted n (\<lambda>i. atts (Suc i)) x = (db', Inr r) \<Longrightarrow> ?case" for x
    using Suc.IH [of "\<lambda>i. atts (Suc i)" x] by (metis Suc_less_eq)
  show ?case
  proof (cases "body ?a ?db1")
    case (TxErr e)
    with Suc.prems show ?thesis by (auto simp: Let_def split: if_splits)
  next
    case (TxDone r')
    with Suc.prems have "atomic_step body exhausted ?a ?db1 = (db', Inr r)"
      by (auto simp: Let_def atomic_step_def split: if_splits)
    then show ?thesis by blast
  next
    case TxRetry
    with Suc.prems later [of ?db1] show ?thesis by (auto simp: Let_def split: if_splits)
  next
    case (TxExec f r')
    show ?thesis
    proof (cases "up ?db2 \<and> att_exec ?a = ExecReply \<and> view ?db2 = view ?db1")
      case True
      with TxExec have "body ?a ?db2 = TxExec f r'" by (blast intro: exec_determined)
      moreover from True TxExec Suc.prems have "db' = f ?db2 \<and> r = r'"
        by (auto simp: Let_def split: if_splits)
      ultimately have "atomic_step body exhausted ?a ?db2 = (db', Inr r)"
        by (simp add: atomic_step_def)
      then show ?thesis by blast
    next
      case False
      with TxExec Suc.prems later [of ?db2] show ?thesis
        by (auto simp: Let_def split: if_splits exec_outcome.splits)
    qed
  qed
qed simp

text \<open>
  A reflexive and transitive relation that the other clients and every applied write respect
  relates the states before and after the call, whatever its outcome; \<open>J\<close> is what the other
  clients keep true until the call commits.
\<close>

lemma loop_relates:
  assumes start: "J db" and refl: "\<And>d. R d d" and trans: "\<And>d d' d''. R d d' \<Longrightarrow> R d' d'' \<Longrightarrow> R d d''"
    and env: "\<And>i d. J d \<Longrightarrow> R d (att_pre (atts i) d) \<and> J (att_pre (atts i) d)"
      "\<And>i d. J d \<Longrightarrow> R d (att_mid (atts i) d) \<and> J (att_mid (atts i) d)"
    and step: "\<And>i d f r. J d \<Longrightarrow> up d \<Longrightarrow> body (atts i) d = TxExec f r \<Longrightarrow> R d (f d)"
  shows "R db (fst (watch_loop up view body fault exhausted n atts db))"
  using start env step
proof (induction n arbitrary: atts db)
  case 0
  then show ?case by (simp add: refl)
next
  case (Suc n)
  let ?a = "atts 0"
  let ?db1 = "att_pre ?a db"
  let ?db2 = "att_mid ?a ?db1"
  have R1: "R db ?db1" "J ?db1" using Suc.prems(1,2) by blast+
  have R2: "R db ?db2" "J ?db2" using R1 Suc.prems(3) trans by blast+
  have later: "R db (fst (watch_loop up view body fault exhausted n (\<lambda>i. atts (Suc i)) x))"
    if "R db x" "J x" for x
  proof -
    have "R x (fst (watch_loop up view body fault exhausted n (\<lambda>i. atts (Suc i)) x))"
      by (rule Suc.IH) (use that Suc.prems(2-4) in blast)+
    with that(1) show ?thesis by (rule trans)
  qed
  show ?case
  proof (cases "body ?a ?db1")
    case (TxExec f r)
    have "up ?db2 \<Longrightarrow> view ?db2 = view ?db1 \<Longrightarrow> R db (f ?db2)"
      using TxExec exec_determined Suc.prems(4) R2 trans by metis
    then show ?thesis using TxExec R1 R2 later [OF R2]
      by (auto simp: Let_def split: exec_outcome.splits)
  qed (use R1 later [OF R1] in \<open>auto simp: Let_def\<close>)
qed

text \<open>In particular an invariant of the state survives every call.\<close>

lemma loop_keeps:
  assumes "I db"
    and "\<And>i d. I d \<Longrightarrow> I (att_pre (atts i) d)" "\<And>i d. I d \<Longrightarrow> I (att_mid (atts i) d)"
    and "\<And>i d f r. I d \<Longrightarrow> body (atts i) d = TxExec f r \<Longrightarrow> I (f d)"
  shows "I (fst (watch_loop up view body fault exhausted n atts db))"
proof -
  have "(\<lambda>d d'. I d \<longrightarrow> I d') db (fst (watch_loop up view body fault exhausted n atts db))"
    by (rule loop_relates [where J = "\<lambda>_. True"]) (use assms(2-) in blast)+
  with assms(1) show ?thesis by blast
qed

end

text \<open>
  A weaker contract suffices for a body that also reads keys it does not watch: whatever it saw
  there, the writes it queued make a legal \<open>step\<close> of any state that still reads the same under the
  watched keys. \<open>J\<close> is what holds of the states a call meets.
\<close>

locale commits =
  fixes up :: "'db \<Rightarrow> bool"
    and view :: "'db \<Rightarrow> 'w"
    and body :: "'db attempt \<Rightarrow> 'db \<Rightarrow> ('db, 'e, 'r) txn"
    and step :: "'db \<Rightarrow> 'db \<Rightarrow> bool"
    and J :: "'db \<Rightarrow> bool"
  assumes commit_step:
    "J d \<Longrightarrow> body a d = TxExec f r \<Longrightarrow> J d' \<Longrightarrow> up d' \<Longrightarrow> view d' = view d \<Longrightarrow> step d' (f d')"
begin

text \<open>How a call ends with a reply: without writes, or with a commit.\<close>

definition replies :: "(nat \<Rightarrow> 'db attempt) \<Rightarrow> 'db \<Rightarrow> 'db \<Rightarrow> 'r \<Rightarrow> bool" where
  "replies atts db db' r \<longleftrightarrow>
     (\<exists>i d. J d \<and> step\<^sup>*\<^sup>* db d \<and>
        (body (atts i) d = TxDone r \<and> db' = d \<or>
         (\<exists>f d'. body (atts i) d = TxExec f r \<and> J d' \<and> step\<^sup>*\<^sup>* d d' \<and> up d' \<and> view d' = view d \<and> db' = f d')))"

lemma loop_steps:
  assumes "J db"
    and "\<And>i d. J d \<Longrightarrow> step\<^sup>*\<^sup>* d (att_pre (atts i) d) \<and> J (att_pre (atts i) d)"
    and "\<And>i d. J d \<Longrightarrow> step\<^sup>*\<^sup>* d (att_mid (atts i) d) \<and> J (att_mid (atts i) d)"
  shows "step\<^sup>*\<^sup>* db (fst (watch_loop up view body fault exhausted n atts db)) \<and>
    (\<forall>r. snd (watch_loop up view body fault exhausted n atts db) = Inr r \<longrightarrow>
       replies atts db (fst (watch_loop up view body fault exhausted n atts db)) r)"
  using assms
proof (induction n arbitrary: atts db)
  case (Suc n)
  let ?a = "atts 0"
  let ?db1 = "att_pre ?a db"
  let ?db2 = "att_mid ?a ?db1"
  let ?rest = "\<lambda>x. watch_loop up view body fault exhausted n (\<lambda>i. atts (Suc i)) x"
  have R1: "step\<^sup>*\<^sup>* db ?db1" "J ?db1" using Suc.prems(1,2) by blast+
  have R2: "step\<^sup>*\<^sup>* ?db1 ?db2" "J ?db2" using R1 Suc.prems(3) by blast+
  have later: "step\<^sup>*\<^sup>* db (fst (?rest x)) \<and> (\<forall>r. snd (?rest x) = Inr r \<longrightarrow> replies atts db (fst (?rest x)) r)"
    if "step\<^sup>*\<^sup>* db x" "J x" for x
  proof -
    have "step\<^sup>*\<^sup>* x (fst (?rest x)) \<and> (\<forall>r. snd (?rest x) = Inr r \<longrightarrow> replies (\<lambda>i. atts (Suc i)) x (fst (?rest x)) r)"
      by (rule Suc.IH) (use that Suc.prems(2,3) in blast)+
    with that(1) show ?thesis unfolding replies_def by (meson rtranclp_trans)
  qed
  show ?case
  proof (cases "body ?a ?db1")
    case (TxDone r)
    then have "replies atts db ?db1 r" using R1 unfolding replies_def by blast
    with TxDone R1 show ?thesis by (simp add: Let_def)
  next
    case (TxExec f r)
    have c: "step\<^sup>*\<^sup>* db (f ?db2) \<and> replies atts db (f ?db2) r" if "up ?db2" "view ?db2 = view ?db1"
    proof
      show "step\<^sup>*\<^sup>* db (f ?db2)"
        using commit_step [OF R1(2) TxExec R2(2) that] R1(1) R2(1) by (meson rtranclp.rtrancl_into_rtrancl rtranclp_trans)
      show "replies atts db (f ?db2) r" using TxExec R1 R2 that unfolding replies_def by blast
    qed
    show ?thesis using TxExec c R1 R2 later [OF rtranclp_trans [OF R1(1) R2(1)] R2(2)]
      by (auto simp: Let_def split: exec_outcome.splits)
  qed (use R1 later [OF R1] in \<open>auto simp: Let_def\<close>)
qed simp

end

lemma watch_loop_calm:
  "0 < n \<Longrightarrow> watch_loop up view body fault exhausted n (\<lambda>_. calm t) db =
     (case body (calm t) db of
        TxErr e \<Rightarrow> (db, Inl e)
      | TxDone r \<Rightarrow> (db, Inr r)
      | TxRetry \<Rightarrow> watch_loop up view body fault exhausted (n - 1) (\<lambda>_. calm t) db
      | TxExec f r \<Rightarrow> if up db then (f db, Inr r) else (db, Inl fault))"
  by (cases n) (auto simp: calm_def Let_def split: txn.splits)

section \<open>Reading back\<close>

lemma rget_rset [simp, go_map]:
  "rget clk (rset clk' k v ttl m) k' =
     (if k' = k then (if ttl \<noteq> 0 \<and> clk' + ttl \<le> clk then None else Some (Json v)) else rget clk m k')"
  by (auto simp: rget_def rset_def expired_at_def)

lemma rget_rdel [simp, go_map]: "rget clk (rdel k m) k' = (if k' = k then None else rget clk m k')"
  by (simp add: rget_def rdel_def)

lemma rget_rexpire [go_map]:
  "0 < ttl \<Longrightarrow> rget clk (rexpire clk k ttl m) k' = rget clk m k'"
  by (auto simp: rget_def rexpire_def expired_at_def split: option.splits)

lemma smembers_r_sadd [simp, go_map]:
  "smembers clk (r_sadd clk k x m) k' = (if k' = k then sadd x (smembers clk m k) else smembers clk m k')"
  by (auto simp: smembers_def r_sadd_def set_deadline_def expired_at_def split: option.splits)

lemma smembers_r_srem [simp, go_map]:
  "smembers clk (r_srem clk k x m) k' = (if k' = k then srem x (smembers clk m k) else smembers clk m k')"
  by (auto simp: smembers_def r_srem_def set_deadline_def expired_at_def Let_def split: option.splits)

lemma smembers_s_expire [simp, go_map]:
  "0 < ttl \<Longrightarrow> smembers clk (s_expire clk k ttl m) k' = smembers clk m k'"
  by (auto simp: smembers_def s_expire_def expired_at_def split: option.splits)

end
