(* ===== verification/Collab_Types.thy ===== *)
theory Collab_Types
  imports Protocol Auth Redis_Model
begin

text \<open>
  The relay's collaboration state (\<open>internal/collaboration/store.go\<close>, records and keys, and
  \<open>internal/keyspace/collaboration.go\<close>).

  The database is one record: a map per family of keys, each indexed by the full key string
  the code builds, the sets, the server's clock and whether the server answers at all. Every
  command of the code fails with \<open>ErrRedis\<close> while \<open>db_up\<close> is false. Because the organization
  and the identifier inside a key are hex encoded, keys of different families, organizations
  or identifiers never collide (\<open>relay_keys_injective\<close>).
\<close>

section \<open>Errors and constants\<close>

text \<open>
  The sentinel errors; wrapped ones (\<open>fmt.Errorf("%w: ...", ErrX)\<close>) keep their kind. \<open>ErrRedis\<close> is a
  failed command, \<open>ErrTxFailed\<close> five aborted attempts, \<open>errNotAwaitingExpiry\<close> is private to
  \<open>expireAwaiting\<close>.
\<close>

datatype relay_error =
    ErrUnauthorized | ErrForbidden | ErrNotFound | ErrInvalid | ErrConflict
  | ErrRedis | ErrTxFailed | errNotAwaitingExpiry

definition agentTTL :: duration where
  "agentTTL = 75 * second"

definition requestRetention :: duration where
  "requestRetention = 7 * 24 * hour"

definition conversationTTL :: duration where
  "conversationTTL = 30 * 24 * hour"

definition maximumAnswerBytes :: nat where
  "maximumAnswerBytes = 128 * 1024"

definition maximumErrorBytes :: nat where
  "maximumErrorBytes = 4 * 1024"

section \<open>Stored records\<close>

record AgentQuery =
  aq_Need :: string
  aq_Capabilities :: "string list"
  aq_WorkspaceAliases :: "string list"
  aq_OnlineOnly :: bool
  aq_AcceptingOnly :: bool
  aq_Limit :: int

record storedRequest =
  sr_Request :: Request
  sr_Prompt :: string
  sr_IdempotencyRedisKey :: string
  sr_DecisionID :: string
  sr_Decision :: Decision
  sr_ExecutionClaimID :: string
  sr_ResultDigest :: string

record conversation =
  cv_ID :: string
  cv_OrganizationID :: string
  cv_RequesterAgentID :: string
  cv_TargetAgentID :: string

record storedArtifact =
  sa_Descriptor :: ArtifactDescriptor
  sa_Encoding :: string
  sa_ContentBase64 :: string
  sa_RequestID :: string
  sa_RequesterAgentID :: string
  sa_TargetAgentID :: string
  sa_Direction :: string

record idempotencyRecord =
  id_RequestID :: string
  id_Digest :: string

text \<open>The encodings that only feed a digest are functions of the environment.\<close>

record relaylib = golib +
  json_create :: "CreateRequest \<Rightarrow> string"
  json_result :: "ResultPayload \<Rightarrow> string"

record relay_db =
  db_up :: bool
  db_clock :: time
  db_agents :: "AgentCard cells"
  db_requests :: "storedRequest cells"
  db_conversations :: "conversation cells"
  db_artifacts :: "storedArtifact cells"
  db_idempotency :: "idempotencyRecord cells"
  db_sets :: sets

definition empty_relay_db :: relay_db where
  "empty_relay_db =
     \<lparr>db_up = True, db_clock = 0, db_agents = Map.empty, db_requests = Map.empty,
      db_conversations = Map.empty, db_artifacts = Map.empty, db_idempotency = Map.empty,
      db_sets = Map.empty\<rparr>"

section \<open>Keys\<close>

definition collab_prefix :: string where
  "collab_prefix = ''team-relay:v1:collab:''"

definition CollaborationRevokedAgents :: "string \<Rightarrow> string" where
  "CollaborationRevokedAgents org = collab_prefix @ hex_encode org @ '':revoked-agents''"

definition escaped :: "string \<Rightarrow> string" where
  "escaped value = hex_encode value"

definition agentKey :: "string \<Rightarrow> string \<Rightarrow> string" where
  "agentKey org agent = collab_prefix @ escaped org @ '':agent:'' @ escaped agent"

definition agentsKey :: "string \<Rightarrow> string" where
  "agentsKey org = collab_prefix @ escaped org @ '':agents''"

definition revokedAgentsKey :: "string \<Rightarrow> string" where
  "revokedAgentsKey org = CollaborationRevokedAgents org"

definition requestKey :: "string \<Rightarrow> string \<Rightarrow> string" where
  "requestKey org request = collab_prefix @ escaped org @ '':request:'' @ escaped request"

definition inboxKey :: "string \<Rightarrow> string \<Rightarrow> string" where
  "inboxKey org agent = collab_prefix @ escaped org @ '':inbox:'' @ escaped agent"

definition conversationKey :: "string \<Rightarrow> string \<Rightarrow> string" where
  "conversationKey org conv = collab_prefix @ escaped org @ '':conversation:'' @ escaped conv"

definition artifactKey :: "string \<Rightarrow> string \<Rightarrow> string" where
  "artifactKey org artifact = collab_prefix @ escaped org @ '':artifact:'' @ escaped artifact"

definition idempotencyKey :: "('l) golib_scheme \<Rightarrow> string \<Rightarrow> string \<Rightarrow> string \<Rightarrow> string" where
  "idempotencyKey L org agent key =
     collab_prefix @ escaped org @ '':idempotency:'' @ escaped agent @ '':'' @ sha256_hex L key"

definition randomID :: "string \<Rightarrow> string \<Rightarrow> string" where
  "randomID bs prefixValue = prefixValue @ hex_encode bs"

section \<open>Reading\<close>

text \<open>
  \<open>readAgent\<close> sends two commands; \<open>d\<close> is the state that answers the first and \<open>e\<close> the one that
  answers the second.
\<close>

definition readAgent :: "relay_db \<Rightarrow> relay_db \<Rightarrow> string \<Rightarrow> string \<Rightarrow> (relay_error, AgentCard) result" where
  "readAgent d e org agentID =
     (if \<not> db_up d then Inl ErrRedis
      else if sismember (db_clock d) (db_sets d) (revokedAgentsKey org) agentID then Inl ErrNotFound
      else if \<not> db_up e then Inl ErrRedis
      else case rget (db_clock e) (db_agents e) (agentKey org agentID) of
        None \<Rightarrow> Inl ErrNotFound
      | Some Junk \<Rightarrow> Inl ErrNotFound
      | Some (Json c) \<Rightarrow> if card_AgentID c \<noteq> agentID then Inl ErrNotFound else Inr c)"

definition readConversation :: "relay_db \<Rightarrow> string \<Rightarrow> string \<Rightarrow> (relay_error, conversation) result" where
  "readConversation d org conversationID =
     (if \<not> db_up d then Inl ErrRedis
      else case rget (db_clock d) (db_conversations d) (conversationKey org conversationID) of
        None \<Rightarrow> Inl ErrNotFound
      | Some Junk \<Rightarrow> Inl ErrNotFound
      | Some (Json value) \<Rightarrow>
          if cv_OrganizationID value \<noteq> org \<or> cv_ID value \<noteq> conversationID then Inl ErrNotFound
          else Inr value)"

definition readStoredRequest :: "relay_db \<Rightarrow> string \<Rightarrow> string \<Rightarrow> (relay_error, storedRequest) result" where
  "readStoredRequest d org requestID =
     (if \<not> db_up d then Inl ErrRedis
      else case rget (db_clock d) (db_requests d) (requestKey org (TrimSpace requestID)) of
        None \<Rightarrow> Inl ErrNotFound
      | Some Junk \<Rightarrow> Inl ErrNotFound
      | Some (Json stored) \<Rightarrow>
          if rq_RequestID (sr_Request stored) \<noteq> TrimSpace requestID then Inl ErrNotFound
          else Inr stored)"

section \<open>Keys do not collide\<close>

text \<open>Every key the package builds, as the function that builds it and its arguments.\<close>

datatype relay_key =
    KAgent string string | KAgents string | KRevoked string | KRequest string string
  | KInbox string string | KConversation string string | KArtifact string string
  | KIdempotency string string string

fun key_string :: "('l) golib_scheme \<Rightarrow> relay_key \<Rightarrow> string" where
  "key_string L (KAgent org agent) = agentKey org agent"
| "key_string L (KAgents org) = agentsKey org"
| "key_string L (KRevoked org) = revokedAgentsKey org"
| "key_string L (KRequest org request) = requestKey org request"
| "key_string L (KInbox org agent) = inboxKey org agent"
| "key_string L (KConversation org conv) = conversationKey org conv"
| "key_string L (KArtifact org artifact) = artifactKey org artifact"
| "key_string L (KIdempotency org agent key) = idempotencyKey L org agent key"

lemmas key_defs =
  agentKey_def agentsKey_def revokedAgentsKey_def CollaborationRevokedAgents_def requestKey_def
  inboxKey_def conversationKey_def artifactKey_def idempotencyKey_def escaped_def

text \<open>
  A hex-encoded component ends at the first colon, so two concatenations agree only if the
  components do.
\<close>

lemma colon_split [simp]:
  "CHR '':'' \<notin> set a \<Longrightarrow> CHR '':'' \<notin> set b \<Longrightarrow>
   a @ CHR '':'' # s = b @ CHR '':'' # t \<longleftrightarrow> a = b \<and> s = t"
proof (induction a arbitrary: b)
  case Nil
  then show ?case by (cases b) auto
next
  case (Cons c a)
  then show ?case by (cases b) auto
qed

text \<open>
  No two keys of the collaboration keyspace coincide: a key determines its family, its
  organization and its identifier, whatever bytes those contain, so that one organization can
  never read or overwrite another's records and no record can be taken for one of another
  kind. The only exception are two idempotency keys of the same agent whose client-chosen parts
  have the same SHA-256 digest.
\<close>

theorem relay_keys_injective:
  "key_string L k = key_string L k' \<longleftrightarrow>
   k = k' \<or>
   (\<exists>org agent x y. k = KIdempotency org agent x \<and> k' = KIdempotency org agent y \<and>
      sha256_sum L x = sha256_sum L y)"
  by (cases k; cases k') (auto simp: key_defs sha256_hex_def)

lemma requestKey_inj [simp]: "requestKey o1 r1 = requestKey o2 r2 \<longleftrightarrow> o1 = o2 \<and> r1 = r2"
  by (auto simp: key_defs)

lemma agentKey_inj [simp]: "agentKey o1 a1 = agentKey o2 a2 \<longleftrightarrow> o1 = o2 \<and> a1 = a2"
  by (auto simp: key_defs)

lemma artifactKey_inj [simp]: "artifactKey o1 a1 = artifactKey o2 a2 \<longleftrightarrow> o1 = o2 \<and> a1 = a2"
  by (auto simp: key_defs)

lemma conversationKey_inj [simp]: "conversationKey o1 c1 = conversationKey o2 c2 \<longleftrightarrow> o1 = o2 \<and> c1 = c2"
  by (auto simp: key_defs)

lemma inboxKey_inj [simp]: "inboxKey o1 a1 = inboxKey o2 a2 \<longleftrightarrow> o1 = o2 \<and> a1 = a2"
  by (auto simp: key_defs)

lemma idempotencyKey_org: "idempotencyKey L o1 a1 k1 = idempotencyKey L' o2 a2 k2 \<Longrightarrow> o1 = o2 \<and> a1 = a2"
  by (auto simp: key_defs)

lemma set_keys_distinct [simp]:
  "revokedAgentsKey o1 = revokedAgentsKey o2 \<longleftrightarrow> o1 = o2"
  "agentsKey o1 = agentsKey o2 \<longleftrightarrow> o1 = o2"
  "agentsKey o1 \<noteq> revokedAgentsKey o2" "revokedAgentsKey o2 \<noteq> agentsKey o1"
  "inboxKey o1 a \<noteq> revokedAgentsKey o2" "revokedAgentsKey o2 \<noteq> inboxKey o1 a"
  "inboxKey o1 a \<noteq> agentsKey o2" "agentsKey o2 \<noteq> inboxKey o1 a"
  by (auto simp: key_defs)

lemma readStoredRequest_SomeD:
  "readStoredRequest d org i = Inr s \<Longrightarrow>
   db_up d \<and> rget (db_clock d) (db_requests d) (requestKey org (TrimSpace i)) = Some (Json s) \<and>
   rq_RequestID (sr_Request s) = TrimSpace i"
  by (auto simp: readStoredRequest_def split: if_splits option.splits raw.splits)

lemma TrimSpace_randomID [simp]: "TrimSpace (randomID bs ''req_'') = randomID bs ''req_''"
proof (rule TrimSpace_id)
  have "last (randomID bs ''req_'') = (if bs = [] then CHR ''_'' else last (hex_encode bs))"
    by (cases "bs = []") (auto simp: randomID_def last_append dest: arg_cong [of _ _ length])
  then show "(of_char (last (randomID bs ''req_'')) :: nat) < 128" "\<not> IsSpace (of_char (last (randomID bs ''req_'')))"
    using last_hex_encode [of bs] hex_digit_not_space by (auto simp: IsSpace_def)
qed (auto simp: randomID_def IsSpace_def)

end
