(* ===== verification/Collab_Validate.thy ===== *)
theory Collab_Validate
  imports Collab_Types
begin

text \<open>
  The checks of \<open>internal/collaboration/store.go\<close> on what clients send: labels, identifiers,
  heartbeats, new requests, attachments and directory queries, and the small conversions
  from a stored request to what is returned of it.
\<close>

section \<open>Labels and identifiers\<close>

definition validLabel :: "string \<Rightarrow> nat \<Rightarrow> bool" where
  "validLabel value maximum =
     (let v = TrimSpace value
      in v \<noteq> [] \<and> length v \<le> maximum \<and> \<not> list_ex IsControl (runes v))"

text \<open>Every character the loop accepts is ASCII, so ranging over runes is ranging over bytes.\<close>

definition identifier_rune :: "nat \<Rightarrow> bool" where
  "identifier_rune r \<longleftrightarrow>
     (97 \<le> r \<and> r \<le> 122) \<or> (65 \<le> r \<and> r \<le> 90) \<or> (48 \<le> r \<and> r \<le> 57) \<or> r = 45 \<or> r = 95 \<or> r = 46"

definition validIdentifier :: "string \<Rightarrow> nat \<Rightarrow> bool" where
  "validIdentifier value maximum =
     (let v = TrimSpace value
      in v \<noteq> [] \<and> length v \<le> maximum \<and> list_all identifier_rune (runes v))"

definition validOpaqueID :: "string \<Rightarrow> string \<Rightarrow> bool" where
  "validOpaqueID value prefixValue \<longleftrightarrow>
     length value = length prefixValue + 64 \<and> HasPrefix value prefixValue \<and>
     hex_ok (drop (length prefixValue) value)"

definition validExecutionClaimID :: "string \<Rightarrow> bool" where
  "validExecutionClaimID value = validOpaqueID value ''claim_''"

definition validDecisionID :: "string \<Rightarrow> bool" where
  "validDecisionID value = validOpaqueID value ''decision_''"

definition opaqueIDMatches :: "string \<Rightarrow> string \<Rightarrow> bool" where
  "opaqueIDMatches stored presented \<longleftrightarrow>
     \<not> (length stored \<noteq> length presented \<or> stored = []) \<and> stored = presented"

definition executionClaimMatches :: "string \<Rightarrow> string \<Rightarrow> bool" where
  "executionClaimMatches stored presented = opaqueIDMatches stored presented"

definition forbidden_names :: "string list" where
  "forbidden_names =
     [''.env'', ''.netrc'', ''.npmrc'', ''.pypirc'', ''.gitconfig'', ''.git-credentials'',
      ''credentials'', ''credentials.json'', ''id_rsa'', ''id_ed25519'', ''known_hosts'',
      ''authorized_keys'']"

definition forbidden_suffixes :: "string list" where
  "forbidden_suffixes = [''.pem'', ''.key'', ''.p12'', ''.pfx'', ''.kdbx'']"

definition validArtifactName :: "('l) golib_scheme \<Rightarrow> string \<Rightarrow> bool" where
  "validArtifactName L value =
     (if ValidatePortableFilename L value \<noteq> Inr () \<or> \<not> validLabel value 255 then False
      else let lower = ToLower L value in
        if lower \<in> set forbidden_names then False
        else if HasPrefix lower ''.env.'' then False
        else \<not> list_ex (HasSuffix lower) forbidden_suffixes)"

definition validMIMEType :: "('l) golib_scheme \<Rightarrow> string \<Rightarrow> bool" where
  "validMIMEType L value =
     (if value \<noteq> TrimSpace value \<or> 255 < length value \<or> \<not> validLabel value 255 then False
      else media_type_ok L value)"

section \<open>Heartbeats and new requests\<close>

definition requireDevice :: "Principal \<Rightarrow> (relay_error, unit) result" where
  "requireDevice p =
     (if pr_TokenKind p \<noteq> TokenDevice \<or> pr_OrganizationID p = [] \<or> pr_MemberID p = [] \<or> pr_AgentID p = []
      then Inl ErrUnauthorized else Inr ())"

definition validateHeartbeat :: "AgentHeartbeat \<Rightarrow> (relay_error, unit) result" where
  "validateHeartbeat h =
     (if \<not> validLabel (hb_DisplayName h) 100 \<or> \<not> validLabel (rd_ID (hb_Runtime h)) 128 \<or>
         \<not> validLabel (rd_DisplayName (hb_Runtime h)) 100 then Inl ErrInvalid
      else if hb_Availability h \<noteq> AvailabilityAvailable \<and> hb_Availability h \<noteq> AvailabilityBusy \<and>
              hb_Availability h \<noteq> AvailabilityAway then Inl ErrInvalid
      else if \<not> PermissionMode_Valid (hb_PermissionMode h) then Inl ErrInvalid
      else if 20 < length (hb_Capabilities h) \<or> 20 < length (hb_WorkspaceAliases h) then Inl ErrInvalid
      else Inr ())"

text \<open>The loop over the requested accesses; \<open>seen\<close> are the folded aliases so far.\<close>

fun access_ok :: "('l) golib_scheme \<Rightarrow> string list \<Rightarrow> RequestedAccess list \<Rightarrow> bool" where
  "access_ok L seen [] = True"
| "access_ok L seen (a # rest) =
     (if \<not> validLabel (ra_WorkspaceAlias a) 100 \<or>
         (ra_Mode a \<noteq> PermissionReadOnly \<and> ra_Mode a \<noteq> PermissionGuardedWrite) then False
      else let key = ToLower L (TrimSpace (ra_WorkspaceAlias a)) in
        if key \<in> set seen then False else access_ok L (key # seen) rest)"

definition validateCreate :: "('l) golib_scheme \<Rightarrow> CreateRequest \<Rightarrow> (relay_error, unit) result" where
  "validateCreate L i =
     (if TrimSpace (cr_ConversationID i) = [] \<and> TrimSpace (cr_TargetAgentID i) = [] then Inl ErrInvalid
      else if \<not> validLabel (cr_Title i) MaxTitleBytes \<or> TrimSpace (cr_Prompt i) = [] \<or>
              MaxPromptBytes < length (cr_Prompt i) then Inl ErrInvalid
      else if \<not> validIdentifier (cr_IdempotencyKey i) 128 \<or> cr_ExpiresInSeconds i < 60 \<or>
              86400 < cr_ExpiresInSeconds i then Inl ErrInvalid
      else if cr_TargetAgentID i \<noteq> [] \<and> \<not> validIdentifier (cr_TargetAgentID i) 100 then Inl ErrInvalid
      else if cr_ConversationID i \<noteq> [] \<and> \<not> validIdentifier (cr_ConversationID i) 100 then Inl ErrInvalid
      else if 10 < length (cr_RequestedAccess i) \<or> MaxAttachments < length (cr_Attachments i) then Inl ErrInvalid
      else if \<not> access_ok L [] (cr_RequestedAccess i) then Inl ErrInvalid
      else Inr ())"

section \<open>Attachments\<close>

text \<open>
  One pass over the attachments, with the names seen, the running total (an \<open>int64\<close>) and the
  identifiers drawn from \<open>crypto/rand\<close>.
\<close>

fun prepare_loop ::
  "('l) golib_scheme \<Rightarrow> (nat \<Rightarrow> string) \<Rightarrow> string \<Rightarrow> string \<Rightarrow> string \<Rightarrow> string \<Rightarrow>
   string list \<Rightarrow> int \<Rightarrow> AttachmentInput list \<Rightarrow>
   (relay_error, ArtifactDescriptor list \<times> storedArtifact list) result" where
  "prepare_loop L rnd req requester target dir seen tot [] = Inr ([], [])"
| "prepare_loop L rnd req requester target dir seen tot (i # inputs) =
     (if \<not> validArtifactName L (ai_Name i) \<or> \<not> validMIMEType L (ai_MIMEType i) \<or>
         ai_Encoding i \<noteq> ''base64'' \<or> ai_SizeBytes i < 0 \<or> MaxAttachmentBytes < ai_SizeBytes i
      then Inl ErrInvalid
      else let key = ToLower L (ai_Name i) in
        if key \<in> set seen then Inl ErrInvalid
        else case base64_decode L (ai_ContentBase64 i) of
          None \<Rightarrow> Inl ErrInvalid
        | Some decoded \<Rightarrow>
            if int (length decoded) \<noteq> ai_SizeBytes i then Inl ErrInvalid
            else let tot' = i64 (tot + ai_SizeBytes i) in
              if MaxRequestPayloadBytes < tot' then Inl ErrInvalid
              else let computed = sha256_hex L decoded in
                if \<not> EqualFold L computed (ai_SHA256 i) then Inl ErrInvalid
                else let descriptor = \<lparr>ad_ArtifactID = randomID (rnd 0) ''art_'', ad_Name = ai_Name i,
                           ad_MIMEType = ai_MIMEType i, ad_SizeBytes = ai_SizeBytes i, ad_SHA256 = computed\<rparr>;
                         artifact = \<lparr>sa_Descriptor = descriptor, sa_Encoding = ''base64'',
                           sa_ContentBase64 = ai_ContentBase64 i, sa_RequestID = req,
                           sa_RequesterAgentID = requester, sa_TargetAgentID = target, sa_Direction = dir\<rparr>
                     in case prepare_loop L (\<lambda>n. rnd (Suc n)) req requester target dir (key # seen) tot' inputs of
                          Inl e \<Rightarrow> Inl e
                        | Inr (ds, arts) \<Rightarrow> Inr (descriptor # ds, artifact # arts))"

definition prepareArtifacts ::
  "('l) golib_scheme \<Rightarrow> (nat \<Rightarrow> string) \<Rightarrow> AttachmentInput list \<Rightarrow> string \<Rightarrow> string \<Rightarrow> string \<Rightarrow> string \<Rightarrow>
   (relay_error, ArtifactDescriptor list \<times> storedArtifact list) result" where
  "prepareArtifacts L rnd inputs req requester target dir =
     prepare_loop L rnd req requester target dir [] 0 inputs"

definition containsArtifact :: "ArtifactDescriptor list \<Rightarrow> string \<Rightarrow> bool" where
  "containsArtifact descriptors artifactID = list_ex (\<lambda>d. ad_ArtifactID d = artifactID) descriptors"

section \<open>Directory queries\<close>

definition containsAllFold :: "('l) golib_scheme \<Rightarrow> string list \<Rightarrow> string list \<Rightarrow> bool" where
  "containsAllFold L values wanted =
     list_all (\<lambda>w. list_ex (\<lambda>v. EqualFold L (TrimSpace v) (TrimSpace w)) values) wanted"

definition matchesAgent :: "('l) golib_scheme \<Rightarrow> AgentCard \<Rightarrow> AgentQuery \<Rightarrow> bool" where
  "matchesAgent L c q =
     (if aq_OnlineOnly q \<and> \<not> card_Online c then False
      else if \<not> containsAllFold L (card_Capabilities c) (aq_Capabilities q) \<or>
              \<not> containsAllFold L (card_WorkspaceAliases c) (aq_WorkspaceAliases q) then False
      else let need = ToLower L (TrimSpace (aq_Need q)) in
        if need = [] then True
        else list_ex (\<lambda>v. Contains (ToLower L v) need)
          ([card_DisplayName c, card_DeviceName c, rd_ID (card_Runtime c), rd_DisplayName (card_Runtime c)] @
           card_Capabilities c @ card_WorkspaceAliases c))"

text \<open>\<open>cleanUnique\<close>; \<open>room\<close> is how many entries may still be appended before the limit stops the loop.\<close>

fun clean_loop :: "('l) golib_scheme \<Rightarrow> nat \<Rightarrow> string list \<Rightarrow> string list \<Rightarrow> string list" where
  "clean_loop L room seen [] = []"
| "clean_loop L room seen (v # vs) =
     (let value = TrimSpace v; key = ToLower L value in
      if value = [] \<or> 100 < length value then clean_loop L room seen vs
      else if key \<in> set seen then clean_loop L room seen vs
      else if room = 1 then [value]
      else value # clean_loop L (room - 1) (key # seen) vs)"

definition cleanUnique :: "('l) golib_scheme \<Rightarrow> string list \<Rightarrow> nat \<Rightarrow> string list" where
  "cleanUnique L values limit = clean_loop L limit [] values"

section \<open>Conversions\<close>

definition mutation :: "Request \<Rightarrow> MutationResponse" where
  "mutation r = \<lparr>mr_RequestID = rq_RequestID r, mr_ConversationID = rq_ConversationID r, mr_Status = rq_Status r\<rparr>"

definition notice :: "Request \<Rightarrow> RequestNotice" where
  "notice r =
     \<lparr>rn_RequestID = rq_RequestID r, rn_ConversationID = rq_ConversationID r, rn_Status = rq_Status r,
      rn_RequesterAgentID = rq_RequesterAgentID r, rn_RequesterMemberID = rq_RequesterMemberID r,
      rn_RequesterDisplayName = rq_RequesterDisplayName r, rn_Title = rq_Title r,
      rn_PromptPreview = rq_PromptPreview r, rn_PromptBytes = rq_PromptBytes r,
      rn_PromptSHA256 = rq_PromptSHA256 r, rn_RequestedAccess = rq_RequestedAccess r,
      rn_Attachments = rq_Attachments r, rn_CreatedAt = rq_CreatedAt r, rn_ExpiresAt = rq_ExpiresAt r,
      rn_ResumesSession = False\<rparr>"

definition preview :: "string \<Rightarrow> nat \<Rightarrow> string" where
  "preview value n =
     (if length (runes value) \<le> n then value else string_of_runes (take n (runes value)))"

definition requestDigest :: "('l) relaylib_scheme \<Rightarrow> CreateRequest \<Rightarrow> string" where
  "requestDigest L i = sha256_hex L (json_create L i)"

definition digestResult :: "('l) relaylib_scheme \<Rightarrow> ResultPayload \<Rightarrow> string" where
  "digestResult L r = sha256_hex L (json_result L r)"

definition exactResultReplay :: "storedRequest \<Rightarrow> ResultPayload \<Rightarrow> string \<Rightarrow> bool" where
  "exactResultReplay s r digest \<longleftrightarrow>
     rq_Status (sr_Request s) = rp_State r \<and>
     executionClaimMatches (sr_ExecutionClaimID s) (rp_ExecutionClaimID r) \<and>
     opaqueIDMatches (sr_ResultDigest s) digest"

end
