(* ===== verification/Collab_Store.thy ===== *)
theory Collab_Store
  imports Collab_Validate
begin

text \<open>
  The operations of \<open>RedisStore\<close> (\<open>internal/collaboration/store.go\<close>).

  An operation takes the caller's clock readings, the bytes \<open>crypto/rand\<close> gives it, what the
  other clients do between its commands (functions on the database, or a sequence of
  \<open>attempt\<close>s for a \<open>Watch\<close> loop) and the database, and returns the database and its result.
  Values handed to an operation come out of a JSON decoder and are valid UTF-8, so a record
  read back is the record written. A failed command is \<open>ErrRedis\<close>; where the code discards
  the error of a command, a failed command changes nothing.
\<close>

section \<open>Presence\<close>

definition heartbeat_card :: "('l) golib_scheme \<Rightarrow> time \<Rightarrow> Principal \<Rightarrow> AgentHeartbeat \<Rightarrow> AgentCard" where
  "heartbeat_card L now p h =
     \<lparr>card_AgentID = pr_AgentID p, card_MemberID = pr_MemberID p,
      card_DisplayName = pr_DisplayName p, card_DeviceName = pr_DeviceName p,
      card_Availability = hb_Availability h, card_AcceptingRequests = hb_AcceptingRequests h,
      card_Runtime = hb_Runtime h, card_PermissionMode = hb_PermissionMode h,
      card_Capabilities = cleanUnique L (hb_Capabilities h) 20,
      card_WorkspaceAliases = cleanUnique L (hb_WorkspaceAliases h) 20,
      card_Online = True, card_LastSeen = now\<rparr>"

definition heartbeat_commit :: "string \<Rightarrow> AgentCard \<Rightarrow> relay_db \<Rightarrow> relay_db" where
  "heartbeat_commit org c d =
     d\<lparr>db_agents := rset (db_clock d) (agentKey org (card_AgentID c)) c agentTTL (db_agents d),
       db_sets := r_sadd (db_clock d) (agentsKey org) (card_AgentID c) (db_sets d)\<rparr>"

definition heartbeat_view :: "Principal \<Rightarrow> relay_db \<Rightarrow> string list" where
  "heartbeat_view p d = smembers (db_clock d) (db_sets d) (revokedAgentsKey (pr_OrganizationID p))"

definition heartbeat_body ::
  "Principal \<Rightarrow> AgentCard \<Rightarrow> relay_db attempt \<Rightarrow> relay_db \<Rightarrow> (relay_db, relay_error, AgentCard) txn" where
  "heartbeat_body p c a d =
     (if \<not> db_up d then TxErr ErrRedis
      else if sismember (db_clock d) (db_sets d) (revokedAgentsKey (pr_OrganizationID p)) (pr_AgentID p)
        then TxErr ErrForbidden
      else TxExec (heartbeat_commit (pr_OrganizationID p) c) c)"

definition Heartbeat ::
  "('l) golib_scheme \<Rightarrow> time \<Rightarrow> (nat \<Rightarrow> relay_db attempt) \<Rightarrow> Principal \<Rightarrow> AgentHeartbeat \<Rightarrow>
   relay_db \<Rightarrow> relay_db \<times> (relay_error, AgentCard) result" where
  "Heartbeat L now atts p h db =
     (case requireDevice p of Inl e \<Rightarrow> (db, Inl e) | Inr _ \<Rightarrow>
      case validateHeartbeat h of Inl e \<Rightarrow> (db, Inl e) | Inr _ \<Rightarrow>
      if TrimSpace (pr_Runtime p) = [] \<or> TrimSpace (pr_PermissionMode p) = [] \<or>
         TrimSpace (rd_ID (hb_Runtime h)) \<noteq> pr_Runtime p \<or>
         mode_string (hb_PermissionMode h) \<noteq> pr_PermissionMode p
      then (db, Inl ErrForbidden)
      else let c = heartbeat_card L now p h
           in watch_loop db_up (heartbeat_view p) (heartbeat_body p c) ErrRedis ErrTxFailed 5 atts db)"

text \<open>The commands whose error is discarded.\<close>

definition drop_from_set :: "string \<Rightarrow> string \<Rightarrow> relay_db \<Rightarrow> relay_db" where
  "drop_from_set k x d = (if db_up d then d\<lparr>db_sets := r_srem (db_clock d) k x (db_sets d)\<rparr> else d)"

definition drop_agent :: "string \<Rightarrow> relay_db \<Rightarrow> relay_db" where
  "drop_agent k d = (if db_up d then d\<lparr>db_agents := rdel k (db_agents d)\<rparr> else d)"

text \<open>
  One round of the loop of \<open>ListAgents\<close>: \<open>env 0\<close> and \<open>env 1\<close> are what the others do before its
  first and its second command.
\<close>

definition list_one ::
  "('l) golib_scheme \<Rightarrow> Principal \<Rightarrow> AgentQuery \<Rightarrow> string list \<Rightarrow> (nat \<Rightarrow> relay_db \<Rightarrow> relay_db) \<Rightarrow> string \<Rightarrow>
   relay_db \<Rightarrow> relay_db \<times> (relay_error, AgentCard option) result" where
  "list_one L p q revoked env i d =
     (let org = pr_OrganizationID p; d0 = env 0 d in
      if i \<in> set revoked
      then (drop_agent (agentKey org i) (env 1 (drop_from_set (agentsKey org) i d0)), Inr None)
      else if \<not> db_up d0 then (d0, Inl ErrRedis)
      else case rget (db_clock d0) (db_agents d0) (agentKey org i) of
        None \<Rightarrow> (drop_from_set (agentsKey org) i (env 1 d0), Inr None)
      | Some Junk \<Rightarrow> (d0, Inr None)
      | Some (Json stored) \<Rightarrow>
          if card_AgentID stored \<noteq> i then (d0, Inr None)
          else if card_MemberID stored = pr_MemberID p then (d0, Inr None)
          else let c = stored\<lparr>card_Online := True\<rparr> in
            if aq_AcceptingOnly q \<and> \<not> card_AcceptingRequests c then (d0, Inr None)
            else if \<not> matchesAgent L c q then (d0, Inr None)
            else (d0, Inr (Some c)))"

fun list_loop ::
  "('l) golib_scheme \<Rightarrow> Principal \<Rightarrow> AgentQuery \<Rightarrow> string list \<Rightarrow> (nat \<Rightarrow> relay_db \<Rightarrow> relay_db) \<Rightarrow>
   string list \<Rightarrow> relay_db \<Rightarrow> relay_db \<times> (relay_error, AgentCard list) result" where
  "list_loop L p q revoked env [] d = (d, Inr [])"
| "list_loop L p q revoked env (i # ids) d =
     (case list_one L p q revoked env i d of
        (d', Inl e) \<Rightarrow> (d', Inl e)
      | (d', Inr c) \<Rightarrow>
          (case list_loop L p q revoked (\<lambda>n. env (n + 2)) ids d' of
             (d'', Inl e) \<Rightarrow> (d'', Inl e)
           | (d'', Inr cs) \<Rightarrow> (d'', Inr (case c of None \<Rightarrow> cs | Some x \<Rightarrow> x # cs))))"

definition limit_to :: "int \<Rightarrow> 'a list \<Rightarrow> 'a list" where
  "limit_to n xs = (if 0 < n \<and> n < int (length xs) then take (nat n) xs else xs)"

text \<open>
  The sort is by display name, then identifier; identifiers of one answer are distinct, so the
  order is determined.
\<close>

definition ListAgents ::
  "('l) golib_scheme \<Rightarrow> time \<Rightarrow> (nat \<Rightarrow> relay_db \<Rightarrow> relay_db) \<Rightarrow> Principal \<Rightarrow> AgentQuery \<Rightarrow>
   relay_db \<Rightarrow> relay_db \<times> (relay_error, AgentDirectoryResponse) result" where
  "ListAgents L now env p q db =
     (case requireDevice p of Inl e \<Rightarrow> (db, Inl e) | Inr _ \<Rightarrow>
      let org = pr_OrganizationID p; d0 = env 0 db in
      if \<not> db_up d0 then (d0, Inl ErrRedis)
      else let ids = smembers (db_clock d0) (db_sets d0) (agentsKey org); d1 = env 1 d0 in
      if \<not> db_up d1 then (d1, Inl ErrRedis)
      else let revoked = smembers (db_clock d1) (db_sets d1) (revokedAgentsKey org) in
      case list_loop L p q revoked (\<lambda>n. env (n + 2)) ids d1 of
        (d', Inl e) \<Rightarrow> (d', Inl e)
      | (d', Inr cards) \<Rightarrow>
          (d', Inr \<lparr>dir_Agents = limit_to (aq_Limit q) (sort_key (\<lambda>c. [card_DisplayName c, card_AgentID c]) cards),
                    dir_ObservedAt = now\<rparr>))"

section \<open>Creating a request\<close>

type_synonym create_reply = "MutationResponse \<times> RequestNotice \<times> bool"

text \<open>An idempotency record was found: the earlier request is returned, or the key is refused.\<close>

definition existing_request ::
  "Principal \<Rightarrow> string \<Rightarrow> idempotencyRecord raw \<Rightarrow> relay_db \<Rightarrow> (relay_error, create_reply) result" where
  "existing_request p digest raw d =
     (case raw of
        Junk \<Rightarrow> Inl ErrConflict
      | Json existing \<Rightarrow>
          if id_Digest existing \<noteq> digest then Inl ErrConflict
          else case readStoredRequest d (pr_OrganizationID p) (id_RequestID existing) of
            Inl e \<Rightarrow> Inl e
          | Inr previous \<Rightarrow> Inr (mutation (sr_Request previous), notice (sr_Request previous), False))"

definition new_conversation :: "CreateRequest \<Rightarrow> bool" where
  "new_conversation i \<longleftrightarrow> TrimSpace (cr_ConversationID i) = []"

definition create_conversation ::
  "(nat \<Rightarrow> string) \<Rightarrow> Principal \<Rightarrow> CreateRequest \<Rightarrow> relay_db \<Rightarrow> (relay_error, conversation) result" where
  "create_conversation rnd p i d =
     (if new_conversation i
      then Inr \<lparr>cv_ID = randomID (rnd 0) ''conv_'', cv_OrganizationID = pr_OrganizationID p,
                cv_RequesterAgentID = pr_AgentID p, cv_TargetAgentID = TrimSpace (cr_TargetAgentID i)\<rparr>
      else case readConversation d (pr_OrganizationID p) (TrimSpace (cr_ConversationID i)) of
        Inl e \<Rightarrow> Inl e
      | Inr conv \<Rightarrow>
          if cv_RequesterAgentID conv \<noteq> pr_AgentID p then Inl ErrForbidden
          else if cr_TargetAgentID i \<noteq> [] \<and> TrimSpace (cr_TargetAgentID i) \<noteq> cv_TargetAgentID conv
          then Inl ErrInvalid
          else Inr conv)"

definition new_request ::
  "('l) golib_scheme \<Rightarrow> time \<Rightarrow> string \<Rightarrow> Principal \<Rightarrow> AgentCard \<Rightarrow> conversation \<Rightarrow>
   ArtifactDescriptor list \<Rightarrow> CreateRequest \<Rightarrow> Request" where
  "new_request L now requestID p requester conv descriptors i =
     \<lparr>rq_APIVersion = APIVersion, rq_RequestID = requestID, rq_ConversationID = cv_ID conv,
      rq_RequesterAgentID = pr_AgentID p, rq_RequesterMemberID = pr_MemberID p,
      rq_RequesterDisplayName = card_DisplayName requester, rq_TargetAgentID = cv_TargetAgentID conv,
      rq_Title = TrimSpace (cr_Title i), rq_Prompt = [], rq_PromptPreview = preview (cr_Prompt i) 240,
      rq_PromptBytes = int (length (cr_Prompt i)), rq_PromptSHA256 = sha256_hex L (cr_Prompt i),
      rq_RequestedAccess = cr_RequestedAccess i, rq_Attachments = descriptors, rq_ResultFiles = [],
      rq_Status = StatusAwaitingApproval, rq_Answer = [], rq_Error = [],
      rq_CreatedAt = now, rq_UpdatedAt = now,
      rq_ExpiresAt = now + cr_ExpiresInSeconds i * second, rq_Version = 1\<rparr>"

definition new_stored :: "Request \<Rightarrow> CreateRequest \<Rightarrow> string \<Rightarrow> storedRequest" where
  "new_stored request i ik =
     \<lparr>sr_Request = request, sr_Prompt = cr_Prompt i, sr_IdempotencyRedisKey = ik, sr_DecisionID = [],
      sr_Decision = DecisionOther [], sr_ExecutionClaimID = [], sr_ResultDigest = []\<rparr>"

definition put_artifact :: "string \<Rightarrow> storedArtifact \<Rightarrow> relay_db \<Rightarrow> relay_db" where
  "put_artifact org a d =
     d\<lparr>db_artifacts := rset (db_clock d) (artifactKey org (ad_ArtifactID (sa_Descriptor a))) a
                        requestRetention (db_artifacts d)\<rparr>"

definition create_commit ::
  "string \<Rightarrow> storedRequest \<Rightarrow> string \<Rightarrow> conversation option \<Rightarrow> storedArtifact list \<Rightarrow> relay_db \<Rightarrow> relay_db" where
  "create_commit org stored digest conv artifacts d =
     fold (put_artifact org) artifacts
      (let clk = db_clock d; request = sr_Request stored;
           inbox = inboxKey org (rq_TargetAgentID request) in
       d\<lparr>db_requests := rset clk (requestKey org (rq_RequestID request)) stored requestRetention (db_requests d),
         db_idempotency := rset clk (sr_IdempotencyRedisKey stored)
            \<lparr>id_RequestID = rq_RequestID request, id_Digest = digest\<rparr> requestRetention (db_idempotency d),
         db_sets := s_expire clk inbox requestRetention
            (r_sadd clk inbox (rq_RequestID request) (db_sets d)),
         db_conversations := (case conv of
              None \<Rightarrow> db_conversations d
            | Some c \<Rightarrow> rset clk (conversationKey org (cv_ID c)) c conversationTTL (db_conversations d))\<rparr>)"

definition create_view :: "string \<Rightarrow> relay_db \<Rightarrow> idempotencyRecord raw option" where
  "create_view ik d = rget (db_clock d) (db_idempotency d) ik"

definition create_body ::
  "Principal \<Rightarrow> storedRequest \<Rightarrow> string \<Rightarrow> conversation option \<Rightarrow> storedArtifact list \<Rightarrow>
   relay_db attempt \<Rightarrow> relay_db \<Rightarrow> (relay_db, relay_error, create_reply) txn" where
  "create_body p stored digest conv artifacts a d =
     (if \<not> db_up d then TxErr ErrRedis
      else case rget (db_clock d) (db_idempotency d) (sr_IdempotencyRedisKey stored) of
        Some raw \<Rightarrow> (case existing_request p digest raw d of Inl e \<Rightarrow> TxErr e | Inr r \<Rightarrow> TxDone r)
      | None \<Rightarrow> TxExec (create_commit (pr_OrganizationID p) stored digest conv artifacts)
                  (mutation (sr_Request stored), notice (sr_Request stored), True))"

definition CreateRequest ::
  "('l) relaylib_scheme \<Rightarrow> (nat \<Rightarrow> string) \<Rightarrow> time \<Rightarrow> (nat \<Rightarrow> relay_db \<Rightarrow> relay_db) \<Rightarrow>
   (nat \<Rightarrow> relay_db attempt) \<Rightarrow> Principal \<Rightarrow> CreateRequest \<Rightarrow>
   relay_db \<Rightarrow> relay_db \<times> (relay_error, create_reply) result" where
  "CreateRequest L rnd now env atts p i db =
     (case requireDevice p of Inl e \<Rightarrow> (db, Inl e) | Inr _ \<Rightarrow>
      case validateCreate L i of Inl e \<Rightarrow> (db, Inl e) | Inr _ \<Rightarrow>
      let org = pr_OrganizationID p; me = pr_AgentID p; digest = requestDigest L i;
          ik = idempotencyKey L org me (cr_IdempotencyKey i); d0 = env 0 db; d1 = env 1 d0 in
      if \<not> db_up d0 then (d0, Inl ErrRedis)
      else case rget (db_clock d0) (db_idempotency d0) ik of
        Some raw \<Rightarrow> (d1, existing_request p digest raw d1)
      | None \<Rightarrow>
      case create_conversation rnd p i d1 of Inl e \<Rightarrow> (d1, Inl e) | Inr conv \<Rightarrow>
      if cv_TargetAgentID conv = me then (d1, Inl ErrInvalid)
      else let d2 = env 2 d1; d3 = env 3 d2 in
      case readAgent d2 d3 org (cv_TargetAgentID conv) of Inl e \<Rightarrow> (d3, Inl e) | Inr target \<Rightarrow>
      if card_MemberID target = pr_MemberID p then (d3, Inl ErrInvalid)
      else if \<not> card_AcceptingRequests target then (d3, Inl ErrConflict)
      else let d4 = env 4 d3; d5 = env 5 d4 in
      case readAgent d4 d5 org me of Inl e \<Rightarrow> (d5, Inl e) | Inr requester \<Rightarrow>
      let requestID = randomID (rnd 1) ''req_'' in
      case prepareArtifacts L (\<lambda>n. rnd (n + 2)) (cr_Attachments i) requestID me (cv_TargetAgentID conv) ''input'' of
        Inl e \<Rightarrow> (d5, Inl e)
      | Inr (descriptors, artifacts) \<Rightarrow>
      let stored = new_stored (new_request L now requestID p requester conv descriptors i) i ik in
      watch_loop db_up (create_view ik)
        (create_body p stored digest (if new_conversation i then Some conv else None) artifacts)
        ErrRedis ErrTxFailed 5 atts d5)"

section \<open>Lifecycle transitions\<close>

text \<open>
  The closure \<open>update\<close> sees the attempt (for its clock), the database (for what it reads in the
  transaction) and the stored request, and returns the updated one together with what it
  assigned to the caller's variables. The comparison of the two encodings is equality of the
  records.
\<close>

type_synonym 'x update = "relay_db attempt \<Rightarrow> relay_db \<Rightarrow> storedRequest \<Rightarrow> (relay_error, storedRequest \<times> 'x) result"

definition transition_commit :: "string \<Rightarrow> string \<Rightarrow> storedRequest \<Rightarrow> relay_db \<Rightarrow> relay_db" where
  "transition_commit org requestID stored d =
     d\<lparr>db_requests := rset (db_clock d) (requestKey org (TrimSpace requestID)) stored requestRetention (db_requests d),
       db_idempotency := (if sr_IdempotencyRedisKey stored \<noteq> []
          then rexpire (db_clock d) (sr_IdempotencyRedisKey stored) requestRetention (db_idempotency d)
          else db_idempotency d)\<rparr>"

definition stamp :: "time \<Rightarrow> storedRequest \<Rightarrow> storedRequest" where
  "stamp now stored =
     stored\<lparr>sr_Request := (sr_Request stored)\<lparr>rq_Version := i64 (rq_Version (sr_Request stored) + 1),
                                             rq_UpdatedAt := now\<rparr>\<rparr>"

definition transition_view ::
  "Principal \<Rightarrow> string \<Rightarrow> string list \<Rightarrow> relay_db \<Rightarrow> storedRequest raw option \<times> string list list" where
  "transition_view p requestID extra d =
     (rget (db_clock d) (db_requests d) (requestKey (pr_OrganizationID p) (TrimSpace requestID)),
      map (smembers (db_clock d) (db_sets d)) extra)"

definition transition_body ::
  "Principal \<Rightarrow> string \<Rightarrow> 'x update \<Rightarrow> relay_db attempt \<Rightarrow> relay_db \<Rightarrow>
   (relay_db, relay_error, MutationResponse \<times> 'x) txn" where
  "transition_body p requestID update a d =
     (case readStoredRequest d (pr_OrganizationID p) requestID of
        Inl e \<Rightarrow> TxErr e
      | Inr previous \<Rightarrow>
          (case update a d previous of
             Inl e \<Rightarrow> TxErr e
           | Inr (stored, x) \<Rightarrow>
               if stored = previous then TxDone (mutation (sr_Request stored), x)
               else let stored' = stamp (att_stamp a) stored
                    in TxExec (transition_commit (pr_OrganizationID p) requestID stored')
                         (mutation (sr_Request stored'), x)))"

definition transitionStoredWatching ::
  "(nat \<Rightarrow> relay_db attempt) \<Rightarrow> Principal \<Rightarrow> string \<Rightarrow> string list \<Rightarrow> 'x update \<Rightarrow>
   relay_db \<Rightarrow> relay_db \<times> (relay_error, MutationResponse \<times> 'x) result" where
  "transitionStoredWatching atts p requestID extra update db =
     (case requireDevice p of Inl e \<Rightarrow> (db, Inl e) | Inr _ \<Rightarrow>
      watch_loop db_up (transition_view p requestID extra) (transition_body p requestID update)
        ErrRedis ErrTxFailed 5 atts db)"

definition transitionStored ::
  "(nat \<Rightarrow> relay_db attempt) \<Rightarrow> Principal \<Rightarrow> string \<Rightarrow>
   (relay_db attempt \<Rightarrow> storedRequest \<Rightarrow> (relay_error, storedRequest \<times> 'x) result) \<Rightarrow>
   relay_db \<Rightarrow> relay_db \<times> (relay_error, MutationResponse \<times> 'x) result" where
  "transitionStored atts p requestID update db =
     transitionStoredWatching atts p requestID [] (\<lambda>a _ stored. update a stored) db"

definition on_request ::
  "(relay_db attempt \<Rightarrow> Request \<Rightarrow> (relay_error, Request \<times> 'x) result) \<Rightarrow>
   relay_db attempt \<Rightarrow> storedRequest \<Rightarrow> (relay_error, storedRequest \<times> 'x) result" where
  "on_request update a stored =
     (case update a (sr_Request stored) of
        Inl e \<Rightarrow> Inl e
      | Inr (r, x) \<Rightarrow> Inr (stored\<lparr>sr_Request := r\<rparr>, x))"

definition transition ::
  "(nat \<Rightarrow> relay_db attempt) \<Rightarrow> Principal \<Rightarrow> string \<Rightarrow>
   (relay_db attempt \<Rightarrow> Request \<Rightarrow> (relay_error, Request \<times> 'x) result) \<Rightarrow>
   relay_db \<Rightarrow> relay_db \<times> (relay_error, MutationResponse \<times> 'x) result" where
  "transition atts p requestID update db = transitionStored atts p requestID (on_request update) db"

text \<open>\<open>expireAwaiting\<close>: the closure's assignment to \<open>expired\<close> is its second result.\<close>

definition expire_update :: "Principal \<Rightarrow> relay_db attempt \<Rightarrow> Request \<Rightarrow> (relay_error, Request \<times> bool) result" where
  "expire_update p a r =
     (if rq_TargetAgentID r \<noteq> pr_AgentID p then Inl ErrForbidden
      else if rq_Status r \<noteq> StatusAwaitingApproval \<or> att_now a < rq_ExpiresAt r then Inl errNotAwaitingExpiry
      else Inr (r\<lparr>rq_Status := StatusExpired\<rparr>, True))"

definition expireAwaiting ::
  "(nat \<Rightarrow> relay_db attempt) \<Rightarrow> Principal \<Rightarrow> string \<Rightarrow> relay_db \<Rightarrow> relay_db \<times> (relay_error, bool) result" where
  "expireAwaiting atts p requestID db =
     (case transition atts p requestID (expire_update p) db of
        (d, Inl e) \<Rightarrow> (d, if e = errNotAwaitingExpiry then Inr False else Inl e)
      | (d, Inr (_, expired)) \<Rightarrow> (d, Inr expired))"

definition decided :: "DecisionPayload \<Rightarrow> RequestStatus \<Rightarrow> storedRequest \<Rightarrow> storedRequest" where
  "decided input st stored =
     stored\<lparr>sr_DecisionID := dp_DecisionID input, sr_Decision := dp_Decision input,
            sr_Request := (sr_Request stored)\<lparr>rq_Status := st\<rparr>\<rparr>"

definition decide_update :: "Principal \<Rightarrow> DecisionPayload \<Rightarrow> unit update" where
  "decide_update p input a d stored =
     (let request = sr_Request stored in
      if rq_TargetAgentID request \<noteq> pr_AgentID p then Inl ErrForbidden
      else if sr_DecisionID stored \<noteq> [] then
        (if \<not> opaqueIDMatches (sr_DecisionID stored) (dp_DecisionID input) \<or>
            sr_Decision stored \<noteq> dp_Decision input
         then Inl ErrConflict else Inr (stored, ()))
      else if rq_Status request \<noteq> StatusAwaitingApproval then Inl ErrConflict
      else if \<not> att_now a < rq_ExpiresAt request then Inr (decided input StatusExpired stored, ())
      else if dp_Decision input = DecisionAllowOnce \<and>
              sismember (db_clock d) (db_sets d) (revokedAgentsKey (pr_OrganizationID p))
                (rq_RequesterAgentID request)
      then Inr (decided input StatusCancelled stored, ())
      else Inr (decided input
                  (if dp_Decision input = DecisionDeny then StatusRejected else StatusAccepted) stored, ()))"

definition Decide ::
  "(nat \<Rightarrow> relay_db attempt) \<Rightarrow> Principal \<Rightarrow> string \<Rightarrow> DecisionPayload \<Rightarrow>
   relay_db \<Rightarrow> relay_db \<times> (relay_error, MutationResponse) result" where
  "Decide atts p requestID input db =
     (if dp_Decision input \<noteq> DecisionAllowOnce \<and> dp_Decision input \<noteq> DecisionDeny then (db, Inl ErrInvalid)
      else if \<not> validDecisionID (dp_DecisionID input) then (db, Inl ErrInvalid)
      else apsnd (map_sum id fst)
        (transitionStoredWatching atts p requestID [revokedAgentsKey (pr_OrganizationID p)]
           (decide_update p input) db))"

definition running_update ::
  "Principal \<Rightarrow> string \<Rightarrow> relay_db attempt \<Rightarrow> storedRequest \<Rightarrow> (relay_error, storedRequest \<times> unit) result" where
  "running_update p claim a stored =
     (if rq_TargetAgentID (sr_Request stored) \<noteq> pr_AgentID p then Inl ErrForbidden
      else case rq_Status (sr_Request stored) of
        StatusAccepted \<Rightarrow>
          Inr (stored\<lparr>sr_ExecutionClaimID := claim,
                      sr_Request := (sr_Request stored)\<lparr>rq_Status := StatusRunning\<rparr>\<rparr>, ())
      | StatusRunning \<Rightarrow>
          if executionClaimMatches (sr_ExecutionClaimID stored) claim then Inr (stored, ()) else Inl ErrConflict
      | _ \<Rightarrow> Inl ErrConflict)"

definition MarkRunning ::
  "(nat \<Rightarrow> relay_db attempt) \<Rightarrow> Principal \<Rightarrow> string \<Rightarrow> string \<Rightarrow>
   relay_db \<Rightarrow> relay_db \<times> (relay_error, MutationResponse) result" where
  "MarkRunning atts p requestID claim db =
     (if \<not> validExecutionClaimID claim then (db, Inl ErrInvalid)
      else apsnd (map_sum id fst) (transitionStored atts p requestID (running_update p claim) db))"

text \<open>The checks of \<open>SubmitResult\<close> on the payload alone.\<close>

definition validateResult :: "ResultPayload \<Rightarrow> (relay_error, unit) result" where
  "validateResult r =
     (if rp_State r \<noteq> StatusCompleted \<and> rp_State r \<noteq> StatusFailed \<and> rp_State r \<noteq> StatusCancelled then Inl ErrInvalid
      else if \<not> validExecutionClaimID (rp_ExecutionClaimID r) then Inl ErrInvalid
      else if maximumAnswerBytes < length (rp_Answer r) \<or> maximumErrorBytes < length (rp_Error r) \<or>
              MaxAttachments < length (rp_ResultFiles r) then Inl ErrInvalid
      else if rp_State r = StatusCompleted
        then (if rp_Error r \<noteq> [] then Inl ErrInvalid else Inr ())
        else (if rp_Answer r \<noteq> [] \<or> rp_ResultFiles r \<noteq> [] then Inl ErrInvalid else Inr ()))"

fun put_artifacts ::
  "string \<Rightarrow> (nat \<Rightarrow> relay_db \<Rightarrow> relay_db) \<Rightarrow> storedArtifact list \<Rightarrow> relay_db \<Rightarrow>
   relay_db \<times> (relay_error, unit) result" where
  "put_artifacts org env [] d = (d, Inr ())"
| "put_artifacts org env (x # arts) d =
     (let d1 = env 0 d in
      if \<not> db_up d1 then (d1, Inl ErrRedis)
      else put_artifacts org (\<lambda>n. env (Suc n)) arts (put_artifact org x d1))"

definition submit_update ::
  "Principal \<Rightarrow> ResultPayload \<Rightarrow> string \<Rightarrow> ArtifactDescriptor list \<Rightarrow> relay_db attempt \<Rightarrow> storedRequest \<Rightarrow>
   (relay_error, storedRequest \<times> unit) result" where
  "submit_update p r digest descriptors a stored =
     (if rq_TargetAgentID (sr_Request stored) \<noteq> pr_AgentID p then Inl ErrForbidden
      else if Terminal (rq_Status (sr_Request stored)) then
        (if exactResultReplay stored r digest then Inr (stored, ()) else Inl ErrConflict)
      else if rq_Status (sr_Request stored) \<noteq> StatusRunning \<or>
              \<not> executionClaimMatches (sr_ExecutionClaimID stored) (rp_ExecutionClaimID r)
      then Inl ErrConflict
      else Inr (stored\<lparr>sr_Request := (sr_Request stored)\<lparr>rq_Status := rp_State r, rq_Answer := rp_Answer r,
                                       rq_Error := rp_Error r, rq_ResultFiles := descriptors\<rparr>,
                       sr_ResultDigest := digest\<rparr>, ()))"

text \<open>\<open>env 0\<close> precedes the first read, \<open>env 1\<close> the final \<open>SREM\<close>, \<open>env (n + 2)\<close> the write of the nth artifact.\<close>

definition SubmitResult ::
  "('l) relaylib_scheme \<Rightarrow> (nat \<Rightarrow> string) \<Rightarrow> (nat \<Rightarrow> relay_db \<Rightarrow> relay_db) \<Rightarrow> (nat \<Rightarrow> relay_db attempt) \<Rightarrow>
   Principal \<Rightarrow> string \<Rightarrow> ResultPayload \<Rightarrow> relay_db \<Rightarrow> relay_db \<times> (relay_error, MutationResponse) result" where
  "SubmitResult L rnd env atts p requestID r db =
     (case requireDevice p of Inl e \<Rightarrow> (db, Inl e) | Inr _ \<Rightarrow>
      case validateResult r of Inl e \<Rightarrow> (db, Inl e) | Inr _ \<Rightarrow>
      let org = pr_OrganizationID p; digest = digestResult L r; d0 = env 0 db in
      case readStoredRequest d0 org requestID of Inl e \<Rightarrow> (d0, Inl e) | Inr current \<Rightarrow>
      let request = sr_Request current in
      if rq_TargetAgentID request \<noteq> pr_AgentID p then (d0, Inl ErrForbidden)
      else if Terminal (rq_Status request) then
        (d0, if exactResultReplay current r digest then Inr (mutation request) else Inl ErrConflict)
      else if rq_Status request \<noteq> StatusRunning \<or>
              \<not> executionClaimMatches (sr_ExecutionClaimID current) (rp_ExecutionClaimID r)
      then (d0, Inl ErrConflict)
      else case prepareArtifacts L rnd (rp_ResultFiles r) requestID (rq_RequesterAgentID request)
                  (rq_TargetAgentID request) ''result'' of
        Inl e \<Rightarrow> (d0, Inl e)
      | Inr (descriptors, artifacts) \<Rightarrow>
      case put_artifacts org (\<lambda>n. env (n + 2)) artifacts d0 of
        (d1, Inl e) \<Rightarrow> (d1, Inl e)
      | (d1, Inr _) \<Rightarrow>
      case transitionStored atts p requestID (submit_update p r digest descriptors) d1 of
        (d2, Inl e) \<Rightarrow> (d2, Inl e)
      | (d2, Inr (response, _)) \<Rightarrow>
          (drop_from_set (inboxKey org (pr_AgentID p)) requestID (env 1 d2), Inr response))"

definition cancel_update :: "Principal \<Rightarrow> relay_db attempt \<Rightarrow> Request \<Rightarrow> (relay_error, Request \<times> bool) result" where
  "cancel_update p a r =
     (if rq_RequesterAgentID r \<noteq> pr_AgentID p then Inl ErrForbidden
      else if rq_Status r = StatusCancelled then Inr (r, False)
      else if Terminal (rq_Status r) then Inl ErrConflict
      else Inr (r\<lparr>rq_Status := StatusCancelled\<rparr>, True))"

definition Cancel ::
  "(nat \<Rightarrow> relay_db attempt) \<Rightarrow> Principal \<Rightarrow> string \<Rightarrow>
   relay_db \<Rightarrow> relay_db \<times> (relay_error, MutationResponse \<times> bool) result" where
  "Cancel atts p requestID db = transition atts p requestID (cancel_update p) db"

section \<open>Reading operations\<close>

definition GetRequest :: "Principal \<Rightarrow> string \<Rightarrow> relay_db \<Rightarrow> (relay_error, Request) result" where
  "GetRequest p requestID d =
     (case requireDevice p of Inl e \<Rightarrow> Inl e | Inr _ \<Rightarrow>
      case readStoredRequest d (pr_OrganizationID p) requestID of Inl e \<Rightarrow> Inl e | Inr stored \<Rightarrow>
      if pr_AgentID p \<noteq> rq_RequesterAgentID (sr_Request stored) \<and> pr_AgentID p \<noteq> rq_TargetAgentID (sr_Request stored)
      then Inl ErrForbidden
      else Inr ((sr_Request stored)\<lparr>rq_Prompt := []\<rparr>))"

text \<open>
  One identifier of the inbox. The fields of \<open>inbox_env\<close> are what the others do before the
  first read, inside the expiry transition, before the second read and before the \<open>SREM\<close>, and
  what the caller's clock shows.
\<close>

record inbox_env =
  ie_read :: "relay_db \<Rightarrow> relay_db"
  ie_now :: time
  ie_atts :: "nat \<Rightarrow> relay_db attempt"
  ie_reread :: "relay_db \<Rightarrow> relay_db"
  ie_drop :: "relay_db \<Rightarrow> relay_db"

definition inbox_remove :: "Principal \<Rightarrow> inbox_env \<Rightarrow> string \<Rightarrow> relay_db \<Rightarrow> relay_db" where
  "inbox_remove p e i d = drop_from_set (inboxKey (pr_OrganizationID p) (pr_AgentID p)) i (ie_drop e d)"

text \<open>The read, the removal of what is gone or finished, and what is left.\<close>

definition inbox_read ::
  "Principal \<Rightarrow> inbox_env \<Rightarrow> string \<Rightarrow> relay_db \<Rightarrow> relay_db \<times> (relay_error, storedRequest option) result" where
  "inbox_read p e i d =
     (case readStoredRequest d (pr_OrganizationID p) i of
        Inl ErrNotFound \<Rightarrow> (inbox_remove p e i d, Inr None)
      | Inl err \<Rightarrow> (d, Inl err)
      | Inr stored \<Rightarrow>
          if Terminal (rq_Status (sr_Request stored)) then (inbox_remove p e i d, Inr None)
          else (d, Inr (Some stored)))"

definition inbox_one ::
  "Principal \<Rightarrow> inbox_env \<Rightarrow> string \<Rightarrow> relay_db \<Rightarrow> relay_db \<times> (relay_error, RequestNotice option) result" where
  "inbox_one p e i d =
     (case inbox_read p e i (ie_read e d) of
        (d1, Inl err) \<Rightarrow> (d1, Inl err)
      | (d1, Inr None) \<Rightarrow> (d1, Inr None)
      | (d1, Inr (Some stored)) \<Rightarrow>
          if rq_Status (sr_Request stored) = StatusAwaitingApproval \<and>
             \<not> ie_now e < rq_ExpiresAt (sr_Request stored)
          then (case expireAwaiting (ie_atts e) p i d1 of
              (d2, Inl err) \<Rightarrow> (d2, Inl err)
            | (d2, Inr True) \<Rightarrow> (inbox_remove p e i d2, Inr None)
            | (d2, Inr False) \<Rightarrow>
                (case inbox_read p e i (ie_reread e d2) of
                   (d3, Inl err) \<Rightarrow> (d3, Inl err)
                 | (d3, Inr None) \<Rightarrow> (d3, Inr None)
                 | (d3, Inr (Some stored')) \<Rightarrow> (d3, Inr (Some (notice (sr_Request stored'))))))
          else (d1, Inr (Some (notice (sr_Request stored)))))"

fun inbox_loop ::
  "Principal \<Rightarrow> (nat \<Rightarrow> inbox_env) \<Rightarrow> string list \<Rightarrow> relay_db \<Rightarrow>
   relay_db \<times> (relay_error, RequestNotice list) result" where
  "inbox_loop p es [] d = (d, Inr [])"
| "inbox_loop p es (i # ids) d =
     (case inbox_one p (es 0) i d of
        (d', Inl e) \<Rightarrow> (d', Inl e)
      | (d', Inr n) \<Rightarrow>
          (case inbox_loop p (\<lambda>k. es (Suc k)) ids d' of
             (d'', Inl e) \<Rightarrow> (d'', Inl e)
           | (d'', Inr ns) \<Rightarrow> (d'', Inr (case n of None \<Rightarrow> ns | Some x \<Rightarrow> x # ns))))"

text \<open>Notices with the same creation time come in the order of the set.\<close>

definition Inbox ::
  "(nat \<Rightarrow> relay_db \<Rightarrow> relay_db) \<Rightarrow> (nat \<Rightarrow> inbox_env) \<Rightarrow> Principal \<Rightarrow>
   relay_db \<Rightarrow> relay_db \<times> (relay_error, RequestNotice list) result" where
  "Inbox env es p db =
     (case requireDevice p of Inl e \<Rightarrow> (db, Inl e) | Inr _ \<Rightarrow>
      let org = pr_OrganizationID p; d0 = env 0 db in
      if \<not> db_up d0 then (d0, Inl ErrRedis)
      else if sismember (db_clock d0) (db_sets d0) (revokedAgentsKey org) (pr_AgentID p) then (d0, Inl ErrForbidden)
      else let d1 = env 1 d0 in
      if \<not> db_up d1 then (d1, Inl ErrRedis)
      else case inbox_loop p es (smembers (db_clock d1) (db_sets d1) (inboxKey org (pr_AgentID p))) d1 of
        (d', Inl e) \<Rightarrow> (d', Inl e)
      | (d', Inr ns) \<Rightarrow> (d', Inr (sort_key rn_CreatedAt ns)))"

definition FetchExecution :: "Principal \<Rightarrow> string \<Rightarrow> relay_db \<Rightarrow> (relay_error, ExecutionPayload) result" where
  "FetchExecution p requestID d =
     (case requireDevice p of Inl e \<Rightarrow> Inl e | Inr _ \<Rightarrow>
      case readStoredRequest d (pr_OrganizationID p) requestID of Inl e \<Rightarrow> Inl e | Inr stored \<Rightarrow>
      let r = sr_Request stored in
      if rq_TargetAgentID r \<noteq> pr_AgentID p then Inl ErrForbidden
      else if rq_Status r \<noteq> StatusAccepted \<and> rq_Status r \<noteq> StatusRunning then Inl ErrConflict
      else Inr \<lparr>ep_RequestID = rq_RequestID r, ep_ConversationID = rq_ConversationID r,
             ep_RequesterAgentID = rq_RequesterAgentID r, ep_RequesterMemberID = rq_RequesterMemberID r,
             ep_RequesterDisplayName = rq_RequesterDisplayName r, ep_Title = rq_Title r,
             ep_Prompt = sr_Prompt stored, ep_RequestedAccess = rq_RequestedAccess r,
             ep_Attachments = rq_Attachments r, ep_ExpiresAt = rq_ExpiresAt r\<rparr>)"

definition InspectProposal :: "time \<Rightarrow> Principal \<Rightarrow> string \<Rightarrow> relay_db \<Rightarrow> (relay_error, ProposalPayload) result" where
  "InspectProposal now p requestID d =
     (case requireDevice p of Inl e \<Rightarrow> Inl e | Inr _ \<Rightarrow>
      case readStoredRequest d (pr_OrganizationID p) requestID of Inl e \<Rightarrow> Inl e | Inr stored \<Rightarrow>
      let r = sr_Request stored in
      if rq_TargetAgentID r \<noteq> pr_AgentID p then Inl ErrForbidden
      else if rq_Status r \<noteq> StatusAwaitingApproval \<or> \<not> now < rq_ExpiresAt r then Inl ErrConflict
      else Inr \<lparr>pp_RequestID = rq_RequestID r, pp_ConversationID = rq_ConversationID r,
             pp_RequesterAgentID = rq_RequesterAgentID r, pp_RequesterMemberID = rq_RequesterMemberID r,
             pp_RequesterDisplayName = rq_RequesterDisplayName r, pp_Title = rq_Title r,
             pp_Prompt = sr_Prompt stored, pp_RequestedAccess = rq_RequestedAccess r,
             pp_Attachments = rq_Attachments r, pp_ExpiresAt = rq_ExpiresAt r\<rparr>)"

text \<open>\<open>d\<close> answers the read of the artifact and \<open>e\<close> the read of its request.\<close>

definition FetchArtifact :: "Principal \<Rightarrow> string \<Rightarrow> relay_db \<Rightarrow> relay_db \<Rightarrow> (relay_error, ArtifactContent) result" where
  "FetchArtifact p artifactID d e =
     (case requireDevice p of Inl err \<Rightarrow> Inl err | Inr _ \<Rightarrow>
      if \<not> db_up d then Inl ErrRedis
      else case rget (db_clock d) (db_artifacts d) (artifactKey (pr_OrganizationID p) (TrimSpace artifactID)) of
        None \<Rightarrow> Inl ErrNotFound
      | Some Junk \<Rightarrow> Inl ErrNotFound
      | Some (Json artifact) \<Rightarrow>
      case readStoredRequest e (pr_OrganizationID p) (sa_RequestID artifact) of Inl err \<Rightarrow> Inl err | Inr stored \<Rightarrow>
      let r = sr_Request stored;
          content = \<lparr>ac_Descriptor = sa_Descriptor artifact, ac_Encoding = sa_Encoding artifact,
                     ac_ContentBase64 = sa_ContentBase64 artifact\<rparr> in
      if sa_Direction artifact = ''input'' then
        (if pr_AgentID p \<noteq> sa_TargetAgentID artifact \<or> rq_TargetAgentID r \<noteq> pr_AgentID p then Inl ErrForbidden
         else if (rq_Status r \<noteq> StatusAccepted \<and> rq_Status r \<noteq> StatusRunning) \<or>
                 \<not> containsArtifact (rq_Attachments r) (ad_ArtifactID (sa_Descriptor artifact)) then Inl ErrConflict
         else Inr content)
      else if sa_Direction artifact = ''result'' then
        (if pr_AgentID p \<noteq> sa_RequesterAgentID artifact \<or> rq_RequesterAgentID r \<noteq> pr_AgentID p then Inl ErrForbidden
         else if rq_Status r \<noteq> StatusCompleted \<or>
                 \<not> containsArtifact (rq_ResultFiles r) (ad_ArtifactID (sa_Descriptor artifact)) then Inl ErrConflict
         else Inr content)
      else Inl ErrNotFound)"

section \<open>Revocation\<close>

text \<open>
  \<open>evictPresence\<close> and \<open>cleanAgentIDs\<close> (\<open>internal/collaboration/eviction.go\<close>), and the tombstones the
  administrative store writes on its own (\<open>addRevokedAgentTombstones\<close>). Nothing removes a member
  of the tombstone set. \<open>reply\<close> says whether the answer to \<open>EXEC\<close> arrives.
\<close>

definition revoke_one :: "string \<Rightarrow> string \<Rightarrow> ('m) relay_db_scheme \<Rightarrow> ('m) relay_db_scheme" where
  "revoke_one org agent d = d\<lparr>db_sets := r_sadd (db_clock d) (revokedAgentsKey org) agent (db_sets d)\<rparr>"

definition addRevokedAgentTombstones :: "string \<Rightarrow> string list \<Rightarrow> ('m) relay_db_scheme \<Rightarrow> ('m) relay_db_scheme" where
  "addRevokedAgentTombstones org agentIDs d =
     fold (revoke_one org) (filter (\<lambda>a. TrimSpace a \<noteq> []) agentIDs) d"

definition evict_one :: "string \<Rightarrow> string \<Rightarrow> relay_db \<Rightarrow> relay_db" where
  "evict_one org agent d =
     drop_agent (agentKey org agent) (drop_from_set (agentsKey org) agent (revoke_one org agent d))"

definition evictPresence ::
  "bool \<Rightarrow> string \<Rightarrow> string list \<Rightarrow> relay_db \<Rightarrow> relay_db \<times> (relay_error, unit) result" where
  "evictPresence reply org agentIDs d =
     (if \<not> db_up d then (d, Inl ErrRedis)
      else (fold (evict_one org) agentIDs d, if reply then Inr () else Inl ErrRedis))"

definition cleanAgentIDs :: "string list \<Rightarrow> string list" where
  "cleanAgentIDs values = sort (remdups (filter (\<lambda>v. v \<noteq> []) (map TrimSpace values)))"

end
