(* ===== verification/Collab_Protocol.thy ===== *)
theory Collab_Protocol
  imports Collab_Store
begin

text \<open>
  The relay as a transition system, stated apart from the code: \<open>agent_move\<close> says which agent may
  move a request where, when, and what changes with it; \<open>agent_acts\<close> what a device may do to the
  shared database for the purpose of its call; \<open>relay_step\<close> adds time, failures and revocations.
  \<open>life_step\<close> is the lifecycle of a single request that follows. Every operation of the store,
  however it is interleaved with other clients, is shown to be a sequence of their steps and of
  acts its caller is allowed (\<open>together\<close>).
\<close>

section \<open>The transactions are watched bodies\<close>

interpretation heartbeat: watched db_up "heartbeat_view p" "heartbeat_body p c" for p c
  by unfold_locales (auto simp: heartbeat_body_def heartbeat_view_def sismember_def split: if_splits)

interpretation create: watched db_up "create_view (sr_IdempotencyRedisKey s)" "create_body p s dg conv arts"
  for p s dg conv arts
  by unfold_locales
    (auto simp: create_body_def create_view_def split: if_splits option.splits sum.splits)

text \<open>A closure may depend on the database only through the additionally watched sets.\<close>

definition sees_only :: "string list \<Rightarrow> 'x update \<Rightarrow> bool" where
  "sees_only extra update \<longleftrightarrow>
     (\<forall>a d d' s. map (smembers (db_clock d) (db_sets d)) extra = map (smembers (db_clock d') (db_sets d')) extra \<longrightarrow>
        update a d s = update a d' s)"

lemma transition_watched:
  "sees_only extra update \<Longrightarrow>
   watched db_up (transition_view p requestID extra) (transition_body p requestID update)"
proof unfold_locales
  fix a d f r d'
  assume s: "sees_only extra update" and b: "transition_body p requestID update a d = TxExec f r"
    and u: "db_up d'" and v: "transition_view p requestID extra d' = transition_view p requestID extra d"
  from b have "db_up d" by (auto simp: transition_body_def readStoredRequest_def split: if_splits)
  with u v have "readStoredRequest d' (pr_OrganizationID p) requestID = readStoredRequest d (pr_OrganizationID p) requestID"
    by (simp add: readStoredRequest_def transition_view_def)
  moreover have "update a d' x = update a d x" for x
    using s v unfolding sees_only_def transition_view_def by (metis snd_conv)
  ultimately have "transition_body p requestID update a d' = transition_body p requestID update a d"
    by (simp add: transition_body_def cong: sum.case_cong)
  with b show "transition_body p requestID update a d' = TxExec f r" by simp
qed

lemma sees_only_decide: "sees_only [revokedAgentsKey (pr_OrganizationID p)] (decide_update p input)"
  by (auto simp: sees_only_def decide_update_def sismember_def Let_def)

interpretation decide: watched db_up
    "transition_view p requestID [revokedAgentsKey (pr_OrganizationID p)]"
    "transition_body p requestID (decide_update p input)" for p requestID input
  by (rule transition_watched, rule sees_only_decide)

interpretation closed_update: watched db_up
    "transition_view p requestID []" "transition_body p requestID (\<lambda>a _ s. update a s)" for p requestID update
  by (rule transition_watched) (simp add: sees_only_def)

section \<open>The lifecycle of one request\<close>

definition progress :: "time \<Rightarrow> RequestStatus \<Rightarrow> storedRequest \<Rightarrow> storedRequest" where
  "progress t st s =
     s\<lparr>sr_Request := (sr_Request s)\<lparr>rq_Status := st, rq_UpdatedAt := t, rq_Version := i64 (rq_Version (sr_Request s) + 1)\<rparr>\<rparr>"

definition judged :: "Decision \<Rightarrow> string \<Rightarrow> storedRequest \<Rightarrow> storedRequest" where
  "judged dec did s = s\<lparr>sr_DecisionID := did, sr_Decision := dec\<rparr>"

abbreviation status :: "storedRequest \<Rightarrow> RequestStatus" where
  "status s \<equiv> rq_Status (sr_Request s)"

text \<open>Which status a decision may lead to.\<close>

definition decision_outcome :: "Decision \<Rightarrow> RequestStatus \<Rightarrow> bool" where
  "decision_outcome dec st \<longleftrightarrow>
     dec = DecisionAllowOnce \<and> st \<in> {StatusAccepted, StatusCancelled, StatusExpired} \<or>
     dec = DecisionDeny \<and> st \<in> {StatusRejected, StatusExpired}"

inductive life_step :: "storedRequest \<Rightarrow> storedRequest \<Rightarrow> bool" where
  life_decide: "status s = StatusAwaitingApproval \<Longrightarrow> sr_DecisionID s = [] \<Longrightarrow> validDecisionID did \<Longrightarrow>
     decision_outcome dec st \<Longrightarrow> life_step s (progress t st (judged dec did s))"
| life_expire: "status s = StatusAwaitingApproval \<Longrightarrow> life_step s (progress t StatusExpired s)"
| life_claim: "status s = StatusAccepted \<Longrightarrow> validExecutionClaimID claim \<Longrightarrow>
     life_step s (progress t StatusRunning (s\<lparr>sr_ExecutionClaimID := claim\<rparr>))"
| life_result: "status s = StatusRunning \<Longrightarrow> st \<in> {StatusCompleted, StatusFailed, StatusCancelled} \<Longrightarrow>
     life_step s (progress t st (s\<lparr>sr_Request := (sr_Request s)\<lparr>rq_Answer := answer, rq_Error := err, rq_ResultFiles := files\<rparr>,
                                   sr_ResultDigest := digest\<rparr>))"
| life_cancel: "\<not> Terminal (status s) \<Longrightarrow> life_step s (progress t StatusCancelled s)"

text \<open>What the lifecycle keeps true of a stored request.\<close>

fun phase_ok :: "RequestStatus \<Rightarrow> string \<Rightarrow> Decision \<Rightarrow> string \<Rightarrow> int \<Rightarrow> bool" where
  "phase_ok StatusAwaitingApproval did dec claim v \<longleftrightarrow> did = [] \<and> claim = [] \<and> v = 1"
| "phase_ok StatusAccepted did dec claim v \<longleftrightarrow>
     validDecisionID did \<and> dec = DecisionAllowOnce \<and> claim = [] \<and> v = 2"
| "phase_ok StatusRunning did dec claim v \<longleftrightarrow>
     validDecisionID did \<and> dec = DecisionAllowOnce \<and> validExecutionClaimID claim \<and> v = 3"
| "phase_ok StatusCompleted did dec claim v \<longleftrightarrow>
     validDecisionID did \<and> dec = DecisionAllowOnce \<and> validExecutionClaimID claim \<and> v = 4"
| "phase_ok StatusFailed did dec claim v \<longleftrightarrow>
     validDecisionID did \<and> dec = DecisionAllowOnce \<and> validExecutionClaimID claim \<and> v = 4"
| "phase_ok StatusRejected did dec claim v \<longleftrightarrow>
     validDecisionID did \<and> dec = DecisionDeny \<and> claim = [] \<and> v = 2"
| "phase_ok StatusExpired did dec claim v \<longleftrightarrow> claim = [] \<and> v = 2"
| "phase_ok StatusCancelled did dec claim v \<longleftrightarrow> 2 \<le> v \<and> v \<le> 4"
| "phase_ok _ did dec claim v \<longleftrightarrow> False"

definition life_ok :: "storedRequest \<Rightarrow> bool" where
  "life_ok s = phase_ok (status s) (sr_DecisionID s) (sr_Decision s) (sr_ExecutionClaimID s) (rq_Version (sr_Request s))"

text \<open>What no step of the lifecycle changes.\<close>

definition proposal :: "storedRequest \<Rightarrow> string \<times> string \<times> Request" where
  "proposal s =
     (sr_Prompt s, sr_IdempotencyRedisKey s,
      (sr_Request s)\<lparr>rq_Status := StatusPreparing, rq_Answer := [], rq_Error := [], rq_ResultFiles := [],
                     rq_UpdatedAt := 0, rq_Version := 0\<rparr>)"

lemma phase_ok_cancel:
  "phase_ok st did dec claim v \<Longrightarrow> \<not> Terminal st \<Longrightarrow> phase_ok StatusCancelled did dec claim (i64 (v + 1))"
  by (cases st) (auto simp: i64_def)

lemma validDecisionID_nonempty: "validDecisionID x \<Longrightarrow> x \<noteq> []"
  by (auto simp: validDecisionID_def validOpaqueID_def)

lemma validExecutionClaimID_nonempty: "validExecutionClaimID x \<Longrightarrow> x \<noteq> []"
  by (auto simp: validExecutionClaimID_def validOpaqueID_def)

lemmas life_defs = life_ok_def progress_def judged_def

lemma life_step_ok: "life_step s s' \<Longrightarrow> life_ok s \<Longrightarrow> life_ok s'"
  by (induction rule: life_step.induct)
    (auto simp: life_defs decision_outcome_def i64_def dest: phase_ok_cancel)

lemma life_step_same: "life_step s s' \<Longrightarrow> proposal s' = proposal s"
  by (induction rule: life_step.induct) (auto simp: proposal_def life_defs)

lemma life_step_not_terminal: "life_step s s' \<Longrightarrow> \<not> Terminal (status s)"
  by (induction rule: life_step.induct) auto

lemma proposal_simps:
  assumes "proposal s' = proposal s"
  shows "rq_RequestID (sr_Request s') = rq_RequestID (sr_Request s)"
    "rq_TargetAgentID (sr_Request s') = rq_TargetAgentID (sr_Request s)"
    "rq_RequesterAgentID (sr_Request s') = rq_RequesterAgentID (sr_Request s)"
    "rq_ConversationID (sr_Request s') = rq_ConversationID (sr_Request s)"
    "sr_IdempotencyRedisKey s' = sr_IdempotencyRedisKey s"
  using assms by (auto simp: proposal_def dest: arg_cong [of _ _ rq_RequestID] arg_cong [of _ _ rq_ConversationID]
    arg_cong [of _ _ rq_TargetAgentID] arg_cong [of _ _ rq_RequesterAgentID])

text \<open>Over any number of steps.\<close>

lemma life_steps_keep:
  assumes "life_step\<^sup>*\<^sup>* s s'" "life_ok s"
  shows "life_ok s' \<and> proposal s' = proposal s \<and>
    (Terminal (status s) \<longrightarrow> s' = s) \<and>
    (sr_DecisionID s \<noteq> [] \<longrightarrow> sr_DecisionID s' = sr_DecisionID s \<and> sr_Decision s' = sr_Decision s) \<and>
    (sr_ExecutionClaimID s \<noteq> [] \<longrightarrow> sr_ExecutionClaimID s' = sr_ExecutionClaimID s) \<and>
    rq_Version (sr_Request s) \<le> rq_Version (sr_Request s')"
  using assms
proof (induction rule: rtranclp_induct)
  case (step y z)
  have keep: "(sr_DecisionID y \<noteq> [] \<longrightarrow> sr_DecisionID z = sr_DecisionID y \<and> sr_Decision z = sr_Decision y) \<and>
    (sr_ExecutionClaimID y \<noteq> [] \<longrightarrow> sr_ExecutionClaimID z = sr_ExecutionClaimID y) \<and>
    rq_Version (sr_Request y) \<le> rq_Version (sr_Request z)" if "life_ok y"
    using \<open>life_step y z\<close> that
    by (induction rule: life_step.induct) (auto simp: life_defs i64_def elim!: phase_ok.elims)
  with step show ?case
    using life_step_ok [OF step.hyps(2)] life_step_same [OF step.hyps(2)] life_step_not_terminal [OF step.hyps(2)]
    by (cases "Terminal (status s)") auto
qed simp

section \<open>The protocol\<close>

text \<open>
  What the relay is meant to allow, written without the code of the operations: who may change what,
  in which state and for which purpose. An \<open>intent\<close> is what a device asks for. \<open>agent_move\<close> is the
  lifecycle of one request as its two parties may drive it: \<open>me\<close> is the acting agent, \<open>revoked\<close> the
  agents with a tombstone, and \<open>C\<close> the clock readings the decision may rest on.
\<close>

datatype intent =
    Announce | Tidy | Propose CreateRequest | Judge Decision string | Lapse | Start string
  | Finish ResultPayload | Withdraw

definition may_judge :: "string \<Rightarrow> string \<Rightarrow> storedRequest \<Rightarrow> bool" where
  "may_judge me did s \<longleftrightarrow>
     rq_TargetAgentID (sr_Request s) = me \<and> status s = StatusAwaitingApproval \<and> sr_DecisionID s = [] \<and> validDecisionID did"

inductive agent_move ::
  "time set \<Rightarrow> (string \<Rightarrow> bool) \<Rightarrow> string \<Rightarrow> intent \<Rightarrow> storedRequest \<Rightarrow> storedRequest \<Rightarrow> bool" for C revoked me where
  move_allow: "may_judge me did s \<Longrightarrow> now \<in> C \<Longrightarrow> now < rq_ExpiresAt (sr_Request s) \<Longrightarrow>
     \<not> revoked (rq_RequesterAgentID (sr_Request s)) \<Longrightarrow>
     agent_move C revoked me (Judge DecisionAllowOnce did) s (progress t StatusAccepted (judged DecisionAllowOnce did s))"
| move_refuse: "may_judge me did s \<Longrightarrow> now \<in> C \<Longrightarrow> now < rq_ExpiresAt (sr_Request s) \<Longrightarrow>
     revoked (rq_RequesterAgentID (sr_Request s)) \<Longrightarrow>
     agent_move C revoked me (Judge DecisionAllowOnce did) s (progress t StatusCancelled (judged DecisionAllowOnce did s))"
| move_deny: "may_judge me did s \<Longrightarrow> now \<in> C \<Longrightarrow> now < rq_ExpiresAt (sr_Request s) \<Longrightarrow>
     agent_move C revoked me (Judge DecisionDeny did) s (progress t StatusRejected (judged DecisionDeny did s))"
| move_late: "may_judge me did s \<Longrightarrow> now \<in> C \<Longrightarrow> rq_ExpiresAt (sr_Request s) \<le> now \<Longrightarrow>
     dec \<in> {DecisionAllowOnce, DecisionDeny} \<Longrightarrow>
     agent_move C revoked me (Judge dec did) s (progress t StatusExpired (judged dec did s))"
| move_lapse: "rq_TargetAgentID (sr_Request s) = me \<Longrightarrow> status s = StatusAwaitingApproval \<Longrightarrow> now \<in> C \<Longrightarrow>
     rq_ExpiresAt (sr_Request s) \<le> now \<Longrightarrow> agent_move C revoked me Lapse s (progress t StatusExpired s)"
| move_start: "rq_TargetAgentID (sr_Request s) = me \<Longrightarrow> status s = StatusAccepted \<Longrightarrow> validExecutionClaimID claim \<Longrightarrow>
     agent_move C revoked me (Start claim) s (progress t StatusRunning (s\<lparr>sr_ExecutionClaimID := claim\<rparr>))"
| move_finish: "rq_TargetAgentID (sr_Request s) = me \<Longrightarrow> status s = StatusRunning \<Longrightarrow>
     sr_ExecutionClaimID s = rp_ExecutionClaimID res \<Longrightarrow> map ad_Name files = map ai_Name (rp_ResultFiles res) \<Longrightarrow>
     rp_State res = StatusCompleted \<and> rp_Error res = [] \<or>
       rp_State res \<in> {StatusFailed, StatusCancelled} \<and> rp_Answer res = [] \<and> files = [] \<Longrightarrow>
     agent_move C revoked me (Finish res) s
       (progress t (rp_State res) (s\<lparr>sr_Request := (sr_Request s)\<lparr>rq_Answer := rp_Answer res, rq_Error := rp_Error res,
          rq_ResultFiles := files\<rparr>, sr_ResultDigest := digest\<rparr>))"
| move_withdraw: "rq_RequesterAgentID (sr_Request s) = me \<Longrightarrow> \<not> Terminal (status s) \<Longrightarrow>
     agent_move C revoked me Withdraw s (progress t StatusCancelled s)"

text \<open>
  A proposal is stored as its requester wrote it, undecided, unclaimed and unanswered, and is never
  addressed to its own sender. \<open>registers\<close> is everything that changes with it: the request, its
  idempotency record, the inbox of the target, the attachments, and the conversation when it is new.
\<close>

definition proposed :: "Principal \<Rightarrow> CreateRequest \<Rightarrow> storedRequest \<Rightarrow> bool" where
  "proposed p i s \<longleftrightarrow>
     (let r = sr_Request s in
      rq_RequesterAgentID r = pr_AgentID p \<and> rq_RequesterMemberID r = pr_MemberID p \<and> rq_TargetAgentID r \<noteq> pr_AgentID p \<and>
      sr_Prompt s = cr_Prompt i \<and> rq_RequestedAccess r = cr_RequestedAccess i \<and>
      rq_ExpiresAt r = rq_CreatedAt r + cr_ExpiresInSeconds i * second \<and> rq_UpdatedAt r = rq_CreatedAt r \<and>
      rq_Status r = StatusAwaitingApproval \<and> rq_Version r = 1 \<and> rq_Answer r = [] \<and> rq_Error r = [] \<and> rq_ResultFiles r = [] \<and>
      sr_DecisionID s = [] \<and> sr_ExecutionClaimID s = [] \<and> sr_ResultDigest s = [])"

definition registers :: "string \<Rightarrow> storedRequest \<Rightarrow> string \<Rightarrow> relay_db \<Rightarrow> relay_db \<Rightarrow> bool" where
  "registers org s dg d d' \<longleftrightarrow>
     (let r = sr_Request s; clk = db_clock d; inbox = inboxKey org (rq_TargetAgentID r) in
      db_clock d' = clk \<and> db_up d' = db_up d \<and> db_agents d' = db_agents d \<and>
      db_requests d' = rset clk (requestKey org (rq_RequestID r)) s requestRetention (db_requests d) \<and>
      db_idempotency d' = rset clk (sr_IdempotencyRedisKey s) \<lparr>id_RequestID = rq_RequestID r, id_Digest = dg\<rparr>
        requestRetention (db_idempotency d) \<and>
      db_sets d' = s_expire clk inbox requestRetention (r_sadd clk inbox (rq_RequestID r) (db_sets d)) \<and>
      (db_conversations d' = db_conversations d \<or>
       (\<exists>c. cv_ID c = rq_ConversationID r \<and> cv_OrganizationID c = org \<and> cv_RequesterAgentID c = rq_RequesterAgentID r \<and>
          cv_TargetAgentID c = rq_TargetAgentID r \<and>
          db_conversations d' = rset clk (conversationKey org (cv_ID c)) c conversationTTL (db_conversations d))) \<and>
      (\<forall>k. db_artifacts d' k = db_artifacts d k \<or>
         (\<exists>x. db_artifacts d' k = Some (Json x, Some (clk + requestRetention)) \<and> sa_RequestID x = rq_RequestID r \<and>
            sa_RequesterAgentID x = rq_RequesterAgentID r \<and> sa_TargetAgentID x = rq_TargetAgentID r \<and>
            sa_Direction x = ''input'')))"

text \<open>A request that moved on is kept for another period, together with its idempotency record.\<close>

definition keeps :: "string \<Rightarrow> storedRequest \<Rightarrow> relay_db \<Rightarrow> relay_db" where
  "keeps org s d =
     d\<lparr>db_requests := rset (db_clock d) (requestKey org (rq_RequestID (sr_Request s))) s requestRetention (db_requests d),
       db_idempotency := (if sr_IdempotencyRedisKey s = [] then db_idempotency d
          else rexpire (db_clock d) (sr_IdempotencyRedisKey s) requestRetention (db_idempotency d))\<rparr>"

definition revoked_in :: "relay_db \<Rightarrow> string \<Rightarrow> string \<Rightarrow> bool" where
  "revoked_in d org agent = sismember (db_clock d) (db_sets d) (revokedAgentsKey org) agent"

text \<open>
  What a device may do to the shared database. Tidying up removes entries of the presence set, of
  presence cards, and of its own inbox. The identifier of a new request was never used before.
\<close>

inductive agent_acts :: "time set \<Rightarrow> Principal \<Rightarrow> intent \<Rightarrow> relay_db \<Rightarrow> relay_db \<Rightarrow> bool" for C p where
  act_announce: "requireDevice p = Inr () \<Longrightarrow> db_up d \<Longrightarrow> \<not> revoked_in d (pr_OrganizationID p) (pr_AgentID p) \<Longrightarrow>
     card_AgentID c = pr_AgentID p \<Longrightarrow> card_MemberID c = pr_MemberID p \<Longrightarrow>
     agent_acts C p Announce d
       (d\<lparr>db_agents := rset (db_clock d) (agentKey (pr_OrganizationID p) (pr_AgentID p)) c agentTTL (db_agents d),
          db_sets := r_sadd (db_clock d) (agentsKey (pr_OrganizationID p)) (pr_AgentID p) (db_sets d)\<rparr>)"
| act_tidy_set: "requireDevice p = Inr () \<Longrightarrow>
     k \<in> {agentsKey (pr_OrganizationID p), inboxKey (pr_OrganizationID p) (pr_AgentID p)} \<Longrightarrow>
     agent_acts C p Tidy d (d\<lparr>db_sets := r_srem (db_clock d) k x (db_sets d)\<rparr>)"
| act_tidy_card: "requireDevice p = Inr () \<Longrightarrow>
     agent_acts C p Tidy d (d\<lparr>db_agents := rdel (agentKey (pr_OrganizationID p) x) (db_agents d)\<rparr>)"
| act_file: "requireDevice p = Inr () \<Longrightarrow> sa_TargetAgentID x = pr_AgentID p \<Longrightarrow> sa_Direction x = ''result'' \<Longrightarrow>
     agent_acts C p (Finish res) d
       (d\<lparr>db_artifacts := rset (db_clock d) (artifactKey (pr_OrganizationID p) (ad_ArtifactID (sa_Descriptor x))) x
            requestRetention (db_artifacts d)\<rparr>)"
| act_propose: "requireDevice p = Inr () \<Longrightarrow> db_up d \<Longrightarrow> proposed p i s \<Longrightarrow>
     sr_IdempotencyRedisKey s = idempotencyKey (L :: relaylib) (pr_OrganizationID p) (pr_AgentID p) (cr_IdempotencyKey i) \<Longrightarrow>
     rget (db_clock d) (db_idempotency d) (sr_IdempotencyRedisKey s) = None \<Longrightarrow>
     db_requests d (requestKey (pr_OrganizationID p) (rq_RequestID (sr_Request s))) = None \<Longrightarrow>
     registers (pr_OrganizationID p) s dg d d' \<Longrightarrow> agent_acts C p (Propose i) d d'"
| act_move: "requireDevice p = Inr () \<Longrightarrow> readStoredRequest d (pr_OrganizationID p) requestID = Inr s \<Longrightarrow>
     agent_move C (revoked_in d (pr_OrganizationID p)) (pr_AgentID p) x s s' \<Longrightarrow>
     agent_acts C p x d (keeps (pr_OrganizationID p) s' d)"

text \<open>
  The relay as a whole: time passes, the connection comes and goes, agents are revoked and their
  presence is removed, and any device may act on any clock.
\<close>

inductive relay_step :: "relay_db \<Rightarrow> relay_db \<Rightarrow> bool" where
  step_tick: "db_clock d \<le> t \<Longrightarrow> relay_step d (d\<lparr>db_clock := t\<rparr>)"
| step_up: "relay_step d (d\<lparr>db_up := b\<rparr>)"
| step_revoke: "relay_step d (revoke_one org agent d)"
| step_drop_present: "relay_step d (drop_from_set (agentsKey org) x d)"
| step_drop_agent: "relay_step d (drop_agent k d)"
| step_agent: "agent_acts UNIV p x d d' \<Longrightarrow> relay_step d d'"

abbreviation relay_steps :: "relay_db \<Rightarrow> relay_db \<Rightarrow> bool" where
  "relay_steps \<equiv> relay_step\<^sup>*\<^sup>*"

definition reachable :: "relay_db \<Rightarrow> bool" where
  "reachable d = relay_steps empty_relay_db d"

text \<open>A lifecycle step of the protocol moves a stored request one \<open>life_step\<close> further.\<close>

lemma agent_move_life: "agent_move C revoked me x s s' \<Longrightarrow> life_step s s'"
  by (induction rule: agent_move.induct)
    (auto simp: may_judge_def decision_outcome_def intro!: life_decide life_expire life_claim life_result life_cancel)

definition advances :: "relay_db \<Rightarrow> relay_db \<Rightarrow> bool" where
  "advances d d' \<longleftrightarrow>
     (\<exists>org requestID s s'. readStoredRequest d org requestID = Inr s \<and> life_step s s' \<and> d' = keeps org s' d)"

text \<open>Every step either leaves the stored requests alone, creates one, or advances one.\<close>

lemma keeps_fields [simp]:
  "db_clock (keeps org s d) = db_clock d" "db_up (keeps org s d) = db_up d" "db_sets (keeps org s d) = db_sets d"
  "db_requests (keeps org s d) =
     rset (db_clock d) (requestKey org (rq_RequestID (sr_Request s))) s requestRetention (db_requests d)"
  by (simp_all add: keeps_def)

lemma registers_fields:
  assumes "registers org s dg d d'"
  shows "db_requests d' = rset (db_clock d) (requestKey org (rq_RequestID (sr_Request s))) s requestRetention (db_requests d)"
    "db_idempotency d' = rset (db_clock d) (sr_IdempotencyRedisKey s) \<lparr>id_RequestID = rq_RequestID (sr_Request s), id_Digest = dg\<rparr>
       requestRetention (db_idempotency d)"
    "db_clock d' = db_clock d" "db_up d' = db_up d"
    "db_sets d' = s_expire (db_clock d) (inboxKey org (rq_TargetAgentID (sr_Request s))) requestRetention
       (r_sadd (db_clock d) (inboxKey org (rq_TargetAgentID (sr_Request s))) (rq_RequestID (sr_Request s)) (db_sets d))"
  using assms by (auto simp: registers_def Let_def)

lemma relay_step_cases_requests:
  assumes "relay_step d d'"
  obtains (same) "db_requests d' = db_requests d" "db_idempotency d' = db_idempotency d" "db_clock d \<le> db_clock d'"
  | (create) L p i s dg
      where "rget (db_clock d) (db_idempotency d) (sr_IdempotencyRedisKey s) = None"
      "db_requests d (requestKey (pr_OrganizationID p) (rq_RequestID (sr_Request s))) = None" "proposed p i s"
      "sr_IdempotencyRedisKey s = idempotencyKey (L :: relaylib) (pr_OrganizationID p) (pr_AgentID p) (cr_IdempotencyKey i)"
      "registers (pr_OrganizationID p) s dg d d'"
  | (advance) "advances d d'"
  using assms
proof cases
  case (step_agent p x)
  then show thesis
  proof cases
    case (act_propose i s L dg)
    then show thesis using that(2) by blast
  next
    case (act_move requestID s s')
    then show thesis using that(3) agent_move_life unfolding advances_def by blast
  qed (use that(1) in auto)
qed (use that(1) in \<open>auto simp: drop_from_set_def drop_agent_def revoke_one_def\<close>)


section \<open>The invariant of the database\<close>

text \<open>
  Every stored request lies under its own key with a deadline, is in a legal phase of its
  lifecycle, and as long as it is retained the idempotency record it was created under is
  retained with the same deadline and names it.
\<close>

definition idem_bound :: "relay_db \<Rightarrow> storedRequest \<Rightarrow> time \<Rightarrow> bool" where
  "idem_bound d s t \<longleftrightarrow>
     (db_clock d < t \<longrightarrow>
        (\<exists>dg. db_idempotency d (sr_IdempotencyRedisKey s) =
               Some (Json \<lparr>id_RequestID = rq_RequestID (sr_Request s), id_Digest = dg\<rparr>, Some t)))"

definition stored_ok :: "string \<Rightarrow> storedRequest \<Rightarrow> bool" where
  "stored_ok k s \<longleftrightarrow>
     (\<exists>org. k = requestKey org (rq_RequestID (sr_Request s)) \<and>
        (\<exists>L key. sr_IdempotencyRedisKey s = idempotencyKey (L :: relaylib) org (rq_RequesterAgentID (sr_Request s)) key)) \<and>
     life_ok s \<and> rq_RequesterAgentID (sr_Request s) \<noteq> rq_TargetAgentID (sr_Request s)"

definition request_ok :: "relay_db \<Rightarrow> string \<Rightarrow> storedRequest cell \<Rightarrow> bool" where
  "request_ok d k cl \<longleftrightarrow> (\<exists>s t. cl = (Json s, Some t) \<and> stored_ok k s \<and> idem_bound d s t)"

definition relay_inv :: "relay_db \<Rightarrow> bool" where
  "relay_inv d \<longleftrightarrow> (\<forall>k cl. db_requests d k = Some cl \<longrightarrow> request_ok d k cl)"

lemma requestRetention_pos [simp]: "0 < requestRetention" "requestRetention \<noteq> 0" "\<not> requestRetention \<le> 0"
  by (simp_all add: requestRetention_def hour_def minute_def second_def)

lemma relay_inv_cellE:
  assumes "relay_inv d" "db_requests d k = Some cl"
  obtains s t where "cl = (Json s, Some t)" "stored_ok k s" "idem_bound d s t"
  using assms unfolding relay_inv_def request_ok_def by blast

lemma relay_inv_empty: "relay_inv empty_relay_db"
  by (simp add: relay_inv_def empty_relay_db_def)

lemma relay_inv_same:
  assumes "relay_inv d" "db_requests d' = db_requests d" "db_idempotency d' = db_idempotency d"
    "db_clock d \<le> db_clock d'"
  shows "relay_inv d'"
proof -
  have "idem_bound d s t \<Longrightarrow> idem_bound d' s t" for s t using assms(3,4) by (auto simp: idem_bound_def)
  then show ?thesis using assms(1,2) unfolding relay_inv_def request_ok_def by metis
qed

lemma idempotencyKey_nonempty [simp]: "idempotencyKey L org agent key \<noteq> []" "[] \<noteq> idempotencyKey L org agent key"
  by (simp_all add: idempotencyKey_def collab_prefix_def)

lemma stored_ok_proposed:
  assumes "proposed p i s" "sr_IdempotencyRedisKey s = idempotencyKey (L :: relaylib) (pr_OrganizationID p) (pr_AgentID p) key"
  shows "stored_ok (requestKey (pr_OrganizationID p) (rq_RequestID (sr_Request s))) s"
proof -
  have "rq_RequesterAgentID (sr_Request s) = pr_AgentID p" "life_ok s" "rq_TargetAgentID (sr_Request s) \<noteq> pr_AgentID p"
    using assms(1) by (simp_all add: proposed_def Let_def life_ok_def)
  with assms(2) show ?thesis unfolding stored_ok_def by metis
qed

lemma stored_ok_step: "life_step s s' \<Longrightarrow> stored_ok k s \<Longrightarrow> stored_ok k s'"
  using proposal_simps [OF life_step_same [of s s']] life_step_ok [of s s'] by (auto simp: stored_ok_def)

text \<open>Two requests with the same idempotency key and identifier lie under the same key.\<close>

lemma stored_ok_key:
  "stored_ok k s \<Longrightarrow> stored_ok k' s' \<Longrightarrow> sr_IdempotencyRedisKey s = sr_IdempotencyRedisKey s' \<Longrightarrow>
   rq_RequestID (sr_Request s) = rq_RequestID (sr_Request s') \<Longrightarrow> k = k'"
  by (auto simp: stored_ok_def dest: idempotencyKey_org)

lemma relay_inv_create:
  assumes inv: "relay_inv d" and ik: "rget (db_clock d) (db_idempotency d) (sr_IdempotencyRedisKey s) = None"
    and s: "stored_ok (requestKey org (rq_RequestID (sr_Request s))) s"
    and reg: "registers org s dg d d'"
  shows "relay_inv d'"
  unfolding relay_inv_def
proof (intro allI impI)
  fix k cl
  let ?d' = "d'"
  note [simp] = registers_fields [OF reg]
  assume k: "db_requests ?d' k = Some cl"
  show "request_ok ?d' k cl"
  proof (cases "k = requestKey org (rq_RequestID (sr_Request s))")
    case True
    with k s show ?thesis by (auto simp: request_ok_def idem_bound_def rset_def)
  next
    case False
    with k inv have "request_ok d k cl" by (cases cl) (simp add: relay_inv_def rset_def)
    moreover have "idem_bound d s' t \<Longrightarrow> idem_bound ?d' s' t" for s' t
      using ik by (auto simp: idem_bound_def rset_def rget_def expired_at_def split: if_splits)
    ultimately show ?thesis by (auto simp: request_ok_def)
  qed
qed

text \<open>A commit moves the deadlines of the request and of its idempotency record together.\<close>

lemma relay_inv_advance:
  assumes inv: "relay_inv d" and adv: "advances d d'"
  shows "relay_inv d'"
  unfolding relay_inv_def
proof (intro allI impI)
  fix k cl
  assume k: "db_requests d' k = Some cl"
  from adv obtain org i s s' where rd: "readStoredRequest d org i = Inr s" and life: "life_step s s'"
    and d': "d' = keeps org s' d" by (auto simp: advances_def)
  let ?key = "requestKey org (TrimSpace i)"
  from rd obtain dl where "db_requests d ?key = Some (Json s, dl)" and live: "\<not> expired_at (db_clock d) dl"
    by (auto simp: rget_def dest!: readStoredRequest_SomeD split: option.splits if_splits)
  with inv obtain t where ok: "stored_ok ?key s" "idem_bound d s t" and dl: "dl = Some t"
    by (elim relay_inv_cellE) auto
  with live obtain dg where idem: "db_idempotency d (sr_IdempotencyRedisKey s) =
      Some (Json \<lparr>id_RequestID = rq_RequestID (sr_Request s), id_Digest = dg\<rparr>, Some t)" "db_clock d < t"
    by (auto simp: idem_bound_def expired_at_def)
  note keep = proposal_simps [OF life_step_same [OF life]]
  have rid: "rq_RequestID (sr_Request s') = TrimSpace i" using keep(1) readStoredRequest_SomeD [OF rd] by simp
  have "sr_IdempotencyRedisKey s \<noteq> []" using ok(1) by (auto simp: stored_ok_def)
  then have idem': "db_idempotency d' = (db_idempotency d)(sr_IdempotencyRedisKey s \<mapsto>
      (Json \<lparr>id_RequestID = rq_RequestID (sr_Request s), id_Digest = dg\<rparr>, Some (db_clock d + requestRetention)))"
    using idem keep by (simp add: d' keeps_def rexpire_def expired_at_def)
  have clk: "db_clock d' = db_clock d" by (simp add: d')
  show "request_ok d' k cl"
  proof (cases "k = ?key")
    case True
    with k have "cl = (Json s', Some (db_clock d + requestRetention))" by (simp add: d' rid rset_def)
    moreover have "idem_bound d' s' (db_clock d + requestRetention)"
      using keep idem' by (simp add: idem_bound_def)
    ultimately show ?thesis using True stored_ok_step [OF life ok(1)] by (auto simp: request_ok_def)
  next
    case False
    with k inv have "request_ok d k cl" by (cases cl) (simp add: relay_inv_def rset_def d' rid)
    then obtain s2 t2 where s2: "cl = (Json s2, Some t2)" "stored_ok k s2" "idem_bound d s2 t2"
      by (auto simp: request_ok_def)
    have "idem_bound d' s2 t2"
    proof (cases "sr_IdempotencyRedisKey s2 = sr_IdempotencyRedisKey s")
      case True
      with s2 idem False stored_ok_key [OF s2(2) ok(1)] have "\<not> db_clock d < t2"
        by (auto simp: idem_bound_def)
      then show ?thesis by (simp add: idem_bound_def d')
    qed (use s2(3) clk in \<open>auto simp: idem_bound_def idem'\<close>)
    with s2 show ?thesis by (auto simp: request_ok_def)
  qed
qed

lemma relay_step_inv: "relay_step d d' \<Longrightarrow> relay_inv d \<Longrightarrow> relay_inv d'"
  by (erule relay_step_cases_requests) (blast intro: relay_inv_same relay_inv_create stored_ok_proposed relay_inv_advance)+

lemma reachable_inv: "reachable d \<Longrightarrow> relay_inv d"
  unfolding reachable_def by (induction rule: rtranclp_induct) (auto intro: relay_inv_empty relay_step_inv)


section \<open>How a stored request evolves\<close>

lemma relay_step_clock: "relay_step d d' \<Longrightarrow> db_clock d \<le> db_clock d'"
  by (elim relay_step_cases_requests) (auto simp: advances_def registers_fields)

lemma relay_steps_clock: "relay_steps d d' \<Longrightarrow> db_clock d \<le> db_clock d'"
  by (induction rule: rtranclp_induct) (auto dest: relay_step_clock)

lemma readStoredRequest_cell:
  "readStoredRequest d org i = Inr s \<Longrightarrow> \<exists>dl. db_requests d (requestKey org (TrimSpace i)) = Some (Json s, dl)"
  by (auto simp: rget_def dest!: readStoredRequest_SomeD split: option.splits if_splits)

text \<open>What a commit leaves under a key.\<close>

lemma keeps_cell:
  assumes "readStoredRequest d org i = Inr s1" "life_step s1 s2" "db_requests d k = Some (Json s, dl)"
  shows "s1 = s \<and> k = requestKey org (TrimSpace i) \<and> db_requests (keeps org s2 d) k = Some (Json s2, Some (db_clock d + requestRetention)) \<or>
    k \<noteq> requestKey org (TrimSpace i) \<and> db_requests (keeps org s2 d) k = Some (Json s, dl)"
proof -
  have "rq_RequestID (sr_Request s2) = TrimSpace i" "\<exists>dl. db_requests d (requestKey org (TrimSpace i)) = Some (Json s1, dl)"
    using proposal_simps(1) [OF life_step_same [OF assms(2)]] readStoredRequest_SomeD [OF assms(1)] readStoredRequest_cell [OF assms(1)]
    by auto
  with assms(3) show ?thesis by (auto simp: rset_def)
qed

lemma relay_step_evolves:
  assumes "relay_step d d'" "db_requests d k = Some (Json s, dl)"
  shows "\<exists>s' dl'. db_requests d' k = Some (Json s', dl') \<and> life_step\<^sup>*\<^sup>* s s'"
  using assms(1)
proof (cases rule: relay_step_cases_requests)
  case advance
  then obtain org i s1 s' where "readStoredRequest d org i = Inr s1" "life_step s1 s'" "d' = keeps org s' d"
    by (auto simp: advances_def)
  with keeps_cell [OF this(1,2) assms(2)] show ?thesis by auto
next
  case create
  with assms(2) show ?thesis by (auto simp: registers_fields(1) rset_def)
qed (use assms(2) in auto)

lemma relay_steps_evolve:
  assumes "relay_steps d d'" "db_requests d k = Some (Json s, dl)"
  shows "\<exists>s' dl'. db_requests d' k = Some (Json s', dl') \<and> life_step\<^sup>*\<^sup>* s s'"
  using assms
proof (induction rule: rtranclp_induct)
  case (step y z)
  then show ?case using relay_step_evolves rtranclp_trans by metis
qed auto

text \<open>What two reads of the same request at different times have to do with each other.\<close>

lemma reads_related:
  assumes "readStoredRequest d org i = Inr s" "relay_steps d d'" "readStoredRequest d' org j = Inr s'"
    "TrimSpace i = TrimSpace j"
  shows "life_step\<^sup>*\<^sup>* s s'"
  using assms readStoredRequest_cell [OF assms(1)] readStoredRequest_cell [OF assms(3)] relay_steps_evolve [OF assms(2)]
  by fastforce

lemma stored_ok_life: "stored_ok k s \<Longrightarrow> life_ok s"
  by (simp add: stored_ok_def)

lemma reachable_read_ok:
  assumes "reachable d" "readStoredRequest d org i = Inr s"
  shows "stored_ok (requestKey org (TrimSpace i)) s \<and> life_ok s"
proof -
  obtain dl where "db_requests d (requestKey org (TrimSpace i)) = Some (Json s, dl)"
    using readStoredRequest_cell [OF assms(2)] by blast
  with reachable_inv [OF assms(1)] show ?thesis by (elim relay_inv_cellE) (auto dest: stored_ok_life)
qed

lemma reachable_steps: "reachable d \<Longrightarrow> relay_steps d d' \<Longrightarrow> reachable d'"
  by (simp add: reachable_def)

text \<open>Tombstones are permanent. The tombstone sets carry no deadline, so the clock does not empty them.\<close>

definition tombstones_permanent :: "relay_db \<Rightarrow> bool" where
  "tombstones_permanent d \<longleftrightarrow> (\<forall>org xs dl. db_sets d (revokedAgentsKey org) = Some (xs, dl) \<longrightarrow> dl = None)"

lemma agent_acts_tombs: "agent_acts C p x d d' \<Longrightarrow> db_sets d' (revokedAgentsKey org) = db_sets d (revokedAgentsKey org)"
  by (induction rule: agent_acts.induct)
    (auto simp: registers_fields(5) r_srem_def r_sadd_def s_expire_def Let_def)

lemma relay_step_tombs:
  assumes "relay_step d d'"
  shows "db_sets d' (revokedAgentsKey org) = db_sets d (revokedAgentsKey org) \<or>
    (\<exists>agent. db_sets d' (revokedAgentsKey org) =
       Some (sadd agent (smembers (db_clock d) (db_sets d) (revokedAgentsKey org)),
             set_deadline (db_clock d) (db_sets d) (revokedAgentsKey org)))"
  using assms
proof cases
  case (step_revoke org' agent)
  then show ?thesis by (cases "org' = org") (auto simp: revoke_one_def r_sadd_def)
next
  case (step_agent p x)
  then show ?thesis using agent_acts_tombs by blast
qed (auto simp: drop_from_set_def drop_agent_def r_srem_def Let_def)

lemma permanent_set:
  assumes "tombstones_permanent d"
  shows "set_deadline clk (db_sets d) (revokedAgentsKey org) = None"
    "smembers clk (db_sets d) (revokedAgentsKey org) =
       (case db_sets d (revokedAgentsKey org) of None \<Rightarrow> [] | Some (xs, _) \<Rightarrow> xs)"
proof -
  have "dl = None" if "db_sets d (revokedAgentsKey org) = Some (xs, dl)" for xs dl
    using assms that unfolding tombstones_permanent_def by blast
  then show "set_deadline clk (db_sets d) (revokedAgentsKey org) = None"
    "smembers clk (db_sets d) (revokedAgentsKey org) =
       (case db_sets d (revokedAgentsKey org) of None \<Rightarrow> [] | Some (xs, _) \<Rightarrow> xs)"
    by (auto simp: set_deadline_def smembers_def expired_at_def split: option.splits)
qed

lemma relay_step_permanent: "relay_step d d' \<Longrightarrow> tombstones_permanent d \<Longrightarrow> tombstones_permanent d'"
  using relay_step_tombs [of d d'] permanent_set(1) [of d]
  unfolding tombstones_permanent_def by (metis option.inject prod.inject)

lemma reachable_tombstones: "reachable d \<Longrightarrow> tombstones_permanent d"
  unfolding reachable_def
proof (induction rule: rtranclp_induct)
  case base
  then show ?case by (simp add: tombstones_permanent_def empty_relay_db_def)
qed (rule relay_step_permanent)

lemma relay_step_revoked:
  assumes "relay_step d d'" "tombstones_permanent d" "revoked_in d org agent"
  shows "revoked_in d' org agent"
  using relay_step_tombs [OF assms(1), of org] assms(3)
    permanent_set [OF assms(2)] permanent_set [OF relay_step_permanent [OF assms(1,2)]]
  by (elim disjE exE) (simp_all add: revoked_in_def sismember_def set_sadd)

lemma relay_steps_revoked:
  assumes "relay_steps d d'" "reachable d" "revoked_in d org agent"
  shows "revoked_in d' org agent"
  using assms(1)
proof (induction rule: rtranclp_induct)
  case (step y z)
  have "tombstones_permanent y" using reachable_steps [OF assms(2) step.hyps(1)] by (rule reachable_tombstones)
  with step show ?case by (blast intro: relay_step_revoked)
qed (rule assms(3))

section \<open>The operations keep to the protocol\<close>

text \<open>
  \<open>together R C p I\<close> relates two states between which the others took steps of the relation \<open>R\<close> and
  the device \<open>p\<close> acted, with the intents \<open>I\<close> and on the clock readings \<open>C\<close>, as the protocol allows. \<open>R\<close> is
  any relation: with equality nobody else does anything, with \<open>relay_steps\<close> the whole relay does.
\<close>

definition together ::
  "(relay_db \<Rightarrow> relay_db \<Rightarrow> bool) \<Rightarrow> time set \<Rightarrow> Principal \<Rightarrow> intent set \<Rightarrow> relay_db \<Rightarrow> relay_db \<Rightarrow> bool" where
  "together R C p I = (\<lambda>d d'. R d d' \<or> (\<exists>x\<in>I. agent_acts C p x d d'))\<^sup>*\<^sup>*"

definition env_in :: "(relay_db \<Rightarrow> relay_db \<Rightarrow> bool) \<Rightarrow> (nat \<Rightarrow> relay_db \<Rightarrow> relay_db) \<Rightarrow> bool" where
  "env_in R env \<longleftrightarrow> (\<forall>i d. R d (env i d))"

definition atts_in :: "(relay_db \<Rightarrow> relay_db \<Rightarrow> bool) \<Rightarrow> time set \<Rightarrow> (nat \<Rightarrow> relay_db attempt) \<Rightarrow> bool" where
  "atts_in R C atts \<longleftrightarrow>
     (\<forall>i. att_now (atts i) \<in> C \<and> (\<forall>d. R d (att_pre (atts i) d) \<and> R d (att_mid (atts i) d)))"

text \<open>The other clients take only steps of the relay.\<close>

definition env_ok :: "(nat \<Rightarrow> relay_db \<Rightarrow> relay_db) \<Rightarrow> bool" where
  "env_ok env \<longleftrightarrow> (\<forall>i d. relay_steps d (env i d))"

definition atts_ok :: "(nat \<Rightarrow> relay_db attempt) \<Rightarrow> bool" where
  "atts_ok atts \<longleftrightarrow> (\<forall>i d. relay_steps d (att_pre (atts i) d) \<and> relay_steps d (att_mid (atts i) d))"

lemma together_refl [simp, intro]: "together R C p I d d"
  by (simp add: together_def)

lemma together_trans [trans]: "together R C p I d d' \<Longrightarrow> together R C p I d' d'' \<Longrightarrow> together R C p I d d''"
  by (auto simp: together_def)

lemma together_other: "together R C p I d d' \<Longrightarrow> R d' d'' \<Longrightarrow> together R C p I d d''"
  by (auto simp: together_def intro: rtranclp.rtrancl_into_rtrancl)

lemma together_act: "together R C p I d d' \<Longrightarrow> agent_acts C p x d' d'' \<Longrightarrow> x \<in> I \<Longrightarrow> together R C p I d d''"
  by (auto simp: together_def intro: rtranclp.rtrancl_into_rtrancl)

lemma together_env: "together R C p I d d' \<Longrightarrow> env_in R env \<Longrightarrow> together R C p I d (env i d')"
  by (auto simp: env_in_def intro: together_other)

lemma env_in_shift: "env_in R env \<Longrightarrow> env_in R (\<lambda>n. env (g n))"
  by (simp add: env_in_def)

lemma agent_move_any: "agent_move C revoked me x s s' \<Longrightarrow> agent_move UNIV revoked me x s s'"
  by (induction rule: agent_move.induct)
    (blast intro: agent_move.intros UNIV_I)+

lemma agent_acts_any: "agent_acts C p x d d' \<Longrightarrow> agent_acts UNIV p x d d'"
  by (induction rule: agent_acts.induct) (blast intro: agent_acts.intros agent_move_any)+

text \<open>When the others are the relay, what happens together is what the relay does.\<close>

lemma together_relay: "together relay_steps C p I d d' \<Longrightarrow> relay_steps d d'"
  unfolding together_def
proof (induction rule: rtranclp_induct)
  case (step y z)
  then have "relay_steps y z" using step_agent agent_acts_any by blast
  with step.IH show ?case by (rule rtranclp_trans)
qed simp

lemma env_ok_in: "env_ok env \<Longrightarrow> env_in relay_steps env"
  by (simp add: env_ok_def env_in_def)

lemma atts_ok_in: "atts_ok atts \<Longrightarrow> atts_in relay_steps UNIV atts"
  by (simp add: atts_ok_def atts_in_def)

lemma env_okD: "env_ok env \<Longrightarrow> relay_steps d (env i d)"
  by (simp add: env_ok_def)

subsection \<open>The lifecycle closures make moves of the protocol\<close>

lemma transition_commit_fields [simp]:
  "db_clock (transition_commit org i s d) = db_clock d" "db_up (transition_commit org i s d) = db_up d"
  "db_sets (transition_commit org i s d) = db_sets d"
  "db_requests (transition_commit org i s d) =
     rset (db_clock d) (requestKey org (TrimSpace i)) s requestRetention (db_requests d)"
  by (simp_all add: transition_commit_def)

lemma transition_commit_keeps:
  "rq_RequestID (sr_Request s) = TrimSpace i \<Longrightarrow> transition_commit org i s = keeps org s"
  by (rule ext) (simp add: transition_commit_def keeps_def)

lemma transition_body_ExecD:
  assumes "transition_body p requestID update a d = TxExec f r"
  obtains s s' x where "readStoredRequest d (pr_OrganizationID p) requestID = Inr s"
    "update a d s = Inr (s', x)" "s' \<noteq> s"
    "f = transition_commit (pr_OrganizationID p) requestID (stamp (att_stamp a) s')"
    "r = (mutation (sr_Request (stamp (att_stamp a) s')), x)"
  using assms by (auto simp: transition_body_def Let_def split: sum.splits if_splits prod.splits)

lemma decide_move:
  assumes "decide_update p (input :: DecisionPayload) a d s = Inr (s', y)" "s' \<noteq> s" "att_now a \<in> C"
    "dp_Decision input \<in> {DecisionAllowOnce, DecisionDeny}" "validDecisionID (dp_DecisionID input)"
  shows "agent_move C (revoked_in d (pr_OrganizationID p)) (pr_AgentID p) (Judge (dp_Decision input) (dp_DecisionID input)) s (stamp t s')"
proof -
  let ?rev = "revoked_in d (pr_OrganizationID p)" and ?did = "dp_DecisionID input" and ?dec = "dp_Decision input"
  let ?late = "\<not> att_now a < rq_ExpiresAt (sr_Request s)"
  have m: "may_judge (pr_AgentID p) ?did s" using assms
    by (auto simp: decide_update_def may_judge_def Let_def split: if_splits)
  let ?st = "if ?late then StatusExpired else if ?dec = DecisionDeny then StatusRejected
       else if ?rev (rq_RequesterAgentID (sr_Request s)) then StatusCancelled else StatusAccepted"
  have "s' = decided input ?st s"
    using assms(1,2,4) by (simp add: decide_update_def revoked_in_def Let_def split: if_splits)
  then have s': "stamp t s' = progress t ?st (judged ?dec ?did s)"
    by (simp add: decided_def stamp_def progress_def judged_def)
  show ?thesis
    using assms(3,4) move_late [OF m assms(3) _ assms(4), of ?rev t] move_deny [OF m assms(3), of ?rev t]
      move_allow [OF m assms(3), of ?rev t] move_refuse [OF m assms(3), of ?rev t]
    by (auto simp: s' not_less)
qed

lemma expire_move:
  assumes "on_request (expire_update p) a s = Inr (s', y)" "att_now a \<in> C"
  shows "agent_move C tombs (pr_AgentID p) Lapse s (stamp t s')"
proof -
  have "stamp t s' = progress t StatusExpired s" "rq_TargetAgentID (sr_Request s) = pr_AgentID p"
    "status s = StatusAwaitingApproval" "rq_ExpiresAt (sr_Request s) \<le> att_now a"
    using assms(1) by (auto simp: on_request_def expire_update_def stamp_def progress_def split: if_splits)
  with move_lapse [of s "pr_AgentID p" "att_now a" C tombs t] assms(2) show ?thesis by simp
qed

lemma running_move:
  assumes "running_update p claim a s = Inr (s', y)" "s' \<noteq> s" "validExecutionClaimID claim"
  shows "agent_move C tombs (pr_AgentID p) (Start claim) s (stamp t s')"
proof -
  have "stamp t s' = progress t StatusRunning (s\<lparr>sr_ExecutionClaimID := claim\<rparr>)" "rq_TargetAgentID (sr_Request s) = pr_AgentID p"
    "status s = StatusAccepted"
    using assms(1,2) by (auto simp: running_update_def stamp_def progress_def split: if_splits RequestStatus.splits)
  with move_start [of s "pr_AgentID p" claim C tombs t] assms(3) show ?thesis by simp
qed

lemma submit_move:
  assumes "submit_update p res digest ds a s = Inr (s', y)" "s' \<noteq> s" "validateResult res = Inr ()"
    "map ad_Name ds = map ai_Name (rp_ResultFiles res)"
  shows "agent_move C tombs (pr_AgentID p) (Finish res) s (stamp t s')"
proof -
  have v: "rp_State res = StatusCompleted \<and> rp_Error res = [] \<or>
      rp_State res \<in> {StatusFailed, StatusCancelled} \<and> rp_Answer res = [] \<and> ds = []"
    using assms(3,4) by (auto simp: validateResult_def split: if_splits)
  have u: "s' = s\<lparr>sr_Request := (sr_Request s)\<lparr>rq_Status := rp_State res, rq_Answer := rp_Answer res,
      rq_Error := rp_Error res, rq_ResultFiles := ds\<rparr>, sr_ResultDigest := digest\<rparr>"
    "rq_TargetAgentID (sr_Request s) = pr_AgentID p" "status s = StatusRunning" "sr_ExecutionClaimID s = rp_ExecutionClaimID res"
    using assms(1,2) by (simp_all add: submit_update_def executionClaimMatches_def opaqueIDMatches_def split: if_splits)
  have s': "stamp t s' = progress t (rp_State res) (s\<lparr>sr_Request := (sr_Request s)\<lparr>rq_Answer := rp_Answer res,
      rq_Error := rp_Error res, rq_ResultFiles := ds\<rparr>, sr_ResultDigest := digest\<rparr>)"
    by (simp add: u(1) stamp_def progress_def)
  show ?thesis unfolding s' by (rule move_finish [OF u(2-4) assms(4) v])
qed

lemma cancel_move:
  assumes "on_request (cancel_update p) a s = Inr (s', y)" "s' \<noteq> s"
  shows "agent_move C tombs (pr_AgentID p) Withdraw s (stamp t s')"
proof -
  have "stamp t s' = progress t StatusCancelled s" "rq_RequesterAgentID (sr_Request s) = pr_AgentID p" "\<not> Terminal (status s)"
    using assms by (auto simp: on_request_def cancel_update_def stamp_def progress_def split: if_splits)
  with move_withdraw [of s "pr_AgentID p" C tombs t] show ?thesis by simp
qed

text \<open>A closure that makes such moves makes the whole transaction an act of the device.\<close>

lemma transition_acts:
  assumes dev: "requireDevice p = Inr ()" and ex: "transition_body p requestID update a d = TxExec f r"
    and mv: "\<And>s s' y t. update a d s = Inr (s', y) \<Longrightarrow> s' \<noteq> s \<Longrightarrow>
      agent_move C (revoked_in d (pr_OrganizationID p)) (pr_AgentID p) x s (stamp t s')"
  shows "agent_acts C p x d (f d)"
  using ex
proof (elim transition_body_ExecD)
  fix s s' y
  assume rd: "readStoredRequest d (pr_OrganizationID p) requestID = Inr s" and up: "update a d s = Inr (s', y)" and ne: "s' \<noteq> s"
    and f: "f = transition_commit (pr_OrganizationID p) requestID (stamp (att_stamp a) s')"
  note m = mv [OF up ne, of "att_stamp a"]
  have "rq_RequestID (sr_Request (stamp (att_stamp a) s')) = TrimSpace requestID"
    using proposal_simps(1) [OF life_step_same [OF agent_move_life [OF m]]] readStoredRequest_SomeD [OF rd] by simp
  then show ?thesis using act_move [OF dev rd m] by (simp add: f transition_commit_keeps)
qed

subsection \<open>The lifecycle operations\<close>

lemma transition_together:
  assumes "sees_only extra update" "atts_in R C atts"
    "\<And>i d s s' y t. update (atts i) d s = Inr (s', y) \<Longrightarrow> s' \<noteq> s \<Longrightarrow>
       agent_move C (revoked_in d (pr_OrganizationID p)) (pr_AgentID p) x s (stamp t s')" "x \<in> I"
  shows "together R C p I db (fst (transitionStoredWatching atts p requestID extra update db))"
proof (cases "requireDevice p")
  case (Inr u)
  have "together R C p I db (fst (watch_loop db_up (transition_view p requestID extra)
          (transition_body p requestID update) ErrRedis ErrTxFailed 5 atts db))"
  proof (rule watched.loop_relates [OF transition_watched [OF assms(1)], where J = "\<lambda>_. True"])
    fix i d f r
    assume "transition_body p requestID update (atts i) d = TxExec f r"
    then have "agent_acts C p x d (f d)" using Inr by (intro transition_acts [OF _ _ assms(3)]) auto
    then show "together R C p I d (f d)" using assms(4) by (rule together_act [OF together_refl])
  qed (use assms(2) in \<open>auto simp: atts_in_def intro: together_other together_trans\<close>)
  then show ?thesis by (simp add: transitionStoredWatching_def Inr)
qed (simp add: transitionStoredWatching_def)

lemma sees_only_closed: "sees_only [] (\<lambda>a _ s. update a s)"
  by (simp add: sees_only_def)

lemma atts_inD: "atts_in R C atts \<Longrightarrow> att_now (atts i) \<in> C"
  by (simp add: atts_in_def)

lemma Decide_together:
  assumes "atts_in R C atts"
  shows "together R C p {Judge (dp_Decision input) (dp_DecisionID input)} db (fst (Decide atts p requestID input db))"
proof (cases "dp_Decision input \<in> {DecisionAllowOnce, DecisionDeny} \<and> validDecisionID (dp_DecisionID input)")
  case True
  have "together R C p {Judge (dp_Decision input) (dp_DecisionID input)} db
      (fst (transitionStoredWatching atts p requestID [revokedAgentsKey (pr_OrganizationID p)] (decide_update p input) db))"
  proof (rule transition_together [OF sees_only_decide assms])
    fix i d s s' t and y :: unit
    assume "decide_update p input (atts i) d s = Inr (s', y)" "s' \<noteq> s"
    from decide_move [OF this atts_inD [OF assms]] True
    show "agent_move C (revoked_in d (pr_OrganizationID p)) (pr_AgentID p) (Judge (dp_Decision input) (dp_DecisionID input)) s (stamp t s')"
      by blast
  qed simp
  with True show ?thesis by (auto simp: Decide_def)
qed (auto simp: Decide_def)

lemma MarkRunning_together:
  assumes "atts_in R C atts"
  shows "together R C p {Start claim} db (fst (MarkRunning atts p requestID claim db))"
proof (cases "validExecutionClaimID claim")
  case True
  have "together R C p {Start claim} db (fst (transitionStored atts p requestID (running_update p claim) db))"
    unfolding transitionStored_def
    by (rule transition_together [OF sees_only_closed assms]) (erule (1) running_move [OF _ _ True], simp)
  with True show ?thesis by (simp add: MarkRunning_def)
qed (simp add: MarkRunning_def)

lemma Cancel_together:
  assumes "atts_in R C atts"
  shows "together R C p {Withdraw} db (fst (Cancel atts p requestID db))"
  unfolding Cancel_def transition_def transitionStored_def
  by (rule transition_together [OF sees_only_closed assms]) (erule (1) cancel_move, simp)

lemma expireAwaiting_together:
  assumes "atts_in R C atts" "Lapse \<in> I"
  shows "together R C p I db (fst (expireAwaiting atts p requestID db))"
proof -
  have "together R C p I db (fst (transition atts p requestID (expire_update p) db))"
    unfolding transition_def transitionStored_def
    by (rule transition_together [OF sees_only_closed assms(1) _ assms(2)]) (erule expire_move [OF _ atts_inD [OF assms(1)]])
  then show ?thesis by (auto simp: expireAwaiting_def split: prod.splits sum.splits)
qed

end
