(* ===== verification/Collab_Refine.thy ===== *)
theory Collab_Refine
  imports Collab_Protocol
begin

text \<open>
  The remaining operations of the store, with their several commands and loops, keep to the protocol
  as well: the result of an execution, the inbox, presence, the directory and the creation of a
  request. The last section draws the consequence for the relay as a whole: every operation is a
  sequence of its steps.
\<close>

section \<open>Results\<close>

lemma prepare_loop_facts:
  "prepare_loop L rnd req requester target dir seen tot inputs = Inr (ds, arts) \<Longrightarrow>
   map ad_Name ds = map ai_Name inputs \<and>
   (\<forall>x\<in>set arts. sa_RequestID x = req \<and> sa_RequesterAgentID x = requester \<and> sa_TargetAgentID x = target \<and> sa_Direction x = dir)"
proof (induction inputs arbitrary: rnd seen tot ds arts)
  case (Cons i inputs)
  let ?rest = "prepare_loop L (\<lambda>n. rnd (Suc n)) req requester target dir (ToLower L (ai_Name i) # seen) (i64 (tot + ai_SizeBytes i)) inputs"
  from Cons.prems obtain ds' arts' d x where
    "?rest = Inr (ds', arts')" "ds = d # ds'" "arts = x # arts'" "ad_Name d = ai_Name i"
    "sa_RequestID x = req \<and> sa_RequesterAgentID x = requester \<and> sa_TargetAgentID x = target \<and> sa_Direction x = dir"
    by (auto simp: Let_def split: if_splits option.splits sum.splits)
  with Cons.IH show ?case by auto
qed simp

lemma drop_together:
  assumes "together R C p I c d" "requireDevice p = Inr ()" "Tidy \<in> I"
    "k \<in> {agentsKey (pr_OrganizationID p), inboxKey (pr_OrganizationID p) (pr_AgentID p)}"
  shows "together R C p I c (drop_from_set k x d)"
  using together_act [OF assms(1) act_tidy_set [OF assms(2,4)] assms(3)] assms(1) by (simp add: drop_from_set_def)

lemma drop_agent_together:
  assumes "together R C p I c d" "requireDevice p = Inr ()" "Tidy \<in> I"
  shows "together R C p I c (drop_agent (agentKey (pr_OrganizationID p) x) d)"
  using together_act [OF assms(1) act_tidy_card [OF assms(2)] assms(3)] assms(1) by (simp add: drop_agent_def)

lemma put_artifacts_together:
  assumes "requireDevice p = Inr ()" "Finish res \<in> I"
    "\<forall>x\<in>set arts. sa_TargetAgentID x = pr_AgentID p \<and> sa_Direction x = ''result''"
    "env_in R env" "together R C p I c d"
  shows "together R C p I c (fst (put_artifacts (pr_OrganizationID p) env arts d))"
  using assms(3-5)
proof (induction arts arbitrary: env d)
  case (Cons x arts)
  have e: "together R C p I c (env 0 d)" by (rule together_env [OF Cons.prems(3,2)])
  from together_act [OF e act_file [OF assms(1)] assms(2), of x] Cons.prems(1)
  have "together R C p I c (put_artifact (pr_OrganizationID p) x (env 0 d))" by (simp add: put_artifact_def)
  from Cons.IH [OF _ env_in_shift [OF Cons.prems(2)] this] Cons.prems(1) e show ?case by (simp add: Let_def)
qed simp

lemma SubmitResult_together:
  assumes env: "env_in R env" and atts: "atts_in R C atts"
  shows "together R C p {Finish res, Tidy} db (fst (SubmitResult L rnd env atts p requestID res db))"
proof (cases "requireDevice p = Inr () \<and> validateResult res = Inr ()")
  case True
  let ?T = "together R C p {Finish res, Tidy}"
  let ?upd = "\<lambda>ds. submit_update p res (digestResult L res) ds"
  have e0: "?T db (env 0 db)" by (rule together_env [OF together_refl env])
  have tr: "?T db d2" if "transitionStored atts p requestID (?upd ds) d = (d2, r)" "?T db d"
    "map ad_Name ds = map ai_Name (rp_ResultFiles res)" for d d2 ds r
  proof -
    have "?T d (fst (transitionStored atts p requestID (?upd ds) d))" unfolding transitionStored_def
      by (rule transition_together [OF sees_only_closed atts]) (erule (1) submit_move, use that(3) True in auto)
    with that show ?thesis by (auto intro: together_trans)
  qed
  have put: "?T db d1"
    if "put_artifacts (pr_OrganizationID p) (\<lambda>n. env (n + 2)) arts (env 0 db) = (d1, r)"
      "prepareArtifacts L rnd fs i a (pr_AgentID p) ''result'' = Inr (ds, arts)" for arts d1 r fs i a ds
    using put_artifacts_together [OF _ _ _ env_in_shift [OF env] e0, of res arts "\<lambda>n. n + 2"]
      prepare_loop_facts [OF that(2) [unfolded prepareArtifacts_def]] True that(1) by auto
  have names: "map ad_Name ds = map ai_Name fs" if "prepareArtifacts L rnd fs i a t ''result'' = Inr (ds, arts)" for fs i a t ds arts
    using prepare_loop_facts [OF that [unfolded prepareArtifacts_def]] by blast
  have e1: "?T db (drop_from_set (inboxKey (pr_OrganizationID p) (pr_AgentID p)) x (env k d))" if "?T db d" for d x k
    using True together_env [OF that env] by (intro drop_together) auto
  show ?thesis
    using e0 True
    by (auto simp: SubmitResult_def Let_def split: sum.splits prod.splits if_splits
        intro: e1 [simplified] dest: put [simplified] names tr [OF _ put [simplified] names])
qed (auto simp: SubmitResult_def split: sum.splits)

section \<open>The inbox\<close>

definition inbox_env_in :: "(relay_db \<Rightarrow> relay_db \<Rightarrow> bool) \<Rightarrow> time set \<Rightarrow> inbox_env \<Rightarrow> bool" where
  "inbox_env_in R C e \<longleftrightarrow>
     (\<forall>d. R d (ie_read e d) \<and> R d (ie_reread e d) \<and> R d (ie_drop e d)) \<and> atts_in R C (ie_atts e)"

lemma inbox_remove_together:
  "inbox_env_in R C e \<Longrightarrow> requireDevice p = Inr () \<Longrightarrow> together R C p {Lapse, Tidy} c d \<Longrightarrow>
   together R C p {Lapse, Tidy} c (inbox_remove p e i d)"
  unfolding inbox_remove_def by (intro drop_together) (auto simp: inbox_env_in_def intro: together_other)

lemma inbox_read_together:
  assumes "inbox_env_in R C e" "requireDevice p = Inr ()" "inbox_read p e i d = (d', r)" "together R C p {Lapse, Tidy} c d"
  shows "together R C p {Lapse, Tidy} c d'"
  using assms inbox_remove_together [OF assms(1,2,4), of i]
  by (auto simp: inbox_read_def split: sum.splits relay_error.splits if_splits)

lemma inbox_one_together:
  assumes e: "inbox_env_in R C e" and dev: "requireDevice p = Inr ()" and one: "inbox_one p e i d = (d', r)"
  shows "together R C p {Lapse, Tidy} d d'"
proof -
  let ?T = "together R C p {Lapse, Tidy}"
  have e1: "?T d (ie_read e d)" and re: "?T d x \<Longrightarrow> ?T d (ie_reread e x)" for x
    using e by (auto simp: inbox_env_in_def intro: together_other)
  have ex: "?T d d''" if "expireAwaiting (ie_atts e) p i x = (d'', v)" "?T d x" for x d'' v
    using expireAwaiting_together [of R C "ie_atts e" "{Lapse, Tidy}" p x i] e that
    by (auto simp: inbox_env_in_def intro: together_trans)
  show ?thesis
    using one e1
    by (auto simp: inbox_one_def split: prod.splits sum.splits option.splits if_splits bool.splits
        dest!: inbox_read_together [OF e dev] ex intro!: inbox_remove_together [OF e dev]
        intro: together_trans [OF re])
qed

lemma inbox_loop_together:
  assumes "\<And>n. inbox_env_in R C (es n)" "requireDevice p = Inr ()" "inbox_loop p es ids d = (d', r)"
  shows "together R C p {Lapse, Tidy} d d'"
  using assms(1,3)
proof (induction ids arbitrary: es d d' r)
  case (Cons i ids)
  obtain d1 r1 where one: "inbox_one p (es 0) i d = (d1, r1)" by fastforce
  obtain d2 r2 where rest: "inbox_loop p (\<lambda>k. es (Suc k)) ids d1 = (d2, r2)" by fastforce
  have "together R C p {Lapse, Tidy} d d1" by (rule inbox_one_together [OF Cons.prems(1) assms(2) one])
  moreover have "together R C p {Lapse, Tidy} d1 d2" by (rule Cons.IH [OF Cons.prems(1) rest])
  ultimately show ?case using Cons.prems(2) one rest
    by (auto split: sum.splits intro: together_trans)
qed simp

lemma Inbox_together:
  assumes "env_in R env" "\<And>n. inbox_env_in R C (es n)"
  shows "together R C p {Lapse, Tidy} db (fst (Inbox env es p db))"
proof (cases "requireDevice p")
  case (Inr u)
  let ?T = "together R C p {Lapse, Tidy}"
  have e: "?T db (env 0 db)" "?T db (env (Suc 0) (env 0 db))"
    by (intro together_env [OF _ assms(1)] together_refl)+
  have "?T db d'" if "inbox_loop p es ids (env (Suc 0) (env 0 db)) = (d', r)" for ids d' r
    using inbox_loop_together [OF assms(2) _ that] e Inr by (auto intro: together_trans)
  with e show ?thesis by (auto simp: Inbox_def Let_def split: sum.splits prod.splits)
qed (simp add: Inbox_def)

section \<open>Presence and the directory\<close>

lemma Heartbeat_together:
  assumes "atts_in R C atts"
  shows "together R C p {Announce} db (fst (Heartbeat L now atts p h db))"
proof (cases "requireDevice p")
  case (Inr u)
  let ?c = "heartbeat_card L now p h"
  have "together R C p {Announce} db (fst (watch_loop db_up (heartbeat_view p) (heartbeat_body p ?c) ErrRedis ErrTxFailed 5 atts db))"
  proof (rule heartbeat.loop_relates [where J = "\<lambda>_. True"])
    fix i d f r
    assume "heartbeat_body p ?c (atts i) d = TxExec f r"
    then have f: "f = heartbeat_commit (pr_OrganizationID p) ?c" "db_up d"
      "\<not> revoked_in d (pr_OrganizationID p) (pr_AgentID p)"
      by (auto simp: heartbeat_body_def revoked_in_def split: if_splits)
    have c: "card_AgentID ?c = pr_AgentID p" "card_MemberID ?c = pr_MemberID p" by (simp_all add: heartbeat_card_def)
    from act_announce [OF _ f(2,3) c] Inr have "agent_acts C p Announce d (f d)" by (simp add: f(1) heartbeat_commit_def c)
    then show "together R C p {Announce} d (f d)" by (rule together_act [OF together_refl]) simp
  qed (use assms in \<open>auto simp: atts_in_def intro: together_other together_trans\<close>)
  then show ?thesis by (auto simp: Heartbeat_def Let_def split: sum.splits)
qed (simp add: Heartbeat_def)

lemma list_one_together:
  assumes env: "env_in R env" and dev: "requireDevice p = Inr ()" and one: "list_one L p q revoked env i d = (d', r)"
  shows "together R C p {Tidy} d d'"
proof -
  let ?T = "together R C p {Tidy}"
  have e0: "?T d (env 0 d)" by (rule together_env [OF together_refl env])
  have drop: "?T d (drop_from_set (agentsKey (pr_OrganizationID p)) i x)" if "?T d x" for x
    by (rule drop_together [OF that dev]) simp_all
  have agent: "?T d (drop_agent (agentKey (pr_OrganizationID p) i) x)" if "?T d x" for x
    by (rule drop_agent_together [OF that dev]) simp
  have e1: "?T d (env (Suc 0) x)" if "?T d x" for x by (rule together_env [OF that env])
  show ?thesis using one e0
    by (auto simp: list_one_def Let_def intro: drop agent e1 split: if_splits option.splits raw.splits)
qed

lemma list_loop_together:
  assumes "env_in R env" "requireDevice p = Inr ()" "list_loop L p q revoked env ids d = (d', r)"
  shows "together R C p {Tidy} d d'"
  using assms(1,3)
proof (induction ids arbitrary: env d d' r)
  case (Cons i ids)
  obtain d1 r1 where one: "list_one L p q revoked env i d = (d1, r1)" by fastforce
  obtain d2 r2 where rest: "list_loop L p q revoked (\<lambda>n. env (n + 2)) ids d1 = (d2, r2)" by fastforce
  have "together R C p {Tidy} d d1" by (rule list_one_together [OF Cons.prems(1) assms(2) one])
  moreover have "together R C p {Tidy} d1 d2" by (rule Cons.IH [OF env_in_shift [OF Cons.prems(1)] rest])
  ultimately show ?case using Cons.prems(2) one rest
    by (auto split: sum.splits intro: together_trans)
qed simp

lemma ListAgents_together:
  assumes "env_in R env"
  shows "together R C p {Tidy} db (fst (ListAgents L now env p q db))"
proof (cases "requireDevice p")
  case (Inr u)
  let ?T = "together R C p {Tidy}"
  have e: "?T db (env 0 db)" "?T db (env (Suc 0) (env 0 db))"
    by (intro together_env [OF _ assms(1)] together_refl)+
  have "?T db d'" if "list_loop L p q rv (\<lambda>n. env (n + 2)) ids (env (Suc 0) (env 0 db)) = (d', r)" for rv ids d' r
    using list_loop_together [OF env_in_shift [OF assms] _ that] e Inr by (auto intro: together_trans)
  with e show ?thesis by (auto simp: ListAgents_def Let_def split: sum.splits prod.splits)
qed (simp add: ListAgents_def)

section \<open>Creating a request\<close>

text \<open>
  The identifier \<open>crypto/rand\<close> gave a caller: nobody has used it, and nobody else will while the
  call runs.
\<close>

definition unused :: "string \<Rightarrow> string \<Rightarrow> relay_db \<Rightarrow> bool" where
  "unused org requestID d \<longleftrightarrow> db_requests d (requestKey org requestID) = None"

definition keeps_unused :: "string \<Rightarrow> string \<Rightarrow> (relay_db \<Rightarrow> relay_db) \<Rightarrow> bool" where
  "keeps_unused org requestID f \<longleftrightarrow> (\<forall>d. unused org requestID d \<longrightarrow> unused org requestID (f d))"

definition fresh_id ::
  "string \<Rightarrow> string \<Rightarrow> (nat \<Rightarrow> relay_db \<Rightarrow> relay_db) \<Rightarrow> (nat \<Rightarrow> relay_db attempt) \<Rightarrow> relay_db \<Rightarrow> bool" where
  "fresh_id org requestID env atts db \<longleftrightarrow>
     unused org requestID db \<and> (\<forall>i. keeps_unused org requestID (env i)) \<and>
     (\<forall>i. keeps_unused org requestID (att_pre (atts i)) \<and> keeps_unused org requestID (att_mid (atts i)))"

lemma put_artifacts_fields:
  "db_requests (fold (put_artifact org) arts d) = db_requests d \<and>
   db_idempotency (fold (put_artifact org) arts d) = db_idempotency d \<and>
   db_conversations (fold (put_artifact org) arts d) = db_conversations d \<and>
   db_agents (fold (put_artifact org) arts d) = db_agents d \<and>
   db_clock (fold (put_artifact org) arts d) = db_clock d \<and> db_up (fold (put_artifact org) arts d) = db_up d \<and>
   db_sets (fold (put_artifact org) arts d) = db_sets d \<and>
   (\<forall>k. db_artifacts (fold (put_artifact org) arts d) k = db_artifacts d k \<or>
      (\<exists>x\<in>set arts. db_artifacts (fold (put_artifact org) arts d) k = Some (Json x, Some (db_clock d + requestRetention))))"
proof (induction arts arbitrary: d)
  case (Cons a arts)
  show ?case using Cons.IH [of "put_artifact org a d"]
    by (auto simp: put_artifact_def rset_def split: if_splits)
qed simp

lemma create_commit_fields [simp]:
  "db_requests (create_commit org s dg conv arts d) =
     rset (db_clock d) (requestKey org (rq_RequestID (sr_Request s))) s requestRetention (db_requests d)"
  "db_idempotency (create_commit org s dg conv arts d) =
     rset (db_clock d) (sr_IdempotencyRedisKey s) \<lparr>id_RequestID = rq_RequestID (sr_Request s), id_Digest = dg\<rparr>
       requestRetention (db_idempotency d)"
  "db_clock (create_commit org s dg conv arts d) = db_clock d"
  "db_up (create_commit org s dg conv arts d) = db_up d"
  "db_sets (create_commit org s dg conv arts d) =
     s_expire (db_clock d) (inboxKey org (rq_TargetAgentID (sr_Request s))) requestRetention
       (r_sadd (db_clock d) (inboxKey org (rq_TargetAgentID (sr_Request s))) (rq_RequestID (sr_Request s)) (db_sets d))"
  by (simp_all add: create_commit_def Let_def put_artifacts_fields)

text \<open>The conversation and the attachments that go with a request.\<close>

definition conversation_fits :: "string \<Rightarrow> storedRequest \<Rightarrow> conversation \<Rightarrow> bool" where
  "conversation_fits org s c \<longleftrightarrow>
     cv_ID c = rq_ConversationID (sr_Request s) \<and> cv_OrganizationID c = org \<and>
     cv_RequesterAgentID c = rq_RequesterAgentID (sr_Request s) \<and> cv_TargetAgentID c = rq_TargetAgentID (sr_Request s)"

definition attachments_fit :: "storedRequest \<Rightarrow> storedArtifact list \<Rightarrow> bool" where
  "attachments_fit s arts \<longleftrightarrow>
     (\<forall>x\<in>set arts. sa_RequestID x = rq_RequestID (sr_Request s) \<and> sa_RequesterAgentID x = rq_RequesterAgentID (sr_Request s) \<and>
        sa_TargetAgentID x = rq_TargetAgentID (sr_Request s) \<and> sa_Direction x = ''input'')"

lemma create_registers:
  assumes "\<And>c. conv = Some c \<Longrightarrow> conversation_fits org s c" "attachments_fit s arts"
  shows "registers org s dg d (create_commit org s dg conv arts d)"
proof -
  have "db_agents (create_commit org s dg conv arts d) = db_agents d"
    "db_conversations (create_commit org s dg conv arts d) =
       (case conv of None \<Rightarrow> db_conversations d
        | Some c \<Rightarrow> rset (db_clock d) (conversationKey org (cv_ID c)) c conversationTTL (db_conversations d))"
    by (simp_all add: create_commit_def Let_def put_artifacts_fields)
  moreover obtain d1 where "create_commit org s dg conv arts d = fold (put_artifact org) arts d1"
    "db_artifacts d1 = db_artifacts d" "db_clock d1 = db_clock d"
    by (rule that [OF create_commit_def [unfolded Let_def]]) simp_all
  then have "db_artifacts (create_commit org s dg conv arts d) k = db_artifacts d k \<or>
      (\<exists>x\<in>set arts. db_artifacts (create_commit org s dg conv arts d) k = Some (Json x, Some (db_clock d + requestRetention)))" for k
    using put_artifacts_fields [of org arts d1] by metis
  ultimately show ?thesis using assms
    unfolding registers_def Let_def conversation_fits_def attachments_fit_def by (auto split: option.splits)
qed

lemma new_stored_proposed:
  "cv_TargetAgentID conv \<noteq> pr_AgentID p \<Longrightarrow> proposed p i (new_stored (new_request L now requestID p requester conv ds i) i ik)"
  by (simp add: proposed_def new_stored_def new_request_def)

lemma create_loop_together:
  assumes dev: "requireDevice p = Inr ()" and atts: "atts_in R C atts" and "unused (pr_OrganizationID p) requestID db"
    "\<And>i. keeps_unused (pr_OrganizationID p) requestID (att_pre (atts i))"
    "\<And>i. keeps_unused (pr_OrganizationID p) requestID (att_mid (atts i))"
    and target: "cv_TargetAgentID conv \<noteq> pr_AgentID p"
    and stored: "stored = new_stored (new_request (L :: relaylib) now requestID p requester conv ds i) i
        (idempotencyKey L (pr_OrganizationID p) (pr_AgentID p) (cr_IdempotencyKey i))"
    and fit: "\<And>c. conv' = Some c \<Longrightarrow> conversation_fits (pr_OrganizationID p) stored c" "attachments_fit stored arts"
  shows "together R C p {Propose i} db (fst (watch_loop db_up (create_view (sr_IdempotencyRedisKey stored))
           (create_body p stored digest conv' arts) ErrRedis ErrTxFailed n atts db))"
proof (rule create.loop_relates [where J = "unused (pr_OrganizationID p) requestID"])
  fix k d f r
  assume d: "unused (pr_OrganizationID p) requestID d"
    and body: "create_body p stored digest conv' arts (atts k) d = TxExec f r"
  then have f: "f = create_commit (pr_OrganizationID p) stored digest conv' arts" "db_up d"
    "rget (db_clock d) (db_idempotency d) (sr_IdempotencyRedisKey stored) = None"
    by (auto simp: create_body_def split: if_splits option.splits sum.splits)
  have ids: "rq_RequestID (sr_Request stored) = requestID"
    "sr_IdempotencyRedisKey stored = idempotencyKey L (pr_OrganizationID p) (pr_AgentID p) (cr_IdempotencyKey i)" "proposed p i stored"
    using new_stored_proposed [OF target] by (simp_all add: stored new_stored_def new_request_def)
  have "agent_acts C p (Propose i) d (f d)"
    by (rule act_propose [OF dev f(2) ids(3,2) f(3)]) (use d ids(1) create_registers [OF fit] in \<open>simp_all add: unused_def f(1)\<close>)
  then show "together R C p {Propose i} d (f d)" by (rule together_act [OF together_refl]) simp
qed (use assms(2-5) in \<open>auto simp: atts_in_def keeps_unused_def intro: together_other together_trans\<close>)

lemma create_conversation_facts:
  assumes "create_conversation rnd p i d = Inr conv" "new_conversation i"
  shows "cv_OrganizationID conv = pr_OrganizationID p" "cv_RequesterAgentID conv = pr_AgentID p"
  using assms by (auto simp: create_conversation_def)

lemma CreateRequest_together:
  assumes env: "env_in R env" and atts: "atts_in R C atts"
    and fresh: "fresh_id (pr_OrganizationID p) (randomID (rnd 1) ''req_'') env atts db"
  shows "together R C p {Propose i} db (fst (CreateRequest (L :: relaylib) rnd now env atts p i db))"
proof (cases "requireDevice p")
  case (Inr u)
  let ?T = "together R C p {Propose i}" and ?U = "unused (pr_OrganizationID p) (randomID (rnd 1) ''req_'')"
  have steps: "?T db x \<Longrightarrow> ?T db (env k x)" for k x using together_env env by blast
  have un: "?U x \<Longrightarrow> ?U (env k x)" for k x using fresh by (auto simp: fresh_id_def keeps_unused_def)
  have db: "?U db" using fresh by (simp add: fresh_id_def)
  define d5 where "d5 = env 5 (env 4 (env 3 (env 2 (env 1 (env 0 db)))))"
  have d5: "?T db d5" "?U d5" unfolding d5_def by (intro steps together_refl, intro un db)
  have loop: "?T db (fst (watch_loop db_up
        (create_view (idempotencyKey L (pr_OrganizationID p) (pr_AgentID p) (cr_IdempotencyKey i)))
        (create_body p (new_stored (new_request L now (randomID (rnd 1) ''req_'') p requester conv ds i) i
          (idempotencyKey L (pr_OrganizationID p) (pr_AgentID p) (cr_IdempotencyKey i))) digest conv' arts)
        ErrRedis ErrTxFailed 5 atts d5))"
    if "cv_TargetAgentID conv \<noteq> pr_AgentID p" "create_conversation rnd p i d = Inr conv"
      "prepareArtifacts L rnd' (cr_Attachments i) (randomID (rnd 1) ''req_'') (pr_AgentID p) (cv_TargetAgentID conv) ''input'' = Inr (ds, arts)"
      "conv' = (if new_conversation i then Some conv else None)"
    for requester conv conv' ds digest arts d rnd'
  proof -
    let ?s = "new_stored (new_request L now (randomID (rnd 1) ''req_'') p requester conv ds i) i
          (idempotencyKey L (pr_OrganizationID p) (pr_AgentID p) (cr_IdempotencyKey i))"
    have "attachments_fit ?s arts" using prepare_loop_facts [OF that(3) [unfolded prepareArtifacts_def]]
      by (auto simp: attachments_fit_def new_stored_def new_request_def)
    moreover have "conversation_fits (pr_OrganizationID p) ?s c" if "conv' = Some c" for c
      using create_conversation_facts [OF \<open>create_conversation rnd p i d = Inr conv\<close>] that
        \<open>conv' = (if new_conversation i then Some conv else None)\<close>
      by (auto simp: conversation_fits_def new_stored_def new_request_def split: if_splits)
    ultimately show ?thesis
      using create_loop_together [OF _ atts d5(2) _ _ that(1) refl, where conv' = conv' and arts = arts]
        fresh d5(1) Inr
      by (auto simp: fresh_id_def new_stored_def intro: together_trans)
  qed
  show ?thesis
    using Inr
    by (auto simp: CreateRequest_def Let_def split: sum.splits option.splits prod.splits
        intro!: steps loop [unfolded d5_def, simplified])
qed (simp add: CreateRequest_def)

section \<open>The operations as sequences of steps of the relay\<close>

definition inbox_env_ok :: "inbox_env \<Rightarrow> bool" where
  "inbox_env_ok e \<longleftrightarrow>
     (\<forall>d. relay_steps d (ie_read e d) \<and> relay_steps d (ie_reread e d) \<and> relay_steps d (ie_drop e d)) \<and>
     atts_ok (ie_atts e)"

lemma inbox_env_ok_in: "inbox_env_ok e \<Longrightarrow> inbox_env_in relay_steps UNIV e"
  by (simp add: inbox_env_ok_def inbox_env_in_def atts_ok_in)

lemma Decide_refines: "atts_ok atts \<Longrightarrow> relay_steps db (fst (Decide atts p requestID input db))"
  by (rule together_relay, rule Decide_together, rule atts_ok_in)

lemma MarkRunning_refines: "atts_ok atts \<Longrightarrow> relay_steps db (fst (MarkRunning atts p requestID claim db))"
  by (rule together_relay, rule MarkRunning_together, rule atts_ok_in)

lemma Cancel_refines: "atts_ok atts \<Longrightarrow> relay_steps db (fst (Cancel atts p requestID db))"
  by (rule together_relay, rule Cancel_together, rule atts_ok_in)

lemma SubmitResult_refines:
  "env_ok env \<Longrightarrow> atts_ok atts \<Longrightarrow> relay_steps db (fst (SubmitResult L rnd env atts p requestID res db))"
  by (rule together_relay, rule SubmitResult_together, erule env_ok_in, erule atts_ok_in)

lemma Inbox_refines:
  "env_ok env \<Longrightarrow> (\<And>n. inbox_env_ok (es n)) \<Longrightarrow> relay_steps db (fst (Inbox env es p db))"
  by (rule together_relay, rule Inbox_together, erule env_ok_in, rule inbox_env_ok_in)

lemma Heartbeat_refines: "atts_ok atts \<Longrightarrow> relay_steps db (fst (Heartbeat L now atts p h db))"
  by (rule together_relay, rule Heartbeat_together, rule atts_ok_in)

lemma ListAgents_refines: "env_ok env \<Longrightarrow> relay_steps db (fst (ListAgents L now env p q db))"
  by (rule together_relay, rule ListAgents_together, rule env_ok_in)

lemma CreateRequest_refines:
  "env_ok env \<Longrightarrow> atts_ok atts \<Longrightarrow> fresh_id (pr_OrganizationID p) (randomID (rnd 1) ''req_'') env atts db \<Longrightarrow>
   relay_steps db (fst (CreateRequest (L :: relaylib) rnd now env atts p i db))"
  by (rule together_relay, rule CreateRequest_together, erule env_ok_in, erule atts_ok_in)

text \<open>Single steps with the writes the store makes.\<close>

lemma step_heartbeat:
  assumes "requireDevice p = Inr ()" "org = pr_OrganizationID p" "db_up d"
    "\<not> sismember (db_clock d) (db_sets d) (revokedAgentsKey org) (pr_AgentID p)"
    "card_AgentID c = pr_AgentID p" "card_MemberID c = pr_MemberID p"
  shows "relay_step d (heartbeat_commit org c d)"
  using step_agent [OF act_announce [OF assms(1,3) _ assms(5,6), of UNIV]] assms(2,4,5)
  by (simp add: revoked_in_def heartbeat_commit_def)

lemma step_create:
  assumes "requireDevice p = Inr ()" "org = pr_OrganizationID p" "db_up d"
    "ik = idempotencyKey (L :: relaylib) org (pr_AgentID p) (cr_IdempotencyKey i)"
    "rget (db_clock d) (db_idempotency d) ik = None" "db_requests d (requestKey org requestID) = None"
    "cv_TargetAgentID conv \<noteq> pr_AgentID p" "stored = new_stored (new_request L now requestID p requester conv ds i) i ik"
    "\<And>c. conv' = Some c \<Longrightarrow> conversation_fits org stored c" "attachments_fit stored arts"
  shows "relay_step d (create_commit org stored digest conv' arts d)"
proof -
  have s: "sr_IdempotencyRedisKey stored = ik" "rq_RequestID (sr_Request stored) = requestID" "proposed p i stored"
    using new_stored_proposed [OF assms(7)] by (simp_all add: assms(8) new_stored_def new_request_def)
  have "agent_acts UNIV p (Propose i) d (create_commit org stored digest conv' arts d)"
    by (rule act_propose [OF assms(1,3) s(3)]) (use assms(2,4-6) s create_registers [OF assms(9,10)] in simp_all)
  then show ?thesis by (rule step_agent)
qed

end
