(* ===== verification/Collab_Scenario.thy ===== *)
theory Collab_Scenario
  imports Collab_Refine
begin

text \<open>
  Two members of one organization and one request from Alice to Bob, taken through its life.
  The states are what the operations of the store return when nobody interferes.
\<close>

definition demo_lib :: relaylib where
  "demo_lib = \<lparr>sha256_sum = take 32, uni_lower = id, uni_upper = id, uni_fold = (=), base64_decode = Some,
     media_type_ok = (\<lambda>_. True), json_create = cr_Title, json_result = rp_Answer\<rparr>"

definition demo_alice :: Principal where
  "demo_alice = \<lparr>pr_OrganizationID = ''o'', pr_MemberID = ''m1'', pr_DeviceID = ''d1'', pr_AgentID = ''a1'',
     pr_DisplayName = ''Alice'', pr_DeviceName = ''x'', pr_Runtime = ''codex'', pr_PermissionMode = ''read_only'',
     pr_CredentialHash = [], pr_Role = RoleMember, pr_TokenKind = TokenDevice, pr_IssuedAt = 0\<rparr>"

definition demo_bob :: Principal where
  "demo_bob = demo_alice\<lparr>pr_MemberID := ''m2'', pr_DeviceID := ''d2'', pr_AgentID := ''a2'', pr_DisplayName := ''Bob''\<rparr>"

definition demo_heartbeat :: AgentHeartbeat where
  "demo_heartbeat = \<lparr>hb_DisplayName = ''d'', hb_DeviceName = ''x'', hb_Availability = AvailabilityAvailable,
     hb_AcceptingRequests = True,
     hb_Runtime = \<lparr>rd_ID = ''codex'', rd_DisplayName = ''Codex'', rd_Version = [],
       rd_Capabilities = \<lparr>rc_Resume = True, rc_StructuredEvents = True, rc_Skills = False, rc_MCP = False,
         rc_ReadOnly = True, rc_GuardedWrite = True, rc_ReturnedFiles = True\<rparr>\<rparr>,
     hb_PermissionMode = PermissionReadOnly, hb_Capabilities = [], hb_WorkspaceAliases = []\<rparr>"

definition demo_input :: CreateRequest where
  "demo_input = \<lparr>cr_TargetAgentID = ''a2'', cr_ConversationID = [], cr_Title = ''t'', cr_Prompt = ''p'',
     cr_RequestedAccess = [], cr_Attachments = [], cr_ExpiresInSeconds = 60, cr_IdempotencyKey = ''k''\<rparr>"

definition demo_conv :: conversation where
  "demo_conv = \<lparr>cv_ID = ''c1'', cv_OrganizationID = ''o'', cv_RequesterAgentID = ''a1'', cv_TargetAgentID = ''a2''\<rparr>"

definition demo_request :: storedRequest where
  "demo_request = new_stored (new_request demo_lib 0 ''r1'' demo_alice (heartbeat_card demo_lib 0 demo_alice demo_heartbeat) demo_conv [] demo_input) demo_input
     (idempotencyKey demo_lib ''o'' ''a1'' ''k'')"

definition demo_created :: relay_db where
  "demo_created = create_commit ''o'' demo_request (requestDigest demo_lib demo_input) (Some demo_conv) [] empty_relay_db"

definition demo_allow :: DecisionPayload where
  "demo_allow = \<lparr>dp_Decision = DecisionAllowOnce, dp_DecisionID = ''decision_'' @ replicate 64 CHR ''a''\<rparr>"

definition demo_claim :: string where
  "demo_claim = ''claim_'' @ replicate 64 CHR ''b''"

definition demo_result :: ResultPayload where
  "demo_result = \<lparr>rp_ExecutionClaimID = demo_claim, rp_State = StatusCompleted, rp_Answer = ''done'',
     rp_Error = [], rp_ResultFiles = []\<rparr>"

definition demo_accepted :: relay_db where
  "demo_accepted = fst (Decide (\<lambda>_. calm 0) demo_bob ''r1'' demo_allow demo_created)"

definition demo_running :: relay_db where
  "demo_running = fst (MarkRunning (\<lambda>_. calm 0) demo_bob ''r1'' demo_claim demo_accepted)"

definition demo_completed :: relay_db where
  "demo_completed = fst (SubmitResult demo_lib (\<lambda>_. []) (\<lambda>_ d. d) (\<lambda>_. calm 0) demo_bob ''r1'' demo_result demo_running)"

text \<open>Setting the status, as the closures do.\<close>

definition set_status :: "RequestStatus \<Rightarrow> storedRequest \<Rightarrow> storedRequest" where
  "set_status st s = s\<lparr>sr_Request := (sr_Request s)\<lparr>rq_Status := st\<rparr>\<rparr>"

lemmas demo_defs = demo_alice_def demo_bob_def demo_input_def demo_conv_def demo_allow_def demo_result_def

lemma TrimSpace_r1 [simp]: "TrimSpace ''r1'' = ''r1''" "TrimSpace ''a2'' = ''a2''" "TrimSpace ''t'' = ''t''"
  "TrimSpace ''p'' = ''p''" "TrimSpace ''k'' = ''k''"
  by (simp_all add: TrimSpace_id IsSpace_def)

lemma demo_calm [simp]: "atts_ok (\<lambda>_. calm t)" "env_ok (\<lambda>_ d. d)"
  by (simp_all add: atts_ok_def env_ok_def calm_def)

lemma calm_sel [simp]: "att_now (calm t) = t" "att_stamp (calm t) = t"
  by (simp_all add: calm_def)

lemma demo_ids [simp]: "validDecisionID (dp_DecisionID demo_allow)" "validExecutionClaimID demo_claim"
  by (simp_all add: demo_allow_def demo_claim_def validDecisionID_def validExecutionClaimID_def validOpaqueID_def
      HasPrefix_iff hex_ok_def list_all_iff is_hex_digit_def less_eq_char_def)

lemma demo_devices [simp]: "requireDevice demo_alice = Inr ()" "requireDevice demo_bob = Inr ()"
  by (simp_all add: requireDevice_def demo_defs)

lemma demo_members [simp]: "pr_OrganizationID demo_bob = ''o''" "pr_OrganizationID demo_alice = ''o''"
  "pr_AgentID demo_alice = ''a1''" "pr_AgentID demo_bob = ''a2''"
  by (simp_all add: demo_defs)

lemma demo_result_valid [simp]: "validateResult demo_result = Inr ()"
  by (simp add: validateResult_def demo_result_def maximumAnswerBytes_def maximumErrorBytes_def)

lemma demo_created_reachable: "reachable demo_created"
  unfolding reachable_def demo_created_def demo_request_def
  by (rule r_into_rtranclp, rule step_create [where L = demo_lib and p = demo_alice and conv = demo_conv and i = demo_input])
    (auto simp: empty_relay_db_def rget_def demo_conv_def conversation_fits_def attachments_fit_def new_stored_def
      new_request_def demo_input_def)

lemma demo_created_read: "readStoredRequest demo_created ''o'' ''r1'' = Inr demo_request"
  by (simp add: readStoredRequest_def demo_created_def demo_request_def new_stored_def new_request_def empty_relay_db_def)

lemma transition_calm:
  assumes "requireDevice p = Inr ()" "readStoredRequest d (pr_OrganizationID p) i = Inr s" "update (calm t) d s = Inr (s', x)" "s' \<noteq> s"
  shows "transitionStoredWatching (\<lambda>_. calm t) p i extra update d =
    (transition_commit (pr_OrganizationID p) i (stamp t s') d, Inr (mutation (sr_Request (stamp t s')), x))"
  using assms by (auto simp: transitionStoredWatching_def watch_loop_calm transition_body_def Let_def dest: readStoredRequest_SomeD)

lemma transition_commit_read [simp]:
  assumes "db_up d" "rq_RequestID (sr_Request s) = TrimSpace i"
  shows "readStoredRequest (transition_commit org i s d) org i = Inr s"
  using assms by (simp add: readStoredRequest_def)

definition demo_request_accepted :: storedRequest where
  "demo_request_accepted = stamp 0 (decided demo_allow StatusAccepted demo_request)"

lemma demo_request_fields [simp]:
  "sr_DecisionID demo_request = []" "status demo_request = StatusAwaitingApproval"
  "rq_TargetAgentID (sr_Request demo_request) = ''a2''" "rq_RequesterAgentID (sr_Request demo_request) = ''a1''"
  "rq_RequestID (sr_Request demo_request) = ''r1''" "0 < rq_ExpiresAt (sr_Request demo_request)"
  "rq_Version (sr_Request demo_request) = 1"
  by (simp_all add: demo_request_def new_stored_def new_request_def demo_conv_def demo_input_def second_def)

lemma demo_created_fields [simp]: "db_up demo_created" "db_clock demo_created = 0"
  "\<not> sismember 0 (db_sets demo_created) (revokedAgentsKey ''o'') a"
  by (simp_all add: demo_created_def empty_relay_db_def sismember_def, simp add: smembers_def)

lemma demo_decide: "Decide (\<lambda>_. calm 0) demo_bob ''r1'' demo_allow demo_created =
   (transition_commit ''o'' ''r1'' demo_request_accepted demo_created, Inr (mutation (sr_Request demo_request_accepted)))"
proof -
  have "decide_update demo_bob demo_allow (calm 0) demo_created demo_request =
     Inr (decided demo_allow StatusAccepted demo_request, ())"
    by (simp add: decide_update_def) (simp add: demo_allow_def)
  moreover have "status (decided demo_allow StatusAccepted demo_request) \<noteq> status demo_request"
    by (simp add: decided_def)
  then have "decided demo_allow StatusAccepted demo_request \<noteq> demo_request" by metis
  ultimately show ?thesis
    using transition_calm [of demo_bob demo_created "''r1''" demo_request "decide_update demo_bob demo_allow" 0]
    by (simp add: Decide_def demo_created_read demo_request_accepted_def) (simp add: demo_allow_def)
qed


definition demo_request_running :: storedRequest where
  "demo_request_running = stamp 0 (set_status StatusRunning (demo_request_accepted\<lparr>sr_ExecutionClaimID := demo_claim\<rparr>))"

definition demo_request_completed :: storedRequest where
  "demo_request_completed =
     stamp 0 (demo_request_running\<lparr>sr_Request := (sr_Request demo_request_running)\<lparr>rq_Status := StatusCompleted,
                rq_Answer := ''done'', rq_Error := [], rq_ResultFiles := []\<rparr>,
              sr_ResultDigest := digestResult demo_lib demo_result\<rparr>)"

lemma demo_request_accepted_fields [simp]:
  "sr_DecisionID demo_request_accepted = dp_DecisionID demo_allow"
  "sr_Decision demo_request_accepted = DecisionAllowOnce" "status demo_request_accepted = StatusAccepted"
  "rq_TargetAgentID (sr_Request demo_request_accepted) = ''a2''"
  "rq_RequesterAgentID (sr_Request demo_request_accepted) = ''a1''"
  "rq_RequestID (sr_Request demo_request_accepted) = ''r1''" "sr_ExecutionClaimID demo_request_accepted = []"
  by (simp_all add: demo_request_accepted_def stamp_def decided_def)
    (simp_all add: demo_allow_def demo_request_def new_stored_def)

lemma demo_request_running_fields [simp]:
  "sr_DecisionID demo_request_running = dp_DecisionID demo_allow"
  "sr_Decision demo_request_running = DecisionAllowOnce" "status demo_request_running = StatusRunning"
  "rq_TargetAgentID (sr_Request demo_request_running) = ''a2''"
  "rq_RequesterAgentID (sr_Request demo_request_running) = ''a1''"
  "rq_RequestID (sr_Request demo_request_running) = ''r1''" "sr_ExecutionClaimID demo_request_running = demo_claim"
  by (simp_all add: demo_request_running_def stamp_def set_status_def)

lemma demo_request_completed_fields [simp]:
  "status demo_request_completed = StatusCompleted" "rq_RequestID (sr_Request demo_request_completed) = ''r1''"
  "sr_DecisionID demo_request_completed = dp_DecisionID demo_allow"
  "sr_Decision demo_request_completed = DecisionAllowOnce" "sr_ExecutionClaimID demo_request_completed = demo_claim"
  "rq_TargetAgentID (sr_Request demo_request_completed) = ''a2''"
  "rq_RequesterAgentID (sr_Request demo_request_completed) = ''a1''"
  by (simp_all add: demo_request_completed_def stamp_def)

lemma demo_accepted_eq: "demo_accepted = transition_commit ''o'' ''r1'' demo_request_accepted demo_created"
  by (simp add: demo_accepted_def demo_decide)

lemma demo_accepted_read: "readStoredRequest demo_accepted ''o'' ''r1'' = Inr demo_request_accepted"
  by (simp add: demo_accepted_eq)

lemma status_differs: "status s \<noteq> status s' \<Longrightarrow> s \<noteq> s'"
  by auto

lemma demo_mark: "MarkRunning (\<lambda>_. calm 0) demo_bob ''r1'' demo_claim demo_accepted =
   (transition_commit ''o'' ''r1'' demo_request_running demo_accepted, Inr (mutation (sr_Request demo_request_running)))"
proof -
  have "running_update demo_bob demo_claim (calm 0) demo_request_accepted =
     Inr (set_status StatusRunning (demo_request_accepted\<lparr>sr_ExecutionClaimID := demo_claim\<rparr>), ())"
    by (simp add: running_update_def set_status_def)
  moreover have "status (set_status StatusRunning (demo_request_accepted\<lparr>sr_ExecutionClaimID := demo_claim\<rparr>)) \<noteq>
      status demo_request_accepted"
    by (simp add: set_status_def)
  ultimately show ?thesis
    using transition_calm [of demo_bob demo_accepted "''r1''" demo_request_accepted
        "\<lambda>a _. running_update demo_bob demo_claim a" 0 _ _ "[]"]
    by (simp add: MarkRunning_def transitionStored_def demo_accepted_read status_differs
        demo_request_running_def [symmetric])
qed

lemma demo_running_eq: "demo_running = transition_commit ''o'' ''r1'' demo_request_running demo_accepted"
  by (simp add: demo_running_def demo_mark)

lemma demo_up [simp]: "db_up demo_accepted" "db_up demo_running" "db_clock demo_accepted = 0" "db_clock demo_running = 0"
  by (simp_all add: demo_running_eq demo_accepted_eq)

lemma demo_running_read: "readStoredRequest demo_running ''o'' ''r1'' = Inr demo_request_running"
  by (simp add: demo_running_eq)

lemma demo_claim_matches [simp]: "executionClaimMatches demo_claim demo_claim"
  by (simp add: executionClaimMatches_def opaqueIDMatches_def demo_claim_def)

lemma demo_result_fields [simp]: "rp_ResultFiles demo_result = []" "rp_ExecutionClaimID demo_result = demo_claim"
  "rp_State demo_result = StatusCompleted" "rp_Answer demo_result = ''done''" "rp_Error demo_result = []"
  by (simp_all add: demo_result_def)

lemma demo_submit: "SubmitResult demo_lib (\<lambda>_. []) (\<lambda>_ d. d) (\<lambda>_. calm 0) demo_bob ''r1'' demo_result demo_running =
   (drop_from_set (inboxKey ''o'' ''a2'') ''r1'' (transition_commit ''o'' ''r1'' demo_request_completed demo_running),
    Inr (mutation (sr_Request demo_request_completed)))"
proof -
  let ?s = "demo_request_running\<lparr>sr_Request := (sr_Request demo_request_running)\<lparr>rq_Status := StatusCompleted,
                rq_Answer := ''done'', rq_Error := [], rq_ResultFiles := []\<rparr>,
              sr_ResultDigest := digestResult demo_lib demo_result\<rparr>"
  have "submit_update demo_bob demo_result (digestResult demo_lib demo_result) [] (calm 0) demo_request_running = Inr (?s, ())"
    by (simp add: submit_update_def)
  moreover have "status ?s \<noteq> status demo_request_running" by simp
  ultimately have "transitionStored (\<lambda>_. calm 0) demo_bob ''r1''
      (submit_update demo_bob demo_result (digestResult demo_lib demo_result) []) demo_running =
      (transition_commit ''o'' ''r1'' demo_request_completed demo_running, Inr (mutation (sr_Request demo_request_completed), ()))"
    using transition_calm [of demo_bob demo_running "''r1''" demo_request_running
        "\<lambda>a _. submit_update demo_bob demo_result (digestResult demo_lib demo_result) [] a" 0 ?s "()" "[]"]
    unfolding transitionStored_def demo_request_completed_def by (simp add: demo_running_read status_differs)
  then show ?thesis by (simp add: SubmitResult_def demo_running_read prepareArtifacts_def Let_def)
qed

lemma demo_completed_read: "readStoredRequest demo_completed ''o'' ''r1'' = Inr demo_request_completed"
  by (simp add: demo_completed_def demo_submit drop_from_set_def readStoredRequest_def)

lemma demo_steps:
  "relay_steps demo_created demo_accepted" "relay_steps demo_accepted demo_running"
  "relay_steps demo_running demo_completed"
  unfolding demo_accepted_def demo_running_def demo_completed_def
  by (rule Decide_refines MarkRunning_refines SubmitResult_refines; simp)+

lemma demo_reachable: "reachable demo_accepted" "reachable demo_running" "reachable demo_completed"
  using demo_created_reachable demo_steps by (blast intro: reachable_steps)+

definition demo_present :: relay_db where
  "demo_present =
     heartbeat_commit ''o'' (heartbeat_card demo_lib 0 demo_bob demo_heartbeat)
       (heartbeat_commit ''o'' (heartbeat_card demo_lib 0 demo_alice demo_heartbeat) empty_relay_db)"

lemma demo_present_reachable: "reachable demo_present"
proof -
  have "relay_step empty_relay_db (heartbeat_commit ''o'' (heartbeat_card demo_lib 0 demo_alice demo_heartbeat) empty_relay_db)"
    by (rule step_heartbeat [where p = demo_alice]) (simp_all add: empty_relay_db_def sismember_def smembers_def heartbeat_card_def)
  moreover have "relay_step (heartbeat_commit ''o'' (heartbeat_card demo_lib 0 demo_alice demo_heartbeat) empty_relay_db) demo_present"
    unfolding demo_present_def
    by (rule step_heartbeat [where p = demo_bob])
      (simp_all add: heartbeat_commit_def empty_relay_db_def sismember_def heartbeat_card_def, simp add: smembers_def)
  ultimately show ?thesis by (simp add: reachable_def)
qed

lemma demo_input_valid [simp]: "validateCreate demo_lib demo_input = Inr ()"
  by (simp add: validateCreate_def demo_input_def validLabel_def validIdentifier_def runes_def bytes_def
      MaxTitleBytes_def MaxPromptBytes_def identifier_rune_def IsControl_def)

lemma demo_present_fields [simp]: "db_up demo_present" "db_clock demo_present = 0"
  "db_idempotency demo_present = Map.empty" "\<not> sismember 0 (db_sets demo_present) (revokedAgentsKey ''o'') a"
  by (simp_all add: demo_present_def heartbeat_commit_def empty_relay_db_def sismember_def, simp add: smembers_def)

lemma demo_present_agents [simp]:
  "readAgent demo_present demo_present ''o'' ''a1'' = Inr (heartbeat_card demo_lib 0 demo_alice demo_heartbeat)"
  "readAgent demo_present demo_present ''o'' ''a2'' = Inr (heartbeat_card demo_lib 0 demo_bob demo_heartbeat)"
  by (simp_all add: readAgent_def)
    (simp_all add: demo_present_def heartbeat_commit_def empty_relay_db_def heartbeat_card_def agentTTL_def second_def)

definition demo_conv2 :: conversation where
  "demo_conv2 = demo_conv\<lparr>cv_ID := randomID ''x'' ''conv_''\<rparr>"

definition demo_request2 :: storedRequest where
  "demo_request2 = new_stored (new_request demo_lib 0 (randomID ''x'' ''req_'') demo_alice
     (heartbeat_card demo_lib 0 demo_alice demo_heartbeat) demo_conv2 [] demo_input) demo_input
     (idempotencyKey demo_lib ''o'' ''a1'' ''k'')"

definition demo_created2 :: relay_db where
  "demo_created2 = create_commit ''o'' demo_request2 (requestDigest demo_lib demo_input) (Some demo_conv2) [] demo_present"

lemma demo_create:
  "CreateRequest demo_lib (\<lambda>_. ''x'') 0 (\<lambda>_ d. d) (\<lambda>_. calm 0) demo_alice demo_input demo_present =
     (demo_created2, Inr (mutation (sr_Request demo_request2), notice (sr_Request demo_request2), True))"
proof -
  have conv: "create_conversation (\<lambda>_. ''x'') demo_alice demo_input demo_present = Inr demo_conv2" "new_conversation demo_input"
    by (simp_all add: create_conversation_def new_conversation_def demo_input_def demo_conv2_def demo_conv_def)
  have i: "cr_IdempotencyKey demo_input = ''k''" "cr_Attachments demo_input = []" by (simp_all add: demo_input_def)
  have t: "cv_TargetAgentID demo_conv2 = ''a2''" by (simp add: demo_conv2_def demo_conv_def)
  have m: "card_MemberID (heartbeat_card demo_lib 0 demo_bob demo_heartbeat) \<noteq> pr_MemberID demo_alice"
    "card_AcceptingRequests (heartbeat_card demo_lib 0 demo_bob demo_heartbeat)"
    by (simp_all add: heartbeat_card_def demo_defs demo_heartbeat_def)
  show ?thesis
    by (simp add: CreateRequest_def Let_def watch_loop_calm conv t m i prepareArtifacts_def create_body_def rget_def
        demo_created2_def demo_request2_def [symmetric])
qed

lemma demo_created2_reachable: "reachable demo_created2"
proof -
  have "fresh_id (pr_OrganizationID demo_alice) (randomID ''x'' ''req_'') (\<lambda>_ d. d) (\<lambda>_. calm 0) demo_present"
    by (simp add: fresh_id_def unused_def keeps_unused_def calm_def demo_present_def heartbeat_commit_def empty_relay_db_def)
  then have "relay_steps demo_present demo_created2"
    using CreateRequest_refines [of "\<lambda>_ d. d" "\<lambda>_. calm 0" demo_alice "\<lambda>_. ''x''" demo_present demo_lib 0 demo_input]
    by (simp add: demo_create)
  then show ?thesis by (rule reachable_steps [OF demo_present_reachable])
qed

lemma demo_created2_read: "readStoredRequest demo_created2 ''o'' (mr_RequestID (mutation (sr_Request demo_request2))) = Inr demo_request2"
  by (simp add: readStoredRequest_def demo_created2_def mutation_def)
    (simp add: demo_request2_def new_stored_def new_request_def)

text \<open>Alice is revoked while her request waits, and Bob allows it.\<close>

definition demo_revoked :: relay_db where
  "demo_revoked = revoke_one ''o'' ''a1'' demo_created"

definition demo_allowed_late :: relay_db where
  "demo_allowed_late = fst (Decide (\<lambda>_. calm 0) demo_bob ''r1'' demo_allow demo_revoked)"

lemma demo_revoked_facts:
  "readStoredRequest demo_revoked ''o'' ''r1'' = Inr demo_request" "revoked_in demo_revoked ''o'' ''a1''"
  "db_up demo_revoked" "db_clock demo_revoked = 0" "reachable demo_revoked"
  using demo_created_read reachable_steps [OF demo_created_reachable r_into_rtranclp [where r = relay_step, OF step_revoke [of demo_created "''o''" "''a1''"]]]
  by (simp_all add: demo_revoked_def revoke_one_def readStoredRequest_def revoked_in_def sismember_def)

lemma demo_allowed_late_read:
  "readStoredRequest demo_allowed_late ''o'' ''r1'' = Inr (stamp 0 (decided demo_allow StatusCancelled demo_request))"
proof -
  have "decide_update demo_bob demo_allow (calm 0) demo_revoked demo_request =
     Inr (decided demo_allow StatusCancelled demo_request, ())"
    using demo_revoked_facts(2) by (simp add: decide_update_def revoked_in_def demo_revoked_facts) (simp add: demo_allow_def)
  moreover have "status (decided demo_allow StatusCancelled demo_request) \<noteq> status demo_request"
    by (simp add: decided_def)
  ultimately have late: "demo_allowed_late = transition_commit ''o'' ''r1'' (stamp 0 (decided demo_allow StatusCancelled demo_request)) demo_revoked"
    using transition_calm [of demo_bob demo_revoked "''r1''" demo_request "decide_update demo_bob demo_allow" 0]
    by (simp add: demo_allowed_late_def Decide_def demo_revoked_facts status_differs) (simp add: demo_allow_def)
  have "rq_RequestID (sr_Request (stamp 0 (decided demo_allow StatusCancelled demo_request))) = TrimSpace ''r1''"
    by (simp add: stamp_def decided_def)
  then show ?thesis unfolding late by (rule transition_commit_read [OF demo_revoked_facts(3)])
qed

end
