(* ===== verification/Collab_Theorems.thy ===== *)
theory Collab_Theorems
  imports Collab_Scenario
begin

text \<open>
  What the relay promises about requests, over every interleaving of its operations: the
  lifecycle properties, idempotent creation, revocation and disclosure.
\<close>

section \<open>What a reply says\<close>

text \<open>
  A lifecycle operation that succeeds reports the state the database has when it returns: the
  result of one application of its closure.
\<close>

lemma stamp_sel [simp]:
  "sr_DecisionID (stamp t s) = sr_DecisionID s" "sr_Decision (stamp t s) = sr_Decision s"
  "sr_ExecutionClaimID (stamp t s) = sr_ExecutionClaimID s" "sr_ResultDigest (stamp t s) = sr_ResultDigest s"
  "status (stamp t s) = status s" "rq_TargetAgentID (sr_Request (stamp t s)) = rq_TargetAgentID (sr_Request s)"
  "rq_RequesterAgentID (sr_Request (stamp t s)) = rq_RequesterAgentID (sr_Request s)"
  "rq_RequestID (sr_Request (stamp t s)) = rq_RequestID (sr_Request s)"
  by (simp_all add: stamp_def)

lemma transition_reply:
  assumes "transitionStoredWatching atts p i extra update db = (db', Inr (m, x))" "sees_only extra update"
    "\<And>a d s s' x. update a d s = Inr (s', x) \<Longrightarrow> rq_RequestID (sr_Request s') = rq_RequestID (sr_Request s)"
    and Q: "\<And>a d s s' x. update a d s = Inr (s', x) \<Longrightarrow> Q s'" "\<And>t s. Q (stamp t s) = Q s"
  shows "\<exists>s. readStoredRequest db' (pr_OrganizationID p) i = Inr s \<and> m = mutation (sr_Request s) \<and> Q s"
proof -
  let ?body = "transition_body p i update"
  from assms(1) have "watch_loop db_up (transition_view p i extra) ?body ErrRedis ErrTxFailed 5 atts db = (db', Inr (m, x))"
    by (auto simp: transitionStoredWatching_def split: sum.splits)
  from watched.loop_linearizes [OF transition_watched [OF assms(2)] this]
  obtain a d where st: "atomic_step ?body ErrTxFailed a d = (db', Inr (m, x))" by blast
  then obtain prev stored x' where rd: "readStoredRequest d (pr_OrganizationID p) i = Inr prev"
    and up: "update a d prev = Inr (stored, x')"
    by (auto simp: atomic_step_def transition_body_def split: sum.splits if_splits prod.splits)
  note ids = assms(3) [OF up] readStoredRequest_SomeD [OF rd]
  show ?thesis
  proof (cases "stored = prev")
    case True
    then show ?thesis using st rd up Q(1) [OF up]
      by (simp add: atomic_step_def transition_body_def)
  next
    case False
    with st rd up have "db' = transition_commit (pr_OrganizationID p) i (stamp (att_stamp a) stored) d"
      "m = mutation (sr_Request (stamp (att_stamp a) stored))"
      by (simp_all add: atomic_step_def transition_body_def Let_def)
    then show ?thesis using ids Q(1) [OF up]
      by (simp add: Q(2))
  qed
qed

lemma MarkRunning_reply:
  assumes "MarkRunning atts p i claim db = (db', Inr m)"
  shows "\<exists>s. readStoredRequest db' (pr_OrganizationID p) i = Inr s \<and> m = mutation (sr_Request s) \<and>
    status s = StatusRunning \<and> sr_ExecutionClaimID s = claim \<and> rq_TargetAgentID (sr_Request s) = pr_AgentID p"
proof (rule transition_reply)
  show "transitionStoredWatching atts p i [] (\<lambda>a _. running_update p claim a) db = (db', Inr (m, ()))"
    using assms
    by (auto simp: MarkRunning_def transitionStored_def apsnd_def map_prod_def map_sum_def split: if_splits prod.splits sum.splits)
qed (auto simp: running_update_def executionClaimMatches_def opaqueIDMatches_def sees_only_closed
     split: if_splits RequestStatus.splits)

lemma Decide_reply:
  assumes "Decide atts p i input db = (db', Inr m)"
  shows "\<exists>s. readStoredRequest db' (pr_OrganizationID p) i = Inr s \<and> m = mutation (sr_Request s) \<and>
    sr_DecisionID s = dp_DecisionID input \<and> sr_Decision s = dp_Decision input \<and>
    rq_TargetAgentID (sr_Request s) = pr_AgentID p"
proof (rule transition_reply)
  show "transitionStoredWatching atts p i [revokedAgentsKey (pr_OrganizationID p)] (decide_update p input) db =
      (db', Inr (m, ()))"
    using assms
    by (auto simp: Decide_def apsnd_def map_prod_def map_sum_def split: if_splits prod.splits sum.splits)
qed (auto simp: decide_update_def decided_def opaqueIDMatches_def Let_def sees_only_decide split: if_splits)

lemma Cancel_reply:
  assumes "Cancel atts p i db = (db', Inr (m, changed))"
  shows "\<exists>s. readStoredRequest db' (pr_OrganizationID p) i = Inr s \<and> m = mutation (sr_Request s) \<and>
    status s = StatusCancelled \<and> rq_RequesterAgentID (sr_Request s) = pr_AgentID p"
proof (rule transition_reply)
  show "transitionStoredWatching atts p i [] (\<lambda>a _. on_request (cancel_update p) a) db = (db', Inr (m, changed))"
    using assms by (simp add: Cancel_def transition_def transitionStored_def)
qed (auto simp: cancel_update_def on_request_def sees_only_closed split: if_splits)

section \<open>Retention\<close>

text \<open>A retained request was retained all along, and its idempotency record is the original one.\<close>

lemma relay_step_idem:
  assumes st: "relay_step d d'" and inv: "relay_inv d" and c: "db_requests d k = Some (Json s, Some t)"
    and c': "db_requests d' k = Some (Json s', Some t')" "db_clock d' < t'"
  shows "db_clock d < t \<and> sr_IdempotencyRedisKey s' = sr_IdempotencyRedisKey s \<and>
    (\<forall>r u. db_idempotency d (sr_IdempotencyRedisKey s) = Some (r, u) \<longrightarrow>
       (\<exists>u'. db_idempotency d' (sr_IdempotencyRedisKey s) = Some (r, u')))"
  using st
proof (cases rule: relay_step_cases_requests)
  case same
  with c c' show ?thesis by auto
next
  case create
  note [simp] = registers_fields [OF create(5)]
  from create have cc: "s' = s" "t' = t" using c c' by (auto simp: rset_def split: if_splits)
  have live: "db_clock d < t" using c' create cc by simp
  with inv c obtain dg where "db_idempotency d (sr_IdempotencyRedisKey s) =
      Some (Json \<lparr>id_RequestID = rq_RequestID (sr_Request s), id_Digest = dg\<rparr>, Some t)"
    by (elim relay_inv_cellE) (auto simp: idem_bound_def)
  with live create cc show ?thesis
    by (auto simp: rset_def rget_def expired_at_def split: if_splits)
next
  case advance
  then obtain org i s1 s2 where rd: "readStoredRequest d org i = Inr s1" and life: "life_step s1 s2"
    and d': "d' = keeps org s2 d" by (auto simp: advances_def)
  have idem: "db_idempotency d x = Some (r, u) \<Longrightarrow> \<exists>u'. db_idempotency d' x = Some (r, u')" for x r u
    by (auto simp: d' keeps_def rexpire_def split: option.splits)
  have live: "db_clock d < t" if "k = requestKey org (TrimSpace i)"
    using rd c that by (auto simp: rget_def expired_at_def dest!: readStoredRequest_SomeD split: option.splits if_splits)
  from keeps_cell [OF rd life c] show ?thesis
    using live c' idem proposal_simps(5) [OF life_step_same [OF life]] by (auto simp: d')
qed

lemma relay_steps_idem:
  assumes "relay_steps d d'" "relay_inv d" "db_requests d k = Some (Json s, Some t)"
    "db_requests d' k = Some (Json s', Some t')" "db_clock d' < t'"
  shows "db_clock d < t \<and> sr_IdempotencyRedisKey s' = sr_IdempotencyRedisKey s \<and>
    (\<forall>r u. db_idempotency d (sr_IdempotencyRedisKey s) = Some (r, u) \<longrightarrow>
       (\<exists>u'. db_idempotency d' (sr_IdempotencyRedisKey s) = Some (r, u')))"
  using assms
proof (induction arbitrary: s t rule: converse_rtranclp_induct)
  case (step y z)
  have inv: "relay_inv z" using step.hyps(1) step.prems(1) by (rule relay_step_inv)
  obtain s1 dl where "db_requests z k = Some (Json s1, dl)"
    using relay_step_evolves [OF step.hyps(1) step.prems(2)] by blast
  moreover from this obtain t1 where "dl = Some t1" using inv by (elim relay_inv_cellE) auto
  ultimately have z: "db_requests z k = Some (Json s1, Some t1)" by simp
  note later = step.IH [OF inv z step.prems(3,4)]
  with relay_step_idem [OF step.hyps(1) step.prems(1,2) z] show ?case by metis
qed auto


section \<open>Properties\<close>

text \<open>
  C3. The store refines the protocol. Whatever relation \<open>R\<close> the other clients keep to between any two
  commands of an operation, and wherever the connection fails, the state an operation leaves is
  reached from the state it found by steps of the others and by acts that the protocol allows the
  calling device for the purpose of the call: its own proposal for \<open>CreateRequest\<close>, its own decision
  as the recipient, in time and of a requester that is not revoked, for \<open>Decide\<close>, and so on. The protocol
  (\<open>agent_acts\<close>, \<open>agent_move\<close>) does not mention the operations or their closures. (The identifier of a new
  request is one nobody else uses.)
\<close>

theorem store_refines_protocol:
  assumes "env_in R env" "atts_in R C atts" "\<And>n. inbox_env_in R C (es n)"
    "fresh_id (pr_OrganizationID p) (randomID (rnd 1) ''req_'') env atts db"
  shows "together R C p {Propose input} db (fst (CreateRequest (L :: relaylib) rnd now env atts p input db)) \<and>
    together R C p {Judge (dp_Decision decision) (dp_DecisionID decision)} db (fst (Decide atts p i decision db)) \<and>
    together R C p {Start claim} db (fst (MarkRunning atts p i claim db)) \<and>
    together R C p {Finish res, Tidy} db (fst (SubmitResult L rnd env atts p i res db)) \<and>
    together R C p {Withdraw} db (fst (Cancel atts p i db)) \<and>
    together R C p {Lapse, Tidy} db (fst (Inbox env es p db)) \<and>
    together R C p {Announce} db (fst (Heartbeat L now atts p h db)) \<and>
    together R C p {Tidy} db (fst (ListAgents L now env p q db))"
  by (intro conjI; rule CreateRequest_together Decide_together MarkRunning_together SubmitResult_together Cancel_together
      Inbox_together Heartbeat_together ListAgents_together; fact assms)

definition calm_inbox :: inbox_env where
  "calm_inbox = \<lparr>ie_read = id, ie_now = 0, ie_atts = (\<lambda>_. calm 0), ie_reread = id, ie_drop = id\<rparr>"

theorem store_refines_protocol_witness:
  "together (=) {0} demo_alice {Propose demo_input} demo_present demo_created2 \<and> demo_created2 \<noteq> demo_present \<and>
   together (=) {0} demo_bob {Start demo_claim} demo_accepted demo_running"
proof -
  have alone: "env_in (=) (\<lambda>_ d. d)" "atts_in (=) {0} (\<lambda>_. calm 0)" "inbox_env_in (=) {0} calm_inbox"
    by (simp_all add: env_in_def atts_in_def inbox_env_in_def calm_inbox_def calm_def)
  have fresh: "fresh_id (pr_OrganizationID demo_alice) (randomID ''x'' ''req_'') (\<lambda>_ d. d) (\<lambda>_. calm 0) demo_present"
    "fresh_id (pr_OrganizationID demo_bob) (randomID ''x'' ''req_'') (\<lambda>_ d. d) (\<lambda>_. calm 0) demo_accepted"
    by (simp_all add: fresh_id_def unused_def keeps_unused_def calm_def demo_present_def heartbeat_commit_def empty_relay_db_def
        demo_accepted_eq demo_created_def rset_def randomID_def demo_request_def new_stored_def new_request_def)
  have "db_requests demo_present = Map.empty" by (simp add: demo_present_def heartbeat_commit_def empty_relay_db_def)
  then have "demo_created2 \<noteq> demo_present" using demo_created2_read
    by (auto simp: rget_def dest!: readStoredRequest_SomeD)
  then show ?thesis
    using store_refines_protocol [OF alone(1,2,3) fresh(1), where input = demo_input and L = demo_lib and now = 0] demo_create
      store_refines_protocol [OF alone(1,2,3) fresh(2), where i = "''r1''" and claim = demo_claim] demo_mark
    by (simp add: demo_running_eq)
qed

text \<open>
  C5. A finished request is frozen: once a request is completed, rejected, expired, cancelled or
  failed, every later read of it, after any interleaving of operations by anybody, returns the
  very same record.
\<close>

theorem terminal_is_final:
  assumes "reachable d" "readStoredRequest d org i = Inr s" "Terminal (status s)"
    "relay_steps d d'" "readStoredRequest d' org i = Inr s'"
  shows "s' = s"
  using life_steps_keep [OF reads_related [OF assms(2,4,5) refl]] reachable_read_ok [OF assms(1,2)] assms(3)
  by blast

lemma demo_later_read: "readStoredRequest (demo_completed\<lparr>db_clock := 5\<rparr>) ''o'' ''r1'' = Inr demo_request_completed"
  by (simp add: demo_completed_def demo_submit drop_from_set_def readStoredRequest_def)
    (simp add: requestRetention_def hour_def minute_def second_def)

lemma demo_later_steps: "relay_steps demo_completed (demo_completed\<lparr>db_clock := 5\<rparr>)"
  by (rule r_into_rtranclp, rule step_tick) (simp add: demo_completed_def demo_submit drop_from_set_def)

theorem terminal_is_final_witness:
  "readStoredRequest (demo_completed\<lparr>db_clock := 5\<rparr>) ''o'' ''r1'' = readStoredRequest demo_completed ''o'' ''r1''"
  using terminal_is_final [OF demo_reachable(3) demo_completed_read _ demo_later_steps demo_later_read]
  by (simp add: demo_later_read demo_completed_read)

text \<open>
  C11. A decision and an execution claim are given once. A later read of a decided request shows
  the same decision under the same identifier, a later read of a claimed one the same claim, and
  what was proposed (parties, prompt, access, attachments, times, idempotency key) never changes,
  while the version only grows.
\<close>

theorem decision_and_claim_are_final:
  assumes "reachable d" "readStoredRequest d org i = Inr s" "relay_steps d d'" "readStoredRequest d' org i = Inr s'"
  shows "proposal s' = proposal s \<and>
    (sr_DecisionID s \<noteq> [] \<longrightarrow> sr_DecisionID s' = sr_DecisionID s \<and> sr_Decision s' = sr_Decision s) \<and>
    (sr_ExecutionClaimID s \<noteq> [] \<longrightarrow> sr_ExecutionClaimID s' = sr_ExecutionClaimID s) \<and>
    rq_Version (sr_Request s) \<le> rq_Version (sr_Request s')"
  using life_steps_keep [OF reads_related [OF assms(2,3,4) refl]] reachable_read_ok [OF assms(1,2)] by blast

theorem decision_and_claim_are_final_witness:
  "sr_DecisionID demo_request_completed = sr_DecisionID demo_request_running \<and>
   sr_ExecutionClaimID demo_request_completed = sr_ExecutionClaimID demo_request_running \<and>
   proposal demo_request_completed = proposal demo_request_running"
  using decision_and_claim_are_final [OF demo_reachable(2) demo_running_read demo_steps(3) demo_completed_read]
    validExecutionClaimID_nonempty [OF demo_ids(2)]
  by (auto simp: demo_allow_def)

text \<open>
  C9. Nothing runs without approval. In every reachable state a request that is accepted, running,
  completed or failed carries a well-formed recipient decision that allows it, one that has been
  running carries a well-formed claim, and a rejected one a decision that denies it.
\<close>

theorem execution_requires_approval:
  assumes "reachable d" "readStoredRequest d org i = Inr s"
  shows "(status s \<in> {StatusAccepted, StatusRunning, StatusCompleted, StatusFailed} \<longrightarrow>
      sr_Decision s = DecisionAllowOnce \<and> validDecisionID (sr_DecisionID s)) \<and>
    (status s \<in> {StatusRunning, StatusCompleted, StatusFailed} \<longrightarrow> validExecutionClaimID (sr_ExecutionClaimID s)) \<and>
    (status s = StatusRejected \<longrightarrow> sr_Decision s = DecisionDeny)"
  using reachable_read_ok [OF assms] by (cases "status s") (auto simp: life_ok_def)

theorem execution_requires_approval_witness:
  "status demo_request_running = StatusRunning \<and> validDecisionID (sr_DecisionID demo_request_running) \<and>
   validExecutionClaimID (sr_ExecutionClaimID demo_request_running)"
  using execution_requires_approval [OF demo_reachable(2) demo_running_read] by simp

text \<open>Two successful calls of \<open>MarkRunning\<close>, one after the other.\<close>

lemma claims_agree:
  assumes "MarkRunning atts p i claim db = (d, Inr m)" "MarkRunning atts' p' i claim' db' = (d', Inr m')"
    "pr_OrganizationID p' = pr_OrganizationID p" "reachable d" "relay_steps d d'"
  shows "claim' = claim"
proof -
  obtain s where s: "readStoredRequest d (pr_OrganizationID p) i = Inr s" "sr_ExecutionClaimID s = claim" "status s = StatusRunning"
    using MarkRunning_reply [OF assms(1)] by blast
  obtain s' where s': "readStoredRequest d' (pr_OrganizationID p) i = Inr s'" "sr_ExecutionClaimID s' = claim'"
    using MarkRunning_reply [OF assms(2)] assms(3) by auto
  have "life_ok s" using reachable_read_ok [OF assms(4) s(1)] by blast
  moreover have "claim \<noteq> []" using calculation s by (auto simp: life_ok_def dest: validExecutionClaimID_nonempty)
  ultimately show ?thesis using life_steps_keep [OF reads_related [OF s(1) assms(5) s'(1) refl]] s s' by blast
qed

text \<open>
  C8. One approval is executed once. If two calls of \<open>MarkRunning\<close> for a request succeed, by whichever
  daemons, in whatever interleaving and with whatever lost replies in between, they presented the
  same execution claim.
\<close>

theorem one_claim_wins:
  assumes "MarkRunning atts p i claim db = (d, Inr m)" "MarkRunning atts' p' i claim' db' = (d', Inr m')"
    "pr_OrganizationID p' = pr_OrganizationID p" "reachable d" "relay_steps d d'"
  shows "claim' = claim"
  by (rule claims_agree [OF assms])

theorem one_claim_wins_witness:
  "snd (MarkRunning (\<lambda>_. calm 0) demo_bob ''r1'' (''claim_'' @ replicate 64 CHR ''c'') demo_running) \<noteq>
     snd (MarkRunning (\<lambda>_. calm 0) demo_bob ''r1'' demo_claim demo_accepted)"
proof
  let ?c = "''claim_'' @ replicate 64 CHR ''c''"
  assume eq: "snd (MarkRunning (\<lambda>_. calm 0) demo_bob ''r1'' ?c demo_running) =
     snd (MarkRunning (\<lambda>_. calm 0) demo_bob ''r1'' demo_claim demo_accepted)"
  then obtain d' where d': "MarkRunning (\<lambda>_. calm 0) demo_bob ''r1'' ?c demo_running = (d', Inr (mutation (sr_Request demo_request_running)))"
    by (metis demo_mark prod.collapse snd_conv)
  moreover have "MarkRunning (\<lambda>_. calm 0) demo_bob ''r1'' demo_claim demo_accepted =
      (demo_running, Inr (mutation (sr_Request demo_request_running)))"
    by (simp add: demo_mark demo_running_eq)
  moreover have "relay_steps demo_running d'"
    using MarkRunning_refines [of "\<lambda>_. calm 0" demo_running demo_bob "''r1''" ?c] d' by simp
  ultimately have "?c = demo_claim" using one_claim_wins demo_reachable(2) by blast
  then show False by (simp add: demo_claim_def)
qed

text \<open>
  C22. As long as a request is retained, so is the idempotency record it was created under: same
  deadline, naming this request. An ambiguous retry of the creation can therefore never find the
  record gone while the request is still there.
\<close>

theorem idempotency_outlives_request:
  assumes "reachable d" "readStoredRequest d org i = Inr s"
  shows "\<exists>t dg. db_requests d (requestKey org (TrimSpace i)) = Some (Json s, Some t) \<and> db_clock d < t \<and>
    db_idempotency d (sr_IdempotencyRedisKey s) =
      Some (Json \<lparr>id_RequestID = TrimSpace i, id_Digest = dg\<rparr>, Some t)"
proof -
  from readStoredRequest_SomeD [OF assms(2)] obtain dl where
    c: "db_requests d (requestKey org (TrimSpace i)) = Some (Json s, dl)" "\<not> expired_at (db_clock d) dl"
      "rq_RequestID (sr_Request s) = TrimSpace i"
    by (auto simp: rget_def split: option.splits if_splits)
  with reachable_inv [OF assms(1)] show ?thesis
    by (elim relay_inv_cellE) (auto simp: idem_bound_def expired_at_def)
qed

theorem idempotency_outlives_request_witness:
  "\<exists>t. db_requests demo_completed (requestKey ''o'' ''r1'') = Some (Json demo_request_completed, Some t)"
  using idempotency_outlives_request [OF demo_reachable(3) demo_completed_read] by auto

lemma create_conversation_target:
  assumes "create_conversation rnd p i d = Inr conv" "TrimSpace (cr_TargetAgentID i) \<noteq> []"
  shows "cv_TargetAgentID conv = TrimSpace (cr_TargetAgentID i)"
proof -
  have "cr_TargetAgentID i \<noteq> []" using assms(2) by auto
  with assms show ?thesis by (auto simp: create_conversation_def split: if_splits sum.splits)
qed

lemma CreateRequest_created:
  assumes "CreateRequest L rnd now env atts p i db = (d, Inr (m, n, True))"
  shows "requireDevice p = Inr () \<and> validateCreate L i = Inr () \<and>
    (\<exists>s t. readStoredRequest d (pr_OrganizationID p) (mr_RequestID m) = Inr s \<and> m = mutation (sr_Request s) \<and>
      n = notice (sr_Request s) \<and> status s = StatusAwaitingApproval \<and>
      rq_RequesterAgentID (sr_Request s) = pr_AgentID p \<and> sr_Prompt s = cr_Prompt i \<and>
      (TrimSpace (cr_TargetAgentID i) \<noteq> [] \<longrightarrow> rq_TargetAgentID (sr_Request s) = TrimSpace (cr_TargetAgentID i)) \<and>
      sr_IdempotencyRedisKey s = idempotencyKey L (pr_OrganizationID p) (pr_AgentID p) (cr_IdempotencyKey i) \<and>
      db_idempotency d (sr_IdempotencyRedisKey s) =
        Some (Json \<lparr>id_RequestID = rq_RequestID (sr_Request s), id_Digest = requestDigest L i\<rparr>, t))"
proof -
  let ?ik = "idempotencyKey L (pr_OrganizationID p) (pr_AgentID p) (cr_IdempotencyKey i)"
  have ex: "existing_request p dg raw x \<noteq> Inr (m, n, True)" for dg raw x
    by (auto simp: existing_request_def split: raw.splits if_splits sum.splits)
  obtain requester conv ds arts conv' db1 d1 where ok: "requireDevice p = Inr ()" "validateCreate L i = Inr ()"
    and conv: "create_conversation rnd p i d1 = Inr conv"
    and loop: "watch_loop db_up (create_view ?ik)
        (create_body p (new_stored (new_request L now (randomID (rnd 1) ''req_'') p requester conv ds i) i ?ik)
           (requestDigest L i) conv' arts) ErrRedis ErrTxFailed 5 atts db1 = (d, Inr (m, n, True))"
    using assms ex unfolding CreateRequest_def Let_def
    by (auto split: sum.splits option.splits prod.splits if_splits)
  define s where "s = new_stored (new_request L now (randomID (rnd 1) ''req_'') p requester conv ds i) i ?ik"
  have sel: "sr_IdempotencyRedisKey s = ?ik" "rq_RequestID (sr_Request s) = randomID (rnd 1) ''req_''"
    "status s = StatusAwaitingApproval" "rq_RequesterAgentID (sr_Request s) = pr_AgentID p" "sr_Prompt s = cr_Prompt i"
    "TrimSpace (cr_TargetAgentID i) \<noteq> [] \<longrightarrow> rq_TargetAgentID (sr_Request s) = TrimSpace (cr_TargetAgentID i)"
    by (simp_all add: s_def new_stored_def new_request_def create_conversation_target [OF conv])
  obtain a x where "atomic_step (create_body p s (requestDigest L i) conv' arts) ErrTxFailed a x = (d, Inr (m, n, True))"
    using create.loop_linearizes [of s p "requestDigest L i" conv' arts] loop sel(1) unfolding s_def by metis
  then have "db_up x" "d = create_commit (pr_OrganizationID p) s (requestDigest L i) conv' arts x"
    "m = mutation (sr_Request s)" "n = notice (sr_Request s)"
    using ex by (auto simp: atomic_step_def create_body_def split: if_splits option.splits sum.splits)
  then show ?thesis using ok sel
    by (auto simp: readStoredRequest_def mutation_def) (auto simp: rset_def)
qed

lemma retained_cell:
  assumes "reachable d" "readStoredRequest d org i = Inr s"
  obtains t where "db_requests d (requestKey org (TrimSpace i)) = Some (Json s, Some t)" "db_clock d < t" "idem_bound d s t"
proof -
  from readStoredRequest_SomeD [OF assms(2)] obtain dl where
    "db_requests d (requestKey org (TrimSpace i)) = Some (Json s, dl)" "\<not> expired_at (db_clock d) dl"
    by (auto simp: rget_def split: option.splits if_splits)
  with reachable_inv [OF assms(1)] that show thesis by (elim relay_inv_cellE) (auto simp: expired_at_def)
qed

lemma create_record_retained:
  assumes "CreateRequest L rnd now env atts p i db = (d, Inr (m, n, True))" "reachable d" "relay_steps d d'"
    "readStoredRequest d' (pr_OrganizationID p) (mr_RequestID m) = Inr s"
  shows "rget (db_clock d') (db_idempotency d')
      (idempotencyKey L (pr_OrganizationID p) (pr_AgentID p) (cr_IdempotencyKey i)) =
    Some (Json \<lparr>id_RequestID = mr_RequestID m, id_Digest = requestDigest L i\<rparr>)"
proof -
  from CreateRequest_created [OF assms(1)] obtain s0 u where
    s0: "readStoredRequest d (pr_OrganizationID p) (mr_RequestID m) = Inr s0" "m = mutation (sr_Request s0)"
    and ik: "sr_IdempotencyRedisKey s0 = idempotencyKey L (pr_OrganizationID p) (pr_AgentID p) (cr_IdempotencyKey i)"
    and idem: "db_idempotency d (sr_IdempotencyRedisKey s0) =
        Some (Json \<lparr>id_RequestID = rq_RequestID (sr_Request s0), id_Digest = requestDigest L i\<rparr>, u)" by blast
  obtain t0 where c0: "db_requests d (requestKey (pr_OrganizationID p) (TrimSpace (mr_RequestID m))) = Some (Json s0, Some t0)"
    using retained_cell [OF assms(2) s0(1)] by blast
  obtain t where c: "db_requests d' (requestKey (pr_OrganizationID p) (TrimSpace (mr_RequestID m))) = Some (Json s, Some t)"
    "db_clock d' < t" and b: "idem_bound d' s t"
    using retained_cell [OF reachable_steps [OF assms(2,3)] assms(4)] by blast
  from relay_steps_idem [OF assms(3) reachable_inv [OF assms(2)] c0 c] idem obtain u' where
    "sr_IdempotencyRedisKey s = sr_IdempotencyRedisKey s0"
    "db_idempotency d' (sr_IdempotencyRedisKey s0) =
       Some (Json \<lparr>id_RequestID = rq_RequestID (sr_Request s0), id_Digest = requestDigest L i\<rparr>, u')" by blast
  with b c(2) ik s0(2) show ?thesis by (auto simp: rget_def idem_bound_def expired_at_def mutation_def)
qed

text \<open>A call that finds the record.\<close>

lemma CreateRequest_existing:
  assumes "requireDevice p = Inr ()" "validateCreate L i = Inr ()" "db_up d"
    "rget (db_clock d) (db_idempotency d) (idempotencyKey L (pr_OrganizationID p) (pr_AgentID p) (cr_IdempotencyKey i)) = Some raw"
  shows "CreateRequest L rnd now (\<lambda>_ x. x) atts p i d = (d, existing_request p (requestDigest L i) raw d)"
  using assms by (simp add: CreateRequest_def Let_def)

lemma create_replay:
  assumes "CreateRequest L rnd now env atts p i db = (d, Inr (m, n, True))" "reachable d" "relay_steps d d'"
    "readStoredRequest d' (pr_OrganizationID p) (mr_RequestID m) = Inr s"
  shows "CreateRequest L rnd' now' (\<lambda>_ x. x) atts' p i d' =
    (d', Inr (mutation (sr_Request s), notice (sr_Request s), False))"
proof -
  have "db_up d'" using readStoredRequest_SomeD [OF assms(4)] by blast
  with CreateRequest_existing [of p L i d'] create_record_retained [OF assms] CreateRequest_created [OF assms(1)] assms(4)
  show ?thesis by (simp add: existing_request_def)
qed

text \<open>
  C12. Creating a request is idempotent. After a call that created a request, and after anything the
  relay and its clients do since, as long as the request is retained the same call by the same
  device returns that request in its current state, reports that it created nothing and changes
  nothing.
\<close>

theorem create_is_idempotent:
  assumes "CreateRequest L rnd now env atts p i db = (d, Inr (m, n, True))" "reachable d" "relay_steps d d'"
    "readStoredRequest d' (pr_OrganizationID p) (mr_RequestID m) = Inr s"
  shows "CreateRequest L rnd' now' (\<lambda>_ x. x) atts' p i d' =
    (d', Inr (mutation (sr_Request s), notice (sr_Request s), False))"
  using assms by (rule create_replay)

theorem create_is_idempotent_witness:
  "CreateRequest demo_lib (\<lambda>_. ''y'') 7 (\<lambda>_ x. x) (\<lambda>_. calm 7) demo_alice demo_input demo_created2 =
     (demo_created2, Inr (mutation (sr_Request demo_request2), notice (sr_Request demo_request2), False))"
  using create_is_idempotent [OF demo_create demo_created2_reachable rtranclp.rtrancl_refl, of demo_request2]
    demo_created2_read by simp

text \<open>
  C21. An idempotency key is bound to its content: while the request created under it is retained,
  the same device using the key for different content (a different digest) gets a conflict and
  nothing is stored.
\<close>

theorem idempotency_key_bound_to_content:
  assumes "CreateRequest L rnd now env atts p i db = (d, Inr (m, n, True))" "reachable d" "relay_steps d d'"
    "readStoredRequest d' (pr_OrganizationID p) (mr_RequestID m) = Inr s"
    "validateCreate L j = Inr ()" "cr_IdempotencyKey j = cr_IdempotencyKey i" "requestDigest L j \<noteq> requestDigest L i"
  shows "CreateRequest L rnd' now' (\<lambda>_ x. x) atts' p j d' = (d', Inl ErrConflict)"
proof -
  have "db_up d'" using readStoredRequest_SomeD [OF assms(4)] by blast
  with CreateRequest_existing [of p L j d'] create_record_retained [OF assms(1-4)] CreateRequest_created [OF assms(1)] assms(5-7)
  show ?thesis by (simp add: existing_request_def)
qed

theorem idempotency_key_bound_to_content_witness:
  "CreateRequest demo_lib (\<lambda>_. ''y'') 7 (\<lambda>_ x. x) (\<lambda>_. calm 7) demo_alice (demo_input\<lparr>cr_Title := ''u''\<rparr>) demo_created2 =
     (demo_created2, Inl ErrConflict)"
proof -
  have "validateCreate demo_lib (demo_input\<lparr>cr_Title := ''u''\<rparr>) = Inr ()" "TrimSpace ''u'' = ''u''"
    by (simp_all add: TrimSpace_id IsSpace_def validateCreate_def demo_input_def validLabel_def validIdentifier_def
        runes_def bytes_def MaxTitleBytes_def MaxPromptBytes_def identifier_rune_def IsControl_def)
  moreover have "requestDigest demo_lib (demo_input\<lparr>cr_Title := ''u''\<rparr>) \<noteq> requestDigest demo_lib demo_input"
    by (simp add: requestDigest_def sha256_hex_def demo_lib_def demo_input_def)
  ultimately show ?thesis
    using idempotency_key_bound_to_content [OF demo_create demo_created2_reachable rtranclp.rtrancl_refl, of demo_request2]
      demo_created2_read by simp
qed

section \<open>Revocation\<close>

definition not_accepted :: "RequestStatus \<Rightarrow> bool" where
  "not_accepted st \<longleftrightarrow> st \<in> {StatusAwaitingApproval, StatusRejected, StatusExpired, StatusCancelled}"

lemma revoked_move:
  "agent_move C revoked me x s s' \<Longrightarrow> revoked (rq_RequesterAgentID (sr_Request s)) \<Longrightarrow> not_accepted (status s) \<Longrightarrow>
   not_accepted (status s')"
  by (induction rule: agent_move.induct) (auto simp: not_accepted_def progress_def judged_def)

lemma revoked_step:
  assumes "relay_step d d'" "db_requests d (requestKey org i) = Some (Json s, dl)"
    "revoked_in d org (rq_RequesterAgentID (sr_Request s))" "not_accepted (status s)"
    "db_requests d' (requestKey org i) = Some (Json s', dl')"
  shows "not_accepted (status s')"
  using assms(1)
proof cases
  case (step_agent p x)
  then show ?thesis
  proof cases
    case (act_propose j s1 L dg)
    then show ?thesis using assms(2,4,5) by (auto simp: registers_fields(1) rset_def split: if_splits)
  next
    case (act_move j s1 s2)
    from keeps_cell [OF act_move(3) agent_move_life [OF act_move(4)] assms(2)]
    consider "s1 = s" "requestKey org i = requestKey (pr_OrganizationID p) (TrimSpace j)" "s' = s2" | "s' = s"
      using assms(5) act_move(1) by auto
    then show ?thesis
    proof cases
      case 1
      then show ?thesis using revoked_move [OF act_move(4)] assms(3,4) by simp
    qed (use assms(4) in simp)
  qed (use assms(2,4,5) in auto)
qed (use assms(2,4,5) in \<open>auto simp: drop_from_set_def drop_agent_def revoke_one_def split: if_splits\<close>)

lemma revoked_not_accepted:
  assumes "reachable d" "readStoredRequest d org i = Inr s" "not_accepted (status s)"
    "revoked_in d org (rq_RequesterAgentID (sr_Request s))" "relay_steps d d'" "readStoredRequest d' org i = Inr s'"
  shows "not_accepted (status s')"
proof -
  obtain dl where c: "db_requests d (requestKey org (TrimSpace i)) = Some (Json s, dl)"
    using readStoredRequest_cell [OF assms(2)] by blast
  from assms(5) have "\<exists>s1 dl1. db_requests d' (requestKey org (TrimSpace i)) = Some (Json s1, dl1) \<and>
    not_accepted (status s1) \<and> rq_RequesterAgentID (sr_Request s1) = rq_RequesterAgentID (sr_Request s) \<and> life_ok s1"
  proof (induction rule: rtranclp_induct)
    case base
    then show ?case using c assms(3) reachable_read_ok [OF assms(1,2)] by blast
  next
    case (step y z)
    then obtain s1 dl1 where y: "db_requests y (requestKey org (TrimSpace i)) = Some (Json s1, dl1)" "not_accepted (status s1)"
      "rq_RequesterAgentID (sr_Request s1) = rq_RequesterAgentID (sr_Request s)" "life_ok s1" by blast
    obtain s2 dl2 where z: "db_requests z (requestKey org (TrimSpace i)) = Some (Json s2, dl2)" "life_step\<^sup>*\<^sup>* s1 s2"
      using relay_step_evolves [OF step.hyps(2) y(1)] by blast
    have "revoked_in y org (rq_RequesterAgentID (sr_Request s1))"
      using relay_steps_revoked [OF step.hyps(1) assms(1,4)] y(3) by simp
    from revoked_step [OF step.hyps(2) y(1) this y(2) z(1)] show ?case
      using z y life_steps_keep [OF z(2) y(4)] proposal_simps(3) by metis
  qed
  with readStoredRequest_cell [OF assms(6)] show ?thesis by auto
qed

text \<open>
  C10. A request of a revoked requester is never accepted any more. If the requester is revoked while
  its request is still waiting (or already closed unexecuted), then after any further interleaving of
  operations the request is not accepted, running, completed or failed: the recipient's approval,
  manual or automatic, can only cancel it. A request that was accepted before the revocation is not
  meant: its recipient may still run it.
\<close>

theorem revoked_requester_never_runs:
  assumes "reachable d" "readStoredRequest d org i = Inr s" "not_accepted (status s)"
    "revoked_in d org (rq_RequesterAgentID (sr_Request s))" "relay_steps d d'" "readStoredRequest d' org i = Inr s'"
  shows "not_accepted (status s')"
  using assms by (rule revoked_not_accepted)

theorem revoked_requester_never_runs_witness:
  "readStoredRequest demo_allowed_late ''o'' ''r1'' = Inr (stamp 0 (decided demo_allow StatusCancelled demo_request)) \<and>
   not_accepted (status (stamp 0 (decided demo_allow StatusCancelled demo_request)))"
proof -
  have "relay_steps demo_revoked demo_allowed_late"
    unfolding demo_allowed_late_def by (rule Decide_refines) simp
  then show ?thesis
    using revoked_requester_never_runs [OF demo_revoked_facts(5,1) _ _ _ demo_allowed_late_read] demo_revoked_facts(2)
      demo_allowed_late_read by (simp add: not_accepted_def)
qed

end
