(* ===== verification/Hub.thy ===== *)
theory Hub
  imports Collab_Store
begin

text \<open>
  The live event hub (\<open>internal/collaboration/hub.go\<close>) and the bridge from revocation to it
  (\<open>internal/collaboration/eviction.go\<close>).

  Channels are numbered in the order they are made; a channel holds at most 32 events and is
  open or closed. Closing a closed channel and sending on a closed one panic in Go: the
  operations return \<open>None\<close> there. Each operation is what runs under one acquisition of the
  hub's lock; \<open>Publish\<close> is its sends under the read lock followed by one \<open>dropSubscriber\<close>
  per overflowing channel, between which others may run.
\<close>

section \<open>State\<close>

datatype event_payload = NoticePayload RequestNotice | CancelledPayload string string

record event =
  ev_Type :: string
  ev_Payload :: event_payload

record channel =
  ch_buffer :: "event list"
  ch_open :: bool

text \<open>An absent or empty inner map is the empty list.\<close>

record Hub =
  hub_subscribers :: "string \<Rightarrow> nat list"
  hub_revoked :: "string list"
  hub_channels :: "nat \<Rightarrow> channel"
  hub_next :: nat

definition channel_capacity :: nat where
  "channel_capacity = 32"

definition NewHub :: Hub where
  "NewHub = \<lparr>hub_subscribers = (\<lambda>_. []), hub_revoked = [],
             hub_channels = (\<lambda>_. \<lparr>ch_buffer = [], ch_open = False\<rparr>), hub_next = 0\<rparr>"

definition hub_key :: "string \<Rightarrow> string \<Rightarrow> string" where
  "hub_key org agent = org @ CHR 0x00 # agent"

section \<open>Operations\<close>

definition close_channel :: "nat \<Rightarrow> Hub \<Rightarrow> Hub option" where
  "close_channel c h =
     (if ch_open (hub_channels h c)
      then Some (h\<lparr>hub_channels := (hub_channels h)(c := (hub_channels h c)\<lparr>ch_open := False\<rparr>)\<rparr>)
      else None)"

definition Subscribe :: "string \<Rightarrow> string \<Rightarrow> Hub \<Rightarrow> Hub \<times> nat" where
  "Subscribe org agent h =
     (let key = hub_key org agent; c = hub_next h;
          made = h\<lparr>hub_channels := (hub_channels h)(c := \<lparr>ch_buffer = [], ch_open = key \<notin> set (hub_revoked h)\<rparr>),
                   hub_next := Suc c\<rparr> in
      if key \<in> set (hub_revoked h) then (made, c)
      else (made\<lparr>hub_subscribers := (hub_subscribers h)(key := hub_subscribers h key @ [c])\<rparr>, c))"

text \<open>
  \<open>dropSubscriber\<close>, and the function \<open>Subscribe\<close> returns: its \<open>sync.Once\<close> only saves a second look
  that would find the channel gone.
\<close>

definition dropSubscriber :: "string \<Rightarrow> nat \<Rightarrow> Hub \<Rightarrow> Hub option" where
  "dropSubscriber key c h =
     (if c \<notin> set (hub_subscribers h key) then Some h
      else close_channel c
        (h\<lparr>hub_subscribers := (hub_subscribers h)(key := filter (\<lambda>x. x \<noteq> c) (hub_subscribers h key))\<rparr>))"

fun close_all :: "nat list \<Rightarrow> Hub \<Rightarrow> Hub option" where
  "close_all [] h = Some h"
| "close_all (c # cs) h = (case close_channel c h of None \<Rightarrow> None | Some h' \<Rightarrow> close_all cs h')"

definition Hub_Revoke :: "string \<Rightarrow> string \<Rightarrow> Hub \<Rightarrow> Hub option" where
  "Hub_Revoke org agent h =
     (let key = hub_key org agent in
      case close_all (hub_subscribers h key) (h\<lparr>hub_revoked := sadd key (hub_revoked h)\<rparr>) of
        None \<Rightarrow> None
      | Some h' \<Rightarrow> Some (h'\<lparr>hub_subscribers := (hub_subscribers h')(key := [])\<rparr>))"

definition IsRevoked :: "string \<Rightarrow> string \<Rightarrow> Hub \<Rightarrow> bool" where
  "IsRevoked org agent h \<longleftrightarrow> hub_key org agent \<in> set (hub_revoked h)"

text \<open>The sends of \<open>Publish\<close>; the channels that were full are returned.\<close>

fun send_all :: "event \<Rightarrow> nat list \<Rightarrow> Hub \<Rightarrow> (Hub \<times> nat list) option" where
  "send_all v [] h = Some (h, [])"
| "send_all v (c # cs) h =
     (let ch = hub_channels h c in
      if \<not> ch_open ch then None
      else if length (ch_buffer ch) < channel_capacity
      then send_all v cs (h\<lparr>hub_channels := (hub_channels h)(c := ch\<lparr>ch_buffer := ch_buffer ch @ [v]\<rparr>)\<rparr>)
      else case send_all v cs h of None \<Rightarrow> None | Some (h', over) \<Rightarrow> Some (h', c # over))"

definition publish_send :: "string \<Rightarrow> string \<Rightarrow> event \<Rightarrow> Hub \<Rightarrow> (Hub \<times> nat list) option" where
  "publish_send org agent v h = send_all v (hub_subscribers h (hub_key org agent)) h"

fun drop_all :: "string \<Rightarrow> nat list \<Rightarrow> Hub \<Rightarrow> Hub option" where
  "drop_all key [] h = Some h"
| "drop_all key (c # cs) h = (case dropSubscriber key c h of None \<Rightarrow> None | Some h' \<Rightarrow> drop_all key cs h')"

text \<open>\<open>Publish\<close> when nobody runs between its parts.\<close>

definition Publish :: "string \<Rightarrow> string \<Rightarrow> event \<Rightarrow> Hub \<Rightarrow> Hub option" where
  "Publish org agent v h =
     (case publish_send org agent v h of
        None \<Rightarrow> None
      | Some (h', over) \<Rightarrow> drop_all (hub_key org agent) over h')"

text \<open>A receive by the owner of the stream: the next event, or the end of a closed empty channel.\<close>

definition receive :: "nat \<Rightarrow> Hub \<Rightarrow> Hub \<times> event option" where
  "receive c h =
     (case ch_buffer (hub_channels h c) of
        [] \<Rightarrow> (h, None)
      | v # vs \<Rightarrow> (h\<lparr>hub_channels := (hub_channels h)(c := (hub_channels h c)\<lparr>ch_buffer := vs\<rparr>)\<rparr>, Some v))"

section \<open>Eviction\<close>

fun revoke_all :: "string \<Rightarrow> string list \<Rightarrow> Hub \<Rightarrow> Hub option" where
  "revoke_all org [] h = Some h"
| "revoke_all org (a # agents) h = (case Hub_Revoke org a h of None \<Rightarrow> None | Some h' \<Rightarrow> revoke_all org agents h')"

text \<open>
  \<open>EvictRevokedAgents\<close>, with a store and a hub in place; \<open>reply\<close> says whether the answer of Redis
  arrives.
\<close>

definition EvictRevokedAgents ::
  "bool \<Rightarrow> string \<Rightarrow> string list \<Rightarrow> Hub \<Rightarrow> relay_db \<Rightarrow> (Hub \<times> relay_db \<times> (relay_error, unit) result) option" where
  "EvictRevokedAgents reply org agentIDs h d =
     (let ids = cleanAgentIDs agentIDs in
      if TrimSpace org = [] \<or> ids = [] then Some (h, d, Inr ())
      else case revoke_all org ids h of
        None \<Rightarrow> None
      | Some h' \<Rightarrow> (case evictPresence reply org ids d of (d', r) \<Rightarrow> Some (h', d', r)))"

section \<open>The hub never panics\<close>

text \<open>
  Subscribed channels are open, made, within capacity and subscribed once; an agent that is
  revoked has none.
\<close>

definition hub_ok :: "Hub \<Rightarrow> bool" where
  "hub_ok h \<longleftrightarrow>
     (\<forall>key. distinct (hub_subscribers h key)) \<and>
     (\<forall>key c. c \<in> set (hub_subscribers h key) \<longrightarrow> ch_open (hub_channels h c) \<and> c < hub_next h) \<and>
     (\<forall>key key' c. c \<in> set (hub_subscribers h key) \<longrightarrow> c \<in> set (hub_subscribers h key') \<longrightarrow> key = key') \<and>
     (\<forall>key\<in>set (hub_revoked h). hub_subscribers h key = []) \<and>
     (\<forall>c. length (ch_buffer (hub_channels h c)) \<le> channel_capacity)"

text \<open>
  One critical section, by anybody; pending drops may name any channel, dropped or not. Publishers
  share the read lock, so the sends of several may also alternate one by one.
\<close>

inductive hub_step :: "Hub \<Rightarrow> Hub option \<Rightarrow> bool" where
  hub_subscribe: "hub_step h (Some (fst (Subscribe org agent h)))"
| hub_drop: "hub_step h (dropSubscriber key c h)"
| hub_revoke: "hub_step h (Hub_Revoke org agent h)"
| hub_send: "hub_step h (map_option fst (publish_send org agent v h))"
| hub_send_one: "c \<in> set (hub_subscribers h key) \<Longrightarrow> hub_step h (map_option fst (send_all v [c] h))"
| hub_receive: "hub_step h (Some (fst (receive c h)))"

definition hub_next_state :: "Hub \<Rightarrow> Hub \<Rightarrow> bool" where
  "hub_next_state h h' \<longleftrightarrow> hub_step h (Some h')"

lemma hub_ok_new: "hub_ok NewHub"
  by (simp add: hub_ok_def NewHub_def)

lemma hub_ok_subscribe:
  assumes "hub_ok h"
  shows "hub_ok (fst (Subscribe org agent h))"
proof -
  have fresh: "hub_next h \<notin> set (hub_subscribers h key)" for key
    using assms by (auto simp: hub_ok_def)
  with assms have other: "c \<in> set (hub_subscribers h key) \<Longrightarrow> c \<noteq> hub_next h" for c key by metis
  show ?thesis
    using assms fresh other unfolding hub_ok_def Subscribe_def Let_def
    by (auto simp: less_Suc_eq split: if_splits)
qed

lemma hub_ok_drop:
  assumes "hub_ok h"
  shows "\<exists>h'. dropSubscriber key c h = Some h' \<and> hub_ok h' \<and> c \<notin> set (hub_subscribers h' key)"
proof (cases "c \<in> set (hub_subscribers h key)")
  case True
  with assms have "ch_open (hub_channels h c)" by (auto simp: hub_ok_def)
  with True assms show ?thesis
    by (auto simp: dropSubscriber_def close_channel_def hub_ok_def)
qed (use assms in \<open>simp add: dropSubscriber_def\<close>)

lemma close_all_some:
  "distinct cs \<Longrightarrow> \<forall>c\<in>set cs. ch_open (hub_channels h c) \<Longrightarrow>
   \<exists>h'. close_all cs h = Some h' \<and> hub_subscribers h' = hub_subscribers h \<and> hub_revoked h' = hub_revoked h \<and>
     hub_next h' = hub_next h \<and>
     (\<forall>c. hub_channels h' c = (if c \<in> set cs then (hub_channels h c)\<lparr>ch_open := False\<rparr> else hub_channels h c))"
proof (induction cs arbitrary: h)
  case (Cons c cs)
  let ?h = "h\<lparr>hub_channels := (hub_channels h)(c := (hub_channels h c)\<lparr>ch_open := False\<rparr>)\<rparr>"
  have "\<exists>h'. close_all cs ?h = Some h' \<and> hub_subscribers h' = hub_subscribers ?h \<and> hub_revoked h' = hub_revoked ?h \<and>
     hub_next h' = hub_next ?h \<and>
     (\<forall>c. hub_channels h' c = (if c \<in> set cs then (hub_channels ?h c)\<lparr>ch_open := False\<rparr> else hub_channels ?h c))"
    by (rule Cons.IH) (use Cons.prems in auto)
  with Cons.prems show ?case by (auto simp: close_channel_def)
qed simp

lemma hub_ok_revoke:
  assumes "hub_ok h"
  shows "\<exists>h'. Hub_Revoke org agent h = Some h' \<and> hub_ok h' \<and> IsRevoked org agent h' \<and>
    (\<forall>c\<in>set (hub_subscribers h (hub_key org agent)). \<not> ch_open (hub_channels h' c)) \<and>
    hub_revoked h' = sadd (hub_key org agent) (hub_revoked h)"
proof -
  let ?key = "hub_key org agent"
  from close_all_some [of "hub_subscribers h ?key" "h\<lparr>hub_revoked := sadd ?key (hub_revoked h)\<rparr>"] assms
  obtain h1 where h1: "close_all (hub_subscribers h ?key) (h\<lparr>hub_revoked := sadd ?key (hub_revoked h)\<rparr>) = Some h1"
    "hub_subscribers h1 = hub_subscribers h" "hub_revoked h1 = sadd ?key (hub_revoked h)" "hub_next h1 = hub_next h"
    "\<forall>c. hub_channels h1 c = (if c \<in> set (hub_subscribers h ?key) then (hub_channels h c)\<lparr>ch_open := False\<rparr> else hub_channels h c)"
    by (auto simp: hub_ok_def)
  then have "hub_ok (h1\<lparr>hub_subscribers := (hub_subscribers h1)(?key := [])\<rparr>)"
    using assms unfolding hub_ok_def by (auto 0 3)
  with h1 show ?thesis by (auto simp: Hub_Revoke_def Let_def IsRevoked_def)
qed

text \<open>What a round of sends to \<open>cs\<close> does: each channel gets the event, or was full.\<close>

definition sent :: "event \<Rightarrow> nat list \<Rightarrow> Hub \<Rightarrow> Hub \<Rightarrow> nat list \<Rightarrow> bool" where
  "sent v cs h h' over \<longleftrightarrow>
     hub_subscribers h' = hub_subscribers h \<and> hub_revoked h' = hub_revoked h \<and> hub_next h' = hub_next h \<and>
     over = filter (\<lambda>c. channel_capacity \<le> length (ch_buffer (hub_channels h c))) cs \<and>
     (\<forall>c. hub_channels h' c =
        (if c \<in> set cs \<and> length (ch_buffer (hub_channels h c)) < channel_capacity
         then (hub_channels h c)\<lparr>ch_buffer := ch_buffer (hub_channels h c) @ [v]\<rparr> else hub_channels h c))"

lemma send_all_some:
  "distinct cs \<Longrightarrow> \<forall>c\<in>set cs. ch_open (hub_channels h c) \<Longrightarrow>
   \<exists>h' over. send_all v cs h = Some (h', over) \<and> sent v cs h h' over"
proof (induction cs arbitrary: h)
  case (Cons c cs)
  show ?case
  proof (cases "length (ch_buffer (hub_channels h c)) < channel_capacity")
    case True
    let ?h = "h\<lparr>hub_channels := (hub_channels h)(c := (hub_channels h c)\<lparr>ch_buffer := ch_buffer (hub_channels h c) @ [v]\<rparr>)\<rparr>"
    have "\<forall>x\<in>set cs. ch_open (hub_channels ?h x)" using Cons.prems by auto
    with Cons.prems obtain h' over where IH: "send_all v cs ?h = Some (h', over)" "sent v cs ?h h' over"
      using Cons.IH [of ?h] by (auto simp del: fun_upd_apply)
    have "over = filter (\<lambda>c. channel_capacity \<le> length (ch_buffer (hub_channels h c))) (c # cs)"
      using IH(2) Cons.prems(1) True by (auto simp: sent_def intro!: filter_cong)
    with IH(2) Cons.prems(1) True have "sent v (c # cs) h h' over" by (auto simp: sent_def)
    with IH(1) True Cons.prems show ?thesis by (simp add: Let_def)
  next
    case False
    with Cons.IH [of h] Cons.prems obtain h' over where IH: "send_all v cs h = Some (h', over)" "sent v cs h h' over"
      by auto
    from IH(2) False have "sent v (c # cs) h h' (c # over)" by (auto simp: sent_def)
    with IH(1) False Cons.prems show ?thesis by (simp add: Let_def)
  qed
qed (simp add: sent_def)

lemma hub_ok_send:
  assumes "hub_ok h"
  shows "\<exists>h' over. publish_send org agent v h = Some (h', over) \<and> hub_ok h' \<and>
    sent v (hub_subscribers h (hub_key org agent)) h h' over"
proof -
  from send_all_some [of "hub_subscribers h (hub_key org agent)" h v] assms
  obtain h' over where h': "publish_send org agent v h = Some (h', over)"
    "sent v (hub_subscribers h (hub_key org agent)) h h' over"
    by (auto simp: hub_ok_def publish_send_def)
  then have "hub_ok h'" using assms unfolding hub_ok_def sent_def by auto
  with h' show ?thesis by blast
qed

lemma hub_ok_send_one:
  assumes "hub_ok h" "c \<in> set (hub_subscribers h key)"
  shows "\<exists>h' over. send_all v [c] h = Some (h', over) \<and> hub_ok h' \<and> hub_revoked h' = hub_revoked h"
proof -
  from send_all_some [of "[c]" h v] assms obtain h' over where h': "send_all v [c] h = Some (h', over)" "sent v [c] h h' over"
    unfolding hub_ok_def by auto
  then have "hub_ok h'" using assms(1) unfolding hub_ok_def sent_def by auto
  with h' show ?thesis by (auto simp: sent_def)
qed

lemma hub_ok_drop_all:
  "hub_ok h \<Longrightarrow> \<exists>h'. drop_all key cs h = Some h' \<and> hub_ok h' \<and> hub_revoked h' = hub_revoked h \<and>
     (\<forall>k. hub_subscribers h' k = (if k = key then filter (\<lambda>c. c \<notin> set cs) (hub_subscribers h key) else hub_subscribers h k)) \<and>
     (\<forall>c. hub_channels h' c = (if c \<in> set cs \<and> c \<in> set (hub_subscribers h key)
        then (hub_channels h c)\<lparr>ch_open := False\<rparr> else hub_channels h c))"
proof (induction cs arbitrary: h)
  case (Cons c cs)
  from hub_ok_drop [OF Cons.prems] obtain h1 where h1: "dropSubscriber key c h = Some h1" "hub_ok h1" by blast
  from Cons.IH [OF this(2)] obtain h' where "drop_all key cs h1 = Some h'" "hub_ok h'" and
    rest: "hub_revoked h' = hub_revoked h1"
    "\<forall>k. hub_subscribers h' k = (if k = key then filter (\<lambda>c. c \<notin> set cs) (hub_subscribers h1 key) else hub_subscribers h1 k)"
    "\<forall>c. hub_channels h' c = (if c \<in> set cs \<and> c \<in> set (hub_subscribers h1 key)
        then (hub_channels h1 c)\<lparr>ch_open := False\<rparr> else hub_channels h1 c)" by blast
  then show ?case
  proof (cases "c \<in> set (hub_subscribers h key)")
    case True
    with h1(1) \<open>drop_all key cs h1 = Some h'\<close> \<open>hub_ok h'\<close> rest show ?thesis
      by (auto simp: dropSubscriber_def close_channel_def conj_commute split: if_splits)
  next
    case False
    then have "filter (\<lambda>x. x \<noteq> c \<and> x \<notin> set cs) (hub_subscribers h key) = filter (\<lambda>x. x \<notin> set cs) (hub_subscribers h key)"
      by (auto intro!: filter_cong)
    with False h1(1) \<open>drop_all key cs h1 = Some h'\<close> \<open>hub_ok h'\<close> rest show ?thesis
      by (auto simp: dropSubscriber_def)
  qed
qed simp

lemma hub_ok_receive: "hub_ok h \<Longrightarrow> hub_ok (fst (receive c h))"
  by (auto simp: receive_def hub_ok_def split: list.splits) (metis Suc_leD length_Cons)

lemma hub_step_ok:
  assumes "hub_step h r" "hub_ok h"
  shows "\<exists>h'. r = Some h' \<and> hub_ok h'"
  using assms
proof cases
  case (hub_send org agent v)
  then show ?thesis using hub_ok_send [OF assms(2), of org agent v] by auto
next
  case (hub_send_one c key v)
  then show ?thesis using hub_ok_send_one [OF assms(2), of c key v] by auto
qed (use assms(2) hub_ok_subscribe hub_ok_receive hub_ok_drop hub_ok_revoke in blast)+

lemma hub_reachable_ok: "hub_next_state\<^sup>*\<^sup>* NewHub h \<Longrightarrow> hub_ok h"
  by (induction rule: rtranclp_induct) (auto simp: hub_next_state_def hub_ok_new dest: hub_step_ok)

lemma subscribe_monotone: "set (hub_revoked h) \<subseteq> set (hub_revoked (fst (Subscribe org agent h)))"
  by (auto simp: Subscribe_def Let_def)

lemma hub_step_revoked:
  assumes "hub_ok h" "hub_step h (Some h')"
  shows "set (hub_revoked h) \<subseteq> set (hub_revoked h')"
  using assms(2)
proof cases
  case (hub_send org agent v)
  then show ?thesis using hub_ok_send [OF assms(1), of org agent v] by (auto simp: sent_def)
next
  case (hub_send_one c key v)
  then show ?thesis using hub_ok_send_one [OF assms(1), of c key v] by auto
next
  case (hub_revoke org agent)
  then show ?thesis using hub_ok_revoke [OF assms(1), of org agent] by (auto simp: sadd_def)
qed (auto simp: dropSubscriber_def close_channel_def receive_def split: if_splits list.splits
      dest: subsetD [OF subscribe_monotone])

lemma hub_steps_revoked:
  assumes "hub_next_state\<^sup>*\<^sup>* h h'" "hub_ok h"
  shows "hub_ok h' \<and> set (hub_revoked h) \<subseteq> set (hub_revoked h')"
  using assms
proof (induction rule: rtranclp_induct)
  case (step y z)
  then have "hub_ok y" "set (hub_revoked h) \<subseteq> set (hub_revoked y)" by blast+
  moreover have "hub_step y (Some z)" using step.hyps(2) by (simp add: hub_next_state_def)
  ultimately show ?case using hub_step_ok hub_step_revoked by blast
qed simp

lemma hub_ok_revoke_all:
  "hub_ok h \<Longrightarrow> \<exists>h'. revoke_all org ids h = Some h' \<and> hub_ok h' \<and> set (hub_revoked h) \<subseteq> set (hub_revoked h') \<and>
     (\<forall>a\<in>set ids. IsRevoked org a h')"
proof (induction ids arbitrary: h)
  case (Cons a ids)
  from hub_ok_revoke [OF Cons.prems, of org a] obtain h1 where h1: "Hub_Revoke org a h = Some h1" "hub_ok h1"
    "IsRevoked org a h1" "hub_revoked h1 = sadd (hub_key org a) (hub_revoked h)" by blast
  from Cons.IH [OF h1(2)] obtain h' where "revoke_all org ids h1 = Some h'" "hub_ok h'"
    "set (hub_revoked h1) \<subseteq> set (hub_revoked h')" "\<forall>a\<in>set ids. IsRevoked org a h'" by blast
  with h1 show ?case by (auto simp: IsRevoked_def sadd_def)
qed simp

section \<open>Properties\<close>

text \<open>A hub with one subscriber whose channel is full, and one more event.\<close>

definition demo_event :: event where
  "demo_event = \<lparr>ev_Type = ''peer_cancelled'', ev_Payload = CancelledPayload ''r1'' ''c1''\<rparr>"

definition demo_hub :: Hub where
  "demo_hub = fst (Subscribe ''o'' ''a2'' NewHub)"

lemma demo_hub_reachable: "hub_next_state\<^sup>*\<^sup>* NewHub demo_hub"
  unfolding demo_hub_def hub_next_state_def
  by (rule r_into_rtranclp [where r = "\<lambda>h h'. hub_step h (Some h')"]) (rule hub_subscribe)

text \<open>
  C31. However subscriptions, cancellations, revocations, sends and receives interleave from a
  new hub, no step panics (no channel is closed twice or sent to after it was closed), no
  channel holds more than its 32 events, and a revoked agent never has a subscribed channel.
\<close>

theorem hub_never_panics:
  assumes "hub_next_state\<^sup>*\<^sup>* NewHub h" "hub_step h r"
  shows "\<exists>h'. r = Some h' \<and> hub_next_state\<^sup>*\<^sup>* NewHub h' \<and>
    (\<forall>c. length (ch_buffer (hub_channels h' c)) \<le> 32) \<and>
    (\<forall>org agent. IsRevoked org agent h' \<longrightarrow> hub_subscribers h' (hub_key org agent) = [])"
proof -
  from hub_step_ok [OF assms(2) hub_reachable_ok [OF assms(1)]] obtain h' where h': "r = Some h'" "hub_ok h'" by blast
  moreover from assms h'(1) have "hub_next_state\<^sup>*\<^sup>* NewHub h'"
    by (meson hub_next_state_def rtranclp.rtrancl_into_rtrancl)
  ultimately show ?thesis by (auto simp: hub_ok_def IsRevoked_def channel_capacity_def)
qed

theorem hub_never_panics_witness:
  "\<exists>h'. Hub_Revoke ''o'' ''a2'' demo_hub = Some h' \<and> hub_next_state\<^sup>*\<^sup>* NewHub h' \<and>
    (\<forall>c. length (ch_buffer (hub_channels h' c)) \<le> 32) \<and>
    (\<forall>org agent. IsRevoked org agent h' \<longrightarrow> hub_subscribers h' (hub_key org agent) = [])"
  by (rule hub_never_panics [OF demo_hub_reachable hub_revoke])

text \<open>
  A published event is never lost in silence: every channel subscribed for the agent either
  gains the event at its end and stays subscribed, or was full, keeps what it held, and is
  closed and unsubscribed, so that its reader sees the stream end and reconciles through the
  inbox. No other agent's subscription or channel changes.
\<close>

theorem publish_delivers_or_ends_stream:
  assumes "hub_next_state\<^sup>*\<^sup>* NewHub h"
  shows "\<exists>h'. Publish org agent v h = Some h' \<and>
    (\<forall>c\<in>set (hub_subscribers h (hub_key org agent)).
       if length (ch_buffer (hub_channels h c)) < 32
       then c \<in> set (hub_subscribers h' (hub_key org agent)) \<and>
         hub_channels h' c = \<lparr>ch_buffer = ch_buffer (hub_channels h c) @ [v], ch_open = True\<rparr>
       else c \<notin> set (hub_subscribers h' (hub_key org agent)) \<and>
         hub_channels h' c = \<lparr>ch_buffer = ch_buffer (hub_channels h c), ch_open = False\<rparr>) \<and>
    (\<forall>key. key \<noteq> hub_key org agent \<longrightarrow> hub_subscribers h' key = hub_subscribers h key) \<and>
    (\<forall>c. c \<notin> set (hub_subscribers h (hub_key org agent)) \<longrightarrow> hub_channels h' c = hub_channels h c)"
proof -
  let ?key = "hub_key org agent"
  from assms have ok: "hub_ok h" by (rule hub_reachable_ok)
  then have opened: "\<forall>c\<in>set (hub_subscribers h ?key). ch_open (hub_channels h c)" by (auto simp: hub_ok_def)
  from hub_ok_send [OF ok, of org agent v] obtain h1 over where h1: "publish_send org agent v h = Some (h1, over)"
    "hub_ok h1" "sent v (hub_subscribers h ?key) h h1 over" by blast
  from hub_ok_drop_all [OF h1(2), of ?key over] obtain h' where h': "drop_all ?key over h1 = Some h'"
    "\<forall>k. hub_subscribers h' k = (if k = ?key then filter (\<lambda>c. c \<notin> set over) (hub_subscribers h1 ?key) else hub_subscribers h1 k)"
    "\<forall>c. hub_channels h' c = (if c \<in> set over \<and> c \<in> set (hub_subscribers h1 ?key)
        then (hub_channels h1 c)\<lparr>ch_open := False\<rparr> else hub_channels h1 c)" by blast
  show ?thesis
    by (rule exI [of _ h']) (use h1 h' opened in \<open>auto simp: Publish_def sent_def channel_capacity_def\<close>)
qed

theorem publish_delivers_or_ends_stream_witness:
  "\<exists>h'. Publish ''o'' ''a2'' demo_event demo_hub = Some h' \<and> 0 \<in> set (hub_subscribers h' (hub_key ''o'' ''a2'')) \<and>
    ch_buffer (hub_channels h' 0) = [demo_event]"
proof -
  have "hub_subscribers demo_hub (hub_key ''o'' ''a2'') = [0]" "ch_buffer (hub_channels demo_hub 0) = []"
    by (simp_all add: demo_hub_def Subscribe_def Let_def NewHub_def)
  with publish_delivers_or_ends_stream [OF demo_hub_reachable, of "''o''" "''a2''" demo_event] show ?thesis
    by auto
qed

text \<open>
  Revocation of an agent closes every stream it has, and from then on, whatever else
  happens on the hub, the agent is revoked, has no subscription, and a new subscription of it
  yields a channel that is already closed and empty.
\<close>

lemma revoked_agent_has_no_stream:
  assumes "hub_next_state\<^sup>*\<^sup>* NewHub h" "Hub_Revoke org agent h = Some h1" "hub_next_state\<^sup>*\<^sup>* h1 h2"
  shows "(\<forall>c\<in>set (hub_subscribers h (hub_key org agent)). \<not> ch_open (hub_channels h1 c)) \<and>
    IsRevoked org agent h2 \<and> hub_subscribers h2 (hub_key org agent) = [] \<and>
    (case Subscribe org agent h2 of (h3, c) \<Rightarrow>
       hub_subscribers h3 = hub_subscribers h2 \<and> hub_channels h3 c = \<lparr>ch_buffer = [], ch_open = False\<rparr>)"
proof -
  from hub_ok_revoke [OF hub_reachable_ok [OF assms(1)], of org agent] assms(2) have h1: "hub_ok h1"
    "IsRevoked org agent h1" "\<forall>c\<in>set (hub_subscribers h (hub_key org agent)). \<not> ch_open (hub_channels h1 c)" by auto
  from hub_steps_revoked [OF assms(3) h1(1)] h1(2) have "hub_ok h2" "IsRevoked org agent h2" by (auto simp: IsRevoked_def)
  with h1(3) show ?thesis by (auto simp: hub_ok_def IsRevoked_def Subscribe_def Let_def)
qed

end
