(* ===== verification/Collab_Handler.thy ===== *)
theory Collab_Handler
  imports Collab_Theorems Hub
begin

text \<open>
  The HTTP handlers of the relay (\<open>internal/collaboration/handler.go\<close>), one definition per handler,
  over the store of \<open>Collab_Store\<close> and the hub of \<open>Hub\<close>.

  A request carries what the handler reads of it: the content type, what the JSON decoder finds
  in its body, the path values and the query. The authenticator is an argument, \<open>None\<close> for the nil
  function. A reply is a success with its status and value, marked when it is sent with
  \<open>Cache-Control: no-store\<close>, or a failure with its status and code; the texts of messages are left
  out. A handler that panics has no result.
\<close>

section \<open>Requests and replies\<close>

text \<open>
  What the decoder finds: no value of the type (a syntax error, an unknown field, more than the 4
  MiB allowed), one value, or one value and something after it.
\<close>

datatype 'b json_body = BadJSON | OneJSON 'b | TrailingJSON 'b

record 'b http_request =
  hr_ContentType :: string
  hr_Body :: "'b json_body"
  hr_RequestID :: string
  hr_ArtifactID :: string
  hr_limit :: string
  hr_need :: string
  hr_capability :: "string list"
  hr_workspace_alias :: "string list"
  hr_online_only :: string
  hr_accepting_only :: string

datatype http_error = HTTPError (he_status: nat) (he_code: string)

datatype 'a http_reply = Failure http_error | Success (su_no_store: bool) (su_status: nat) (su_value: 'a)

type_synonym 'b authenticator = "('b http_request \<Rightarrow> (unit, Principal) result) option"

text \<open>The method \<open>principal\<close>.\<close>

definition handler_principal :: "'b authenticator \<Rightarrow> 'b http_request \<Rightarrow> (http_error, Principal) result" where
  "handler_principal authenticate r =
     (case authenticate of
        None \<Rightarrow> Inl (HTTPError 500 ''server_error'')
      | Some auth \<Rightarrow>
         (case auth r of
            Inl _ \<Rightarrow> Inl (HTTPError 401 ''unauthorized'')
          | Inr p \<Rightarrow> if pr_TokenKind p \<noteq> TokenDevice then Inl (HTTPError 403 ''forbidden'') else Inr p))"

definition decodeJSON :: "('l) golib_scheme \<Rightarrow> 'b http_request \<Rightarrow> (http_error, 'b) result" where
  "decodeJSON L r =
     (if hr_ContentType r \<noteq> [] \<and> \<not> HasPrefix (ToLower L (hr_ContentType r)) ''application/json''
      then Inl (HTTPError 415 ''unsupported_media_type'')
      else case hr_Body r of
        BadJSON \<Rightarrow> Inl (HTTPError 400 ''invalid_request'')
      | TrailingJSON _ \<Rightarrow> Inl (HTTPError 400 ''invalid_request'')
      | OneJSON v \<Rightarrow> Inr v)"

fun writeStoreError :: "relay_error \<Rightarrow> http_error" where
  "writeStoreError ErrUnauthorized = HTTPError 401 ''unauthorized''"
| "writeStoreError ErrForbidden = HTTPError 403 ''forbidden''"
| "writeStoreError ErrNotFound = HTTPError 404 ''not_found''"
| "writeStoreError ErrInvalid = HTTPError 400 ''invalid_request''"
| "writeStoreError ErrConflict = HTTPError 409 ''conflict''"
| "writeStoreError _ = HTTPError 500 ''server_error''"

text \<open>The last lines of most handlers: the error of the store, or its value.\<close>

definition answer :: "bool \<Rightarrow> nat \<Rightarrow> (relay_error, 'a) result \<Rightarrow> 'a http_reply" where
  "answer no_store code r =
     (case r of Inl e \<Rightarrow> Failure (writeStoreError e) | Inr v \<Rightarrow> Success no_store code v)"

text \<open>\<open>strconv.Atoi\<close>: a sign, decimal digits, and the range of \<open>int64\<close>.\<close>

definition digits_value :: "string \<Rightarrow> int option" where
  "digits_value s =
     (if s \<noteq> [] \<and> list_all (\<lambda>c. (48 :: nat) \<le> of_char c \<and> of_char c \<le> (57 :: nat)) s
      then Some (fold (\<lambda>c n. 10 * n + (of_char c - 48)) s 0) else None)"

definition Atoi :: "string \<Rightarrow> int option" where
  "Atoi s =
     (let n = (case s of
                 CHR ''-'' # ds \<Rightarrow> map_option uminus (digits_value ds)
               | CHR ''+'' # ds \<Rightarrow> digits_value ds
               | _ \<Rightarrow> digits_value s) in
      case n of None \<Rightarrow> None | Some v \<Rightarrow> if - (2 ^ 63) \<le> v \<and> v < 2 ^ 63 then Some v else None)"

section \<open>Handlers on the store\<close>

definition heartbeat_handler ::
  "('l) golib_scheme \<Rightarrow> time \<Rightarrow> (nat \<Rightarrow> relay_db attempt) \<Rightarrow> AgentHeartbeat authenticator \<Rightarrow>
   AgentHeartbeat http_request \<Rightarrow> relay_db \<Rightarrow> relay_db \<times> AgentCard http_reply" where
  "heartbeat_handler L now atts auth r db =
     (case handler_principal auth r of Inl e \<Rightarrow> (db, Failure e) | Inr p \<Rightarrow>
      case decodeJSON L r of Inl e \<Rightarrow> (db, Failure e) | Inr input \<Rightarrow>
      apsnd (answer False 200) (Heartbeat L now atts p input db))"

definition limit_of :: "string \<Rightarrow> (http_error, int) result" where
  "limit_of raw =
     (let s = TrimSpace raw in
      if s = [] then Inr 50
      else case Atoi s of
        None \<Rightarrow> Inl (HTTPError 400 ''invalid_request'')
      | Some n \<Rightarrow> if n < 1 \<or> n > 50 then Inl (HTTPError 400 ''invalid_request'') else Inr n)"

definition listAgents ::
  "('l) golib_scheme \<Rightarrow> time \<Rightarrow> (nat \<Rightarrow> relay_db \<Rightarrow> relay_db) \<Rightarrow> unit authenticator \<Rightarrow>
   unit http_request \<Rightarrow> relay_db \<Rightarrow> relay_db \<times> AgentDirectoryResponse http_reply" where
  "listAgents L now env auth r db =
     (case handler_principal auth r of Inl e \<Rightarrow> (db, Failure e) | Inr p \<Rightarrow>
      case limit_of (hr_limit r) of Inl e \<Rightarrow> (db, Failure e) | Inr limit \<Rightarrow>
      apsnd (answer False 200)
        (ListAgents L now env p \<lparr>aq_Need = hr_need r, aq_Capabilities = hr_capability r,
           aq_WorkspaceAliases = hr_workspace_alias r, aq_OnlineOnly = hr_online_only r = ''true'',
           aq_AcceptingOnly = hr_accepting_only r = ''true'', aq_Limit = limit\<rparr> db))"

text \<open>The reading handlers run on the database that answers the read.\<close>

definition inspectProposal :: "time \<Rightarrow> unit authenticator \<Rightarrow> unit http_request \<Rightarrow> relay_db \<Rightarrow> ProposalPayload http_reply" where
  "inspectProposal now auth r d =
     (case handler_principal auth r of Inl e \<Rightarrow> Failure e | Inr p \<Rightarrow>
      answer True 200 (InspectProposal now p (hr_RequestID r) d))"

definition getRequest :: "unit authenticator \<Rightarrow> unit http_request \<Rightarrow> relay_db \<Rightarrow> Request http_reply" where
  "getRequest auth r d =
     (case handler_principal auth r of Inl e \<Rightarrow> Failure e | Inr p \<Rightarrow>
      answer False 200 (GetRequest p (hr_RequestID r) d))"

definition fetchExecution :: "unit authenticator \<Rightarrow> unit http_request \<Rightarrow> relay_db \<Rightarrow> ExecutionPayload http_reply" where
  "fetchExecution auth r d =
     (case handler_principal auth r of Inl e \<Rightarrow> Failure e | Inr p \<Rightarrow>
      answer True 200 (FetchExecution p (hr_RequestID r) d))"

definition fetchArtifact :: "unit authenticator \<Rightarrow> unit http_request \<Rightarrow> relay_db \<Rightarrow> relay_db \<Rightarrow> ArtifactContent http_reply" where
  "fetchArtifact auth r d e =
     (case handler_principal auth r of Inl err \<Rightarrow> Failure err | Inr p \<Rightarrow>
      answer True 200 (FetchArtifact p (hr_ArtifactID r) d e))"

text \<open>The body of the inbox: the requests and when they were observed.\<close>

definition inbox_handler ::
  "(nat \<Rightarrow> relay_db \<Rightarrow> relay_db) \<Rightarrow> (nat \<Rightarrow> inbox_env) \<Rightarrow> time \<Rightarrow> unit authenticator \<Rightarrow>
   unit http_request \<Rightarrow> relay_db \<Rightarrow> relay_db \<times> (RequestNotice list \<times> time) http_reply" where
  "inbox_handler env es now auth r db =
     (case handler_principal auth r of Inl e \<Rightarrow> (db, Failure e) | Inr p \<Rightarrow>
      apsnd (\<lambda>x. answer False 200 (map_sum id (\<lambda>ns. (ns, now)) x)) (Inbox env es p db))"

definition decide_handler ::
  "('l) golib_scheme \<Rightarrow> (nat \<Rightarrow> relay_db attempt) \<Rightarrow> DecisionPayload authenticator \<Rightarrow>
   DecisionPayload http_request \<Rightarrow> relay_db \<Rightarrow> relay_db \<times> MutationResponse http_reply" where
  "decide_handler L atts auth r db =
     (case handler_principal auth r of Inl e \<Rightarrow> (db, Failure e) | Inr p \<Rightarrow>
      case decodeJSON L r of Inl e \<Rightarrow> (db, Failure e) | Inr input \<Rightarrow>
      apsnd (answer False 200) (Decide atts p (hr_RequestID r) input db))"

text \<open>The payload of a claim is its one field.\<close>

definition markRunning_handler ::
  "('l) golib_scheme \<Rightarrow> (nat \<Rightarrow> relay_db attempt) \<Rightarrow> string authenticator \<Rightarrow>
   string http_request \<Rightarrow> relay_db \<Rightarrow> relay_db \<times> MutationResponse http_reply" where
  "markRunning_handler L atts auth r db =
     (case handler_principal auth r of Inl e \<Rightarrow> (db, Failure e) | Inr p \<Rightarrow>
      case decodeJSON L r of Inl e \<Rightarrow> (db, Failure e) | Inr claim \<Rightarrow>
      apsnd (answer False 200) (MarkRunning atts p (hr_RequestID r) claim db))"

definition submitResult_handler ::
  "('l) relaylib_scheme \<Rightarrow> (nat \<Rightarrow> string) \<Rightarrow> (nat \<Rightarrow> relay_db \<Rightarrow> relay_db) \<Rightarrow> (nat \<Rightarrow> relay_db attempt) \<Rightarrow>
   ResultPayload authenticator \<Rightarrow> ResultPayload http_request \<Rightarrow> relay_db \<Rightarrow> relay_db \<times> MutationResponse http_reply" where
  "submitResult_handler L rnd env atts auth r db =
     (case handler_principal auth r of Inl e \<Rightarrow> (db, Failure e) | Inr p \<Rightarrow>
      case decodeJSON L r of Inl e \<Rightarrow> (db, Failure e) | Inr input \<Rightarrow>
      apsnd (answer False 200) (SubmitResult L rnd env atts p (hr_RequestID r) input db))"

section \<open>Handlers that notify\<close>

text \<open>
  \<open>genv\<close> is what the others do to the database before the extra read, and \<open>henv\<close> what they do to
  the hub before the event is published.
\<close>

definition createRequest_handler ::
  "('l) relaylib_scheme \<Rightarrow> (nat \<Rightarrow> string) \<Rightarrow> time \<Rightarrow> (nat \<Rightarrow> relay_db \<Rightarrow> relay_db) \<Rightarrow> (nat \<Rightarrow> relay_db attempt) \<Rightarrow>
   (relay_db \<Rightarrow> relay_db) \<Rightarrow> (Hub \<Rightarrow> Hub) \<Rightarrow> CreateRequest authenticator \<Rightarrow> CreateRequest http_request \<Rightarrow>
   relay_db \<Rightarrow> Hub \<Rightarrow> (relay_db \<times> Hub \<times> MutationResponse http_reply) option" where
  "createRequest_handler L rnd now env atts genv henv auth r db h =
     (case handler_principal auth r of Inl e \<Rightarrow> Some (db, h, Failure e) | Inr p \<Rightarrow>
      case decodeJSON L r of Inl e \<Rightarrow> Some (db, h, Failure e) | Inr input \<Rightarrow>
      case CreateRequest L rnd now env atts p input db of
        (d, Inl e) \<Rightarrow> Some (d, h, Failure (writeStoreError e))
      | (d, Inr (result, requestNotice, created)) \<Rightarrow>
      if \<not> created then Some (d, h, Success False 201 result)
      else let publish = (\<lambda>d target.
              map_option (\<lambda>h'. (d, h', Success False 201 result))
                (Publish (pr_OrganizationID p) target
                   \<lparr>ev_Type = ''peer_request'', ev_Payload = NoticePayload requestNotice\<rparr> (henv h)));
            target = TrimSpace (cr_TargetAgentID input) in
      if target \<noteq> [] then publish d target
      else let d' = genv d in
      case GetRequest p (mr_RequestID result) d' of
        Inl e \<Rightarrow> Some (d', h, Failure (writeStoreError e))
      | Inr stored \<Rightarrow> publish d' (rq_TargetAgentID stored))"

definition cancel_handler ::
  "(relay_db \<Rightarrow> relay_db) \<Rightarrow> (nat \<Rightarrow> relay_db attempt) \<Rightarrow> (Hub \<Rightarrow> Hub) \<Rightarrow> unit authenticator \<Rightarrow> unit http_request \<Rightarrow>
   relay_db \<Rightarrow> Hub \<Rightarrow> (relay_db \<times> Hub \<times> MutationResponse http_reply) option" where
  "cancel_handler genv atts henv auth r db h =
     (case handler_principal auth r of Inl e \<Rightarrow> Some (db, h, Failure e) | Inr p \<Rightarrow>
      let requestID = hr_RequestID r; d0 = genv db in
      case GetRequest p requestID d0 of Inl e \<Rightarrow> Some (d0, h, Failure (writeStoreError e)) | Inr request \<Rightarrow>
      case Cancel atts p requestID d0 of
        (d, Inl e) \<Rightarrow> Some (d, h, Failure (writeStoreError e))
      | (d, Inr (result, changed)) \<Rightarrow>
      if \<not> changed then Some (d, h, Success False 200 result)
      else map_option (\<lambda>h'. (d, h', Success False 200 result))
             (Publish (pr_OrganizationID p) (rq_TargetAgentID request)
                \<lparr>ev_Type = ''peer_cancelled'',
                 ev_Payload = CancelledPayload requestID (rq_ConversationID request)\<rparr> (henv h)))"

section \<open>The event stream\<close>

text \<open>
  What \<open>events\<close> writes: the ready line, one frame per event (\<open>writeSSE\<close>), a comment to keep the
  connection alive. \<open>wr n\<close> says whether the write of the n-th frame succeeds; a frame whose write
  fails may or may not have left and is not counted.
\<close>

datatype frame = ReadyFrame | EventFrame event | KeepaliveFrame

fun write_all :: "(nat \<Rightarrow> bool) \<Rightarrow> frame list \<Rightarrow> frame list \<Rightarrow> frame list \<times> bool" where
  "write_all wr out [] = (out, True)"
| "write_all wr out (f # fs) = (if wr (length out) then write_all wr (out @ [f]) fs else (out, False))"

text \<open>
  The \<open>select\<close> loop runs over a schedule: what the others do to the hub, and which case is taken. A
  receive waits while its channel is open and empty. The flag of the result says whether the
  loop has returned, which it does at the end of the request, at the end of the stream and at a
  failed write.
\<close>

datatype stream_case = ContextDone | FromChannel | KeepaliveTick

fun events_loop ::
  "(nat \<Rightarrow> bool) \<Rightarrow> nat \<Rightarrow> ((Hub \<Rightarrow> Hub) \<times> stream_case) list \<Rightarrow> frame list \<Rightarrow> Hub \<Rightarrow> Hub \<times> frame list \<times> bool" where
  "events_loop wr c [] out h = (h, out, False)"
| "events_loop wr c ((henv, sc) # rest) out h =
     (let h1 = henv h in
      case sc of
        ContextDone \<Rightarrow> (h1, out, True)
      | KeepaliveTick \<Rightarrow>
          if wr (length out) then events_loop wr c rest (out @ [KeepaliveFrame]) h1 else (h1, out, True)
      | FromChannel \<Rightarrow>
         (case receive c h1 of
            (h2, Some v) \<Rightarrow>
              if wr (length out) then events_loop wr c rest (out @ [EventFrame v]) h2 else (h2, out, True)
          | (h2, None) \<Rightarrow>
              if ch_open (hub_channels h1 c) then events_loop wr c rest out h2 else (h2, out, True)))"

text \<open>
  \<open>unsubscribe\<close>, which runs when the handler returns; \<open>k\<close> is what the others do to the hub
  before. For an agent that was revoked when it subscribed it does nothing, as \<open>dropSubscriber\<close>
  does then.
\<close>

definition events_return ::
  "string \<Rightarrow> nat \<Rightarrow> relay_db \<Rightarrow> Hub \<Rightarrow> frame list \<Rightarrow> (relay_db \<times> Hub \<times> frame list \<times> bool) option" where
  "events_return key c d h out = map_option (\<lambda>h'. (d, h', out, True)) (dropSubscriber key c h)"

definition backlog :: "RequestNotice list \<Rightarrow> frame list" where
  "backlog ns = map (\<lambda>n. EventFrame \<lparr>ev_Type = ''peer_request'', ev_Payload = NoticePayload n\<rparr>) ns"

text \<open>
  \<open>events\<close>, for a response writer that can be flushed or not. \<open>henv i\<close> is what the others do to the
  hub before the subscription, before \<open>IsRevoked\<close>, while the inbox is read, and before the return.
\<close>

definition events_handler ::
  "(nat \<Rightarrow> bool) \<Rightarrow> (nat \<Rightarrow> relay_db \<Rightarrow> relay_db) \<Rightarrow> (nat \<Rightarrow> inbox_env) \<Rightarrow> (nat \<Rightarrow> Hub \<Rightarrow> Hub) \<Rightarrow>
   ((Hub \<Rightarrow> Hub) \<times> stream_case) list \<Rightarrow> bool \<Rightarrow> unit authenticator \<Rightarrow> unit http_request \<Rightarrow>
   relay_db \<Rightarrow> Hub \<Rightarrow> (http_error, (relay_db \<times> Hub \<times> frame list \<times> bool) option) result" where
  "events_handler wr env es henv schedule can_flush auth r db h =
     (case handler_principal auth r of Inl e \<Rightarrow> Inl e | Inr p \<Rightarrow>
      if \<not> can_flush then Inl (HTTPError 500 ''stream_unavailable'')
      else let org = pr_OrganizationID p; agent = pr_AgentID p; key = hub_key org agent in
      case Subscribe org agent (henv 0 h) of (h0, c) \<Rightarrow>
      let h1 = henv 1 h0; leave = (\<lambda>d h out. events_return key c d (henv 3 h) out) in
      Inr (if IsRevoked org agent h1 then leave db h1 []
           else if \<not> wr 0 then leave db h1 []
           else case Inbox env es p db of
             (d, Inl _) \<Rightarrow> leave d h1 [ReadyFrame]
           | (d, Inr pending) \<Rightarrow>
           case write_all wr [ReadyFrame] (backlog pending) of
             (out, False) \<Rightarrow> leave d h1 out
           | (out, True) \<Rightarrow>
           case events_loop wr c schedule out (henv 2 h1) of
             (h2, out', True) \<Rightarrow> leave d h2 out'
           | (h2, out', False) \<Rightarrow> Some (d, h2, out', False)))"

end
