(* ===== verification/Handler_Theorems.thy ===== *)
theory Handler_Theorems
  imports Collab_Handler
begin

text \<open>
  Properties of the handlers: who is let in, what a replay does, whom a cancellation tells, and
  what becomes of a stream's subscription.
\<close>

section \<open>Authentication\<close>

definition no_device :: "'b authenticator \<Rightarrow> 'b http_request \<Rightarrow> bool" where
  "no_device auth r \<longleftrightarrow>
     (case auth of None \<Rightarrow> True | Some f \<Rightarrow>
      (case f r of Inl _ \<Rightarrow> True | Inr p \<Rightarrow> pr_TokenKind p \<noteq> TokenDevice))"

lemma no_device_refused:
  assumes "no_device auth r"
  shows "\<exists>e. handler_principal auth r = Inl e \<and> he_status e \<in> {401, 403, 500}"
  using assms by (auto simp: no_device_def handler_principal_def split: option.splits sum.splits)

lemma handler_principal_device: "handler_principal auth r = Inr p \<Longrightarrow> pr_TokenKind p = TokenDevice"
  by (auto simp: handler_principal_def split: option.splits sum.splits if_splits)

text \<open>A refusal: nothing changed, and the status says who is to blame.\<close>

definition refused :: "'a http_reply \<Rightarrow> bool" where
  "refused reply \<longleftrightarrow> (\<exists>e. reply = Failure e \<and> he_status e \<in> {401, 403, 500})"

text \<open>
  No handler does anything for a caller without a device credential: when the authenticator is
  missing, fails, or names an administrator, an invitation or a bootstrap token, every handler
  answers 500, 401 or 403, the database and the hub stay as they are, nothing is subscribed and
  nothing is published.
\<close>

theorem handlers_need_device:
  assumes "no_device au ru" "no_device ah rh" "no_device ac rc" "no_device ad rd" "no_device am rm" "no_device as rs"
  shows "(\<exists>x. heartbeat_handler L now atts ah rh db = (db, x) \<and> refused x) \<and>
    (\<exists>x. listAgents L now env au ru db = (db, x) \<and> refused x) \<and>
    refused (inspectProposal now au ru db) \<and> refused (getRequest au ru db) \<and>
    refused (fetchExecution au ru db) \<and> refused (fetchArtifact au ru db db) \<and>
    (\<exists>x. inbox_handler env es now au ru db = (db, x) \<and> refused x) \<and>
    (\<exists>x. decide_handler L atts ad rd db = (db, x) \<and> refused x) \<and>
    (\<exists>x. markRunning_handler L atts am rm db = (db, x) \<and> refused x) \<and>
    (\<exists>x. submitResult_handler L rnd env atts as rs db = (db, x) \<and> refused x) \<and>
    (\<exists>x. createRequest_handler L rnd now env atts genv henv ac rc db h = Some (db, h, x) \<and> refused x) \<and>
    (\<exists>x. cancel_handler genv atts henv au ru db h = Some (db, h, x) \<and> refused x) \<and>
    (\<exists>e. events_handler wr env es henvs schedule can_flush au ru db h = Inl e \<and> he_status e \<in> {401, 403, 500})"
  using assms [THEN no_device_refused]
  unfolding heartbeat_handler_def listAgents_def inspectProposal_def getRequest_def fetchExecution_def
    fetchArtifact_def inbox_handler_def decide_handler_def markRunning_handler_def submitResult_handler_def
    createRequest_handler_def cancel_handler_def events_handler_def refused_def
  by (elim exE conjE) simp

definition demo_http :: "'b json_body \<Rightarrow> 'b http_request" where
  "demo_http b = \<lparr>hr_ContentType = ''application/json'', hr_Body = b, hr_RequestID = ''r1'', hr_ArtifactID = [],
     hr_limit = [], hr_need = [], hr_capability = [], hr_workspace_alias = [], hr_online_only = [], hr_accepting_only = []\<rparr>"

theorem handlers_need_device_witness:
  "\<exists>x. decide_handler demo_lib (\<lambda>_. calm 0) (Some (\<lambda>_. Inr (demo_bob\<lparr>pr_TokenKind := TokenAdmin\<rparr>)))
     (demo_http (OneJSON demo_allow)) demo_created = (demo_created, x) \<and> refused x"
  using handlers_need_device [of None "demo_http BadJSON" None "demo_http BadJSON" None "demo_http BadJSON"
    "Some (\<lambda>_. Inr (demo_bob\<lparr>pr_TokenKind := TokenAdmin\<rparr>))" "demo_http (OneJSON demo_allow)"
    None "demo_http BadJSON" None "demo_http BadJSON" demo_lib 0 "\<lambda>_. calm 0" demo_created]
  by (simp add: no_device_def)

section \<open>Replays\<close>

lemma GetRequest_read:
  "GetRequest p i d = Inr r \<Longrightarrow> \<exists>s. readStoredRequest d (pr_OrganizationID p) i = Inr s \<and> r = (sr_Request s)\<lparr>rq_Prompt := []\<rparr>"
  by (auto simp: GetRequest_def split: sum.splits if_splits)

text \<open>Two reads of a request, with steps in between, agree on its parties.\<close>

lemma reads_same_parties:
  assumes "reachable d" "readStoredRequest d org i = Inr s" "relay_steps d d'" "readStoredRequest d' org i = Inr s'"
  shows "rq_TargetAgentID (sr_Request s') = rq_TargetAgentID (sr_Request s) \<and>
    rq_ConversationID (sr_Request s') = rq_ConversationID (sr_Request s)"
  using life_steps_keep [OF reads_related [OF assms(2,3,4) refl]] reachable_read_ok [OF assms(1,2)]
    proposal_simps [of s' s] by blast

text \<open>The event that announces a new request.\<close>

definition request_event :: "storedRequest \<Rightarrow> event" where
  "request_event s = \<lparr>ev_Type = ''peer_request'', ev_Payload = NoticePayload (notice (sr_Request s))\<rparr>"

text \<open>
  C30. A create call tells the target of the request it stored, and nobody else, at most once. The call
  that created the request either answers 201 and publishes its notice to the streams of the agent the
  stored request is addressed to, also when the caller named only a conversation; or the caller
  named only a conversation, the extra read of the request that finds its target fails, the call
  answers with that error, and no notice is published although the request is stored. In both cases,
  whatever happened since, the same call later answers 201 with the request as it is then and
  publishes nothing: a notice that was lost this way is never sent.
\<close>

theorem create_notifies_target_once:
  assumes "handler_principal auth r = Inr p" "decodeJSON L r = Inr i"
    "CreateRequest L rnd now env atts p i db = (d, Inr (m, n, True))" "reachable d" "\<forall>x. relay_steps x (genv x)"
    "createRequest_handler L rnd now env atts genv henv auth r db h = Some (d1, h1, reply)"
    "relay_steps d d'" "readStoredRequest d' (pr_OrganizationID p) (mr_RequestID m) = Inr s'"
  shows "(\<exists>s. readStoredRequest d (pr_OrganizationID p) (mr_RequestID m) = Inr s \<and>
      (reply = Success False 201 m \<and>
         Publish (pr_OrganizationID p) (rq_TargetAgentID (sr_Request s)) (request_event s) (henv h) = Some h1 \<or>
       (\<exists>e. TrimSpace (cr_TargetAgentID i) = [] \<and> GetRequest p (mr_RequestID m) (genv d) = Inl e \<and>
         reply = Failure (writeStoreError e) \<and> h1 = h))) \<and>
    createRequest_handler L rnd' now' (\<lambda>_ x. x) atts' genv' henv' auth r d' h' =
      Some (d', h', Success False 201 (mutation (sr_Request s')))"
proof
  from CreateRequest_created [OF assms(3)] obtain s where
    s: "readStoredRequest d (pr_OrganizationID p) (mr_RequestID m) = Inr s" "n = notice (sr_Request s)"
      "TrimSpace (cr_TargetAgentID i) \<noteq> [] \<longrightarrow> rq_TargetAgentID (sr_Request s) = TrimSpace (cr_TargetAgentID i)" by blast
  have "reply = Success False 201 m \<and>
      Publish (pr_OrganizationID p) (rq_TargetAgentID (sr_Request s)) (request_event s) (henv h) = Some h1 \<or>
    (\<exists>e. TrimSpace (cr_TargetAgentID i) = [] \<and> GetRequest p (mr_RequestID m) (genv d) = Inl e \<and>
      reply = Failure (writeStoreError e) \<and> h1 = h)"
  proof (cases "TrimSpace (cr_TargetAgentID i) = []")
    case False
    with assms(1-3,6) s show ?thesis by (auto simp: createRequest_handler_def Let_def request_event_def)
  next
    case target: True
    show ?thesis
    proof (cases "GetRequest p (mr_RequestID m) (genv d)")
      case (Inl e)
      with target assms(1-3,6) show ?thesis by (auto simp: createRequest_handler_def Let_def)
    next
      case (Inr q)
      with target assms(1-3,6) s have out: "reply = Success False 201 m"
        "Publish (pr_OrganizationID p) (rq_TargetAgentID q) (request_event s) (henv h) = Some h1"
        by (auto simp: createRequest_handler_def Let_def request_event_def)
      from GetRequest_read [OF Inr] obtain t where
        "readStoredRequest (genv d) (pr_OrganizationID p) (mr_RequestID m) = Inr t" "q = (sr_Request t)\<lparr>rq_Prompt := []\<rparr>" by blast
      with reads_same_parties [OF assms(4) s(1) _ this(1)] assms(5) out show ?thesis by simp
    qed
  qed
  with s(1) show "\<exists>s. readStoredRequest d (pr_OrganizationID p) (mr_RequestID m) = Inr s \<and>
      (reply = Success False 201 m \<and>
         Publish (pr_OrganizationID p) (rq_TargetAgentID (sr_Request s)) (request_event s) (henv h) = Some h1 \<or>
       (\<exists>e. TrimSpace (cr_TargetAgentID i) = [] \<and> GetRequest p (mr_RequestID m) (genv d) = Inl e \<and>
         reply = Failure (writeStoreError e) \<and> h1 = h))" by blast
next
  have "CreateRequest L rnd' now' (\<lambda>_ x. x) atts' p i d' =
      (d', Inr (mutation (sr_Request s'), notice (sr_Request s'), False))"
    by (rule create_replay [OF assms(3,4,7,8)])
  with assms(1,2) show "createRequest_handler L rnd' now' (\<lambda>_ x. x) atts' genv' henv' auth r d' h' =
      Some (d', h', Success False 201 (mutation (sr_Request s')))"
    by (simp add: createRequest_handler_def)
qed

lemma publish_nobody: "hub_subscribers h (hub_key org agent) = [] \<Longrightarrow> Publish org agent v h = Some h"
  by (simp add: Publish_def publish_send_def)

definition demo_auth :: "Principal \<Rightarrow> 'b authenticator" where
  "demo_auth p = Some (\<lambda>_. Inr p)"

lemma demo_auth_principal [simp]: "handler_principal (demo_auth demo_alice) r = Inr demo_alice"
  "handler_principal (demo_auth demo_bob) r = Inr demo_bob"
  by (simp_all add: handler_principal_def demo_auth_def demo_defs)

lemma demo_http_decode [simp]: "decodeJSON L (demo_http (OneJSON v)) = Inr v"
  by (simp add: decodeJSON_def demo_http_def HasPrefix_iff ToLower_def is_ascii_def ascii_lower_def)

theorem create_notifies_target_once_witness:
  "createRequest_handler demo_lib (\<lambda>_. ''z'') 9 (\<lambda>_ x. x) (\<lambda>_. calm 9) id id (demo_auth demo_alice)
     (demo_http (OneJSON demo_input)) demo_created2 NewHub =
   Some (demo_created2, NewHub, Success False 201 (mutation (sr_Request demo_request2)))"
proof -
  have nobody: "hub_subscribers NewHub key = []" for key by (simp add: NewHub_def)
  have "createRequest_handler demo_lib (\<lambda>_. ''x'') 0 (\<lambda>_ x. x) (\<lambda>_. calm 0) id id (demo_auth demo_alice)
      (demo_http (OneJSON demo_input)) demo_present NewHub =
    Some (demo_created2, NewHub, Success False 201 (mutation (sr_Request demo_request2)))"
    by (simp add: createRequest_handler_def demo_create Let_def publish_nobody nobody) (simp add: demo_input_def)
  from create_notifies_target_once [OF demo_auth_principal(1) demo_http_decode demo_create demo_created2_reachable _ this
      rtranclp.rtrancl_refl, of demo_request2 "\<lambda>_. ''z''" 9 "\<lambda>_. calm 9" id id NewHub] demo_created2_read
  show ?thesis by simp
qed

section \<open>Cancellation\<close>

definition cancel_event :: "string \<Rightarrow> storedRequest \<Rightarrow> event" where
  "cancel_event i s = \<lparr>ev_Type = ''peer_cancelled'', ev_Payload = CancelledPayload i (rq_ConversationID (sr_Request s))\<rparr>"

text \<open>
  A cancellation that is answered with success leaves the request cancelled, was made by its
  requester, and either changed nothing on the hub or told the streams of its target. From then
  on, whatever happens, the request stays cancelled and cancelling it again succeeds, changes
  nothing and tells nobody.
\<close>

theorem cancel_tells_target_once:
  assumes "handler_principal auth r = Inr p" "reachable db" "\<forall>x. relay_steps x (genv x)" "atts_ok atts"
    "cancel_handler genv atts henv auth r db h = Some (d, h1, Success no_store code m)"
    "relay_steps d d'" "readStoredRequest d' (pr_OrganizationID p) (hr_RequestID r) = Inr s'"
  shows "\<exists>s. readStoredRequest d (pr_OrganizationID p) (hr_RequestID r) = Inr s \<and> status s = StatusCancelled \<and>
    rq_RequesterAgentID (sr_Request s) = pr_AgentID p \<and> m = mutation (sr_Request s) \<and> s' = s \<and>
    (h1 = h \<or> Publish (pr_OrganizationID p) (rq_TargetAgentID (sr_Request s)) (cancel_event (hr_RequestID r) s) (henv h) = Some h1) \<and>
    cancel_handler id (\<lambda>_. calm t) henv' auth r d' h' = Some (d', h', Success False 200 m)"
proof -
  let ?org = "pr_OrganizationID p" and ?i = "hr_RequestID r"
  from assms(1,5) obtain q changed where q: "GetRequest p ?i (genv db) = Inr q"
    and can: "Cancel atts p ?i (genv db) = (d, Inr (m, changed))"
    and hub: "h1 = h \<or> Publish ?org (rq_TargetAgentID q)
        \<lparr>ev_Type = ''peer_cancelled'', ev_Payload = CancelledPayload ?i (rq_ConversationID q)\<rparr> (henv h) = Some h1"
    by (auto simp: cancel_handler_def Let_def split: sum.splits prod.splits if_splits)
  have steps: "relay_steps (genv db) d" using Cancel_refines [OF assms(4), of "genv db" p ?i] can by simp
  have reach: "reachable (genv db)" "reachable d" using assms(2,3) steps by (blast intro: reachable_steps)+
  from Cancel_reply [OF can] obtain s where s: "readStoredRequest d ?org ?i = Inr s" "m = mutation (sr_Request s)"
    "status s = StatusCancelled" "rq_RequesterAgentID (sr_Request s) = pr_AgentID p" by blast
  have same: "s' = s"
    using life_steps_keep [OF reads_related [OF s(1) assms(6,7) refl]] reachable_read_ok [OF reach(2) s(1)] s(3) by simp
  from GetRequest_read [OF q] obtain s0 where s0: "readStoredRequest (genv db) ?org ?i = Inr s0"
    "q = (sr_Request s0)\<lparr>rq_Prompt := []\<rparr>" by blast
  have tell: "h1 = h \<or> Publish ?org (rq_TargetAgentID (sr_Request s)) (cancel_event ?i s) (henv h) = Some h1"
    using hub s0(2) reads_same_parties [OF reach(1) s0(1) steps s(1)] by (simp add: cancel_event_def)
  have dev: "requireDevice p = Inr ()" using can by (auto simp: Cancel_def transition_def transitionStored_def
      transitionStoredWatching_def split: sum.splits)
  have "GetRequest p ?i d' = Inr ((sr_Request s)\<lparr>rq_Prompt := []\<rparr>)"
    using assms(7) same s(4) dev by (simp add: GetRequest_def)
  moreover have "Cancel (\<lambda>_. calm t) p ?i d' = (d', Inr (m, False))"
    using assms(7) same s(2,3,4) dev
    by (simp add: Cancel_def transition_def transitionStored_def transitionStoredWatching_def watch_loop_calm
        transition_body_def on_request_def cancel_update_def)
  ultimately have "cancel_handler id (\<lambda>_. calm t) henv' auth r d' h' = Some (d', h', Success False 200 m)"
    using assms(1) by (simp add: cancel_handler_def)
  with s same tell show ?thesis by blast
qed

lemma demo_cancel: "Cancel (\<lambda>_. calm 0) demo_alice ''r1'' demo_created =
   (transition_commit ''o'' ''r1'' (stamp 0 (set_status StatusCancelled demo_request)) demo_created,
    Inr (mutation (sr_Request (stamp 0 (set_status StatusCancelled demo_request))), True))"
proof -
  have "on_request (cancel_update demo_alice) (calm 0) demo_request = Inr (set_status StatusCancelled demo_request, True)"
    by (simp add: on_request_def cancel_update_def set_status_def)
  moreover have "set_status StatusCancelled demo_request \<noteq> demo_request"
    by (rule status_differs) (simp add: set_status_def)
  ultimately show ?thesis
    using transition_calm [of demo_alice demo_created "''r1''" demo_request "\<lambda>a _. on_request (cancel_update demo_alice) a" 0]
    by (simp add: Cancel_def transition_def transitionStored_def demo_created_read)
qed

theorem cancel_tells_target_once_witness:
  "\<exists>d. cancel_handler id (\<lambda>_. calm 0) id (demo_auth demo_alice) (demo_http BadJSON) demo_created NewHub =
       Some (d, NewHub, Success False 200 (mutation (sr_Request (stamp 0 (set_status StatusCancelled demo_request))))) \<and>
     cancel_handler id (\<lambda>_. calm 1) id (demo_auth demo_alice) (demo_http BadJSON) d demo_hub =
       Some (d, demo_hub, Success False 200 (mutation (sr_Request (stamp 0 (set_status StatusCancelled demo_request)))))"
proof -
  let ?s = "stamp 0 (set_status StatusCancelled demo_request)"
  let ?d = "transition_commit ''o'' ''r1'' ?s demo_created"
  have nobody: "hub_subscribers NewHub key = []" for key by (simp add: NewHub_def)
  have sel: "hr_RequestID (demo_http BadJSON) = ''r1''" by (simp add: demo_http_def)
  have first: "cancel_handler id (\<lambda>_. calm 0) id (demo_auth demo_alice) (demo_http BadJSON) demo_created NewHub =
       Some (?d, NewHub, Success False 200 (mutation (sr_Request ?s)))"
    by (simp add: cancel_handler_def Let_def GetRequest_def demo_created_read demo_cancel publish_nobody nobody sel)
  have read: "readStoredRequest ?d (pr_OrganizationID demo_alice) (hr_RequestID (demo_http BadJSON)) = Inr ?s"
    by (simp add: sel stamp_def set_status_def)
  show ?thesis
    using cancel_tells_target_once [OF demo_auth_principal(1) demo_created_reachable _ _ first rtranclp.rtrancl_refl read]
      first by fastforce
qed

section \<open>The stream\<close>

text \<open>What the others do to the hub is a sequence of its steps.\<close>

definition hub_env :: "(Hub \<Rightarrow> Hub) \<Rightarrow> bool" where
  "hub_env f \<longleftrightarrow> (\<forall>h. hub_next_state\<^sup>*\<^sup>* h (f h))"

lemma hub_env_ok: "hub_env f \<Longrightarrow> hub_ok h \<Longrightarrow> hub_ok (f h)"
  using hub_steps_revoked unfolding hub_env_def by blast

lemma write_all_shape:
  "write_all wr out fs = (out', done) \<Longrightarrow> (\<exists>k. out' = out @ take k fs) \<and> (done \<longrightarrow> out' = out @ fs)"
proof (induction wr out fs rule: write_all.induct)
  case (2 wr out f fs)
  show ?case
  proof (cases "wr (length out)")
    case True
    with 2(2) have "write_all wr (out @ [f]) fs = (out', done)" by simp
    from 2(1) [OF True this] obtain k where "out' = (out @ [f]) @ take k fs" "done \<longrightarrow> out' = (out @ [f]) @ fs" by blast
    then have "out' = out @ take (Suc k) (f # fs)" "done \<longrightarrow> out' = out @ f # fs" by simp_all
    then show ?thesis by blast
  next
    case False
    with 2(2) have "out' = out @ take 0 (f # fs)" "\<not> done" by simp_all
    then show ?thesis by blast
  qed
qed simp

lemma events_loop_shape:
  assumes "events_loop wr c schedule out h = (h', out', done)" "hub_ok h" "\<forall>x\<in>set schedule. hub_env (fst x)"
  shows "hub_ok h' \<and> (\<exists>live. out' = out @ live \<and> ReadyFrame \<notin> set live)"
  using assms
proof (induction schedule arbitrary: out h)
  case (Cons x rest)
  obtain henv sc where x: "x = (henv, sc)" by fastforce
  obtain h2 v where rcv: "receive c (henv h) = (h2, v)" by fastforce
  have ok: "hub_ok (henv h)" "hub_ok h2"
    using Cons.prems x hub_env_ok hub_ok_receive [of "henv h" c] rcv by auto
  have rest: "hub_ok h' \<and> (\<exists>live. out' = out @ live \<and> ReadyFrame \<notin> set live)"
    if "events_loop wr c rest (out @ fs) g = (h', out', done)" "hub_ok g" "ReadyFrame \<notin> set fs" for fs g
  proof -
    from Cons.IH [OF that(1,2)] Cons.prems(3) obtain live where
      "hub_ok h'" "out' = (out @ fs) @ live" "ReadyFrame \<notin> set live" by auto
    then show ?thesis using that(3) by (auto intro: exI [of _ "fs @ live"])
  qed
  show ?case
    using Cons.prems(1) ok rest [of "[]"] rest [of "[KeepaliveFrame]"] rest [of "[EventFrame (the v)]"]
    by (cases sc; cases v) (auto simp: x rcv Let_def split: if_splits)
qed simp

lemma events_return_some:
  assumes "hub_ok h"
  shows "\<exists>h'. events_return key c d h out = Some (d, h', out, True) \<and> hub_ok h' \<and> c \<notin> set (hub_subscribers h' key)"
  using hub_ok_drop [OF assms, of key c] by (auto simp: events_return_def)

text \<open>The frames a stream may have written: nothing, or the ready line, a part of the backlog, or all of it and then the live part.\<close>

definition stream_output :: "(relay_error, RequestNotice list) result \<Rightarrow> frame list \<Rightarrow> bool" where
  "stream_output inbox out \<longleftrightarrow>
     out = [] \<or> out = [ReadyFrame] \<or>
     (case inbox of
        Inl _ \<Rightarrow> False
      | Inr ns \<Rightarrow> (\<exists>k. out = ReadyFrame # take k (backlog ns)) \<or>
                (\<exists>live. out = ReadyFrame # backlog ns @ live \<and> ReadyFrame \<notin> set live))"

text \<open>
  C32. A stream never panics and never leaks its subscription: whatever happens on the hub and
  wherever its writes fail, when the handler returns its channel is no longer subscribed. It
  writes live events only after the whole backlog, which it reads after it subscribed, and for
  an agent that is already revoked it writes nothing and returns at once.
\<close>

theorem stream_contract:
  assumes "handler_principal auth r = Inr p" "hub_next_state\<^sup>*\<^sup>* NewHub h" "\<forall>i. hub_env (henv i)"
    "\<forall>x\<in>set schedule. hub_env (fst x)" "events_handler wr env es henv schedule True auth r db h = Inr res"
  shows "\<exists>d h' out returned. res = Some (d, h', out, returned) \<and>
    (returned \<longrightarrow> hub_next (henv 0 h) \<notin> set (hub_subscribers h' (hub_key (pr_OrganizationID p) (pr_AgentID p)))) \<and>
    stream_output (snd (Inbox env es p db)) out \<and>
    (IsRevoked (pr_OrganizationID p) (pr_AgentID p) h \<longrightarrow> out = [] \<and> returned)"
proof -
  let ?org = "pr_OrganizationID p" and ?agent = "pr_AgentID p" and ?c = "hub_next (henv 0 h)"
  let ?key = "hub_key ?org ?agent"
  have "snd (Subscribe ?org ?agent (henv 0 h)) = ?c" by (simp add: Subscribe_def Let_def)
  then obtain h0 where sub: "Subscribe ?org ?agent (henv 0 h) = (h0, ?c)" by (metis prod.collapse)
  have ok: "hub_ok h" "hub_ok (henv 0 h)" "hub_ok h0" "hub_ok (henv 1 h0)" "hub_ok (henv 2 (henv 1 h0))"
    using hub_reachable_ok [OF assms(2)] hub_env_ok assms(3) hub_ok_subscribe [of "henv 0 h" ?org ?agent] sub by auto
  have rev: "IsRevoked ?org ?agent h \<Longrightarrow> IsRevoked ?org ?agent (henv 1 h0)"
  proof -
    have "set (hub_revoked h) \<subseteq> set (hub_revoked (henv 0 h))" "set (hub_revoked h0) \<subseteq> set (hub_revoked (henv 1 h0))"
      using hub_steps_revoked assms(3) ok unfolding hub_env_def by blast+
    moreover have "set (hub_revoked (henv 0 h)) \<subseteq> set (hub_revoked h0)"
      using subscribe_monotone [of "henv 0 h" ?org ?agent] sub by simp
    ultimately show "IsRevoked ?org ?agent h \<Longrightarrow> IsRevoked ?org ?agent (henv 1 h0)" by (auto simp: IsRevoked_def)
  qed
  have leave: "\<exists>h'. events_return ?key ?c d (henv 3 g) out = Some (d, h', out, True) \<and> ?c \<notin> set (hub_subscribers h' ?key)"
    if "hub_ok g" for d g out
    using events_return_some [of "henv 3 g" ?key ?c d out] hub_env_ok assms(3) that by blast
  note run = assms(5) [unfolded events_handler_def, simplified assms(1) sub Let_def sum.case prod.case, simplified]
  show ?thesis
  proof (cases "IsRevoked ?org ?agent (henv 1 h0) \<or> \<not> wr 0")
    case True
    with run leave [OF ok(4), of db "[]"] show ?thesis by (auto simp: stream_output_def)
  next
    case False
    then have norev: "\<not> IsRevoked ?org ?agent h" using rev by blast
    obtain d inbox where inb: "Inbox env es p db = (d, inbox)" by fastforce
    show ?thesis
    proof (cases inbox)
      case (Inl e)
      with False run inb leave [OF ok(4), of d "[ReadyFrame]"] norev show ?thesis by (auto simp: stream_output_def)
    next
      case (Inr ns)
      obtain out wrote where wa: "write_all wr [ReadyFrame] (backlog ns) = (out, wrote)" by fastforce
      obtain h2 out' fin where el: "events_loop wr ?c schedule out (henv 2 (henv 1 h0)) = (h2, out', fin)" by (metis prod.exhaust)
      note shape = write_all_shape [OF wa]
      show ?thesis
      proof (cases wrote)
        case True
        with events_loop_shape [OF el ok(5) assms(4)] shape obtain ev where
          "hub_ok h2" "out' = ReadyFrame # backlog ns @ ev" "ReadyFrame \<notin> set ev" by auto
        with True False Inr inb wa el run leave [of h2 d out'] norev show ?thesis
          by (cases fin) (auto simp: stream_output_def)
      next
        case cut: False
        with False Inr inb wa run leave [OF ok(4), of d out] norev shape show ?thesis by (auto simp: stream_output_def)
      qed
    qed
  qed
qed

lemma hub_env_id [simp]: "hub_env id"
  by (simp add: hub_env_def)

theorem stream_contract_witness:
  "case events_handler (\<lambda>_. True) (\<lambda>_ d. d) (\<lambda>_. calm_inbox) (\<lambda>_. id) [(id, KeepaliveTick), (id, ContextDone)] True
     (demo_auth demo_bob) (demo_http BadJSON) demo_created demo_hub of
     Inl _ \<Rightarrow> False
   | Inr res \<Rightarrow> (\<exists>d h' out returned. res = Some (d, h', out, returned) \<and>
       stream_output (snd (Inbox (\<lambda>_ d. d) (\<lambda>_. calm_inbox) demo_bob demo_created)) out)"
proof -
  let ?run = "events_handler (\<lambda>_. True) (\<lambda>_ d. d) (\<lambda>_. calm_inbox) (\<lambda>_. id) [(id, KeepaliveTick), (id, ContextDone)] True
     (demo_auth demo_bob) (demo_http BadJSON) demo_created demo_hub"
  obtain res where res: "?run = Inr res"
    by (cases "Subscribe ''o'' ''a2'' demo_hub") (simp add: events_handler_def Let_def)
  from stream_contract [OF demo_auth_principal(2) demo_hub_reachable _ _ this] show ?thesis
    unfolding res by fastforce
qed

section \<open>Eviction\<close>

lemma evict_fold:
  "db_up d \<Longrightarrow>
     (let d' = fold (evict_one org) ids d in
      db_up d' \<and> db_clock d' = db_clock d \<and>
      set (smembers (db_clock d) (db_sets d') (revokedAgentsKey org)) =
        set (smembers (db_clock d) (db_sets d) (revokedAgentsKey org)) \<union> set ids \<and>
      set (smembers (db_clock d) (db_sets d') (agentsKey org)) =
        set (smembers (db_clock d) (db_sets d) (agentsKey org)) - set ids \<and>
      (\<forall>a. rget (db_clock d) (db_agents d') (agentKey org a) =
         (if a \<in> set ids then None else rget (db_clock d) (db_agents d) (agentKey org a))))"
proof (induction ids arbitrary: d)
  case (Cons a ids)
  have "revokedAgentsKey org \<noteq> agentsKey org" by simp
  then have one: "db_up (evict_one org a d)" "db_clock (evict_one org a d) = db_clock d"
    "set (smembers (db_clock d) (db_sets (evict_one org a d)) (revokedAgentsKey org)) =
       insert a (set (smembers (db_clock d) (db_sets d) (revokedAgentsKey org)))"
    "set (smembers (db_clock d) (db_sets (evict_one org a d)) (agentsKey org)) =
       set (smembers (db_clock d) (db_sets d) (agentsKey org)) - {a}"
    "rget (db_clock d) (db_agents (evict_one org a d)) (agentKey org b) =
       (if b = a then None else rget (db_clock d) (db_agents d) (agentKey org b))" for b
    using Cons.prems
    by (auto simp: evict_one_def drop_agent_def drop_from_set_def revoke_one_def sadd_def srem_def)
  show ?case using Cons.IH [OF one(1)] one unfolding Let_def by auto
qed (simp add: Let_def)

text \<open>
  Evicting revoked agents cuts them off everywhere. On a hub in any reachable state it does not
  panic; afterwards each of the agents is revoked on the hub and has no stream, whether or not
  Redis answered. When it reports success, each of them is in the tombstone set, is gone from
  the directory and has no presence card, and no other agent's tombstone, directory entry or card
  changed.
\<close>

theorem eviction_cuts_off:
  assumes "hub_next_state\<^sup>*\<^sup>* NewHub h" "TrimSpace org \<noteq> []"
  shows "\<exists>h' d' res. EvictRevokedAgents reply org agentIDs h d = Some (h', d', res) \<and>
    (\<forall>a\<in>set (cleanAgentIDs agentIDs). IsRevoked org a h' \<and> hub_subscribers h' (hub_key org a) = []) \<and>
    (res = Inr () \<longrightarrow>
       (\<forall>a. revoked_in d' org a \<longleftrightarrow> revoked_in d org a \<or> a \<in> set (cleanAgentIDs agentIDs)) \<and>
       (\<forall>a. sismember (db_clock d') (db_sets d') (agentsKey org) a \<longleftrightarrow>
          sismember (db_clock d) (db_sets d) (agentsKey org) a \<and> a \<notin> set (cleanAgentIDs agentIDs)) \<and>
       (\<forall>a. rget (db_clock d') (db_agents d') (agentKey org a) =
          (if a \<in> set (cleanAgentIDs agentIDs) then None else rget (db_clock d) (db_agents d) (agentKey org a))))"
proof -
  let ?ids = "cleanAgentIDs agentIDs"
  from hub_ok_revoke_all [OF hub_reachable_ok [OF assms(1)], of org ?ids] obtain h' where
    h': "revoke_all org ?ids h = Some h'" "hub_ok h'" "\<forall>a\<in>set ?ids. IsRevoked org a h'" by blast
  then have hub: "\<forall>a\<in>set ?ids. IsRevoked org a h' \<and> hub_subscribers h' (hub_key org a) = []"
    by (auto simp: hub_ok_def IsRevoked_def)
  show ?thesis
  proof (cases "?ids = []")
    case True
    then show ?thesis by (simp add: EvictRevokedAgents_def Let_def)
  next
    case False
    then have run: "EvictRevokedAgents reply org agentIDs h d =
        (case evictPresence reply org ?ids d of (d', r) \<Rightarrow> Some (h', d', r))"
      using assms(2) h'(1) by (simp add: EvictRevokedAgents_def Let_def)
    show ?thesis
    proof (cases "db_up d")
      case True
      then show ?thesis using run hub evict_fold [OF True, of org ?ids]
        by (auto simp: evictPresence_def Let_def revoked_in_def sismember_def)
    next
      case False
      then show ?thesis using run hub by (simp add: evictPresence_def)
    qed
  qed
qed

theorem eviction_cuts_off_witness:
  "\<exists>h' d' res. EvictRevokedAgents False ''o'' [''a2''] demo_hub demo_created = Some (h', d', res) \<and> IsRevoked ''o'' ''a2'' h'"
proof -
  have o: "TrimSpace ''o'' \<noteq> []" and ids: "cleanAgentIDs [''a2''] = [''a2'']" by (simp_all add: cleanAgentIDs_def TrimSpace_id IsSpace_def)
  show ?thesis
    using eviction_cuts_off [OF demo_hub_reachable o, of False "[''a2'']" demo_created] unfolding ids by auto
qed

end
