(* ===== verification/Admin_Types.thy ===== *)
theory Admin_Types
  imports Collab_Store
begin

text \<open>
  The administrative side of the relay's database: its records (\<open>internal/store/models.go\<close>), its
  errors (\<open>errors.go\<close>), and the keys and checks of \<open>internal/store/redis.go\<close>.

  \<open>admin_db\<close> extends the database of the collaboration store: both live in one Redis, and the
  tombstones of revoked agents are the one set both use.
\<close>

section \<open>Records\<close>

datatype AdmStatus =
    AdmActive | AdmPending | AdmExpired | AdmUsed | AdmRevoked | AdmStatusOther string

record Organization =
  og_ID :: string
  og_Name :: string
  og_CreatedAt :: time

record Member =
  me_ID :: string
  me_OrganizationID :: string
  me_DisplayName :: string
  me_Email :: string
  me_Role :: Role
  me_Status :: AdmStatus
  me_CreatedAt :: time
  me_RevokedAt :: "time option"

record Device =
  de_ID :: string
  de_OrganizationID :: string
  de_MemberID :: string
  de_AgentID :: string
  de_Name :: string
  de_Runtime :: string
  de_PermissionProfile :: string
  de_Status :: AdmStatus
  de_CreatedAt :: time
  de_LastSeenAt :: "time option"
  de_RevokedAt :: "time option"

record Invite =
  iv_ID :: string
  iv_OrganizationID :: string
  iv_CreatedBy :: string
  iv_MemberID :: string
  iv_DisplayName :: string
  iv_Email :: string
  iv_Status :: AdmStatus
  iv_CreatedAt :: time
  iv_ExpiresAt :: time
  iv_UsedAt :: "time option"
  iv_UsedByMemberID :: string
  iv_RevokedAt :: "time option"

text \<open>The metadata the events carry: none, an expiry, or a runtime and its profile.\<close>

datatype audit_metadata = NoMetadata | ExpiryMetadata time | RuntimeMetadata string string

record AuditEvent =
  ae_ID :: string
  ae_OrganizationID :: string
  ae_ActorMemberID :: string
  ae_ActorDeviceID :: string
  ae_Action :: string
  ae_TargetType :: string
  ae_TargetID :: string
  ae_OccurredAt :: time
  ae_Metadata :: audit_metadata

record BootstrapInput =
  bi_OrganizationName :: string
  bi_AdminDisplayName :: string
  bi_AdminEmail :: string
  bi_AdminTokenHash :: string
  bi_IdempotencyHash :: string
  bi_Now :: time

record BootstrapResult =
  br_Organization :: Organization
  br_Admin :: Member

record RotateAdminCredentialInput =
  ro_NewTokenHash :: string
  ro_IdempotencyHash :: string
  ro_Now :: time

record RotateAdminCredentialResult =
  rr_RotatedAt :: time
  rr_Replayed :: bool

record RevocationResult =
  rv_OrganizationID :: string
  rv_AgentIDs :: "string list"

record CreateInviteInput =
  ci_DisplayName :: string
  ci_Email :: string
  ci_ExistingMemberID :: string
  ci_ExpiresAt :: time
  ci_InviteTokenHash :: string
  ci_Now :: time

record EnrollInput =
  ei_DisplayName :: string
  ei_DeviceName :: string
  ei_Runtime :: string
  ei_PermissionProfile :: string
  ei_DeviceTokenHash :: string
  ei_IdempotencyKeyHash :: string
  ei_Now :: time

record EnrollResult =
  er_Organization :: Organization
  er_Member :: Member
  er_Device :: Device

record credential =
  cd_Kind :: TokenKind
  cd_OrganizationID :: string
  cd_MemberID :: string
  cd_DeviceID :: string
  cd_IssuedAt :: time

record inviteReference =
  ir_OrganizationID :: string
  ir_InviteID :: string

record enrollmentRecord =
  en_InviteTokenHash :: string
  en_RequestHash :: string
  en_DeviceTokenHash :: string
  en_Result :: EnrollResult

record bootstrapRecord =
  bs_IdempotencyHash :: string
  bs_RequestHash :: string
  bs_AdminTokenHash :: string
  bs_Result :: BootstrapResult

record adminRotationRecord =
  an_OrganizationID :: string
  an_MemberID :: string
  an_IdempotencyHash :: string
  an_RequestHash :: string
  an_OldTokenHash :: string
  an_NewTokenHash :: string
  an_RotatedAt :: time

text \<open>\<open>AdmRedis\<close> is an error of the connection, \<open>AdmDecode\<close> of a stored record, \<open>AdmTxFailed\<close> of a retry too many.\<close>

datatype admin_error =
    AdmAlreadyBootstrapped | AdmNotBootstrapped | AdmUnauthorized | AdmForbidden | AdmNotFound | AdmConflict
  | AdmInviteExpired | AdmInviteUsed | AdmInviteRevoked | AdmInvalid | AdmRedis | AdmDecode | AdmTxFailed

section \<open>The database\<close>

text \<open>
  The JSON encodings that are digested are arguments, each on the fields of its anonymous struct.
\<close>

record adminlib = golib +
  json_bootstrap :: "string \<times> string \<times> string \<times> string \<Rightarrow> string"
  json_rotation :: "string \<times> string \<times> string \<Rightarrow> string"
  json_enrollment :: "string \<times> string \<times> string \<times> string \<times> string \<times> string \<Rightarrow> string"

text \<open>
  One map per family of keys; \<open>ad_audit\<close> are the lists under \<open>auditKey\<close>, newest first, with their
  undecodable entries. The tombstones are in \<open>db_sets\<close>, all other sets in \<open>ad_sets\<close>.
\<close>

record admin_db = relay_db +
  ad_complete :: "string option"
  ad_bootrecord :: "bootstrapRecord raw option"
  ad_organizations :: "Organization cells"
  ad_members :: "Member cells"
  ad_devices :: "Device cells"
  ad_invites :: "Invite cells"
  ad_credentials :: "credential cells"
  ad_invitetokens :: "inviteReference cells"
  ad_invitehashes :: "string cells"
  ad_devicehashes :: "string cells"
  ad_rotations :: "adminRotationRecord cells"
  ad_enrollments :: "enrollmentRecord cells"
  ad_sets :: sets
  ad_audit :: "string \<Rightarrow> AuditEvent raw list"

definition maximumAuditEvents :: nat where
  "maximumAuditEvents = 10000"

section \<open>Keys\<close>

definition keyPrefix :: string where
  "keyPrefix = ''team-relay:v1:''"

definition organizationKey :: "string \<Rightarrow> string" where
  "organizationKey org = keyPrefix @ ''org:'' @ org @ '':record''"

definition membersKey :: "string \<Rightarrow> string" where
  "membersKey org = keyPrefix @ ''org:'' @ org @ '':members''"

definition memberKey :: "string \<Rightarrow> string \<Rightarrow> string" where
  "memberKey org member = keyPrefix @ ''org:'' @ org @ '':member:'' @ member"

definition devicesKey :: "string \<Rightarrow> string" where
  "devicesKey org = keyPrefix @ ''org:'' @ org @ '':devices''"

definition deviceKey :: "string \<Rightarrow> string \<Rightarrow> string" where
  "deviceKey org device = keyPrefix @ ''org:'' @ org @ '':device:'' @ device"

definition memberDevicesKey :: "string \<Rightarrow> string \<Rightarrow> string" where
  "memberDevicesKey org member = keyPrefix @ ''org:'' @ org @ '':member:'' @ member @ '':devices''"

definition invitesKey :: "string \<Rightarrow> string" where
  "invitesKey org = keyPrefix @ ''org:'' @ org @ '':invites''"

definition inviteKey :: "string \<Rightarrow> string \<Rightarrow> string" where
  "inviteKey org invite = keyPrefix @ ''org:'' @ org @ '':invite:'' @ invite"

definition memberCredentialsKey :: "string \<Rightarrow> string \<Rightarrow> string" where
  "memberCredentialsKey org member = keyPrefix @ ''org:'' @ org @ '':member:'' @ member @ '':credential_hashes''"

definition deviceCredentialKey :: "string \<Rightarrow> string \<Rightarrow> string" where
  "deviceCredentialKey org device = keyPrefix @ ''org:'' @ org @ '':device:'' @ device @ '':credential_hash''"

definition inviteCredentialKey :: "string \<Rightarrow> string \<Rightarrow> string" where
  "inviteCredentialKey org invite = keyPrefix @ ''org:'' @ org @ '':invite:'' @ invite @ '':credential_hash''"

definition auditKey :: "string \<Rightarrow> string" where
  "auditKey org = keyPrefix @ ''org:'' @ org @ '':audit''"

definition credentialKey :: "string \<Rightarrow> string" where
  "credentialKey hash = keyPrefix @ ''credential:'' @ hash"

definition inviteTokenKey :: "string \<Rightarrow> string" where
  "inviteTokenKey hash = keyPrefix @ ''invite_token:'' @ hash"

definition enrollmentIdempotencyKey :: "string \<Rightarrow> string" where
  "enrollmentIdempotencyKey hash = keyPrefix @ ''enrollment_idempotency:'' @ hash"

definition adminRotationKey :: "string \<Rightarrow> string" where
  "adminRotationKey hash = keyPrefix @ ''admin_rotation:'' @ hash"

section \<open>Checks\<close>

definition hasControl :: "string \<Rightarrow> bool" where
  "hasControl value \<longleftrightarrow> list_ex (\<lambda>c. c < 0x20 \<or> c = 0x7f) (runes value)"

definition adm_validLabel :: "string \<Rightarrow> nat \<Rightarrow> bool" where
  "adm_validLabel value maximum \<longleftrightarrow> value \<noteq> [] \<and> length value \<le> maximum \<and> \<not> hasControl value"

definition validEmail :: "string \<Rightarrow> bool" where
  "validEmail value \<longleftrightarrow> value \<noteq> [] \<and> length value \<le> 254 \<and> Contains value ''@'' \<and> \<not> hasControl value"

definition validPermissionProfile :: "string \<Rightarrow> bool" where
  "validPermissionProfile value \<longleftrightarrow> value \<in> set [''read_only'', ''guarded_write'', ''custom'']"

definition validHash :: "string \<Rightarrow> bool" where
  "validHash value \<longleftrightarrow> \<not> length value \<noteq> 64 \<and> hex_ok value"

definition validID :: "string \<Rightarrow> string \<Rightarrow> bool" where
  "validID value prefix \<longleftrightarrow>
     \<not> (\<not> HasPrefix value prefix \<or> length value \<noteq> length prefix + 32) \<and> hex_ok (drop (length prefix) value)"

definition normalizedTime :: "time \<Rightarrow> time \<Rightarrow> time" where
  "normalizedTime wall value = (if value = zero_time then wall else value)"

definition normalizeEmail :: "('l) golib_scheme \<Rightarrow> string \<Rightarrow> string" where
  "normalizeEmail L value = ToLower L (TrimSpace value)"

text \<open>\<open>readJSON\<close>, when the server answers.\<close>

definition readJSON :: "'a raw option \<Rightarrow> (admin_error, 'a) result" where
  "readJSON x = (case x of None \<Rightarrow> Inl AdmNotFound | Some Junk \<Rightarrow> Inl AdmDecode | Some (Json v) \<Rightarrow> Inr v)"

definition readMember :: "admin_db \<Rightarrow> string \<Rightarrow> string \<Rightarrow> (admin_error, Member) result" where
  "readMember d org member =
     (if \<not> db_up d then Inl AdmRedis else readJSON (rget (db_clock d) (ad_members d) (memberKey org member)))"

definition readDevice :: "admin_db \<Rightarrow> string \<Rightarrow> string \<Rightarrow> (admin_error, Device) result" where
  "readDevice d org device =
     (if \<not> db_up d then Inl AdmRedis else readJSON (rget (db_clock d) (ad_devices d) (deviceKey org device)))"

definition readInvite :: "admin_db \<Rightarrow> string \<Rightarrow> string \<Rightarrow> (admin_error, Invite) result" where
  "readInvite d org invite =
     (if \<not> db_up d then Inl AdmRedis else readJSON (rget (db_clock d) (ad_invites d) (inviteKey org invite)))"

definition readCredential :: "admin_db \<Rightarrow> string \<Rightarrow> (admin_error, credential) result" where
  "readCredential d hash =
     (if \<not> db_up d then Inl AdmRedis else readJSON (rget (db_clock d) (ad_credentials d) (credentialKey hash)))"

definition credential_exists :: "admin_db \<Rightarrow> string \<Rightarrow> bool" where
  "credential_exists d hash \<longleftrightarrow> rget (db_clock d) (ad_credentials d) (credentialKey hash) \<noteq> None"

text \<open>\<open>LPUSH\<close> and \<open>LTRIM\<close>.\<close>

definition push_audit :: "string \<Rightarrow> AuditEvent \<Rightarrow> admin_db \<Rightarrow> admin_db" where
  "push_audit org event d =
     d\<lparr>ad_audit := (ad_audit d)(auditKey org := take maximumAuditEvents (Json event # ad_audit d (auditKey org)))\<rparr>"

definition plain_event :: "string \<Rightarrow> string \<Rightarrow> Principal \<Rightarrow> string \<Rightarrow> string \<Rightarrow> string \<Rightarrow> time \<Rightarrow> AuditEvent" where
  "plain_event eventID org p action targetType targetID now =
     \<lparr>ae_ID = eventID, ae_OrganizationID = org, ae_ActorMemberID = pr_MemberID p, ae_ActorDeviceID = pr_DeviceID p,
      ae_Action = action, ae_TargetType = targetType, ae_TargetID = targetID, ae_OccurredAt = now, ae_Metadata = NoMetadata\<rparr>"

section \<open>Identifiers and keys\<close>

lemma validID_random [simp]: "length bs = 16 \<Longrightarrow> validID (randomID bs prefix) prefix"
  by (simp add: validID_def randomID_def HasPrefix_iff)

lemma validID_length: "validID v p \<Longrightarrow> length v = length p + 32"
  by (simp add: validID_def)

text \<open>Identifiers of one kind have one length, so the keys built from them determine them.\<close>

lemma admin_keys_determine:
  assumes "validID o1 ''org_''" "validID o2 ''org_''"
  shows "memberKey o1 m1 = memberKey o2 m2 \<longleftrightarrow> o1 = o2 \<and> m1 = m2"
    "deviceKey o1 m1 = deviceKey o2 m2 \<longleftrightarrow> o1 = o2 \<and> m1 = m2"
    "inviteKey o1 m1 = inviteKey o2 m2 \<longleftrightarrow> o1 = o2 \<and> m1 = m2"
  using assms [THEN validID_length] by (auto simp: memberKey_def deviceKey_def inviteKey_def)

lemma flat_keys_determine [simp]:
  "credentialKey h1 = credentialKey h2 \<longleftrightarrow> h1 = h2" "inviteTokenKey h1 = inviteTokenKey h2 \<longleftrightarrow> h1 = h2"
  "enrollmentIdempotencyKey h1 = enrollmentIdempotencyKey h2 \<longleftrightarrow> h1 = h2"
  "adminRotationKey h1 = adminRotationKey h2 \<longleftrightarrow> h1 = h2"
  by (simp_all add: credentialKey_def inviteTokenKey_def enrollmentIdempotencyKey_def adminRotationKey_def)

lemma same_org_keys [simp]:
  "memberKey org m1 = memberKey org m2 \<longleftrightarrow> m1 = m2" "deviceKey org m1 = deviceKey org m2 \<longleftrightarrow> m1 = m2"
  "inviteKey org m1 = inviteKey org m2 \<longleftrightarrow> m1 = m2"
  by (simp_all add: memberKey_def deviceKey_def inviteKey_def)

end
