(* ===== verification/Admin_Store.thy ===== *)
theory Admin_Store
  imports Admin_Types
begin

text \<open>
  The administrative store (\<open>RedisStore\<close> of \<open>internal/store/redis.go\<close>), one definition per method.

  As in \<open>Collab_Store\<close>, \<open>env i\<close> is what the other clients do before the i-th command of a call, and
  the attempts of a \<open>Watch\<close> say what they do around it. Inside a \<open>Watch\<close> the watched keys are read
  in the state the attempt starts from, since \<open>EXEC\<close> fails if one of them changed; \<open>see i\<close> gives
  the state in which the i-th of the other reads, or of the reads of a path without writes, is
  answered. \<open>rnd\<close> are the bytes drawn for identifiers and \<open>wall\<close> the caller's clock.
\<close>

type_synonym 'a admin_reply = "admin_db \<times> (admin_error, 'a) result"
type_synonym view_env = "nat \<Rightarrow> admin_db \<Rightarrow> admin_db"

text \<open>The state after the first commands.\<close>

primrec after :: "view_env \<Rightarrow> admin_db \<Rightarrow> nat \<Rightarrow> admin_db" where
  "after env db 0 = env 0 db"
| "after env db (Suc i) = env (Suc i) (after env db i)"

definition IsBootstrapped :: "admin_db \<Rightarrow> (admin_error, bool) result" where
  "IsBootstrapped d = (if \<not> db_up d then Inl AdmRedis else Inr (ad_complete d \<noteq> None))"

definition requireAdmin :: "admin_db \<Rightarrow> Principal \<Rightarrow> (admin_error, unit) result" where
  "requireAdmin d p =
     (if \<not> IsAdmin p \<or> \<not> validID (pr_OrganizationID p) ''org_'' \<or> \<not> validID (pr_MemberID p) ''mem_'' then Inl AdmForbidden
      else case readMember d (pr_OrganizationID p) (pr_MemberID p) of
        Inl e \<Rightarrow> Inl (if e = AdmNotFound then AdmForbidden else e)
      | Inr m \<Rightarrow> if me_Status m \<noteq> AdmActive \<or> me_Role m \<noteq> RoleAdmin then Inl AdmForbidden else Inr ())"

section \<open>Bootstrap\<close>

definition normalize_bootstrap :: "('l) golib_scheme \<Rightarrow> time \<Rightarrow> BootstrapInput \<Rightarrow> BootstrapInput" where
  "normalize_bootstrap L wall i =
     \<lparr>bi_OrganizationName = TrimSpace (bi_OrganizationName i), bi_AdminDisplayName = TrimSpace (bi_AdminDisplayName i),
      bi_AdminEmail = normalizeEmail L (bi_AdminEmail i), bi_AdminTokenHash = ToLower L (bi_AdminTokenHash i),
      bi_IdempotencyHash = ToLower L (bi_IdempotencyHash i), bi_Now = normalizedTime wall (bi_Now i)\<rparr>"

definition bootstrap_result :: "(nat \<Rightarrow> string) \<Rightarrow> BootstrapInput \<Rightarrow> BootstrapResult" where
  "bootstrap_result rnd i =
     (let org = randomID (rnd 0) ''org_'' in
      \<lparr>br_Organization = \<lparr>og_ID = org, og_Name = bi_OrganizationName i, og_CreatedAt = bi_Now i\<rparr>,
       br_Admin = \<lparr>me_ID = randomID (rnd 1) ''mem_'', me_OrganizationID = org, me_DisplayName = bi_AdminDisplayName i,
                   me_Email = bi_AdminEmail i, me_Role = RoleAdmin, me_Status = AdmActive, me_CreatedAt = bi_Now i,
                   me_RevokedAt = None\<rparr>\<rparr>)"

definition bootstrap_commit :: "string \<Rightarrow> bootstrapRecord \<Rightarrow> time \<Rightarrow> admin_db \<Rightarrow> admin_db" where
  "bootstrap_commit eventID r now d =
     (let organization = br_Organization (bs_Result r); member = br_Admin (bs_Result r); org = og_ID organization; clk = db_clock d in
      push_audit org
        \<lparr>ae_ID = eventID, ae_OrganizationID = org, ae_ActorMemberID = me_ID member, ae_ActorDeviceID = [],
         ae_Action = ''organization.bootstrapped'', ae_TargetType = ''organization'', ae_TargetID = org, ae_OccurredAt = now,
         ae_Metadata = NoMetadata\<rparr>
        (d\<lparr>ad_complete := Some org, ad_bootrecord := Some (Json r),
           ad_organizations := rset clk (organizationKey org) organization 0 (ad_organizations d),
           ad_members := rset clk (memberKey org (me_ID member)) member 0 (ad_members d),
           ad_credentials := rset clk (credentialKey (bs_AdminTokenHash r))
             \<lparr>cd_Kind = TokenAdmin, cd_OrganizationID = org, cd_MemberID = me_ID member, cd_DeviceID = [], cd_IssuedAt = now\<rparr> 0
             (ad_credentials d),
           ad_sets := r_sadd clk (memberCredentialsKey org (me_ID member)) (bs_AdminTokenHash r)
             (r_sadd clk (membersKey org) (me_ID member) (ad_sets d))\<rparr>))"

definition bootstrap_view :: "string \<Rightarrow> admin_db \<Rightarrow> string option \<times> bootstrapRecord raw option \<times> credential raw option" where
  "bootstrap_view hash d = (ad_complete d, ad_bootrecord d, rget (db_clock d) (ad_credentials d) (credentialKey hash))"

text \<open>The relay is already bootstrapped: an exact repetition gets the same answer while its credential works.\<close>

definition bootstrap_replay :: "bootstrapRecord \<Rightarrow> view_env \<Rightarrow> admin_db \<Rightarrow> (admin_db, admin_error, BootstrapResult) txn" where
  "bootstrap_replay r see d =
     (let d0 = see 0 d; d1 = see 1 d; d2 = see 2 d in
      if \<not> db_up d0 then TxErr AdmAlreadyBootstrapped
      else case ad_bootrecord d0 of None \<Rightarrow> TxErr AdmAlreadyBootstrapped | Some Junk \<Rightarrow> TxErr AdmAlreadyBootstrapped
      | Some (Json record) \<Rightarrow>
      if bs_IdempotencyHash record \<noteq> bs_IdempotencyHash r \<or> bs_RequestHash record \<noteq> bs_RequestHash r \<or>
         bs_AdminTokenHash record \<noteq> bs_AdminTokenHash r
      then TxErr AdmAlreadyBootstrapped
      else let org = og_ID (br_Organization (bs_Result record)); admin = me_ID (br_Admin (bs_Result record)) in
      case readCredential d1 (bs_AdminTokenHash record) of
        Inl e \<Rightarrow> TxErr (if e = AdmNotFound then AdmConflict else e)
      | Inr current \<Rightarrow>
      if cd_Kind current \<noteq> TokenAdmin \<or> cd_OrganizationID current \<noteq> org \<or> cd_MemberID current \<noteq> admin then TxErr AdmConflict
      else case readMember d2 org admin of
        Inl e \<Rightarrow> TxErr (if e = AdmNotFound then AdmConflict else e)
      | Inr member \<Rightarrow>
      if me_Status member \<noteq> AdmActive \<or> me_Role member \<noteq> RoleAdmin then TxErr AdmConflict
      else TxDone (bs_Result record))"

definition bootstrap_body ::
  "string \<Rightarrow> bootstrapRecord \<Rightarrow> time \<Rightarrow> view_env \<Rightarrow> admin_db attempt \<Rightarrow> admin_db \<Rightarrow> (admin_db, admin_error, BootstrapResult) txn" where
  "bootstrap_body eventID r now see a d =
     (if \<not> db_up d then TxErr AdmRedis
      else if ad_complete d \<noteq> None then bootstrap_replay r see d
      else if credential_exists d (bs_AdminTokenHash r) then TxRetry
      else TxExec (bootstrap_commit eventID r now) (bs_Result r))"

definition Bootstrap ::
  "('l) adminlib_scheme \<Rightarrow> (nat \<Rightarrow> string) \<Rightarrow> time \<Rightarrow> view_env \<Rightarrow> (nat \<Rightarrow> admin_db attempt) \<Rightarrow> BootstrapInput \<Rightarrow>
   admin_db \<Rightarrow> BootstrapResult admin_reply" where
  "Bootstrap L rnd wall see atts input db =
     (let i = normalize_bootstrap L wall input in
      if \<not> adm_validLabel (bi_OrganizationName i) 120 \<or> \<not> adm_validLabel (bi_AdminDisplayName i) 100 \<or>
         \<not> validEmail (bi_AdminEmail i) \<or> \<not> validHash (bi_AdminTokenHash i) \<or> \<not> validHash (bi_IdempotencyHash i)
      then (db, Inl AdmInvalid)
      else let requestHash = sha256_hex L (json_bootstrap L
                 (bi_OrganizationName i, bi_AdminDisplayName i, bi_AdminEmail i, bi_AdminTokenHash i));
               r = \<lparr>bs_IdempotencyHash = bi_IdempotencyHash i, bs_RequestHash = requestHash,
                    bs_AdminTokenHash = bi_AdminTokenHash i, bs_Result = bootstrap_result rnd i\<rparr> in
      watch_loop db_up (bootstrap_view (bi_AdminTokenHash i))
        (bootstrap_body (randomID (rnd 2) ''aud_'') r (bi_Now i) see) AdmRedis AdmTxFailed 5 atts db)"

section \<open>Authentication\<close>

definition admin_principal :: "string \<Rightarrow> credential \<Rightarrow> Member \<Rightarrow> Principal" where
  "admin_principal hash c m =
     \<lparr>pr_OrganizationID = cd_OrganizationID c, pr_MemberID = cd_MemberID c, pr_DeviceID = [], pr_AgentID = [],
      pr_DisplayName = [], pr_DeviceName = [], pr_Runtime = [], pr_PermissionMode = [], pr_CredentialHash = hash,
      pr_Role = me_Role m, pr_TokenKind = cd_Kind c, pr_IssuedAt = cd_IssuedAt c\<rparr>"

text \<open>\<open>d0\<close>, \<open>d1\<close> and \<open>d2\<close> answer the reads of the credential, the member and the device.\<close>

definition Authenticate ::
  "('l) golib_scheme \<Rightarrow> string \<Rightarrow> admin_db \<Rightarrow> admin_db \<Rightarrow> admin_db \<Rightarrow> (admin_error, Principal) result" where
  "Authenticate L rawToken d0 d1 d2 =
     (case Kind token_kinds rawToken of Inl _ \<Rightarrow> Inl AdmUnauthorized | Inr kind \<Rightarrow>
      if kind \<noteq> TokenAdmin \<and> kind \<noteq> TokenDevice then Inl AdmUnauthorized
      else case readCredential d0 (Hash L rawToken) of
        Inl e \<Rightarrow> Inl (if e = AdmRedis then AdmRedis else AdmUnauthorized)
      | Inr record \<Rightarrow>
      if cd_Kind record \<noteq> kind \<or> \<not> validID (cd_OrganizationID record) ''org_'' \<or> \<not> validID (cd_MemberID record) ''mem_''
      then Inl AdmUnauthorized
      else case readMember d1 (cd_OrganizationID record) (cd_MemberID record) of
        Inl e \<Rightarrow> Inl (if e = AdmNotFound then AdmUnauthorized else e)
      | Inr member \<Rightarrow>
      if me_Status member \<noteq> AdmActive then Inl AdmUnauthorized
      else let principal = admin_principal (Hash L rawToken) record member in
      if kind = TokenAdmin then
        (if me_Role member \<noteq> RoleAdmin \<or> cd_DeviceID record \<noteq> [] then Inl AdmUnauthorized else Inr principal)
      else if \<not> validID (cd_DeviceID record) ''dev_'' then Inl AdmUnauthorized
      else case readDevice d2 (cd_OrganizationID record) (cd_DeviceID record) of
        Inl e \<Rightarrow> Inl (if e = AdmNotFound then AdmUnauthorized else e)
      | Inr device \<Rightarrow>
      if de_Status device \<noteq> AdmActive \<or> de_MemberID device \<noteq> me_ID member then Inl AdmUnauthorized
      else Inr (principal\<lparr>pr_DeviceID := de_ID device, pr_AgentID := de_AgentID device, pr_DisplayName := me_DisplayName member,
                          pr_DeviceName := de_Name device, pr_Runtime := de_Runtime device,
                          pr_PermissionMode := de_PermissionProfile device\<rparr>))"

section \<open>Rotating the administrator's credential\<close>

definition rotate_commit :: "string \<Rightarrow> Principal \<Rightarrow> adminRotationRecord \<Rightarrow> admin_db \<Rightarrow> admin_db" where
  "rotate_commit eventID p r d =
     (let org = an_OrganizationID r; clk = db_clock d; hashes = memberCredentialsKey org (an_MemberID r) in
      push_audit org ((plain_event eventID org p ''admin.credential_rotated'' ''member'' (an_MemberID r) (an_RotatedAt r))\<lparr>ae_ActorDeviceID := []\<rparr>)
        (d\<lparr>ad_credentials := rdel (credentialKey (an_OldTokenHash r))
             (rset clk (credentialKey (an_NewTokenHash r))
                \<lparr>cd_Kind = TokenAdmin, cd_OrganizationID = org, cd_MemberID = an_MemberID r, cd_DeviceID = [],
                 cd_IssuedAt = an_RotatedAt r\<rparr> 0 (ad_credentials d)),
           ad_rotations := rset clk (adminRotationKey (an_IdempotencyHash r)) r 0 (ad_rotations d),
           ad_sets := r_srem clk hashes (an_OldTokenHash r) (r_sadd clk hashes (an_NewTokenHash r) (ad_sets d))\<rparr>))"

definition rotate_view :: "adminRotationRecord \<Rightarrow> admin_db \<Rightarrow> credential raw option \<times> credential raw option \<times> adminRotationRecord raw option" where
  "rotate_view r d =
     (rget (db_clock d) (ad_credentials d) (credentialKey (an_OldTokenHash r)),
      rget (db_clock d) (ad_credentials d) (credentialKey (an_NewTokenHash r)),
      rget (db_clock d) (ad_rotations d) (adminRotationKey (an_IdempotencyHash r)))"

definition rotate_body ::
  "string \<Rightarrow> Principal \<Rightarrow> adminRotationRecord \<Rightarrow> admin_db attempt \<Rightarrow> admin_db \<Rightarrow>
   (admin_db, admin_error, RotateAdminCredentialResult) txn" where
  "rotate_body eventID p r a d =
     (if \<not> db_up d then TxErr AdmRedis
      else case readJSON (rget (db_clock d) (ad_rotations d) (adminRotationKey (an_IdempotencyHash r))) of
        Inr existing \<Rightarrow>
          if an_OrganizationID existing \<noteq> an_OrganizationID r \<or> an_MemberID existing \<noteq> an_MemberID r \<or>
             an_IdempotencyHash existing \<noteq> an_IdempotencyHash r \<or> an_RequestHash existing \<noteq> an_RequestHash r \<or>
             an_NewTokenHash existing \<noteq> an_NewTokenHash r
          then TxErr AdmConflict
          else if pr_CredentialHash p \<noteq> an_NewTokenHash existing \<and> pr_CredentialHash p \<noteq> an_OldTokenHash existing
          then TxErr AdmUnauthorized
          else TxDone \<lparr>rr_RotatedAt = an_RotatedAt existing, rr_Replayed = True\<rparr>
      | Inl e \<Rightarrow>
      if e \<noteq> AdmNotFound then TxErr e
      else if pr_CredentialHash p = an_NewTokenHash r then TxErr AdmInvalid
      else case readCredential d (pr_CredentialHash p) of
        Inl e \<Rightarrow> if e \<noteq> AdmNotFound then TxErr e else TxRetry
      | Inr current \<Rightarrow>
      if cd_Kind current \<noteq> TokenAdmin \<or> cd_OrganizationID current \<noteq> an_OrganizationID r \<or> cd_MemberID current \<noteq> an_MemberID r
      then TxRetry
      else if credential_exists d (an_NewTokenHash r) then TxRetry
      else TxExec (rotate_commit eventID p r) \<lparr>rr_RotatedAt = an_RotatedAt r, rr_Replayed = False\<rparr>)"

definition RotateAdminCredential ::
  "('l) adminlib_scheme \<Rightarrow> (nat \<Rightarrow> string) \<Rightarrow> time \<Rightarrow> (admin_db \<Rightarrow> admin_db) \<Rightarrow> (nat \<Rightarrow> admin_db attempt) \<Rightarrow> Principal \<Rightarrow>
   RotateAdminCredentialInput \<Rightarrow> admin_db \<Rightarrow> RotateAdminCredentialResult admin_reply" where
  "RotateAdminCredential L rnd wall env atts p input db =
     (let d0 = env db in
      case requireAdmin d0 p of Inl e \<Rightarrow> (d0, Inl e) | Inr _ \<Rightarrow>
      let now = normalizedTime wall (ro_Now input); newHash = ToLower L (ro_NewTokenHash input);
          idem = ToLower L (ro_IdempotencyHash input) in
      if \<not> validHash (pr_CredentialHash p) \<or> \<not> validHash newHash \<or> \<not> validHash idem then (d0, Inl AdmInvalid)
      else let r = \<lparr>an_OrganizationID = pr_OrganizationID p, an_MemberID = pr_MemberID p, an_IdempotencyHash = idem,
                    an_RequestHash = sha256_hex L (json_rotation L (pr_OrganizationID p, pr_MemberID p, newHash)),
                    an_OldTokenHash = pr_CredentialHash p, an_NewTokenHash = newHash, an_RotatedAt = now\<rparr> in
      watch_loop db_up (rotate_view r) (rotate_body (randomID (rnd 0) ''aud_'') p r) AdmRedis AdmTxFailed 5 atts d0)"

section \<open>Invites\<close>

definition invite_retention :: "time \<Rightarrow> time \<Rightarrow> duration" where
  "invite_retention expiresAt now = (let r = expiresAt + 24 * hour - now in if r \<le> 0 then 24 * hour else r)"

definition create_invite_commit :: "string \<Rightarrow> Principal \<Rightarrow> Invite \<Rightarrow> string \<Rightarrow> time \<Rightarrow> admin_db \<Rightarrow> admin_db" where
  "create_invite_commit eventID p invite hash now d =
     (let org = iv_OrganizationID invite; clk = db_clock d; retention = invite_retention (iv_ExpiresAt invite) now in
      push_audit org ((plain_event eventID org p ''invite.created'' ''invite'' (iv_ID invite) now)
          \<lparr>ae_Metadata := ExpiryMetadata (iv_ExpiresAt invite)\<rparr>)
        (d\<lparr>ad_invites := rset clk (inviteKey org (iv_ID invite)) invite 0 (ad_invites d),
           ad_sets := r_sadd clk (invitesKey org) (iv_ID invite) (ad_sets d),
           ad_invitetokens := rset clk (inviteTokenKey hash) \<lparr>ir_OrganizationID = org, ir_InviteID = iv_ID invite\<rparr> retention
             (ad_invitetokens d),
           ad_invitehashes := rset clk (inviteCredentialKey org (iv_ID invite)) hash retention (ad_invitehashes d)\<rparr>))"

text \<open>\<open>reply\<close> says whether the answer of the pipeline arrives.\<close>

definition CreateInvite ::
  "('l) golib_scheme \<Rightarrow> (nat \<Rightarrow> string) \<Rightarrow> time \<Rightarrow> view_env \<Rightarrow> bool \<Rightarrow> Principal \<Rightarrow> CreateInviteInput \<Rightarrow>
   admin_db \<Rightarrow> Invite admin_reply" where
  "CreateInvite L rnd wall env reply p input db =
     (let d0 = env 0 db in
      case requireAdmin d0 p of Inl e \<Rightarrow> (d0, Inl e) | Inr _ \<Rightarrow>
      let displayName = TrimSpace (ci_DisplayName input); email = normalizeEmail L (ci_Email input);
          member = TrimSpace (ci_ExistingMemberID input); now = normalizedTime wall (ci_Now input);
          hash = ci_InviteTokenHash input; org = pr_OrganizationID p in
      if \<not> validHash hash \<or> \<not> now < ci_ExpiresAt input \<or> (displayName \<noteq> [] \<and> \<not> adm_validLabel displayName 100) \<or>
         (email \<noteq> [] \<and> \<not> validEmail email)
      then (d0, Inl AdmInvalid)
      else if member = [] \<and> displayName = [] \<and> email = [] then (d0, Inl AdmInvalid)
      else if member \<noteq> [] \<and> \<not> validID member ''mem_'' then (d0, Inl AdmInvalid)
      else let d1 = (if member \<noteq> [] then env 1 d0 else d0) in
      case (if member = [] then Inr () else
              case readMember d1 org member of Inl e \<Rightarrow> Inl e
              | Inr m \<Rightarrow> if me_Status m \<noteq> AdmActive then Inl AdmConflict else Inr ()) of
        Inl e \<Rightarrow> (d1, Inl e)
      | Inr _ \<Rightarrow>
      let invite = \<lparr>iv_ID = randomID (rnd 0) ''inv_'', iv_OrganizationID = org, iv_CreatedBy = pr_MemberID p, iv_MemberID = member,
                    iv_DisplayName = displayName, iv_Email = email, iv_Status = AdmPending, iv_CreatedAt = now,
                    iv_ExpiresAt = ci_ExpiresAt input, iv_UsedAt = None, iv_UsedByMemberID = [], iv_RevokedAt = None\<rparr>;
          d2 = env 2 d1 in
      if \<not> db_up d2 then (d2, Inl AdmRedis)
      else (create_invite_commit (randomID (rnd 1) ''aud_'') p invite hash now d2, if reply then Inr invite else Inl AdmRedis))"

definition revoke_invite_commit :: "string \<Rightarrow> Principal \<Rightarrow> Invite \<Rightarrow> string \<Rightarrow> time \<Rightarrow> admin_db \<Rightarrow> admin_db" where
  "revoke_invite_commit eventID p invite inviteID now d =
     (let org = pr_OrganizationID p in
      push_audit org (plain_event eventID org p ''invite.revoked'' ''invite'' (iv_ID invite) now)
        (d\<lparr>ad_invites := rset (db_clock d) (inviteKey org inviteID) invite 0 (ad_invites d),
           ad_invitehashes := rdel (inviteCredentialKey org (iv_ID invite)) (ad_invitehashes d)\<rparr>))"

definition revoke_invite_body ::
  "string \<Rightarrow> Principal \<Rightarrow> string \<Rightarrow> admin_db attempt \<Rightarrow> admin_db \<Rightarrow> (admin_db, admin_error, unit) txn" where
  "revoke_invite_body eventID p inviteID a d =
     (case readInvite d (pr_OrganizationID p) inviteID of Inl e \<Rightarrow> TxErr e | Inr invite \<Rightarrow>
      if iv_Status invite = AdmRevoked then TxDone ()
      else if iv_Status invite = AdmUsed then TxErr AdmConflict
      else TxExec (revoke_invite_commit eventID p (invite\<lparr>iv_Status := AdmRevoked, iv_RevokedAt := Some (att_now a)\<rparr>) inviteID (att_now a)) ())"

definition invite_view :: "string \<Rightarrow> string \<Rightarrow> admin_db \<Rightarrow> Invite raw option" where
  "invite_view org inviteID d = rget (db_clock d) (ad_invites d) (inviteKey org inviteID)"

definition RevokeInvite ::
  "(nat \<Rightarrow> string) \<Rightarrow> (admin_db \<Rightarrow> admin_db) \<Rightarrow> (nat \<Rightarrow> admin_db attempt) \<Rightarrow> Principal \<Rightarrow> string \<Rightarrow> admin_db \<Rightarrow> unit admin_reply" where
  "RevokeInvite rnd env atts p inviteID db =
     (let d0 = env db in
      case requireAdmin d0 p of Inl e \<Rightarrow> (d0, Inl e) | Inr _ \<Rightarrow>
      if \<not> validID inviteID ''inv_'' then (d0, Inl AdmNotFound)
      else watch_loop db_up (invite_view (pr_OrganizationID p) inviteID)
        (revoke_invite_body (randomID (rnd 0) ''aud_'') p inviteID) AdmRedis AdmTxFailed 5 atts d0)"

section \<open>Enrollment\<close>

definition enrollmentRequestHash :: "('l) adminlib_scheme \<Rightarrow> string \<Rightarrow> EnrollInput \<Rightarrow> string" where
  "enrollmentRequestHash L inviteHash i =
     Hash L (json_enrollment L (inviteHash, ei_DisplayName i, ei_DeviceName i, ei_Runtime i, ei_PermissionProfile i, ei_DeviceTokenHash i))"

text \<open>
  \<open>s i\<close> is the state that answers the i-th read: the record, its member, its device, the hash of the
  device's credential and the credential. \<open>None\<close> means that there is no record.
\<close>

definition readEnrollmentRecord ::
  "(nat \<Rightarrow> admin_db) \<Rightarrow> string \<Rightarrow> string \<Rightarrow> string \<Rightarrow> (admin_error, EnrollResult option) result" where
  "readEnrollmentRecord s key inviteHash requestHash =
     (if \<not> db_up (s 0) then Inl AdmRedis
      else case rget (db_clock (s 0)) (ad_enrollments (s 0)) key of None \<Rightarrow> Inr None | Some Junk \<Rightarrow> Inl AdmDecode
      | Some (Json record) \<Rightarrow>
      let result = en_Result record; org = og_ID (er_Organization result); memberID = me_ID (er_Member result);
          deviceID = de_ID (er_Device result) in
      if \<not> validHash (en_InviteTokenHash record) \<or> \<not> validHash (en_RequestHash record) \<or> \<not> validHash (en_DeviceTokenHash record) \<or>
         \<not> validID org ''org_'' \<or> \<not> validID memberID ''mem_'' \<or> \<not> validID deviceID ''dev_''
      then Inl AdmDecode
      else if en_InviteTokenHash record \<noteq> inviteHash \<or> en_RequestHash record \<noteq> requestHash then Inl AdmConflict
      else case readMember (s 1) org memberID of Inl e \<Rightarrow> Inl (if e = AdmNotFound then AdmConflict else e) | Inr member \<Rightarrow>
      if me_Status member \<noteq> AdmActive then Inl AdmConflict
      else case readDevice (s 2) org deviceID of Inl e \<Rightarrow> Inl (if e = AdmNotFound then AdmConflict else e) | Inr device \<Rightarrow>
      if de_Status device \<noteq> AdmActive \<or> de_MemberID device \<noteq> me_ID member then Inl AdmConflict
      else if \<not> db_up (s 3) then Inl AdmRedis
      else if rget (db_clock (s 3)) (ad_devicehashes (s 3)) (deviceCredentialKey org (de_ID device)) \<noteq> Some (Json (en_DeviceTokenHash record))
      then Inl AdmConflict
      else case readCredential (s 4) (en_DeviceTokenHash record) of Inl e \<Rightarrow> Inl (if e = AdmNotFound then AdmConflict else e) | Inr c \<Rightarrow>
      if cd_Kind c \<noteq> TokenDevice \<or> cd_OrganizationID c \<noteq> org \<or> cd_MemberID c \<noteq> me_ID member \<or> cd_DeviceID c \<noteq> de_ID device
      then Inl AdmConflict
      else Inr (Some result))"

definition normalize_enroll :: "('l) golib_scheme \<Rightarrow> time \<Rightarrow> EnrollInput \<Rightarrow> EnrollInput" where
  "normalize_enroll L wall i =
     \<lparr>ei_DisplayName = TrimSpace (ei_DisplayName i), ei_DeviceName = TrimSpace (ei_DeviceName i), ei_Runtime = TrimSpace (ei_Runtime i),
      ei_PermissionProfile = (let p = TrimSpace (ei_PermissionProfile i) in if p = [] then ''read_only'' else p),
      ei_DeviceTokenHash = ToLower L (TrimSpace (ei_DeviceTokenHash i)),
      ei_IdempotencyKeyHash = ToLower L (TrimSpace (ei_IdempotencyKeyHash i)), ei_Now = normalizedTime wall (ei_Now i)\<rparr>"

definition validate_enroll :: "EnrollInput \<Rightarrow> bool" where
  "validate_enroll i \<longleftrightarrow>
     \<not> (\<not> adm_validLabel (ei_DeviceName i) 100 \<or> \<not> adm_validLabel (ei_Runtime i) 128 \<or>
        \<not> validPermissionProfile (ei_PermissionProfile i) \<or> \<not> validHash (ei_DeviceTokenHash i) \<or>
        \<not> validHash (ei_IdempotencyKeyHash i) \<or> (ei_DisplayName i \<noteq> [] \<and> \<not> adm_validLabel (ei_DisplayName i) 100))"

definition enroll_commit ::
  "string \<Rightarrow> inviteReference \<Rightarrow> string \<Rightarrow> string \<Rightarrow> EnrollInput \<Rightarrow> Invite \<Rightarrow> bool \<Rightarrow> EnrollResult \<Rightarrow> admin_db \<Rightarrow> admin_db" where
  "enroll_commit eventID ref inviteHash requestHash i invite newMember result d =
     (let org = iv_OrganizationID invite; member = er_Member result; device = er_Device result; hash = ei_DeviceTokenHash i;
          clk = db_clock d; now = ei_Now i;
          used = invite\<lparr>iv_Status := AdmUsed, iv_UsedAt := Some now, iv_UsedByMemberID := me_ID member\<rparr>;
          sets = (if newMember then r_sadd clk (membersKey org) (me_ID member) (ad_sets d) else ad_sets d) in
      push_audit org
        \<lparr>ae_ID = eventID, ae_OrganizationID = org, ae_ActorMemberID = me_ID member, ae_ActorDeviceID = de_ID device,
         ae_Action = ''device.enrolled'', ae_TargetType = ''device'', ae_TargetID = de_ID device, ae_OccurredAt = now,
         ae_Metadata = RuntimeMetadata (de_Runtime device) (de_PermissionProfile device)\<rparr>
        (d\<lparr>ad_invites := rset clk (inviteKey (ir_OrganizationID ref) (ir_InviteID ref)) used 0 (ad_invites d),
           ad_invitehashes := rdel (inviteCredentialKey org (iv_ID invite)) (ad_invitehashes d),
           ad_members := (if newMember then rset clk (memberKey org (me_ID member)) member 0 (ad_members d) else ad_members d),
           ad_devices := rset clk (deviceKey org (de_ID device)) device 0 (ad_devices d),
           ad_credentials := rset clk (credentialKey hash)
             \<lparr>cd_Kind = TokenDevice, cd_OrganizationID = org, cd_MemberID = me_ID member, cd_DeviceID = de_ID device, cd_IssuedAt = now\<rparr> 0
             (ad_credentials d),
           ad_devicehashes := rset clk (deviceCredentialKey org (de_ID device)) hash 0 (ad_devicehashes d),
           ad_enrollments := rset clk (enrollmentIdempotencyKey (ei_IdempotencyKeyHash i))
             \<lparr>en_InviteTokenHash = inviteHash, en_RequestHash = requestHash, en_DeviceTokenHash = hash, en_Result = result\<rparr> 0
             (ad_enrollments d),
           ad_sets := r_sadd clk (memberCredentialsKey org (me_ID member)) hash
             (r_sadd clk (memberDevicesKey org (me_ID member)) (de_ID device) (r_sadd clk (devicesKey org) (de_ID device) sets))\<rparr>))"

definition enroll_view ::
  "inviteReference \<Rightarrow> string \<Rightarrow> EnrollInput \<Rightarrow> admin_db \<Rightarrow>
   inviteReference raw option \<times> Invite raw option \<times> enrollmentRecord raw option \<times> credential raw option" where
  "enroll_view ref inviteHash i d =
     (rget (db_clock d) (ad_invitetokens d) (inviteTokenKey inviteHash),
      rget (db_clock d) (ad_invites d) (inviteKey (ir_OrganizationID ref) (ir_InviteID ref)),
      rget (db_clock d) (ad_enrollments d) (enrollmentIdempotencyKey (ei_IdempotencyKeyHash i)),
      rget (db_clock d) (ad_credentials d) (credentialKey (ei_DeviceTokenHash i)))"

text \<open>The member the invite is for: a new one, or the active one it names.\<close>

definition enroll_member :: "string \<Rightarrow> EnrollInput \<Rightarrow> Invite \<Rightarrow> admin_db \<Rightarrow> (admin_error, Member) result" where
  "enroll_member memberID i invite d =
     (if iv_MemberID invite = [] then
        Inr \<lparr>me_ID = memberID, me_OrganizationID = iv_OrganizationID invite,
             me_DisplayName = (if iv_DisplayName invite = [] then ei_DisplayName i else iv_DisplayName invite),
             me_Email = iv_Email invite, me_Role = RoleMember, me_Status = AdmActive, me_CreatedAt = ei_Now i, me_RevokedAt = None\<rparr>
      else case readMember d (iv_OrganizationID invite) (iv_MemberID invite) of Inl e \<Rightarrow> Inl e
      | Inr m \<Rightarrow> if me_Status m \<noteq> AdmActive then Inl AdmConflict else Inr m)"

definition enroll_body ::
  "(nat \<Rightarrow> string) \<Rightarrow> inviteReference \<Rightarrow> string \<Rightarrow> string \<Rightarrow> EnrollInput \<Rightarrow> view_env \<Rightarrow> admin_db attempt \<Rightarrow> admin_db \<Rightarrow>
   (admin_db, admin_error, EnrollResult) txn" where
  "enroll_body rnd ref inviteHash requestHash i see a d =
     (case readEnrollmentRecord (\<lambda>n. if n = 0 then d else see n d) (enrollmentIdempotencyKey (ei_IdempotencyKeyHash i)) inviteHash requestHash of
        Inl e \<Rightarrow> TxErr e
      | Inr (Some existing) \<Rightarrow> TxDone existing
      | Inr None \<Rightarrow>
      case rget (db_clock d) (ad_invitetokens d) (inviteTokenKey inviteHash) of None \<Rightarrow> TxErr AdmUnauthorized | Some current \<Rightarrow>
      if current \<noteq> Json ref then TxErr AdmUnauthorized
      else case readInvite d (ir_OrganizationID ref) (ir_InviteID ref) of Inl e \<Rightarrow> TxErr e | Inr invite \<Rightarrow>
      if iv_Status invite = AdmUsed then TxErr AdmInviteUsed
      else if iv_Status invite = AdmRevoked then TxErr AdmInviteRevoked
      else if iv_Status invite \<noteq> AdmPending then TxErr AdmUnauthorized
      else if \<not> ei_Now i < iv_ExpiresAt invite then TxErr AdmInviteExpired
      else if credential_exists d (ei_DeviceTokenHash i) then TxErr AdmConflict
      else let o' = see 5 d; m' = see 6 d in
      if \<not> db_up o' then TxErr AdmRedis
      else case readJSON (rget (db_clock o') (ad_organizations o') (organizationKey (iv_OrganizationID invite))) of
        Inl e \<Rightarrow> TxErr e
      | Inr organization \<Rightarrow>
      case enroll_member (randomID (rnd 0) ''mem_'') i invite m' of Inl e \<Rightarrow> TxErr e | Inr member \<Rightarrow>
      if \<not> adm_validLabel (me_DisplayName member) 100 then TxErr AdmInvalid
      else let device = \<lparr>de_ID = randomID (rnd 1) ''dev_'', de_OrganizationID = iv_OrganizationID invite, de_MemberID = me_ID member,
                         de_AgentID = randomID (rnd 2) ''agent_'', de_Name = ei_DeviceName i, de_Runtime = ei_Runtime i,
                         de_PermissionProfile = ei_PermissionProfile i, de_Status = AdmActive, de_CreatedAt = ei_Now i,
                         de_LastSeenAt = None, de_RevokedAt = None\<rparr>;
               result = \<lparr>er_Organization = organization, er_Member = member, er_Device = device\<rparr> in
      TxExec (enroll_commit (randomID (rnd 3) ''aud_'') ref inviteHash requestHash i invite (iv_MemberID invite = []) result) result)"

text \<open>The calls before the loop, the loop, and the last look for a record after a lost race.\<close>

definition Enroll ::
  "('l) adminlib_scheme \<Rightarrow> (nat \<Rightarrow> string) \<Rightarrow> time \<Rightarrow> view_env \<Rightarrow> view_env \<Rightarrow> (nat \<Rightarrow> admin_db attempt) \<Rightarrow> view_env \<Rightarrow>
   string \<Rightarrow> EnrollInput \<Rightarrow> admin_db \<Rightarrow> EnrollResult admin_reply" where
  "Enroll L rnd wall env see atts post rawInviteToken input db =
     (if Kind token_kinds rawInviteToken \<noteq> Inr TokenInvite then (db, Inl AdmUnauthorized)
      else let i = normalize_enroll L wall input in
      if \<not> validate_enroll i then (db, Inl AdmInvalid)
      else let inviteHash = Hash L rawInviteToken; requestHash = enrollmentRequestHash L inviteHash i;
               key = enrollmentIdempotencyKey (ei_IdempotencyKeyHash i); s = after env db in
      case readEnrollmentRecord s key inviteHash requestHash of
        Inl e \<Rightarrow> (s 4, Inl e)
      | Inr (Some result) \<Rightarrow> (s 4, Inr result)
      | Inr None \<Rightarrow>
      if \<not> db_up (s 5) then (s 5, Inl AdmRedis)
      else case rget (db_clock (s 5)) (ad_invitetokens (s 5)) (inviteTokenKey inviteHash) of
        None \<Rightarrow>
          (s 10, case readEnrollmentRecord (\<lambda>n. s (n + 6)) key inviteHash requestHash of
             Inl e \<Rightarrow> Inl e | Inr (Some result) \<Rightarrow> Inr result | Inr None \<Rightarrow> Inl AdmUnauthorized)
      | Some Junk \<Rightarrow> (s 5, Inl AdmUnauthorized)
      | Some (Json ref) \<Rightarrow>
      if \<not> validID (ir_OrganizationID ref) ''org_'' \<or> \<not> validID (ir_InviteID ref) ''inv_'' then (s 5, Inl AdmUnauthorized)
      else case watch_loop db_up (enroll_view ref inviteHash i) (enroll_body rnd ref inviteHash requestHash i see)
                  AdmRedis AdmTxFailed 5 atts (s 5) of
        (d, Inr result) \<Rightarrow> (d, Inr result)
      | (d, Inl e) \<Rightarrow>
      if e = AdmInviteUsed \<or> e = AdmConflict then
        (after post d 4, case readEnrollmentRecord (after post d) key inviteHash requestHash of
           Inl e' \<Rightarrow> Inl e' | Inr (Some result) \<Rightarrow> Inr result | Inr None \<Rightarrow> Inl e)
      else (d, Inl e))"

section \<open>Revocation\<close>

definition agentIDsFromDevices :: "Device list \<Rightarrow> string list" where
  "agentIDsFromDevices devices = sort (remdups (filter (\<lambda>a. a \<noteq> []) (map de_AgentID devices)))"

text \<open>The devices read one by one; \<open>s i\<close> answers the i-th read.\<close>

fun read_devices :: "(nat \<Rightarrow> admin_db) \<Rightarrow> string \<Rightarrow> string list \<Rightarrow> (admin_error, Device list) result" where
  "read_devices s org [] = Inr []"
| "read_devices s org (i # ids) =
     (case readDevice (s 0) org i of
        Inl e \<Rightarrow> if e = AdmNotFound then read_devices (\<lambda>n. s (Suc n)) org ids else Inl e
      | Inr device \<Rightarrow>
         (case read_devices (\<lambda>n. s (Suc n)) org ids of Inl e \<Rightarrow> Inl e | Inr ds \<Rightarrow> Inr (device # ds)))"

definition revoke_device_record :: "string \<Rightarrow> Device \<Rightarrow> admin_db \<Rightarrow> admin_db" where
  "revoke_device_record org device d =
     d\<lparr>ad_devices := rset (db_clock d) (deviceKey org (de_ID device)) device 0 (ad_devices d),
       ad_devicehashes := rdel (deviceCredentialKey org (de_ID device)) (ad_devicehashes d)\<rparr>"

definition revoke_member_commit ::
  "string \<Rightarrow> Principal \<Rightarrow> string \<Rightarrow> Member \<Rightarrow> Device list \<Rightarrow> string list \<Rightarrow> time \<Rightarrow> admin_db \<Rightarrow> admin_db" where
  "revoke_member_commit eventID p memberID member devices hashes now d =
     (let org = pr_OrganizationID p;
          revoked = map (\<lambda>x. x\<lparr>de_Status := AdmRevoked, de_RevokedAt := Some now\<rparr>) devices;
          d1 = addRevokedAgentTombstones org (agentIDsFromDevices devices)
                 (d\<lparr>ad_members := rset (db_clock d) (memberKey org memberID)
                      (member\<lparr>me_Status := AdmRevoked, me_RevokedAt := Some now\<rparr>) 0 (ad_members d)\<rparr>);
          d2 = d1\<lparr>ad_credentials := fold (\<lambda>h. rdel (credentialKey h)) hashes (ad_credentials d1)\<rparr>;
          d3 = fold (revoke_device_record org) revoked d2;
          d4 = d3\<lparr>ad_sets := (ad_sets d3)(memberCredentialsKey org memberID := None)\<rparr> in
      push_audit org (plain_event eventID org p ''member.revoked'' ''member'' (me_ID member) now) d4)"

definition member_view :: "string \<Rightarrow> string \<Rightarrow> admin_db \<Rightarrow> Member raw option" where
  "member_view org memberID d = rget (db_clock d) (ad_members d) (memberKey org memberID)"

text \<open>Only the member's own key is watched: the sets and the devices are read on the side.\<close>

definition revoke_member_body ::
  "string \<Rightarrow> Principal \<Rightarrow> string \<Rightarrow> view_env \<Rightarrow> admin_db attempt \<Rightarrow> admin_db \<Rightarrow> (admin_db, admin_error, RevocationResult) txn" where
  "revoke_member_body eventID p memberID see a d =
     (let org = pr_OrganizationID p; s0 = see 0 d; s1 = see 1 d in
      case readMember d org memberID of Inl e \<Rightarrow> TxErr e | Inr member \<Rightarrow>
      if \<not> db_up s0 \<or> \<not> db_up s1 then TxErr AdmRedis
      else let deviceIDs = smembers (db_clock s0) (ad_sets s0) (memberDevicesKey org memberID);
               hashes = smembers (db_clock s1) (ad_sets s1) (memberCredentialsKey org memberID) in
      case read_devices (\<lambda>n. see (n + 2) d) org deviceIDs of Inl e \<Rightarrow> TxErr e | Inr devices \<Rightarrow>
      let agents = agentIDsFromDevices devices; result = \<lparr>rv_OrganizationID = org, rv_AgentIDs = agents\<rparr> in
      if me_Status member = AdmRevoked then TxExec (addRevokedAgentTombstones org agents) result
      else TxExec (revoke_member_commit eventID p memberID member devices hashes (att_now a)) result)"

definition RevokeMember ::
  "(nat \<Rightarrow> string) \<Rightarrow> (admin_db \<Rightarrow> admin_db) \<Rightarrow> view_env \<Rightarrow> (nat \<Rightarrow> admin_db attempt) \<Rightarrow> Principal \<Rightarrow> string \<Rightarrow>
   admin_db \<Rightarrow> RevocationResult admin_reply" where
  "RevokeMember rnd env see atts p memberID db =
     (let d0 = env db in
      case requireAdmin d0 p of Inl e \<Rightarrow> (d0, Inl e) | Inr _ \<Rightarrow>
      if \<not> validID memberID ''mem_'' then (d0, Inl AdmNotFound)
      else if memberID = pr_MemberID p then (d0, Inl AdmConflict)
      else watch_loop db_up (member_view (pr_OrganizationID p) memberID)
        (revoke_member_body (randomID (rnd 0) ''aud_'') p memberID see) AdmRedis AdmTxFailed 5 atts d0)"

definition revoke_device_commit :: "string \<Rightarrow> Principal \<Rightarrow> string \<Rightarrow> Device \<Rightarrow> string \<Rightarrow> time \<Rightarrow> admin_db \<Rightarrow> admin_db" where
  "revoke_device_commit eventID p deviceID device hash now d =
     (let org = pr_OrganizationID p;
          d1 = addRevokedAgentTombstones org [de_AgentID device]
                 (d\<lparr>ad_devices := rset (db_clock d) (deviceKey org deviceID) (device\<lparr>de_Status := AdmRevoked, de_RevokedAt := Some now\<rparr>) 0
                      (ad_devices d)\<rparr>);
          d2 = (if hash \<noteq> [] then
                  d1\<lparr>ad_credentials := rdel (credentialKey hash) (ad_credentials d1),
                     ad_sets := r_srem (db_clock d1) (memberCredentialsKey org (de_MemberID device)) hash (ad_sets d1)\<rparr> else d1);
          d3 = d2\<lparr>ad_devicehashes := rdel (deviceCredentialKey org (de_ID device)) (ad_devicehashes d2)\<rparr> in
      push_audit org (plain_event eventID org p ''device.revoked'' ''device'' (de_ID device) now) d3)"

definition device_view :: "string \<Rightarrow> string \<Rightarrow> admin_db \<Rightarrow> Device raw option \<times> string raw option" where
  "device_view org deviceID d =
     (rget (db_clock d) (ad_devices d) (deviceKey org deviceID), rget (db_clock d) (ad_devicehashes d) (deviceCredentialKey org deviceID))"

text \<open>The hash is stored as a plain string, so its read does not decode anything.\<close>

definition plain_string :: "string raw option \<Rightarrow> string" where
  "plain_string x = (case x of Some (Json s) \<Rightarrow> s | _ \<Rightarrow> [])"

definition revoke_device_body ::
  "string \<Rightarrow> Principal \<Rightarrow> string \<Rightarrow> admin_db attempt \<Rightarrow> admin_db \<Rightarrow> (admin_db, admin_error, RevocationResult) txn" where
  "revoke_device_body eventID p deviceID a d =
     (let org = pr_OrganizationID p in
      case readDevice d org deviceID of Inl e \<Rightarrow> TxErr e | Inr device \<Rightarrow>
      let result = \<lparr>rv_OrganizationID = org, rv_AgentIDs = [de_AgentID device]\<rparr> in
      if de_Status device = AdmRevoked then TxExec (addRevokedAgentTombstones org [de_AgentID device]) result
      else TxExec (revoke_device_commit eventID p deviceID device
             (plain_string (rget (db_clock d) (ad_devicehashes d) (deviceCredentialKey org (de_ID device)))) (att_now a)) result)"

definition RevokeDevice ::
  "(nat \<Rightarrow> string) \<Rightarrow> (admin_db \<Rightarrow> admin_db) \<Rightarrow> (nat \<Rightarrow> admin_db attempt) \<Rightarrow> Principal \<Rightarrow> string \<Rightarrow>
   admin_db \<Rightarrow> RevocationResult admin_reply" where
  "RevokeDevice rnd env atts p deviceID db =
     (let d0 = env db in
      case requireAdmin d0 p of Inl e \<Rightarrow> (d0, Inl e) | Inr _ \<Rightarrow>
      if \<not> validID deviceID ''dev_'' then (d0, Inl AdmNotFound)
      else watch_loop db_up (device_view (pr_OrganizationID p) deviceID)
        (revoke_device_body (randomID (rnd 0) ''aud_'') p deviceID) AdmRedis AdmTxFailed 5 atts d0)"

section \<open>Listings\<close>

text \<open>The loop the listings share: a record that is gone is skipped, any other error ends it.\<close>

fun read_each :: "(admin_db \<Rightarrow> string \<Rightarrow> (admin_error, 'a) result) \<Rightarrow> (nat \<Rightarrow> admin_db) \<Rightarrow> string list \<Rightarrow> (admin_error, 'a list) result" where
  "read_each read s [] = Inr []"
| "read_each read s (i # ids) =
     (case read (s 0) i of
        Inl e \<Rightarrow> if e = AdmNotFound then read_each read (\<lambda>n. s (Suc n)) ids else Inl e
      | Inr x \<Rightarrow> (case read_each read (\<lambda>n. s (Suc n)) ids of Inl e \<Rightarrow> Inl e | Inr xs \<Rightarrow> Inr (x # xs)))"

definition list_set ::
  "string \<Rightarrow> (admin_db \<Rightarrow> string \<Rightarrow> (admin_error, 'a) result) \<Rightarrow> view_env \<Rightarrow> Principal \<Rightarrow> admin_db \<Rightarrow> (admin_error, 'a list) result" where
  "list_set key read env p db =
     (let s = after env db in
      case requireAdmin (s 0) p of Inl e \<Rightarrow> Inl e | Inr _ \<Rightarrow>
      if \<not> db_up (s 1) then Inl AdmRedis
      else read_each read (\<lambda>n. s (n + 2)) (smembers (db_clock (s 1)) (ad_sets (s 1)) key))"

text \<open>\<open>sort.Slice\<close> by time of creation, with ties in the order of the set.\<close>

definition ListMembers :: "view_env \<Rightarrow> Principal \<Rightarrow> admin_db \<Rightarrow> (admin_error, Member list) result" where
  "ListMembers env p db =
     map_sum id (sort_key me_CreatedAt)
       (list_set (membersKey (pr_OrganizationID p)) (\<lambda>d. readMember d (pr_OrganizationID p)) env p db)"

text \<open>A pending invite whose time is over is shown as expired, newest first; \<open>clock\<close> is the caller's.\<close>

definition show_invite :: "time \<Rightarrow> Invite \<Rightarrow> Invite" where
  "show_invite now invite =
     (if iv_Status invite = AdmPending \<and> \<not> now < iv_ExpiresAt invite then invite\<lparr>iv_Status := AdmExpired\<rparr> else invite)"

definition ListInvites :: "time \<Rightarrow> view_env \<Rightarrow> Principal \<Rightarrow> admin_db \<Rightarrow> (admin_error, Invite list) result" where
  "ListInvites clock env p db =
     map_sum id (\<lambda>xs. sort_key (\<lambda>x. - iv_CreatedAt x) (map (show_invite clock) xs))
       (list_set (invitesKey (pr_OrganizationID p)) (\<lambda>d. readInvite d (pr_OrganizationID p)) env p db)"

definition ListDevices :: "view_env \<Rightarrow> Principal \<Rightarrow> string \<Rightarrow> admin_db \<Rightarrow> (admin_error, Device list) result" where
  "ListDevices env p memberID db =
     (let org = pr_OrganizationID p; key = (if memberID = [] then devicesKey org else memberDevicesKey org memberID) in
      case requireAdmin (env 0 db) p of Inl e \<Rightarrow> Inl e | Inr _ \<Rightarrow>
      if memberID \<noteq> [] \<and> \<not> validID memberID ''mem_'' then Inl AdmInvalid
      else map_sum id (sort_key de_CreatedAt) (list_set key (\<lambda>d. readDevice d org) env p db))"

definition ListAuditEvents :: "view_env \<Rightarrow> Principal \<Rightarrow> int \<Rightarrow> admin_db \<Rightarrow> (admin_error, AuditEvent list) result" where
  "ListAuditEvents env p limit db =
     (let org = pr_OrganizationID p; d0 = env 0 db; d1 = env 1 d0;
          n = (let l = (if limit \<le> 0 then 100 else limit) in if l > 500 then 500 else l) in
      case requireAdmin d0 p of Inl e \<Rightarrow> Inl e | Inr _ \<Rightarrow>
      if \<not> db_up d1 then Inl AdmRedis
      else Inr (concat (map (\<lambda>x. case x of Json event \<Rightarrow> if ae_OrganizationID event = org then [event] else [] | Junk \<Rightarrow> [])
                  (take (nat n) (ad_audit d1 (auditKey org))))))"

end
