(* ===== verification/Admin_Protocol.thy ===== *)
theory Admin_Protocol
  imports Admin_Store Collab_Protocol
begin

text \<open>
  The administrative store as a transition system: \<open>admin_step\<close> has one rule per atomic effect on the
  database, the steps of the relay included, and \<open>admin_inv\<close> is what the database keeps true. Every
  operation of the store, however interleaved, is a sequence of such steps.
\<close>

section \<open>The steps\<close>

text \<open>
  Identifiers and invite tokens are drawn at random: the rules that create records ask that their
  keys were never used. The rules with a body are commits: run on the state of the commit,
  and having seen \<open>see\<close> of the keys it does not watch, the body queued the writes \<open>f\<close>.
\<close>

definition device_ok :: "Device \<Rightarrow> bool" where
  "device_ok x \<longleftrightarrow> validID (de_OrganizationID x) ''org_''"

definition member_ok :: "Member \<Rightarrow> bool" where
  "member_ok x \<longleftrightarrow> validID (me_OrganizationID x) ''org_''"

definition invite_ok :: "Invite \<Rightarrow> bool" where
  "invite_ok x \<longleftrightarrow> validID (iv_OrganizationID x) ''org_''"

lemma okI:
  "validID (de_OrganizationID x) ''org_'' \<Longrightarrow> device_ok x" "validID (me_OrganizationID m) ''org_'' \<Longrightarrow> member_ok m"
  "validID (iv_OrganizationID v) ''org_'' \<Longrightarrow> invite_ok v"
  by (simp_all add: device_ok_def member_ok_def invite_ok_def)

lemma ok_update [simp]:
  "device_ok (x\<lparr>de_Status := s, de_RevokedAt := t\<rparr>) = device_ok x" "member_ok (m\<lparr>me_Status := s, me_RevokedAt := t\<rparr>) = member_ok m"
  "invite_ok (v\<lparr>iv_Status := s, iv_RevokedAt := t\<rparr>) = invite_ok v"
  "invite_ok (v\<lparr>iv_Status := s, iv_UsedAt := t, iv_UsedByMemberID := u\<rparr>) = invite_ok v"
  by (simp_all add: device_ok_def member_ok_def invite_ok_def)

text \<open>Cells without deadline, each under the key of the record it holds.\<close>

definition keyed :: "('a \<Rightarrow> string) \<Rightarrow> ('a \<Rightarrow> bool) \<Rightarrow> 'a cells \<Rightarrow> bool" where
  "keyed key ok m \<longleftrightarrow> (\<forall>k v dl. m k = Some (v, dl) \<longrightarrow> dl = None \<and> (\<exists>x. v = Json x \<and> k = key x \<and> ok x))"

abbreviation device_cells :: "Device cells \<Rightarrow> bool" where
  "device_cells \<equiv> keyed (\<lambda>x. deviceKey (de_OrganizationID x) (de_ID x)) device_ok"

abbreviation member_cells :: "Member cells \<Rightarrow> bool" where
  "member_cells \<equiv> keyed (\<lambda>x. memberKey (me_OrganizationID x) (me_ID x)) member_ok"

abbreviation invite_cells :: "Invite cells \<Rightarrow> bool" where
  "invite_cells \<equiv> keyed (\<lambda>x. inviteKey (iv_OrganizationID x) (iv_ID x)) invite_ok"

text \<open>An enrollment record belongs to the one use of its invite.\<close>

definition invite_of :: "admin_db \<Rightarrow> string \<Rightarrow> Invite option" where
  "invite_of d hash =
     (case ad_invitetokens d (inviteTokenKey hash) of
        Some (Json ref, _) \<Rightarrow>
          (case ad_invites d (inviteKey (ir_OrganizationID ref) (ir_InviteID ref)) of Some (Json x, _) \<Rightarrow> Some x | _ \<Rightarrow> None)
      | _ \<Rightarrow> None)"

definition enrollments_ok :: "admin_db \<Rightarrow> bool" where
  "enrollments_ok d \<longleftrightarrow>
     (\<forall>k v dl. ad_enrollments d k = Some (v, dl) \<longrightarrow>
        dl = None \<and> (\<exists>e x. v = Json e \<and> invite_of d (en_InviteTokenHash e) = Some x \<and> iv_Status x = AdmUsed)) \<and>
     (\<forall>k k' e e'. ad_enrollments d k = Some (Json e, None) \<longrightarrow> ad_enrollments d k' = Some (Json e', None) \<longrightarrow>
        en_InviteTokenHash e = en_InviteTokenHash e' \<longrightarrow> en_Result e = en_Result e')"

text \<open>Every token leads to an invite.\<close>

definition tokens_ok :: "admin_db \<Rightarrow> bool" where
  "tokens_ok d \<longleftrightarrow>
     (\<forall>k v dl. ad_invitetokens d k = Some (v, dl) \<longrightarrow>
        (\<exists>ref x. v = Json ref \<and> ad_invites d (inviteKey (ir_OrganizationID ref) (ir_InviteID ref)) = Some (Json x, None)))"

definition bootstrap_ok :: "admin_db \<Rightarrow> bool" where
  "bootstrap_ok d \<longleftrightarrow>
     (case ad_complete d of
        None \<Rightarrow> ad_bootrecord d = None
      | Some org \<Rightarrow> \<exists>r. ad_bootrecord d = Some (Json r) \<and> og_ID (br_Organization (bs_Result r)) = org)"

definition audit_ok :: "admin_db \<Rightarrow> bool" where
  "audit_ok d \<longleftrightarrow> (\<forall>k. length (ad_audit d k) \<le> maximumAuditEvents)"

definition admin_inv :: "admin_db \<Rightarrow> bool" where
  "admin_inv d \<longleftrightarrow>
     device_cells (ad_devices d) \<and> member_cells (ad_members d) \<and> invite_cells (ad_invites d) \<and> enrollments_ok d \<and> tokens_ok d \<and>
     bootstrap_ok d \<and> audit_ok d"

inductive admin_step :: "admin_db \<Rightarrow> admin_db \<Rightarrow> bool" where
  adm_relay: "relay_step (relay_db.truncate d) r \<Longrightarrow> admin_step d (relay_db.extend r (relay_db.more d))"
| adm_bootstrap: "ad_complete d = None \<Longrightarrow> validID org ''org_'' \<Longrightarrow>
    og_ID (br_Organization (bs_Result r)) = org \<Longrightarrow> me_OrganizationID (br_Admin (bs_Result r)) = org \<Longrightarrow>
    ad_members d (memberKey org (me_ID (br_Admin (bs_Result r)))) = None \<Longrightarrow>
    admin_step d (bootstrap_commit eventID r now d)"
| adm_rotate: "rotate_body eventID p r a d = TxExec f x \<Longrightarrow> an_OldTokenHash r = pr_CredentialHash p \<Longrightarrow> admin_step d (f d)"
| adm_invite: "iv_Status invite = AdmPending \<Longrightarrow> invite_ok invite \<Longrightarrow>
    ad_invites d (inviteKey (iv_OrganizationID invite) (iv_ID invite)) = None \<Longrightarrow>
    ad_invitetokens d (inviteTokenKey hash) = None \<Longrightarrow>
    admin_step d (create_invite_commit eventID p invite hash now d)"
| adm_revoke_invite: "validID (pr_OrganizationID p) ''org_'' \<Longrightarrow>
    revoke_invite_body eventID p inviteID a d = TxExec f x \<Longrightarrow> admin_step d (f d)"
| adm_enroll: "enroll_body rnd ref inviteHash requestHash i see a d = TxExec f x \<Longrightarrow> validID (ir_OrganizationID ref) ''org_'' \<Longrightarrow>
    ad_devices d (deviceKey (ir_OrganizationID ref) (randomID (rnd 1) ''dev_'')) = None \<Longrightarrow>
    ad_members d (memberKey (ir_OrganizationID ref) (randomID (rnd 0) ''mem_'')) = None \<Longrightarrow> admin_step d (f d)"
| adm_revoke_member: "validID (pr_OrganizationID p) ''org_'' \<Longrightarrow> (\<And>n. device_cells (ad_devices (see n d))) \<Longrightarrow>
    revoke_member_body eventID p memberID see a d = TxExec f x \<Longrightarrow> admin_step d (f d)"
| adm_revoke_device: "validID (pr_OrganizationID p) ''org_'' \<Longrightarrow>
    revoke_device_body eventID p deviceID a d = TxExec f x \<Longrightarrow> admin_step d (f d)"

abbreviation admin_steps :: "admin_db \<Rightarrow> admin_db \<Rightarrow> bool" where
  "admin_steps \<equiv> admin_step\<^sup>*\<^sup>*"

section \<open>Helpers\<close>

lemma keyedD: "keyed key ok m \<Longrightarrow> m k = Some (v, dl) \<Longrightarrow> dl = None \<and> (\<exists>x. v = Json x \<and> k = key x \<and> ok x)"
  unfolding keyed_def by blast

lemma keyed_rset: "keyed key ok m \<Longrightarrow> ok x \<Longrightarrow> k = key x \<Longrightarrow> keyed key ok (rset clk k x 0 m)"
  by (auto simp: keyed_def rset_def)

lemma keyed_rget: "keyed key ok m \<Longrightarrow> rget clk m k = Some v \<Longrightarrow> \<exists>x. v = Json x \<and> k = key x \<and> ok x \<and> m k = Some (Json x, None)"
  by (auto simp: rget_def dest: keyedD split: option.splits if_splits)

lemma keyed_cell_read: "keyed key ok m \<Longrightarrow> m k = Some c \<Longrightarrow> rget clk m k = Some (fst c)"
  by (cases c) (auto simp: rget_def expired_at_def dest: keyedD)

lemma readJSON_Inr [simp]: "readJSON v = Inr x \<longleftrightarrow> v = Some (Json x)"
  by (auto simp: readJSON_def split: option.splits raw.splits)

lemma read_record [simp]:
  "readDevice d org i = Inr x \<longleftrightarrow> db_up d \<and> rget (db_clock d) (ad_devices d) (deviceKey org i) = Some (Json x)"
  "readMember d org i = Inr m \<longleftrightarrow> db_up d \<and> rget (db_clock d) (ad_members d) (memberKey org i) = Some (Json m)"
  "readInvite d org i = Inr v \<longleftrightarrow> db_up d \<and> rget (db_clock d) (ad_invites d) (inviteKey org i) = Some (Json v)"
  "readCredential d h = Inr c \<longleftrightarrow> db_up d \<and> rget (db_clock d) (ad_credentials d) (credentialKey h) = Some (Json c)"
  by (auto simp: readDevice_def readMember_def readInvite_def readCredential_def)

lemma push_audit_fields [simp]:
  "db_clock (push_audit org e d) = db_clock d" "db_up (push_audit org e d) = db_up d" "db_sets (push_audit org e d) = db_sets d"
  "ad_complete (push_audit org e d) = ad_complete d" "ad_bootrecord (push_audit org e d) = ad_bootrecord d"
  "ad_members (push_audit org e d) = ad_members d" "ad_devices (push_audit org e d) = ad_devices d"
  "ad_invites (push_audit org e d) = ad_invites d" "ad_credentials (push_audit org e d) = ad_credentials d"
  "ad_invitetokens (push_audit org e d) = ad_invitetokens d" "ad_devicehashes (push_audit org e d) = ad_devicehashes d"
  "ad_enrollments (push_audit org e d) = ad_enrollments d" "ad_rotations (push_audit org e d) = ad_rotations d"
  "ad_organizations (push_audit org e d) = ad_organizations d" "ad_sets (push_audit org e d) = ad_sets d"
  "relay_db.truncate (push_audit org e d) = relay_db.truncate d"
  by (simp_all add: push_audit_def relay_db.defs)

lemma push_audit_ok: "audit_ok d \<Longrightarrow> audit_ok (push_audit org e d)"
  by (auto simp: audit_ok_def push_audit_def)

lemma tombstone_fields [simp]:
  "addRevokedAgentTombstones org xs d =
     d\<lparr>db_sets := fold (r_sadd (db_clock d) (revokedAgentsKey org)) (filter (\<lambda>a. TrimSpace a \<noteq> []) xs) (db_sets d)\<rparr>"
proof -
  have "fold (revoke_one org) ys d = d\<lparr>db_sets := fold (r_sadd (db_clock d) (revokedAgentsKey org)) ys (db_sets d)\<rparr>" for ys
    by (induction ys arbitrary: d) (simp_all add: revoke_one_def)
  then show ?thesis by (simp add: addRevokedAgentTombstones_def)
qed

lemma revoke_devices_fields [simp]:
  "fold (revoke_device_record org) xs d =
     d\<lparr>ad_devices := fold (\<lambda>x. rset (db_clock d) (deviceKey org (de_ID x)) x 0) xs (ad_devices d),
       ad_devicehashes := fold (\<lambda>x. rdel (deviceCredentialKey org (de_ID x))) xs (ad_devicehashes d)\<rparr>"
  by (induction xs arbitrary: d) (simp_all add: revoke_device_record_def)

section \<open>The invariant\<close>

lemma relay_extend_fields [simp]:
  "ad_complete (relay_db.extend r (relay_db.more d)) = ad_complete d" "ad_bootrecord (relay_db.extend r (relay_db.more d)) = ad_bootrecord d"
  "ad_members (relay_db.extend r (relay_db.more d)) = ad_members d" "ad_devices (relay_db.extend r (relay_db.more d)) = ad_devices d"
  "ad_invites (relay_db.extend r (relay_db.more d)) = ad_invites d" "ad_credentials (relay_db.extend r (relay_db.more d)) = ad_credentials d"
  "ad_invitetokens (relay_db.extend r (relay_db.more d)) = ad_invitetokens d"
  "ad_enrollments (relay_db.extend r (relay_db.more d)) = ad_enrollments d" "ad_audit (relay_db.extend r (relay_db.more d)) = ad_audit d"
  "relay_db.truncate (relay_db.extend r (relay_db.more d)) = r"
  for d :: admin_db
  by (cases d; simp add: relay_db.defs)+

text \<open>A record read under the identifiers of its key carries them.\<close>

lemma device_read:
  assumes "device_cells m" "validID org ''org_''" "rget clk m (deviceKey org i) = Some (Json x)"
  shows "device_ok x \<and> de_OrganizationID x = org \<and> de_ID x = i \<and> m (deviceKey org i) = Some (Json x, None)"
  using keyed_rget [OF assms(1,3)] admin_keys_determine(2) [OF assms(2)] by (auto simp: device_ok_def)

lemma member_read:
  assumes "member_cells m" "validID org ''org_''" "rget clk m (memberKey org i) = Some (Json x)"
  shows "member_ok x \<and> me_OrganizationID x = org \<and> me_ID x = i \<and> m (memberKey org i) = Some (Json x, None)"
  using keyed_rget [OF assms(1,3)] admin_keys_determine(1) [OF assms(2)] by (auto simp: member_ok_def)

lemma invite_read:
  assumes "invite_cells m" "validID org ''org_''" "rget clk m (inviteKey org i) = Some (Json x)"
  shows "invite_ok x \<and> iv_OrganizationID x = org \<and> iv_ID x = i \<and> m (inviteKey org i) = Some (Json x, None)"
  using keyed_rget [OF assms(1,3)] admin_keys_determine(3) [OF assms(2)] by (auto simp: invite_ok_def)

lemma read_devices_keyed:
  "read_devices s org ids = Inr xs \<Longrightarrow> (\<And>n. device_cells (ad_devices (s n))) \<Longrightarrow> validID org ''org_'' \<Longrightarrow> x \<in> set xs \<Longrightarrow>
   device_ok x \<and> de_OrganizationID x = org \<and> de_ID x \<in> set ids"
proof (induction ids arbitrary: s xs)
  case (Cons i ids)
  have hd: "device_ok y \<and> de_OrganizationID y = org \<and> de_ID y = i" if "readDevice (s 0) org i = Inr y" for y
    using that by (auto dest!: device_read [OF Cons.prems(2,3)])
  have tl: "device_ok x \<and> de_OrganizationID x = org \<and> de_ID x \<in> set ids"
    if "read_devices (\<lambda>n. s (Suc n)) org ids = Inr ys" "x \<in> set ys" for ys
    using Cons.IH [OF that(1) _ Cons.prems(3) that(2)] Cons.prems(2) by blast
  show ?case using Cons.prems(1,4) hd tl by (fastforce split: sum.splits if_splits)
qed simp

lemma fold_rset_keyed:
  "keyed key ok m \<Longrightarrow> (\<And>x. x \<in> set xs \<Longrightarrow> ok x \<and> k x = key x) \<Longrightarrow> keyed key ok (fold (\<lambda>x. rset clk (k x) x 0) xs m)"
  by (induction xs arbitrary: m) (auto intro: keyed_rset)

text \<open>What the bodies queue, and what they had read.\<close>

lemma rotate_body_ExecD:
  assumes "rotate_body eventID p r a d = TxExec f x"
  shows "f = rotate_commit eventID p r \<and> db_up d \<and> \<not> rr_Replayed x \<and> rr_RotatedAt x = an_RotatedAt r \<and>
    \<not> credential_exists d (an_NewTokenHash r) \<and> pr_CredentialHash p \<noteq> an_NewTokenHash r"
  using assms by (auto simp: rotate_body_def split: if_splits sum.splits)

lemma revoke_invite_body_ExecD:
  assumes "revoke_invite_body eventID p inviteID a d = TxExec f x"
  obtains invite where "readInvite d (pr_OrganizationID p) inviteID = Inr invite" "iv_Status invite \<noteq> AdmUsed" "iv_Status invite \<noteq> AdmRevoked"
    "f = revoke_invite_commit eventID p (invite\<lparr>iv_Status := AdmRevoked, iv_RevokedAt := Some (att_now a)\<rparr>) inviteID (att_now a)"
  using assms by (auto simp: revoke_invite_body_def split: if_splits sum.splits)

lemma readEnrollmentRecord_None:
  "readEnrollmentRecord s key h rh = Inr None \<longleftrightarrow> db_up (s 0) \<and> rget (db_clock (s 0)) (ad_enrollments (s 0)) key = None"
  by (auto simp: readEnrollmentRecord_def Let_def split: option.splits raw.splits sum.splits if_splits)

lemma enroll_body_ExecD:
  assumes "enroll_body rnd ref inviteHash requestHash i see a d = TxExec f x"
  obtains invite where "db_up d" "rget (db_clock d) (ad_enrollments d) (enrollmentIdempotencyKey (ei_IdempotencyKeyHash i)) = None"
    "rget (db_clock d) (ad_invitetokens d) (inviteTokenKey inviteHash) = Some (Json ref)"
    "readInvite d (ir_OrganizationID ref) (ir_InviteID ref) = Inr invite" "iv_Status invite = AdmPending"
    "ei_Now i < iv_ExpiresAt invite" "\<not> credential_exists d (ei_DeviceTokenHash i)"
    "enroll_member (randomID (rnd 0) ''mem_'') i invite (see 6 d) = Inr (er_Member x)"
    "er_Device x = \<lparr>de_ID = randomID (rnd 1) ''dev_'', de_OrganizationID = iv_OrganizationID invite, de_MemberID = me_ID (er_Member x),
       de_AgentID = randomID (rnd 2) ''agent_'', de_Name = ei_DeviceName i, de_Runtime = ei_Runtime i,
       de_PermissionProfile = ei_PermissionProfile i, de_Status = AdmActive, de_CreatedAt = ei_Now i,
       de_LastSeenAt = None, de_RevokedAt = None\<rparr>"
    "f = enroll_commit (randomID (rnd 3) ''aud_'') ref inviteHash requestHash i invite (iv_MemberID invite = []) x"
proof -
  have rec: "readEnrollmentRecord (\<lambda>n. if n = 0 then d else see n d) (enrollmentIdempotencyKey (ei_IdempotencyKeyHash i)) inviteHash requestHash
    = Inr None" using assms unfolding enroll_body_def by (auto split: sum.splits option.splits)
  obtain invite where inv: "readInvite d (ir_OrganizationID ref) (ir_InviteID ref) = Inr invite"
    using assms unfolding enroll_body_def rec by (auto split: option.splits if_splits sum.splits)
  show thesis
    by (rule that [OF _ _ _ inv]; use assms rec inv in
        \<open>auto simp: enroll_body_def Let_def readEnrollmentRecord_None split: option.splits sum.splits if_splits\<close>)
qed

lemma revoke_device_body_ExecD:
  assumes "revoke_device_body eventID p deviceID a d = TxExec f x"
  obtains device where "readDevice d (pr_OrganizationID p) deviceID = Inr device"
    "x = \<lparr>rv_OrganizationID = pr_OrganizationID p, rv_AgentIDs = [de_AgentID device]\<rparr>"
    "de_Status device = AdmRevoked \<and> f = addRevokedAgentTombstones (pr_OrganizationID p) [de_AgentID device] \<or>
     de_Status device \<noteq> AdmRevoked \<and> f = revoke_device_commit eventID p deviceID device
           (plain_string (rget (db_clock d) (ad_devicehashes d) (deviceCredentialKey (pr_OrganizationID p) (de_ID device)))) (att_now a)"
  using assms by (auto simp: revoke_device_body_def Let_def split: sum.splits if_splits)

lemma revoke_member_body_ExecD:
  assumes "revoke_member_body eventID p memberID see a d = TxExec f x"
  obtains member ids hashes devices where "readMember d (pr_OrganizationID p) memberID = Inr member"
    "read_devices (\<lambda>n. see (n + 2) d) (pr_OrganizationID p) ids = Inr devices"
    "x = \<lparr>rv_OrganizationID = pr_OrganizationID p, rv_AgentIDs = agentIDsFromDevices devices\<rparr>"
    "me_Status member = AdmRevoked \<and> f = addRevokedAgentTombstones (pr_OrganizationID p) (agentIDsFromDevices devices) \<or>
     me_Status member \<noteq> AdmRevoked \<and> f = revoke_member_commit eventID p memberID member devices hashes (att_now a)"
  using assms unfolding revoke_member_body_def by (auto simp del: tombstone_fields simp: Let_def split: sum.splits if_splits)

lemmas commit_defs = bootstrap_commit_def rotate_commit_def create_invite_commit_def revoke_invite_commit_def enroll_commit_def
  revoke_member_commit_def revoke_device_commit_def

lemma enroll_member_ok:
  assumes "enroll_member memberID i invite m' = Inr m"
  shows "iv_MemberID invite = [] \<longrightarrow> me_ID m = memberID \<and> me_OrganizationID m = iv_OrganizationID invite \<and> me_Status m = AdmActive"
  using assms by (auto simp: enroll_member_def)

lemma step_devices: "admin_step d d' \<Longrightarrow> admin_inv d \<Longrightarrow> device_cells (ad_devices d')"
proof (induction rule: admin_step.induct)
  case (adm_enroll rnd ref inviteHash requestHash i see a d f x)
  then show ?case
    by (elim enroll_body_ExecD)
      (auto simp: commit_defs Let_def admin_inv_def dest!: invite_read [rotated 2] intro!: keyed_rset okI)
next
  case (adm_revoke_member p see d eventID memberID a f x)
  have cells: "device_cells (ad_devices d)" using adm_revoke_member.prems by (simp add: admin_inv_def)
  from adm_revoke_member.hyps(3) show ?case
  proof (elim revoke_member_body_ExecD)
    fix member ids hashes devices
    assume rd: "read_devices (\<lambda>n. see (n + 2) d) (pr_OrganizationID p) ids = Inr devices"
      and f: "me_Status member = AdmRevoked \<and> f = addRevokedAgentTombstones (pr_OrganizationID p) (agentIDsFromDevices devices) \<or>
        me_Status member \<noteq> AdmRevoked \<and> f = revoke_member_commit eventID p memberID member devices hashes (att_now a)"
    have "device_ok y \<and> de_OrganizationID y = pr_OrganizationID p" if "y \<in> set devices" for y
      using read_devices_keyed [OF rd adm_revoke_member.hyps(2,1) that] by blast
    then show ?thesis using f cells by (auto simp: commit_defs Let_def intro!: fold_rset_keyed)
  qed
next
  case (adm_revoke_device p eventID deviceID a d f x)
  then show ?case
    by (elim revoke_device_body_ExecD)
      (auto simp: commit_defs Let_def admin_inv_def dest!: device_read [rotated 2] intro!: keyed_rset)
qed (auto simp: admin_inv_def commit_defs Let_def dest!: rotate_body_ExecD elim!: revoke_invite_body_ExecD)

lemma step_members: "admin_step d d' \<Longrightarrow> admin_inv d \<Longrightarrow> member_cells (ad_members d')"
proof (induction rule: admin_step.induct)
  case (adm_enroll rnd ref inviteHash requestHash i see a d f x)
  then show ?case
    by (elim enroll_body_ExecD)
      (auto simp: commit_defs Let_def admin_inv_def dest!: invite_read [rotated 2] enroll_member_ok intro!: keyed_rset okI)
next
  case (adm_revoke_member p see d eventID memberID a f x)
  then show ?case
    by (elim revoke_member_body_ExecD)
      (auto simp: commit_defs Let_def admin_inv_def dest!: member_read [rotated 2] intro!: keyed_rset)
qed (auto simp: admin_inv_def commit_defs Let_def dest!: rotate_body_ExecD intro!: keyed_rset okI
    elim!: revoke_invite_body_ExecD revoke_device_body_ExecD)

lemma step_invites: "admin_step d d' \<Longrightarrow> admin_inv d \<Longrightarrow> invite_cells (ad_invites d')"
proof (induction rule: admin_step.induct)
  case (adm_enroll rnd ref inviteHash requestHash i see a d f x)
  then show ?case
    by (elim enroll_body_ExecD)
      (auto simp: commit_defs Let_def admin_inv_def dest!: invite_read [rotated 2] intro!: keyed_rset)
next
  case (adm_revoke_invite p eventID inviteID a d f x)
  then show ?case
    by (elim revoke_invite_body_ExecD)
      (auto simp: commit_defs Let_def admin_inv_def dest!: invite_read [rotated 2] intro!: keyed_rset)
qed (auto simp: admin_inv_def commit_defs Let_def dest!: rotate_body_ExecD intro!: keyed_rset
    elim!: revoke_device_body_ExecD revoke_member_body_ExecD)

text \<open>The other maps change in a few places only.\<close>

lemmas body_elims = revoke_device_body_ExecD revoke_member_body_ExecD revoke_invite_body_ExecD enroll_body_ExecD

lemma step_untouched:
  assumes "admin_step d d'"
  shows "ad_complete d \<noteq> None \<Longrightarrow> ad_complete d' = ad_complete d \<and> ad_bootrecord d' = ad_bootrecord d"
  using assms
  by (induction rule: admin_step.induct)
    (auto simp: commit_defs Let_def dest!: rotate_body_ExecD elim!: body_elims)

lemma step_bootstrap: "admin_step d d' \<Longrightarrow> admin_inv d \<Longrightarrow> bootstrap_ok d'"
proof (cases "ad_complete d")
  case None
  assume "admin_step d d'" "admin_inv d"
  then have "ad_complete d' = None \<and> ad_bootrecord d' = None \<or> bootstrap_ok d'"
    using None by (induction rule: admin_step.induct)
      (auto simp: admin_inv_def bootstrap_ok_def commit_defs Let_def dest!: rotate_body_ExecD elim!: body_elims)
  then show ?thesis by (auto simp: bootstrap_ok_def)
qed (use step_untouched in \<open>force simp: admin_inv_def bootstrap_ok_def\<close>)

lemma step_audit: "admin_step d d' \<Longrightarrow> admin_inv d \<Longrightarrow> audit_ok d'"
  by (induction rule: admin_step.induct)
    (auto simp: admin_inv_def audit_ok_def push_audit_def commit_defs Let_def dest!: rotate_body_ExecD elim!: body_elims)

lemma rset_cell [simp]:
  "rset clk k x 0 m k' = Some (v, dl) \<longleftrightarrow> (if k' = k then v = Json x \<and> dl = None else m k' = Some (v, dl))"
  by (auto simp: rset_def)

text \<open>Records are never removed, and a used invite never changes.\<close>

lemma invite_stays:
  assumes "admin_step d d'" "admin_inv d" "ad_invites d k = Some (Json x, None)"
  shows "\<exists>x'. ad_invites d' k = Some (Json x', None) \<and> (iv_Status x = AdmUsed \<longrightarrow> x' = x)"
  using assms(1)
proof cases
  case (adm_enroll rnd ref inviteHash requestHash i see a f y)
  with assms(2,3) show ?thesis
    by (cases "k = inviteKey (ir_OrganizationID ref) (ir_InviteID ref)"; elim enroll_body_ExecD)
      (auto simp: commit_defs Let_def admin_inv_def dest!: invite_read [rotated 2])
next
  case (adm_revoke_invite p eventID inviteID a f y)
  with assms(2,3) show ?thesis
    by (cases "k = inviteKey (pr_OrganizationID p) inviteID"; elim revoke_invite_body_ExecD)
      (auto simp: commit_defs Let_def admin_inv_def dest!: invite_read [rotated 2])
qed (use assms(3) in \<open>auto simp: commit_defs Let_def dest!: rotate_body_ExecD
      elim!: revoke_device_body_ExecD revoke_member_body_ExecD\<close>)

lemma step_tokens_cases:
  assumes "admin_step d d'"
  obtains (same) "ad_invitetokens d' = ad_invitetokens d"
  | (create) hash ref ttl x where "ad_invitetokens d (inviteTokenKey hash) = None"
      "ad_invitetokens d' = rset (db_clock d) (inviteTokenKey hash) ref ttl (ad_invitetokens d)"
      "ad_invites d' (inviteKey (ir_OrganizationID ref) (ir_InviteID ref)) = Some (Json x, None)"
  using assms
proof cases
  case (adm_invite invite hash eventID p now)
  then show ?thesis
    by (intro create [of hash "\<lparr>ir_OrganizationID = iv_OrganizationID invite, ir_InviteID = iv_ID invite\<rparr>"
        "invite_retention (iv_ExpiresAt invite) now" invite]) (simp_all add: commit_defs Let_def)
qed (rule same; auto simp: commit_defs Let_def dest!: rotate_body_ExecD elim!: body_elims)+

lemma invite_of_step:
  assumes "admin_step d d'" "admin_inv d" "invite_of d h = Some x"
  shows "\<exists>x'. invite_of d' h = Some x' \<and> (iv_Status x = AdmUsed \<longrightarrow> x' = x)"
proof -
  obtain ref dl where t: "ad_invitetokens d (inviteTokenKey h) = Some (Json ref, dl)"
    "\<exists>dl. ad_invites d (inviteKey (ir_OrganizationID ref) (ir_InviteID ref)) = Some (Json x, dl)"
    using assms(3) by (auto simp: invite_of_def split: option.splits raw.splits prod.splits)
  moreover have "invite_cells (ad_invites d)" using assms(2) by (simp add: admin_inv_def)
  ultimately have "ad_invites d (inviteKey (ir_OrganizationID ref) (ir_InviteID ref)) = Some (Json x, None)"
    by (auto dest: keyedD)
  from invite_stays [OF assms(1,2) this] obtain x' where
    "ad_invites d' (inviteKey (ir_OrganizationID ref) (ir_InviteID ref)) = Some (Json x', None)" "iv_Status x = AdmUsed \<longrightarrow> x' = x" by blast
  moreover have "ad_invitetokens d' (inviteTokenKey h) = Some (Json ref, dl)"
    using assms(1) by (rule step_tokens_cases) (use t(1) in \<open>auto simp: rset_def\<close>)
  ultimately show ?thesis by (auto simp: invite_of_def)
qed

lemma step_tokens:
  assumes "admin_step d d'" "admin_inv d"
  shows "tokens_ok d'"
proof -
  have old: "\<exists>ref x. v = Json ref \<and> ad_invites d' (inviteKey (ir_OrganizationID ref) (ir_InviteID ref)) = Some (Json x, None)"
    if "ad_invitetokens d k = Some (v, dl)" for k v dl
    using assms(2) that invite_stays [OF assms] unfolding admin_inv_def tokens_ok_def by metis
  from assms(1) show ?thesis
  proof (cases rule: step_tokens_cases)
    case (create hash ref ttl x)
    then show ?thesis unfolding tokens_ok_def using old by (auto simp: rset_def)
  qed (use old in \<open>auto simp: tokens_ok_def\<close>)
qed

lemma enrollment_cell:
  "admin_inv d \<Longrightarrow> ad_enrollments d k = Some (v, dl) \<Longrightarrow>
   dl = None \<and> (\<exists>e x. v = Json e \<and> invite_of d (en_InviteTokenHash e) = Some x \<and> iv_Status x = AdmUsed)"
  unfolding admin_inv_def enrollments_ok_def by blast

lemma step_enrollments_cases:
  assumes "admin_step d d'" "admin_inv d"
  obtains (same) "ad_enrollments d' = ad_enrollments d"
  | (enroll) k e x x' where "ad_enrollments d k = None" "ad_enrollments d' = rset (db_clock d) k e 0 (ad_enrollments d)"
      "invite_of d (en_InviteTokenHash e) = Some x" "iv_Status x = AdmPending"
      "invite_of d' (en_InviteTokenHash e) = Some x'" "iv_Status x' = AdmUsed"
  using assms(1)
proof cases
  case (adm_enroll rnd ref inviteHash requestHash i see a f y)
  from adm_enroll(2) show ?thesis
  proof (elim enroll_body_ExecD)
    fix invite
    let ?k = "enrollmentIdempotencyKey (ei_IdempotencyKeyHash i)"
    assume k: "rget (db_clock d) (ad_enrollments d) ?k = None"
      and tok: "rget (db_clock d) (ad_invitetokens d) (inviteTokenKey inviteHash) = Some (Json ref)"
      and inv: "readInvite d (ir_OrganizationID ref) (ir_InviteID ref) = Inr invite" "iv_Status invite = AdmPending"
      and f: "f = enroll_commit (randomID (rnd 3) ''aud_'') ref inviteHash requestHash i invite (iv_MemberID invite = []) y"
    from tok obtain dl where t: "ad_invitetokens d (inviteTokenKey inviteHash) = Some (Json ref, dl)"
      by (auto simp: rget_def split: option.splits prod.splits if_splits)
    have cell: "ad_invites d (inviteKey (ir_OrganizationID ref) (ir_InviteID ref)) = Some (Json invite, None)"
      using inv(1) assms(2) by (auto simp: admin_inv_def dest: invite_read [OF _ adm_enroll(3)])
    have "ad_enrollments d ?k = None"
    proof (rule ccontr)
      assume "ad_enrollments d ?k \<noteq> None"
      then obtain v u where "ad_enrollments d ?k = Some (v, u)" by auto
      with k enrollment_cell [OF assms(2) this] show False by (auto simp: rget_def expired_at_def)
    qed
    then show ?thesis
      by (rule enroll [of _ "\<lparr>en_InviteTokenHash = inviteHash, en_RequestHash = requestHash, en_DeviceTokenHash = ei_DeviceTokenHash i,
            en_Result = y\<rparr>" invite "invite\<lparr>iv_Status := AdmUsed, iv_UsedAt := Some (ei_Now i), iv_UsedByMemberID := me_ID (er_Member y)\<rparr>"])
        (use t cell inv(2) in \<open>simp_all add: adm_enroll(1) f commit_defs Let_def invite_of_def rset_def\<close>)
  qed
qed (rule same; auto simp: commit_defs Let_def dest!: rotate_body_ExecD elim!: body_elims)+

lemma step_enrollments:
  assumes "admin_step d d'" "admin_inv d"
  shows "enrollments_ok d'"
proof -
  have inv: "enrollments_ok d" using assms(2) by (simp add: admin_inv_def)
  have old: "dl = None \<and> (\<exists>e x. v = Json e \<and> invite_of d' (en_InviteTokenHash e) = Some x \<and> iv_Status x = AdmUsed)"
    if "ad_enrollments d k = Some (v, dl)" for k v dl
    using enrollment_cell [OF assms(2) that] invite_of_step [OF assms] by blast
  from assms show ?thesis
  proof (cases rule: step_enrollments_cases)
    case same
    then show ?thesis using inv old unfolding enrollments_ok_def by metis
  next
    case (enroll k e x x')
    have uniq: "en_Result e1 = en_Result e2" if "ad_enrollments d k1 = Some (Json e1, None)" "ad_enrollments d k2 = Some (Json e2, None)"
      "en_InviteTokenHash e1 = en_InviteTokenHash e2" for k1 k2 e1 e2 using inv that unfolding enrollments_ok_def by blast
    have new: "en_InviteTokenHash e0 \<noteq> en_InviteTokenHash e" if "ad_enrollments d k0 = Some (Json e0, None)" for k0 e0
      using inv that enroll(3,4) unfolding enrollments_ok_def by fastforce
    show ?thesis unfolding enrollments_ok_def
    proof (intro conjI allI impI)
      fix k1 v dl
      assume "ad_enrollments d' k1 = Some (v, dl)"
      with enroll old show "dl = None" "\<exists>e x. v = Json e \<and> invite_of d' (en_InviteTokenHash e) = Some x \<and> iv_Status x = AdmUsed"
        by (auto split: if_splits)
    next
      fix k1 k2 e1 e2
      assume "ad_enrollments d' k1 = Some (Json e1, None)" "ad_enrollments d' k2 = Some (Json e2, None)"
        "en_InviteTokenHash e1 = en_InviteTokenHash e2"
      with enroll(2) show "en_Result e1 = en_Result e2"
        by (cases "k1 = k"; cases "k2 = k") (auto dest: uniq new)
    qed
  qed
qed

lemma admin_step_inv: "admin_step d d' \<Longrightarrow> admin_inv d \<Longrightarrow> admin_inv d'"
  using step_devices step_members step_invites step_enrollments step_tokens step_bootstrap step_audit
  unfolding admin_inv_def [of d'] by blast

lemma admin_steps_inv: "admin_steps d d' \<Longrightarrow> admin_inv d \<Longrightarrow> admin_inv d'"
  by (induction rule: rtranclp_induct) (auto intro: admin_step_inv)

section \<open>Revocation is permanent\<close>

lemma revoked_device_step:
  assumes "admin_step d d'" "admin_inv d" "ad_devices d k = Some (Json x, None)" "de_Status x = AdmRevoked"
  shows "\<exists>x'. ad_devices d' k = Some (Json x', None) \<and> de_Status x' = AdmRevoked"
proof -
  have fold: "\<exists>x'. fold (\<lambda>x. rset clk (deviceKey org (de_ID x)) x 0) xs m k = Some (Json x', None) \<and> de_Status x' = AdmRevoked"
    if "\<exists>x'. m k = Some (Json x', None) \<and> de_Status x' = AdmRevoked" "\<forall>y\<in>set xs. de_Status y = AdmRevoked" for clk org xs m
    using that by (induction xs arbitrary: m) (auto simp: rset_def)
  from assms(1) show ?thesis
  proof cases
    case (adm_enroll rnd ref inviteHash requestHash i see a f y)
    with assms show ?thesis
      by (elim enroll_body_ExecD) (auto simp: commit_defs Let_def admin_inv_def dest!: invite_read [rotated 2])
  next
    case (adm_revoke_device p eventID deviceID a f y)
    then show ?thesis using assms(3,4)
      by (cases "k = deviceKey (pr_OrganizationID p) deviceID"; elim revoke_device_body_ExecD) (auto simp: commit_defs Let_def)
  next
    case (adm_revoke_member p see eventID memberID a f y)
    then show ?thesis using assms(3,4)
      by (elim revoke_member_body_ExecD) (auto simp: commit_defs Let_def intro!: fold)
  qed (use assms(3,4) in \<open>auto simp: commit_defs Let_def dest!: rotate_body_ExecD elim!: revoke_invite_body_ExecD\<close>)
qed

lemma revoked_member_step:
  assumes "admin_step d d'" "admin_inv d" "ad_members d k = Some (Json x, None)" "me_Status x = AdmRevoked"
  shows "\<exists>x'. ad_members d' k = Some (Json x', None) \<and> me_Status x' = AdmRevoked"
  using assms(1)
proof cases
  case (adm_enroll rnd ref inviteHash requestHash i see a f y)
  with assms(2-) show ?thesis
    by (elim enroll_body_ExecD) (auto simp: commit_defs Let_def admin_inv_def dest!: invite_read [rotated 2] enroll_member_ok)
next
  case (adm_revoke_member p see eventID memberID a f y)
  then show ?thesis using assms(3,4)
    by (cases "k = memberKey (pr_OrganizationID p) memberID"; elim revoke_member_body_ExecD) (auto simp: commit_defs Let_def)
qed (use assms(3,4) in \<open>auto simp: commit_defs Let_def dest!: rotate_body_ExecD
      elim!: revoke_invite_body_ExecD revoke_device_body_ExecD\<close>)

lemma revoked_stays:
  assumes "admin_steps d d'" "admin_inv d"
  shows "\<exists>x. ad_devices d k = Some (Json x, None) \<and> de_Status x = AdmRevoked \<Longrightarrow>
      \<exists>x. ad_devices d' k = Some (Json x, None) \<and> de_Status x = AdmRevoked"
    "\<exists>m. ad_members d k = Some (Json m, None) \<and> me_Status m = AdmRevoked \<Longrightarrow>
      \<exists>m. ad_members d' k = Some (Json m, None) \<and> me_Status m = AdmRevoked"
  using assms
proof (induction rule: rtranclp_induct)
  case (step y z)
  {
    case 1
    then show ?case using step revoked_device_step admin_steps_inv by metis
  next
    case 2
    then show ?case using step revoked_member_step admin_steps_inv by metis
  }
qed blast+

end
