(* ===== verification/Admin_Refine.thy ===== *)
theory Admin_Refine
  imports Admin_Protocol
begin

text \<open>
  The transactions of the administrative store meet the contract \<open>commits\<close>, and so every operation,
  interleaved with clients that take steps of the store, is a sequence of steps itself.
\<close>

section \<open>The other clients\<close>

text \<open>
  The identifiers and the invite token a call draws are random: nobody else uses them before it
  commits.
\<close>

definition undrawn :: "(nat \<Rightarrow> string) \<Rightarrow> string \<Rightarrow> admin_db \<Rightarrow> bool" where
  "undrawn rnd hash d \<longleftrightarrow>
     ad_invitetokens d (inviteTokenKey hash) = None \<and>
     (\<forall>org n prefix. ad_devices d (deviceKey org (randomID (rnd n) prefix)) = None \<and>
        ad_members d (memberKey org (randomID (rnd n) prefix)) = None \<and>
        ad_invites d (inviteKey org (randomID (rnd n) prefix)) = None)"

definition environment :: "(admin_db \<Rightarrow> bool) \<Rightarrow> (admin_db \<Rightarrow> admin_db) \<Rightarrow> bool" where
  "environment P f \<longleftrightarrow> (\<forall>d. admin_steps d (f d) \<and> (P d \<longrightarrow> P (f d)))"

definition attempts :: "(admin_db \<Rightarrow> bool) \<Rightarrow> (nat \<Rightarrow> admin_db attempt) \<Rightarrow> bool" where
  "attempts P atts \<longleftrightarrow> (\<forall>i. environment P (att_pre (atts i)) \<and> environment P (att_mid (atts i)))"

abbreviation obeys :: "(admin_db \<Rightarrow> admin_db) \<Rightarrow> bool" where
  "obeys \<equiv> environment (\<lambda>_. True)"

lemma environment_weaken: "environment P f \<Longrightarrow> obeys f" "attempts P atts \<Longrightarrow> attempts (\<lambda>_. True) atts"
  by (auto simp: environment_def attempts_def)

lemma environmentD:
  "environment P f \<Longrightarrow> admin_steps d (f d)" "environment P f \<Longrightarrow> P d \<Longrightarrow> P (f d)"
  by (auto simp: environment_def)

lemma environment_id [simp]: "environment P (\<lambda>d. d)" "environment P id" "attempts P (\<lambda>_. calm t)"
  by (simp_all add: environment_def attempts_def calm_def)

lemma after_steps: "(\<And>n. environment P (env n)) \<Longrightarrow> admin_steps db (after env db n)"
  by (induction n) (auto intro: environmentD rtranclp_trans)

lemma after_keeps: "(\<And>n. environment P (env n)) \<Longrightarrow> P db \<Longrightarrow> P (after env db n)"
  by (induction n) (auto intro: environmentD)

section \<open>The transactions meet their contract\<close>

lemma rget_view_read:
  "db_up d \<Longrightarrow> db_up d' \<Longrightarrow> rget (db_clock d') (ad_devices d') (deviceKey o1 i) = rget (db_clock d) (ad_devices d) (deviceKey o1 i) \<Longrightarrow>
     readDevice d' o1 i = readDevice d o1 i"
  "db_up d \<Longrightarrow> db_up d' \<Longrightarrow> rget (db_clock d') (ad_members d') (memberKey o1 i) = rget (db_clock d) (ad_members d) (memberKey o1 i) \<Longrightarrow>
     readMember d' o1 i = readMember d o1 i"
  "db_up d \<Longrightarrow> db_up d' \<Longrightarrow> rget (db_clock d') (ad_invites d') (inviteKey o1 i) = rget (db_clock d) (ad_invites d) (inviteKey o1 i) \<Longrightarrow>
     readInvite d' o1 i = readInvite d o1 i"
  "db_up d \<Longrightarrow> db_up d' \<Longrightarrow> rget (db_clock d') (ad_credentials d') (credentialKey h) = rget (db_clock d) (ad_credentials d) (credentialKey h) \<Longrightarrow>
     readCredential d' h = readCredential d h"
  by (simp_all add: readDevice_def readMember_def readInvite_def readCredential_def)

interpretation rotation: commits db_up "rotate_view (r\<lparr>an_OldTokenHash := pr_CredentialHash p\<rparr>)"
    "rotate_body eventID p (r\<lparr>an_OldTokenHash := pr_CredentialHash p\<rparr>)" admin_step admin_inv for eventID p r
proof unfold_locales
  fix d a f x d'
  let ?r = "r\<lparr>an_OldTokenHash := pr_CredentialHash p\<rparr>"
  assume b: "rotate_body eventID p ?r a d = TxExec f x" and up: "db_up d'" and v: "rotate_view ?r d' = rotate_view ?r d"
  from b have "db_up d" by (auto simp: rotate_body_def split: if_splits)
  with b up v have "rotate_body eventID p ?r a d' = TxExec f x"
    by (simp add: rotate_body_def rotate_view_def rget_view_read [of d d'] credential_exists_def
        cong: sum.case_cong if_cong option.case_cong)
  then show "admin_step d' (f d')" by (rule adm_rotate) simp
qed

interpretation invite_revocation: commits db_up "invite_view (pr_OrganizationID p) inviteID" "revoke_invite_body eventID p inviteID"
    admin_step "\<lambda>d. admin_inv d \<and> validID (pr_OrganizationID p) ''org_''" for eventID p inviteID
proof unfold_locales
  fix d a f x d'
  assume J: "admin_inv d \<and> validID (pr_OrganizationID p) ''org_''" and b: "revoke_invite_body eventID p inviteID a d = TxExec f x"
    and up: "db_up d'" and v: "invite_view (pr_OrganizationID p) inviteID d' = invite_view (pr_OrganizationID p) inviteID d"
  from b have "db_up d" by (auto elim: revoke_invite_body_ExecD)
  with b up v have "revoke_invite_body eventID p inviteID a d' = TxExec f x"
    by (simp add: revoke_invite_body_def invite_view_def rget_view_read [of d d'] cong: sum.case_cong if_cong)
  with J show "admin_step d' (f d')" by (blast intro: adm_revoke_invite)
qed

interpretation device_revocation: commits db_up "device_view (pr_OrganizationID p) deviceID" "revoke_device_body eventID p deviceID"
    admin_step "\<lambda>d. admin_inv d \<and> validID (pr_OrganizationID p) ''org_''" for eventID p deviceID
proof unfold_locales
  fix d a f x d'
  assume J: "admin_inv d \<and> validID (pr_OrganizationID p) ''org_''" and b: "revoke_device_body eventID p deviceID a d = TxExec f x"
    and up: "db_up d'" and v: "device_view (pr_OrganizationID p) deviceID d' = device_view (pr_OrganizationID p) deviceID d"
  from b obtain device where dev: "readDevice d (pr_OrganizationID p) deviceID = Inr device" by (rule revoke_device_body_ExecD)
  with J have "de_ID device = deviceID" by (auto simp: admin_inv_def dest: device_read)
  moreover have "readDevice d' (pr_OrganizationID p) deviceID = Inr device" using dev up v by (simp add: device_view_def)
  ultimately have "revoke_device_body eventID p deviceID a d' = TxExec f x"
    using b v dev by (simp add: revoke_device_body_def device_view_def Let_def del: tombstone_fields read_record split: if_splits)
  with J show "admin_step d' (f d')" by (blast intro: adm_revoke_device)
qed

interpretation member_revocation: commits db_up "member_view (pr_OrganizationID p) memberID" "revoke_member_body eventID p memberID see"
    admin_step "\<lambda>d. admin_inv d \<and> validID (pr_OrganizationID p) ''org_'' \<and> (\<forall>n. admin_inv (see n d))" for eventID p memberID see
proof unfold_locales
  fix d a f x d'
  assume J: "admin_inv d \<and> validID (pr_OrganizationID p) ''org_'' \<and> (\<forall>n. admin_inv (see n d))"
    and b: "revoke_member_body eventID p memberID see a d = TxExec f x"
    and up: "db_up d'" and v: "member_view (pr_OrganizationID p) memberID d' = member_view (pr_OrganizationID p) memberID d"
  from b have "db_up d" by (auto elim: revoke_member_body_ExecD)
  with b up v have "revoke_member_body eventID p memberID (\<lambda>n _. see n d) a d' = TxExec f x"
    by (simp add: revoke_member_body_def member_view_def rget_view_read [of d d'] del: tombstone_fields cong: sum.case_cong if_cong)
  then show "admin_step d' (f d')" by (rule adm_revoke_member [rotated 2]) (use J in \<open>auto simp: admin_inv_def\<close>)
qed

text \<open>The record \<open>Bootstrap\<close> writes.\<close>

definition boot_record :: "adminlib \<Rightarrow> (nat \<Rightarrow> string) \<Rightarrow> time \<Rightarrow> BootstrapInput \<Rightarrow> bootstrapRecord" where
  "boot_record L rnd wall input =
     (let i = normalize_bootstrap L wall input in
      \<lparr>bs_IdempotencyHash = bi_IdempotencyHash i,
       bs_RequestHash = sha256_hex L (json_bootstrap L
         (bi_OrganizationName i, bi_AdminDisplayName i, bi_AdminEmail i, bi_AdminTokenHash i)),
       bs_AdminTokenHash = bi_AdminTokenHash i, bs_Result = bootstrap_result rnd i\<rparr>)"

interpretation bootstrapping: commits db_up "bootstrap_view (bs_AdminTokenHash (boot_record L rnd wall input))"
    "bootstrap_body eventID (boot_record L rnd wall input) now see" admin_step
    "\<lambda>d. admin_inv d \<and> undrawn rnd h d \<and> length (rnd 0) = 16" for L :: adminlib and rnd wall input eventID now see h
proof unfold_locales
  fix d a f x d'
  let ?r = "boot_record L rnd wall input"
  assume J: "admin_inv d' \<and> undrawn rnd h d' \<and> length (rnd 0) = 16" and b: "bootstrap_body eventID ?r now see a d = TxExec f x"
    and v: "bootstrap_view (bs_AdminTokenHash ?r) d' = bootstrap_view (bs_AdminTokenHash ?r) d"
  from b have "f = bootstrap_commit eventID ?r now \<and> ad_complete d = None"
    by (auto simp: bootstrap_body_def bootstrap_replay_def Let_def split: if_splits option.splits raw.splits sum.splits)
  with v J show "admin_step d' (f d')"
    by (auto simp: bootstrap_view_def boot_record_def bootstrap_result_def undrawn_def Let_def intro!: adm_bootstrap)
qed

interpretation enrolling: commits db_up "enroll_view ref inviteHash i" "enroll_body rnd ref inviteHash requestHash i see"
    admin_step "\<lambda>d. admin_inv d \<and> undrawn rnd h d \<and> validID (ir_OrganizationID ref) ''org_''" for rnd ref inviteHash requestHash i see h
proof unfold_locales
  fix d a f x d'
  assume J: "admin_inv d' \<and> undrawn rnd h d' \<and> validID (ir_OrganizationID ref) ''org_''"
    and b: "enroll_body rnd ref inviteHash requestHash i see a d = TxExec f x"
    and up: "db_up d'" and v: "enroll_view ref inviteHash i d' = enroll_view ref inviteHash i d"
  from b have d: "db_up d" "rget (db_clock d) (ad_enrollments d) (enrollmentIdempotencyKey (ei_IdempotencyKeyHash i)) = None"
    by (auto elim: enroll_body_ExecD)
  have "readEnrollmentRecord (\<lambda>n. if n = 0 then d' else see n d) (enrollmentIdempotencyKey (ei_IdempotencyKeyHash i)) inviteHash requestHash =
      Inr None" using d up v by (simp add: readEnrollmentRecord_None enroll_view_def)
  moreover have "readEnrollmentRecord (\<lambda>n. if n = 0 then d else see n d) (enrollmentIdempotencyKey (ei_IdempotencyKeyHash i)) inviteHash requestHash =
      Inr None" using d by (simp add: readEnrollmentRecord_None)
  ultimately have "enroll_body rnd ref inviteHash requestHash i (\<lambda>n _. see n d) a d' = TxExec f x"
    using b d(1) up v by (simp add: enroll_body_def enroll_view_def rget_view_read [of d d'] credential_exists_def
        cong: sum.case_cong if_cong option.case_cong)
  with J show "admin_step d' (f d')" by (auto simp: undrawn_def intro: adm_enroll)
qed

section \<open>The operations are sequences of steps\<close>

lemma requireAdmin_ok:
  "requireAdmin d p = Inr u \<Longrightarrow> IsAdmin p \<and> validID (pr_OrganizationID p) ''org_'' \<and> validID (pr_MemberID p) ''mem_'' \<and>
     (\<exists>m. readMember d (pr_OrganizationID p) (pr_MemberID p) = Inr m \<and> me_Status m = AdmActive \<and> me_Role m = RoleAdmin)"
  by (auto simp: requireAdmin_def split: if_splits sum.splits)

lemma attempts_J:
  assumes "attempts P atts" "\<And>d. J d \<Longrightarrow> admin_inv d" "\<And>d d'. J d \<Longrightarrow> admin_inv d' \<Longrightarrow> (P d \<longrightarrow> P d') \<Longrightarrow> J d'" "J d"
  shows "admin_steps d (att_pre (atts i) d) \<and> J (att_pre (atts i) d)"
    "admin_steps d (att_mid (atts i) d) \<and> J (att_mid (atts i) d)"
  using assms admin_steps_inv unfolding attempts_def environment_def by metis+

lemma Rotate_steps:
  assumes "admin_inv db" "obeys env" "attempts (\<lambda>_. True) atts"
  shows "admin_steps db (fst (RotateAdminCredential L rnd wall env atts p input db))"
proof -
  have e: "admin_steps db (env db)" "admin_inv (env db)" using assms(1,2) admin_steps_inv environmentD(1) by blast+
  have "admin_steps (env db) (fst (watch_loop db_up (rotate_view r) (rotate_body ev p r) AdmRedis AdmTxFailed 5 atts (env db)))"
    if "an_OldTokenHash r = pr_CredentialHash p" for r ev
  proof -
    from that have "r = r\<lparr>an_OldTokenHash := pr_CredentialHash p\<rparr>" by simp
    then show ?thesis
      by (metis rotation.loop_steps [THEN conjunct1] e(2) attempts_J [OF assms(3), where J = admin_inv])
  qed
  then show ?thesis using e(1)
    by (auto simp: RotateAdminCredential_def Let_def split: sum.splits intro: rtranclp_trans)
qed

lemma RevokeInvite_steps:
  assumes "admin_inv db" "obeys env" "attempts (\<lambda>_. True) atts"
  shows "admin_steps db (fst (RevokeInvite rnd env atts p inviteID db))"
proof -
  have e: "admin_steps db (env db)" "admin_inv (env db)" using assms(1,2) admin_steps_inv environmentD(1) by blast+
  have "admin_steps (env db) (fst (watch_loop db_up (invite_view (pr_OrganizationID p) inviteID)
      (revoke_invite_body ev p inviteID) AdmRedis AdmTxFailed 5 atts (env db)))" if "validID (pr_OrganizationID p) ''org_''" for ev
    by (rule invite_revocation.loop_steps [THEN conjunct1])
      (use that e(2) attempts_J [OF assms(3), where J = "\<lambda>d. admin_inv d \<and> validID (pr_OrganizationID p) ''org_''"] in blast)+
  then show ?thesis using e(1)
    by (auto simp: RevokeInvite_def Let_def split: sum.splits dest!: requireAdmin_ok intro: rtranclp_trans)
qed

lemma RevokeDevice_steps:
  assumes "admin_inv db" "obeys env" "attempts (\<lambda>_. True) atts"
  shows "admin_steps db (fst (RevokeDevice rnd env atts p deviceID db))"
    "RevokeDevice rnd env atts p deviceID db = (db', Inr r) \<Longrightarrow> validID (pr_OrganizationID p) ''org_'' \<and>
       device_revocation.replies p deviceID (randomID (rnd 0) ''aud_'') atts (env db) db' r"
proof -
  let ?J = "\<lambda>d. admin_inv d \<and> validID (pr_OrganizationID p) ''org_''"
  have e: "admin_steps db (env db)" "admin_inv (env db)" using assms(1,2) admin_steps_inv environmentD(1) by blast+
  let ?loop = "watch_loop db_up (device_view (pr_OrganizationID p) deviceID)
      (revoke_device_body (randomID (rnd 0) ''aud_'') p deviceID) AdmRedis AdmTxFailed 5 atts (env db)"
  have loop: "admin_steps (env db) (fst ?loop) \<and> (\<forall>r. snd ?loop = Inr r \<longrightarrow>
      device_revocation.replies p deviceID (randomID (rnd 0) ''aud_'') atts (env db) (fst ?loop) r)"
    if "validID (pr_OrganizationID p) ''org_''"
    by (rule device_revocation.loop_steps) (use that e(2) attempts_J [OF assms(3), where J = ?J] in blast)+
  then show "admin_steps db (fst (RevokeDevice rnd env atts p deviceID db))" using e(1)
    by (auto simp: RevokeDevice_def Let_def split: sum.splits dest!: requireAdmin_ok intro: rtranclp_trans)
  assume "RevokeDevice rnd env atts p deviceID db = (db', Inr r)"
  then have "validID (pr_OrganizationID p) ''org_'' \<and> ?loop = (db', Inr r)"
    by (auto simp: RevokeDevice_def Let_def split: sum.splits if_splits dest!: requireAdmin_ok)
  with loop show "validID (pr_OrganizationID p) ''org_'' \<and>
       device_revocation.replies p deviceID (randomID (rnd 0) ''aud_'') atts (env db) db' r" by auto
qed

lemma RevokeMember_steps:
  assumes "admin_inv db" "obeys env" "attempts (\<lambda>_. True) atts" "\<And>n. obeys (see n)"
  shows "admin_steps db (fst (RevokeMember rnd env see atts p memberID db))"
    "RevokeMember rnd env see atts p memberID db = (db', Inr r) \<Longrightarrow> validID (pr_OrganizationID p) ''org_'' \<and>
       member_revocation.replies p memberID (randomID (rnd 0) ''aud_'') see atts (env db) db' r"
proof -
  let ?J = "\<lambda>d. admin_inv d \<and> validID (pr_OrganizationID p) ''org_'' \<and> (\<forall>n. admin_inv (see n d))"
  have see: "admin_inv (see n d)" if "admin_inv d" for n d using that assms(4) admin_steps_inv environmentD(1) by blast
  have e: "admin_steps db (env db)" "admin_inv (env db)" using assms(1,2) admin_steps_inv environmentD(1) by blast+
  let ?loop = "watch_loop db_up (member_view (pr_OrganizationID p) memberID)
      (revoke_member_body (randomID (rnd 0) ''aud_'') p memberID see) AdmRedis AdmTxFailed 5 atts (env db)"
  have loop: "admin_steps (env db) (fst ?loop) \<and> (\<forall>r. snd ?loop = Inr r \<longrightarrow>
      member_revocation.replies p memberID (randomID (rnd 0) ''aud_'') see atts (env db) (fst ?loop) r)"
    if "validID (pr_OrganizationID p) ''org_''"
    by (rule member_revocation.loop_steps) (use that e(2) see attempts_J [OF assms(3), where J = ?J] in blast)+
  then show "admin_steps db (fst (RevokeMember rnd env see atts p memberID db))" using e(1)
    by (auto simp: RevokeMember_def Let_def split: sum.splits dest!: requireAdmin_ok intro: rtranclp_trans)
  assume "RevokeMember rnd env see atts p memberID db = (db', Inr r)"
  then have "validID (pr_OrganizationID p) ''org_'' \<and> ?loop = (db', Inr r)"
    by (auto simp: RevokeMember_def Let_def split: sum.splits if_splits dest!: requireAdmin_ok)
  with loop show "validID (pr_OrganizationID p) ''org_'' \<and>
       member_revocation.replies p memberID (randomID (rnd 0) ''aud_'') see atts (env db) db' r" by auto
qed

lemma Bootstrap_steps:
  assumes "admin_inv db" "attempts (undrawn rnd h) atts" "undrawn rnd h db" "length (rnd 0) = 16"
  shows "admin_steps db (fst (Bootstrap L rnd wall see atts input db))"
    "Bootstrap L rnd wall see atts input db = (db', Inr r) \<Longrightarrow>
       bootstrapping.replies L rnd wall input (randomID (rnd 2) ''aud_'') (normalizedTime wall (bi_Now input)) see h atts db db' r"
proof -
  let ?r = "boot_record L rnd wall input"
  let ?J = "\<lambda>d. admin_inv d \<and> undrawn rnd h d \<and> length (rnd 0) = 16"
  let ?loop = "watch_loop db_up (bootstrap_view (bs_AdminTokenHash ?r))
      (bootstrap_body (randomID (rnd 2) ''aud_'') ?r (normalizedTime wall (bi_Now input)) see) AdmRedis AdmTxFailed 5 atts db"
  have loop: "admin_steps db (fst ?loop) \<and> (\<forall>r. snd ?loop = Inr r \<longrightarrow>
      bootstrapping.replies L rnd wall input (randomID (rnd 2) ''aud_'') (normalizedTime wall (bi_Now input)) see h atts db (fst ?loop) r)"
    by (rule bootstrapping.loop_steps) (use assms attempts_J [OF assms(2), where J = ?J] in blast)+
  have B: "Bootstrap L rnd wall see atts input db = (db, Inl AdmInvalid) \<or> Bootstrap L rnd wall see atts input db = ?loop"
    by (simp add: Bootstrap_def boot_record_def Let_def normalize_bootstrap_def)
  from B loop show "admin_steps db (fst (Bootstrap L rnd wall see atts input db))" by auto
  assume "Bootstrap L rnd wall see atts input db = (db', Inr r)"
  with B have "?loop = (db', Inr r)" by auto
  with loop show "bootstrapping.replies L rnd wall input (randomID (rnd 2) ''aud_'') (normalizedTime wall (bi_Now input)) see h atts db db' r"
    by auto
qed

lemma CreateInvite_steps:
  assumes "\<And>n. environment (undrawn rnd (ci_InviteTokenHash input)) (env n)" "undrawn rnd (ci_InviteTokenHash input) db"
  shows "admin_steps db (fst (CreateInvite L rnd wall env reply p input db))"
proof -
  let ?P = "undrawn rnd (ci_InviteTokenHash input)"
  let ?d0 = "env 0 db" let ?d1 = "env 1 ?d0"
  have e: "admin_steps db ?d0" "?P ?d0" "admin_steps db ?d1" "?P ?d1" "admin_steps db (env 2 ?d0)" "?P (env 2 ?d0)"
    "admin_steps db (env 2 ?d1)" "?P (env 2 ?d1)"
    using environmentD [OF assms(1)] assms(2) rtranclp_trans by metis+
  have c: "admin_steps db (create_invite_commit ev p invite (ci_InviteTokenHash input) now d)"
    if "admin_steps db d" "?P d" "requireAdmin ?d0 p = Inr u" "iv_Status invite = AdmPending" "iv_OrganizationID invite = pr_OrganizationID p"
      "iv_ID invite = randomID (rnd 0) ''inv_''" for ev invite now d u
  proof -
    have "invite_ok invite" using that(3,5) by (auto dest!: requireAdmin_ok intro: okI)
    with that have "admin_step d (create_invite_commit ev p invite (ci_InviteTokenHash input) now d)"
      by (intro adm_invite) (auto simp: undrawn_def)
    with that(1) show ?thesis by simp
  qed
  show ?thesis using e
    by (auto simp: CreateInvite_def Let_def split: sum.splits intro!: c)
qed

lemma Enroll_steps:
  assumes "admin_inv db" "\<And>n. environment (undrawn rnd h) (env n)" "attempts (undrawn rnd h) atts" "\<And>n. obeys (post n)" "undrawn rnd h db"
  shows "admin_steps db (fst (Enroll L rnd wall env see atts post rawInviteToken input db))"
proof -
  have e: "admin_steps db (after env db n)" for n using after_steps [OF assms(2)] .
  have p: "admin_steps d (after post d n)" for d n using after_steps [OF assms(4)] .
  have J: "admin_inv (after env db n) \<and> undrawn rnd h (after env db n)" for n
    using admin_steps_inv [OF e assms(1)] after_keeps [where P = "undrawn rnd h", OF assms(2,5)] by simp
  let ?loop = "\<lambda>ref ih i rh. watch_loop db_up (enroll_view ref ih i) (enroll_body rnd ref ih rh i see) AdmRedis AdmTxFailed 5 atts (after env db 5)"
  have loop: "admin_steps db d" if "validID (ir_OrganizationID ref) ''org_''" "?loop ref ih i rh = (d, r)" for ref ih i rh d r
  proof -
    have "admin_steps (after env db 5) (fst (?loop ref ih i rh))"
      by (rule enrolling.loop_steps [where h = h, THEN conjunct1])
        (use that J attempts_J [OF assms(3), where J = "\<lambda>d. admin_inv d \<and> undrawn rnd h d \<and> validID (ir_OrganizationID ref) ''org_''"] in blast)+
    with that e [of 5] show ?thesis by (auto intro: rtranclp_trans)
  qed
  show ?thesis
    by (auto simp: Enroll_def Let_def e split: sum.splits option.splits raw.splits prod.splits
        dest!: loop [rotated] intro: rtranclp_trans [OF _ p])
qed

end
