(* ===== verification/Admin_Scenario.thy ===== *)
theory Admin_Scenario
  imports Admin_Refine Collab_Theorems
begin

text \<open>
  A small organization to run the administrative store on: an administrator, a member with two
  devices, and an invite.
\<close>

definition adm_lib :: adminlib where
  "adm_lib = \<lparr>sha256_sum = (\<lambda>s. take 32 (rev s @ replicate 32 CHR ''0'')), uni_lower = id, uni_upper = id, uni_fold = (=), base64_decode = Some,
     media_type_ok = (\<lambda>_. True), json_bootstrap = fst, json_rotation = fst, json_enrollment = fst\<rparr>"

definition adm_token :: "string \<Rightarrow> char \<Rightarrow> string" where
  "adm_token prefix c = prefix @ hex_encode (replicate 32 c)"

abbreviation adm_hash :: "string \<Rightarrow> char \<Rightarrow> string" where
  "adm_hash prefix c \<equiv> Hash adm_lib (adm_token prefix c)"

abbreviation adm_id :: "string \<Rightarrow> char \<Rightarrow> string" where
  "adm_id prefix c \<equiv> randomID (replicate 16 c) prefix"

abbreviation adm_org :: string where
  "adm_org \<equiv> adm_id ''org_'' CHR ''o''"

definition adm_empty :: admin_db where
  "adm_empty = relay_db.extend empty_relay_db (admin_db.fields None None Map.empty Map.empty Map.empty Map.empty Map.empty Map.empty
     Map.empty Map.empty Map.empty Map.empty Map.empty (\<lambda>_. []))"

definition adm_boss :: Member where
  "adm_boss = \<lparr>me_ID = adm_id ''mem_'' CHR ''b'', me_OrganizationID = adm_org, me_DisplayName = ''Boss'', me_Email = ''b@x'', me_Role = RoleAdmin,
     me_Status = AdmActive, me_CreatedAt = 0, me_RevokedAt = None\<rparr>"

definition adm_alice :: Member where
  "adm_alice = adm_boss\<lparr>me_ID := adm_id ''mem_'' CHR ''a'', me_DisplayName := ''Alice'', me_Email := ''a@x'', me_Role := RoleMember\<rparr>"

definition adm_device :: "char \<Rightarrow> Device" where
  "adm_device c = \<lparr>de_ID = adm_id ''dev_'' c, de_OrganizationID = adm_org, de_MemberID = me_ID adm_alice, de_AgentID = adm_id ''agent_'' c,
     de_Name = ''x'', de_Runtime = ''codex'', de_PermissionProfile = ''read_only'', de_Status = AdmActive, de_CreatedAt = 0,
     de_LastSeenAt = None, de_RevokedAt = None\<rparr>"

definition adm_root :: Principal where
  "adm_root = \<lparr>pr_OrganizationID = adm_org, pr_MemberID = me_ID adm_boss, pr_DeviceID = [], pr_AgentID = [], pr_DisplayName = [],
     pr_DeviceName = [], pr_Runtime = [], pr_PermissionMode = [], pr_CredentialHash = adm_hash ''tr_admin_'' CHR ''1'', pr_Role = RoleAdmin,
     pr_TokenKind = TokenAdmin, pr_IssuedAt = 0\<rparr>"

text \<open>Both devices' agents exist; the first has asked Bob something.\<close>

definition adm_requester :: Principal where
  "adm_requester = demo_alice\<lparr>pr_OrganizationID := adm_org, pr_AgentID := adm_id ''agent_'' CHR ''1''\<rparr>"

definition adm_request :: storedRequest where
  "adm_request = new_stored (new_request demo_lib 0 ''r1'' adm_requester (heartbeat_card demo_lib 0 adm_requester demo_heartbeat) demo_conv [] demo_input)
     demo_input (idempotencyKey demo_lib adm_org (pr_AgentID adm_requester) ''k'')"

definition adm_relay_db :: relay_db where
  "adm_relay_db = create_commit adm_org adm_request (requestDigest demo_lib demo_input)
     (Some (demo_conv\<lparr>cv_OrganizationID := adm_org, cv_RequesterAgentID := pr_AgentID adm_requester\<rparr>)) [] empty_relay_db"

definition adm_credential :: "TokenKind \<Rightarrow> string \<Rightarrow> string \<Rightarrow> credential" where
  "adm_credential kind member device = \<lparr>cd_Kind = kind, cd_OrganizationID = adm_org, cd_MemberID = member, cd_DeviceID = device, cd_IssuedAt = 0\<rparr>"

definition adm_db :: admin_db where
  "adm_db = (relay_db.extend adm_relay_db (relay_db.more adm_empty))
     \<lparr>ad_members := rset 0 (memberKey adm_org (me_ID adm_boss)) adm_boss 0 (rset 0 (memberKey adm_org (me_ID adm_alice)) adm_alice 0 Map.empty),
      ad_devices := rset 0 (deviceKey adm_org (de_ID (adm_device CHR ''1''))) (adm_device CHR ''1'') 0
        (rset 0 (deviceKey adm_org (de_ID (adm_device CHR ''2''))) (adm_device CHR ''2'') 0 Map.empty),
      ad_credentials := rset 0 (credentialKey (adm_hash ''tr_admin_'' CHR ''1'')) (adm_credential TokenAdmin (me_ID adm_boss) []) 0
        (rset 0 (credentialKey (adm_hash ''tr_dev_'' CHR ''2''))
           (adm_credential TokenDevice (me_ID adm_alice) (de_ID (adm_device CHR ''2''))) 0 Map.empty)\<rparr>"

lemmas adm_people = adm_boss_def adm_alice_def adm_device_def adm_root_def adm_credential_def

lemma adm_empty_fields [simp]:
  "db_up adm_empty" "db_clock adm_empty = 0" "ad_complete adm_empty = None" "ad_bootrecord adm_empty = None" "ad_members adm_empty = Map.empty"
  "ad_devices adm_empty = Map.empty" "ad_invites adm_empty = Map.empty" "ad_credentials adm_empty = Map.empty"
  "ad_invitetokens adm_empty = Map.empty" "ad_enrollments adm_empty = Map.empty" "ad_audit adm_empty = (\<lambda>_. [])"
  "ad_organizations adm_empty = Map.empty" "ad_rotations adm_empty = Map.empty" "ad_devicehashes adm_empty = Map.empty"
  "ad_invitehashes adm_empty = Map.empty" "ad_sets adm_empty = Map.empty"
  by (simp_all add: adm_empty_def relay_db.extend_def admin_db.fields_def empty_relay_db_def)

lemma adm_empty_inv [simp]: "admin_inv adm_empty"
  by (simp add: admin_inv_def keyed_def enrollments_ok_def tokens_ok_def bootstrap_ok_def audit_ok_def)

lemma adm_relay_fields [simp]: "db_up adm_relay_db" "db_clock adm_relay_db = 0"
  by (simp_all add: adm_relay_db_def empty_relay_db_def)

lemma adm_db_fields [simp]:
  "db_up adm_db" "db_clock adm_db = 0" "relay_db.truncate adm_db = adm_relay_db" "ad_invites adm_db = Map.empty"
  "ad_invitetokens adm_db = Map.empty" "ad_enrollments adm_db = Map.empty" "ad_rotations adm_db = Map.empty" "ad_complete adm_db = None"
  "ad_bootrecord adm_db = None" "ad_audit adm_db = (\<lambda>_. [])" "ad_devicehashes adm_db = Map.empty" "ad_sets adm_db = Map.empty"
  "ad_members adm_db = rset 0 (memberKey adm_org (me_ID adm_boss)) adm_boss 0 (rset 0 (memberKey adm_org (me_ID adm_alice)) adm_alice 0 Map.empty)"
  "ad_devices adm_db = rset 0 (deviceKey adm_org (de_ID (adm_device CHR ''1''))) (adm_device CHR ''1'') 0
     (rset 0 (deviceKey adm_org (de_ID (adm_device CHR ''2''))) (adm_device CHR ''2'') 0 Map.empty)"
  "ad_credentials adm_db = rset 0 (credentialKey (adm_hash ''tr_admin_'' CHR ''1'')) (adm_credential TokenAdmin (me_ID adm_boss) []) 0
     (rset 0 (credentialKey (adm_hash ''tr_dev_'' CHR ''2''))
        (adm_credential TokenDevice (me_ID adm_alice) (de_ID (adm_device CHR ''2''))) 0 Map.empty)"
  by (simp_all add: adm_db_def relay_db.extend_def relay_db.truncate_def adm_empty_def admin_db.fields_def)

lemma randomID_eq [simp]: "randomID a p = randomID b p \<longleftrightarrow> a = b"
  by (simp add: randomID_def)

lemma keyed_empty [simp]: "keyed key ok Map.empty"
  by (simp add: keyed_def)

lemma adm_db_inv [simp]: "admin_inv adm_db"
proof -
  have "device_cells (ad_devices adm_db)" "member_cells (ad_members adm_db)"
    by (auto simp: adm_people intro!: keyed_rset okI)
  then show ?thesis by (simp add: admin_inv_def enrollments_ok_def tokens_ok_def bootstrap_ok_def audit_ok_def)
qed

lemma adm_relay_reachable: "reachable adm_relay_db"
  unfolding reachable_def adm_relay_db_def adm_request_def
  by (rule r_into_rtranclp, rule step_create [where L = demo_lib and p = adm_requester and conv = demo_conv and i = demo_input])
    (auto simp: empty_relay_db_def rget_def demo_conv_def adm_requester_def randomID_def conversation_fits_def
      attachments_fit_def new_stored_def new_request_def demo_input_def requireDevice_def demo_alice_def)

lemma adm_relay_read: "readStoredRequest adm_relay_db adm_org ''r1'' = Inr adm_request"
  by (simp add: readStoredRequest_def adm_relay_db_def adm_request_def new_stored_def new_request_def empty_relay_db_def)

lemma adm_token_trim [simp]:
  "TrimSpace (adm_token ''tr_admin_'' c) = adm_token ''tr_admin_'' c" "TrimSpace (adm_token ''tr_dev_'' c) = adm_token ''tr_dev_'' c"
  "TrimSpace (adm_token ''tr_inv_'' c) = adm_token ''tr_inv_'' c"
  unfolding adm_token_def by (rule TrimSpace_token; simp add: IsSpace_def)+

lemma hex_encode_append: "hex_encode (a @ b) = hex_encode a @ hex_encode b"
  by (simp add: hex_encode_def)

lemma adm_hash_eq [simp]:
  assumes "TrimSpace (adm_token p c) = adm_token p c"
  shows "adm_hash p c = hex_encode (rev (hex_encode (replicate 16 c)))"
proof -
  have "replicate 32 c = replicate 16 c @ replicate 16 c" by (simp flip: replicate_add)
  then have "rev (adm_token p c) = rev (hex_encode (replicate 16 c)) @ rev (hex_encode (replicate 16 c)) @ rev p"
    by (simp add: adm_token_def hex_encode_append)
  moreover have "32 \<le> length (adm_token p c)" by (simp add: adm_token_def)
  ultimately show ?thesis using assms by (simp add: Hash_def sha256_hex_def adm_lib_def)
qed

lemma adm_token_kind [simp]:
  "Kind token_kinds (adm_token ''tr_admin_'' c) = Inr TokenAdmin" "Kind token_kinds (adm_token ''tr_dev_'' c) = Inr TokenDevice"
  "Kind token_kinds (adm_token ''tr_inv_'' c) = Inr TokenInvite"
  by (simp_all add: Kind_def token_kinds_def kind_matches_def) (simp_all add: adm_token_def HasPrefix_def)

text \<open>The administrator revokes the first device.\<close>

definition adm_revoked_device :: admin_db where
  "adm_revoked_device = revoke_device_commit (adm_id ''aud_'' CHR ''e'') adm_root (adm_id ''dev_'' CHR ''1'') (adm_device CHR ''1'') [] 0 adm_db"

lemma adm_admin [simp]: "requireAdmin adm_db adm_root = Inr ()"
  by (simp add: requireAdmin_def readMember_def adm_people IsAdmin_def readJSON_def)

lemma adm_selectors [simp]:
  "pr_OrganizationID adm_root = adm_org" "pr_CredentialHash adm_root = adm_hash ''tr_admin_'' CHR ''1''" "pr_MemberID adm_root = me_ID adm_boss"
  "de_Status (adm_device c) = AdmActive" "de_AgentID (adm_device c) = adm_id ''agent_'' c" "de_ID (adm_device c) = adm_id ''dev_'' c"
  by (simp_all add: adm_people)

lemma adm_revoke_device:
  "RevokeDevice (\<lambda>_. replicate 16 CHR ''e'') id (\<lambda>_. calm 0) adm_root (adm_id ''dev_'' CHR ''1'') adm_db =
     (adm_revoked_device, Inr \<lparr>rv_OrganizationID = adm_org, rv_AgentIDs = [adm_id ''agent_'' CHR ''1'']\<rparr>)"
proof -
  have "readDevice adm_db adm_org (adm_id ''dev_'' CHR ''1'') = Inr (adm_device CHR ''1'')"
    by (simp add: adm_people)
  then show ?thesis
    by (simp add: RevokeDevice_def watch_loop_calm revoke_device_body_def Let_def adm_revoked_device_def plain_string_def rget_def
        del: read_record tombstone_fields)
qed

lemma adm_device_authenticates:
  "\<exists>q. Authenticate adm_lib (adm_token ''tr_dev_'' CHR ''2'') adm_revoked_device adm_revoked_device adm_revoked_device = Inr q \<and>
     pr_OrganizationID q = adm_org \<and> pr_DeviceID q = adm_id ''dev_'' CHR ''2''"
  by (simp add: Authenticate_def adm_revoked_device_def revoke_device_commit_def Let_def readCredential_def readMember_def
      readDevice_def readJSON_def adm_people admin_principal_def)

lemma validHash_hex [simp]: "length s = 32 \<Longrightarrow> validHash (hex_encode s)"
  by (simp add: validHash_def)

text \<open>The administrator rotates its credential.\<close>

definition adm_rotation :: RotateAdminCredentialInput where
  "adm_rotation = \<lparr>ro_NewTokenHash = adm_hash ''tr_admin_'' CHR ''9'', ro_IdempotencyHash = hex_encode (replicate 32 CHR ''i''), ro_Now = 1\<rparr>"

definition adm_rotated :: admin_db where
  "adm_rotated = fst (RotateAdminCredential adm_lib (\<lambda>_. replicate 16 CHR ''e'') 0 id (\<lambda>_. calm 0) adm_root adm_rotation adm_db)"

lemma adm_rotate:
  "RotateAdminCredential adm_lib (\<lambda>_. replicate 16 CHR ''e'') 0 id (\<lambda>_. calm 0) adm_root adm_rotation adm_db =
     (adm_rotated, Inr \<lparr>rr_RotatedAt = 1, rr_Replayed = False\<rparr>)"
  "readMember adm_rotated adm_org (me_ID adm_boss) = Inr adm_boss"
  by (simp_all add: adm_rotated_def RotateAdminCredential_def watch_loop_calm rotate_body_def Let_def adm_rotation_def normalizedTime_def
      zero_time_def readJSON_def readCredential_def rget_def [of _ Map.empty] credential_exists_def adm_credential_def rotate_commit_def)

text \<open>The relay is bootstrapped, and the call is repeated.\<close>

definition adm_boot :: BootstrapInput where
  "adm_boot = \<lparr>bi_OrganizationName = ''Org'', bi_AdminDisplayName = ''Boss'', bi_AdminEmail = ''b@x'',
     bi_AdminTokenHash = adm_hash ''tr_admin_'' CHR ''1'', bi_IdempotencyHash = hex_encode (replicate 32 CHR ''i''), bi_Now = 1\<rparr>"

definition adm_boot_record :: bootstrapRecord where
  "adm_boot_record = boot_record adm_lib (\<lambda>_. replicate 16 CHR ''o'') 0 adm_boot"

definition adm_booted :: admin_db where
  "adm_booted = bootstrap_commit (adm_id ''aud_'' CHR ''o'') adm_boot_record 1 adm_empty"

lemma adm_labels [simp]:
  "TrimSpace ''Org'' = ''Org''" "TrimSpace ''Boss'' = ''Boss''" "TrimSpace ''b@x'' = ''b@x''" "TrimSpace ''Alice'' = ''Alice''"
  "TrimSpace ''x'' = ''x''" "TrimSpace ''codex'' = ''codex''" "TrimSpace ''read_only'' = ''read_only''"
  "adm_validLabel ''Org'' 120" "adm_validLabel ''Boss'' 100" "adm_validLabel ''Alice'' 100" "adm_validLabel ''x'' 100" "adm_validLabel ''codex'' 128"
  "ToLower adm_lib ''b@x'' = ''b@x''" "validEmail ''b@x''"
  by ((rule TrimSpace_id; simp add: IsSpace_def) | code_simp)+

lemma adm_bootstraps:
  "Bootstrap adm_lib (\<lambda>_. replicate 16 CHR ''o'') 0 (\<lambda>_ d. d) (\<lambda>_. calm 0) adm_boot adm_empty = (adm_booted, Inr (bs_Result adm_boot_record))"
  "Bootstrap adm_lib (\<lambda>_. replicate 16 CHR ''z'') 0 (\<lambda>_ d. d) (\<lambda>_. calm 0) adm_boot adm_booted = (adm_booted, Inr (bs_Result adm_boot_record))"
proof -
  have n: "normalize_bootstrap adm_lib 0 adm_boot = adm_boot"
    by (simp add: normalize_bootstrap_def adm_boot_def normalizeEmail_def normalizedTime_def zero_time_def)
  note b = Bootstrap_def Let_def n watch_loop_calm bootstrap_body_def credential_exists_def rget_def [of _ Map.empty] adm_booted_def
    adm_boot_record_def boot_record_def
  show "Bootstrap adm_lib (\<lambda>_. replicate 16 CHR ''o'') 0 (\<lambda>_ d. d) (\<lambda>_. calm 0) adm_boot adm_empty = (adm_booted, Inr (bs_Result adm_boot_record))"
    by (simp add: b) (simp add: adm_boot_def)
  show "Bootstrap adm_lib (\<lambda>_. replicate 16 CHR ''z'') 0 (\<lambda>_ d. d) (\<lambda>_. calm 0) adm_boot adm_booted = (adm_booted, Inr (bs_Result adm_boot_record))"
    by (simp add: b bootstrap_replay_def bootstrap_commit_def readCredential_def readMember_def readJSON_def bootstrap_result_def)
      (simp add: adm_boot_def)
qed

text \<open>Alice is invited and enrolls a device; the call is repeated.\<close>

definition adm_invite :: Invite where
  "adm_invite = \<lparr>iv_ID = adm_id ''inv_'' CHR ''v'', iv_OrganizationID = adm_org, iv_CreatedBy = [], iv_MemberID = [], iv_DisplayName = ''Alice'',
     iv_Email = [], iv_Status = AdmPending, iv_CreatedAt = 0, iv_ExpiresAt = 100, iv_UsedAt = None, iv_UsedByMemberID = [], iv_RevokedAt = None\<rparr>"

definition adm_organization :: Organization where
  "adm_organization = \<lparr>og_ID = adm_org, og_Name = ''Org'', og_CreatedAt = 0\<rparr>"

definition adm_invited :: admin_db where
  "adm_invited = create_invite_commit (adm_id ''aud_'' CHR ''v'') adm_root adm_invite (adm_hash ''tr_inv_'' CHR ''5'') 0
     (adm_empty\<lparr>ad_organizations := rset 0 (organizationKey adm_org) adm_organization 0 Map.empty\<rparr>)"

definition adm_enroll :: EnrollInput where
  "adm_enroll = \<lparr>ei_DisplayName = [], ei_DeviceName = ''x'', ei_Runtime = ''codex'', ei_PermissionProfile = ''read_only'',
     ei_DeviceTokenHash = adm_hash ''tr_dev_'' CHR ''6'', ei_IdempotencyKeyHash = hex_encode (replicate 32 CHR ''k''), ei_Now = 1\<rparr>"

abbreviation adm_enroll_call :: "char \<Rightarrow> admin_db \<Rightarrow> EnrollResult admin_reply" where
  "adm_enroll_call c \<equiv> Enroll adm_lib (\<lambda>_. replicate 16 c) 0 (\<lambda>_ d. d) (\<lambda>_ d. d) (\<lambda>_. calm 0) (\<lambda>_ d. d) (adm_token ''tr_inv_'' CHR ''5'') adm_enroll"

definition adm_enrollment :: EnrollResult where
  "adm_enrollment = \<lparr>er_Organization = adm_organization,
     er_Member = \<lparr>me_ID = adm_id ''mem_'' CHR ''n'', me_OrganizationID = adm_org, me_DisplayName = ''Alice'', me_Email = [], me_Role = RoleMember,
       me_Status = AdmActive, me_CreatedAt = 1, me_RevokedAt = None\<rparr>,
     er_Device = \<lparr>de_ID = adm_id ''dev_'' CHR ''n'', de_OrganizationID = adm_org, de_MemberID = adm_id ''mem_'' CHR ''n'',
       de_AgentID = adm_id ''agent_'' CHR ''n'', de_Name = ''x'', de_Runtime = ''codex'', de_PermissionProfile = ''read_only'', de_Status = AdmActive,
       de_CreatedAt = 1, de_LastSeenAt = None, de_RevokedAt = None\<rparr>\<rparr>"

definition adm_enrolled :: admin_db where
  "adm_enrolled = enroll_commit (adm_id ''aud_'' CHR ''n'') \<lparr>ir_OrganizationID = adm_org, ir_InviteID = iv_ID adm_invite\<rparr>
     (adm_hash ''tr_inv_'' CHR ''5'') (enrollmentRequestHash adm_lib (adm_hash ''tr_inv_'' CHR ''5'') adm_enroll) adm_enroll adm_invite True
     adm_enrollment adm_invited"

lemma after_id [simp]: "after (\<lambda>_ d. d) db = (\<lambda>_. db)"
proof
  show "after (\<lambda>_ d. d) db n = db" for n by (induction n) simp_all
qed

lemma adm_invited_inv: "admin_inv adm_invited"
proof -
  let ?d = "adm_empty\<lparr>ad_organizations := rset 0 (organizationKey adm_org) adm_organization 0 Map.empty\<rparr>"
  have "admin_inv ?d" by (simp add: admin_inv_def enrollments_ok_def tokens_ok_def bootstrap_ok_def audit_ok_def)
  moreover have "admin_step ?d adm_invited"
    unfolding adm_invited_def by (rule adm_invite) (simp_all add: adm_invite_def okI)
  ultimately show ?thesis by (blast intro: admin_step_inv)
qed

lemma adm_enrolls:
  "adm_enroll_call CHR ''n'' adm_invited = (adm_enrolled, Inr adm_enrollment)"
  "adm_enroll_call CHR ''z'' adm_enrolled = (adm_enrolled, Inr adm_enrollment)"
proof -
  have n: "normalize_enroll adm_lib 0 adm_enroll = adm_enroll"
    by (simp add: normalize_enroll_def adm_enroll_def normalizedTime_def zero_time_def Let_def)
  have v: "validate_enroll adm_enroll" by (simp add: validate_enroll_def adm_enroll_def validPermissionProfile_def)
  have r: "validHash (enrollmentRequestHash adm_lib h adm_enroll)" for h
    by (simp add: enrollmentRequestHash_def Hash_def sha256_hex_def adm_lib_def)
  have ret: "invite_retention 100 0 \<noteq> 0 \<and> \<not> invite_retention 100 0 \<le> 0" by code_simp
  note inv = adm_invited_def create_invite_commit_def Let_def adm_invite_def ret
  have none: "readEnrollmentRecord s k h rh = Inr None" if "s 0 = adm_invited" for s k h rh
    using that by (simp add: readEnrollmentRecord_None inv rget_def)
  let ?ref = "\<lparr>ir_OrganizationID = adm_org, ir_InviteID = iv_ID adm_invite\<rparr>"
  have f: "db_up adm_invited" "db_clock adm_invited = 0" "\<not> credential_exists adm_invited h"
    "rget 0 (ad_invitetokens adm_invited) (inviteTokenKey (adm_hash ''tr_inv_'' CHR ''5'')) = Some (Json ?ref)"
    "rget 0 (ad_invites adm_invited) (inviteKey adm_org (iv_ID adm_invite)) = Some (Json adm_invite)"
    "rget 0 (ad_organizations adm_invited) (organizationKey adm_org) = Some (Json adm_organization)" for h
    by (simp_all add: inv credential_exists_def rget_def [of _ Map.empty])
  have id: "validID (iv_ID adm_invite) ''inv_''" by (simp add: adm_invite_def)
  have "enroll_body (\<lambda>_. replicate 16 CHR ''n'') ?ref (adm_hash ''tr_inv_'' CHR ''5'') rh adm_enroll (\<lambda>_ d. d) (calm 0) adm_invited =
    TxExec (enroll_commit (adm_id ''aud_'' CHR ''n'') ?ref (adm_hash ''tr_inv_'' CHR ''5'') rh adm_enroll adm_invite True adm_enrollment) adm_enrollment" for rh
    using f by (simp add: enroll_body_def none readInvite_def readJSON_def enroll_member_def Let_def)
      (simp add: adm_invite_def adm_enroll_def adm_enrollment_def enroll_member_def Let_def)
  then show "adm_enroll_call CHR ''n'' adm_invited = (adm_enrolled, Inr adm_enrollment)"
    using f id by (simp add: Enroll_def n v none watch_loop_calm adm_enrolled_def Let_def)
  let ?h = "adm_hash ''tr_inv_'' CHR ''5''"
  have g: "db_up adm_enrolled" "db_clock adm_enrolled = 0"
    "rget 0 (ad_enrollments adm_enrolled) (enrollmentIdempotencyKey (ei_IdempotencyKeyHash adm_enroll)) =
       Some (Json \<lparr>en_InviteTokenHash = ?h, en_RequestHash = enrollmentRequestHash adm_lib ?h adm_enroll,
         en_DeviceTokenHash = ei_DeviceTokenHash adm_enroll, en_Result = adm_enrollment\<rparr>)"
    "rget 0 (ad_members adm_enrolled) (memberKey adm_org (adm_id ''mem_'' CHR ''n'')) = Some (Json (er_Member adm_enrollment))"
    "rget 0 (ad_devices adm_enrolled) (deviceKey adm_org (adm_id ''dev_'' CHR ''n'')) = Some (Json (er_Device adm_enrollment))"
    "rget 0 (ad_devicehashes adm_enrolled) (deviceCredentialKey adm_org (adm_id ''dev_'' CHR ''n'')) = Some (Json (ei_DeviceTokenHash adm_enroll))"
    "rget 0 (ad_credentials adm_enrolled) (credentialKey (ei_DeviceTokenHash adm_enroll)) =
       Some (Json \<lparr>cd_Kind = TokenDevice, cd_OrganizationID = adm_org, cd_MemberID = adm_id ''mem_'' CHR ''n'',
         cd_DeviceID = adm_id ''dev_'' CHR ''n'', cd_IssuedAt = ei_Now adm_enroll\<rparr>)"
    using f(1,2) by (simp_all add: adm_enrolled_def enroll_commit_def Let_def) (simp_all add: adm_enrollment_def adm_invite_def)
  have e: "og_ID (er_Organization adm_enrollment) = adm_org" "me_ID (er_Member adm_enrollment) = adm_id ''mem_'' CHR ''n''"
    "de_ID (er_Device adm_enrollment) = adm_id ''dev_'' CHR ''n''" "me_Status (er_Member adm_enrollment) = AdmActive"
    "de_Status (er_Device adm_enrollment) = AdmActive" "de_MemberID (er_Device adm_enrollment) = adm_id ''mem_'' CHR ''n''"
    "validHash (ei_DeviceTokenHash adm_enroll)"
    by (simp_all add: adm_enrollment_def adm_organization_def adm_enroll_def)
  have "readEnrollmentRecord (\<lambda>_. adm_enrolled) (enrollmentIdempotencyKey (ei_IdempotencyKeyHash adm_enroll)) ?h
      (enrollmentRequestHash adm_lib ?h adm_enroll) = Inr (Some adm_enrollment)"
    using g e r by (simp add: readEnrollmentRecord_def Let_def readMember_def readDevice_def readCredential_def readJSON_def)
  then show "adm_enroll_call CHR ''z'' adm_enrolled = (adm_enrolled, Inr adm_enrollment)"
    using n v by (simp add: Enroll_def Let_def)
qed

text \<open>Nobody has drawn the identifiers of the two calls.\<close>

lemma drawn_keys:
  assumes "length a = 16" "length b = 16" "a \<noteq> b"
  shows "memberKey o1 (randomID a p) \<noteq> memberKey o2 (randomID b q)" "deviceKey o1 (randomID a p) \<noteq> deviceKey o2 (randomID b q)"
    "inviteKey o1 (randomID a p) \<noteq> inviteKey o2 (randomID b q)"
proof -
  have "take 32 (rev (memberKey o1 (randomID a p))) \<noteq> take 32 (rev (memberKey o2 (randomID b q)))"
    "take 32 (rev (deviceKey o1 (randomID a p))) \<noteq> take 32 (rev (deviceKey o2 (randomID b q)))"
    "take 32 (rev (inviteKey o1 (randomID a p))) \<noteq> take 32 (rev (inviteKey o2 (randomID b q)))"
    using assms by (simp_all add: memberKey_def deviceKey_def inviteKey_def randomID_def)
  then show "memberKey o1 (randomID a p) \<noteq> memberKey o2 (randomID b q)" "deviceKey o1 (randomID a p) \<noteq> deviceKey o2 (randomID b q)"
    "inviteKey o1 (randomID a p) \<noteq> inviteKey o2 (randomID b q)" by metis+
qed

lemma adm_undrawn:
  "undrawn rnd h adm_empty" "undrawn (\<lambda>_. replicate 16 CHR ''z'') h adm_booted"
  "undrawn (\<lambda>_. replicate 16 CHR ''n'') [] adm_invited" "undrawn (\<lambda>_. replicate 16 CHR ''z'') [] adm_enrolled"
proof -
  have ne: "inviteTokenKey [] \<noteq> inviteTokenKey (hex_encode (rev (hex_encode (replicate 16 c))))" for c
    by (metis flat_keys_determine(2) hex_encode_eq_Nil rev_is_Nil_conv empty_replicate zero_neq_numeral)
  show "undrawn rnd h adm_empty" by (simp add: undrawn_def)
  show "undrawn (\<lambda>_. replicate 16 CHR ''z'') h adm_booted"
    by (simp add: undrawn_def adm_booted_def bootstrap_commit_def adm_boot_record_def boot_record_def bootstrap_result_def Let_def rset_def drawn_keys)
  show "undrawn (\<lambda>_. replicate 16 CHR ''n'') [] adm_invited"
    using ne by (simp add: undrawn_def adm_invited_def create_invite_commit_def adm_invite_def Let_def rset_def drawn_keys)
  show "undrawn (\<lambda>_. replicate 16 CHR ''z'') [] adm_enrolled"
    using ne by (simp add: undrawn_def adm_enrolled_def enroll_commit_def adm_invited_def create_invite_commit_def adm_invite_def
        adm_enrollment_def Let_def rset_def drawn_keys)
qed

end
