(* ===== verification/Admin_Theorems.thy ===== *)
theory Admin_Theorems
  imports Admin_Scenario
begin

text \<open>
  What the administrative store promises: one bootstrap, invites that enroll one device, revocations
  that last and reach the relay, rotations that swap the credential, and an audit event for every
  change.
\<close>

section \<open>The audit log\<close>

lemma validID_nonempty: "validID v (c # p) \<Longrightarrow> v \<noteq> []"
  by (auto simp: validID_def)

lemma plain_event_org [simp]: "ae_OrganizationID (plain_event eventID org p action ty target now) = org"
  by (simp add: plain_event_def)

definition same_records :: "admin_db \<Rightarrow> admin_db \<Rightarrow> bool" where
  "same_records d d' \<longleftrightarrow>
     ad_complete d' = ad_complete d \<and> ad_members d' = ad_members d \<and> ad_devices d' = ad_devices d \<and> ad_invites d' = ad_invites d \<and>
     ad_credentials d' = ad_credentials d"

text \<open>
  What an event says happened between two states: the record it names was created, or had its
  status or its credential changed, in the way its action says.
\<close>

definition stored_as :: "'a cells \<Rightarrow> string \<Rightarrow> 'a \<Rightarrow> bool" where
  "stored_as m k x \<longleftrightarrow> (\<exists>dl. m k = Some (Json x, dl))"

definition accounts_for :: "AuditEvent \<Rightarrow> admin_db \<Rightarrow> admin_db \<Rightarrow> bool" where
  "accounts_for e d d' \<longleftrightarrow>
     (let org = ae_OrganizationID e; x = ae_TargetID e; action = ae_Action e in
      action = ''organization.bootstrapped'' \<and> x = org \<and> ad_complete d = None \<and> ad_complete d' = Some org \<or>
      action = ''admin.credential_rotated'' \<and>
        (\<exists>old new c c'. stored_as (ad_credentials d) (credentialKey old) c \<and> ad_credentials d' (credentialKey old) = None \<and>
           stored_as (ad_credentials d') (credentialKey new) c' \<and>
           (\<forall>y\<in>{c, c'}. cd_Kind y = TokenAdmin \<and> cd_OrganizationID y = org \<and> cd_MemberID y = x)) \<or>
      action = ''invite.created'' \<and> ad_invites d (inviteKey org x) = None \<and>
        (\<exists>v. stored_as (ad_invites d') (inviteKey org x) v \<and> iv_Status v = AdmPending) \<or>
      action = ''invite.revoked'' \<and>
        (\<exists>v t. stored_as (ad_invites d) (inviteKey org x) v \<and> iv_Status v \<notin> {AdmRevoked, AdmUsed} \<and>
           stored_as (ad_invites d') (inviteKey org x) (v\<lparr>iv_Status := AdmRevoked, iv_RevokedAt := Some t\<rparr>)) \<or>
      action = ''device.enrolled'' \<and> ad_devices d (deviceKey org x) = None \<and>
        (\<exists>v. stored_as (ad_devices d') (deviceKey org x) v \<and> de_Status v = AdmActive \<and> de_MemberID v = ae_ActorMemberID e) \<or>
      action = ''member.revoked'' \<and>
        (\<exists>v t. stored_as (ad_members d) (memberKey org x) v \<and> me_Status v \<noteq> AdmRevoked \<and>
           stored_as (ad_members d') (memberKey org x) (v\<lparr>me_Status := AdmRevoked, me_RevokedAt := Some t\<rparr>)) \<or>
      action = ''device.revoked'' \<and>
        (\<exists>v t. stored_as (ad_devices d) (deviceKey org x) v \<and> de_Status v \<noteq> AdmRevoked \<and>
           stored_as (ad_devices d') (deviceKey org x) (v\<lparr>de_Status := AdmRevoked, de_RevokedAt := Some t\<rparr>)))"

text \<open>One new event at the head of its organization's list, which is then cut to the maximum.\<close>

definition logged :: "AuditEvent \<Rightarrow> admin_db \<Rightarrow> admin_db \<Rightarrow> bool" where
  "logged e d d' \<longleftrightarrow>
     ad_audit d' = (ad_audit d)(auditKey (ae_OrganizationID e) :=
       take maximumAuditEvents (Json e # ad_audit d (auditKey (ae_OrganizationID e))))"

definition audited :: "admin_db \<Rightarrow> admin_db \<Rightarrow> bool" where
  "audited d d' \<longleftrightarrow> (\<exists>e. logged e d d' \<and> accounts_for e d d')"

lemma accounts_for_change: "accounts_for e d d' \<Longrightarrow> \<not> same_records d d'"
  by (auto simp: accounts_for_def same_records_def stored_as_def Let_def dest!: arg_cong [of _ "_ :: Invite" iv_Status]
      arg_cong [of _ "_ :: Member" me_Status] arg_cong [of _ "_ :: Device" de_Status])

lemma audited_push:
  "ad_audit d0 = ad_audit d \<Longrightarrow> ae_OrganizationID e = org \<Longrightarrow> accounts_for e d (push_audit org e d0) \<Longrightarrow>
   audited d (push_audit org e d0)"
  unfolding audited_def by (rule exI [of _ e]) (auto simp: logged_def push_audit_def)

lemma stored_as_rset [simp]: "stored_as (rset clk k x ttl m) k' y \<longleftrightarrow> (if k' = k then x = y else stored_as m k' y)"
  by (auto simp: stored_as_def rset_def)

lemma rget_stored: "rget clk m k = Some (Json x) \<Longrightarrow> stored_as m k x"
  by (auto simp: rget_def stored_as_def split: option.splits if_splits)

lemma adm_rotate_changes:
  assumes "rget (db_clock d) (ad_credentials d) (credentialKey old) = Some (Json c)" "cd_Kind c = TokenAdmin"
    "cd_OrganizationID c = org" "cd_MemberID c = m" "old \<noteq> new" "ae_OrganizationID e = org" "ae_TargetID e = m"
    "ae_Action e = ''admin.credential_rotated''"
    "ad_credentials d' = rdel (credentialKey old) (rset clk (credentialKey new) c' ttl (ad_credentials d))"
    "cd_Kind c' = TokenAdmin" "cd_OrganizationID c' = org" "cd_MemberID c' = m"
  shows "accounts_for e d d'"
proof -
  have "stored_as (ad_credentials d) (credentialKey old) c" "ad_credentials d' (credentialKey old) = None"
    "stored_as (ad_credentials d') (credentialKey new) c'"
    using rget_stored [OF assms(1)] assms(5,9) by (auto simp: rdel_def stored_as_def rset_def)
  with assms show ?thesis by (auto simp: accounts_for_def Let_def)
qed

text \<open>Every step of the administration either changes no record and no log, or changes a record and logs that.\<close>

lemma audit_step:
  assumes "admin_step d d'" "admin_inv d"
  shows "same_records d d' \<and> ad_audit d' = ad_audit d \<or> audited d d'"
  using assms(1)
proof cases
  case (adm_relay r)
  then show ?thesis by (simp add: same_records_def)
next
  case (adm_bootstrap org r eventID now)
  then have "accounts_for \<lparr>ae_ID = eventID, ae_OrganizationID = org, ae_ActorMemberID = me_ID (br_Admin (bs_Result r)), ae_ActorDeviceID = [],
         ae_Action = ''organization.bootstrapped'', ae_TargetType = ''organization'', ae_TargetID = org, ae_OccurredAt = now,
         ae_Metadata = NoMetadata\<rparr> d d'"
    by (simp add: accounts_for_def commit_defs Let_def)
  then show ?thesis unfolding adm_bootstrap(1) bootstrap_commit_def Let_def adm_bootstrap(4)
    by (intro disjI2 audited_push) (simp_all add: commit_defs adm_bootstrap)
next
  case (adm_rotate eventID p r a f x)
  let ?e = "(plain_event eventID (an_OrganizationID r) p ''admin.credential_rotated'' ''member'' (an_MemberID r) (an_RotatedAt r))\<lparr>ae_ActorDeviceID := []\<rparr>"
  from adm_rotate(2) obtain c where c: "rget (db_clock d) (ad_credentials d) (credentialKey (an_OldTokenHash r)) = Some (Json c)"
    "cd_Kind c = TokenAdmin" "cd_OrganizationID c = an_OrganizationID r" "cd_MemberID c = an_MemberID r"
    "an_OldTokenHash r \<noteq> an_NewTokenHash r"
    unfolding adm_rotate(3) by (auto simp: rotate_body_def split: if_splits sum.splits)
  have "accounts_for ?e d d'"
    by (rule adm_rotate_changes [OF c]) (use rotate_body_ExecD [OF adm_rotate(2)] in
        \<open>simp_all add: adm_rotate(1) commit_defs Let_def plain_event_def\<close>, simp_all)
  then show ?thesis using rotate_body_ExecD [OF adm_rotate(2)] unfolding adm_rotate(1)
    by (intro disjI2) (simp add: rotate_commit_def Let_def, rule audited_push, simp_all)
next
  case (adm_invite invite hash eventID p now)
  have "accounts_for ((plain_event eventID (iv_OrganizationID invite) p ''invite.created'' ''invite'' (iv_ID invite) now)
          \<lparr>ae_Metadata := ExpiryMetadata (iv_ExpiresAt invite)\<rparr>) d d'"
    using adm_invite by (auto simp: accounts_for_def plain_event_def commit_defs Let_def)
  then show ?thesis unfolding adm_invite(1) create_invite_commit_def Let_def by (intro disjI2 audited_push) simp_all
next
  case (adm_revoke_invite p eventID inviteID a f x)
  from adm_revoke_invite(3) obtain v where v: "readInvite d (pr_OrganizationID p) inviteID = Inr v" "iv_Status v \<noteq> AdmUsed"
    "iv_Status v \<noteq> AdmRevoked" and f: "f = revoke_invite_commit eventID p (v\<lparr>iv_Status := AdmRevoked, iv_RevokedAt := Some (att_now a)\<rparr>) inviteID (att_now a)"
    by (elim revoke_invite_body_ExecD)
  from v have i: "iv_ID v = inviteID" "stored_as (ad_invites d) (inviteKey (pr_OrganizationID p) inviteID) v"
    using assms(2) adm_revoke_invite(2) by (auto simp: admin_inv_def dest: invite_read rget_stored)
  have "accounts_for (plain_event eventID (pr_OrganizationID p) p ''invite.revoked'' ''invite'' inviteID (att_now a)) d d'"
    using i v by (auto simp: accounts_for_def plain_event_def adm_revoke_invite(1) f commit_defs Let_def)
  then show ?thesis unfolding adm_revoke_invite(1) f revoke_invite_commit_def Let_def by (intro disjI2 audited_push) (simp_all add: i)
next
  case (adm_enroll rnd ref inviteHash requestHash i see a f x)
  from adm_enroll(2) obtain v where v: "readInvite d (ir_OrganizationID ref) (ir_InviteID ref) = Inr v"
    "er_Device x = \<lparr>de_ID = randomID (rnd 1) ''dev_'', de_OrganizationID = iv_OrganizationID v, de_MemberID = me_ID (er_Member x),
       de_AgentID = randomID (rnd 2) ''agent_'', de_Name = ei_DeviceName i, de_Runtime = ei_Runtime i,
       de_PermissionProfile = ei_PermissionProfile i, de_Status = AdmActive, de_CreatedAt = ei_Now i,
       de_LastSeenAt = None, de_RevokedAt = None\<rparr>"
    "f = enroll_commit (randomID (rnd 3) ''aud_'') ref inviteHash requestHash i v (iv_MemberID v = []) x"
    by (elim enroll_body_ExecD) blast
  let ?e = "\<lparr>ae_ID = randomID (rnd 3) ''aud_'', ae_OrganizationID = iv_OrganizationID v, ae_ActorMemberID = me_ID (er_Member x),
     ae_ActorDeviceID = de_ID (er_Device x), ae_Action = ''device.enrolled'', ae_TargetType = ''device'', ae_TargetID = de_ID (er_Device x),
     ae_OccurredAt = ei_Now i, ae_Metadata = RuntimeMetadata (de_Runtime (er_Device x)) (de_PermissionProfile (er_Device x))\<rparr>"
  have o: "iv_OrganizationID v = ir_OrganizationID ref" using v(1) assms(2) adm_enroll(3) by (auto simp: admin_inv_def dest: invite_read)
  have "accounts_for ?e d d'" using adm_enroll(4) o by (auto simp: accounts_for_def adm_enroll(1) v(2,3) commit_defs Let_def)
  then show ?thesis unfolding adm_enroll(1) v(3) enroll_commit_def Let_def by (intro disjI2 audited_push) simp_all
next
  case (adm_revoke_member p see eventID memberID a f x)
  from adm_revoke_member(4) obtain m devices hashes where m: "readMember d (pr_OrganizationID p) memberID = Inr m"
    "me_Status m = AdmRevoked \<and> f = addRevokedAgentTombstones (pr_OrganizationID p) (agentIDsFromDevices devices) \<or>
     me_Status m \<noteq> AdmRevoked \<and> f = revoke_member_commit eventID p memberID m devices hashes (att_now a)"
    by (elim revoke_member_body_ExecD) blast
  from m have i: "me_ID m = memberID" "stored_as (ad_members d) (memberKey (pr_OrganizationID p) memberID) m"
    using assms(2) adm_revoke_member(2) by (auto simp: admin_inv_def dest: member_read rget_stored)
  from m(2) show ?thesis
  proof (elim disjE conjE)
    assume f: "me_Status m \<noteq> AdmRevoked" "f = revoke_member_commit eventID p memberID m devices hashes (att_now a)"
    have "accounts_for (plain_event eventID (pr_OrganizationID p) p ''member.revoked'' ''member'' memberID (att_now a)) d d'"
      using i f by (auto simp: accounts_for_def plain_event_def adm_revoke_member(1) commit_defs Let_def)
    then show ?thesis unfolding adm_revoke_member(1) f(2) revoke_member_commit_def Let_def
      by (intro disjI2 audited_push) (simp_all add: i)
  qed (simp add: same_records_def adm_revoke_member(1))
next
  case (adm_revoke_device p eventID deviceID a f x)
  from adm_revoke_device(3) obtain v where v: "readDevice d (pr_OrganizationID p) deviceID = Inr v"
    "de_Status v = AdmRevoked \<and> f = addRevokedAgentTombstones (pr_OrganizationID p) [de_AgentID v] \<or>
     de_Status v \<noteq> AdmRevoked \<and> f = revoke_device_commit eventID p deviceID v
           (plain_string (rget (db_clock d) (ad_devicehashes d) (deviceCredentialKey (pr_OrganizationID p) (de_ID v)))) (att_now a)"
    by (elim revoke_device_body_ExecD) blast
  from v have i: "de_ID v = deviceID" "stored_as (ad_devices d) (deviceKey (pr_OrganizationID p) deviceID) v"
    using assms(2) adm_revoke_device(2) by (auto simp: admin_inv_def dest: device_read rget_stored)
  from v(2) show ?thesis
  proof (elim disjE conjE)
    assume f: "de_Status v \<noteq> AdmRevoked" "f = revoke_device_commit eventID p deviceID v
           (plain_string (rget (db_clock d) (ad_devicehashes d) (deviceCredentialKey (pr_OrganizationID p) (de_ID v)))) (att_now a)"
    have "accounts_for (plain_event eventID (pr_OrganizationID p) p ''device.revoked'' ''device'' deviceID (att_now a)) d d'"
      using i f by (auto simp: accounts_for_def plain_event_def adm_revoke_device(1) commit_defs Let_def)
    then show ?thesis unfolding adm_revoke_device(1) f(2) revoke_device_commit_def Let_def
      by (intro disjI2 audited_push) (simp_all add: i)
  qed (simp add: same_records_def adm_revoke_device(1))
qed

section \<open>The relay sees the revocations\<close>

lemma tombstones_are_steps:
  "relay_steps d (d\<lparr>db_sets := fold (r_sadd (db_clock d) (revokedAgentsKey org)) xs (db_sets d)\<rparr>)"
proof (induction xs arbitrary: d)
  case (Cons x xs)
  have "relay_step d (revoke_one org x d)" by (rule step_revoke)
  with Cons.IH [of "revoke_one org x d"] show ?case
    by (simp add: revoke_one_def converse_rtranclp_into_rtranclp)
qed simp

lemma truncate_fields [simp]:
  "relay_db.truncate (d\<lparr>db_sets := S\<rparr>) = (relay_db.truncate d)\<lparr>db_sets := S\<rparr>"
  "relay_db.truncate (d\<lparr>ad_complete := A\<rparr>) = relay_db.truncate d" "relay_db.truncate (d\<lparr>ad_bootrecord := B\<rparr>) = relay_db.truncate d"
  "relay_db.truncate (d\<lparr>ad_organizations := C\<rparr>) = relay_db.truncate d" "relay_db.truncate (d\<lparr>ad_members := D\<rparr>) = relay_db.truncate d"
  "relay_db.truncate (d\<lparr>ad_devices := E\<rparr>) = relay_db.truncate d" "relay_db.truncate (d\<lparr>ad_invites := F\<rparr>) = relay_db.truncate d"
  "relay_db.truncate (d\<lparr>ad_credentials := G\<rparr>) = relay_db.truncate d" "relay_db.truncate (d\<lparr>ad_invitetokens := H\<rparr>) = relay_db.truncate d"
  "relay_db.truncate (d\<lparr>ad_invitehashes := I\<rparr>) = relay_db.truncate d" "relay_db.truncate (d\<lparr>ad_devicehashes := J\<rparr>) = relay_db.truncate d"
  "relay_db.truncate (d\<lparr>ad_rotations := K\<rparr>) = relay_db.truncate d" "relay_db.truncate (d\<lparr>ad_enrollments := M\<rparr>) = relay_db.truncate d"
  "relay_db.truncate (d\<lparr>ad_sets := N\<rparr>) = relay_db.truncate d"
  "db_sets (relay_db.truncate d) = db_sets d" "db_clock (relay_db.truncate d) = db_clock d" "db_up (relay_db.truncate d) = db_up d"
  by (simp_all add: relay_db.defs)

lemma truncate_tombstones:
  fixes d :: admin_db
  shows "relay_steps (relay_db.truncate d)
     ((relay_db.truncate d)\<lparr>db_sets := fold (r_sadd (db_clock d) (revokedAgentsKey org)) xs (db_sets d)\<rparr>)"
    "relay_steps (relay_db.truncate d) ((relay_db.truncate d)\<lparr>db_sets := r_sadd (db_clock d) (revokedAgentsKey org) x (db_sets d)\<rparr>)"
    "relay_steps (relay_db.truncate d) ((relay_db.truncate d)\<lparr>db_sets := db_sets d\<rparr>)"
  using tombstones_are_steps [of "relay_db.truncate d" org xs] tombstones_are_steps [of "relay_db.truncate d" org "[x]"]
    tombstones_are_steps [of "relay_db.truncate d" org "[]"] by simp_all

text \<open>To the relay, a step of the administrative store is nothing, a step of its own, or some tombstones.\<close>

lemma admin_step_relay: "admin_step d d' \<Longrightarrow> relay_steps (relay_db.truncate d) (relay_db.truncate d')"
  by (induction rule: admin_step.induct)
    (auto simp: commit_defs Let_def dest!: rotate_body_ExecD elim!: body_elims intro: truncate_tombstones)

lemma admin_steps_relay: "admin_steps d d' \<Longrightarrow> relay_steps (relay_db.truncate d) (relay_db.truncate d')"
  by (induction rule: rtranclp_induct) (auto dest: admin_step_relay intro: rtranclp_trans)

section \<open>What a successful revocation leaves\<close>

lemma fold_sadd_in:
  assumes "a \<in> set xs \<or> sismember clk m k a"
  shows "sismember clk (fold (r_sadd clk k) xs m) k a"
  using assms by (induction xs arbitrary: m) (auto simp: sismember_def set_sadd)

lemma revoke_not_done [simp]:
  "revoke_device_body ev p dev a d \<noteq> TxDone r" "revoke_member_body ev p m see a d \<noteq> TxDone r"
  by (simp_all add: revoke_device_body_def revoke_member_body_def Let_def split: sum.split)

lemma revoke_device_done:
  assumes "device_revocation.replies p dev ev atts db db' r"
  shows "(\<exists>x. ad_devices db' (deviceKey (pr_OrganizationID p) dev) = Some (Json x, None) \<and> de_Status x = AdmRevoked \<and>
      r = \<lparr>rv_OrganizationID = pr_OrganizationID p, rv_AgentIDs = [de_AgentID x]\<rparr>) \<and>
    (\<forall>a\<in>set (rv_AgentIDs r). TrimSpace a \<noteq> [] \<longrightarrow> revoked_in (relay_db.truncate db') (pr_OrganizationID p) a)"
proof -
  let ?o = "pr_OrganizationID p"
  obtain i d f d' where b: "revoke_device_body ev p dev (atts i) d = TxExec f r" and v: "device_view ?o dev d' = device_view ?o dev d"
    and db': "db' = f d'" and J: "admin_inv d'" "validID ?o ''org_''"
    using assms unfolding device_revocation.replies_def by auto
  from b show ?thesis
  proof (elim revoke_device_body_ExecD disjE conjE)
    fix device
    assume d: "readDevice d ?o dev = Inr device" "de_Status device = AdmRevoked" "f = addRevokedAgentTombstones ?o [de_AgentID device]"
      "r = \<lparr>rv_OrganizationID = ?o, rv_AgentIDs = [de_AgentID device]\<rparr>"
    then have "ad_devices d' (deviceKey ?o dev) = Some (Json device, None)"
      using v J by (auto simp: device_view_def admin_inv_def dest: device_read)
    with d db' show ?thesis by (auto simp: revoked_in_def sismember_def set_sadd)
  qed (auto simp: db' commit_defs Let_def revoked_in_def sismember_def set_sadd)
qed

lemma revoke_member_done:
  assumes "member_revocation.replies p m ev see atts db db' r"
  shows "(\<exists>x. ad_members db' (memberKey (pr_OrganizationID p) m) = Some (Json x, None) \<and> me_Status x = AdmRevoked) \<and>
    rv_OrganizationID r = pr_OrganizationID p \<and> (\<forall>a\<in>set (rv_AgentIDs r). TrimSpace a \<noteq> [] \<longrightarrow> revoked_in (relay_db.truncate db') (pr_OrganizationID p) a)"
proof -
  let ?o = "pr_OrganizationID p"
  obtain i d f d' where b: "revoke_member_body ev p m see (atts i) d = TxExec f r" and v: "member_view ?o m d' = member_view ?o m d"
    and db': "db' = f d'" and J: "admin_inv d'" "validID ?o ''org_''"
    using assms unfolding member_revocation.replies_def by auto
  from b show ?thesis
  proof (elim revoke_member_body_ExecD disjE conjE)
    fix member devices
    assume d: "readMember d ?o m = Inr member" "me_Status member = AdmRevoked"
      "f = addRevokedAgentTombstones ?o (agentIDsFromDevices devices)"
      "r = \<lparr>rv_OrganizationID = ?o, rv_AgentIDs = agentIDsFromDevices devices\<rparr>"
    then have "ad_members d' (memberKey ?o m) = Some (Json member, None)"
      using v J by (auto simp: member_view_def admin_inv_def dest: member_read)
    with d db' show ?thesis by (auto simp: revoked_in_def intro!: fold_sadd_in)
  qed (auto simp: db' commit_defs Let_def revoked_in_def intro!: fold_sadd_in)
qed

text \<open>A token that authenticates belongs to a member, and to a device, that are not revoked.\<close>

lemma Authenticate_ok:
  assumes "Authenticate L tok d0 d1 d2 = Inr q"
  obtains c m where "readCredential d0 (Hash L tok) = Inr c" "validID (cd_OrganizationID c) ''org_''"
    "readMember d1 (cd_OrganizationID c) (cd_MemberID c) = Inr m" "me_Status m = AdmActive"
    "pr_OrganizationID q = cd_OrganizationID c" "pr_MemberID q = cd_MemberID c"
    "pr_DeviceID q = [] \<or> (\<exists>x. readDevice d2 (cd_OrganizationID c) (cd_DeviceID c) = Inr x \<and> de_Status x = AdmActive \<and> pr_DeviceID q = de_ID x)"
proof -
  obtain c where c: "readCredential d0 (Hash L tok) = Inr c"
    using assms unfolding Authenticate_def by (auto split: sum.splits if_splits)
  moreover obtain m where m: "readMember d1 (cd_OrganizationID c) (cd_MemberID c) = Inr m"
    using assms c unfolding Authenticate_def by (auto simp del: read_record split: sum.splits if_splits)
  ultimately show thesis
    using assms by (intro that [OF c _ m])
      (auto simp: Authenticate_def admin_principal_def Let_def simp del: read_record split: sum.splits if_splits)
qed

lemma Authenticate_active:
  assumes "Authenticate L tok d0 d1 d2 = Inr q" "admin_inv d1" "admin_inv d2"
  shows "\<exists>m. ad_members d1 (memberKey (pr_OrganizationID q) (pr_MemberID q)) = Some (Json m, None) \<and> me_Status m = AdmActive"
    "pr_DeviceID q = [] \<or>
      (\<exists>x. ad_devices d2 (deviceKey (pr_OrganizationID q) (pr_DeviceID q)) = Some (Json x, None) \<and> de_Status x = AdmActive)"
  using assms(1) by (rule Authenticate_ok; use assms(2,3) in \<open>auto simp: admin_inv_def dest: member_read device_read\<close>)+

section \<open>Properties\<close>

text \<open>
  C27. The administrative store refines its protocol: whatever the other clients do between any two of
  its commands, as long as they take steps of the protocol and do not use the identifiers and the
  invite token the call has drawn, and wherever the connection fails, each operation moves the
  database along steps of the protocol; and the invariant of the database survives.
\<close>

theorem admin_refines_protocol:
  assumes "admin_inv db" "undrawn rnd hash db" "length (rnd 0) = 16" "\<And>n. environment (undrawn rnd hash) (env n)"
    "\<And>n. obeys (see n)" "\<And>n. obeys (post n)" "attempts (undrawn rnd hash) atts" "ci_InviteTokenHash invite = hash"
    and "db' \<in> {fst (Bootstrap (L :: adminlib) rnd wall see atts boot db),
      fst (RotateAdminCredential L rnd wall (env 0) atts p rot db), fst (CreateInvite L rnd wall env reply p invite db),
      fst (RevokeInvite rnd (env 0) atts p i db), fst (Enroll L rnd wall env see atts post token enr db),
      fst (RevokeMember rnd (env 0) see atts p i db), fst (RevokeDevice rnd (env 0) atts p i db)}"
  shows "admin_steps db db' \<and> admin_inv db'"
proof -
  note weak = environment_weaken(1) [OF assms(4)] environment_weaken(2) [OF assms(7)]
  have "admin_steps db db'"
    using assms(9) Bootstrap_steps(1) [OF assms(1,7,2,3)] Rotate_steps [OF assms(1) weak] CreateInvite_steps [of rnd invite env db]
      RevokeInvite_steps [OF assms(1) weak] Enroll_steps [OF assms(1,4,7,6,2)] RevokeMember_steps(1) [OF assms(1) weak assms(5)]
      RevokeDevice_steps(1) [OF assms(1) weak] assms(2,4,8) by auto
  with admin_steps_inv [OF this assms(1)] show ?thesis by blast
qed

theorem admin_refines_protocol_witness:
  "admin_steps adm_empty adm_booted \<and> admin_inv adm_booted \<and> ad_complete adm_booted = Some adm_org"
proof -
  have "admin_steps adm_empty adm_booted \<and> admin_inv adm_booted"
    by (rule admin_refines_protocol [where rnd = "\<lambda>_. replicate 16 CHR ''o''" and env = "\<lambda>_ d. d" and see = "\<lambda>_ d. d" and post = "\<lambda>_ d. d"
        and atts = "\<lambda>_. calm 0" and L = adm_lib and wall = 0 and boot = adm_boot, OF adm_empty_inv adm_undrawn(1)])
      (simp_all add: adm_bootstraps(1))
  then show ?thesis
    by (simp add: adm_booted_def bootstrap_commit_def adm_boot_record_def boot_record_def bootstrap_result_def Let_def)
qed

text \<open>
  C26. Revocation is final. After a device (or a member) has been revoked, and however the calls of
  other clients are interleaved, no token ever authenticates as that device (or that member)
  again, although \<open>Authenticate\<close> reads the credential, the member and the device one after the other.
\<close>

theorem revoked_never_authenticates:
  assumes "admin_inv db" "obeys env" "attempts (\<lambda>_. True) atts" "\<And>n. obeys (see n)"
    and "admin_steps db' d0" "admin_steps d0 d1" "admin_steps d1 d2"
    and "Authenticate L tok d0 d1 d2 = Inr q" "pr_OrganizationID q = pr_OrganizationID p"
  shows "(RevokeDevice rnd env atts p i db = (db', Inr r) \<longrightarrow> pr_DeviceID q \<noteq> i) \<and>
    (RevokeMember rnd env see atts p i db = (db', Inr r) \<longrightarrow> pr_MemberID q \<noteq> i)"
proof (intro conjI impI notI)
  have later: "admin_steps db' d1" "admin_steps db' d2" using assms(5-7) rtranclp_trans by metis+
  {
    assume r: "RevokeDevice rnd env atts p i db = (db', Inr r)" and q: "pr_DeviceID q = i"
    have inv: "admin_inv db'" using RevokeDevice_steps(1) [OF assms(1-3), of rnd p i] admin_steps_inv [OF _ assms(1)] r by auto
    have "validID i ''dev_''" using r by (auto simp: RevokeDevice_def Let_def split: sum.splits if_splits)
    then have "i \<noteq> []" by (rule validID_nonempty)
    with q Authenticate_active(2) [OF assms(8)] admin_steps_inv [OF _ inv] later assms(9) obtain x where
      x: "ad_devices d2 (deviceKey (pr_OrganizationID p) i) = Some (Json x, None)" "de_Status x = AdmActive" by metis
    from RevokeDevice_steps(2) [OF assms(1-3) r] revoke_device_done revoked_stays(1) [OF later(2) inv] show False
      using x by fastforce
  next
    assume r: "RevokeMember rnd env see atts p i db = (db', Inr r)" and q: "pr_MemberID q = i"
    have "admin_steps db (fst (RevokeMember rnd env see atts p i db))" by (rule RevokeMember_steps(1)) (fact assms)+
    then have inv: "admin_inv db'" using admin_steps_inv [OF _ assms(1)] r by auto
    with q Authenticate_active(1) [OF assms(8)] admin_steps_inv [OF _ inv] later assms(9) obtain x where
      x: "ad_members d1 (memberKey (pr_OrganizationID p) i) = Some (Json x, None)" "me_Status x = AdmActive" by metis
    from RevokeMember_steps(2) [where see = see, OF assms(1-4) r] revoke_member_done revoked_stays(2) [OF later(1) inv] show False
      using x by fastforce
  }
qed

theorem revoked_never_authenticates_witness:
  "\<exists>q. Authenticate adm_lib (adm_token ''tr_dev_'' CHR ''2'') adm_revoked_device adm_revoked_device adm_revoked_device = Inr q \<and>
     pr_DeviceID q \<noteq> adm_id ''dev_'' CHR ''1''"
proof -
  obtain q where q: "Authenticate adm_lib (adm_token ''tr_dev_'' CHR ''2'') adm_revoked_device adm_revoked_device adm_revoked_device = Inr q"
    "pr_OrganizationID q = pr_OrganizationID adm_root" using adm_device_authenticates by auto
  from revoked_never_authenticates [where see = "\<lambda>_ d. d", OF adm_db_inv environment_id(2,3) _ _ _ _ q] adm_revoke_device
  have "pr_DeviceID q \<noteq> adm_id ''dev_'' CHR ''1''" by (simp, blast)
  with q show ?thesis by blast
qed

text \<open>
  Revocation reaches the relay. If a revocation reports an agent, then from that moment on no
  request that agent had made and that was not accepted yet is accepted, running, completed or failed,
  whatever the administrators and the agents of the organization do next.
\<close>

theorem revocation_stops_requests:
  assumes "admin_inv db" "obeys env" "attempts (\<lambda>_. True) atts" "\<And>n. obeys (see n)" "reachable (relay_db.truncate db)"
    and "RevokeDevice rnd env atts p i db = (db', Inr r) \<or> RevokeMember rnd env see atts p i db = (db', Inr r)"
    and "readStoredRequest (relay_db.truncate db') (pr_OrganizationID p) j = Inr s" "not_accepted (status s)"
      "rq_RequesterAgentID (sr_Request s) \<in> set (rv_AgentIDs r)" "TrimSpace (rq_RequesterAgentID (sr_Request s)) \<noteq> []"
    and "admin_steps db' d" "readStoredRequest (relay_db.truncate d) (pr_OrganizationID p) j = Inr s'"
  shows "not_accepted (status s')"
proof -
  have dev: "admin_steps db (fst (RevokeDevice rnd env atts p i db))" by (rule RevokeDevice_steps(1)) (fact assms)+
  have mem: "admin_steps db (fst (RevokeMember rnd env see atts p i db))" by (rule RevokeMember_steps(1)) (fact assms)+
  from dev mem assms(6) have "admin_steps db db'" by auto
  then have "reachable (relay_db.truncate db')" using admin_steps_relay reachable_steps [OF assms(5)] by blast
  moreover have "revoked_in (relay_db.truncate db') (pr_OrganizationID p) (rq_RequesterAgentID (sr_Request s))"
    using assms(6)
  proof
    assume "RevokeDevice rnd env atts p i db = (db', Inr r)"
    from RevokeDevice_steps(2) [OF assms(1-3) this] show ?thesis using revoke_device_done assms(9,10) by blast
  next
    assume "RevokeMember rnd env see atts p i db = (db', Inr r)"
    from RevokeMember_steps(2) [where see = see, OF assms(1-4) this] show ?thesis using revoke_member_done assms(9,10) by blast
  qed
  ultimately show ?thesis
    using revoked_not_accepted assms(7,8,12) admin_steps_relay [OF assms(11)] by blast
qed

theorem revocation_stops_requests_witness:
  "readStoredRequest (relay_db.truncate adm_revoked_device) adm_org ''r1'' = Inr adm_request \<and> not_accepted (status adm_request)"
proof -
  have r: "readStoredRequest (relay_db.truncate adm_revoked_device) (pr_OrganizationID adm_root) ''r1'' = Inr adm_request"
    using adm_relay_read by (simp add: adm_revoked_device_def revoke_device_commit_def Let_def readStoredRequest_def)
  have "not_accepted (status adm_request)" "rq_RequesterAgentID (sr_Request adm_request) = adm_id ''agent_'' CHR ''1''"
    by (simp_all add: not_accepted_def adm_request_def new_stored_def new_request_def adm_requester_def)
  moreover have "TrimSpace (adm_id ''agent_'' CHR ''1'') \<noteq> []"
    using TrimSpace_token [of "''agent_''" "replicate 16 CHR ''1''"] by (simp add: randomID_def IsSpace_def)
  ultimately have "not_accepted (status adm_request)"
    using revocation_stops_requests [where see = "\<lambda>_ d. d", OF adm_db_inv environment_id(2,3) _ _ disjI1 [OF adm_revoke_device] r _ _ _ _ r]
      adm_relay_reachable by simp
  with r show ?thesis by simp
qed

lemma bootstrap_stays:
  assumes "admin_steps d d'" "ad_complete d \<noteq> None"
  shows "ad_complete d' = ad_complete d \<and> ad_bootrecord d' = ad_bootrecord d"
  using assms by (induction rule: rtranclp_induct) (auto dest: step_untouched)

lemma Bootstrap_record:
  assumes "bootstrapping.replies L rnd wall input ev now see h atts db db' r" "\<And>n. obeys (see n)"
  obtains rec where "ad_complete db' \<noteq> None" "ad_bootrecord db' = Some (Json rec)" "bs_Result rec = r"
    "ad_complete db = None \<or> ad_complete db' = ad_complete db \<and> ad_bootrecord db' = ad_bootrecord db"
proof -
  let ?r = "boot_record L rnd wall input"
  obtain i d where J: "admin_inv d" "admin_steps db d" and c:
    "bootstrap_body ev ?r now see (atts i) d = TxDone r \<and> db' = d \<or>
     (\<exists>f d'. bootstrap_body ev ?r now see (atts i) d = TxExec f r \<and> admin_steps d d' \<and>
        bootstrap_view (bs_AdminTokenHash ?r) d' = bootstrap_view (bs_AdminTokenHash ?r) d \<and> db' = f d')"
    using assms(1) unfolding bootstrapping.replies_def by blast
  from c show thesis
  proof (elim disjE exE conjE)
    assume b: "bootstrap_body ev ?r now see (atts i) d = TxDone r" and db': "db' = d"
    then have cpl: "ad_complete d \<noteq> None" by (auto simp: bootstrap_body_def split: if_splits)
    with b obtain rec where rec: "ad_bootrecord (see 0 d) = Some (Json rec)" "bs_Result rec = r"
      by (auto simp: bootstrap_body_def bootstrap_replay_def Let_def split: if_splits option.splits raw.splits sum.splits)
    have "ad_bootrecord (see 0 d) = ad_bootrecord d" using bootstrap_stays [OF environmentD(1) [OF assms(2)] cpl] by blast
    with that [of rec] rec cpl db' bootstrap_stays [OF J(2)] show thesis by (cases "ad_complete db") auto
  next
    fix f d'
    assume b: "bootstrap_body ev ?r now see (atts i) d = TxExec f r" and db': "db' = f d'"
    then have f: "f = bootstrap_commit ev ?r now" "r = bs_Result ?r" "ad_complete d = None"
      by (auto simp: bootstrap_body_def bootstrap_replay_def Let_def split: if_splits option.splits raw.splits sum.splits)
    have "ad_complete db = None" using bootstrap_stays [OF J(2)] f(3) by metis
    moreover have "ad_complete db' \<noteq> None \<and> ad_bootrecord db' = Some (Json ?r)" by (simp add: db' f(1) commit_defs Let_def)
    ultimately show thesis using that [of ?r] f(2) by simp
  qed
qed

text \<open>
  C28. The relay is bootstrapped once: whatever happens in between, and whoever calls, every
  \<open>Bootstrap\<close> that succeeds returns the organization and the administrator of the first one.
\<close>

theorem bootstrap_once:
  assumes "admin_inv db" "attempts (undrawn rnd h) atts" "undrawn rnd h db" "length (rnd 0) = 16" "\<And>n. obeys (see n)"
    and "attempts (undrawn rnd' h') atts'" "undrawn rnd' h' db2" "length (rnd' 0) = 16" "\<And>n. obeys (see' n)"
    and "Bootstrap (L :: adminlib) rnd wall see atts input db = (db1, Inr r)" "admin_steps db1 db2"
      "Bootstrap L rnd' wall' see' atts' input' db2 = (db3, Inr r')"
  shows "r' = r"
proof -
  obtain rec where one: "ad_complete db1 \<noteq> None" "ad_bootrecord db1 = Some (Json rec)" "bs_Result rec = r"
    using Bootstrap_record [OF Bootstrap_steps(2) [OF assms(1-4,10)] assms(5)] .
  have "admin_inv db2" using Bootstrap_steps(1) [OF assms(1-4), of L wall see input] assms(10,11) admin_steps_inv assms(1) by fastforce
  from Bootstrap_record [OF Bootstrap_steps(2) [OF this assms(6-8,12)] assms(9)] obtain rec' where
    "ad_bootrecord db3 = Some (Json rec')" "bs_Result rec' = r'"
    "ad_complete db2 = None \<or> ad_complete db3 = ad_complete db2 \<and> ad_bootrecord db3 = ad_bootrecord db2" .
  with bootstrap_stays [OF assms(11) one(1)] one show ?thesis by auto
qed

theorem bootstrap_once_witness:
  "\<exists>r. snd (Bootstrap adm_lib (\<lambda>_. replicate 16 CHR ''z'') 0 (\<lambda>_ d. d) (\<lambda>_. calm 0) adm_boot adm_booted) = Inr r \<and> r = bs_Result adm_boot_record"
  using adm_bootstraps(2) bootstrap_once [where see = "\<lambda>_ d. d" and see' = "\<lambda>_ d. d" and h = "[]" and h' = "[]",
      OF adm_empty_inv environment_id(3) adm_undrawn(1) _ _ environment_id(3) adm_undrawn(2) _ _ adm_bootstraps(1) rtranclp.rtrancl_refl adm_bootstraps(2)]
  by simp

lemma enrollment_step:
  assumes "admin_step d d'" "admin_inv d" "ad_enrollments d k = Some c"
  shows "ad_enrollments d' k = Some c"
  using assms(1,2) by (cases rule: step_enrollments_cases) (use assms(3) in \<open>auto simp: rset_def\<close>)

lemma enrollment_stays: "admin_steps d d' \<Longrightarrow> admin_inv d \<Longrightarrow> ad_enrollments d k = Some c \<Longrightarrow> ad_enrollments d' k = Some c"
  by (induction rule: rtranclp_induct) (auto intro: enrollment_step admin_steps_inv)

text \<open>Some record says that the invite behind \<open>hash\<close> enrolled \<open>r\<close>.\<close>

definition enrolled :: "string \<Rightarrow> EnrollResult \<Rightarrow> admin_db \<Rightarrow> bool" where
  "enrolled hash r d \<longleftrightarrow> (\<exists>k e. ad_enrollments d k = Some (Json e, None) \<and> en_InviteTokenHash e = hash \<and> en_Result e = r)"

lemma enrolled_stays: "admin_steps d d' \<Longrightarrow> admin_inv d \<Longrightarrow> enrolled hash r d \<Longrightarrow> enrolled hash r d'"
  unfolding enrolled_def by (blast intro: enrollment_stays)

lemma enrolled_once: "admin_inv d \<Longrightarrow> enrolled hash r d \<Longrightarrow> enrolled hash r' d \<Longrightarrow> r' = r"
  unfolding enrolled_def admin_inv_def enrollments_ok_def by metis

lemma record_enrolled:
  assumes "readEnrollmentRecord s key hash rh = Inr (Some r)" "admin_inv (s 0)"
  shows "enrolled hash r (s 0)"
proof -
  obtain e where e: "rget (db_clock (s 0)) (ad_enrollments (s 0)) key = Some (Json e)" "en_InviteTokenHash e = hash" "en_Result e = r"
    using assms(1) by (auto simp: readEnrollmentRecord_def Let_def split: option.splits raw.splits sum.splits if_splits)
  then obtain dl where "ad_enrollments (s 0) key = Some (Json e, dl)" by (auto simp: rget_def split: option.splits prod.splits if_splits)
  with enrollment_cell [OF assms(2) this] e show ?thesis unfolding enrolled_def by auto
qed

lemma enroll_reply:
  assumes "enrolling.replies ref hash i rnd rh see h atts db db' r"
  shows "enrolled hash r db'"
proof -
  obtain j d where J: "admin_inv d" and c:
    "enroll_body rnd ref hash rh i see (atts j) d = TxDone r \<and> db' = d \<or>
     (\<exists>f d'. enroll_body rnd ref hash rh i see (atts j) d = TxExec f r \<and> db' = f d')"
    using assms unfolding enrolling.replies_def by blast
  from c show ?thesis
  proof (elim disjE exE conjE)
    assume "enroll_body rnd ref hash rh i see (atts j) d = TxDone r" "db' = d"
    then show ?thesis
      using record_enrolled [of "\<lambda>n. if n = 0 then d else see n d" _ hash rh r] J
      by (auto simp: enroll_body_def Let_def split: sum.splits option.splits if_splits)
  next
    fix f d'
    assume "enroll_body rnd ref hash rh i see (atts j) d = TxExec f r" "db' = f d'"
    then show ?thesis by (elim enroll_body_ExecD) (auto simp: enrolled_def commit_defs Let_def rset_def)
  qed
qed

lemma after_mono: "(\<And>n. environment P (env n)) \<Longrightarrow> m \<le> n \<Longrightarrow> admin_steps (after env db m) (after env db n)"
proof (induction n)
  case (Suc n)
  have "admin_steps (after env db n) (after env db (Suc n))" using environmentD(1) [OF Suc.prems(1)] by simp
  with Suc show ?case by (cases "m = Suc n") (auto intro: rtranclp_trans)
qed simp

lemma Enroll_enrolled:
  assumes "admin_inv db" "\<And>n. environment (undrawn rnd h) (env n)" "attempts (undrawn rnd h) atts" "\<And>n. obeys (post n)" "undrawn rnd h db"
    and "Enroll L rnd wall env see atts post tok input db = (db', Inr r)"
  shows "enrolled (Hash L tok) r db'"
proof -
  let ?s = "after env db" let ?i = "normalize_enroll L wall input" let ?h = "Hash L tok"
  let ?rh = "enrollmentRequestHash L ?h ?i" let ?k = "enrollmentIdempotencyKey (ei_IdempotencyKeyHash ?i)"
  have s: "admin_inv (?s n) \<and> undrawn rnd h (?s n)" for n
    using admin_steps_inv [OF after_steps [OF assms(2)] assms(1)] after_keeps [where P = "undrawn rnd h", OF assms(2,5)] by simp
  let ?loop = "\<lambda>ref. watch_loop db_up (enroll_view ref ?h ?i) (enroll_body rnd ref ?h ?rh ?i see) AdmRedis AdmTxFailed 5 atts (?s 5)"
  have loop: "admin_inv (fst (?loop ref)) \<and> (\<forall>r. snd (?loop ref) = Inr r \<longrightarrow> enrolled ?h r (fst (?loop ref)))"
    if "validID (ir_OrganizationID ref) ''org_''" for ref
  proof -
    have "admin_steps (?s 5) (fst (?loop ref)) \<and> (\<forall>r. snd (?loop ref) = Inr r \<longrightarrow>
        enrolling.replies ref ?h ?i rnd ?rh see h atts (?s 5) (fst (?loop ref)) r)"
      by (rule enrolling.loop_steps)
        (use that s attempts_J [OF assms(3), where J = "\<lambda>d. admin_inv d \<and> undrawn rnd h d \<and> validID (ir_OrganizationID ref) ''org_''"] in blast)+
    then show ?thesis using admin_steps_inv s enroll_reply by blast
  qed
  have first: "enrolled ?h x (?s 4)" if "readEnrollmentRecord ?s ?k ?h ?rh = Inr (Some x)" for x
    using record_enrolled [OF that] s [of 0] enrolled_stays [OF after_mono [where env = env, OF assms(2), of 0 4 db]] by simp
  have again: "enrolled ?h x (?s 10)" if "readEnrollmentRecord (\<lambda>n. ?s (n + 6)) ?k ?h ?rh = Inr (Some x)" for x
    using record_enrolled [OF that] s [of 6] enrolled_stays [OF after_mono [where env = env, OF assms(2), of 6 10 db]] by simp
  have last: "enrolled ?h x (after post d 4)" if "readEnrollmentRecord (after post d) ?k ?h ?rh = Inr (Some x)" "admin_inv d" for x d
    using record_enrolled [OF that(1)] admin_steps_inv [OF after_steps [where env = post and n = 0, OF assms(4)] that(2)]
      enrolled_stays [OF after_mono [where env = post, OF assms(4), of 0 4 d]] by simp
  have race: "enrolled ?h r db'" if "validID (ir_OrganizationID ref) ''org_''"
    "(case ?loop ref of (d, Inr result) \<Rightarrow> (d, Inr result)
      | (d, Inl e) \<Rightarrow> if e = AdmInviteUsed \<or> e = AdmConflict then
          (after post d 4, case readEnrollmentRecord (after post d) ?k ?h ?rh of
             Inl e' \<Rightarrow> Inl e' | Inr (Some result) \<Rightarrow> Inr result | Inr None \<Rightarrow> Inl e) else (d, Inl e)) = (db', Inr r)" for ref
    using that(2) loop [OF that(1)] last
    by (cases "?loop ref"; cases "snd (?loop ref)") (auto split: if_splits sum.splits option.splits)
  have start: "Kind token_kinds tok = Inr TokenInvite" "validate_enroll ?i"
    using assms(6) by (auto simp: Enroll_def Let_def split: if_splits)
  note E = assms(6) [unfolded Enroll_def Let_def]
  consider (found) x where "readEnrollmentRecord ?s ?k ?h ?rh = Inr (Some x)" | (error) e where "readEnrollmentRecord ?s ?k ?h ?rh = Inl e"
    | (none) "readEnrollmentRecord ?s ?k ?h ?rh = Inr None" by (metis not_None_eq sum.exhaust)
  then show ?thesis
  proof cases
    case none
    then have up: "db_up (?s 5)" using E start by (auto split: if_splits)
    show ?thesis
    proof (cases "rget (db_clock (?s 5)) (ad_invitetokens (?s 5)) (inviteTokenKey ?h)")
      case None
      then show ?thesis using E start none up again by (auto split: sum.splits option.splits)
    next
      case (Some v)
      then show ?thesis using E start none up by (cases v) (auto simp del: prod.case split: if_splits intro: race)
    qed
  qed (use E start first in auto)
qed

text \<open>
  An invite enrolls one device. Two calls of \<open>Enroll\<close> with the same invite token that both
  succeed, by whomever, in whatever interleaving and with whatever details, return the same
  member and the same device: the second is a repetition of the first.
\<close>

theorem invite_enrolls_once:
  assumes "admin_inv db" "\<And>n. environment (undrawn rnd h) (env n)" "attempts (undrawn rnd h) atts" "\<And>n. obeys (post n)" "undrawn rnd h db"
    and "\<And>n. environment (undrawn rnd' h') (env' n)" "attempts (undrawn rnd' h') atts'" "\<And>n. obeys (post' n)" "undrawn rnd' h' db2"
    and "Enroll L rnd wall env see atts post tok input db = (db1, Inr r)" "admin_steps db1 db2"
      "Enroll L rnd' wall' env' see' atts' post' tok input' db2 = (db3, Inr r')"
  shows "r' = r"
proof -
  have "admin_steps db (fst (Enroll L rnd wall env see atts post tok input db))" by (rule Enroll_steps) (fact assms)+
  then have inv1: "admin_inv db1" using assms(1,10) admin_steps_inv by auto
  then have inv2: "admin_inv db2" using admin_steps_inv [OF assms(11)] by blast
  have "admin_steps db2 (fst (Enroll L rnd' wall' env' see' atts' post' tok input' db2))" by (rule Enroll_steps) (fact assms inv2)+
  then have steps: "admin_steps db2 db3" using assms(12) by simp
  have "enrolled (Hash L tok) r db1" by (rule Enroll_enrolled) (fact assms)+
  then have "enrolled (Hash L tok) r db3" using enrolled_stays steps assms(11) inv1 inv2 by blast
  moreover have "enrolled (Hash L tok) r' db3" by (rule Enroll_enrolled) (fact assms inv2)+
  ultimately show ?thesis using enrolled_once admin_steps_inv [OF steps inv2] by blast
qed

theorem invite_enrolls_once_witness:
  "adm_enroll_call CHR ''n'' adm_invited = (adm_enrolled, Inr adm_enrollment) \<and>
   snd (adm_enroll_call CHR ''z'' adm_enrolled) = Inr adm_enrollment"
  using adm_enrolls invite_enrolls_once [where env = "\<lambda>_ d. d" and env' = "\<lambda>_ d. d" and post = "\<lambda>_ d. d" and post' = "\<lambda>_ d. d",
      OF adm_invited_inv _ environment_id(3) _ adm_undrawn(3) _ environment_id(3) _ adm_undrawn(4) adm_enrolls(1) rtranclp.rtrancl_refl adm_enrolls(2)]
  by simp

text \<open>
  A rotation swaps the administrator's credential at once: in the state it leaves, a token with
  the old hash no longer authenticates, and an administrator token with the new hash does, as the
  same member of the same organization.
\<close>

theorem rotation_swaps_credential:
  assumes "admin_inv db" "obeys env" "attempts (\<lambda>_. True) atts"
    and "RotateAdminCredential L rnd wall env atts p input db = (db', Inr x)" "\<not> rr_Replayed x"
    and "Hash L old = pr_CredentialHash p" "Hash L new = ToLower L (ro_NewTokenHash input)" "Kind token_kinds new = Inr TokenAdmin"
    and "readMember db' (pr_OrganizationID p) (pr_MemberID p) = Inr m" "me_Status m = AdmActive" "me_Role m = RoleAdmin"
  shows "(\<exists>e. Authenticate L old db' d1 d2 = Inl e) \<and>
    (\<exists>q. Authenticate L new db' db' d2 = Inr q \<and> pr_OrganizationID q = pr_OrganizationID p \<and> pr_MemberID q = pr_MemberID p \<and> IsAdmin q)"
proof -
  let ?now = "normalizedTime wall (ro_Now input)" let ?h = "ToLower L (ro_NewTokenHash input)"
  let ?idem = "ToLower L (ro_IdempotencyHash input)"
  let ?base = "\<lparr>an_OrganizationID = pr_OrganizationID p, an_MemberID = pr_MemberID p, an_IdempotencyHash = ?idem,
      an_RequestHash = sha256_hex L (json_rotation L (pr_OrganizationID p, pr_MemberID p, ?h)),
      an_OldTokenHash = pr_CredentialHash p, an_NewTokenHash = ?h, an_RotatedAt = ?now\<rparr>"
  let ?r = "?base\<lparr>an_OldTokenHash := pr_CredentialHash p\<rparr>"
  let ?loop = "watch_loop db_up (rotate_view ?r) (rotate_body (randomID (rnd 0) ''aud_'') p ?r) AdmRedis AdmTxFailed 5 atts (env db)"
  have adm: "validID (pr_OrganizationID p) ''org_'' \<and> validID (pr_MemberID p) ''mem_''" and loop: "?loop = (db', Inr x)"
    using assms(4) by (auto simp: RotateAdminCredential_def Let_def split: sum.splits if_splits dest!: requireAdmin_ok)
  have e: "admin_inv (env db)" using assms(1,2) admin_steps_inv environmentD(1) by blast
  have "admin_steps (env db) (fst ?loop) \<and>
      (\<forall>r. snd ?loop = Inr r \<longrightarrow> rotation.replies p ?base (randomID (rnd 0) ''aud_'') atts (env db) (fst ?loop) r)"
    by (rule rotation.loop_steps) (use e attempts_J [OF assms(3), where J = admin_inv] in blast)+
  then have rep: "rotation.replies p ?base (randomID (rnd 0) ''aud_'') atts (env db) db' x" by (simp only: loop fst_conv snd_conv)
  have replayed: "rotate_body ev p ?r a d = TxDone x \<Longrightarrow> rr_Replayed x" for ev a d
    by (auto simp: rotate_body_def split: if_splits sum.splits)
  from rep assms(5) obtain d i f d' where "rotate_body (randomID (rnd 0) ''aud_'') p ?r (atts i) d = TxExec f x" "db' = f d'"
    unfolding rotation.replies_def using replayed by blast
  then have db': "db' = rotate_commit (randomID (rnd 0) ''aud_'') p ?r d'" "pr_CredentialHash p \<noteq> ?h"
    by (auto dest!: rotate_body_ExecD)
  have "\<exists>e. Authenticate L old db' d1 d2 = Inl e"
    using assms(6) db'(2) by (auto simp: Authenticate_def db'(1) commit_defs Let_def readCredential_def readJSON_def split: sum.splits)
  moreover have "readCredential db' ?h = Inr \<lparr>cd_Kind = TokenAdmin, cd_OrganizationID = pr_OrganizationID p, cd_MemberID = pr_MemberID p,
      cd_DeviceID = [], cd_IssuedAt = ?now\<rparr>"
    using assms(9) db' by (simp add: commit_defs Let_def)
  ultimately show ?thesis
    using assms(7-11) adm by (auto simp: Authenticate_def admin_principal_def IsAdmin_def simp del: read_record)
qed

theorem rotation_swaps_credential_witness:
  "(\<exists>e. Authenticate adm_lib (adm_token ''tr_admin_'' CHR ''1'') adm_rotated adm_rotated adm_rotated = Inl e) \<and>
   (\<exists>q. Authenticate adm_lib (adm_token ''tr_admin_'' CHR ''9'') adm_rotated adm_rotated adm_rotated = Inr q \<and> pr_MemberID q = me_ID adm_boss)"
proof -
  have "me_Status adm_boss = AdmActive" "me_Role adm_boss = RoleAdmin" by (simp_all add: adm_boss_def)
  then show ?thesis
    using rotation_swaps_credential [OF adm_db_inv environment_id(2,3) adm_rotate(1), of "adm_token ''tr_admin_'' CHR ''1''"
        "adm_token ''tr_admin_'' CHR ''9''" adm_boss adm_rotated adm_rotated] adm_rotate(2)
    by (simp add: adm_rotation_def del: read_record) blast
qed

text \<open>
  C29. Every change of an administrative record is logged, and nothing else is. A step of the system either
  leaves the bootstrap marker, the members, devices, invites and credentials as they are, and then it
  leaves all audit logs as they are; or it adds exactly one event, to the log of one organization,
  and the event says what happened: the record it names was created, or got the status or the
  credential its action tells. A repeated revocation logs nothing. No log ever holds more than ten
  thousand events, however many operations ran.
\<close>

theorem every_change_is_audited:
  assumes "admin_inv d0" "admin_steps d0 d" "admin_step d d'"
  shows "(if same_records d d' then ad_audit d' = ad_audit d else \<exists>e. logged e d d' \<and> accounts_for e d d') \<and>
    length (ad_audit d' k) \<le> maximumAuditEvents"
  using audit_step [OF assms(3) admin_steps_inv [OF assms(2,1)]] accounts_for_change
    admin_step_inv [OF assms(3) admin_steps_inv [OF assms(2,1)]]
  by (auto simp: admin_inv_def audit_ok_def audited_def)

theorem every_change_is_audited_witness:
  "length (ad_audit (bootstrap_commit (adm_id ''aud_'' CHR ''o'') adm_boot_record 1 adm_empty) (auditKey adm_org)) \<le> maximumAuditEvents \<and>
   (\<exists>e. logged e adm_empty (bootstrap_commit (adm_id ''aud_'' CHR ''o'') adm_boot_record 1 adm_empty) \<and>
      accounts_for e adm_empty (bootstrap_commit (adm_id ''aud_'' CHR ''o'') adm_boot_record 1 adm_empty))"
proof -
  have "admin_step adm_empty (bootstrap_commit (adm_id ''aud_'' CHR ''o'') adm_boot_record 1 adm_empty)"
    by (rule adm_bootstrap [where org = adm_org])
      (simp_all add: adm_boot_record_def boot_record_def bootstrap_result_def Let_def)
  moreover have "\<not> same_records adm_empty (bootstrap_commit (adm_id ''aud_'' CHR ''o'') adm_boot_record 1 adm_empty)"
    by (simp add: same_records_def bootstrap_commit_def Let_def)
  ultimately show ?thesis
    using every_change_is_audited [OF adm_empty_inv rtranclp.rtrancl_refl] by presburger
qed

text \<open>
  Only administrators administer. Unless the caller has an administrator token and its member, in
  the state in which the call begins, can be read and is active and an administrator, every
  operation on members, devices, invites, credentials or the audit log fails and writes nothing.
\<close>

theorem only_administrators:
  assumes "\<not> (IsAdmin p \<and> (\<exists>m. readMember (env 0 db) (pr_OrganizationID p) (pr_MemberID p) = Inr m \<and>
    me_Status m = AdmActive \<and> me_Role m = RoleAdmin))"
  shows "\<exists>e. RotateAdminCredential L rnd wall (env 0) atts p rot db = (env 0 db, Inl e) \<and>
    CreateInvite L rnd wall env reply p invite db = (env 0 db, Inl e) \<and> RevokeInvite rnd (env 0) atts p i db = (env 0 db, Inl e) \<and>
    RevokeMember rnd (env 0) see atts p i db = (env 0 db, Inl e) \<and> RevokeDevice rnd (env 0) atts p i db = (env 0 db, Inl e) \<and>
    ListMembers env p db = Inl e \<and> ListInvites clock env p db = Inl e \<and> ListDevices env p i db = Inl e \<and>
    ListAuditEvents env p limit db = Inl e"
proof -
  obtain e where "requireAdmin (env 0 db) p = Inl e"
    using assms requireAdmin_ok [of "env 0 db" p] by (cases "requireAdmin (env 0 db) p") auto
  then show ?thesis
    by (intro exI [of _ e]) (simp add: RotateAdminCredential_def CreateInvite_def RevokeInvite_def RevokeMember_def RevokeDevice_def
        ListMembers_def ListInvites_def ListDevices_def ListAuditEvents_def list_set_def Let_def)
qed

theorem only_administrators_witness:
  "\<exists>e. RevokeDevice (\<lambda>_. []) (\<lambda>d. d) (\<lambda>_. calm 0) adm_requester (adm_id ''dev_'' CHR ''1'') adm_db = (adm_db, Inl e)"
proof -
  have "\<not> IsAdmin adm_requester" by (simp add: IsAdmin_def adm_requester_def demo_alice_def)
  then show ?thesis
    using only_administrators [of adm_requester "\<lambda>_ d. d" adm_db] by fastforce
qed

end
