(* ===== verification/Approval_Store.thy ===== *)
theory Approval_Store
  imports Protocol "HOL-Library.AList"
begin

text \<open>
  The recipient's standing approvals (\<open>internal/receiver/approval_store.go\<close>): grants and
  revocation tombstones in memory, and the private file that holds their snapshot.

  A Go map is an association list with distinct keys (its iteration order does not matter to
  any operation). The file is written by replacement: the write succeeds, fails before the
  replacement, or fails after it, when only the directory could not be synced. Clock readings
  and write outcomes are arguments. Clones are the values themselves. Operations hold the
  store's lock throughout, so each is one step.
\<close>

section \<open>Data\<close>

datatype ApprovalLevel =
    ApprovalLevelAskAlways | ApprovalLevelConversation30m | ApprovalLevelTeammateAlways
  | ApprovalLevelAllAlways | ApprovalLevelOther string

fun ApprovalLevel_Valid :: "ApprovalLevel \<Rightarrow> bool" where
  "ApprovalLevel_Valid (ApprovalLevelOther _) = False"
| "ApprovalLevel_Valid _ = True"

definition standing :: "ApprovalLevel \<Rightarrow> bool" where
  "standing l \<longleftrightarrow> ApprovalLevel_Valid l \<and> l \<noteq> ApprovalLevelAskAlways"

fun level_string :: "ApprovalLevel \<Rightarrow> string" where
  "level_string ApprovalLevelAskAlways = ''ask_always''"
| "level_string ApprovalLevelConversation30m = ''conversation_30m''"
| "level_string ApprovalLevelTeammateAlways = ''teammate_always''"
| "level_string ApprovalLevelAllAlways = ''all_always''"
| "level_string (ApprovalLevelOther s) = s"

definition approvalStoreVersion :: int where
  "approvalStoreVersion = 3"

definition scopedApprovalStoreVersion :: int where
  "scopedApprovalStoreVersion = 2"

definition legacyApprovalStoreVersion :: int where
  "legacyApprovalStoreVersion = 1"

definition ApprovalConversationWindow :: duration where
  "ApprovalConversationWindow = 30 * minute"

record ApprovalAuthority =
  au_Fingerprint :: string
  au_RecipientAgentID :: string

record ApprovalAccessScope =
  sc_RequestedAccess :: "RequestedAccess list"
  sc_MaxAttachmentCount :: int
  sc_MaxAttachmentBytes :: int

record ApprovalCandidate =
  ca_RequesterMemberID :: string
  ca_RequesterDisplayName :: string
  ca_ConversationID :: string
  ca_AccessScope :: ApprovalAccessScope

record ApprovalGrant =
  gr_GrantID :: string
  gr_Level :: ApprovalLevel
  gr_AuthorityFingerprint :: string
  gr_RecipientAgentID :: string
  gr_RequesterMemberID :: string
  gr_RequesterDisplayName :: string
  gr_ConversationID :: string
  gr_AccessCeiling :: ApprovalAccessScope
  gr_CreatedAt :: time
  gr_ExpiresAt :: "time option"

record ApprovalRevocation =
  rv_AuthorityFingerprint :: string
  rv_RecipientAgentID :: string
  rv_RevokedAt :: time

record approvalSnapshot =
  sn_Version :: int
  sn_UpdatedAt :: time
  sn_Grants :: "(string \<times> ApprovalGrant) list"
  sn_Revocations :: "(string \<times> ApprovalRevocation) list"

text \<open>\<open>st_file\<close> is the file on disk: absent, undecodable (\<open>Some None\<close>) or a snapshot.\<close>

record ApprovalStore =
  st_grants :: "(string \<times> ApprovalGrant) list"
  st_revocations :: "(string \<times> ApprovalRevocation) list"
  st_file :: "approvalSnapshot option option"

datatype approval_error =
    ErrAuthority | ErrLevel | ErrMember | ErrConversation | ErrDisplayName | ErrScope | ErrPreparedTime
  | ErrGrantID | ErrApprovalGrantRevoked | ErrApprovalGrantWindowExpired | ErrPersist | ErrReadStore
  | ErrParse | ErrVersion | ErrInvalidGrant | ErrInvalidRevocation

datatype write_outcome = WriteDone | WriteFailed | WriteUnsynced

section \<open>Validation\<close>

definition validApprovalValue :: "string \<Rightarrow> nat \<Rightarrow> bool \<Rightarrow> bool" where
  "validApprovalValue value maximum allowSpaces \<longleftrightarrow>
     \<not> (value = [] \<or> maximum < length value) \<and>
     \<not> list_ex (\<lambda>r. IsControl r \<or> (\<not> allowSpaces \<and> IsSpace r)) (runes value)"

definition validApprovalGrantID :: "string \<Rightarrow> bool" where
  "validApprovalGrantID value \<longleftrightarrow>
     \<not> (\<not> HasPrefix value ''grant_'' \<or> length value \<noteq> length ''grant_'' + 64) \<and>
     hex_ok (drop (length ''grant_'') value)"

definition normalizeApprovalAuthority :: "ApprovalAuthority \<Rightarrow> (approval_error, ApprovalAuthority) result" where
  "normalizeApprovalAuthority a =
     (let fp = TrimSpace (au_Fingerprint a); agent = TrimSpace (au_RecipientAgentID a) in
      if \<not> validApprovalValue fp 256 False then Inl ErrAuthority
      else if \<not> validApprovalValue agent 200 False then Inl ErrAuthority
      else Inr \<lparr>au_Fingerprint = fp, au_RecipientAgentID = agent\<rparr>)"

text \<open>The loop over the accesses; \<open>seen\<close> are the aliases so far.\<close>

fun normalize_accesses :: "string list \<Rightarrow> RequestedAccess list \<Rightarrow> (approval_error, RequestedAccess list) result" where
  "normalize_accesses seen [] = Inr []"
| "normalize_accesses seen (x # xs) =
     (let alias = TrimSpace (ra_WorkspaceAlias x) in
      if \<not> validApprovalValue alias 200 False \<or> ContainsAny alias [CHR ''/'', CHR 0x5C] then Inl ErrScope
      else if ra_Mode x \<noteq> PermissionReadOnly \<and> ra_Mode x \<noteq> PermissionGuardedWrite then Inl ErrScope
      else if alias \<in> set seen then Inl ErrScope
      else case normalize_accesses (alias # seen) xs of
        Inl e \<Rightarrow> Inl e
      | Inr ys \<Rightarrow> Inr (x\<lparr>ra_WorkspaceAlias := alias\<rparr> # ys))"

definition normalizeApprovalAccessScope ::
  "ApprovalAccessScope \<Rightarrow> (approval_error, ApprovalAccessScope) result" where
  "normalizeApprovalAccessScope scope =
     (if sc_MaxAttachmentCount scope < 0 \<or> int MaxAttachments < sc_MaxAttachmentCount scope then Inl ErrScope
      else if sc_MaxAttachmentBytes scope < 0 \<or> MaxRequestPayloadBytes < sc_MaxAttachmentBytes scope then Inl ErrScope
      else if sc_MaxAttachmentCount scope = 0 \<and> sc_MaxAttachmentBytes scope \<noteq> 0 then Inl ErrScope
      else case normalize_accesses [] (sc_RequestedAccess scope) of
        Inl e \<Rightarrow> Inl e
      | Inr accesses \<Rightarrow> Inr (scope\<lparr>sc_RequestedAccess := sort_key ra_WorkspaceAlias accesses\<rparr>))"

definition normalizeApprovalCandidate ::
  "ApprovalCandidate \<Rightarrow> bool \<Rightarrow> (approval_error, ApprovalCandidate) result" where
  "normalizeApprovalCandidate c requireMember =
     (let member = TrimSpace (ca_RequesterMemberID c); display = TrimSpace (ca_RequesterDisplayName c);
          conv = TrimSpace (ca_ConversationID c) in
      if requireMember \<and> \<not> validApprovalValue member 200 False then Inl ErrMember
      else if member \<noteq> [] \<and> \<not> validApprovalValue member 200 False then Inl ErrMember
      else if conv \<noteq> [] \<and> \<not> validApprovalValue conv 200 False then Inl ErrConversation
      else if display \<noteq> [] \<and> \<not> validApprovalValue display 200 True then Inl ErrDisplayName
      else case normalizeApprovalAccessScope (ca_AccessScope c) of
        Inl e \<Rightarrow> Inl e
      | Inr scope \<Rightarrow> Inr \<lparr>ca_RequesterMemberID = member, ca_RequesterDisplayName = display,
                           ca_ConversationID = conv, ca_AccessScope = scope\<rparr>)"

definition approvalPermissionRank :: "PermissionMode \<Rightarrow> nat" where
  "approvalPermissionRank mode = (if mode = PermissionGuardedWrite then 1 else 0)"

text \<open>\<open>allowed\<close> is filled in order, so a later entry of an alias would win.\<close>

definition allowed_modes :: "RequestedAccess list \<Rightarrow> string \<Rightarrow> PermissionMode option" where
  "allowed_modes accesses = map_of (rev (map (\<lambda>x. (ra_WorkspaceAlias x, ra_Mode x)) accesses))"

definition approvalScopeCovers :: "ApprovalAccessScope \<Rightarrow> ApprovalAccessScope \<Rightarrow> bool" where
  "approvalScopeCovers ceiling requested =
     (case (normalizeApprovalAccessScope ceiling, normalizeApprovalAccessScope requested) of
        (Inr c, Inr r) \<Rightarrow>
          \<not> (sc_MaxAttachmentCount c < sc_MaxAttachmentCount r \<or> sc_MaxAttachmentBytes c < sc_MaxAttachmentBytes r) \<and>
          list_all (\<lambda>x. case allowed_modes (sc_RequestedAccess c) (ra_WorkspaceAlias x) of
                          None \<Rightarrow> False
                        | Some m \<Rightarrow> \<not> approvalPermissionRank m < approvalPermissionRank (ra_Mode x))
            (sc_RequestedAccess r)
      | _ \<Rightarrow> False)"

definition sameApprovalAccessScope :: "ApprovalAccessScope \<Rightarrow> ApprovalAccessScope \<Rightarrow> bool" where
  "sameApprovalAccessScope l r \<longleftrightarrow>
     sc_MaxAttachmentCount l = sc_MaxAttachmentCount r \<and> sc_MaxAttachmentBytes l = sc_MaxAttachmentBytes r \<and>
     sc_RequestedAccess l = sc_RequestedAccess r"

section \<open>Grants\<close>

text \<open>\<open>strings.Join\<close> with a NUL byte.\<close>

fun join_nul :: "string list \<Rightarrow> string" where
  "join_nul [] = []"
| "join_nul [x] = x"
| "join_nul (x # y # ys) = x @ CHR 0x00 # join_nul (y # ys)"

definition grant_payload :: "ApprovalAuthority \<Rightarrow> ApprovalLevel \<Rightarrow> ApprovalCandidate \<Rightarrow> string" where
  "grant_payload a level c =
     (let member = (if level = ApprovalLevelConversation30m \<or> level = ApprovalLevelTeammateAlways
                    then ca_RequesterMemberID c else []);
          conv = (if level = ApprovalLevelConversation30m then ca_ConversationID c else []) in
      join_nul [''team-relay-approval-grant/v2'', au_Fingerprint a, au_RecipientAgentID a,
                level_string level, member, conv])"

definition stableApprovalGrantID ::
  "('l) golib_scheme \<Rightarrow> ApprovalAuthority \<Rightarrow> ApprovalLevel \<Rightarrow> ApprovalCandidate \<Rightarrow> string" where
  "stableApprovalGrantID L a level c = ''grant_'' @ sha256_hex L (grant_payload a level c)"

definition newApprovalGrant ::
  "('l) golib_scheme \<Rightarrow> ApprovalAuthority \<Rightarrow> ApprovalLevel \<Rightarrow> ApprovalCandidate \<Rightarrow> time \<Rightarrow> ApprovalGrant" where
  "newApprovalGrant L a level c now =
     (let g = \<lparr>gr_GrantID = stableApprovalGrantID L a level c, gr_Level = level,
               gr_AuthorityFingerprint = au_Fingerprint a, gr_RecipientAgentID = au_RecipientAgentID a,
               gr_RequesterMemberID = [], gr_RequesterDisplayName = [], gr_ConversationID = [],
               gr_AccessCeiling = ca_AccessScope c, gr_CreatedAt = now, gr_ExpiresAt = None\<rparr> in
      case level of
        ApprovalLevelConversation30m \<Rightarrow>
          g\<lparr>gr_RequesterMemberID := ca_RequesterMemberID c, gr_RequesterDisplayName := ca_RequesterDisplayName c,
            gr_ConversationID := ca_ConversationID c, gr_ExpiresAt := Some (now + ApprovalConversationWindow)\<rparr>
      | ApprovalLevelTeammateAlways \<Rightarrow>
          g\<lparr>gr_RequesterMemberID := ca_RequesterMemberID c, gr_RequesterDisplayName := ca_RequesterDisplayName c\<rparr>
      | _ \<Rightarrow> g)"

definition grant_authority :: "ApprovalGrant \<Rightarrow> ApprovalAuthority" where
  "grant_authority g = \<lparr>au_Fingerprint = gr_AuthorityFingerprint g, au_RecipientAgentID = gr_RecipientAgentID g\<rparr>"

definition grant_candidate :: "ApprovalGrant \<Rightarrow> ApprovalCandidate" where
  "grant_candidate g =
     \<lparr>ca_RequesterMemberID = gr_RequesterMemberID g, ca_RequesterDisplayName = gr_RequesterDisplayName g,
      ca_ConversationID = gr_ConversationID g, ca_AccessScope = gr_AccessCeiling g\<rparr>"

definition validateApprovalGrant :: "('l) golib_scheme \<Rightarrow> ApprovalGrant \<Rightarrow> (approval_error, unit) result" where
  "validateApprovalGrant L g =
     (if normalizeApprovalAuthority (grant_authority g) \<noteq> Inr (grant_authority g) then Inl ErrInvalidGrant
      else if \<not> standing (gr_Level g) \<or> gr_CreatedAt g = zero_time then Inl ErrInvalidGrant
      else case normalizeApprovalCandidate (grant_candidate g) (gr_Level g \<noteq> ApprovalLevelAllAlways) of
        Inl _ \<Rightarrow> Inl ErrInvalidGrant
      | Inr c \<Rightarrow>
          if ca_RequesterMemberID c \<noteq> gr_RequesterMemberID g \<or> ca_RequesterDisplayName c \<noteq> gr_RequesterDisplayName g \<or>
             ca_ConversationID c \<noteq> gr_ConversationID g \<or> \<not> sameApprovalAccessScope (ca_AccessScope c) (gr_AccessCeiling g)
          then Inl ErrInvalidGrant
          else if gr_Level g = ApprovalLevelConversation30m \<and>
                  (ca_RequesterMemberID c = [] \<or> ca_ConversationID c = [] \<or>
                   gr_ExpiresAt g \<noteq> Some (gr_CreatedAt g + ApprovalConversationWindow)) then Inl ErrInvalidGrant
          else if gr_Level g = ApprovalLevelTeammateAlways \<and>
                  (ca_RequesterMemberID c = [] \<or> ca_ConversationID c \<noteq> [] \<or> gr_ExpiresAt g \<noteq> None) then Inl ErrInvalidGrant
          else if gr_Level g = ApprovalLevelAllAlways \<and>
                  (ca_RequesterMemberID c \<noteq> [] \<or> ca_RequesterDisplayName c \<noteq> [] \<or> ca_ConversationID c \<noteq> [] \<or>
                   gr_ExpiresAt g \<noteq> None) then Inl ErrInvalidGrant
          else if gr_GrantID g \<noteq> stableApprovalGrantID L (grant_authority g) (gr_Level g) c \<or>
                  \<not> validApprovalGrantID (gr_GrantID g) then Inl ErrInvalidGrant
          else Inr ())"

definition approvalGrantExpired :: "ApprovalGrant \<Rightarrow> time \<Rightarrow> bool" where
  "approvalGrantExpired g now = (case gr_ExpiresAt g of None \<Rightarrow> False | Some t \<Rightarrow> \<not> now < t)"

fun approvalPrecedence :: "ApprovalLevel \<Rightarrow> nat" where
  "approvalPrecedence ApprovalLevelConversation30m = 0"
| "approvalPrecedence ApprovalLevelTeammateAlways = 1"
| "approvalPrecedence ApprovalLevelAllAlways = 2"
| "approvalPrecedence _ = 3"

section \<open>Operations\<close>

definition writeLocked :: "time \<Rightarrow> write_outcome \<Rightarrow> ApprovalStore \<Rightarrow> ApprovalStore \<times> (approval_error, unit) result" where
  "writeLocked now w st =
     (let written = st\<lparr>st_file := Some (Some \<lparr>sn_Version = approvalStoreVersion, sn_UpdatedAt = now,
                          sn_Grants = st_grants st, sn_Revocations = st_revocations st\<rparr>)\<rparr> in
      case w of WriteDone \<Rightarrow> (written, Inr ()) | WriteFailed \<Rightarrow> (st, Inl ErrPersist)
      | WriteUnsynced \<Rightarrow> (written, Inl ErrPersist))"

definition grant_stale :: "ApprovalAuthority \<Rightarrow> time \<Rightarrow> ApprovalGrant \<Rightarrow> bool" where
  "grant_stale a now g \<longleftrightarrow>
     gr_AuthorityFingerprint g \<noteq> au_Fingerprint a \<or> gr_RecipientAgentID g \<noteq> au_RecipientAgentID a \<or>
     approvalGrantExpired g now"

definition pruneLocked :: "ApprovalAuthority \<Rightarrow> time \<Rightarrow> ApprovalStore \<Rightarrow> ApprovalStore \<times> nat" where
  "pruneLocked a now st =
     (st\<lparr>st_grants := filter (\<lambda>(_, g). \<not> grant_stale a now g) (st_grants st)\<rparr>,
      length (filter (\<lambda>(_, g). grant_stale a now g) (st_grants st)))"

text \<open>\<open>s.grants = before; s.revocations = beforeRevocations\<close>.\<close>

definition roll_back :: "ApprovalStore \<Rightarrow> ApprovalStore \<Rightarrow> ApprovalStore" where
  "roll_back before st = st\<lparr>st_grants := st_grants before, st_revocations := st_revocations before\<rparr>"

text \<open>Write if anything changed, and roll back if the write fails; otherwise the given answer.\<close>

definition persist ::
  "ApprovalStore \<Rightarrow> bool \<Rightarrow> time \<Rightarrow> write_outcome \<Rightarrow> (approval_error, 'a) result \<Rightarrow> ApprovalStore \<Rightarrow>
   ApprovalStore \<times> (approval_error, 'a) result" where
  "persist before changed now w answer st =
     (if \<not> changed then (st, answer)
      else case writeLocked now w st of
        (st', Inl e) \<Rightarrow> (roll_back before st', Inl e)
      | (st', Inr _) \<Rightarrow> (st', answer))"

definition pruneAndPersistLocked ::
  "ApprovalAuthority \<Rightarrow> time \<Rightarrow> write_outcome \<Rightarrow> ApprovalStore \<Rightarrow> ApprovalStore \<times> (approval_error, nat) result" where
  "pruneAndPersistLocked a now w st =
     (let (st', removed) = pruneLocked a now st in persist st (0 < removed) now w (Inr removed) st')"

definition approval_order :: "ApprovalGrant \<Rightarrow> ApprovalGrant \<Rightarrow> bool" where
  "approval_order g h \<longleftrightarrow>
     (let l = approvalPrecedence (gr_Level g); r = approvalPrecedence (gr_Level h) in
      if l \<noteq> r then l < r
      else if gr_CreatedAt g \<noteq> gr_CreatedAt h then gr_CreatedAt g < gr_CreatedAt h
      else gr_GrantID g < gr_GrantID h)"

fun insert_grant :: "ApprovalGrant \<Rightarrow> ApprovalGrant list \<Rightarrow> ApprovalGrant list" where
  "insert_grant g [] = [g]"
| "insert_grant g (h # hs) = (if approval_order h g then h # insert_grant g hs else g # h # hs)"

definition sort_grants :: "ApprovalGrant list \<Rightarrow> ApprovalGrant list" where
  "sort_grants gs = foldr insert_grant gs []"

definition List ::
  "ApprovalAuthority \<Rightarrow> time \<Rightarrow> write_outcome \<Rightarrow> ApprovalStore \<Rightarrow>
   ApprovalStore \<times> (approval_error, ApprovalGrant list) result" where
  "List authority now w st =
     (case normalizeApprovalAuthority authority of Inl e \<Rightarrow> (st, Inl e) | Inr a \<Rightarrow>
      case pruneAndPersistLocked a now w st of
        (st', Inl e) \<Rightarrow> (st', Inl e)
      | (st', Inr _) \<Rightarrow> (st', Inr (sort_grants (map snd (st_grants st')))))"

text \<open>
  The part \<open>Upsert\<close> and \<open>RestorePrepared\<close> share: an existing grant keeps its times and gets the new
  ceiling unless its own covers it, otherwise the new grant is stored.
\<close>

definition put_grant ::
  "ApprovalStore \<Rightarrow> bool \<Rightarrow> time \<Rightarrow> write_outcome \<Rightarrow> ApprovalCandidate \<Rightarrow> ApprovalGrant \<Rightarrow> ApprovalStore \<Rightarrow>
   ApprovalStore \<times> (approval_error, ApprovalGrant option) result" where
  "put_grant before changed now w c grant st =
     (case map_of (st_grants st) (gr_GrantID grant) of
        Some existing \<Rightarrow>
          if \<not> approvalScopeCovers (gr_AccessCeiling existing) (ca_AccessScope c)
          then let existing' = existing\<lparr>gr_AccessCeiling := ca_AccessScope c,
                                        gr_RequesterDisplayName := gr_RequesterDisplayName grant\<rparr>
               in persist before True now w (Inr (Some existing'))
                    (st\<lparr>st_grants := AList.update (gr_GrantID grant) existing' (st_grants st)\<rparr>)
          else persist before changed now w (Inr (Some existing)) st
      | None \<Rightarrow>
          persist before True now w (Inr (Some grant))
            (st\<lparr>st_grants := AList.update (gr_GrantID grant) grant (st_grants st)\<rparr>))"

text \<open>The checks on a standing level's candidate.\<close>

definition standing_candidate ::
  "ApprovalLevel \<Rightarrow> ApprovalCandidate \<Rightarrow> (approval_error, ApprovalCandidate) result" where
  "standing_candidate level c =
     (case normalizeApprovalCandidate c True of
        Inl e \<Rightarrow> Inl e
      | Inr c' \<Rightarrow>
          if level = ApprovalLevelConversation30m \<and> ca_ConversationID c' = [] then Inl ErrConversation else Inr c')"

text \<open>\<open>Upsert\<close>; a zero grant is \<open>None\<close>.\<close>

definition Upsert ::
  "('l) golib_scheme \<Rightarrow> ApprovalAuthority \<Rightarrow> ApprovalLevel \<Rightarrow> ApprovalCandidate \<Rightarrow> time \<Rightarrow> write_outcome \<Rightarrow>
   ApprovalStore \<Rightarrow> ApprovalStore \<times> (approval_error, ApprovalGrant option) result" where
  "Upsert L authority level candidate now w st =
     (case normalizeApprovalAuthority authority of Inl e \<Rightarrow> (st, Inl e) | Inr a \<Rightarrow>
      if \<not> ApprovalLevel_Valid level then (st, Inl ErrLevel)
      else if level = ApprovalLevelAskAlways then
        (let (st1, removed) = pruneLocked a now st in persist st (0 < removed) now w (Inr None) st1)
      else case standing_candidate level candidate of Inl e \<Rightarrow> (st, Inl e) | Inr c \<Rightarrow>
        let (st1, removed) = pruneLocked a now st;
            grant = newApprovalGrant L a level c now;
            revoked = (map_of (st_revocations st1) (gr_GrantID grant) \<noteq> None);
            st2 = (if revoked then st1\<lparr>st_revocations := AList.delete (gr_GrantID grant) (st_revocations st1)\<rparr> else st1)
        in put_grant st (0 < removed \<or> revoked) now w c grant st2)"

definition RestorePrepared ::
  "('l) golib_scheme \<Rightarrow> ApprovalAuthority \<Rightarrow> ApprovalLevel \<Rightarrow> ApprovalCandidate \<Rightarrow> time \<Rightarrow> time \<Rightarrow> write_outcome \<Rightarrow>
   ApprovalStore \<Rightarrow> ApprovalStore \<times> (approval_error, ApprovalGrant option) result" where
  "RestorePrepared L authority level candidate grantedAt now w st =
     (case normalizeApprovalAuthority authority of Inl e \<Rightarrow> (st, Inl e) | Inr a \<Rightarrow>
      if \<not> standing level then (st, Inl ErrLevel)
      else case standing_candidate level candidate of Inl e \<Rightarrow> (st, Inl e) | Inr c \<Rightarrow>
      if grantedAt = zero_time then (st, Inl ErrPreparedTime)
      else let granted = (if now < grantedAt then now else grantedAt);
               (st1, removed) = pruneLocked a now st;
               grant = newApprovalGrant L a level c granted in
        if map_of (st_revocations st1) (gr_GrantID grant) \<noteq> None
        then persist st (0 < removed) now w (Inl ErrApprovalGrantRevoked) st1
        else if approvalGrantExpired grant now
        then persist st (0 < removed) now w (Inl ErrApprovalGrantWindowExpired) st1
        else put_grant st (0 < removed) now w c grant st1)"

text \<open>\<open>revokedAt\<close> is the second reading of the clock.\<close>

definition Revoke ::
  "ApprovalAuthority \<Rightarrow> string \<Rightarrow> time \<Rightarrow> time \<Rightarrow> write_outcome \<Rightarrow>
   ApprovalStore \<Rightarrow> ApprovalStore \<times> (approval_error, bool) result" where
  "Revoke authority grant now revokedAt w st =
     (case normalizeApprovalAuthority authority of Inl e \<Rightarrow> (st, Inl e) | Inr a \<Rightarrow>
      let grantID = TrimSpace grant in
      if \<not> validApprovalGrantID grantID then (st, Inl ErrGrantID)
      else let (st1, removed) = pruneLocked a now st; existed = (map_of (st_grants st1) grantID \<noteq> None);
               st2 = (if existed then st1\<lparr>st_grants := AList.delete grantID (st_grants st1),
                        st_revocations := AList.update grantID
                          \<lparr>rv_AuthorityFingerprint = au_Fingerprint a, rv_RecipientAgentID = au_RecipientAgentID a,
                           rv_RevokedAt = revokedAt\<rparr> (st_revocations st1)\<rparr> else st1)
           in persist st (0 < removed \<or> existed) now w (Inr existed) st2)"

definition Prune ::
  "ApprovalAuthority \<Rightarrow> time \<Rightarrow> write_outcome \<Rightarrow> ApprovalStore \<Rightarrow> ApprovalStore \<times> (approval_error, nat) result" where
  "Prune authority now w st =
     (case normalizeApprovalAuthority authority of Inl e \<Rightarrow> (st, Inl e) | Inr a \<Rightarrow> pruneAndPersistLocked a now w st)"

text \<open>The loop of \<open>Match\<close> over the levels, most specific first.\<close>

fun match_levels ::
  "('l) golib_scheme \<Rightarrow> ApprovalAuthority \<Rightarrow> ApprovalCandidate \<Rightarrow> (string \<times> ApprovalGrant) list \<Rightarrow>
   ApprovalLevel list \<Rightarrow> ApprovalGrant option" where
  "match_levels L a c grants [] = None"
| "match_levels L a c grants (l # ls) =
     (if l = ApprovalLevelConversation30m \<and> ca_ConversationID c = [] then match_levels L a c grants ls
      else case map_of grants (stableApprovalGrantID L a l c) of
        Some g \<Rightarrow> if approvalScopeCovers (gr_AccessCeiling g) (ca_AccessScope c) then Some g
                  else match_levels L a c grants ls
      | None \<Rightarrow> match_levels L a c grants ls)"

definition Match ::
  "('l) golib_scheme \<Rightarrow> ApprovalAuthority \<Rightarrow> ApprovalCandidate \<Rightarrow> time \<Rightarrow> write_outcome \<Rightarrow>
   ApprovalStore \<Rightarrow> ApprovalStore \<times> (approval_error, ApprovalGrant option) result" where
  "Match L authority candidate now w st =
     (case normalizeApprovalAuthority authority of Inl e \<Rightarrow> (st, Inl e) | Inr a \<Rightarrow>
      case normalizeApprovalCandidate candidate False of Inl e \<Rightarrow> (st, Inl e) | Inr c \<Rightarrow>
      case pruneAndPersistLocked a now w st of
        (st', Inl e) \<Rightarrow> (st', Inl e)
      | (st', Inr _) \<Rightarrow>
          (st', Inr (if ca_RequesterMemberID c = [] then None
                     else match_levels L a c (st_grants st')
                       [ApprovalLevelConversation30m, ApprovalLevelTeammateAlways, ApprovalLevelAllAlways])))"

section \<open>Loading\<close>

definition revocation_authority :: "ApprovalRevocation \<Rightarrow> ApprovalAuthority" where
  "revocation_authority r =
     \<lparr>au_Fingerprint = rv_AuthorityFingerprint r, au_RecipientAgentID = rv_RecipientAgentID r\<rparr>"

definition load_grant_ok :: "('l) golib_scheme \<Rightarrow> string \<times> ApprovalGrant \<Rightarrow> bool" where
  "load_grant_ok L = (\<lambda>(k, g). \<not> (k = [] \<or> k \<noteq> gr_GrantID g) \<and> validateApprovalGrant L g = Inr ())"

definition load_revocation_ok :: "(string \<times> ApprovalGrant) list \<Rightarrow> string \<times> ApprovalRevocation \<Rightarrow> bool" where
  "load_revocation_ok grants =
     (\<lambda>(k, r). \<not> (\<not> validApprovalGrantID k \<or> rv_RevokedAt r = zero_time) \<and>
        normalizeApprovalAuthority (revocation_authority r) = Inr (revocation_authority r) \<and>
        map_of grants k = None)"

text \<open>\<open>readable\<close> is false when the file exists but cannot be read safely.\<close>

definition load ::
  "('l) golib_scheme \<Rightarrow> bool \<Rightarrow> time \<Rightarrow> write_outcome \<Rightarrow> ApprovalStore \<Rightarrow>
   ApprovalStore \<times> (approval_error, unit) result" where
  "load L readable now w st =
     (case st_file st of
        None \<Rightarrow> writeLocked now w st
      | Some content \<Rightarrow>
          if \<not> readable then (st, Inl ErrReadStore)
          else case content of None \<Rightarrow> (st, Inl ErrParse) | Some snap \<Rightarrow>
            if sn_Version snap = legacyApprovalStoreVersion
            then writeLocked now w (st\<lparr>st_grants := [], st_revocations := []\<rparr>)
            else if sn_Version snap \<noteq> approvalStoreVersion \<and> sn_Version snap \<noteq> scopedApprovalStoreVersion
            then (st, Inl ErrVersion)
            else if \<not> list_all (load_grant_ok L) (sn_Grants snap) then (st, Inl ErrInvalidGrant)
            else let grants = filter (\<lambda>(_, g). \<not> approvalGrantExpired g now) (sn_Grants snap) in
              if \<not> list_all (load_revocation_ok grants) (sn_Revocations snap) then (st, Inl ErrInvalidRevocation)
              else let st' = st\<lparr>st_grants := grants, st_revocations := sn_Revocations snap\<rparr> in
                if length grants \<noteq> length (sn_Grants snap) \<or> sn_Version snap = scopedApprovalStoreVersion
                then writeLocked now w st' else (st', Inr ()))"

definition Reload ::
  "('l) golib_scheme \<Rightarrow> bool \<Rightarrow> time \<Rightarrow> write_outcome \<Rightarrow> ApprovalStore \<Rightarrow>
   ApprovalStore \<times> (approval_error, unit) result" where
  "Reload L readable now w st = load L readable now w st"

end
