(* ===== verification/Local_Store.thy ===== *)
theory Local_Store
  imports Approval_Store
begin

text \<open>
  What the receiver's three private map files have in common (\<open>pending_store.go\<close>, \<open>session_store.go\<close>
  and \<open>mutation_store.go\<close> in \<open>internal/receiver\<close>): a map in memory, a snapshot on disk, an atomic write
  that succeeds, fails, or replaces the file and then reports an error, and a load at start. A Go
  map is an association list with distinct keys.

  The locale \<open>durable_store\<close> is the contract between a store's operations and its file; each store
  interprets it on its own write and load.
\<close>

record 'v snapshot =
  sp_Version :: int
  sp_UpdatedAt :: time
  sp_Entries :: "(string \<times> 'v) list"

text \<open>\<open>ls_file\<close> is absent, undecodable (\<open>Some None\<close>) or a snapshot.\<close>

record 'v local_store =
  ls_entries :: "(string \<times> 'v) list"
  ls_file :: "'v snapshot option option"

datatype 'e store_error =
    ErrStoreInput | ErrStoreMissing | ErrStoreWrite | ErrStoreRead | ErrStoreParse | ErrStoreVersion int
  | ErrStoreRecord 'e

definition write_snapshot ::
  "int \<Rightarrow> time \<Rightarrow> write_outcome \<Rightarrow> 'v local_store \<Rightarrow> 'v local_store \<times> ('e store_error, unit) result" where
  "write_snapshot version now w st =
     (let written = st\<lparr>ls_file := Some (Some \<lparr>sp_Version = version, sp_UpdatedAt = now, sp_Entries = ls_entries st\<rparr>)\<rparr> in
      case w of WriteDone \<Rightarrow> (written, Inr ()) | WriteFailed \<Rightarrow> (st, Inl ErrStoreWrite)
      | WriteUnsynced \<Rightarrow> (written, Inl ErrStoreWrite))"

text \<open>
  The two ways the stores save a change: the new map stays in memory whatever the write says, or
  it is put back to what it was when the write reports an error.
\<close>

definition save_keeping ::
  "('v local_store \<Rightarrow> 'v local_store \<times> ('e store_error, unit) result) \<Rightarrow> (string \<times> 'v) list \<Rightarrow>
   'v local_store \<Rightarrow> 'v local_store \<times> ('e store_error, unit) result" where
  "save_keeping write entries st = write (st\<lparr>ls_entries := entries\<rparr>)"

definition save_or_restore ::
  "('v local_store \<Rightarrow> 'v local_store \<times> ('e store_error, unit) result) \<Rightarrow> (string \<times> 'v) list \<Rightarrow>
   'v local_store \<Rightarrow> 'v local_store \<times> ('e store_error, unit) result" where
  "save_or_restore write entries st =
     (case write (st\<lparr>ls_entries := entries\<rparr>) of
        (st', Inr u) \<Rightarrow> (st', Inr u)
      | (st', Inl e) \<Rightarrow> (st'\<lparr>ls_entries := ls_entries st\<rparr>, Inl e))"

text \<open>The process starts again: the memory is empty and the file is loaded.\<close>

definition restarted ::
  "('v local_store \<Rightarrow> 'v local_store \<times> ('e store_error, unit) result) \<Rightarrow> 'v local_store \<Rightarrow>
   'v local_store \<times> ('e store_error, unit) result" where
  "restarted start st = start (st\<lparr>ls_entries := []\<rparr>)"

text \<open>\<open>for k, v := range m { t[k] = v }\<close>.\<close>

definition copy_into :: "(string \<times> 'v) list \<Rightarrow> (string \<times> 'v) list \<Rightarrow> (string \<times> 'v) list" where
  "copy_into xs al = fold (\<lambda>(k, v). AList.update k v) xs al"

lemma update_fresh: "k \<notin> fst ` set al \<Longrightarrow> AList.update k v al = al @ [(k, v)]"
  by (induction al) auto

lemma copy_into_fresh: "distinct (map fst (al @ xs)) \<Longrightarrow> copy_into xs al = al @ xs"
proof (induction xs arbitrary: al)
  case (Cons x xs)
  obtain k v where x: "x = (k, v)" by fastforce
  with Cons.prems have "AList.update k v al = al @ [(k, v)]" by (intro update_fresh) auto
  with Cons.IH [of "al @ [(k, v)]"] Cons.prems x show ?case by (simp add: copy_into_def)
qed (simp add: copy_into_def)

lemma map_of_copy_into: "map_of (copy_into xs al) k = (case map_of (rev xs) k of None \<Rightarrow> map_of al k | Some v \<Rightarrow> Some v)"
  by (induction xs arbitrary: al) (auto simp: copy_into_def AList.update_conv' map_add_def split: option.splits)

lemma distinct_copy_into: "distinct (map fst al) \<Longrightarrow> distinct (map fst (copy_into xs al))"
  by (induction xs arbitrary: al) (auto simp: copy_into_def distinct_update)

lemma distinct_filter_keys: "distinct (map fst xs) \<Longrightarrow> distinct (map fst (filter P xs))"
  by (induction xs) auto

section \<open>The contract\<close>

text \<open>
  \<open>well\<close> are the maps the store may hold, \<open>kept\<close> what a start keeps of a file that was written for
  one of them. A write does not touch the memory, one that failed does not touch the file, and
  one that succeeded can be loaded.
\<close>

locale durable_store =
  fixes write_file :: "time \<Rightarrow> write_outcome \<Rightarrow> 'v local_store \<Rightarrow> 'v local_store \<times> ('e store_error, unit) result"
    and load_file :: "bool \<Rightarrow> time \<Rightarrow> write_outcome \<Rightarrow> 'v local_store \<Rightarrow> 'v local_store \<times> ('e store_error, unit) result"
    and well :: "(string \<times> 'v) list \<Rightarrow> bool"
    and kept :: "(string \<times> 'v) list \<Rightarrow> (string \<times> 'v) list"
  assumes write_memory: "ls_entries (fst (write_file now w st)) = ls_entries st"
    and write_failed: "ls_file (fst (write_file now WriteFailed st)) = ls_file st"
    and write_done: "snd (write_file now w st) = Inr () \<longleftrightarrow> w = WriteDone"
    and load_written: "well (ls_entries st) \<Longrightarrow>
      load_file True now' w' ((fst (write_file now WriteDone st))\<lparr>ls_entries := []\<rparr>) =
        ((fst (write_file now WriteDone st))\<lparr>ls_entries := kept (ls_entries st)\<rparr>, Inr ())"
begin

lemma saved_is_durable:
  assumes "save_keeping (write_file now w) entries st = (st', Inr ()) \<or> save_or_restore (write_file now w) entries st = (st', Inr ())"
    "well entries"
  shows "ls_entries st' = entries \<and> restarted (load_file True now' w') st' = (st'\<lparr>ls_entries := kept entries\<rparr>, Inr ())"
proof -
  obtain st1 r where wr: "write_file now w (st\<lparr>ls_entries := entries\<rparr>) = (st1, r)" by fastforce
  with assms(1) have r: "r = Inr ()" "st1 = st'"
    by (auto simp: save_keeping_def save_or_restore_def split: sum.splits)
  then have w: "w = WriteDone" using wr write_done [of now w "st\<lparr>ls_entries := entries\<rparr>"] by simp
  then have st': "st' = fst (write_file now WriteDone (st\<lparr>ls_entries := entries\<rparr>))" using wr r by simp
  then show ?thesis
    using write_memory [of now WriteDone "st\<lparr>ls_entries := entries\<rparr>"] load_written [of "st\<lparr>ls_entries := entries\<rparr>" now' w' now]
      assms(2) by (simp add: restarted_def)
qed

lemma save_or_restore_error:
  assumes "save_or_restore (write_file now w) entries st = (st', Inl e)"
  shows "ls_entries st' = ls_entries st \<and> (w = WriteFailed \<longrightarrow> ls_file st' = ls_file st)"
  using assms write_failed [of now "st\<lparr>ls_entries := entries\<rparr>"]
  by (auto simp: save_or_restore_def split: sum.splits prod.splits)

end

lemma write_snapshot_laws:
  "ls_entries (fst (write_snapshot v now w st)) = ls_entries st"
  "ls_file (fst (write_snapshot v now WriteFailed st)) = ls_file st"
  "snd (write_snapshot v now w st) = Inr () \<longleftrightarrow> w = WriteDone"
  "fst (write_snapshot v now WriteDone st) =
     st\<lparr>ls_file := Some (Some \<lparr>sp_Version = v, sp_UpdatedAt = now, sp_Entries = ls_entries st\<rparr>)\<rparr>"
  by (cases w; simp add: write_snapshot_def)+

end
