(* ===== verification/Runtime_Policy.thy ===== *)
theory Runtime_Policy
  imports Go_Prelude
begin

text \<open>
  Recipient-owned runtime policies (\<open>internal/runtime/policy.go\<close>), the runtime's report of what it
  can enforce (\<open>types.go\<close>) and the check that it can enforce a policy (\<open>capabilities.go\<close>).

  The JSON encoding of a policy, which only its fingerprint uses, is an argument.
\<close>

section \<open>Types\<close>

text \<open>Any other string is \<open>PolicyOther\<close>; the empty one means that no mode was requested.\<close>

datatype PolicyMode = PolicyReadOnly | PolicyGuardedWrite | PolicyCustom | PolicyOther string

record Policy =
  po_Mode :: PolicyMode
  po_AllowWrites :: bool
  po_AllowShell :: bool
  po_AllowNetwork :: bool
  po_AllowMCPs :: bool
  po_DeniedTools :: "string list"
  po_DeniedCommands :: "string list"

record PolicyRequest =
  pq_Mode :: PolicyMode
  pq_AllowWrites :: "bool option"
  pq_AllowShell :: "bool option"
  pq_AllowNetwork :: "bool option"
  pq_AllowMCPs :: "bool option"

datatype Enforcement =
    EnforcementNative | EnforcementToolLevel | EnforcementBestEffort | EnforcementUnsupported
  | EnforcementOther string

record PolicyCapabilities =
  pc_ReadOnly :: Enforcement
  pc_GuardedWrite :: Enforcement
  pc_FilesystemIsolation :: Enforcement
  pc_NetworkIsolation :: Enforcement
  pc_ShellControl :: Enforcement
  pc_MCPControl :: Enforcement
  pc_DestructiveCommandDeny :: Enforcement

record Capabilities =
  cp_RuntimeID :: string
  cp_DisplayName :: string
  cp_Version :: string
  cp_Available :: bool
  cp_Detail :: string
  cp_SupportsResume :: bool
  cp_SupportsStreaming :: bool
  cp_SupportsModelSelection :: bool
  cp_PreservesLocalContext :: bool
  cp_LoadsLocalMCPs :: bool
  cp_Policy :: PolicyCapabilities

record SessionRef =
  se_RuntimeID :: string
  se_OpaqueID :: string
  se_PolicyFingerprint :: string
  se_WorkDirFingerprint :: string

text \<open>The error of the unsupported policy carries the runtime and the controls it lacks.\<close>

datatype policy_error = ErrUnknownMode PolicyMode | ErrUnsupportedPolicy string "string list"

section \<open>Policies\<close>

definition baselineDeniedCommands :: "string list" where
  "baselineDeniedCommands =
     [''rm'', ''rmdir'', ''git reset --hard'', ''git clean'', ''git push --force'', ''git push -f'', ''sudo'', ''doas'',
      ''shutdown'', ''reboot'', ''kubectl delete'', ''terraform destroy'', ''team-relay'', ''team-relay-agent'',
      ''team-relay-mcp'']"

fun unique_loop :: "string list \<Rightarrow> string list \<Rightarrow> string list" where
  "unique_loop result [] = result"
| "unique_loop result (v # vs) =
     (let value = TrimSpace v in
      if value = [] \<or> value \<in> set result then unique_loop result vs else unique_loop (result @ [value]) vs)"

definition uniqueSorted :: "string list \<Rightarrow> string list" where
  "uniqueSorted values = sort (unique_loop [] values)"

definition normalizePolicy :: "Policy \<Rightarrow> Policy" where
  "normalizePolicy p =
     (let p = (if po_Mode p = PolicyReadOnly
               then p\<lparr>po_AllowWrites := False, po_AllowShell := False, po_AllowMCPs := False\<rparr> else p) in
      p\<lparr>po_DeniedTools := uniqueSorted (''team-relay'' # po_DeniedTools p),
        po_DeniedCommands := uniqueSorted (baselineDeniedCommands @ po_DeniedCommands p)\<rparr>)"

definition plain_policy :: "PolicyMode \<Rightarrow> bool \<Rightarrow> Policy" where
  "plain_policy mode b =
     \<lparr>po_Mode = mode, po_AllowWrites = b, po_AllowShell = b, po_AllowNetwork = b, po_AllowMCPs = b,
      po_DeniedTools = [], po_DeniedCommands = []\<rparr>"

fun DefaultPolicy :: "PolicyMode \<Rightarrow> (policy_error, Policy) result" where
  "DefaultPolicy PolicyReadOnly = Inr (normalizePolicy (plain_policy PolicyReadOnly False))"
| "DefaultPolicy PolicyGuardedWrite = Inr (normalizePolicy (plain_policy PolicyGuardedWrite True))"
| "DefaultPolicy PolicyCustom = Inr (normalizePolicy (plain_policy PolicyCustom False))"
| "DefaultPolicy mode = Inl (ErrUnknownMode mode)"

definition ValidatePolicy :: "Policy \<Rightarrow> (policy_error, Policy) result" where
  "ValidatePolicy p =
     (case po_Mode p of PolicyOther s \<Rightarrow> Inl (ErrUnknownMode (po_Mode p)) | _ \<Rightarrow> Inr (normalizePolicy p))"

definition samePermissions :: "Policy \<Rightarrow> Policy \<Rightarrow> bool" where
  "samePermissions l r \<longleftrightarrow>
     po_AllowWrites l = po_AllowWrites r \<and> po_AllowShell l = po_AllowShell r \<and>
     po_AllowNetwork l = po_AllowNetwork r \<and> po_AllowMCPs l = po_AllowMCPs r"

fun intersectBool :: "bool \<Rightarrow> bool option \<Rightarrow> bool" where
  "intersectBool current None = current"
| "intersectBool current (Some b) = (current \<and> b)"

text \<open>The limit a request sets.\<close>

definition request_limit :: "PolicyRequest \<Rightarrow> (policy_error, Policy) result" where
  "request_limit q =
     (case (if pq_Mode q \<noteq> PolicyOther [] then DefaultPolicy (pq_Mode q) else Inr (plain_policy PolicyCustom True)) of
        Inl e \<Rightarrow> Inl e
      | Inr limit \<Rightarrow>
          Inr (limit\<lparr>po_AllowWrites := intersectBool (po_AllowWrites limit) (pq_AllowWrites q),
                     po_AllowShell := intersectBool (po_AllowShell limit) (pq_AllowShell q),
                     po_AllowNetwork := intersectBool (po_AllowNetwork limit) (pq_AllowNetwork q),
                     po_AllowMCPs := intersectBool (po_AllowMCPs limit) (pq_AllowMCPs q)\<rparr>))"

definition narrow :: "Policy \<Rightarrow> Policy \<Rightarrow> Policy" where
  "narrow local limit =
     (let effective = local\<lparr>po_AllowWrites := po_AllowWrites local \<and> po_AllowWrites limit,
                            po_AllowShell := po_AllowShell local \<and> po_AllowShell limit,
                            po_AllowNetwork := po_AllowNetwork local \<and> po_AllowNetwork limit,
                            po_AllowMCPs := po_AllowMCPs local \<and> po_AllowMCPs limit\<rparr> in
      normalizePolicy (effective\<lparr>po_Mode :=
        (if \<not> po_AllowWrites effective \<and> \<not> po_AllowShell effective \<and> \<not> po_AllowMCPs effective then PolicyReadOnly
         else if samePermissions effective local then po_Mode local else PolicyCustom)\<rparr>))"

definition EffectivePolicy :: "Policy \<Rightarrow> PolicyRequest option \<Rightarrow> (policy_error, Policy) result" where
  "EffectivePolicy policy requested =
     (case ValidatePolicy policy of Inl e \<Rightarrow> Inl e | Inr local \<Rightarrow>
      case requested of None \<Rightarrow> Inr local | Some q \<Rightarrow>
      if pq_Mode q = PolicyOther [] \<and> pq_AllowWrites q = None \<and> pq_AllowShell q = None \<and>
         pq_AllowNetwork q = None \<and> pq_AllowMCPs q = None
      then Inr local
      else case request_limit q of Inl e \<Rightarrow> Inl e | Inr limit \<Rightarrow> Inr (narrow local limit))"

section \<open>Fingerprints and sessions\<close>

definition PolicyFingerprint :: "('l) golib_scheme \<Rightarrow> (Policy \<Rightarrow> string) \<Rightarrow> Policy \<Rightarrow> string" where
  "PolicyFingerprint L json p = hex_encode (take 16 (sha256_sum L (json (normalizePolicy p))))"

definition WorkDirFingerprint :: "('l) golib_scheme \<Rightarrow> string \<Rightarrow> string" where
  "WorkDirFingerprint L path = hex_encode (take 16 (sha256_sum L path))"

definition CompatibleSession ::
  "('l) golib_scheme \<Rightarrow> (Policy \<Rightarrow> string) \<Rightarrow> SessionRef option \<Rightarrow> string \<Rightarrow> Policy \<Rightarrow> string \<Rightarrow> bool" where
  "CompatibleSession L json session runtimeID p workDir =
     (case session of
        None \<Rightarrow> False
      | Some s \<Rightarrow> se_OpaqueID s \<noteq> [] \<and> se_RuntimeID s = runtimeID \<and>
          se_PolicyFingerprint s = PolicyFingerprint L json p \<and> se_WorkDirFingerprint s = WorkDirFingerprint L workDir)"

section \<open>What a runtime can enforce\<close>

fun availableEnforcement :: "Enforcement \<Rightarrow> bool" where
  "availableEnforcement EnforcementNative = True"
| "availableEnforcement EnforcementToolLevel = True"
| "availableEnforcement EnforcementBestEffort = True"
| "availableEnforcement _ = False"

definition missing_if :: "bool \<Rightarrow> string \<Rightarrow> string list" where
  "missing_if b name = (if b then [name] else [])"

definition missing_controls :: "PolicyCapabilities \<Rightarrow> Policy \<Rightarrow> string list" where
  "missing_controls c p =
     (if po_AllowWrites p then missing_if (\<not> availableEnforcement (pc_GuardedWrite c)) ''guarded-write mode''
      else missing_if (\<not> availableEnforcement (pc_ReadOnly c)) ''read-only mode'') @
     missing_if (\<not> availableEnforcement (pc_FilesystemIsolation c)) ''filesystem isolation'' @
     missing_if (\<not> availableEnforcement (pc_DestructiveCommandDeny c)) ''destructive-command denial'' @
     missing_if (\<not> po_AllowNetwork p \<and> \<not> availableEnforcement (pc_NetworkIsolation c)) ''network isolation'' @
     missing_if (\<not> po_AllowShell p \<and> \<not> availableEnforcement (pc_ShellControl c)) ''shell control'' @
     missing_if (\<not> po_AllowMCPs p \<and> \<not> availableEnforcement (pc_MCPControl c)) ''MCP control''"

definition ValidatePolicySupport :: "Capabilities \<Rightarrow> Policy \<Rightarrow> (policy_error, unit) result" where
  "ValidatePolicySupport c p =
     (case ValidatePolicy p of Inl e \<Rightarrow> Inl e | Inr validated \<Rightarrow>
      let missing = missing_controls (cp_Policy c) validated in
      if missing = [] then Inr ()
      else let runtimeID = TrimSpace (cp_RuntimeID c) in
        Inl (ErrUnsupportedPolicy (if runtimeID = [] then ''unknown'' else runtimeID) missing))"

definition SupportsPolicy :: "Capabilities \<Rightarrow> Policy \<Rightarrow> bool" where
  "SupportsPolicy c p \<longleftrightarrow> ValidatePolicySupport c p = Inr ()"

section \<open>Facts\<close>

lemma unique_loop_sound:
  "distinct result \<Longrightarrow> [] \<notin> set result \<Longrightarrow>
   distinct (unique_loop result vs) \<and> set (unique_loop result vs) = set result \<union> (TrimSpace ` set vs - {[]})"
  by (induction result vs rule: unique_loop.induct) (auto simp: Let_def)

lemma uniqueSorted_facts [simp]:
  "sorted (uniqueSorted vs)" "distinct (uniqueSorted vs)" "set (uniqueSorted vs) = TrimSpace ` set vs - {[]}"
  using unique_loop_sound [of "[]" vs] by (simp_all add: uniqueSorted_def)

text \<open>A sorted list without repetitions is determined by its members.\<close>

lemma uniqueSorted_eq: "TrimSpace ` set vs - {[]} = TrimSpace ` set ws - {[]} \<Longrightarrow> uniqueSorted vs = uniqueSorted ws"
  by (rule sorted_distinct_set_unique) simp_all

lemma uniqueSorted_again: "uniqueSorted (xs @ uniqueSorted (xs @ ys)) = uniqueSorted (xs @ ys)"
proof (rule uniqueSorted_eq)
  have idem: "TrimSpace ` (TrimSpace ` A - {[]}) - {[]} = TrimSpace ` A - {[]}" for A
  proof (intro equalityI subsetI)
    fix x assume "x \<in> TrimSpace ` A - {[]}"
    then obtain a where a: "a \<in> A" "x = TrimSpace a" "x \<noteq> []" by auto
    then have "x = TrimSpace x" "x \<in> TrimSpace ` A - {[]}" by auto
    with a(3) show "x \<in> TrimSpace ` (TrimSpace ` A - {[]}) - {[]}" by blast
  qed auto
  show "TrimSpace ` set (xs @ uniqueSorted (xs @ ys)) - {[]} = TrimSpace ` set (xs @ ys) - {[]}"
    using idem [of "set xs \<union> set ys"] by (auto simp: image_Un Un_Diff)
qed

lemma normalizePolicy_sel [simp]:
  "po_Mode (normalizePolicy p) = po_Mode p"
  "po_AllowWrites (normalizePolicy p) \<longleftrightarrow> po_AllowWrites p \<and> po_Mode p \<noteq> PolicyReadOnly"
  "po_AllowShell (normalizePolicy p) \<longleftrightarrow> po_AllowShell p \<and> po_Mode p \<noteq> PolicyReadOnly"
  "po_AllowMCPs (normalizePolicy p) \<longleftrightarrow> po_AllowMCPs p \<and> po_Mode p \<noteq> PolicyReadOnly"
  "po_AllowNetwork (normalizePolicy p) \<longleftrightarrow> po_AllowNetwork p"
  "po_DeniedTools (normalizePolicy p) = uniqueSorted (''team-relay'' # po_DeniedTools p)"
  "po_DeniedCommands (normalizePolicy p) = uniqueSorted (baselineDeniedCommands @ po_DeniedCommands p)"
  by (simp_all add: normalizePolicy_def Let_def)

lemma normalizePolicy_idem [simp]: "normalizePolicy (normalizePolicy p) = normalizePolicy p"
  using uniqueSorted_again [of "[''team-relay'']"] uniqueSorted_again [of baselineDeniedCommands]
  by (intro Policy.equality) simp_all

lemma baseline_trimmed: "TrimSpace ` set baselineDeniedCommands = set baselineDeniedCommands" "[] \<notin> set baselineDeniedCommands"
  by (simp_all add: baselineDeniedCommands_def TrimSpace_id IsSpace_def)

text \<open>The policies \<open>EffectivePolicy\<close> returns are normal.\<close>

lemma EffectivePolicy_normal:
  assumes "EffectivePolicy p req = Inr e"
  shows "normalizePolicy e = e \<and> po_Mode e \<noteq> PolicyOther s"
proof -
  from assms obtain l where l: "ValidatePolicy p = Inr l" by (auto simp: EffectivePolicy_def split: sum.splits)
  then have mode: "po_Mode p \<noteq> PolicyOther s" "l = normalizePolicy p" by (auto simp: ValidatePolicy_def split: PolicyMode.splits)
  from assms l have "e = l \<or> (\<exists>limit. e = narrow l limit)"
    by (auto simp: EffectivePolicy_def split: sum.splits option.splits if_splits)
  with mode show ?thesis by (auto simp: narrow_def Let_def split: if_splits)
qed

lemma ValidatePolicy_normal: "normalizePolicy e = e \<Longrightarrow> po_Mode e \<in> {PolicyReadOnly, PolicyGuardedWrite, PolicyCustom} \<Longrightarrow> ValidatePolicy e = Inr e"
  by (auto simp: ValidatePolicy_def)

text \<open>What a request allows: the default of the mode it names, if any, and no explicit refusal.\<close>

fun mode_allows :: "PolicyMode \<Rightarrow> bool" where
  "mode_allows PolicyGuardedWrite = True"
| "mode_allows (PolicyOther s) = (s = [])"
| "mode_allows _ = False"

definition request_allows :: "(PolicyRequest \<Rightarrow> bool option) \<Rightarrow> PolicyRequest option \<Rightarrow> bool" where
  "request_allows field req =
     (case req of None \<Rightarrow> True | Some q \<Rightarrow> mode_allows (pq_Mode q) \<and> field q \<noteq> Some False)"

lemma intersectBool_iff [simp]: "intersectBool b r \<longleftrightarrow> b \<and> r \<noteq> Some False"
  by (cases r) auto

lemma request_limit_sel:
  assumes "request_limit q = Inr limit"
  shows "po_AllowWrites limit = request_allows pq_AllowWrites (Some q)"
    "po_AllowShell limit = request_allows pq_AllowShell (Some q)"
    "po_AllowNetwork limit = request_allows pq_AllowNetwork (Some q)"
    "po_AllowMCPs limit = request_allows pq_AllowMCPs (Some q)"
  using assms by (cases "pq_Mode q"; auto simp: request_limit_def request_allows_def plain_policy_def split: if_splits)+

lemma narrow_sel:
  assumes "normalizePolicy l = l"
  shows "po_AllowWrites (narrow l m) \<longleftrightarrow> po_AllowWrites l \<and> po_AllowWrites m"
    "po_AllowShell (narrow l m) \<longleftrightarrow> po_AllowShell l \<and> po_AllowShell m"
    "po_AllowNetwork (narrow l m) \<longleftrightarrow> po_AllowNetwork l \<and> po_AllowNetwork m"
    "po_AllowMCPs (narrow l m) \<longleftrightarrow> po_AllowMCPs l \<and> po_AllowMCPs m"
    "po_DeniedTools (narrow l m) = po_DeniedTools l" "po_DeniedCommands (narrow l m) = po_DeniedCommands l"
proof -
  have ro: "po_Mode l = PolicyReadOnly \<Longrightarrow> \<not> po_AllowWrites l \<and> \<not> po_AllowShell l \<and> \<not> po_AllowMCPs l"
    by (metis assms normalizePolicy_sel(2,3,4))
  have denied: "uniqueSorted (''team-relay'' # po_DeniedTools l) = po_DeniedTools l"
    "uniqueSorted (baselineDeniedCommands @ po_DeniedCommands l) = po_DeniedCommands l"
    by (metis assms normalizePolicy_sel(6), metis assms normalizePolicy_sel(7))
  show "po_AllowWrites (narrow l m) \<longleftrightarrow> po_AllowWrites l \<and> po_AllowWrites m"
    "po_AllowShell (narrow l m) \<longleftrightarrow> po_AllowShell l \<and> po_AllowShell m"
    "po_AllowNetwork (narrow l m) \<longleftrightarrow> po_AllowNetwork l \<and> po_AllowNetwork m"
    "po_AllowMCPs (narrow l m) \<longleftrightarrow> po_AllowMCPs l \<and> po_AllowMCPs m"
    "po_DeniedTools (narrow l m) = po_DeniedTools l" "po_DeniedCommands (narrow l m) = po_DeniedCommands l"
    using ro denied by (auto simp: narrow_def Let_def)
qed

section \<open>Properties\<close>

text \<open>
  The effective policy is exactly the intersection of the recipient's policy and the request:
  it allows writes, shell, network or MCPs if and only if the recipient's normalized policy does
  and the request does not exclude it by its mode or explicitly. Nothing a peer sends can turn on
  what the recipient disabled or remove a denied tool or command; the destructive commands of the
  baseline and Team Relay's own tools stay denied, and a read-only result allows no writes, shell
  or MCPs.
\<close>

theorem effective_policy_is_intersection:
  assumes "EffectivePolicy p req = Inr e"
  shows "po_AllowWrites e = (po_AllowWrites (normalizePolicy p) \<and> request_allows pq_AllowWrites req) \<and>
    po_AllowShell e = (po_AllowShell (normalizePolicy p) \<and> request_allows pq_AllowShell req) \<and>
    po_AllowNetwork e = (po_AllowNetwork (normalizePolicy p) \<and> request_allows pq_AllowNetwork req) \<and>
    po_AllowMCPs e = (po_AllowMCPs (normalizePolicy p) \<and> request_allows pq_AllowMCPs req) \<and>
    set (po_DeniedCommands e) = set baselineDeniedCommands \<union> (TrimSpace ` set (po_DeniedCommands p) - {[]}) \<and>
    ''team-relay'' \<in> set (po_DeniedTools e) \<and> TrimSpace ` set (po_DeniedTools p) - {[]} \<subseteq> set (po_DeniedTools e) \<and>
    (po_Mode e = PolicyReadOnly \<longrightarrow> \<not> po_AllowWrites e \<and> \<not> po_AllowShell e \<and> \<not> po_AllowMCPs e)"
proof -
  let ?l = "normalizePolicy p"
  have ro: "po_Mode e = PolicyReadOnly \<longrightarrow> \<not> po_AllowWrites e \<and> \<not> po_AllowShell e \<and> \<not> po_AllowMCPs e"
    using EffectivePolicy_normal [OF assms] normalizePolicy_sel(2,3,4) by metis
  have tr: "TrimSpace ''team-relay'' = ''team-relay''" by (simp add: TrimSpace_id IsSpace_def)
  from assms have v: "ValidatePolicy p = Inr ?l"
    by (auto simp: EffectivePolicy_def ValidatePolicy_def split: sum.splits PolicyMode.splits)
  consider (all) "e = ?l" "req = None \<or> (\<exists>q. req = Some q \<and> pq_Mode q = PolicyOther [] \<and> pq_AllowWrites q = None \<and>
      pq_AllowShell q = None \<and> pq_AllowNetwork q = None \<and> pq_AllowMCPs q = None)"
    | (some) q limit where "req = Some q" "request_limit q = Inr limit" "e = narrow ?l limit"
    using assms v by (auto simp: EffectivePolicy_def split: option.splits if_splits sum.splits)
  then show ?thesis
  proof cases
    case all
    then show ?thesis using ro baseline_trimmed tr by (auto simp: request_allows_def image_Un)
  next
    case some
    then show ?thesis using ro baseline_trimmed tr
      by (auto simp: narrow_sel request_limit_sel [OF some(2)] image_Un)
  qed
qed

definition demo_policy :: Policy where
  "demo_policy = plain_policy PolicyGuardedWrite True"

definition demo_narrowing :: PolicyRequest where
  "demo_narrowing = \<lparr>pq_Mode = PolicyOther [], pq_AllowWrites = Some False, pq_AllowShell = None, pq_AllowNetwork = Some True,
     pq_AllowMCPs = None\<rparr>"

lemma demo_effective:
  "\<exists>e. EffectivePolicy demo_policy (Some demo_narrowing) = Inr e \<and> \<not> po_AllowWrites e \<and> po_AllowShell e \<and> po_Mode e = PolicyCustom"
  by (simp add: EffectivePolicy_def ValidatePolicy_def demo_policy_def demo_narrowing_def plain_policy_def request_limit_def
      narrow_def Let_def samePermissions_def)

theorem effective_policy_is_intersection_witness:
  "\<exists>e. EffectivePolicy demo_policy (Some demo_narrowing) = Inr e \<and> \<not> po_AllowWrites e \<and> ''sudo'' \<in> set (po_DeniedCommands e)"
proof -
  obtain e where e: "EffectivePolicy demo_policy (Some demo_narrowing) = Inr e" "\<not> po_AllowWrites e" using demo_effective by blast
  from effective_policy_is_intersection [OF e(1)] have "''sudo'' \<in> set (po_DeniedCommands e)"
    by (simp add: baselineDeniedCommands_def)
  with e show ?thesis by blast
qed

text \<open>
  Narrowing is stable: applying the same request to the policy it produced gives the same
  policy again, so a request that is prepared, recorded and replayed runs under one policy, and
  validating an effective policy changes nothing.
\<close>

lemma effective_policy_stable:
  assumes "EffectivePolicy p req = Inr e"
  shows "EffectivePolicy e req = Inr e \<and> ValidatePolicy e = Inr e"
proof -
  have n: "normalizePolicy e = e" using EffectivePolicy_normal [OF assms] by blast
  have mode: "po_Mode e \<in> {PolicyReadOnly, PolicyGuardedWrite, PolicyCustom}"
    using EffectivePolicy_normal [OF assms] by (cases "po_Mode e") auto
  have v: "ValidatePolicy e = Inr e" by (rule ValidatePolicy_normal [OF n mode])
  from assms obtain l where l: "ValidatePolicy p = Inr l" "normalizePolicy l = l"
    by (auto simp: EffectivePolicy_def ValidatePolicy_def split: sum.splits PolicyMode.splits)
  have "narrow (narrow l m) m = narrow l m" if "e = narrow l m" for m
  proof -
    have sel: "po_AllowWrites e = (po_AllowWrites e \<and> po_AllowWrites m)" "po_AllowShell e = (po_AllowShell e \<and> po_AllowShell m)"
      "po_AllowNetwork e = (po_AllowNetwork e \<and> po_AllowNetwork m)" "po_AllowMCPs e = (po_AllowMCPs e \<and> po_AllowMCPs m)"
      using narrow_sel [OF l(2), of m] that by auto
    have ro: "\<not> po_AllowWrites e \<Longrightarrow> \<not> po_AllowShell e \<Longrightarrow> \<not> po_AllowMCPs e \<Longrightarrow> po_Mode e = PolicyReadOnly"
      using narrow_sel [OF l(2), of m] that by (auto simp: narrow_def Let_def)
    have "narrow e m = normalizePolicy e"
      using sel ro unfolding narrow_def Let_def samePermissions_def
      by (intro arg_cong [of _ _ normalizePolicy] Policy.equality) auto
    with n that show ?thesis by simp
  qed
  then show ?thesis using assms l(1) v
    by (auto simp: EffectivePolicy_def split: option.splits if_splits sum.splits)
qed

text \<open>
  A runtime is used for a policy only when it can enforce it: the check succeeds exactly when
  the mode is known and the runtime reports a native, tool-level or best-effort control for the
  mode, for file-system isolation, for the denial of destructive commands, and for each of
  network, shell and MCPs that the normalized policy does not allow.
\<close>

theorem support_fails_closed:
  "SupportsPolicy c p \<longleftrightarrow>
     po_Mode p \<in> {PolicyReadOnly, PolicyGuardedWrite, PolicyCustom} \<and>
     availableEnforcement (if po_AllowWrites (normalizePolicy p) then pc_GuardedWrite (cp_Policy c) else pc_ReadOnly (cp_Policy c)) \<and>
     availableEnforcement (pc_FilesystemIsolation (cp_Policy c)) \<and>
     availableEnforcement (pc_DestructiveCommandDeny (cp_Policy c)) \<and>
     (po_AllowNetwork (normalizePolicy p) \<or> availableEnforcement (pc_NetworkIsolation (cp_Policy c))) \<and>
     (po_AllowShell (normalizePolicy p) \<or> availableEnforcement (pc_ShellControl (cp_Policy c))) \<and>
     (po_AllowMCPs (normalizePolicy p) \<or> availableEnforcement (pc_MCPControl (cp_Policy c)))"
  by (cases "po_Mode p") (auto simp: SupportsPolicy_def ValidatePolicySupport_def ValidatePolicy_def missing_controls_def
      missing_if_def Let_def split: if_splits)

end
