(* ===== verification/Pending_Store.thy ===== *)
theory Pending_Store
  imports Local_Store Runtime_Policy
begin

text \<open>
  The receiver's local inbox (\<open>internal/receiver/pending_store.go\<close>) and the sessions of its
  conversations (\<open>internal/receiver/session_store.go\<close>), on the files of \<open>Local_Store\<close>. Neither puts
  its memory back when a write fails.
\<close>

section \<open>The inbox\<close>

definition pendingStoreVersion :: int where
  "pendingStoreVersion = 1"

record PendingRecord =
  pn_Notice :: RequestNotice
  pn_ReceivedAt :: time

type_synonym PendingStore = "PendingRecord local_store"

text \<open>Neither store looks into a record when it loads it, so neither has errors of its own there.\<close>

type_synonym ('s) saved = "'s \<times> (unit store_error, unit) result"

definition pending_write :: "time \<Rightarrow> write_outcome \<Rightarrow> PendingStore \<Rightarrow> PendingStore saved" where
  "pending_write now w st = write_snapshot pendingStoreVersion now w st"

definition pending_kept :: "(string \<times> PendingRecord) list \<Rightarrow> (string \<times> PendingRecord) list" where
  "pending_kept = filter (\<lambda>(k, r). k \<noteq> [] \<and> \<not> Terminal (rn_Status (pn_Notice r)))"

text \<open>\<open>readable\<close> is false when the file exists but cannot be read safely.\<close>

definition pending_load :: "bool \<Rightarrow> time \<Rightarrow> write_outcome \<Rightarrow> PendingStore \<Rightarrow> PendingStore saved" where
  "pending_load readable now w st =
     (case ls_file st of
        None \<Rightarrow> pending_write now w st
      | Some content \<Rightarrow>
          if \<not> readable then (st, Inl ErrStoreRead)
          else case content of None \<Rightarrow> (st, Inl ErrStoreParse) | Some snap \<Rightarrow>
            if sp_Version snap \<noteq> pendingStoreVersion then (st, Inl (ErrStoreVersion (sp_Version snap)))
            else (st\<lparr>ls_entries := copy_into (pending_kept (sp_Entries snap)) (ls_entries st)\<rparr>, Inr ()))"

text \<open>The comparison is by time of creation, then by identifier.\<close>

definition PendingStore_List :: "PendingStore \<Rightarrow> PendingRecord list" where
  "PendingStore_List st =
     sort_key (\<lambda>r. rn_CreatedAt (pn_Notice r)) (sort_key (\<lambda>r. rn_RequestID (pn_Notice r)) (map snd (ls_entries st)))"

definition PendingStore_Get :: "string \<Rightarrow> PendingStore \<Rightarrow> PendingRecord option" where
  "PendingStore_Get requestID st = map_of (ls_entries st) requestID"

text \<open>The zero status stands for a notice that awaits approval.\<close>

definition default_status :: "RequestNotice \<Rightarrow> RequestNotice" where
  "default_status n = (if rn_Status n = StatusOther [] then n\<lparr>rn_Status := StatusAwaitingApproval\<rparr> else n)"

definition received_record :: "time \<Rightarrow> PendingStore \<Rightarrow> RequestNotice \<Rightarrow> PendingRecord" where
  "received_record now st n =
     \<lparr>pn_Notice = n, pn_ReceivedAt =
        (case map_of (ls_entries st) (rn_RequestID n) of None \<Rightarrow> now | Some existing \<Rightarrow> pn_ReceivedAt existing)\<rparr>"

definition PendingStore_Upsert :: "time \<Rightarrow> write_outcome \<Rightarrow> RequestNotice \<Rightarrow> PendingStore \<Rightarrow> PendingStore saved" where
  "PendingStore_Upsert now w notice st =
     (if rn_RequestID notice = [] then (st, Inl ErrStoreInput)
      else save_keeping (pending_write now w)
        (AList.update (rn_RequestID notice) (received_record now st (default_status notice)) (ls_entries st)) st)"

definition PendingStore_UpdateStatus ::
  "time \<Rightarrow> write_outcome \<Rightarrow> string \<Rightarrow> RequestStatus \<Rightarrow> PendingStore \<Rightarrow> PendingStore saved" where
  "PendingStore_UpdateStatus now w requestID status st =
     (case map_of (ls_entries st) requestID of
        None \<Rightarrow> (st, Inl ErrStoreMissing)
      | Some r \<Rightarrow> save_keeping (pending_write now w)
          (AList.update requestID (r\<lparr>pn_Notice := (pn_Notice r)\<lparr>rn_Status := status\<rparr>\<rparr>) (ls_entries st)) st)"

definition PendingStore_Remove :: "time \<Rightarrow> write_outcome \<Rightarrow> string \<Rightarrow> PendingStore \<Rightarrow> PendingStore saved" where
  "PendingStore_Remove now w requestID st =
     (case map_of (ls_entries st) requestID of
        None \<Rightarrow> (st, Inr ())
      | Some _ \<Rightarrow> save_keeping (pending_write now w) (AList.delete requestID (ls_entries st)) st)"

text \<open>The loop of \<open>Replace\<close>: the notices that are taken over, and the map they make.\<close>

definition replace_entries :: "time \<Rightarrow> PendingStore \<Rightarrow> RequestNotice list \<Rightarrow> (string \<times> PendingRecord) list" where
  "replace_entries now st notices =
     map (\<lambda>n. (rn_RequestID n, received_record now st (default_status n)))
       (filter (\<lambda>n. \<not> (rn_RequestID n = [] \<or> Terminal (rn_Status n))) notices)"

definition PendingStore_Replace :: "time \<Rightarrow> write_outcome \<Rightarrow> RequestNotice list \<Rightarrow> PendingStore \<Rightarrow> PendingStore saved" where
  "PendingStore_Replace now w notices st =
     save_keeping (pending_write now w) (copy_into (replace_entries now st notices) []) st"

section \<open>Sessions\<close>

definition sessionStoreVersion :: int where
  "sessionStoreVersion = 1"

type_synonym FileSessionStore = "SessionRef local_store"

definition session_write :: "time \<Rightarrow> write_outcome \<Rightarrow> FileSessionStore \<Rightarrow> FileSessionStore saved" where
  "session_write now w st = write_snapshot sessionStoreVersion now w st"

definition session_kept :: "(string \<times> SessionRef) list \<Rightarrow> (string \<times> SessionRef) list" where
  "session_kept = filter (\<lambda>(k, s). k \<noteq> [] \<and> se_RuntimeID s \<noteq> [] \<and> se_OpaqueID s \<noteq> [])"

definition session_load :: "bool \<Rightarrow> time \<Rightarrow> write_outcome \<Rightarrow> FileSessionStore \<Rightarrow> FileSessionStore saved" where
  "session_load readable now w st =
     (case ls_file st of
        None \<Rightarrow> session_write now w st
      | Some content \<Rightarrow>
          if \<not> readable then (st, Inl ErrStoreRead)
          else case content of None \<Rightarrow> (st, Inl ErrStoreParse) | Some snap \<Rightarrow>
            if sp_Version snap \<noteq> sessionStoreVersion then (st, Inl (ErrStoreVersion (sp_Version snap)))
            else (st\<lparr>ls_entries := copy_into (session_kept (sp_Entries snap)) (ls_entries st)\<rparr>, Inr ()))"

definition SessionStore_Get :: "string \<Rightarrow> FileSessionStore \<Rightarrow> (unit store_error, SessionRef option) result" where
  "SessionStore_Get conversationID st =
     (if conversationID = [] then Inl ErrStoreInput else Inr (map_of (ls_entries st) conversationID))"

definition SessionStore_Put :: "time \<Rightarrow> write_outcome \<Rightarrow> string \<Rightarrow> SessionRef \<Rightarrow> FileSessionStore \<Rightarrow> FileSessionStore saved" where
  "SessionStore_Put now w conversationID session st =
     (if conversationID = [] \<or> se_RuntimeID session = [] \<or> se_OpaqueID session = [] then (st, Inl ErrStoreInput)
      else save_keeping (session_write now w) (AList.update conversationID session (ls_entries st)) st)"

definition SessionStore_Delete :: "time \<Rightarrow> write_outcome \<Rightarrow> string \<Rightarrow> FileSessionStore \<Rightarrow> FileSessionStore saved" where
  "SessionStore_Delete now w conversationID st =
     (if conversationID = [] then (st, Inl ErrStoreInput)
      else case map_of (ls_entries st) conversationID of
        None \<Rightarrow> (st, Inr ())
      | Some _ \<Rightarrow> save_keeping (session_write now w) (AList.delete conversationID (ls_entries st)) st)"

section \<open>The contract of the files\<close>

definition keyed :: "(string \<times> 'v) list \<Rightarrow> bool" where
  "keyed al \<longleftrightarrow> distinct (map fst al)"

interpretation inbox_file: durable_store pending_write pending_load keyed pending_kept
proof
  fix st :: PendingStore and now now' w'
  assume "keyed (ls_entries st)"
  then have "copy_into (pending_kept (ls_entries st)) [] = pending_kept (ls_entries st)"
    using copy_into_fresh [of "[]" "pending_kept (ls_entries st)"]
    by (simp add: keyed_def pending_kept_def distinct_filter_keys)
  then show "pending_load True now' w' ((fst (pending_write now WriteDone st))\<lparr>ls_entries := []\<rparr>) =
      ((fst (pending_write now WriteDone st))\<lparr>ls_entries := pending_kept (ls_entries st)\<rparr>, Inr ())"
    by (simp add: pending_load_def pending_write_def write_snapshot_laws)
qed (simp_all add: pending_write_def write_snapshot_laws)

interpretation session_file: durable_store session_write session_load keyed session_kept
proof
  fix st :: FileSessionStore and now now' w'
  assume "keyed (ls_entries st)"
  then have "copy_into (session_kept (ls_entries st)) [] = session_kept (ls_entries st)"
    using copy_into_fresh [of "[]" "session_kept (ls_entries st)"]
    by (simp add: keyed_def session_kept_def distinct_filter_keys)
  then show "session_load True now' w' ((fst (session_write now WriteDone st))\<lparr>ls_entries := []\<rparr>) =
      ((fst (session_write now WriteDone st))\<lparr>ls_entries := session_kept (ls_entries st)\<rparr>, Inr ())"
    by (simp add: session_load_def session_write_def write_snapshot_laws)
qed (simp_all add: session_write_def write_snapshot_laws)

section \<open>Facts\<close>

lemma keyed_update [simp]: "keyed al \<Longrightarrow> keyed (AList.update k v al)"
  by (simp add: keyed_def distinct_update)

lemma keyed_delete [simp]: "keyed al \<Longrightarrow> keyed (AList.delete k al)"
  by (simp add: keyed_def AList.delete_eq distinct_filter_keys)

lemma keyed_copy [simp]: "keyed (copy_into xs [])"
  by (simp add: keyed_def distinct_copy_into)

lemma map_of_filter_keyed:
  assumes "keyed al"
  shows "map_of (filter P al) k = (case map_of al k of None \<Rightarrow> None | Some v \<Rightarrow> if P (k, v) then Some v else None)"
  using assms
proof (induction al)
  case (Cons a al)
  then show ?case
    by (cases a) (auto simp: keyed_def map_of_eq_None_iff split: option.splits)
qed simp

text \<open>What the store shows after a restart.\<close>

definition shown_after_restart :: "PendingRecord option \<Rightarrow> string \<Rightarrow> PendingRecord option" where
  "shown_after_restart r k =
     (case r of None \<Rightarrow> None
      | Some r \<Rightarrow> if k = [] \<or> Terminal (rn_Status (pn_Notice r)) then None else Some r)"

lemma pending_kept_get: "keyed al \<Longrightarrow> map_of (pending_kept al) k = shown_after_restart (map_of al k) k"
  by (auto simp: pending_kept_def map_of_filter_keyed shown_after_restart_def split: option.splits)

lemma pending_saved:
  assumes "save_keeping (pending_write now w) entries st = (st', Inr ())" "keyed entries"
  shows "ls_entries st' = entries \<and>
    PendingStore_Get k (fst (restarted (pending_load True now' w') st')) = shown_after_restart (map_of entries k) k"
  using inbox_file.saved_is_durable [of now w entries st st' now' w'] assms
  by (simp add: PendingStore_Get_def pending_kept_get)

lemma default_status_id [simp]: "rn_RequestID (default_status n) = rn_RequestID n"
  by (simp add: default_status_def)

lemma default_status_terminal [simp]: "Terminal (rn_Status (default_status n)) = Terminal (rn_Status n)"
  by (simp add: default_status_def)

lemma map_of_image: "map_of (map (\<lambda>n. (f n, g n)) ns) k = map_option g (find (\<lambda>n. f n = k) ns)"
  by (induction ns) auto

lemma find_member: "find P xs = Some x \<Longrightarrow> x \<in> set xs \<and> P x"
  by (induction xs) (auto split: if_splits)

section \<open>Properties\<close>

text \<open>
  The local inbox mirrors the relay's: after a \<open>Replace\<close> that succeeded it shows exactly the
  requests of the list that have an identifier and are not finished, the last notice of each, with
  the time it was first received if it was known before, and a restart shows the same.
\<close>

theorem inbox_replace_exact:
  assumes "PendingStore_Replace now w notices st = (st', Inr ())"
  shows "PendingStore_Get k st' =
      map_option (\<lambda>n. received_record now st (default_status n))
        (find (\<lambda>n. rn_RequestID n = k) (rev (filter (\<lambda>n. rn_RequestID n \<noteq> [] \<and> \<not> Terminal (rn_Status n)) notices))) \<and>
    PendingStore_Get k (fst (restarted (pending_load True now' w') st')) = PendingStore_Get k st'"
proof -
  let ?live = "filter (\<lambda>n. rn_RequestID n \<noteq> [] \<and> \<not> Terminal (rn_Status n)) notices"
  let ?al = "copy_into (replace_entries now st notices) []"
  from pending_saved [OF assms [unfolded PendingStore_Replace_def], of k now' w'] have
    st': "ls_entries st' = ?al" and again: "PendingStore_Get k (fst (restarted (pending_load True now' w') st')) = shown_after_restart (map_of ?al k) k"
    by simp_all
  have get: "map_of ?al k = map_option (\<lambda>n. received_record now st (default_status n)) (find (\<lambda>n. rn_RequestID n = k) (rev ?live))"
    by (simp add: map_of_copy_into replace_entries_def rev_map map_of_image split: option.split)
  moreover have "shown_after_restart (map_of ?al k) k = map_of ?al k"
  proof (cases "find (\<lambda>n. rn_RequestID n = k) (rev ?live)")
    case (Some n)
    from find_member [OF this] have "n \<in> set ?live" "rn_RequestID n = k" by auto
    then show ?thesis by (simp add: get Some shown_after_restart_def received_record_def)
  qed (simp add: get shown_after_restart_def)
  ultimately show ?thesis using st' again by (simp add: PendingStore_Get_def)
qed

definition demo_notice :: RequestNotice where
  "demo_notice = \<lparr>rn_RequestID = ''r1'', rn_ConversationID = ''c1'', rn_Status = StatusOther [], rn_RequesterAgentID = ''a1'',
     rn_RequesterMemberID = ''m1'', rn_RequesterDisplayName = ''A'', rn_Title = ''t'', rn_PromptPreview = ''p'', rn_PromptBytes = 1,
     rn_PromptSHA256 = [], rn_RequestedAccess = [], rn_Attachments = [], rn_CreatedAt = 0, rn_ExpiresAt = 60, rn_ResumesSession = False\<rparr>"

definition demo_inbox :: PendingStore where
  "demo_inbox = \<lparr>ls_entries = [(''r1'', \<lparr>pn_Notice = demo_notice, pn_ReceivedAt = 3\<rparr>)], ls_file = None\<rparr>"

theorem inbox_replace_exact_witness:
  "PendingStore_Get ''r1'' (fst (PendingStore_Replace 9 WriteDone [demo_notice] demo_inbox)) =
     Some \<lparr>pn_Notice = demo_notice\<lparr>rn_Status := StatusAwaitingApproval\<rparr>, pn_ReceivedAt = 3\<rparr>"
proof -
  obtain st' where "PendingStore_Replace 9 WriteDone [demo_notice] demo_inbox = (st', Inr ())"
    by (simp add: PendingStore_Replace_def save_keeping_def pending_write_def write_snapshot_def Let_def)
  with inbox_replace_exact [OF this, of "''r1''"] show ?thesis
    by (simp add: demo_inbox_def demo_notice_def received_record_def default_status_def)
qed

text \<open>
  What the local inbox reports as saved survives a restart: after an \<open>Upsert\<close>, an
  \<open>UpdateStatus\<close> or a \<open>Remove\<close> that succeeded on a map, a new process that reads the file shows
  every unfinished request the old one had in memory, with the same record, and none that was
  finished or removed.
\<close>

lemma inbox_survives_restart:
  assumes "keyed (ls_entries st)"
    "PendingStore_Upsert now w notice st = (st', Inr ()) \<or> PendingStore_UpdateStatus now w requestID state st = (st', Inr ()) \<or>
     (PendingStore_Remove now w requestID st = (st', Inr ()) \<and> PendingStore_Get requestID st \<noteq> None)"
  shows "PendingStore_Get k (fst (restarted (pending_load True now' w') st')) = shown_after_restart (PendingStore_Get k st') k"
proof -
  from assms obtain entries where "save_keeping (pending_write now w) entries st = (st', Inr ())" "keyed entries"
    by (auto simp: PendingStore_Upsert_def PendingStore_UpdateStatus_def PendingStore_Remove_def PendingStore_Get_def
        split: if_splits option.splits)
  from pending_saved [OF this] show ?thesis by (simp add: PendingStore_Get_def)
qed

text \<open>
  A conversation's session survives a restart: after a \<open>Put\<close> that succeeded, a new process that
  reads the file gets the same session for the conversation and, for every other one, the
  complete session the old process had; after a \<open>Delete\<close> that removed one it gets none.
\<close>

theorem session_roundtrip:
  assumes "keyed (ls_entries st)"
  shows "(SessionStore_Put now w c session st = (st', Inr ()) \<longrightarrow>
      SessionStore_Get c (fst (restarted (session_load True now' w') st')) = Inr (Some session) \<and>
      (\<forall>c' s. c' \<noteq> c \<longrightarrow> SessionStore_Get c' st = Inr (Some s) \<longrightarrow> se_RuntimeID s \<noteq> [] \<longrightarrow> se_OpaqueID s \<noteq> [] \<longrightarrow>
         SessionStore_Get c' (fst (restarted (session_load True now' w') st')) = Inr (Some s))) \<and>
    (SessionStore_Delete now w c st = (st', Inr ()) \<longrightarrow> SessionStore_Get c st \<noteq> Inr None \<longrightarrow>
      SessionStore_Get c (fst (restarted (session_load True now' w') st')) = Inr None)"
proof (intro conjI impI)
  have saved: "map_of (ls_entries (fst (restarted (session_load True now' w') st'))) k =
      map_of (filter (\<lambda>(k, s). k \<noteq> [] \<and> se_RuntimeID s \<noteq> [] \<and> se_OpaqueID s \<noteq> []) entries) k"
    if "save_keeping (session_write now w) entries st = (st', Inr ())" "keyed entries" for entries k
    using session_file.saved_is_durable [of now w entries st st' now' w'] that by (simp add: session_kept_def)
  {
    assume "SessionStore_Put now w c session st = (st', Inr ())"
    then have put: "c \<noteq> []" "se_RuntimeID session \<noteq> []" "se_OpaqueID session \<noteq> []"
      "save_keeping (session_write now w) (AList.update c session (ls_entries st)) st = (st', Inr ())"
      by (auto simp: SessionStore_Put_def split: if_splits)
    note get = saved [OF put(4) keyed_update [OF assms]] map_of_filter_keyed [OF keyed_update [OF assms, of c session]]
    show "SessionStore_Get c (fst (restarted (session_load True now' w') st')) = Inr (Some session)"
      using put(1-3) by (simp add: SessionStore_Get_def get AList.update_conv')
    show "\<forall>c' s. c' \<noteq> c \<longrightarrow> SessionStore_Get c' st = Inr (Some s) \<longrightarrow> se_RuntimeID s \<noteq> [] \<longrightarrow> se_OpaqueID s \<noteq> [] \<longrightarrow>
         SessionStore_Get c' (fst (restarted (session_load True now' w') st')) = Inr (Some s)"
      by (auto simp: SessionStore_Get_def get AList.update_conv')
  next
    assume del: "SessionStore_Delete now w c st = (st', Inr ())" "SessionStore_Get c st \<noteq> Inr None"
    then have "c \<noteq> []" "save_keeping (session_write now w) (AList.delete c (ls_entries st)) st = (st', Inr ())"
      by (auto simp: SessionStore_Delete_def SessionStore_Get_def split: if_splits option.splits)
    then show "SessionStore_Get c (fst (restarted (session_load True now' w') st')) = Inr None"
      by (simp add: SessionStore_Get_def saved [OF _ keyed_delete [OF assms]] map_of_filter_keyed [OF keyed_delete [OF assms]]
          AList.delete_conv')
  }
qed

definition demo_session :: SessionRef where
  "demo_session = \<lparr>se_RuntimeID = ''codex'', se_OpaqueID = ''s'', se_PolicyFingerprint = [], se_WorkDirFingerprint = []\<rparr>"

theorem session_roundtrip_witness:
  "SessionStore_Get ''c1'' (fst (restarted (session_load True 2 WriteDone)
     (fst (SessionStore_Put 1 WriteDone ''c1'' demo_session \<lparr>ls_entries = [], ls_file = None\<rparr>)))) = Inr (Some demo_session)"
proof -
  let ?st = "\<lparr>ls_entries = [], ls_file = None\<rparr> :: FileSessionStore"
  have "SessionStore_Put 1 WriteDone ''c1'' demo_session ?st = (fst (SessionStore_Put 1 WriteDone ''c1'' demo_session ?st), Inr ())"
    by (simp add: SessionStore_Put_def demo_session_def save_keeping_def session_write_def write_snapshot_def Let_def)
  with session_roundtrip [of ?st 1 WriteDone "''c1''" demo_session] show ?thesis by (simp add: keyed_def)
qed

end
