(* ===== verification/Mutation_Store.thy ===== *)
theory Mutation_Store
  imports Pending_Store
begin

text \<open>
  The receiver's write-ahead journal of relay mutations (\<open>internal/receiver/mutation_store.go\<close>):
  records of decisions, execution claims and results, validated before they are written, and
  put back in memory when a write fails. \<open>cloneMutationRecord\<close> copies what the model has as values.
\<close>

section \<open>Records\<close>

definition mutationStoreVersion :: int where
  "mutationStoreVersion = 3"

definition legacyMutationStoreVersion :: int where
  "legacyMutationStoreVersion = 1"

definition authorityBoundMutationStoreVersion :: int where
  "authorityBoundMutationStoreVersion = 2"

definition approvedNoticeBindingVersion :: int where
  "approvedNoticeBindingVersion = 1"

datatype mutationPhase =
    mutationDecisionPrepared | mutationClaimPrepared | mutationRuntimeStarted | mutationResultPrepared
  | mutationPhaseOther string

record approvedNoticeBinding =
  nb_Version :: int
  nb_RequestID :: string
  nb_ConversationID :: string
  nb_RequesterAgentID :: string
  nb_RequesterMemberID :: string
  nb_RequesterDisplayName :: string
  nb_Title :: string
  nb_ExpiresAt :: time
  nb_RequestedAccess :: "RequestedAccess list"
  nb_Attachments :: "ArtifactDescriptor list"
  nb_PromptBytes :: int
  nb_PromptSHA256 :: string

record mutationRecord =
  mu_RequestID :: string
  mu_ConversationID :: string
  mu_DecisionID :: string
  mu_Decision :: Decision
  mu_ApprovalLevel :: ApprovalLevel
  mu_ApprovalGrantID :: string
  mu_ApprovalGrantPersisted :: bool
  mu_ApprovalAuthorityFingerprint :: string
  mu_ApprovalRecipientAgentID :: string
  mu_ApprovedNotice :: "approvedNoticeBinding option"
  mu_ExecutionClaimID :: string
  mu_Phase :: mutationPhase
  mu_Result :: "ResultPayload option"
  mu_UpdatedAt :: time

datatype mutation_error =
    MutMissingFields | MutDecisionIdentity | MutExecutionClaim | MutIncompleteAuthority | MutAuthority
  | MutDenyGrant | MutDenyAuthority | MutDenyNotice | MutUnboundAuthority | MutNotice | MutUnboundNotice
  | MutLevel | MutGrantIdentity | MutAskAlwaysGrant | MutGrantWithoutLevel
  | MutDecisionIncomplete | MutAllowWithoutClaim | MutDenyWithClaim | MutExecutionInconsistent
  | MutResultIncomplete | MutResultState | MutPhase | MutKey | MutChangedID | MutUpdate

section \<open>Validation\<close>

definition validLocalOpaqueID :: "string \<Rightarrow> string \<Rightarrow> bool" where
  "validLocalOpaqueID value prefix \<longleftrightarrow>
     \<not> (length value \<noteq> length prefix + 64 \<or> take (length prefix) value \<noteq> prefix) \<and> hex_ok (drop (length prefix) value)"

definition validateApprovedNoticeBinding :: "approvedNoticeBinding \<Rightarrow> string \<Rightarrow> bool" where
  "validateApprovedNoticeBinding b requestID \<longleftrightarrow>
     nb_Version b = approvedNoticeBindingVersion \<and>
     \<not> (nb_RequestID b = [] \<or> nb_RequestID b \<noteq> requestID) \<and>
     \<not> nb_PromptBytes b < 0 \<and>
     (let digest = TrimSpace (nb_PromptSHA256 b) in
      digest = [] \<or> (hex_ok digest \<and> hex_decoded_len digest = 32))"

definition validDecision :: "mutationRecord \<Rightarrow> bool" where
  "validDecision r \<longleftrightarrow> mu_Decision r = DecisionAllowOnce \<or> mu_Decision r = DecisionDeny"

definition record_authority :: "mutationRecord \<Rightarrow> ApprovalAuthority" where
  "record_authority r =
     \<lparr>au_Fingerprint = mu_ApprovalAuthorityFingerprint r, au_RecipientAgentID = mu_ApprovalRecipientAgentID r\<rparr>"

text \<open>The checks up to the phase, which is last.\<close>

definition validate_identity :: "mutationRecord \<Rightarrow> (mutation_error, unit) result" where
  "validate_identity r =
     (if mu_RequestID r = [] \<or> mu_Phase r = mutationPhaseOther [] then Inl MutMissingFields
      else if mu_DecisionID r \<noteq> [] \<and> (\<not> validDecision r \<or> \<not> validLocalOpaqueID (mu_DecisionID r) ''decision_'')
      then Inl MutDecisionIdentity
      else if mu_ExecutionClaimID r \<noteq> [] \<and> \<not> validLocalOpaqueID (mu_ExecutionClaimID r) ''claim_'' then Inl MutExecutionClaim
      else Inr ())"

definition validate_authority :: "mutationRecord \<Rightarrow> bool \<Rightarrow> bool \<Rightarrow> (mutation_error, unit) result" where
  "validate_authority r allowLegacyAuthority allowLegacyNotice =
     (let hasAuthorityFingerprint = (mu_ApprovalAuthorityFingerprint r \<noteq> []);
          hasRecipientAgent = (mu_ApprovalRecipientAgentID r \<noteq> []) in
      if hasAuthorityFingerprint \<noteq> hasRecipientAgent then Inl MutIncompleteAuthority
      else if hasAuthorityFingerprint \<and> normalizeApprovalAuthority (record_authority r) \<noteq> Inr (record_authority r)
      then Inl MutAuthority
      else if mu_Decision r = DecisionDeny \<and>
              (mu_ApprovalLevel r \<noteq> ApprovalLevelOther [] \<or> mu_ApprovalGrantID r \<noteq> [] \<or> mu_ApprovalGrantPersisted r)
      then Inl MutDenyGrant
      else if mu_Decision r = DecisionDeny \<and> hasAuthorityFingerprint then Inl MutDenyAuthority
      else if mu_Decision r = DecisionDeny \<and> mu_ApprovedNotice r \<noteq> None then Inl MutDenyNotice
      else if mu_Decision r = DecisionAllowOnce \<and> \<not> hasAuthorityFingerprint \<and> \<not> allowLegacyAuthority then Inl MutUnboundAuthority
      else if \<not> (case mu_ApprovedNotice r of None \<Rightarrow> True | Some b \<Rightarrow> validateApprovedNoticeBinding b (mu_RequestID r))
      then Inl MutNotice
      else if mu_Decision r = DecisionAllowOnce \<and> mu_ApprovedNotice r = None \<and> \<not> allowLegacyNotice then Inl MutUnboundNotice
      else Inr ())"

definition validate_level :: "mutationRecord \<Rightarrow> (mutation_error, unit) result" where
  "validate_level r =
     (if mu_Decision r = DecisionAllowOnce \<and> mu_ApprovalLevel r \<noteq> ApprovalLevelOther [] then
        if \<not> ApprovalLevel_Valid (mu_ApprovalLevel r) then Inl MutLevel
        else if standing (mu_ApprovalLevel r) then
          (if \<not> validApprovalGrantID (mu_ApprovalGrantID r) then Inl MutGrantIdentity else Inr ())
        else if mu_ApprovalGrantID r \<noteq> [] \<or> mu_ApprovalGrantPersisted r then Inl MutAskAlwaysGrant
        else Inr ()
      else if mu_ApprovalGrantID r \<noteq> [] \<or> mu_ApprovalGrantPersisted r then Inl MutGrantWithoutLevel
      else Inr ())"

definition validate_phase :: "mutationRecord \<Rightarrow> (mutation_error, unit) result" where
  "validate_phase r =
     (let execution =
        (if mu_ExecutionClaimID r = [] \<or> mu_Result r \<noteq> None \<or> (mu_DecisionID r \<noteq> [] \<and> mu_Decision r \<noteq> DecisionAllowOnce)
         then Inl MutExecutionInconsistent else Inr ()) in
      case mu_Phase r of
        mutationDecisionPrepared \<Rightarrow>
          if mu_DecisionID r = [] \<or> \<not> validDecision r \<or> mu_Result r \<noteq> None then Inl MutDecisionIncomplete
          else if mu_Decision r = DecisionAllowOnce \<and> mu_ExecutionClaimID r = [] then Inl MutAllowWithoutClaim
          else if mu_Decision r = DecisionDeny \<and> mu_ExecutionClaimID r \<noteq> [] then Inl MutDenyWithClaim
          else Inr ()
      | mutationClaimPrepared \<Rightarrow> execution
      | mutationRuntimeStarted \<Rightarrow> execution
      | mutationResultPrepared \<Rightarrow>
         (case mu_Result r of
            None \<Rightarrow> Inl MutResultIncomplete
          | Some result \<Rightarrow>
              if mu_ExecutionClaimID r = [] \<or> rp_ExecutionClaimID result \<noteq> mu_ExecutionClaimID r then Inl MutResultIncomplete
              else if rp_State result \<noteq> StatusCompleted \<and> rp_State result \<noteq> StatusFailed \<and> rp_State result \<noteq> StatusCancelled
              then Inl MutResultState
              else Inr ())
      | mutationPhaseOther _ \<Rightarrow> Inl MutPhase)"

definition validateMutationRecordWithLegacy :: "mutationRecord \<Rightarrow> bool \<Rightarrow> bool \<Rightarrow> (mutation_error, unit) result" where
  "validateMutationRecordWithLegacy r allowLegacyAuthority allowLegacyNotice =
     (case validate_identity r of Inl e \<Rightarrow> Inl e | Inr _ \<Rightarrow>
      case validate_authority r allowLegacyAuthority allowLegacyNotice of Inl e \<Rightarrow> Inl e | Inr _ \<Rightarrow>
      case validate_level r of Inl e \<Rightarrow> Inl e | Inr _ \<Rightarrow> validate_phase r)"

definition validateMutationRecord :: "mutationRecord \<Rightarrow> (mutation_error, unit) result" where
  "validateMutationRecord r = validateMutationRecordWithLegacy r False False"

definition validateMutationRecordForLoad :: "mutationRecord \<Rightarrow> (mutation_error, unit) result" where
  "validateMutationRecordForLoad r = validateMutationRecordWithLegacy r True True"

section \<open>Operations\<close>

type_synonym mutationStore = "mutationRecord local_store"

type_synonym 'a journal_reply = "mutationStore \<times> (mutation_error store_error, 'a) result"

definition mutation_write :: "time \<Rightarrow> write_outcome \<Rightarrow> mutationStore \<Rightarrow> unit journal_reply" where
  "mutation_write now w st = write_snapshot mutationStoreVersion now w st"

definition mutation_Get :: "string \<Rightarrow> mutationStore \<Rightarrow> mutationRecord option" where
  "mutation_Get requestID st = map_of (ls_entries st) requestID"

definition mutation_List :: "mutationStore \<Rightarrow> mutationRecord list" where
  "mutation_List st = sort_key mu_RequestID (map snd (ls_entries st))"

text \<open>\<open>now\<close> stamps the record and \<open>t\<close> the file.\<close>

definition mutation_Put :: "time \<Rightarrow> time \<Rightarrow> write_outcome \<Rightarrow> mutationRecord \<Rightarrow> mutationStore \<Rightarrow> unit journal_reply" where
  "mutation_Put now t w r st =
     (case validateMutationRecord r of
        Inl e \<Rightarrow> (st, Inl (ErrStoreRecord e))
      | Inr _ \<Rightarrow> save_or_restore (mutation_write t w)
          (AList.update (mu_RequestID r) (r\<lparr>mu_UpdatedAt := now\<rparr>) (ls_entries st)) st)"

definition mutation_Update ::
  "time \<Rightarrow> time \<Rightarrow> write_outcome \<Rightarrow> string \<Rightarrow> (mutationRecord \<Rightarrow> mutationRecord option) \<Rightarrow> mutationStore \<Rightarrow>
   mutationRecord journal_reply" where
  "mutation_Update now t w requestID update st =
     (case map_of (ls_entries st) requestID of
        None \<Rightarrow> (st, Inl ErrStoreMissing)
      | Some current \<Rightarrow>
      case update current of None \<Rightarrow> (st, Inl (ErrStoreRecord MutUpdate)) | Some r \<Rightarrow>
      if mu_RequestID r \<noteq> requestID then (st, Inl (ErrStoreRecord MutChangedID))
      else case validateMutationRecord r of Inl e \<Rightarrow> (st, Inl (ErrStoreRecord e)) | Inr _ \<Rightarrow>
      let r' = r\<lparr>mu_UpdatedAt := now\<rparr> in
      case save_or_restore (mutation_write t w) (AList.update requestID r' (ls_entries st)) st of
        (st', Inl e) \<Rightarrow> (st', Inl e)
      | (st', Inr _) \<Rightarrow> (st', Inr r'))"

definition mutation_Remove :: "time \<Rightarrow> write_outcome \<Rightarrow> string \<Rightarrow> mutationStore \<Rightarrow> unit journal_reply" where
  "mutation_Remove t w requestID st =
     (case map_of (ls_entries st) requestID of
        None \<Rightarrow> (st, Inr ())
      | Some _ \<Rightarrow> save_or_restore (mutation_write t w) (AList.delete requestID (ls_entries st)) st)"

text \<open>The loop over the records of the file; the first bad one ends it.\<close>

fun check_records :: "(string \<times> mutationRecord) list \<Rightarrow> (mutation_error, unit) result" where
  "check_records [] = Inr ()"
| "check_records ((k, r) # rs) =
     (if k = [] \<or> k \<noteq> mu_RequestID r then Inl MutKey
      else case validateMutationRecordForLoad r of Inl e \<Rightarrow> Inl e | Inr _ \<Rightarrow> check_records rs)"

definition mutation_Reload :: "bool \<Rightarrow> time \<Rightarrow> write_outcome \<Rightarrow> mutationStore \<Rightarrow> unit journal_reply" where
  "mutation_Reload readable now w st =
     (case ls_file st of
        None \<Rightarrow> mutation_write now w (st\<lparr>ls_entries := []\<rparr>)
      | Some content \<Rightarrow>
          if \<not> readable then (st, Inl ErrStoreRead)
          else case content of None \<Rightarrow> (st, Inl ErrStoreParse) | Some snap \<Rightarrow>
            if sp_Version snap \<noteq> mutationStoreVersion \<and> sp_Version snap \<noteq> authorityBoundMutationStoreVersion \<and>
               sp_Version snap \<noteq> legacyMutationStoreVersion
            then (st, Inl (ErrStoreVersion (sp_Version snap)))
            else case check_records (sp_Entries snap) of
              Inl e \<Rightarrow> (st, Inl (ErrStoreRecord e))
            | Inr _ \<Rightarrow> (st\<lparr>ls_entries := copy_into (sp_Entries snap) []\<rparr>, Inr ()))"

section \<open>Facts\<close>

text \<open>The validation does not look at the time of the update.\<close>

lemma validate_updated [simp]:
  "validateMutationRecordWithLegacy (r\<lparr>mu_UpdatedAt := t\<rparr>) a b = validateMutationRecordWithLegacy r a b"
proof -
  let ?r = "r\<lparr>mu_UpdatedAt := t\<rparr>"
  have same: "validDecision ?r = validDecision r" "record_authority ?r = record_authority r" "mu_RequestID ?r = mu_RequestID r"
    "mu_DecisionID ?r = mu_DecisionID r" "mu_Decision ?r = mu_Decision r" "mu_ApprovalLevel ?r = mu_ApprovalLevel r"
    "mu_ApprovalGrantID ?r = mu_ApprovalGrantID r" "mu_ApprovalGrantPersisted ?r = mu_ApprovalGrantPersisted r"
    "mu_ApprovalAuthorityFingerprint ?r = mu_ApprovalAuthorityFingerprint r" "mu_ApprovalRecipientAgentID ?r = mu_ApprovalRecipientAgentID r"
    "mu_ApprovedNotice ?r = mu_ApprovedNotice r" "mu_ExecutionClaimID ?r = mu_ExecutionClaimID r" "mu_Phase ?r = mu_Phase r"
    "mu_Result ?r = mu_Result r"
    by (simp_all add: validDecision_def record_authority_def)
  have "validate_identity ?r = validate_identity r" "validate_authority ?r a b = validate_authority r a b"
    "validate_level ?r = validate_level r" "validate_phase ?r = validate_phase r"
    unfolding validate_identity_def validate_authority_def validate_level_def validate_phase_def same by (rule refl)+
  then show ?thesis by (simp only: validateMutationRecordWithLegacy_def)
qed

text \<open>What may be written may be loaded.\<close>

lemma validate_authority_legacy: "validate_authority r False False = Inr () \<Longrightarrow> validate_authority r True True = Inr ()"
  by (auto simp: validate_authority_def Let_def split: if_splits)

lemma strict_loads: "validateMutationRecord r = Inr () \<Longrightarrow> validateMutationRecordForLoad r = Inr ()"
  using validate_authority_legacy [of r]
  by (auto simp: validateMutationRecord_def validateMutationRecordForLoad_def validateMutationRecordWithLegacy_def split: sum.splits)

definition record_ok :: "string \<times> mutationRecord \<Rightarrow> bool" where
  "record_ok x \<longleftrightarrow> fst x \<noteq> [] \<and> fst x = mu_RequestID (snd x) \<and> validateMutationRecordForLoad (snd x) = Inr ()"

lemma check_records_iff: "check_records rs = Inr () \<longleftrightarrow> (\<forall>x\<in>set rs. record_ok x)"
  by (induction rs rule: check_records.induct) (auto simp: record_ok_def split: sum.splits)

definition journal_ok :: "(string \<times> mutationRecord) list \<Rightarrow> bool" where
  "journal_ok al \<longleftrightarrow> keyed al \<and> (\<forall>x\<in>set al. record_ok x)"

lemma journal_ok_checks: "journal_ok al \<Longrightarrow> check_records al = Inr ()"
  by (simp add: check_records_iff journal_ok_def)

lemma journal_ok_put:
  assumes "journal_ok al" "validateMutationRecord r = Inr ()"
  shows "journal_ok (AList.update (mu_RequestID r) (r\<lparr>mu_UpdatedAt := t\<rparr>) al)"
proof -
  have "mu_RequestID r \<noteq> []"
    using assms(2) by (auto simp: validateMutationRecord_def validateMutationRecordWithLegacy_def validate_identity_def split: if_splits)
  then have "record_ok (mu_RequestID r, r\<lparr>mu_UpdatedAt := t\<rparr>)"
    using strict_loads [OF assms(2)] by (simp add: record_ok_def validateMutationRecordForLoad_def)
  moreover have "set (AList.update k v al) \<subseteq> insert (k, v) (set al)" for k and v :: mutationRecord
    by (induction al) auto
  ultimately show ?thesis using assms(1) unfolding journal_ok_def by (auto dest: subsetD)
qed

lemma journal_ok_delete: "journal_ok al \<Longrightarrow> journal_ok (AList.delete k al)"
  by (auto simp: journal_ok_def AList.delete_eq keyed_def distinct_filter_keys)

interpretation journal_file: durable_store mutation_write mutation_Reload journal_ok id
proof
  fix st :: mutationStore and now now' w'
  assume ok: "journal_ok (ls_entries st)"
  then have "copy_into (ls_entries st) [] = ls_entries st"
    using copy_into_fresh [of "[]" "ls_entries st"] by (simp add: journal_ok_def keyed_def)
  with ok show "mutation_Reload True now' w' ((fst (mutation_write now WriteDone st))\<lparr>ls_entries := []\<rparr>) =
      ((fst (mutation_write now WriteDone st))\<lparr>ls_entries := id (ls_entries st)\<rparr>, Inr ())"
    by (simp add: mutation_Reload_def mutation_write_def write_snapshot_laws journal_ok_checks)
qed (simp_all add: mutation_write_def write_snapshot_laws)

lemma journal_saved:
  assumes "save_or_restore (mutation_write t w) entries st = (st', Inr ())" "journal_ok entries"
  shows "ls_entries st' = entries \<and> restarted (mutation_Reload True now' w') st' = (st', Inr ())"
  using journal_file.saved_is_durable [of t w entries st st' now' w'] assms by simp

lemma save_or_restore_reply: "save_or_restore wr entries st = (st', r) \<Longrightarrow> (\<exists>e. r = Inl e) \<or> r = Inr ()"
  by (cases r) simp_all

section \<open>The journal as a state machine\<close>

inductive journal_step :: "mutationStore \<Rightarrow> mutationStore \<Rightarrow> bool" where
  j_put: "journal_step st (fst (mutation_Put now t w r st))"
| j_update: "journal_step st (fst (mutation_Update now t w k f st))"
| j_remove: "journal_step st (fst (mutation_Remove t w k st))"
| j_reload: "journal_step st (fst (mutation_Reload readable now w st))"

definition journal_inv :: "mutationStore \<Rightarrow> bool" where
  "journal_inv st \<longleftrightarrow> journal_ok (ls_entries st) \<and>
     (case ls_file st of None \<Rightarrow> True | Some None \<Rightarrow> False
      | Some (Some snap) \<Rightarrow> sp_Version snap = mutationStoreVersion \<and> journal_ok (sp_Entries snap))"

lemma write_inv:
  "journal_inv st \<Longrightarrow> journal_ok al \<Longrightarrow> journal_inv (fst (mutation_write t w (st\<lparr>ls_entries := al\<rparr>)))"
  by (cases w) (auto simp: mutation_write_def write_snapshot_def Let_def journal_inv_def)

lemma save_inv:
  assumes "journal_inv st" "journal_ok al"
  shows "journal_inv (fst (save_or_restore (mutation_write t w) al st))"
proof -
  obtain st1 r where wr: "mutation_write t w (st\<lparr>ls_entries := al\<rparr>) = (st1, r)" by fastforce
  from write_inv [OF assms, of t w] wr have inv: "journal_inv st1" by simp
  then show ?thesis
    using assms(1) wr by (cases r) (auto simp: save_or_restore_def journal_inv_def)
qed

lemma journal_step_inv:
  assumes "journal_step st st'" "journal_inv st"
  shows "journal_inv st'"
  using assms(1)
proof cases
  case (j_put now t w r)
  have "journal_ok (ls_entries st)" using assms(2) by (simp add: journal_inv_def)
  then have "validateMutationRecord r = Inr () \<Longrightarrow>
      journal_inv (fst (save_or_restore (mutation_write t w) (AList.update (mu_RequestID r) (r\<lparr>mu_UpdatedAt := now\<rparr>) (ls_entries st)) st))"
    using save_inv [OF assms(2)] journal_ok_put by blast
  with assms(2) j_put show ?thesis by (auto simp: mutation_Put_def split: sum.splits)
next
  case (j_update now t w k f)
  show ?thesis
  proof (cases "\<exists>cur r. map_of (ls_entries st) k = Some cur \<and> f cur = Some r \<and> mu_RequestID r = k \<and> validateMutationRecord r = Inr ()")
    case True
    then obtain cur r where r: "map_of (ls_entries st) k = Some cur" "f cur = Some r" "mu_RequestID r = k" "validateMutationRecord r = Inr ()"
      by blast
    have "journal_ok (AList.update k (r\<lparr>mu_UpdatedAt := now\<rparr>) (ls_entries st))"
      using journal_ok_put [OF _ r(4), of "ls_entries st" now] assms(2) r(3) by (simp add: journal_inv_def)
    from save_inv [OF assms(2) this, of t w] j_update r show ?thesis
      by (auto simp: mutation_Update_def Let_def split: sum.splits prod.splits)
  next
    case False
    with j_update assms(2) show ?thesis
      by (auto simp: mutation_Update_def split: option.splits sum.splits if_splits)
  qed
next
  case (j_remove t w k)
  have "journal_ok (AList.delete k (ls_entries st))" using assms(2) by (simp add: journal_inv_def journal_ok_delete)
  from save_inv [OF assms(2) this, of t w] j_remove assms(2) show ?thesis
    by (auto simp: mutation_Remove_def split: option.splits)
next
  case (j_reload readable now w)
  have "journal_ok []" by (simp add: journal_ok_def keyed_def)
  note fresh = write_inv [OF assms(2) this, of now w]
  show ?thesis
  proof (cases "ls_file st")
    case None
    with fresh j_reload show ?thesis by (simp add: mutation_Reload_def)
  next
    case (Some content)
    with assms(2) obtain snap where snap: "content = Some snap" "journal_ok (sp_Entries snap)"
      by (auto simp: journal_inv_def split: option.splits)
    then have copied: "copy_into (sp_Entries snap) [] = sp_Entries snap"
      using copy_into_fresh [of "[]" "sp_Entries snap"] by (simp add: journal_ok_def keyed_def)
    have "journal_inv (st\<lparr>ls_entries := sp_Entries snap\<rparr>)" using assms(2) snap Some by (simp add: journal_inv_def)
    with assms(2) Some snap copied j_reload show ?thesis
      by (cases "check_records (sp_Entries snap)") (auto simp: mutation_Reload_def)
  qed
qed

section \<open>Properties\<close>

definition demo_binding :: approvedNoticeBinding where
  "demo_binding = \<lparr>nb_Version = 1, nb_RequestID = ''r1'', nb_ConversationID = ''c1'', nb_RequesterAgentID = ''a1'',
     nb_RequesterMemberID = ''m1'', nb_RequesterDisplayName = ''A'', nb_Title = ''t'', nb_ExpiresAt = 60, nb_RequestedAccess = [],
     nb_Attachments = [], nb_PromptBytes = 1, nb_PromptSHA256 = []\<rparr>"

definition demo_allowed :: mutationRecord where
  "demo_allowed = \<lparr>mu_RequestID = ''r1'', mu_ConversationID = ''c1'', mu_DecisionID = ''decision_'' @ replicate 64 CHR ''a'',
     mu_Decision = DecisionAllowOnce, mu_ApprovalLevel = ApprovalLevelOther [], mu_ApprovalGrantID = [], mu_ApprovalGrantPersisted = False,
     mu_ApprovalAuthorityFingerprint = ''f'', mu_ApprovalRecipientAgentID = ''b'', mu_ApprovedNotice = Some demo_binding,
     mu_ExecutionClaimID = ''claim_'' @ replicate 64 CHR ''b'', mu_Phase = mutationDecisionPrepared, mu_Result = None, mu_UpdatedAt = 0\<rparr>"

lemma demo_allowed_valid: "validateMutationRecord demo_allowed = Inr ()"
proof -
  have id: "validate_identity demo_allowed = Inr ()"
    by (simp add: validate_identity_def demo_allowed_def validDecision_def validLocalOpaqueID_def hex_ok_def list_all_iff
        is_hex_digit_def less_eq_char_def)
  have runes: "runes ''f'' = [102]" "runes ''b'' = [98]" by code_simp+
  have "normalizeApprovalAuthority (record_authority demo_allowed) = Inr (record_authority demo_allowed)"
    by (simp add: normalizeApprovalAuthority_def record_authority_def demo_allowed_def TrimSpace_id IsSpace_def
        validApprovalValue_def runes IsControl_def)
  then have au: "validate_authority demo_allowed False False = Inr ()"
    by (simp add: validate_authority_def demo_allowed_def validateApprovedNoticeBinding_def demo_binding_def
        approvedNoticeBindingVersion_def)
  have "validate_level demo_allowed = Inr ()" "validate_phase demo_allowed = Inr ()"
    by (simp_all add: validate_level_def validate_phase_def demo_allowed_def validDecision_def)
  with id au show ?thesis by (simp add: validateMutationRecord_def validateMutationRecordWithLegacy_def)
qed

definition empty_journal :: mutationStore where
  "empty_journal = \<lparr>ls_entries = [], ls_file = None\<rparr>"

lemma empty_journal_ok: "journal_ok (ls_entries empty_journal)"
  by (simp add: empty_journal_def journal_ok_def keyed_def)

lemma demo_put: "mutation_Put 1 2 WriteDone demo_allowed empty_journal = (fst (mutation_Put 1 2 WriteDone demo_allowed empty_journal), Inr ())"
  by (simp add: mutation_Put_def demo_allowed_valid save_or_restore_def mutation_write_def write_snapshot_def Let_def)

text \<open>
  C35. The journal is a write-ahead log. A \<open>Put\<close> that reports success is on disk: a new process that
  reads the file finds the record, stamped, and every other record as it was; the same holds for
  the record an \<open>Update\<close> returns and for the absence a \<open>Remove\<close> leaves. An operation that reports an
  error leaves the journal in memory as it was.
\<close>

theorem journal_is_write_ahead:
  assumes "journal_ok (ls_entries st)"
  shows "(mutation_Put now t w r st = (st1, Inr ()) \<longrightarrow>
      mutation_Get k (fst (restarted (mutation_Reload True now' w') st1)) =
        (if k = mu_RequestID r then Some (r\<lparr>mu_UpdatedAt := now\<rparr>) else mutation_Get k st)) \<and>
    (mutation_Update now t w i f st = (st2, Inr r2) \<longrightarrow>
      mutation_Get k (fst (restarted (mutation_Reload True now' w') st2)) = (if k = i then Some r2 else mutation_Get k st)) \<and>
    (mutation_Remove t w i st = (st3, Inr ()) \<longrightarrow> mutation_Get i st \<noteq> None \<longrightarrow>
      mutation_Get k (fst (restarted (mutation_Reload True now' w') st3)) = (if k = i then None else mutation_Get k st)) \<and>
    (mutation_Put now t w r st = (st4, Inl e) \<or> mutation_Update now t w i f st = (st4, Inl e) \<or> mutation_Remove t w i st = (st4, Inl e) \<longrightarrow>
      ls_entries st4 = ls_entries st)"
proof (intro conjI impI)
  note saved = journal_saved [of t w _ st _ now' w']
  {
    assume "mutation_Put now t w r st = (st1, Inr ())"
    then have v: "validateMutationRecord r = Inr ()"
      "save_or_restore (mutation_write t w) (AList.update (mu_RequestID r) (r\<lparr>mu_UpdatedAt := now\<rparr>) (ls_entries st)) st = (st1, Inr ())"
      by (auto simp: mutation_Put_def split: sum.splits)
    from saved [OF v(2) journal_ok_put [OF assms v(1)]]
    show "mutation_Get k (fst (restarted (mutation_Reload True now' w') st1)) =
        (if k = mu_RequestID r then Some (r\<lparr>mu_UpdatedAt := now\<rparr>) else mutation_Get k st)"
      by (simp add: mutation_Get_def AList.update_conv')
  next
    assume "mutation_Update now t w i f st = (st2, Inr r2)"
    then obtain r0 where v: "validateMutationRecord r0 = Inr ()" "mu_RequestID r0 = i" "r2 = r0\<lparr>mu_UpdatedAt := now\<rparr>"
      "save_or_restore (mutation_write t w) (AList.update i r2 (ls_entries st)) st = (st2, Inr ())"
      by (auto simp: mutation_Update_def Let_def split: option.splits sum.splits if_splits prod.splits)
    from saved [OF v(4)] journal_ok_put [OF assms v(1), of now] v(2,3)
    show "mutation_Get k (fst (restarted (mutation_Reload True now' w') st2)) = (if k = i then Some r2 else mutation_Get k st)"
      by (simp add: mutation_Get_def AList.update_conv')
  next
    assume "mutation_Remove t w i st = (st3, Inr ())" "mutation_Get i st \<noteq> None"
    then have "save_or_restore (mutation_write t w) (AList.delete i (ls_entries st)) st = (st3, Inr ())"
      by (auto simp: mutation_Remove_def mutation_Get_def)
    from saved [OF this journal_ok_delete [OF assms]]
    show "mutation_Get k (fst (restarted (mutation_Reload True now' w') st3)) = (if k = i then None else mutation_Get k st)"
      by (simp add: mutation_Get_def AList.delete_conv')
  next
    assume "mutation_Put now t w r st = (st4, Inl e) \<or> mutation_Update now t w i f st = (st4, Inl e) \<or> mutation_Remove t w i st = (st4, Inl e)"
    then show "ls_entries st4 = ls_entries st"
      using journal_file.save_or_restore_error
      by (auto simp: mutation_Put_def mutation_Update_def mutation_Remove_def Let_def
          split: option.splits sum.splits if_splits prod.splits)
  }
qed

theorem journal_is_write_ahead_witness:
  "mutation_Get ''r1'' (fst (restarted (mutation_Reload True 3 WriteDone) (fst (mutation_Put 1 2 WriteDone demo_allowed empty_journal)))) =
     Some (demo_allowed\<lparr>mu_UpdatedAt := 1\<rparr>)"
proof -
  have "mu_RequestID demo_allowed = ''r1''" by (simp add: demo_allowed_def)
  with journal_is_write_ahead [OF empty_journal_ok, THEN conjunct1, rule_format, OF demo_put, of "''r1''" 3 WriteDone]
  show ?thesis by simp
qed

text \<open>
  C36. The receiver never writes a journal it cannot read: from an empty state directory, after any
  sequence of puts, updates, removals and reloads with any outcomes of their writes, every record
  in memory is filed under its own identifier and is valid, and a restart reads the file back
  without error.
\<close>

theorem journal_always_reloads:
  assumes "journal_step\<^sup>*\<^sup>* empty_journal st"
  shows "(\<forall>k r. mutation_Get k st = Some r \<longrightarrow> mu_RequestID r = k \<and> validateMutationRecordForLoad r = Inr ()) \<and>
    snd (restarted (mutation_Reload True now WriteDone) st) = Inr ()"
proof -
  from assms have inv: "journal_inv st"
  proof (induction rule: rtranclp_induct)
    case base
    show ?case by (simp add: journal_inv_def empty_journal_def journal_ok_def keyed_def)
  qed (rule journal_step_inv)
  have "snd (restarted (mutation_Reload True now WriteDone) st) = Inr ()"
    using inv journal_ok_checks by (auto simp: restarted_def mutation_Reload_def journal_inv_def
        mutation_write_def write_snapshot_def Let_def split: option.splits)
  moreover have "\<forall>k r. mutation_Get k st = Some r \<longrightarrow> mu_RequestID r = k \<and> validateMutationRecordForLoad r = Inr ()"
    using inv by (auto simp: mutation_Get_def journal_inv_def journal_ok_def record_ok_def dest!: map_of_SomeD)
  ultimately show ?thesis by blast
qed

theorem journal_always_reloads_witness:
  "snd (restarted (mutation_Reload True 3 WriteDone) (fst (mutation_Put 1 2 WriteUnsynced demo_allowed empty_journal))) = Inr ()"
  using journal_always_reloads [of "fst (mutation_Put 1 2 WriteUnsynced demo_allowed empty_journal)"] j_put by blast

text \<open>
  An allowance the journal accepts is bound: it names a trimmed authority and recipient, the
  notice that was approved, for the same request and with a digest of the prompt or none, an
  execution claim of the right form, and, when the approval stands, a grant of the right form. A
  refusal it accepts carries none of these approvals.
\<close>

theorem accepted_decision_is_bound:
  assumes "validateMutationRecord r = Inr ()"
  shows "(mu_Decision r = DecisionAllowOnce \<longrightarrow>
      mu_ApprovalAuthorityFingerprint r \<noteq> [] \<and> mu_ApprovalRecipientAgentID r \<noteq> [] \<and>
      normalizeApprovalAuthority (record_authority r) = Inr (record_authority r) \<and>
      (\<exists>b. mu_ApprovedNotice r = Some b \<and> nb_RequestID b = mu_RequestID r \<and> 0 \<le> nb_PromptBytes b \<and>
         (TrimSpace (nb_PromptSHA256 b) = [] \<or> length (TrimSpace (nb_PromptSHA256 b)) = 64)) \<and>
      validLocalOpaqueID (mu_ExecutionClaimID r) ''claim_'' \<and>
      (standing (mu_ApprovalLevel r) \<longrightarrow> validApprovalGrantID (mu_ApprovalGrantID r))) \<and>
    (mu_Decision r = DecisionDeny \<longrightarrow>
      mu_ApprovalAuthorityFingerprint r = [] \<and> mu_ApprovalGrantID r = [] \<and> \<not> mu_ApprovalGrantPersisted r \<and> mu_ApprovedNotice r = None)"
proof -
  from assms have parts: "validate_identity r = Inr ()" "validate_authority r False False = Inr ()" "validate_level r = Inr ()"
    "validate_phase r = Inr ()"
    by (auto simp: validateMutationRecord_def validateMutationRecordWithLegacy_def split: sum.splits)
  have claim: "mu_Decision r = DecisionAllowOnce \<Longrightarrow> mu_ExecutionClaimID r \<noteq> []"
    using parts(4) by (auto simp: validate_phase_def Let_def split: mutationPhase.splits if_splits option.splits)
  have valid: "mu_ExecutionClaimID r \<noteq> [] \<Longrightarrow> validLocalOpaqueID (mu_ExecutionClaimID r) ''claim_''"
    using parts(1) by (auto simp: validate_identity_def split: if_splits)
  have level: "mu_Decision r = DecisionAllowOnce \<Longrightarrow> standing (mu_ApprovalLevel r) \<Longrightarrow> validApprovalGrantID (mu_ApprovalGrantID r)"
    using parts(3) by (auto simp: validate_level_def standing_def split: if_splits)
  have digest: "hex_decoded_len s = 32 \<Longrightarrow> hex_ok s \<Longrightarrow> length s = 64" for s
    by (auto simp: hex_decoded_len_def hex_ok_def elim!: evenE)
  have allow: "mu_Decision r = DecisionAllowOnce \<Longrightarrow>
      mu_ApprovalAuthorityFingerprint r \<noteq> [] \<and> mu_ApprovalRecipientAgentID r \<noteq> [] \<and>
      normalizeApprovalAuthority (record_authority r) = Inr (record_authority r) \<and>
      (\<exists>b. mu_ApprovedNotice r = Some b \<and> nb_RequestID b = mu_RequestID r \<and> 0 \<le> nb_PromptBytes b \<and>
         (TrimSpace (nb_PromptSHA256 b) = [] \<or> length (TrimSpace (nb_PromptSHA256 b)) = 64))"
    using parts(2) digest
    by (auto simp: validate_authority_def validateApprovedNoticeBinding_def Let_def split: if_splits option.splits)
  have deny: "mu_Decision r = DecisionDeny \<Longrightarrow>
      mu_ApprovalAuthorityFingerprint r = [] \<and> mu_ApprovalGrantID r = [] \<and> \<not> mu_ApprovalGrantPersisted r \<and> mu_ApprovedNotice r = None"
    using parts(2) by (auto simp: validate_authority_def Let_def split: if_splits)
  show ?thesis using claim valid level allow deny by blast
qed

theorem accepted_decision_is_bound_witness:
  "\<exists>b. mu_ApprovedNotice demo_allowed = Some b \<and> nb_RequestID b = mu_RequestID demo_allowed"
proof -
  have "mu_Decision demo_allowed = DecisionAllowOnce" by (simp add: demo_allowed_def)
  with accepted_decision_is_bound [OF demo_allowed_valid] show ?thesis by blast
qed

end
