(* ===== verification/Runtime_Helpers.thy ===== *)
theory Runtime_Helpers
  imports Runtime_Policy
begin

text \<open>
  What every runtime adapter shares (\<open>internal/runtime/helpers.go\<close>, \<open>contract.go\<close> and the request
  types of \<open>types.go\<close>): the check of a run request, the redaction of text that leaves the machine,
  bounded summaries, the prompt, and the narrowing of a request to the effective policy.

  The two regular expressions are written out as matchers: both are deterministic, so a match at a
  position is a prefix of the rest of the text or nothing, and \<open>ReplaceAllString\<close> goes from left to
  right over the text. Texts are UTF-8. Paths are those of Unix.
\<close>

section \<open>Requests\<close>

datatype WorkspaceMode = WorkspaceReadOnly | WorkspaceWritable | WorkspaceOther string

record Workspace =
  ws_Path :: string
  ws_Mode :: WorkspaceMode

record RunRequest =
  rr_RequestID :: string
  rr_ConversationID :: string
  rr_Title :: string
  rr_Requester :: string
  rr_Prompt :: string
  rr_Attachments :: "string list"
  rr_Workspaces :: "Workspace list"
  rr_ReturnDirectory :: string
  rr_RequestedPolicy :: "PolicyRequest option"
  rr_Session :: "SessionRef option"

text \<open>What the receiver reads of a \<open>RunResult\<close>; usage figures are only logged.\<close>

record RunResult =
  rs_FinalText :: string
  rs_Session :: "SessionRef option"

text \<open>\<open>filepath.IsAbs\<close> and \<open>filepath.Clean\<close>: empty and dot components go, a dot-dot takes back the one before.\<close>

definition IsAbs :: "string \<Rightarrow> bool" where
  "IsAbs p = HasPrefix p ''/''"

fun clean_components :: "bool \<Rightarrow> string list \<Rightarrow> string list \<Rightarrow> string list" where
  "clean_components rooted out [] = rev out"
| "clean_components rooted out (c # cs) =
     (if c = [] \<or> c = ''.'' then clean_components rooted out cs
      else if c = ''..'' then
        (case out of
           [] \<Rightarrow> clean_components rooted (if rooted then [] else [c]) cs
         | d # ds \<Rightarrow> if d = ''..'' then clean_components rooted (c # out) cs else clean_components rooted ds cs)
      else clean_components rooted (c # out) cs)"

fun join_with :: "string \<Rightarrow> string list \<Rightarrow> string" where
  "join_with sep [] = []"
| "join_with sep [x] = x"
| "join_with sep (x # y # ys) = x @ sep @ join_with sep (y # ys)"

definition Clean :: "string \<Rightarrow> string" where
  "Clean p =
     (let rooted = IsAbs p; out = (if rooted then ''/'' else []) @ join_with ''/'' (clean_components rooted [] (Split CHR ''/'' p))
      in if out = [] then ''.'' else out)"

definition clean_absolute :: "string \<Rightarrow> bool" where
  "clean_absolute p \<longleftrightarrow> \<not> (\<not> IsAbs p \<or> Clean p \<noteq> p)"

datatype run_request_error =
    RunNoRequest | RunNoConversation | RunNoPrompt | RunPath string | RunWorkspace string | RunWorkspaceMode WorkspaceMode

fun check_paths :: "string list \<Rightarrow> (run_request_error, unit) result" where
  "check_paths [] = Inr ()"
| "check_paths (p # ps) =
     (if p = [] then check_paths ps else if \<not> clean_absolute p then Inl (RunPath p) else check_paths ps)"

fun check_workspaces :: "Workspace list \<Rightarrow> (run_request_error, unit) result" where
  "check_workspaces [] = Inr ()"
| "check_workspaces (w # ws) =
     (if \<not> clean_absolute (ws_Path w) then Inl (RunWorkspace (ws_Path w))
      else if ws_Mode w \<noteq> WorkspaceReadOnly \<and> ws_Mode w \<noteq> WorkspaceWritable then Inl (RunWorkspaceMode (ws_Mode w))
      else check_workspaces ws)"

definition ValidateRunRequest :: "RunRequest \<Rightarrow> (run_request_error, unit) result" where
  "ValidateRunRequest r =
     (if TrimSpace (rr_RequestID r) = [] then Inl RunNoRequest
      else if TrimSpace (rr_ConversationID r) = [] then Inl RunNoConversation
      else if TrimSpace (rr_Prompt r) = [] then Inl RunNoPrompt
      else case check_paths (rr_Attachments r @ [rr_ReturnDirectory r]) of Inl e \<Rightarrow> Inl e | Inr _ \<Rightarrow>
        check_workspaces (rr_Workspaces r))"

section \<open>Redaction\<close>

text \<open>
  A letter of a pattern under \<open>(?i)\<close>: both cases, and for k and s the two letters outside ASCII that
  fold to them (the Kelvin sign and the long s).
\<close>

definition match_letter :: "char \<Rightarrow> string \<Rightarrow> string option" where
  "match_letter c s =
     (case s of [] \<Rightarrow> None | x # xs \<Rightarrow>
        if ascii_lower x = c then Some xs
        else if c = CHR ''k'' \<and> HasPrefix s [CHR 0xE2, CHR 0x84, CHR 0xAA] then Some (drop 3 s)
        else if c = CHR ''s'' \<and> HasPrefix s [CHR 0xC5, CHR 0xBF] then Some (drop 2 s)
        else None)"

fun match_word :: "string \<Rightarrow> string \<Rightarrow> string option" where
  "match_word [] s = Some s"
| "match_word (c # cs) s = (case match_letter c s of None \<Rightarrow> None | Some rest \<Rightarrow> match_word cs rest)"

definition match_api_key :: "string \<Rightarrow> string option" where
  "match_api_key s =
     (case match_word ''api'' s of None \<Rightarrow> None | Some rest \<Rightarrow>
        match_word ''key'' (if rest \<noteq> [] \<and> hd rest \<in> set '' _-'' then tl rest else rest))"

fun first_some :: "'a option list \<Rightarrow> 'a option" where
  "first_some [] = None"
| "first_some (Some x # xs) = Some x"
| "first_some (None # xs) = first_some xs"

definition match_keyword :: "string \<Rightarrow> string option" where
  "match_keyword s = first_some [match_word ''authorization'' s, match_api_key s, match_word ''password'' s,
     match_word ''secret'' s, match_word ''token'' s]"

text \<open>\<open>\s\<close> is ASCII space only.\<close>

definition re_space :: "char \<Rightarrow> bool" where
  "re_space c \<longleftrightarrow> of_char c \<in> {9, 10, 12, 13, 32 :: nat}"

definition value_char :: "char \<Rightarrow> bool" where
  "value_char c \<longleftrightarrow> \<not> re_space c \<and> c \<noteq> CHR '','' \<and> c \<noteq> CHR '';''"

text \<open>
  A match of \<open>sensitiveValue\<close> at the start of a text: what follows the first two groups. The value is
  the longest run of value characters there and is not empty.
\<close>

definition match_sensitive :: "string \<Rightarrow> string option" where
  "match_sensitive s =
     (case match_keyword s of None \<Rightarrow> None | Some r1 \<Rightarrow>
      case dropWhile re_space r1 of [] \<Rightarrow> None | c # r2 \<Rightarrow>
      if c \<noteq> CHR '':'' \<and> c \<noteq> CHR ''='' then None
      else let r3 = dropWhile re_space r2 in
        if r3 = [] \<or> \<not> value_char (hd r3) then None else Some r3)"

lemma match_letter_shorter: "match_letter c s = Some r \<Longrightarrow> length r < length s"
  by (auto simp: match_letter_def split: list.splits if_splits)

lemma match_word_shorter: "match_word w s = Some r \<Longrightarrow> length r \<le> length s"
  by (induction w arbitrary: s) (force dest: match_letter_shorter split: option.splits)+

lemma first_some_set: "first_some xs = Some y \<Longrightarrow> Some y \<in> set xs"
  by (induction xs rule: first_some.induct) auto

lemma match_api_key_shorter:
  assumes "match_api_key s = Some r"
  shows "length r \<le> length s"
proof -
  from assms obtain r0 where r0: "match_word ''api'' s = Some r0"
    "match_word ''key'' (if r0 \<noteq> [] \<and> hd r0 \<in> set '' _-'' then tl r0 else r0) = Some r"
    unfolding match_api_key_def by (auto split: option.splits)
  have "length r \<le> length r0" using match_word_shorter [OF r0(2)] by (simp split: if_splits)
  with match_word_shorter [OF r0(1)] show ?thesis by simp
qed

lemma match_keyword_shorter:
  assumes "match_keyword s = Some r"
  shows "length r \<le> length s"
proof -
  have "Some r \<in> {match_word ''authorization'' s, match_api_key s, match_word ''password'' s, match_word ''secret'' s, match_word ''token'' s}"
    using first_some_set [OF assms [unfolded match_keyword_def]] by simp
  then have "match_api_key s = Some r \<or> (\<exists>w. match_word w s = Some r)" unfolding insert_iff empty_iff by (elim disjE; metis)
  then show ?thesis using match_word_shorter match_api_key_shorter by blast
qed

lemma match_sensitive_shorter:
  assumes "match_sensitive s = Some r"
  shows "length (dropWhile value_char r) < length s"
proof -
  from assms obtain r1 c r2 where m: "match_keyword s = Some r1" "dropWhile re_space r1 = c # r2" "r = dropWhile re_space r2"
    by (auto simp: match_sensitive_def Let_def split: option.splits list.splits if_splits)
  have "length (c # r2) \<le> length r1" using m(2) length_dropWhile_le [of re_space r1] by simp
  moreover have "length r \<le> length r2" using m(3) length_dropWhile_le [of re_space r2] by simp
  ultimately show ?thesis using match_keyword_shorter [OF m(1)] length_dropWhile_le [of value_char r] by simp
qed

definition redacted :: string where
  "redacted = ''[REDACTED]''"

function redact_sensitive :: "string \<Rightarrow> string" where
  "redact_sensitive [] = []"
| "redact_sensitive (c # s) =
     (case match_sensitive (c # s) of
        None \<Rightarrow> c # redact_sensitive s
      | Some r \<Rightarrow> take (length (c # s) - length r) (c # s) @ redacted @ redact_sensitive (dropWhile value_char r))"
  by pat_completeness auto
termination
  by (relation "measure length") (auto dest: match_sensitive_shorter)

text \<open>\<open>credentialValue\<close>: a prefix of a credential that no word character precedes, and its characters.\<close>

definition credential_prefixes :: "string list" where
  "credential_prefixes = [''tr_boot_'', ''tr_admin_'', ''tr_inv_'', ''tr_dev_'', ''trl_'', ''cbr_'', ''ghp_'', ''github_pat_'', ''sk-'']"

definition alphanumeric :: "char \<Rightarrow> bool" where
  "alphanumeric c \<longleftrightarrow> (CHR ''0'' \<le> c \<and> c \<le> CHR ''9'') \<or> (CHR ''A'' \<le> c \<and> c \<le> CHR ''Z'') \<or> (CHR ''a'' \<le> c \<and> c \<le> CHR ''z'')"

definition word_char :: "char \<Rightarrow> bool" where
  "word_char c \<longleftrightarrow> alphanumeric c \<or> c = CHR ''_''"

definition credential_char :: "char \<Rightarrow> bool" where
  "credential_char c \<longleftrightarrow> word_char c \<or> c = CHR ''-''"

definition match_credential :: "string \<Rightarrow> bool" where
  "match_credential s \<longleftrightarrow>
     list_ex (\<lambda>p. HasPrefix s p \<and> drop (length p) s \<noteq> [] \<and> credential_char (hd (drop (length p) s))) credential_prefixes"

text \<open>\<open>after\<close> says that a word character comes before the text.\<close>

function redact_credentials :: "bool \<Rightarrow> string \<Rightarrow> string" where
  "redact_credentials after [] = []"
| "redact_credentials after (c # s) =
     (if \<not> after \<and> match_credential (c # s)
      then redacted @ redact_credentials (word_char (last (takeWhile credential_char (c # s)))) (dropWhile credential_char s)
      else c # redact_credentials (word_char c) s)"
  by pat_completeness auto
termination
  by (relation "measure (\<lambda>(_, s). length s)") (auto simp: le_imp_less_Suc length_dropWhile_le)

definition RedactSensitiveText :: "string \<Rightarrow> string" where
  "RedactSensitiveText s = redact_credentials False (redact_sensitive s)"

text \<open>Whether a credential stands somewhere in a text; \<open>after\<close> is as above.\<close>

fun has_credential :: "bool \<Rightarrow> string \<Rightarrow> bool" where
  "has_credential after [] = False"
| "has_credential after (c # s) = (\<not> after \<and> match_credential (c # s) \<or> has_credential (word_char c) s)"

lemma match_credential_iff: "match_credential s \<longleftrightarrow> (\<exists>p\<in>set credential_prefixes. \<exists>c. credential_char c \<and> HasPrefix s (p @ [c]))"
proof -
  have "HasPrefix s p \<and> drop (length p) s \<noteq> [] \<and> credential_char (hd (drop (length p) s)) \<longleftrightarrow> (\<exists>c. credential_char c \<and> HasPrefix s (p @ [c]))" for p
    by (auto simp: HasPrefix_iff neq_Nil_conv)
  then show ?thesis by (simp add: match_credential_def list_ex_iff)
qed

lemma prefixes_are_credential_chars: "p \<in> set credential_prefixes \<Longrightarrow> list_all credential_char p"
proof -
  have "list_all (list_all credential_char) credential_prefixes" by code_simp
  then show "p \<in> set credential_prefixes \<Longrightarrow> list_all credential_char p" by (simp add: list_all_iff)
qed

text \<open>What the redaction leaves standing at the front was there before.\<close>

lemma redact_keeps_front: "list_all credential_char w \<Longrightarrow> HasPrefix (redact_credentials after s) w \<Longrightarrow> HasPrefix s w"
proof (induction after s arbitrary: w rule: redact_credentials.induct)
  case (2 after c s)
  show ?case
  proof (cases w)
    case (Cons x w')
    have "\<not> credential_char CHR ''[''" by code_simp
    with "2.prems" Cons have "\<not> (\<not> after \<and> match_credential (c # s))" by (auto simp: redacted_def HasPrefix_iff)
    with "2.IH"(2) [of w'] "2.prems" Cons show ?thesis by (auto simp: HasPrefix_iff)
  qed (simp add: HasPrefix_iff)
qed simp

lemma match_credential_front: "match_credential (c # redact_credentials after s) \<Longrightarrow> match_credential (c # s)"
proof -
  assume "match_credential (c # redact_credentials after s)"
  then obtain p x where p: "p \<in> set credential_prefixes" "credential_char x" "HasPrefix (c # redact_credentials after s) (p @ [x])"
    unfolding match_credential_iff by blast
  obtain w where w: "p @ [x] = c # w" "HasPrefix (redact_credentials after s) w" using p(3) by (cases p) (auto simp: HasPrefix_iff)
  have "list_all credential_char (p @ [x])" using prefixes_are_credential_chars [OF p(1)] p(2) by simp
  then have "list_all credential_char w" unfolding w(1) by simp
  then have "HasPrefix (c # s) (p @ [x])" using redact_keeps_front [OF _ w(2)] w(1) by (auto simp: HasPrefix_iff)
  then show "match_credential (c # s)" using p unfolding match_credential_iff by blast
qed

lemma credential_starts: "match_credential (c # s) \<Longrightarrow> c \<in> {CHR ''t'', CHR ''c'', CHR ''g'', CHR ''s''}"
  by (auto simp: match_credential_iff credential_prefixes_def HasPrefix_iff)

lemma has_credential_redacted: "has_credential after (redacted @ s) \<longleftrightarrow> has_credential False s"
proof -
  have "\<not> match_credential (c # t)" if "c \<in> set redacted" for c t using credential_starts [of c t] that by (auto simp: redacted_def)
  moreover have "\<not> word_char CHR '']''" by code_simp
  ultimately show ?thesis by (simp add: redacted_def)
qed

lemma redacted_has_no_credential: "\<not> has_credential after (redact_credentials after s)"
proof (induction after s rule: redact_credentials.induct)
  case (2 after c s)
  show ?case
  proof (cases "\<not> after \<and> match_credential (c # s)")
    case True
    let ?b = "word_char (last (takeWhile credential_char (c # s)))" and ?s = "dropWhile credential_char s"
    have "\<not> has_credential False (redact_credentials ?b t)" if t: "t = ?s" for t
    proof (cases t)
      case (Cons x u)
      then have "\<not> credential_char x" using t by (metis dropWhile_eq_Cons_conv)
      moreover have "credential_char y" if "y \<in> {CHR ''t'', CHR ''c'', CHR ''g'', CHR ''s''}" for y
        using that by (auto simp: credential_char_def word_char_def alphanumeric_def less_eq_char_def)
      ultimately have "\<not> match_credential (x # u)" for u using credential_starts [of x u] by blast
      then show ?thesis using "2.IH"(1) [OF True, folded t] Cons by simp
    qed simp
    from this [OF refl] show ?thesis using True has_credential_redacted [of after] by simp
  next
    case False
    with "2.IH"(2) [OF False] match_credential_front [of c "word_char c" s] show ?thesis by auto
  qed
qed simp

text \<open>
  The value of a header with a scheme ends at the blank after the scheme, so what follows the scheme
  is kept.
\<close>

lemma bearer_value_is_kept: "RedactSensitiveText ''Authorization: Bearer s3cret'' = ''Authorization: [REDACTED] s3cret''"
  by code_simp

section \<open>Summaries\<close>

definition MaxSummaryRunes :: nat where
  "MaxSummaryRunes = 320"

definition MaxDiagnosticBytes :: nat where
  "MaxDiagnosticBytes = 64 * 1024"

text \<open>\<open>strings.Fields\<close> of a text whose only white space is the blank.\<close>

definition blank_fields :: "string \<Rightarrow> string list" where
  "blank_fields s = filter (\<lambda>w. w \<noteq> []) (Split CHR '' '' s)"

definition SafeSummary :: "string \<Rightarrow> string" where
  "SafeSummary s =
     (let mapped = string_of_runes (map (\<lambda>r. if IsControl r \<or> IsSpace r then 32 else r) (runes s));
          joined = join_with '' '' (blank_fields mapped);
          clean = RedactSensitiveText joined in
      if MaxSummaryRunes < length (runes clean)
      then string_of_runes (take MaxSummaryRunes (runes clean)) @ [CHR 0xE2, CHR 0x80, CHR 0xA6]
      else clean)"

text \<open>The last line that has a summary.\<close>

definition Diagnostic :: "string \<Rightarrow> string" where
  "Diagnostic d =
     (let tail = (if MaxDiagnosticBytes < length d then drop (length d - MaxDiagnosticBytes) d else d);
          summaries = filter (\<lambda>x. x \<noteq> []) (map SafeSummary (rev (Split CHR 0x0A (TrimSpace tail)))) in
      case summaries of [] \<Rightarrow> [] | x # _ \<Rightarrow> x)"

section \<open>Prompts\<close>

definition nl :: string where
  "nl = [CHR 0x0A]"

fun workspace_mode_string :: "WorkspaceMode \<Rightarrow> string" where
  "workspace_mode_string WorkspaceReadOnly = ''read_only''"
| "workspace_mode_string WorkspaceWritable = ''writable''"
| "workspace_mode_string (WorkspaceOther s) = s"

fun policy_mode_string :: "PolicyMode \<Rightarrow> string" where
  "policy_mode_string PolicyReadOnly = ''read_only''"
| "policy_mode_string PolicyGuardedWrite = ''guarded_write''"
| "policy_mode_string PolicyCustom = ''custom''"
| "policy_mode_string (PolicyOther s) = s"

definition BuildPrompt :: "RunRequest \<Rightarrow> string \<Rightarrow> string" where
  "BuildPrompt r responseContract =
     responseContract @ nl @ nl @ ''Teammate request metadata:'' @ nl @ ''Title: '' @ rr_Title r @
     nl @ ''Requester: '' @ rr_Requester r @ nl @ nl @ ''Untrusted teammate request:'' @ nl @ rr_Prompt r @
     (if rr_Attachments r \<noteq> [] then
        nl @ nl @ ''Approved attachment files:'' @ nl @ concat (map (\<lambda>p. ''- '' @ p @ nl) (rr_Attachments r)) else []) @
     (if rr_Workspaces r \<noteq> [] then
        nl @ ''Approved workspace directories:'' @ nl @
        concat (map (\<lambda>w. ''- '' @ ws_Path w @ '' ('' @ workspace_mode_string (ws_Mode w) @ '')'' @ nl) (rr_Workspaces r)) else []) @
     (if rr_ReturnDirectory r \<noteq> [] then
        nl @ ''Place only finished deliverables directly in this return directory: '' @ rr_ReturnDirectory r @
        nl @ ''Mention every returned filename in the final answer.'' else [])"

definition PolicyInstructions :: "Policy \<Rightarrow> string" where
  "PolicyInstructions p =
     nl @ nl @ ''Effective recipient-owned runtime policy:'' @ nl @ ''- Mode: '' @ policy_mode_string (po_Mode p) @
     (if \<not> po_AllowWrites p then nl @ ''- Do not write or modify files.'' else []) @
     (if \<not> po_AllowShell p then nl @ ''- Do not invoke a shell or execute commands.'' else []) @
     (if \<not> po_AllowNetwork p then nl @ ''- Do not access the network.'' else []) @
     (if \<not> po_AllowMCPs p then nl @ ''- Do not invoke MCP tools.'' else []) @
     (if po_DeniedCommands p \<noteq> [] then
        nl @ ''- Never run commands matching these locally denied prefixes: '' @ join_with '', '' (po_DeniedCommands p) else [])"

definition ConstrainRequest :: "RunRequest \<Rightarrow> Policy \<Rightarrow> RunRequest" where
  "ConstrainRequest r p =
     (if \<not> po_AllowWrites p
      then r\<lparr>rr_Workspaces := map (\<lambda>w. w\<lparr>ws_Mode := WorkspaceReadOnly\<rparr>) (rr_Workspaces r), rr_ReturnDirectory := []\<rparr>
      else r)"

end
