(* ===== verification/Receiver_Program.thy ===== *)
theory Receiver_Program
  imports Mutation_Store Runtime_Helpers
begin

text \<open>
  The state of the receiver service (\<open>Service\<close> in \<open>internal/receiver/service.go\<close>) and the language
  its methods are written in.

  Several goroutines work on one service: the event stream, the heartbeat, the calls of the control
  server and one goroutine per execution. A method is therefore not a function on the state but a
  program: a step that reads and changes the state at once (what one store call or one section
  under \<open>runMu\<close> does), a call to the outside (the relay, the runtime, the artifact directory) whose
  answer is arbitrary, the start of the goroutine that executes a request, or a return. Between any
  two steps the steps of other goroutines may come. The locks that make longer sections exclusive
  (\<open>approvalDecisionMu\<close>, \<open>mutationMu\<close>, \<open>reconcileMu\<close>) are left out, so the model has every
  interleaving the code has, and more.
\<close>

section \<open>State\<close>

datatype call_error = CallNotFound | CallCanceled | CallFailed string

datatype service_error =
    errReceiverBusy
  | Refused string
  | RefusedIn string RequestStatus
  | RefusedAlias string string
  | ErrBadPhase mutationPhase
  | ErrJournal "mutation_error store_error"
  | ErrInbox "unit store_error"
  | ErrGrants approval_error
  | ErrCall call_error

text \<open>The refusals of the service by the gist of their messages.\<close>

abbreviation ErrNoRequestID :: service_error where
  "ErrNoRequestID \<equiv> Refused ''request_id is required''"

abbreviation ErrNotPending :: service_error where
  "ErrNotPending \<equiv> Refused ''not pending''"

abbreviation ErrNoProposal :: service_error where
  "ErrNoProposal \<equiv> Refused ''empty proposal''"

abbreviation ErrProposalChanged :: service_error where
  "ErrProposalChanged \<equiv> Refused ''proposal does not match''"

abbreviation ErrNoIdentity :: service_error where
  "ErrNoIdentity \<equiv> Refused ''approval identity is unavailable''"

abbreviation ErrUnboundAllow :: service_error where
  "ErrUnboundAllow \<equiv> Refused ''no bound approval authority''"

abbreviation ErrInvalidAllow :: service_error where
  "ErrInvalidAllow \<equiv> Refused ''invalid approval authority''"

abbreviation ErrOtherAuthority :: service_error where
  "ErrOtherAuthority \<equiv> Refused ''different approval authority''"

abbreviation ErrIdentityChanged :: service_error where
  "ErrIdentityChanged \<equiv> Refused ''approval identity changed''"

abbreviation ErrNoAgentID :: service_error where
  "ErrNoAgentID \<equiv> Refused ''no recipient agent_id''"

abbreviation ErrUnboundNotice :: service_error where
  "ErrUnboundNotice \<equiv> Refused ''no bound approved notice''"

abbreviation ErrInvalidNotice :: service_error where
  "ErrInvalidNotice \<equiv> Refused ''invalid approved notice''"

abbreviation ErrNoticeMissing :: service_error where
  "ErrNoticeMissing \<equiv> Refused ''missing pending notice''"

abbreviation ErrNoticeChanged :: service_error where
  "ErrNoticeChanged \<equiv> Refused ''notice no longer matches''"

abbreviation ErrNotCovered :: service_error where
  "ErrNotCovered \<equiv> Refused ''no longer covered''"

abbreviation ErrRequestChanged :: service_error where
  "ErrRequestChanged \<equiv> Refused ''changed after its standing approval was matched''"

abbreviation ErrAcceptedUnbound :: service_error where
  "ErrAcceptedUnbound \<equiv> Refused ''accepted without a locally bound approval''"

abbreviation ErrBadLevel :: service_error where
  "ErrBadLevel \<equiv> Refused ''approval level is invalid''"

abbreviation ErrNoMember :: service_error where
  "ErrNoMember \<equiv> Refused ''requester member_id is required''"

abbreviation ErrNoConversation :: service_error where
  "ErrNoConversation \<equiv> Refused ''conversation_id is required''"

abbreviation ErrGrantNotFound :: service_error where
  "ErrGrantNotFound \<equiv> Refused ''grant was not found''"

abbreviation ErrGrantChanged :: service_error where
  "ErrGrantChanged \<equiv> Refused ''grant does not match''"

abbreviation ErrDifferentOperation :: service_error where
  "ErrDifferentOperation \<equiv> Refused ''different durable receiver operation''"

abbreviation ErrRandom :: service_error where
  "ErrRandom \<equiv> Refused ''read cryptographic randomness''"

abbreviation ErrNoClaim :: service_error where
  "ErrNoClaim \<equiv> Refused ''no durable allow-once claim''"

abbreviation ErrRegressed :: service_error where
  "ErrRegressed \<equiv> Refused ''relay state regressed''"

abbreviation ErrMismatchedMutation :: service_error where
  "ErrMismatchedMutation \<equiv> Refused ''mismatched mutation response''"

abbreviation ErrMismatchedRequest :: service_error where
  "ErrMismatchedRequest \<equiv> Refused ''mismatched request''"

abbreviation ErrNoOperation :: service_error where
  "ErrNoOperation \<equiv> Refused ''no durable execution claim''"

abbreviation ErrNotRunning :: service_error where
  "ErrNotRunning \<equiv> Refused ''receiver service is not running''"

abbreviation ErrAlreadyRunning :: service_error where
  "ErrAlreadyRunning \<equiv> Refused ''receiver service is already running''"

abbreviation ErrNotAtResult :: service_error where
  "ErrNotAtResult \<equiv> Refused ''not at its durable result boundary''"

abbreviation ErrNoPreparedResult :: service_error where
  "ErrNoPreparedResult \<equiv> Refused ''no valid prepared result''"

abbreviation ErrDecode :: service_error where
  "ErrDecode \<equiv> Refused ''decode event''"

abbreviation ErrArtifactsUnavailable :: service_error where
  "ErrArtifactsUnavailable \<equiv> Refused ''artifact support is unavailable''"

abbreviation ErrTooManyAttachments :: service_error where
  "ErrTooManyAttachments \<equiv> Refused ''attachment count limit''"

abbreviation ErrAttachment :: service_error where
  "ErrAttachment \<equiv> Refused ''invalid attachment metadata''"

abbreviation ErrAttachmentBytes :: service_error where
  "ErrAttachmentBytes \<equiv> Refused ''attachment byte limit''"

abbreviation ErrPayload :: service_error where
  "ErrPayload \<equiv> Refused ''execution payload does not match''"

abbreviation ErrPayloadUnverifiable :: service_error where
  "ErrPayloadUnverifiable \<equiv> Refused ''execution payload cannot be verified''"

abbreviation ErrRuntimeUnavailable :: service_error where
  "ErrRuntimeUnavailable \<equiv> Refused ''recipient runtime is unavailable''"

abbreviation ErrNotApprovable :: "RequestStatus \<Rightarrow> service_error" where
  "ErrNotApprovable \<equiv> RefusedIn ''cannot be approved''"

abbreviation ErrNotInspectable :: "RequestStatus \<Rightarrow> service_error" where
  "ErrNotInspectable \<equiv> RefusedIn ''can no longer be inspected''"

abbreviation ErrNotDeniable :: "RequestStatus \<Rightarrow> service_error" where
  "ErrNotDeniable \<equiv> RefusedIn ''can no longer be denied''"

abbreviation ErrNoStanding :: "RequestStatus \<Rightarrow> service_error" where
  "ErrNoStanding \<equiv> RefusedIn ''cannot create a standing approval''"

abbreviation ErrUnexpected :: "RequestStatus \<Rightarrow> service_error" where
  "ErrUnexpected \<equiv> RefusedIn ''unexpected state''"

abbreviation ErrBadRelayState :: "RequestStatus \<Rightarrow> service_error" where
  "ErrBadRelayState \<equiv> RefusedIn ''cannot execute from relay state''"

abbreviation ErrUnknownAlias :: "string \<Rightarrow> service_error" where
  "ErrUnknownAlias \<equiv> RefusedAlias ''not configured''"

abbreviation ErrRepeatedAlias :: "string \<Rightarrow> service_error" where
  "ErrRepeatedAlias \<equiv> RefusedAlias ''requested more than once''"

abbreviation ErrCannotEnforce :: "string \<Rightarrow> service_error" where
  "ErrCannotEnforce \<equiv> RefusedAlias ''cannot enforce read_only''"

abbreviation ErrAccessMode :: "string \<Rightarrow> service_error" where
  "ErrAccessMode \<equiv> RefusedAlias ''invalid requested access''"

text \<open>
  The fields of \<open>ServiceConfig\<close> that the methods read. \<open>cf_describe\<close> is the text of an error, which
  goes into a failed result.
\<close>

record ServiceConfig =
  cf_workspaces :: "(string \<times> string) list"
  cf_AllowWrites :: bool
  cf_artifacts :: bool
  cf_fingerprint :: string
  cf_describe :: "service_error \<Rightarrow> string"

text \<open>\<open>sv_active\<close> has, for each running execution, whether its context was cancelled.\<close>

record Service =
  sv_pending :: PendingStore
  sv_approvals :: ApprovalStore
  sv_mutations :: mutationStore
  sv_heartbeat :: AgentHeartbeat
  sv_authority :: ApprovalAuthority
  sv_running :: bool
  sv_active :: "(string \<times> bool) list"

text \<open>What a step takes from the machine: the clock, the outcome of its file operation, random bytes.\<close>

record io =
  io_now :: time
  io_stamp :: time
  io_readable :: bool
  io_write :: write_outcome
  io_decision :: "string option"
  io_claim :: "string option"

section \<open>Calls\<close>

record Sandbox =
  sb_Attachments :: "string list"
  sb_ReturnDirectory :: string

text \<open>
  \<open>CallExecute\<close> is \<open>controller.Execute\<close>; it is labelled with the request and with the claim the
  execution holds, which the runtime does not see.
\<close>

datatype call =
    CallLock
  | CallProbe
  | CallHeartbeat AgentHeartbeat
  | CallInbox
  | CallGetRequest string
  | CallDecide string DecisionPayload
  | CallInspectProposal string
  | CallFetchExecution string
  | CallMarkRunning string string
  | CallSubmitResult string ResultPayload
  | CallResumes string
  | CallMaterialize "ArtifactDescriptor list"
  | CallExecute string string RunRequest
  | CallCollectResults Sandbox
  | CallCleanup Sandbox

text \<open>The answers: each kind of call reads the field of its kind. \<open>None\<close> is a nil pointer.\<close>

record call_answer =
  an_done :: "(call_error, unit) result"
  an_probe :: "(call_error, Capabilities) result"
  an_card :: "(call_error, AgentCard option) result"
  an_inbox :: "(call_error, RequestNotice list) result"
  an_request :: "(call_error, Request option) result"
  an_mutation :: "(call_error, MutationResponse option) result"
  an_proposal :: "(call_error, ProposalPayload option) result"
  an_execution :: "(call_error, ExecutionPayload option) result"
  an_resumes :: "(call_error, bool) result"
  an_sandbox :: "(call_error, Sandbox) result"
  an_run :: "(call_error, RunResult) result"
  an_files :: "(call_error, AttachmentInput list) result"

section \<open>Programs\<close>

datatype 'r prog =
    Ret 'r
  | Atomic "io \<Rightarrow> Service \<Rightarrow> Service" "io \<Rightarrow> Service \<Rightarrow> 'r prog"
  | Ask call "call_answer \<Rightarrow> 'r prog"
  | Go string "'r prog"

text \<open>The result of an atomic step is computed from the state before it.\<close>

primrec bindp :: "'a prog \<Rightarrow> ('a \<Rightarrow> 'b prog) \<Rightarrow> 'b prog" where
  "bindp (Ret x) q = q x"
| "bindp (Atomic u k) q = Atomic u (\<lambda>io s. bindp (k io s) q)"
| "bindp (Ask c k) q = Ask c (\<lambda>a. bindp (k a) q)"
| "bindp (Go r p) q = Go r (bindp p q)"

type_synonym 'a fallible = "(service_error, 'a) result prog"

text \<open>\<open>if err != nil { return err }\<close>.\<close>

definition attempt :: "'a fallible \<Rightarrow> ('a \<Rightarrow> 'b fallible) \<Rightarrow> 'b fallible" where
  "attempt p k = bindp p (\<lambda>x. case x of Inl e \<Rightarrow> Ret (Inl e) | Inr v \<Rightarrow> k v)"

definition err :: "service_error \<Rightarrow> 'a fallible" where
  "err e = Ret (Inl e)"

definition ok :: "'a \<Rightarrow> 'a fallible" where
  "ok v = Ret (Inr v)"

definition look :: "(Service \<Rightarrow> 'a) \<Rightarrow> ('a \<Rightarrow> 'r prog) \<Rightarrow> 'r prog" where
  "look f k = Atomic (\<lambda>_ s. s) (\<lambda>_ s. k (f s))"

definition change :: "(Service \<Rightarrow> Service) \<Rightarrow> 'r prog \<Rightarrow> 'r prog" where
  "change f p = Atomic (\<lambda>_ s. f s) (\<lambda>_ _. p)"

text \<open>One call of a store.\<close>

definition on_pending :: "(io \<Rightarrow> PendingStore \<Rightarrow> PendingStore saved) \<Rightarrow> unit fallible" where
  "on_pending f = Atomic (\<lambda>io s. s\<lparr>sv_pending := fst (f io (sv_pending s))\<rparr>)
     (\<lambda>io s. case snd (f io (sv_pending s)) of Inl e \<Rightarrow> err (ErrInbox e) | Inr v \<Rightarrow> ok v)"

definition on_approvals :: "(io \<Rightarrow> ApprovalStore \<Rightarrow> ApprovalStore \<times> 'a) \<Rightarrow> ('a \<Rightarrow> 'r prog) \<Rightarrow> 'r prog" where
  "on_approvals f k = Atomic (\<lambda>io s. s\<lparr>sv_approvals := fst (f io (sv_approvals s))\<rparr>) (\<lambda>io s. k (snd (f io (sv_approvals s))))"

definition on_mutations :: "(io \<Rightarrow> mutationStore \<Rightarrow> 'a journal_reply) \<Rightarrow> 'a fallible" where
  "on_mutations f = Atomic (\<lambda>io s. s\<lparr>sv_mutations := fst (f io (sv_mutations s))\<rparr>)
     (\<lambda>io s. case snd (f io (sv_mutations s)) of Inl e \<Rightarrow> err (ErrJournal e) | Inr v \<Rightarrow> ok v)"

definition pending_get :: "string \<Rightarrow> (PendingRecord option \<Rightarrow> 'r prog) \<Rightarrow> 'r prog" where
  "pending_get r = look (\<lambda>s. PendingStore_Get r (sv_pending s))"

definition journal_get :: "string \<Rightarrow> (mutationRecord option \<Rightarrow> 'r prog) \<Rightarrow> 'r prog" where
  "journal_get r = look (\<lambda>s. mutation_Get r (sv_mutations s))"

definition pending_status :: "string \<Rightarrow> RequestStatus \<Rightarrow> unit fallible" where
  "pending_status r status = on_pending (\<lambda>io. PendingStore_UpdateStatus (io_stamp io) (io_write io) r status)"

definition pending_remove :: "string \<Rightarrow> unit fallible" where
  "pending_remove r = on_pending (\<lambda>io. PendingStore_Remove (io_stamp io) (io_write io) r)"

definition journal_update :: "string \<Rightarrow> (mutationRecord \<Rightarrow> mutationRecord option) \<Rightarrow> mutationRecord fallible" where
  "journal_update r f = on_mutations (\<lambda>io. mutation_Update (io_now io) (io_stamp io) (io_write io) r f)"

definition journal_remove :: "string \<Rightarrow> unit fallible" where
  "journal_remove r = on_mutations (\<lambda>io. mutation_Remove (io_stamp io) (io_write io) r)"

text \<open>The common ending: forget the request in the inbox, then in the journal.\<close>

definition forget :: "string \<Rightarrow> unit fallible" where
  "forget r = attempt (pending_remove r) (\<lambda>_. journal_remove r)"

end
