(* ===== verification/Receiver_System.thy ===== *)
theory Receiver_System
  imports Receiver_Program
begin

text \<open>
  The receiver process as a whole: a service, its goroutines, and everything that has happened. The
  log records each change of the service and each call when it is made and when it is answered, so
  that a call that a crash cuts off is in the log. Goroutines interleave at every step. A crash
  ends all of them at any moment and the service starts again from its files.

  A goroutine may hold a permit: after it has moved a claim past the runtime-start boundary it may
  start the runtime, and after that it may prepare one result. The predicate \<open>safe\<close> says that a
  program makes only the calls it is permitted, whatever the others do; the locale
  \<open>permitted_programs\<close> proves once what follows for a system of such programs.
\<close>

section \<open>Logs\<close>

datatype obs = Step Service Service | Called call | Heard call call_answer

type_synonym history = "obs list"

definition recs :: "Service \<Rightarrow> (string \<times> mutationRecord) set" where
  "recs s = set (ls_entries (sv_mutations s)) \<union>
     (case ls_file (sv_mutations s) of Some (Some snap) \<Rightarrow> set (sp_Entries snap) | _ \<Rightarrow> {})"

text \<open>The journal is one the service can have written, and the inbox files every notice under its own identifier.\<close>

definition inbox_inv :: "PendingStore \<Rightarrow> bool" where
  "inbox_inv st \<longleftrightarrow>
     (\<forall>(k, rec)\<in>set (ls_entries st) \<union> (case ls_file st of Some (Some snap) \<Rightarrow> set (sp_Entries snap) | _ \<Rightarrow> {}).
        rn_RequestID (pn_Notice rec) = k)"

definition well_formed :: "Service \<Rightarrow> bool" where
  "well_formed s \<longleftrightarrow> journal_inv (sv_mutations s) \<and> inbox_inv (sv_pending s)"

definition late :: "mutationRecord \<Rightarrow> bool" where
  "late op \<longleftrightarrow> mu_Phase op = mutationRuntimeStarted \<or> mu_Phase op = mutationResultPrepared"

text \<open>How a journal record may come from an earlier one without a permit.\<close>

definition descends :: "mutationRecord \<Rightarrow> mutationRecord \<Rightarrow> bool" where
  "descends cur op \<longleftrightarrow> mu_ExecutionClaimID op = mu_ExecutionClaimID cur \<and> (late cur \<longrightarrow> late op) \<and>
     (mu_Phase op = mutationResultPrepared \<longrightarrow> mu_Phase cur = mutationResultPrepared \<and> mu_Result op = mu_Result cur)"

definition new_claim :: "io \<Rightarrow> string option" where
  "new_claim io = map_option (\<lambda>bs. ''claim_'' @ hex_encode bs) (io_claim io)"

definition accounted :: "io \<Rightarrow> Service \<Rightarrow> string \<Rightarrow> mutationRecord \<Rightarrow> bool" where
  "accounted io s k op \<longleftrightarrow> mu_ExecutionClaimID op = [] \<or> Some (mu_ExecutionClaimID op) = new_claim io \<and> mu_Phase op = mutationDecisionPrepared \<or>
     (\<exists>cur. (k, cur) \<in> recs s \<and> descends cur op)"

definition ordinary :: "io \<Rightarrow> Service \<Rightarrow> Service \<Rightarrow> bool" where
  "ordinary io s s' \<longleftrightarrow> well_formed s' \<and> (\<forall>(k, op)\<in>recs s'. accounted io s k op)"

text \<open>Crossing the runtime-start boundary, and preparing a result.\<close>

definition starts :: "string \<Rightarrow> string \<Rightarrow> Service \<Rightarrow> Service \<Rightarrow> bool" where
  "starts r c s s' \<longleftrightarrow> c \<noteq> [] \<and>
     (\<exists>op. (r, op) \<in> recs s \<and> mu_ExecutionClaimID op = c \<and> mu_Phase op = mutationClaimPrepared) \<and>
     (\<forall>op. (r, op) \<in> recs s' \<and> mu_ExecutionClaimID op = c \<longrightarrow> mu_Phase op = mutationRuntimeStarted)"

definition reports :: "io \<Rightarrow> string \<Rightarrow> string \<Rightarrow> ResultPayload \<Rightarrow> Service \<Rightarrow> Service \<Rightarrow> bool" where
  "reports io r c x s s' \<longleftrightarrow> well_formed s' \<and>
     (\<forall>(k, op)\<in>recs s'. accounted io s k op \<or>
        (k = r \<and> mu_ExecutionClaimID op = c \<and> mu_Phase op = mutationResultPrepared \<and> mu_Result op = Some x \<and>
         (\<exists>cur. (r, cur) \<in> recs s \<and> mu_ExecutionClaimID cur = c \<and> late cur)))"

section \<open>Permitted programs\<close>

datatype permit = Idle | MayRun string string | MayReport string string

fun holds :: "permit \<Rightarrow> (string \<times> string) option" where
  "holds Idle = None"
| "holds (MayRun r c) = Some (r, c)"
| "holds (MayReport r c) = Some (r, c)"

text \<open>A step of a program under a permit, and the permit after it.\<close>

definition step_allowed :: "io \<Rightarrow> Service \<Rightarrow> Service \<Rightarrow> permit \<Rightarrow> permit \<Rightarrow> bool" where
  "step_allowed io s s' p p' \<longleftrightarrow>
     ordinary io s s' \<and> p' = p \<or>
     (\<exists>r c. ordinary io s s' \<and> p = Idle \<and> p' = MayRun r c \<and> starts r c s s') \<or>
     (\<exists>r c x. holds p = Some (r, c) \<and> p' = Idle \<and> reports io r c x s s')"

definition call_allowed :: "permit \<Rightarrow> call \<Rightarrow> bool" where
  "call_allowed p q \<longleftrightarrow> (\<forall>r c req. q = CallExecute r c req \<longrightarrow> p = MayRun r c)"

fun after_call :: "permit \<Rightarrow> call \<Rightarrow> permit" where
  "after_call p (CallExecute r c req) = MayReport r c"
| "after_call p q = p"

text \<open>
  \<open>safe J p h Q prog\<close>: from the permit \<open>p\<close> and the history \<open>h\<close> the program makes only permitted steps
  and calls that the history justifies (\<open>J\<close>), and when it returns \<open>Q\<close> holds.
\<close>

primrec safe ::
  "(obs set \<Rightarrow> call \<Rightarrow> bool) \<Rightarrow> 'r prog \<Rightarrow> permit \<Rightarrow> history \<Rightarrow> ('r \<Rightarrow> permit \<Rightarrow> history \<Rightarrow> bool) \<Rightarrow> bool" where
  "safe J (Ret x) p h Q \<longleftrightarrow> Q x p h"
| "safe J (Atomic u k) p h Q \<longleftrightarrow>
     (\<forall>io s. well_formed s \<longrightarrow> (\<exists>p'. step_allowed io s (u io s) p p' \<and> safe J (k io s) p' (Step s (u io s) # h) Q))"
| "safe J (Ask q k) p h Q \<longleftrightarrow>
     J (set h) q \<and> call_allowed p q \<and> (\<forall>a. safe J (k a) (after_call p q) (Heard q a # Called q # h) Q)"
| "safe J (Go r prog) p h Q \<longleftrightarrow> safe J prog p h Q"

lemma safe_mono: "safe J prog p h Q \<Longrightarrow> (\<And>x p h. Q x p h \<Longrightarrow> R x p h) \<Longrightarrow> safe J prog p h R"
proof (induction prog arbitrary: p h)
  case (Atomic u k)
  show ?case
    unfolding safe.simps
  proof (intro allI impI)
    fix io s assume "well_formed s"
    with Atomic.prems(1) obtain p' where "step_allowed io s (u io s) p p'" "safe J (k io s) p' (Step s (u io s) # h) Q"
      by auto
    with Atomic.IH [of "k io" "k io s"] Atomic.prems(2) show "\<exists>p'. step_allowed io s (u io s) p p' \<and> safe J (k io s) p' (Step s (u io s) # h) R"
      by blast
  qed
next
  case (Ask q k)
  then show ?case unfolding safe.simps by blast
next
  case (Go r prog)
  then show ?case unfolding safe.simps by blast
qed simp

lemma safe_bindp: "safe J (bindp prog q) p h Q \<longleftrightarrow> safe J prog p h (\<lambda>x p h. safe J (q x) p h Q)"
proof (induction prog arbitrary: p h)
  case (Atomic u k)
  have "safe J (bindp (k io s) q) p h Q \<longleftrightarrow> safe J (k io s) p h (\<lambda>x p h. safe J (q x) p h Q)" for io s p h
    by (rule Atomic.IH [of "k io"]) simp_all
  then show ?case by simp
qed simp_all

text \<open>A history only grows.\<close>

lemma safe_grows: "safe J prog p h Q \<Longrightarrow> H \<subseteq> set h \<Longrightarrow> safe J prog p h (\<lambda>x p h. Q x p h \<and> H \<subseteq> set h)"
proof (induction prog arbitrary: p h)
  case (Atomic u k)
  show ?case
    unfolding safe.simps
  proof (intro allI impI)
    fix io s assume "well_formed s"
    with Atomic.prems(1) obtain p' where "step_allowed io s (u io s) p p'" "safe J (k io s) p' (Step s (u io s) # h) Q"
      by auto
    moreover have "H \<subseteq> set (Step s (u io s) # h)" using Atomic.prems(2) by auto
    ultimately show "\<exists>p'. step_allowed io s (u io s) p p' \<and> safe J (k io s) p' (Step s (u io s) # h) (\<lambda>x p h. Q x p h \<and> H \<subseteq> set h)"
      using Atomic.IH [of "k io" "k io s"] by blast
  qed
next
  case (Ask q k)
  have "H \<subseteq> set (Heard q a # Called q # h)" for a using Ask.prems(2) by auto
  then show ?case using Ask.IH [of "k _"] Ask.prems(1) unfolding safe.simps by blast
next
  case (Go r prog)
  then show ?case unfolding safe.simps by blast
qed simp

section \<open>The system\<close>

type_synonym goroutine_state = "history \<times> unit prog"

record system =
  sy_service :: Service
  sy_threads :: "nat \<Rightarrow> goroutine_state option"
  sy_log :: history
  sy_drawn :: "string set"

fun awaiting :: "history \<Rightarrow> bool" where
  "awaiting (Called q # h) = True"
| "awaiting h = False"

text \<open>Random claims are new: no two draws of 32 random bytes are equal.\<close>

definition fresh_draw :: "io \<Rightarrow> system \<Rightarrow> bool" where
  "fresh_draw io y \<longleftrightarrow> (\<forall>c. new_claim io = Some c \<longrightarrow> c \<notin> sy_drawn y)"

definition drawing :: "io \<Rightarrow> string set \<Rightarrow> string set" where
  "drawing io D = D \<union> set_option (new_claim io)"

inductive sys_step :: "unit prog set \<Rightarrow> (string \<Rightarrow> unit prog) \<Rightarrow> (io \<Rightarrow> Service \<Rightarrow> Service option) \<Rightarrow> system \<Rightarrow> system \<Rightarrow> bool"
  for entries :: "unit prog set" and goroutine :: "string \<Rightarrow> unit prog" and restart :: "io \<Rightarrow> Service \<Rightarrow> Service option" where
  invoke: "prog \<in> entries \<Longrightarrow> sy_threads y i = None \<Longrightarrow>
    sys_step entries goroutine restart y (y\<lparr>sy_threads := (sy_threads y)(i \<mapsto> ([], prog))\<rparr>)"
| atomic: "sy_threads y i = Some (h, Atomic u k) \<Longrightarrow> fresh_draw io y \<Longrightarrow> s' = u io (sy_service y) \<Longrightarrow>
    sys_step entries goroutine restart y
      (y\<lparr>sy_service := s', sy_threads := (sy_threads y)(i \<mapsto> (Step (sy_service y) s' # h, k io (sy_service y))),
         sy_log := Step (sy_service y) s' # sy_log y, sy_drawn := drawing io (sy_drawn y)\<rparr>)"
| issue: "sy_threads y i = Some (h, Ask q k) \<Longrightarrow> \<not> awaiting h \<Longrightarrow>
    sys_step entries goroutine restart y
      (y\<lparr>sy_threads := (sy_threads y)(i \<mapsto> (Called q # h, Ask q k)), sy_log := Called q # sy_log y\<rparr>)"
| reply: "sy_threads y i = Some (h, Ask q k) \<Longrightarrow> awaiting h \<Longrightarrow>
    sys_step entries goroutine restart y
      (y\<lparr>sy_threads := (sy_threads y)(i \<mapsto> (Heard q a # h, k a)), sy_log := Heard q a # sy_log y\<rparr>)"
| spawn: "sy_threads y i = Some (h, Go r prog) \<Longrightarrow> sy_threads y j = None \<Longrightarrow>
    sys_step entries goroutine restart y
      (y\<lparr>sy_threads := (sy_threads y)(i \<mapsto> (h, prog), j \<mapsto> ([], goroutine r))\<rparr>)"
| finish: "sy_threads y i = Some (h, Ret v) \<Longrightarrow>
    sys_step entries goroutine restart y (y\<lparr>sy_threads := (sy_threads y)(i := None)\<rparr>)"
| crash: "restart io (sy_service y) = Some s' \<Longrightarrow>
    sys_step entries goroutine restart y (y\<lparr>sy_service := s', sy_threads := Map.empty\<rparr>)"

text \<open>A process that has only just started, on any directory it can have left behind.\<close>

definition initial :: "system \<Rightarrow> bool" where
  "initial y \<longleftrightarrow> well_formed (sy_service y) \<and> sy_threads y = Map.empty \<and> sy_log y = [] \<and>
     (\<forall>(k, op)\<in>recs (sy_service y). mu_ExecutionClaimID op = [] \<or> mu_ExecutionClaimID op \<in> sy_drawn y) \<and>
     (\<forall>(k, op)\<in>recs (sy_service y). \<forall>(k', op')\<in>recs (sy_service y).
        k = k' \<and> mu_ExecutionClaimID op = mu_ExecutionClaimID op' \<and> mu_Phase op = mutationResultPrepared \<longrightarrow>
        late op' \<and> (mu_Phase op' = mutationResultPrepared \<longrightarrow> mu_Result op' = mu_Result op))"

section \<open>What a log shows\<close>

definition run_calls :: "string \<Rightarrow> string \<Rightarrow> history \<Rightarrow> nat" where
  "run_calls r c h = length (filter (\<lambda>o'. case o' of Called (CallExecute r' c' _) \<Rightarrow> r' = r \<and> c' = c | _ \<Rightarrow> False) h)"

definition results_of :: "string \<Rightarrow> string \<Rightarrow> Service \<Rightarrow> ResultPayload set" where
  "results_of r c s = {x. \<exists>op. (r, op) \<in> recs s \<and> mu_ExecutionClaimID op = c \<and> mu_Phase op = mutationResultPrepared \<and> mu_Result op = Some x}"

definition started :: "string \<Rightarrow> string \<Rightarrow> Service \<Rightarrow> bool" where
  "started r c s \<longleftrightarrow> (\<forall>op. (r, op) \<in> recs s \<and> mu_ExecutionClaimID op = c \<longrightarrow> late op)"

definition ever :: "string \<Rightarrow> string \<Rightarrow> system \<Rightarrow> ResultPayload set" where
  "ever r c y = results_of r c (sy_service y) \<union>
     {x. \<exists>s s'. Step s s' \<in> set (sy_log y) \<and> x \<in> results_of r c s \<union> results_of r c s'}"

section \<open>The invariant\<close>

text \<open>A goroutine that waits for an answer has its permit already changed by the call.\<close>

definition thread_ok :: "(obs set \<Rightarrow> call \<Rightarrow> bool) \<Rightarrow> permit \<Rightarrow> goroutine_state \<Rightarrow> bool" where
  "thread_ok J p th =
     (case th of (h, prog) \<Rightarrow>
        if awaiting h then (\<exists>q k. prog = Ask q k \<and> (\<forall>a. safe J (k a) p (Heard q a # h) (\<lambda>_ _ _. True)))
        else safe J prog p h (\<lambda>_ _ _. True))"

definition threads_inv :: "(obs set \<Rightarrow> call \<Rightarrow> bool) \<Rightarrow> (nat \<Rightarrow> permit) \<Rightarrow> system \<Rightarrow> bool" where
  "threads_inv J P y \<longleftrightarrow>
     (\<forall>i. sy_threads y i = None \<longrightarrow> P i = Idle) \<and>
     (\<forall>i h prog. sy_threads y i = Some (h, prog) \<longrightarrow> set h \<subseteq> set (sy_log y) \<and> thread_ok J (P i) (h, prog)) \<and>
     (\<forall>i j. holds (P i) \<noteq> None \<and> holds (P i) = holds (P j) \<longrightarrow> i = j)"

text \<open>What is true of a claim that a goroutine holds, and of one whose runtime was called.\<close>

definition claim_started :: "string \<Rightarrow> string \<Rightarrow> system \<Rightarrow> bool" where
  "claim_started r c y \<longleftrightarrow> c \<noteq> [] \<and> c \<in> sy_drawn y \<and> started r c (sy_service y)"

definition permits_inv :: "(nat \<Rightarrow> permit) \<Rightarrow> system \<Rightarrow> bool" where
  "permits_inv P y \<longleftrightarrow>
     (\<forall>i r c. holds (P i) = Some (r, c) \<longrightarrow> claim_started r c y \<and> ever r c y = {}) \<and>
     (\<forall>i r c. P i = MayRun r c \<longrightarrow> run_calls r c (sy_log y) = 0)"

definition claims_inv :: "system \<Rightarrow> bool" where
  "claims_inv y \<longleftrightarrow>
     (\<forall>r c. 0 < run_calls r c (sy_log y) \<longrightarrow> claim_started r c y) \<and>
     (\<forall>r c. run_calls r c (sy_log y) \<le> 1) \<and>
     (\<forall>r c x. c \<noteq> [] \<and> x \<in> ever r c y \<longrightarrow> claim_started r c y) \<and>
     (\<forall>r c x x'. c \<noteq> [] \<and> x \<in> ever r c y \<and> x' \<in> ever r c y \<longrightarrow> x = x')"

definition service_inv :: "system \<Rightarrow> bool" where
  "service_inv y \<longleftrightarrow> well_formed (sy_service y) \<and>
     (\<forall>(k, op)\<in>recs (sy_service y). mu_ExecutionClaimID op = [] \<or> mu_ExecutionClaimID op \<in> sy_drawn y)"

definition log_justified :: "(obs set \<Rightarrow> call \<Rightarrow> bool) \<Rightarrow> history \<Rightarrow> bool" where
  "log_justified J l \<longleftrightarrow> (\<forall>l1 q l2. l = l1 @ Called q # l2 \<longrightarrow> J (set l2) q)"

definition sys_inv :: "(obs set \<Rightarrow> call \<Rightarrow> bool) \<Rightarrow> (nat \<Rightarrow> permit) \<Rightarrow> system \<Rightarrow> bool" where
  "sys_inv J P y \<longleftrightarrow> threads_inv J P y \<and> permits_inv P y \<and> claims_inv y \<and> service_inv y \<and> log_justified J (sy_log y)"

subsection \<open>Steps and records\<close>

lemma accounted_self: "(k, op) \<in> recs s \<Longrightarrow> accounted io s k op"
  by (auto simp: accounted_def descends_def)

lemma calm_refl [simp]: "well_formed s \<Longrightarrow> ordinary io s s"
  by (auto simp: ordinary_def accounted_self)

lemma started_stays:
  assumes "\<forall>(k, op)\<in>recs s'. accounted io s k op \<or> late op" "started r c s" "c \<noteq> []" "new_claim io \<noteq> Some c"
  shows "started r c s'"
  using assms by (fastforce simp: started_def accounted_def descends_def)

lemma results_shrink:
  assumes "ordinary io s s'" "c \<noteq> []"
  shows "results_of r c s' \<subseteq> results_of r c s"
  using assms by (fastforce simp: results_of_def ordinary_def accounted_def descends_def)

lemma results_reported:
  assumes "reports io r c x s s'" "c' \<noteq> []"
  shows "results_of r' c' s' \<subseteq> results_of r' c' s \<union> (if r' = r \<and> c' = c then {x} else {})"
  using assms by (fastforce simp: results_of_def reports_def accounted_def descends_def)

lemma service_inv_step:
  assumes "service_inv y" "well_formed s'"
    "\<forall>(k, op)\<in>recs s'. accounted io (sy_service y) k op \<or> (\<exists>cur. (k, cur) \<in> recs (sy_service y) \<and> mu_ExecutionClaimID op = mu_ExecutionClaimID cur)"
  shows "service_inv (y\<lparr>sy_service := s', sy_threads := T, sy_log := l, sy_drawn := drawing io (sy_drawn y)\<rparr>)"
proof -
  have "mu_ExecutionClaimID op = [] \<or> mu_ExecutionClaimID op \<in> drawing io (sy_drawn y)" if "(k, op) \<in> recs s'" for k op
  proof -
    have old: "(k, cur) \<in> recs (sy_service y) \<Longrightarrow> mu_ExecutionClaimID cur = [] \<or> mu_ExecutionClaimID cur \<in> sy_drawn y" for cur
      using assms(1) by (auto simp: service_inv_def)
    have "accounted io (sy_service y) k op \<or> (\<exists>cur. (k, cur) \<in> recs (sy_service y) \<and> mu_ExecutionClaimID op = mu_ExecutionClaimID cur)"
      using assms(3) that by auto
    then have "mu_ExecutionClaimID op = [] \<or> new_claim io = Some (mu_ExecutionClaimID op) \<or>
        (\<exists>cur. (k, cur) \<in> recs (sy_service y) \<and> mu_ExecutionClaimID op = mu_ExecutionClaimID cur)"
      by (auto simp: accounted_def descends_def)
    then show ?thesis by (auto simp: drawing_def dest: old)
  qed
  then show ?thesis using assms(2) by (auto simp: service_inv_def)
qed

lemma justified_cons:
  assumes "log_justified J l" "\<forall>q. x = Called q \<longrightarrow> J (set l) q"
  shows "log_justified J (x # l)"
  using assms by (auto simp: log_justified_def Cons_eq_append_conv)

lemma run_calls_simps [simp]:
  "run_calls r c [] = 0"
  "run_calls r c (Step s s' # h) = run_calls r c h"
  "run_calls r c (Heard q a # h) = run_calls r c h"
  "run_calls r c (Called q # h) = (case q of CallExecute r' c' _ \<Rightarrow> if r' = r \<and> c' = c then 1 else 0 | _ \<Rightarrow> 0) + run_calls r c h"
  by (auto simp: run_calls_def split: call.splits)

lemma holds_after_call: "call_allowed p q \<Longrightarrow> holds (after_call p q) = holds p"
  by (cases q) (auto simp: call_allowed_def)

lemma claims_invI:
  assumes "\<And>r c. 0 < run_calls r c (sy_log y) \<Longrightarrow> claim_started r c y" "\<And>r c. run_calls r c (sy_log y) \<le> 1"
    "\<And>r c x. c \<noteq> [] \<Longrightarrow> x \<in> ever r c y \<Longrightarrow> claim_started r c y"
    "\<And>r c x x'. c \<noteq> [] \<Longrightarrow> x \<in> ever r c y \<Longrightarrow> x' \<in> ever r c y \<Longrightarrow> x = x'"
  shows "claims_inv y"
  using assms unfolding claims_inv_def by metis

lemma claims_invD:
  assumes "claims_inv y"
  shows "0 < run_calls r c (sy_log y) \<Longrightarrow> claim_started r c y" "run_calls r c (sy_log y) \<le> 1"
    "c \<noteq> [] \<Longrightarrow> x \<in> ever r c y \<Longrightarrow> claim_started r c y"
    "c \<noteq> [] \<Longrightarrow> x \<in> ever r c y \<Longrightarrow> x' \<in> ever r c y \<Longrightarrow> x = x'"
  using assms unfolding claims_inv_def by metis+

text \<open>The service after an atomic step, the log with it.\<close>

abbreviation stepped :: "io \<Rightarrow> Service \<Rightarrow> (nat \<Rightarrow> goroutine_state option) \<Rightarrow> system \<Rightarrow> system" where
  "stepped io s' T y \<equiv> y\<lparr>sy_service := s', sy_threads := T, sy_log := Step (sy_service y) s' # sy_log y, sy_drawn := drawing io (sy_drawn y)\<rparr>"

lemma ever_stepped: "ever r c (stepped io s' T y) = ever r c y \<union> results_of r c s'"
  by (auto simp: ever_def)

lemma claim_stays:
  assumes "claim_started r c y" "fresh_draw io y" "\<forall>(k, op)\<in>recs s'. accounted io (sy_service y) k op \<or> late op"
  shows "claim_started r c (stepped io s' T y)"
proof -
  have "new_claim io \<noteq> Some c" "c \<noteq> []" using assms(1,2) by (auto simp: claim_started_def fresh_draw_def)
  with assms started_stays [OF assms(3), of r c] show ?thesis by (auto simp: claim_started_def drawing_def)
qed

lemma calm_step:
  assumes "ordinary io (sy_service y) s'" "fresh_draw io y" "permits_inv P y" "claims_inv y" "service_inv y"
  shows "permits_inv P (stepped io s' T y)" "claims_inv (stepped io s' T y)" "service_inv (stepped io s' T y)"
proof -
  have all: "\<forall>(k, op)\<in>recs s'. accounted io (sy_service y) k op \<or> late op" using assms(1) by (auto simp: ordinary_def)
  have same: "c \<noteq> [] \<Longrightarrow> ever r c (stepped io s' T y) = ever r c y" for r c
    using results_shrink [OF assms(1), of c r] by (auto simp: ever_stepped ever_def)
  note stays = claim_stays [OF _ assms(2) all, of _ _ T]
  show "permits_inv P (stepped io s' T y)"
    using assms(3) same stays unfolding permits_inv_def by (simp add: claim_started_def) blast
  show "claims_inv (stepped io s' T y)"
  proof (rule claims_invI)
    fix r c x x'
    assume c: "c \<noteq> []" and x: "x \<in> ever r c (stepped io s' T y)"
    show "claim_started r c (stepped io s' T y)"
      using claims_invD(3) [OF assms(4) c] x same [OF c] stays by metis
    assume "x' \<in> ever r c (stepped io s' T y)"
    then show "x = x'" using claims_invD(4) [OF assms(4) c] x same [OF c] by metis
  qed (use claims_invD(1,2) [OF assms(4)] stays in simp_all)
  show "service_inv (stepped io s' T y)"
    using assms(1,5) by (intro service_inv_step) (auto simp: ordinary_def)
qed

lemma start_step:
  assumes "ordinary io (sy_service y) s'" "starts r c (sy_service y) s'" "fresh_draw io y" "permits_inv P y" "claims_inv y" "service_inv y"
  shows "permits_inv (P(i := MayRun r c)) (stepped io s' T y)" "holds (P j) \<noteq> Some (r, c)"
proof -
  from assms(2) obtain op where op: "(r, op) \<in> recs (sy_service y)" "mu_ExecutionClaimID op = c" "\<not> late op" "c \<noteq> []"
    by (auto simp: starts_def late_def)
  then have not_started: "\<not> claim_started r c y" by (auto simp: claim_started_def started_def)
  then have none: "ever r c y = {}" "run_calls r c (sy_log y) = 0" using claims_invD(1,3) [OF assms(5)] op(4) by blast+
  show "holds (P j) \<noteq> Some (r, c)" using assms(4) not_started by (auto simp: permits_inv_def)
  have "c \<in> sy_drawn y" using assms(6) op by (auto simp: service_inv_def)
  then have "claim_started r c (stepped io s' T y)"
    using op(4) assms(2) by (auto simp: claim_started_def drawing_def started_def starts_def late_def)
  moreover have "ever r c (stepped io s' T y) = {}"
    using none results_shrink [OF assms(1) op(4), of r] by (auto simp: ever_stepped ever_def)
  ultimately show "permits_inv (P(i := MayRun r c)) (stepped io s' T y)"
    using calm_step(1) [OF assms(1,3-6), of T] none(2) unfolding permits_inv_def by simp
qed

lemma report_step:
  assumes "reports io r c x (sy_service y) s'" "holds (P i) = Some (r, c)" "fresh_draw io y"
    "permits_inv P y" "claims_inv y" "service_inv y" "\<forall>j. holds (P i) = holds (P j) \<longrightarrow> i = j"
  shows "permits_inv (P(i := Idle)) (stepped io s' T y)" "claims_inv (stepped io s' T y)" "service_inv (stepped io s' T y)"
proof -
  have all: "\<forall>(k, op)\<in>recs s'. accounted io (sy_service y) k op \<or> late op" using assms(1) by (auto simp: reports_def late_def)
  note stays = claim_stays [OF _ assms(3) all, of _ _ T]
  have bound: "ever r' c' (stepped io s' T y) \<subseteq> ever r' c' y \<union> (if r' = r \<and> c' = c then {x} else {})" if "c' \<noteq> []" for r' c'
    using results_reported [OF assms(1) that, of r'] by (auto simp: ever_stepped ever_def)
  have here: "claim_started r c y" "ever r c y = {}" using assms(2,4) by (auto simp: permits_inv_def)
  show "permits_inv (P(i := Idle)) (stepped io s' T y)"
  proof -
    have "claim_started r' c' (stepped io s' T y) \<and> ever r' c' (stepped io s' T y) = {}" if "holds (P j) = Some (r', c')" "j \<noteq> i" for j r' c'
    proof -
      have "(r', c') \<noteq> (r, c)" using assms(2,7) that by (metis option.inject)
      moreover have "claim_started r' c' y" "ever r' c' y = {}" using assms(4) that(1) by (auto simp: permits_inv_def)
      ultimately show ?thesis using stays bound [of c' r'] by (auto simp: claim_started_def)
    qed
    then show ?thesis using assms(4) by (auto simp: permits_inv_def)
  qed
  show "claims_inv (stepped io s' T y)"
  proof (rule claims_invI)
    fix r' c' x1 x2
    assume c: "c' \<noteq> []" and x1: "x1 \<in> ever r' c' (stepped io s' T y)"
    then have old: "(r', c') = (r, c) \<and> x1 = x \<or> x1 \<in> ever r' c' y" using bound [OF c, of r'] by (auto split: if_splits)
    then show "claim_started r' c' (stepped io s' T y)" using stays here(1) claims_invD(3) [OF assms(5) c] by blast
    assume x2: "x2 \<in> ever r' c' (stepped io s' T y)"
    then have "(r', c') = (r, c) \<and> x2 = x \<or> x2 \<in> ever r' c' y" using bound [OF c, of r'] by (auto split: if_splits)
    with old here(2) claims_invD(4) [OF assms(5) c, of x1 r' x2] show "x1 = x2" by auto
  qed (use claims_invD(1,2) [OF assms(5)] stays in simp_all)
  show "service_inv (stepped io s' T y)"
  proof (rule service_inv_step)
    show "\<forall>(k, op)\<in>recs s'. accounted io (sy_service y) k op \<or> (\<exists>cur. (k, cur) \<in> recs (sy_service y) \<and> mu_ExecutionClaimID op = mu_ExecutionClaimID cur)"
      using assms(1) unfolding reports_def by fastforce
  qed (use assms(1,6) in \<open>auto simp: reports_def\<close>)
qed

lemma threads_invD:
  assumes "threads_inv J P y" "sy_threads y i = Some (h, prog)"
  shows "set h \<subseteq> set (sy_log y)" "thread_ok J (P i) (h, prog)"
  using assms by (auto simp: threads_inv_def)

lemma thread_okD:
  "thread_ok J p (h, Atomic u k) \<Longrightarrow> safe J (Atomic u k) p h (\<lambda>_ _ _. True)"
  "thread_ok J p (h, Go r prog) \<Longrightarrow> safe J prog p h (\<lambda>_ _ _. True) \<and> \<not> awaiting h"
  "thread_ok J p (h, Ask q f) \<Longrightarrow> \<not> awaiting h \<Longrightarrow> safe J (Ask q f) p h (\<lambda>_ _ _. True)"
  "thread_ok J p (h, Ask q f) \<Longrightarrow> awaiting h \<Longrightarrow> safe J (f a) p (Heard q a # h) (\<lambda>_ _ _. True)"
  by (simp_all add: thread_ok_def split: if_splits)

lemma threads_inv_upd:
  assumes "threads_inv J P y" "sy_threads y' = (sy_threads y)(i \<mapsto> (h, prog))" "set (sy_log y) \<subseteq> set (sy_log y')"
    "set h \<subseteq> set (sy_log y')" "thread_ok J p (h, prog)" "holds p = None \<or> holds p = holds (P i) \<or> (\<forall>j. holds (P j) \<noteq> holds p)"
  shows "threads_inv J (P(i := p)) y'"
proof -
  have "set h' \<subseteq> set (sy_log y')" "thread_ok J ((P(i := p)) j) (h', prog')" if "sy_threads y' j = Some (h', prog')" for j h' prog'
    using that assms threads_invD [OF assms(1), of j] by (auto split: if_splits)
  moreover have "j = k" if "holds ((P(i := p)) j) \<noteq> None" "holds ((P(i := p)) j) = holds ((P(i := p)) k)" for j k
    using that assms(1,6) unfolding threads_inv_def by (metis fun_upd_apply)
  moreover have "(P(i := p)) j = Idle" if "sy_threads y' j = None" for j
    using that assms(1,2) by (auto simp: threads_inv_def split: if_splits)
  ultimately show ?thesis unfolding threads_inv_def by blast
qed

text \<open>Steps that only log and move one goroutine on.\<close>

lemma ever_same: "sy_service y' = sy_service y \<Longrightarrow> (\<forall>s s'. Step s s' \<in> set (sy_log y') \<longleftrightarrow> Step s s' \<in> set (sy_log y)) \<Longrightarrow> ever r c y' = ever r c y"
  by (simp add: ever_def)

lemma claims_same:
  assumes "sy_service y' = sy_service y" "sy_drawn y' = sy_drawn y" "\<forall>s s'. Step s s' \<in> set (sy_log y') \<longleftrightarrow> Step s s' \<in> set (sy_log y)"
    "\<forall>r c. run_calls r c (sy_log y') = run_calls r c (sy_log y)"
  shows "claims_inv y' = claims_inv y" "permits_inv P y' = permits_inv P y" "service_inv y' = service_inv y"
  using assms ever_same [OF assms(1,3)] by (simp_all add: claims_inv_def permits_inv_def service_inv_def claim_started_def)

lemma called_step:
  assumes "sy_service y' = sy_service y" "sy_drawn y' = sy_drawn y" "sy_log y' = Called q # sy_log y"
    "claims_inv y" "permits_inv P y" "call_allowed (P i) q" "\<forall>i j. holds (P i) \<noteq> None \<and> holds (P i) = holds (P j) \<longrightarrow> i = j"
  shows "claims_inv y'" "permits_inv (P(i := after_call (P i) q)) y'"
proof -
  have ever: "ever r c y' = ever r c y" for r c using assms(1,3) by (intro ever_same) auto
  have started: "claim_started r c y' = claim_started r c y" for r c using assms(1,2) by (simp add: claim_started_def)
  have held: "holds ((P(i := after_call (P i) q)) j) = holds (P j)" for j using holds_after_call [OF assms(6)] by simp
  have "claims_inv y' \<and> permits_inv (P(i := after_call (P i) q)) y'"
  proof (cases "\<exists>r c req. q = CallExecute r c req")
    case True
    then obtain r c req where q: "q = CallExecute r c req" by blast
    with assms(6) have run: "P i = MayRun r c" by (simp add: call_allowed_def)
    with assms(5) have zero: "run_calls r c (sy_log y) = 0" by (auto simp: permits_inv_def)
    have st: "claim_started r c y" using assms(5) run unfolding permits_inv_def by (metis holds.simps(2))
    have others: "P j \<noteq> MayRun r c" if "j \<noteq> i" for j
      using assms(7) that run by (metis holds.simps(2) option.distinct(1))
    have calls: "run_calls r' c' (sy_log y') = (if r' = r \<and> c' = c then 1 else run_calls r' c' (sy_log y))" for r' c'
      using q zero assms(3) by auto
    have "claims_inv y'"
      using claims_invD [OF assms(4)] st by (intro claims_invI) (auto simp: ever started calls split: if_splits)
    moreover have "permits_inv (P(i := after_call (P i) q)) y'"
      unfolding permits_inv_def held ever started
    proof (intro conjI allI impI)
      fix j r' c' assume "(P(i := after_call (P i) q)) j = MayRun r' c'"
      then have "P j = MayRun r' c'" "(r', c') \<noteq> (r, c)" using q others by (auto split: if_splits)
      then show "run_calls r' c' (sy_log y') = 0" using assms(5) calls by (auto simp: permits_inv_def)
    qed (use assms(5) in \<open>auto simp: permits_inv_def\<close>)
    ultimately show ?thesis ..
  next
    case False
    then have "run_calls r c (sy_log y') = run_calls r c (sy_log y)" for r c using assms(3) by (cases q) auto
    moreover have "after_call (P i) q = P i" using False by (cases q) auto
    ultimately show ?thesis
      using claims_same [of y' y] assms by (simp add: fun_upd_idem_iff)
  qed
  then show "claims_inv y'" "permits_inv (P(i := after_call (P i) q)) y'" by blast+
qed

section \<open>Systems of permitted programs\<close>

text \<open>
  \<open>J\<close> is what must have happened before a call; more history never hurts. Every program that can be
  started keeps to its permits, and a restart takes its records from those it finds.
\<close>

locale permitted_programs =
  fixes entries :: "unit prog set" and goroutine :: "string \<Rightarrow> unit prog" and restart :: "io \<Rightarrow> Service \<Rightarrow> Service option"
    and J :: "obs set \<Rightarrow> call \<Rightarrow> bool"
  assumes J_mono: "J H q \<Longrightarrow> H \<subseteq> H' \<Longrightarrow> J H' q"
    and entries_safe: "prog \<in> entries \<Longrightarrow> safe J prog Idle [] (\<lambda>_ _ _. True)"
    and goroutine_safe: "safe J (goroutine r) Idle [] (\<lambda>_ _ _. True)"
    and restart_known: "well_formed s \<Longrightarrow> restart io s = Some s' \<Longrightarrow> well_formed s' \<and> recs s' \<subseteq> recs s"
begin

lemma atomic_inv:
  assumes "sys_inv J P y" "sy_threads y i = Some (h, Atomic u k)" "fresh_draw io y" "s' = u io (sy_service y)"
  shows "\<exists>P'. sys_inv J P' (stepped io s' ((sy_threads y)(i \<mapsto> (Step (sy_service y) s' # h, k io (sy_service y)))) y)"
proof -
  let ?T = "(sy_threads y)(i \<mapsto> (Step (sy_service y) s' # h, k io (sy_service y)))"
  let ?y = "stepped io s' ?T y"
  from assms(1) have inv: "threads_inv J P y" "permits_inv P y" "claims_inv y" "service_inv y" "log_justified J (sy_log y)"
    by (auto simp: sys_inv_def)
  from inv(1) assms(2) have h: "set h \<subseteq> set (sy_log y)" "safe J (Atomic u k) (P i) h (\<lambda>_ _ _. True)"
    using threads_invD [OF inv(1) assms(2)] thread_okD(1) by blast+
  have "well_formed (sy_service y)" using inv(4) by (simp add: service_inv_def)
  with h(2) assms(4) obtain p' where p': "step_allowed io (sy_service y) s' (P i) p'"
    "safe J (k io (sy_service y)) p' (Step (sy_service y) s' # h) (\<lambda>_ _ _. True)"
    unfolding safe.simps by blast
  have uniq: "\<forall>i j. holds (P i) \<noteq> None \<and> holds (P i) = holds (P j) \<longrightarrow> i = j" using inv(1) unfolding threads_inv_def by blast
  have parts: "permits_inv (P(i := p')) ?y \<and> claims_inv ?y \<and> service_inv ?y \<and> (holds p' = None \<or> holds p' = holds (P i) \<or> (\<forall>j. holds (P j) \<noteq> holds p'))"
    using p'(1) unfolding step_allowed_def
  proof (elim disjE exE conjE)
    assume "ordinary io (sy_service y) s'" "p' = P i"
    with calm_step [OF _ assms(3) inv(2-4), of s' ?T] show ?thesis by simp
  next
    fix r c assume "ordinary io (sy_service y) s'" "p' = MayRun r c" "starts r c (sy_service y) s'"
    with start_step(1) [OF _ _ assms(3) inv(2-4), of s' r c i ?T] start_step(2) [OF _ _ assms(3) inv(2-4), of s' r c] calm_step(2,3) [OF _ assms(3) inv(2-4), of s' ?T] show ?thesis by simp
  next
    fix r c x assume "holds (P i) = Some (r, c)" "p' = Idle" "reports io r c x (sy_service y) s'"
    moreover from this uniq have "\<forall>j. holds (P i) = holds (P j) \<longrightarrow> i = j" by (metis option.distinct(1))
    ultimately show ?thesis using report_step [OF _ _ assms(3) inv(2-4), of r c x s' i ?T] by simp
  qed
  have "threads_inv J (P(i := p')) ?y"
    using p'(2) h(1) parts by (intro threads_inv_upd [OF inv(1)]) (auto simp: thread_ok_def)
  moreover have "log_justified J (sy_log ?y)" using justified_cons [OF inv(5)] by simp
  ultimately show ?thesis using parts unfolding sys_inv_def by blast
qed

lemma issue_inv:
  assumes "sys_inv J P y" "sy_threads y i = Some (h, Ask q k)" "\<not> awaiting h"
  shows "\<exists>P'. sys_inv J P' (y\<lparr>sy_threads := (sy_threads y)(i \<mapsto> (Called q # h, Ask q k)), sy_log := Called q # sy_log y\<rparr>)"
    (is "\<exists>P'. sys_inv J P' ?y")
proof -
  from assms(1) have inv: "threads_inv J P y" "permits_inv P y" "claims_inv y" "service_inv y" "log_justified J (sy_log y)"
    by (auto simp: sys_inv_def)
  have h: "set h \<subseteq> set (sy_log y)" using threads_invD [OF inv(1) assms(2)] by blast
  have sf: "J (set h) q" "call_allowed (P i) q" "\<And>a. safe J (k a) (after_call (P i) q) (Heard q a # Called q # h) (\<lambda>_ _ _. True)"
    using thread_okD(3) [OF threads_invD(2) [OF inv(1) assms(2)] assms(3)] by auto
  have J: "J (set (sy_log y)) q" using J_mono [OF sf(1) h] .
  have holds: "holds (after_call (P i) q) = holds (P i)" by (rule holds_after_call [OF sf(2)])
  have threads: "threads_inv J (P(i := after_call (P i) q)) ?y"
    using sf(3) h holds by (intro threads_inv_upd [OF inv(1)]) (auto simp: thread_ok_def)
  have "claims_inv ?y" "permits_inv (P(i := after_call (P i) q)) ?y"
    using inv(1) by (intro called_step [OF _ _ _ inv(3,2) sf(2)]; simp add: threads_inv_def)+
  moreover have "service_inv ?y" using inv(4) by (simp add: service_inv_def)
  moreover have "log_justified J (sy_log ?y)" using justified_cons [OF inv(5), of "Called q"] J by simp
  ultimately show ?thesis using threads unfolding sys_inv_def by blast
qed

lemma quiet_inv:
  assumes "sys_inv J P y" "sy_threads y' = (sy_threads y)(i \<mapsto> (h, prog))" "set h \<subseteq> set (sy_log y')" "thread_ok J (P i) (h, prog)"
    "sy_service y' = sy_service y" "sy_drawn y' = sy_drawn y" "sy_log y' = sy_log y \<or> (\<exists>q a. sy_log y' = Heard q a # sy_log y)"
  shows "sys_inv J P y'"
proof -
  from assms(1) have inv: "threads_inv J P y" "permits_inv P y" "claims_inv y" "service_inv y" "log_justified J (sy_log y)"
    by (auto simp: sys_inv_def)
  have "threads_inv J (P(i := P i)) y'" using assms(2-4,7) by (intro threads_inv_upd [OF inv(1)]) auto
  moreover have "claims_inv y' = claims_inv y" "permits_inv P y' = permits_inv P y" "service_inv y' = service_inv y"
    using assms(5-7) by (intro claims_same; auto)+
  moreover have "log_justified J (sy_log y')" using inv(5) assms(7) justified_cons [OF inv(5)] by auto
  ultimately show ?thesis using inv by (simp add: sys_inv_def)
qed

lemma finish_inv:
  assumes "sys_inv J P y"
  shows "sys_inv J (P(i := Idle)) (y\<lparr>sy_threads := (sy_threads y)(i := None)\<rparr>)" (is "sys_inv J ?P ?y")
proof -
  from assms have inv: "threads_inv J P y" "permits_inv P y" "claims_inv y" "service_inv y" "log_justified J (sy_log y)"
    by (auto simp: sys_inv_def)
  have "threads_inv J ?P ?y"
    using inv(1) unfolding threads_inv_def by (simp add: fun_upd_def) metis
  moreover have "permits_inv ?P ?y"
    using inv(2) claims_same(2) [of ?y y P] unfolding permits_inv_def by (simp add: fun_upd_def)
  ultimately show ?thesis using inv(3-5) claims_same(1,3) [of ?y y] by (simp add: sys_inv_def)
qed

lemma crash_inv:
  assumes "sys_inv J P y" "restart io (sy_service y) = Some s'"
  shows "sys_inv J (\<lambda>_. Idle) (y\<lparr>sy_service := s', sy_threads := Map.empty\<rparr>)" (is "sys_inv J _ ?y")
proof -
  from assms(1) have inv: "claims_inv y" "service_inv y" "log_justified J (sy_log y)" by (auto simp: sys_inv_def)
  from restart_known [OF _ assms(2)] inv(2) have known: "well_formed s'" "recs s' \<subseteq> recs (sy_service y)" by (auto simp: service_inv_def)
  have sub: "ever r c ?y \<subseteq> ever r c y" for r c using known(2) by (auto simp: ever_def results_of_def)
  have started: "claim_started r c y \<Longrightarrow> claim_started r c ?y" for r c using known(2) by (auto simp: claim_started_def started_def)
  have "claims_inv ?y"
  proof (rule claims_invI)
    fix r c x x'
    assume c: "c \<noteq> []" and "x \<in> ever r c ?y"
    then have x: "x \<in> ever r c y" using sub by blast
    then show "claim_started r c ?y" using claims_invD(3) [OF inv(1) c] started by blast
    assume "x' \<in> ever r c ?y"
    then show "x = x'" using claims_invD(4) [OF inv(1) c x] sub by blast
  qed (use claims_invD(1,2) [OF inv(1)] started in simp_all)
  moreover have "service_inv ?y" using inv(2) known by (auto simp: service_inv_def)
  ultimately show ?thesis using inv(3) by (simp add: sys_inv_def threads_inv_def permits_inv_def)
qed

lemma sys_step_inv:
  assumes "sys_step entries goroutine restart y y'" "sys_inv J P y"
  shows "\<exists>P'. sys_inv J P' y'"
  using assms(1)
proof cases
  case (invoke prog i)
  have "P i = Idle" using assms(2) invoke by (auto simp: sys_inv_def threads_inv_def)
  with invoke entries_safe [of prog] have "sys_inv J P y'"
    by (intro quiet_inv [OF assms(2), of _ i "[]" prog]) (auto simp: thread_ok_def)
  then show ?thesis by blast
next
  case (atomic i h u k io s')
  with atomic_inv [OF assms(2), of i h u k io s'] show ?thesis by simp
next
  case (issue i h q k)
  with issue_inv [OF assms(2), of i h q k] show ?thesis by simp
next
  case (reply i h q k a)
  have inv: "threads_inv J P y" using assms(2) by (simp add: sys_inv_def)
  have "thread_ok J (P i) (Heard q a # h, k a)"
    using thread_okD(4) [OF threads_invD(2) [OF inv reply(2)] reply(3)] by (simp add: thread_ok_def)
  moreover have "set h \<subseteq> set (sy_log y)" by (rule threads_invD(1) [OF inv reply(2)])
  ultimately have "sys_inv J P y'"
    using reply by (intro quiet_inv [OF assms(2), of _ i "Heard q a # h" "k a"]) auto
  then show ?thesis by blast
next
  case (spawn i h r prog j)
  have inv: "threads_inv J P y" using assms(2) by (simp add: sys_inv_def)
  let ?y1 = "y\<lparr>sy_threads := (sy_threads y)(i \<mapsto> (h, prog))\<rparr>"
  have "thread_ok J (P i) (h, prog)" using thread_okD(2) [OF threads_invD(2) [OF inv spawn(2)]] by (simp add: thread_ok_def)
  then have one: "sys_inv J P ?y1"
    using threads_invD(1) [OF inv spawn(2)] by (intro quiet_inv [OF assms(2), of _ i h prog]) auto
  have "P j = Idle" using inv spawn(3) by (auto simp: threads_inv_def)
  then have "thread_ok J (P j) ([], goroutine r)" using goroutine_safe [of r] by (simp add: thread_ok_def)
  then have "sys_inv J P y'" using spawn by (intro quiet_inv [OF one, of _ j "[]" "goroutine r"]) auto
  then show ?thesis by blast
next
  case (finish i h v)
  with finish_inv [OF assms(2), of i] show ?thesis by auto
next
  case (crash io s')
  with crash_inv [OF assms(2)] show ?thesis by auto
qed

lemma initial_inv:
  assumes "initial y"
  shows "sys_inv J (\<lambda>_. Idle) y"
proof -
  from assms have y: "well_formed (sy_service y)" "sy_threads y = Map.empty" "sy_log y = []"
    and drawn: "\<And>k op. (k, op) \<in> recs (sy_service y) \<Longrightarrow> mu_ExecutionClaimID op = [] \<or> mu_ExecutionClaimID op \<in> sy_drawn y"
    and same: "\<And>k op op'. (k, op) \<in> recs (sy_service y) \<Longrightarrow> (k, op') \<in> recs (sy_service y) \<Longrightarrow>
      mu_ExecutionClaimID op' = mu_ExecutionClaimID op \<Longrightarrow> mu_Phase op = mutationResultPrepared \<Longrightarrow>
      late op' \<and> (mu_Phase op' = mutationResultPrepared \<longrightarrow> mu_Result op' = mu_Result op)"
    unfolding initial_def by fastforce+
  have ever: "ever r c y = results_of r c (sy_service y)" for r c using y(3) by (simp add: ever_def)
  have "claims_inv y"
  proof (rule claims_invI)
    fix r c x x'
    assume c: "c \<noteq> []" and "x \<in> ever r c y"
    then obtain op where op: "(r, op) \<in> recs (sy_service y)" "mu_ExecutionClaimID op = c" "mu_Phase op = mutationResultPrepared" "mu_Result op = Some x"
      by (auto simp: ever results_of_def)
    have "late op'" if "(r, op') \<in> recs (sy_service y)" "mu_ExecutionClaimID op' = c" for op'
      using same [OF op(1) that(1) _ op(3)] that(2) op(2) by simp
    then have "started r c (sy_service y)" by (simp add: started_def)
    then show "claim_started r c y" using c op drawn [OF op(1)] by (simp add: claim_started_def)
    assume "x' \<in> ever r c y"
    then obtain op' where op': "(r, op') \<in> recs (sy_service y)" "mu_ExecutionClaimID op' = c" "mu_Phase op' = mutationResultPrepared" "mu_Result op' = Some x'"
      by (auto simp: ever results_of_def)
    then show "x = x'" using same [OF op(1) op'(1) _ op(3)] op by simp
  qed (simp_all add: y(3))
  then show ?thesis
    using y drawn by (auto simp: sys_inv_def threads_inv_def permits_inv_def service_inv_def log_justified_def)
qed

lemma system_inv:
  assumes "(sys_step entries goroutine restart)\<^sup>*\<^sup>* y0 y" "initial y0"
  shows "\<exists>P. sys_inv J P y"
  using assms(1)
proof (induction rule: rtranclp_induct)
  case base
  show ?case using initial_inv [OF assms(2)] by blast
next
  case (step y y')
  then show ?case using sys_step_inv by blast
qed

lemma runs_at_most_once:
  assumes "(sys_step entries goroutine restart)\<^sup>*\<^sup>* y0 y" "initial y0"
  shows "run_calls r c (sy_log y) \<le> 1"
  using system_inv [OF assms] claims_invD(2) by (auto simp: sys_inv_def)

lemma calls_justified:
  assumes "(sys_step entries goroutine restart)\<^sup>*\<^sup>* y0 y" "initial y0" "sy_log y = l1 @ Called q # l2"
  shows "J (set l2) q"
  using system_inv [OF assms(1,2)] assms(3) by (auto simp: sys_inv_def log_justified_def)

lemma one_result:
  assumes "(sys_step entries goroutine restart)\<^sup>*\<^sup>* y0 y" "initial y0" "c \<noteq> []" "x \<in> ever r c y" "x' \<in> ever r c y"
  shows "x = x'"
  using system_inv [OF assms(1,2)] claims_invD(4) assms(3-) by (auto simp: sys_inv_def)

end

end
