(* ===== verification/Receiver_Checks.thy ===== *)
theory Receiver_Checks
  imports Receiver_Program
begin

text \<open>
  The checks of the receiver service that do not touch its state (\<open>internal/receiver/service.go\<close>):
  notices, proposals and payloads, the binding of an approval to the notice it was given for, the
  authority of a durable allowance, requested workspaces, and the reconnect delay.
\<close>

section \<open>Authorities\<close>

definition currentApprovalAuthority :: "ApprovalAuthority \<Rightarrow> (service_error, ApprovalAuthority) result" where
  "currentApprovalAuthority authority =
     (if TrimSpace (au_Fingerprint authority) = [] \<or> TrimSpace (au_RecipientAgentID authority) = []
      then Inl ErrNoIdentity else Inr authority)"

definition approvalAuthorityFromMutation :: "mutationRecord \<Rightarrow> (service_error, ApprovalAuthority) result" where
  "approvalAuthorityFromMutation op =
     (if TrimSpace (mu_ApprovalAuthorityFingerprint op) = [] \<or> TrimSpace (mu_ApprovalRecipientAgentID op) = [] then Inl ErrUnboundAllow
      else case normalizeApprovalAuthority (record_authority op) of Inl _ \<Rightarrow> Inl ErrInvalidAllow | Inr a \<Rightarrow> Inr a)"

text \<open>\<open>requireCurrentApprovalAuthority\<close>, given the authority of the service at that moment.\<close>

definition authority_current :: "mutationRecord \<Rightarrow> ApprovalAuthority \<Rightarrow> (service_error, unit) result" where
  "authority_current op authority =
     (case approvalAuthorityFromMutation op of Inl e \<Rightarrow> Inl e | Inr recorded \<Rightarrow>
      case currentApprovalAuthority authority of Inl e \<Rightarrow> Inl e | Inr current \<Rightarrow>
      if recorded \<noteq> current then Inl ErrOtherAuthority else Inr ())"

section \<open>Bindings\<close>

definition sameRequestedAccess :: "RequestedAccess list \<Rightarrow> RequestedAccess list \<Rightarrow> bool" where
  "sameRequestedAccess left right \<longleftrightarrow> length left = length right \<and> list_all2 (=) left right"

definition sameArtifactDescriptors :: "ArtifactDescriptor list \<Rightarrow> ArtifactDescriptor list \<Rightarrow> bool" where
  "sameArtifactDescriptors left right \<longleftrightarrow> length left = length right \<and> list_all2 (=) left right"

definition notice_binding :: "('l) golib_scheme \<Rightarrow> RequestNotice \<Rightarrow> approvedNoticeBinding" where
  "notice_binding L n =
     \<lparr>nb_Version = approvedNoticeBindingVersion, nb_RequestID = rn_RequestID n, nb_ConversationID = rn_ConversationID n,
      nb_RequesterAgentID = rn_RequesterAgentID n, nb_RequesterMemberID = rn_RequesterMemberID n,
      nb_RequesterDisplayName = rn_RequesterDisplayName n, nb_Title = rn_Title n, nb_ExpiresAt = rn_ExpiresAt n,
      nb_RequestedAccess = rn_RequestedAccess n, nb_Attachments = rn_Attachments n, nb_PromptBytes = rn_PromptBytes n,
      nb_PromptSHA256 = ToLower L (TrimSpace (rn_PromptSHA256 n))\<rparr>"

definition approvedNoticeBindingFor :: "('l) golib_scheme \<Rightarrow> RequestNotice \<Rightarrow> (service_error, approvedNoticeBinding) result" where
  "approvedNoticeBindingFor L n =
     (let binding = notice_binding L n in
      if \<not> validateApprovedNoticeBinding binding (rn_RequestID n) then Inl ErrInvalidNotice else Inr binding)"

definition sameApprovedNoticeBinding :: "('l) golib_scheme \<Rightarrow> approvedNoticeBinding \<Rightarrow> approvedNoticeBinding \<Rightarrow> bool" where
  "sameApprovedNoticeBinding L left right \<longleftrightarrow>
     nb_Version left = nb_Version right \<and>
     nb_RequestID left = nb_RequestID right \<and>
     nb_ConversationID left = nb_ConversationID right \<and>
     nb_RequesterAgentID left = nb_RequesterAgentID right \<and>
     nb_RequesterMemberID left = nb_RequesterMemberID right \<and>
     nb_RequesterDisplayName left = nb_RequesterDisplayName right \<and>
     nb_Title left = nb_Title right \<and>
     nb_ExpiresAt left = nb_ExpiresAt right \<and>
     sameRequestedAccess (nb_RequestedAccess left) (nb_RequestedAccess right) \<and>
     sameArtifactDescriptors (nb_Attachments left) (nb_Attachments right) \<and>
     nb_PromptBytes left = nb_PromptBytes right \<and>
     EqualFold L (TrimSpace (nb_PromptSHA256 left)) (TrimSpace (nb_PromptSHA256 right))"

definition validateNoticeAgainstApprovedBinding ::
  "('l) golib_scheme \<Rightarrow> RequestNotice \<Rightarrow> approvedNoticeBinding \<Rightarrow> (service_error, unit) result" where
  "validateNoticeAgainstApprovedBinding L n binding =
     (case approvedNoticeBindingFor L n of Inl e \<Rightarrow> Inl e | Inr candidate \<Rightarrow>
      if \<not> sameApprovedNoticeBinding L binding candidate then Inl ErrNoticeChanged else Inr ())"

text \<open>\<open>requireCurrentApprovedNotice\<close>, given what the inbox holds for the request at that moment.\<close>

definition notice_current ::
  "('l) golib_scheme \<Rightarrow> mutationRecord \<Rightarrow> PendingRecord option \<Rightarrow> (service_error, PendingRecord) result" where
  "notice_current L op found =
     (case mu_ApprovedNotice op of None \<Rightarrow> Inl ErrUnboundNotice | Some binding \<Rightarrow>
      if \<not> validateApprovedNoticeBinding binding (mu_RequestID op) then Inl ErrInvalidNotice
      else case found of None \<Rightarrow> Inl ErrNoticeMissing | Some record \<Rightarrow>
      case validateNoticeAgainstApprovedBinding L (pn_Notice record) binding of Inl e \<Rightarrow> Inl e | Inr _ \<Rightarrow> Inr record)"

definition validateExecutionPayloadAgainstApprovedBinding ::
  "('l) golib_scheme \<Rightarrow> approvedNoticeBinding \<Rightarrow> ExecutionPayload \<Rightarrow> (service_error, unit) result" where
  "validateExecutionPayloadAgainstApprovedBinding L b p =
     (if ep_RequestID p \<noteq> nb_RequestID b then Inl ErrPayload
      else if ep_ConversationID p \<noteq> nb_ConversationID b then Inl ErrPayload
      else if ep_RequesterAgentID p \<noteq> nb_RequesterAgentID b then Inl ErrPayload
      else if ep_RequesterMemberID p \<noteq> nb_RequesterMemberID b then Inl ErrPayload
      else if ep_RequesterDisplayName p \<noteq> nb_RequesterDisplayName b then Inl ErrPayload
      else if ep_Title p \<noteq> nb_Title b then Inl ErrPayload
      else if ep_ExpiresAt p \<noteq> nb_ExpiresAt b then Inl ErrPayload
      else if \<not> sameRequestedAccess (ep_RequestedAccess p) (nb_RequestedAccess b) then Inl ErrPayload
      else if \<not> sameArtifactDescriptors (ep_Attachments p) (nb_Attachments b) then Inl ErrPayload
      else if nb_PromptBytes b < 0 \<or> int (length (ep_Prompt p)) \<noteq> nb_PromptBytes b then Inl ErrPayload
      else let wantDigest = TrimSpace (nb_PromptSHA256 b) in
        if \<not> hex_ok wantDigest \<or> hex_decoded_len wantDigest \<noteq> 32 then Inl ErrPayloadUnverifiable
        else if \<not> EqualFold L (sha256_hex L (ep_Prompt p)) wantDigest then Inl ErrPayload
        else Inr ())"

definition validateExecutionPayload :: "('l) golib_scheme \<Rightarrow> RequestNotice \<Rightarrow> ExecutionPayload \<Rightarrow> (service_error, unit) result" where
  "validateExecutionPayload L n p =
     (case approvedNoticeBindingFor L n of Inl e \<Rightarrow> Inl e | Inr b \<Rightarrow> validateExecutionPayloadAgainstApprovedBinding L b p)"

definition validateProposal :: "('l) golib_scheme \<Rightarrow> RequestNotice \<Rightarrow> ProposalPayload \<Rightarrow> (service_error, unit) result" where
  "validateProposal L n p =
     (if pp_RequestID p \<noteq> rn_RequestID n \<or> pp_ConversationID p \<noteq> rn_ConversationID n \<or>
         pp_RequesterAgentID p \<noteq> rn_RequesterAgentID n \<or> pp_RequesterMemberID p \<noteq> rn_RequesterMemberID n \<or>
         pp_RequesterDisplayName p \<noteq> rn_RequesterDisplayName n \<or> pp_Title p \<noteq> rn_Title n \<or>
         pp_ExpiresAt p \<noteq> rn_ExpiresAt n \<or>
         \<not> sameRequestedAccess (pp_RequestedAccess p) (rn_RequestedAccess n) \<or>
         \<not> sameArtifactDescriptors (pp_Attachments p) (rn_Attachments n) then Inl ErrProposalChanged
      else if rn_PromptBytes n \<noteq> 0 \<or> rn_PromptSHA256 n \<noteq> [] then
        (if int (length (pp_Prompt p)) \<noteq> rn_PromptBytes n then Inl ErrProposalChanged
         else if rn_PromptSHA256 n \<noteq> [] \<and> \<not> EqualFold L (sha256_hex L (pp_Prompt p)) (rn_PromptSHA256 n) then Inl ErrProposalChanged
         else Inr ())
      else Inr ())"

section \<open>Notices and workspaces\<close>

text \<open>The loop of \<open>resolveRequestedWorkspaces\<close>; \<open>seen\<close> are the aliases so far.\<close>

fun resolve_workspaces :: "ServiceConfig \<Rightarrow> string list \<Rightarrow> RequestedAccess list \<Rightarrow> (service_error, Workspace list) result" where
  "resolve_workspaces cf seen [] = Inr []"
| "resolve_workspaces cf seen (x # xs) =
     (let alias = TrimSpace (ra_WorkspaceAlias x) in
      case map_of (cf_workspaces cf) alias of None \<Rightarrow> Inl (ErrUnknownAlias alias) | Some root \<Rightarrow>
      if alias \<in> set seen then Inl (ErrRepeatedAlias alias)
      else if ra_Mode x = PermissionReadOnly \<and> cf_AllowWrites cf then Inl (ErrCannotEnforce alias)
      else if \<not> (ra_Mode x = PermissionGuardedWrite \<and> cf_AllowWrites cf) \<and>
              ra_Mode x \<noteq> PermissionReadOnly \<and> ra_Mode x \<noteq> PermissionGuardedWrite then Inl (ErrAccessMode alias)
      else let mode = (if ra_Mode x = PermissionGuardedWrite \<and> cf_AllowWrites cf then WorkspaceWritable else WorkspaceReadOnly) in
        case resolve_workspaces cf (alias # seen) xs of
          Inl e \<Rightarrow> Inl e
        | Inr ws \<Rightarrow> Inr (\<lparr>ws_Path = root, ws_Mode = mode\<rparr> # ws))"

definition resolveRequestedWorkspaces :: "ServiceConfig \<Rightarrow> RequestedAccess list \<Rightarrow> (service_error, Workspace list) result" where
  "resolveRequestedWorkspaces cf requested = resolve_workspaces cf [] requested"

text \<open>The loop over the attachments: the sum of their sizes, or nothing.\<close>

fun attachment_total :: "int \<Rightarrow> ArtifactDescriptor list \<Rightarrow> int option" where
  "attachment_total acc [] = Some acc"
| "attachment_total acc (d # ds) =
     (if TrimSpace (ad_ArtifactID d) = [] \<or> TrimSpace (ad_Name d) = [] \<or> ad_SizeBytes d < 0 \<or> MaxAttachmentBytes < ad_SizeBytes d
      then None else attachment_total (i64 (acc + ad_SizeBytes d)) ds)"

definition validateNotice :: "ServiceConfig \<Rightarrow> RequestNotice \<Rightarrow> (service_error, unit) result" where
  "validateNotice cf n =
     (if rn_Attachments n \<noteq> [] \<and> \<not> cf_artifacts cf then Inl ErrArtifactsUnavailable
      else if MaxAttachments < length (rn_Attachments n) then Inl ErrTooManyAttachments
      else case attachment_total 0 (rn_Attachments n) of
        None \<Rightarrow> Inl ErrAttachment
      | Some acc \<Rightarrow>
          if MaxRequestPayloadBytes < acc then Inl ErrAttachmentBytes
          else case resolveRequestedWorkspaces cf (rn_RequestedAccess n) of Inl e \<Rightarrow> Inl e | Inr _ \<Rightarrow> Inr ())"

definition approvalCandidateForNotice :: "RequestNotice \<Rightarrow> (service_error, ApprovalCandidate) result" where
  "approvalCandidateForNotice n =
     (let c = \<lparr>ca_RequesterMemberID = TrimSpace (rn_RequesterMemberID n),
               ca_RequesterDisplayName = TrimSpace (rn_RequesterDisplayName n),
               ca_ConversationID = TrimSpace (rn_ConversationID n),
               ca_AccessScope = \<lparr>sc_RequestedAccess = rn_RequestedAccess n,
                                 sc_MaxAttachmentCount = int (length (rn_Attachments n)),
                                 sc_MaxAttachmentBytes = fold (\<lambda>d acc. i64 (acc + ad_SizeBytes d)) (rn_Attachments n) 0\<rparr>\<rparr> in
      if ca_RequesterMemberID c = [] then Inl ErrNoMember
      else if ca_ConversationID c = [] then Inl ErrNoConversation
      else Inr c)"

section \<open>Answers of the relay\<close>

definition mutationStatus :: "MutationResponse option \<Rightarrow> string \<Rightarrow> (service_error, RequestStatus) result" where
  "mutationStatus response requestID =
     (case response of None \<Rightarrow> Inl ErrMismatchedMutation | Some m \<Rightarrow>
      if mr_RequestID m \<noteq> requestID \<or> mr_Status m = StatusOther [] then Inl ErrMismatchedMutation else Inr (mr_Status m))"

text \<open>The JSON encodings of two results are the same bytes when the results are equal.\<close>

definition samePreparedResult :: "ResultPayload \<Rightarrow> ResultPayload \<Rightarrow> bool" where
  "samePreparedResult left right \<longleftrightarrow> left = right"

text \<open>\<open>bytes\<close> are 32 random bytes, unless the random source fails.\<close>

definition newOpaqueID :: "string \<Rightarrow> string option \<Rightarrow> string option" where
  "newOpaqueID prefix random = map_option (\<lambda>bs. prefix @ hex_encode bs) random"

definition newExecutionClaimID :: "string option \<Rightarrow> string option" where
  "newExecutionClaimID = newOpaqueID ''claim_''"

section \<open>Reconnecting\<close>

definition initialReconnectDelay :: duration where
  "initialReconnectDelay = second"

definition maximumReconnectDelay :: duration where
  "maximumReconnectDelay = 30 * second"

record reconnectBackoff =
  rb_current :: duration

definition backoff_next :: "bool \<Rightarrow> reconnectBackoff \<Rightarrow> reconnectBackoff \<times> duration" where
  "backoff_next healthy b =
     (let b1 = (if rb_current b \<le> 0 \<or> healthy then b\<lparr>rb_current := initialReconnectDelay\<rparr> else b);
          delay = rb_current b1;
          b2 = (if \<not> healthy then
                  (if maximumReconnectDelay div 2 \<le> rb_current b1 then b1\<lparr>rb_current := maximumReconnectDelay\<rparr>
                   else b1\<lparr>rb_current := i64 (rb_current b1 * 2)\<rparr>)
                else b1)
      in (b2, delay))"

definition supportsDefaultPolicy :: "Capabilities \<Rightarrow> PolicyMode \<Rightarrow> bool" where
  "supportsDefaultPolicy c mode = (case DefaultPolicy mode of Inl _ \<Rightarrow> False | Inr p \<Rightarrow> SupportsPolicy c p)"

end
