(* ===== verification/Receiver_Service.thy ===== *)
theory Receiver_Service
  imports Receiver_Checks
begin

text \<open>
  The methods of the receiver service (\<open>internal/receiver/service.go\<close>) as programs: approving,
  denying, recovering after a restart, executing and reporting. \<open>L\<close> are the library functions,
  \<open>cf\<close> the configuration. Logging is left out.
\<close>

section \<open>Authority\<close>

definition requireCurrentApprovalAuthority :: "mutationRecord \<Rightarrow> unit fallible" where
  "requireCurrentApprovalAuthority op = look (\<lambda>s. authority_current op (sv_authority s)) Ret"

definition requireCurrentApprovedNotice :: "('l) golib_scheme \<Rightarrow> mutationRecord \<Rightarrow> PendingRecord fallible" where
  "requireCurrentApprovedNotice L op = pending_get (mu_RequestID op) (\<lambda>found. Ret (notice_current L op found))"

text \<open>Both checks, in the order every path makes them.\<close>

definition still_approved :: "('l) golib_scheme \<Rightarrow> mutationRecord \<Rightarrow> PendingRecord fallible" where
  "still_approved L op = attempt (requireCurrentApprovalAuthority op) (\<lambda>_. requireCurrentApprovedNotice L op)"

definition the_authority :: "ApprovalAuthority fallible" where
  "the_authority = look (\<lambda>s. currentApprovalAuthority (sv_authority s)) Ret"

definition activateApprovalAuthority :: "ServiceConfig \<Rightarrow> AgentCard option \<Rightarrow> unit fallible" where
  "activateApprovalAuthority cf reply =
     (case reply of None \<Rightarrow> err ErrNoAgentID | Some c \<Rightarrow>
      if TrimSpace (card_AgentID c) = [] then err ErrNoAgentID
      else let authority = \<lparr>au_Fingerprint = cf_fingerprint cf, au_RecipientAgentID = TrimSpace (card_AgentID c)\<rparr> in
        look sv_authority (\<lambda>current.
        if au_RecipientAgentID current \<noteq> [] \<and> current \<noteq> authority then
          change (\<lambda>s. s\<lparr>sv_authority := \<lparr>au_Fingerprint = [], au_RecipientAgentID = []\<rparr>\<rparr>)
            (on_approvals (\<lambda>io. Prune authority (io_now io) (io_write io)) (\<lambda>_. err ErrIdentityChanged))
        else on_approvals (\<lambda>io. Prune authority (io_now io) (io_write io)) (\<lambda>pruned.
          case pruned of Inl e \<Rightarrow> err (ErrGrants e)
          | Inr _ \<Rightarrow> change (\<lambda>s. s\<lparr>sv_authority := authority\<rparr>) (ok ()))))"

section \<open>Executions\<close>

definition hasActiveExecution :: "Service \<Rightarrow> bool" where
  "hasActiveExecution s \<longleftrightarrow> sv_active s \<noteq> []"

definition hasActiveRequest :: "string \<Rightarrow> Service \<Rightarrow> bool" where
  "hasActiveRequest r s \<longleftrightarrow> map_of (sv_active s) r \<noteq> None"

definition cancelExecution :: "string \<Rightarrow> 'r prog \<Rightarrow> 'r prog" where
  "cancelExecution r p =
     change (\<lambda>s. if hasActiveRequest r s then s\<lparr>sv_active := AList.update r True (sv_active s)\<rparr> else s) p"

text \<open>The section under \<open>runMu\<close> that enters the execution, and its goroutine.\<close>

definition enter_execution :: "string \<Rightarrow> unit fallible" where
  "enter_execution r =
     Atomic (\<lambda>_ s. if sv_running s \<and> \<not> hasActiveRequest r s then s\<lparr>sv_active := (r, False) # sv_active s\<rparr> else s)
       (\<lambda>_ s. if \<not> sv_running s then err ErrNotRunning else if hasActiveRequest r s then ok () else Go r (ok ()))"

definition startExecution :: "('l) golib_scheme \<Rightarrow> string \<Rightarrow> RequestStatus \<Rightarrow> unit fallible" where
  "startExecution L r status =
     (if status \<noteq> StatusAccepted \<and> status \<noteq> StatusRunning then err (ErrBadRelayState status)
      else journal_get r (\<lambda>found. case found of None \<Rightarrow> err ErrNoOperation | Some op \<Rightarrow>
        if mu_Phase op = mutationRuntimeStarted then ok ()
        else if mu_Phase op \<noteq> mutationClaimPrepared \<and> mu_Phase op \<noteq> mutationResultPrepared then err (ErrBadPhase (mu_Phase op))
        else if status = StatusAccepted \<and> mu_Phase op \<noteq> mutationClaimPrepared then err (ErrBadPhase (mu_Phase op))
        else if mu_Phase op = mutationClaimPrepared then attempt (still_approved L op) (\<lambda>_. enter_execution r)
        else enter_execution r))"

section \<open>Results\<close>

definition replayPreparedResult :: "mutationRecord \<Rightarrow> unit fallible" where
  "replayPreparedResult op =
     (case mu_Result op of None \<Rightarrow> err ErrNoPreparedResult | Some result \<Rightarrow>
      if mu_Phase op \<noteq> mutationResultPrepared \<or> rp_ExecutionClaimID result \<noteq> mu_ExecutionClaimID op then err ErrNoPreparedResult
      else Ask (CallSubmitResult (mu_RequestID op) result) (\<lambda>a. case an_mutation a of Inl e \<Rightarrow> err (ErrCall e) | Inr m \<Rightarrow>
        case mutationStatus m (mu_RequestID op) of Inl e \<Rightarrow> err e | Inr status \<Rightarrow>
        if status \<noteq> rp_State result then err (ErrUnexpected status) else forget (mu_RequestID op)))"

definition prepare_result :: "ResultPayload \<Rightarrow> mutationRecord \<Rightarrow> mutationRecord option" where
  "prepare_result result current =
     (if mu_ExecutionClaimID current \<noteq> rp_ExecutionClaimID result then None
      else case mu_Phase current of
        mutationRuntimeStarted \<Rightarrow> Some (current\<lparr>mu_Phase := mutationResultPrepared, mu_Result := Some result\<rparr>)
      | mutationResultPrepared \<Rightarrow>
          (case mu_Result current of None \<Rightarrow> None | Some r \<Rightarrow> if \<not> samePreparedResult r result then None else Some current)
      | _ \<Rightarrow> None)"

definition prepareAndSubmitResult :: "mutationRecord \<Rightarrow> ResultPayload \<Rightarrow> unit fallible" where
  "prepareAndSubmitResult op result =
     (if mu_Phase op \<noteq> mutationRuntimeStarted \<or> mu_ExecutionClaimID op \<noteq> rp_ExecutionClaimID result then err ErrNotAtResult
      else attempt (journal_update (mu_RequestID op) (prepare_result result)) replayPreparedResult)"

definition failure_result :: "ServiceConfig \<Rightarrow> string \<Rightarrow> service_error \<Rightarrow> ResultPayload" where
  "failure_result cf claim e =
     \<lparr>rp_ExecutionClaimID = claim, rp_State = StatusFailed, rp_Answer = [], rp_Error = SafeSummary (cf_describe cf e), rp_ResultFiles = []\<rparr>"

definition completed_result :: "string \<Rightarrow> RunResult \<Rightarrow> AttachmentInput list \<Rightarrow> ResultPayload" where
  "completed_result claim run files =
     \<lparr>rp_ExecutionClaimID = claim, rp_State = StatusCompleted, rp_Answer = RedactSensitiveText (rs_FinalText run),
      rp_Error = [], rp_ResultFiles = files\<rparr>"

text \<open>A goroutine has nobody to return an error to.\<close>

definition ignore :: "'a prog \<Rightarrow> unit prog" where
  "ignore p = bindp p (\<lambda>_. Ret ())"

definition submitFailure :: "ServiceConfig \<Rightarrow> string \<Rightarrow> string \<Rightarrow> service_error \<Rightarrow> unit prog" where
  "submitFailure cf r claim e =
     journal_get r (\<lambda>found. case found of None \<Rightarrow> Ret () | Some op \<Rightarrow>
       if mu_ExecutionClaimID op \<noteq> claim then Ret () else ignore (prepareAndSubmitResult op (failure_result cf claim e)))"

section \<open>The execution of a request\<close>

definition run_request :: "ServiceConfig \<Rightarrow> ExecutionPayload \<Rightarrow> Workspace list \<Rightarrow> Sandbox option \<Rightarrow> RunRequest" where
  "run_request cf payload workspaces sandbox =
     \<lparr>rr_RequestID = ep_RequestID payload, rr_ConversationID = ep_ConversationID payload, rr_Title = ep_Title payload,
      rr_Requester = ep_RequesterDisplayName payload, rr_Prompt = ep_Prompt payload,
      rr_Attachments = (case sandbox of None \<Rightarrow> [] | Some sb \<Rightarrow> sb_Attachments sb), rr_Workspaces = workspaces,
      rr_ReturnDirectory = (case sandbox of None \<Rightarrow> [] | Some sb \<Rightarrow> if cf_AllowWrites cf then sb_ReturnDirectory sb else []),
      rr_RequestedPolicy = None, rr_Session = None\<rparr>"

definition report :: "ServiceConfig \<Rightarrow> string \<Rightarrow> mutationRecord \<Rightarrow> RunRequest \<Rightarrow> Sandbox option \<Rightarrow> RunResult \<Rightarrow> unit prog" where
  "report cf r op request sandbox run =
     (case sandbox of
        Some sb \<Rightarrow>
          if rr_ReturnDirectory request \<noteq> [] then
            Ask (CallCollectResults sb) (\<lambda>a. case an_files a of
                Inl e \<Rightarrow> submitFailure cf r (mu_ExecutionClaimID op) (ErrCall e)
              | Inr files \<Rightarrow> ignore (prepareAndSubmitResult op (completed_result (mu_ExecutionClaimID op) run files)))
          else ignore (prepareAndSubmitResult op (completed_result (mu_ExecutionClaimID op) run []))
      | None \<Rightarrow> ignore (prepareAndSubmitResult op (completed_result (mu_ExecutionClaimID op) run [])))"

definition run_in :: "ServiceConfig \<Rightarrow> string \<Rightarrow> mutationRecord \<Rightarrow> ExecutionPayload \<Rightarrow> Sandbox option \<Rightarrow> unit prog" where
  "run_in cf r op payload sandbox =
     (let claim = mu_ExecutionClaimID op in
      case resolveRequestedWorkspaces cf (ep_RequestedAccess payload) of
        Inl e \<Rightarrow> submitFailure cf r claim e
      | Inr workspaces \<Rightarrow>
          let request = run_request cf payload workspaces sandbox in
          Ask (CallExecute r claim request) (\<lambda>a. case an_run a of
              Inl e \<Rightarrow> if e = CallCanceled then Ret () else submitFailure cf r claim (ErrCall e)
            | Inr run \<Rightarrow> report cf r op request sandbox run))"

text \<open>After the runtime-start boundary; \<open>op\<close> is the journal record there.\<close>

definition execute_started :: "ServiceConfig \<Rightarrow> string \<Rightarrow> mutationRecord \<Rightarrow> ExecutionPayload \<Rightarrow> unit prog" where
  "execute_started cf r op payload =
     bindp (pending_status r StatusRunning) (\<lambda>_.
     if cf_artifacts cf then
       Ask (CallMaterialize (ep_Attachments payload)) (\<lambda>a. case an_sandbox a of
           Inl e \<Rightarrow> submitFailure cf r (mu_ExecutionClaimID op) (ErrCall e)
         | Inr sb \<Rightarrow> bindp (run_in cf r op payload (Some sb)) (\<lambda>_. Ask (CallCleanup sb) (\<lambda>_. Ret ())))
     else if ep_Attachments payload \<noteq> [] then submitFailure cf r (mu_ExecutionClaimID op) ErrArtifactsUnavailable
     else run_in cf r op payload None)"

definition start_boundary :: "string \<Rightarrow> mutationRecord \<Rightarrow> mutationRecord option" where
  "start_boundary claim current =
     (if mu_ExecutionClaimID current \<noteq> claim \<or> mu_Phase current \<noteq> mutationClaimPrepared then None
      else Some (current\<lparr>mu_Phase := mutationRuntimeStarted\<rparr>))"

definition execute_claimed :: "('l) golib_scheme \<Rightarrow> ServiceConfig \<Rightarrow> string \<Rightarrow> mutationRecord \<Rightarrow> approvedNoticeBinding \<Rightarrow> unit prog" where
  "execute_claimed L cf r op binding =
     Ask (CallFetchExecution r) (\<lambda>a. case an_execution a of Inl _ \<Rightarrow> Ret () | Inr None \<Rightarrow> Ret () | Inr (Some payload) \<Rightarrow>
       (case validateExecutionPayloadAgainstApprovedBinding L binding payload of Inl _ \<Rightarrow> Ret () | Inr _ \<Rightarrow>
        Ask (CallMarkRunning r (mu_ExecutionClaimID op)) (\<lambda>a. case an_mutation a of Inl _ \<Rightarrow> Ret () | Inr m \<Rightarrow>
          if mutationStatus m r \<noteq> Inr StatusRunning then Ret ()
          else bindp (journal_update r (start_boundary (mu_ExecutionClaimID op))) (\<lambda>updated.
            case updated of Inl _ \<Rightarrow> Ret () | Inr started \<Rightarrow> execute_started cf r started payload))))"

definition execute :: "('l) golib_scheme \<Rightarrow> ServiceConfig \<Rightarrow> string \<Rightarrow> unit prog" where
  "execute L cf r =
     journal_get r (\<lambda>found. case found of None \<Rightarrow> Ret () | Some op \<Rightarrow>
       if mu_Phase op = mutationResultPrepared then ignore (replayPreparedResult op)
       else if mu_Phase op \<noteq> mutationClaimPrepared \<or> mu_ExecutionClaimID op = [] then Ret ()
       else bindp (still_approved L op) (\<lambda>checked. case checked of Inl _ \<Rightarrow> Ret () | Inr _ \<Rightarrow>
         case mu_ApprovedNotice op of None \<Rightarrow> Ret () | Some binding \<Rightarrow> execute_claimed L cf r op binding))"

definition execution_goroutine :: "('l) golib_scheme \<Rightarrow> ServiceConfig \<Rightarrow> string \<Rightarrow> unit prog" where
  "execution_goroutine L cf r =
     bindp (execute L cf r) (\<lambda>_. change (\<lambda>s. s\<lparr>sv_active := AList.delete r (sv_active s)\<rparr>) (Ret ()))"

end
