(* ===== verification/Receiver_Decisions.thy ===== *)
theory Receiver_Decisions
  imports Receiver_Service
begin

text \<open>
  The receiver service continued (\<open>internal/receiver/service.go\<close>): decisions of the recipient, standing
  approvals, the recovery of durable operations, the inbox, events, and the life of the service.
\<close>

section \<open>Preparing a decision\<close>

text \<open>Whether an operation that is already in the journal is the one that is asked for.\<close>

definition same_operation ::
  "('l) golib_scheme \<Rightarrow> RequestNotice \<Rightarrow> Decision \<Rightarrow> ApprovalLevel \<Rightarrow> string \<Rightarrow> ApprovalAuthority \<Rightarrow> approvedNoticeBinding option \<Rightarrow>
   mutationRecord \<Rightarrow> bool" where
  "same_operation L n decision level grantID authority approved existing \<longleftrightarrow>
     (let existingLevel = (if mu_ApprovalLevel existing = ApprovalLevelOther [] \<and> mu_Decision existing = DecisionAllowOnce
                           then ApprovalLevelAskAlways else mu_ApprovalLevel existing) in
      \<not> (mu_ConversationID existing \<noteq> rn_ConversationID n \<or> mu_Decision existing \<noteq> decision \<or> mu_DecisionID existing = [] \<or>
         existingLevel \<noteq> level \<or> mu_ApprovalGrantID existing \<noteq> grantID) \<and>
      (decision = DecisionAllowOnce \<longrightarrow>
         approvalAuthorityFromMutation existing = Inr authority \<and>
         (case (mu_ApprovedNotice existing, approved) of (Some b, Some b') \<Rightarrow> sameApprovedNoticeBinding L b b' | _ \<Rightarrow> False)))"

definition prepared_operation ::
  "RequestNotice \<Rightarrow> Decision \<Rightarrow> ApprovalLevel \<Rightarrow> string \<Rightarrow> bool \<Rightarrow> ApprovalAuthority \<Rightarrow> approvedNoticeBinding option \<Rightarrow> string \<Rightarrow> string \<Rightarrow>
   mutationRecord" where
  "prepared_operation n decision level grantID grantPersisted authority approved decisionID claimID =
     \<lparr>mu_RequestID = rn_RequestID n, mu_ConversationID = rn_ConversationID n, mu_DecisionID = decisionID, mu_Decision = decision,
      mu_ApprovalLevel = level, mu_ApprovalGrantID = grantID, mu_ApprovalGrantPersisted = grantPersisted,
      mu_ApprovalAuthorityFingerprint = au_Fingerprint authority, mu_ApprovalRecipientAgentID = au_RecipientAgentID authority,
      mu_ApprovedNotice = approved, mu_ExecutionClaimID = claimID, mu_Phase = mutationDecisionPrepared, mu_Result = None,
      mu_UpdatedAt = zero_time\<rparr>"

text \<open>The identifiers are drawn and the record is written in one step; the drawing touches nothing shared.\<close>

definition draw_and_put :: "bool \<Rightarrow> (string \<Rightarrow> string \<Rightarrow> mutationRecord) \<Rightarrow> mutationRecord fallible" where
  "draw_and_put allow build =
     Atomic
       (\<lambda>io s. case (newOpaqueID ''decision_'' (io_decision io), if allow then newExecutionClaimID (io_claim io) else Some []) of
          (Some d, Some c) \<Rightarrow> s\<lparr>sv_mutations := fst (mutation_Put (io_now io) (io_stamp io) (io_write io) (build d c) (sv_mutations s))\<rparr>
        | _ \<Rightarrow> s)
       (\<lambda>io s. case (newOpaqueID ''decision_'' (io_decision io), if allow then newExecutionClaimID (io_claim io) else Some []) of
          (Some d, Some c) \<Rightarrow>
            (case snd (mutation_Put (io_now io) (io_stamp io) (io_write io) (build d c) (sv_mutations s)) of
               Inl e \<Rightarrow> err (ErrJournal e) | Inr _ \<Rightarrow> ok (build d c))
        | _ \<Rightarrow> err ErrRandom)"

definition prepare_or_reuse ::
  "('l) golib_scheme \<Rightarrow> RequestNotice \<Rightarrow> Decision \<Rightarrow> ApprovalLevel \<Rightarrow> string \<Rightarrow> bool \<Rightarrow> ApprovalAuthority \<Rightarrow> approvedNoticeBinding option \<Rightarrow>
   mutationRecord fallible" where
  "prepare_or_reuse L n decision level grantID grantPersisted authority approved =
     journal_get (rn_RequestID n) (\<lambda>found. case found of
         Some existing \<Rightarrow> if \<not> same_operation L n decision level grantID authority approved existing
                          then err ErrDifferentOperation else ok existing
       | None \<Rightarrow> draw_and_put (decision = DecisionAllowOnce) (prepared_operation n decision level grantID grantPersisted authority approved))"

definition prepareDecision ::
  "('l) golib_scheme \<Rightarrow> RequestNotice \<Rightarrow> Decision \<Rightarrow> ApprovalLevel \<Rightarrow> string \<Rightarrow> bool \<Rightarrow> mutationRecord fallible" where
  "prepareDecision L n decision level grantID grantPersisted =
     (if decision = DecisionAllowOnce then
        attempt the_authority (\<lambda>authority.
        case approvedNoticeBindingFor L n of Inl e \<Rightarrow> err e
        | Inr approved \<Rightarrow> prepare_or_reuse L n decision level grantID grantPersisted authority (Some approved))
      else prepare_or_reuse L n decision level grantID grantPersisted \<lparr>au_Fingerprint = [], au_RecipientAgentID = []\<rparr> None)"

section \<open>After a decision\<close>

definition claim_after_decision :: "mutationRecord \<Rightarrow> mutationRecord \<Rightarrow> mutationRecord option" where
  "claim_after_decision op current =
     (if mu_DecisionID current \<noteq> mu_DecisionID op \<or> mu_Decision current \<noteq> mu_Decision op \<or>
         mu_ExecutionClaimID current \<noteq> mu_ExecutionClaimID op then None
      else if mu_Phase current = mutationDecisionPrepared then Some (current\<lparr>mu_Phase := mutationClaimPrepared\<rparr>)
      else Some current)"

definition accepted_by_relay :: "('l) golib_scheme \<Rightarrow> string \<Rightarrow> mutationRecord \<Rightarrow> RequestStatus \<Rightarrow> unit fallible" where
  "accepted_by_relay L r op status =
     (if mu_Decision op \<noteq> DecisionAllowOnce \<or> mu_ExecutionClaimID op = [] then err ErrNoClaim
      else attempt (still_approved L op) (\<lambda>_.
        attempt (journal_update r (claim_after_decision op)) (\<lambda>current.
        case mu_Phase current of
          mutationClaimPrepared \<Rightarrow> attempt (pending_status r status) (\<lambda>_. startExecution L r status)
        | mutationResultPrepared \<Rightarrow>
            if status \<noteq> StatusRunning then err ErrRegressed
            else attempt (pending_status r status) (\<lambda>_. startExecution L r status)
        | mutationRuntimeStarted \<Rightarrow> pending_status r status
        | phase \<Rightarrow> err (ErrBadPhase phase))))"

definition handleDecisionMutation :: "('l) golib_scheme \<Rightarrow> string \<Rightarrow> mutationRecord \<Rightarrow> RequestStatus \<Rightarrow> unit fallible" where
  "handleDecisionMutation L r op status =
     (if status \<in> {StatusAccepted, StatusRunning} then accepted_by_relay L r op status
      else if status \<in> {StatusCompleted, StatusFailed, StatusCancelled} then
        cancelExecution r
          (if mu_Phase op = mutationResultPrepared \<and> map_option rp_State (mu_Result op) = Some status then replayPreparedResult op
           else forget r)
      else if status = StatusExpired then forget r
      else err (ErrUnexpected status))"

text \<open>Sending a prepared decision to the relay.\<close>

definition decide :: "string \<Rightarrow> mutationRecord \<Rightarrow> RequestStatus fallible" where
  "decide r op =
     Ask (CallDecide r \<lparr>dp_Decision = mu_Decision op, dp_DecisionID = mu_DecisionID op\<rparr>)
       (\<lambda>a. case an_mutation a of Inl e \<Rightarrow> err (ErrCall e) | Inr m \<Rightarrow> Ret (mutationStatus m r))"

definition commitAllowOnce :: "('l) golib_scheme \<Rightarrow> string \<Rightarrow> mutationRecord \<Rightarrow> RequestStatus fallible" where
  "commitAllowOnce L r op =
     attempt (still_approved L op) (\<lambda>_.
     attempt (decide r op) (\<lambda>status.
     attempt (handleDecisionMutation L r op status) (\<lambda>_. ok status)))"

section \<open>Recovery\<close>

definition confirm_grant :: "string \<Rightarrow> ApprovalLevel \<Rightarrow> string \<Rightarrow> mutationRecord \<Rightarrow> mutationRecord option" where
  "confirm_grant decisionID level grantID current =
     (if mu_DecisionID current \<noteq> decisionID \<or> mu_ApprovalLevel current \<noteq> level \<or> mu_ApprovalGrantID current \<noteq> grantID then None
      else Some (current\<lparr>mu_ApprovalGrantPersisted := True\<rparr>))"

definition ensurePreparedStandingGrant :: "('l) golib_scheme \<Rightarrow> string \<Rightarrow> mutationRecord \<Rightarrow> mutationRecord fallible" where
  "ensurePreparedStandingGrant L r op =
     (if \<not> standing (mu_ApprovalLevel op) \<or> mu_ApprovalGrantPersisted op then ok op
      else attempt (still_approved L op) (\<lambda>record.
        case approvalCandidateForNotice (pn_Notice record) of Inl e \<Rightarrow> err e | Inr candidate \<Rightarrow>
        attempt the_authority (\<lambda>authority.
        if stableApprovalGrantID L authority (mu_ApprovalLevel op) candidate \<noteq> mu_ApprovalGrantID op then err ErrGrantChanged
        else on_approvals (\<lambda>io. RestorePrepared L authority (mu_ApprovalLevel op) candidate (mu_UpdatedAt op) (io_now io) (io_write io)) (\<lambda>restored.
          let notRestored = (restored = Inl ErrApprovalGrantRevoked \<or> restored = Inl ErrApprovalGrantWindowExpired);
              confirm = journal_update r (confirm_grant (mu_DecisionID op) (mu_ApprovalLevel op) (mu_ApprovalGrantID op)) in
          case restored of
            Inl e \<Rightarrow> if notRestored then confirm else err (ErrGrants e)
          | Inr g \<Rightarrow> if map_option gr_GrantID g \<noteq> Some (mu_ApprovalGrantID op) then err ErrGrantChanged else confirm))))"

text \<open>Sending a durable decision again and going on from the relay's answer.\<close>

definition replay_decision :: "('l) golib_scheme \<Rightarrow> string \<Rightarrow> mutationRecord \<Rightarrow> unit fallible" where
  "replay_decision L r op =
     attempt (ensurePreparedStandingGrant L r op) (\<lambda>op'. attempt (decide r op') (\<lambda>status. handleDecisionMutation L r op' status))"

text \<open>Recovery stops without an error when the approval no longer applies.\<close>

definition if_approved :: "('l) golib_scheme \<Rightarrow> mutationRecord \<Rightarrow> unit fallible \<Rightarrow> unit fallible \<Rightarrow> unit fallible" where
  "if_approved L op p refused = bindp (still_approved L op) (\<lambda>x. case x of Inl _ \<Rightarrow> refused | Inr _ \<Rightarrow> p)"

definition busy_elsewhere :: "string \<Rightarrow> (bool \<Rightarrow> 'r prog) \<Rightarrow> 'r prog" where
  "busy_elsewhere r k = look hasActiveExecution (\<lambda>busy. if busy then look (hasActiveRequest r) (\<lambda>own. k (\<not> own)) else k False)"

definition recover_awaiting :: "('l) golib_scheme \<Rightarrow> string \<Rightarrow> mutationRecord option \<Rightarrow> unit fallible" where
  "recover_awaiting L r found =
     (case found of None \<Rightarrow> ok () | Some op \<Rightarrow>
      if mu_Phase op \<noteq> mutationDecisionPrepared \<or> mu_DecisionID op = [] then err (ErrBadPhase (mu_Phase op))
      else if mu_Decision op = DecisionAllowOnce then
        busy_elsewhere r (\<lambda>busy.
          if busy then ok () else if_approved L op (replay_decision L r op) (journal_remove r))
      else replay_decision L r op)"

definition recover_accepted :: "('l) golib_scheme \<Rightarrow> string \<Rightarrow> mutationRecord option \<Rightarrow> unit fallible" where
  "recover_accepted L r found =
     (case found of None \<Rightarrow> ok () | Some op \<Rightarrow>
      if mu_Phase op = mutationDecisionPrepared then if_approved L op (replay_decision L r op) (ok ())
      else if mu_Phase op = mutationRuntimeStarted then ok ()
      else if mu_Phase op \<noteq> mutationClaimPrepared then err (ErrBadPhase (mu_Phase op))
      else if_approved L op (startExecution L r StatusAccepted) (ok ()))"

definition recover_running :: "('l) golib_scheme \<Rightarrow> string \<Rightarrow> mutationRecord option \<Rightarrow> unit fallible" where
  "recover_running L r found =
     (case found of None \<Rightarrow> ok () | Some op \<Rightarrow>
      case mu_Phase op of
        mutationDecisionPrepared \<Rightarrow> if_approved L op (replay_decision L r op) (ok ())
      | mutationClaimPrepared \<Rightarrow> if_approved L op (startExecution L r StatusRunning) (ok ())
      | mutationResultPrepared \<Rightarrow> startExecution L r StatusRunning
      | mutationRuntimeStarted \<Rightarrow> ok ()
      | phase \<Rightarrow> err (ErrBadPhase phase))"

definition recoverOperation :: "('l) golib_scheme \<Rightarrow> string \<Rightarrow> RequestStatus \<Rightarrow> unit fallible" where
  "recoverOperation L r status =
     journal_get r (\<lambda>found.
       if status = StatusAwaitingApproval then recover_awaiting L r found
       else if status = StatusAccepted then recover_accepted L r found
       else if status = StatusRunning then recover_running L r found
       else if status \<in> {StatusCompleted, StatusFailed, StatusCancelled} then
         cancelExecution r
           (case found of
              Some op \<Rightarrow> if mu_Phase op = mutationResultPrepared \<and> map_option rp_State (mu_Result op) = Some status
                         then replayPreparedResult op else forget r
            | None \<Rightarrow> forget r)
       else if status \<in> {StatusRejected, StatusExpired} then cancelExecution r (forget r)
       else err (ErrUnexpected status))"

section \<open>Approving\<close>

definition approvable :: "RequestStatus \<Rightarrow> bool" where
  "approvable status \<longleftrightarrow> status = StatusAwaitingApproval \<or> status = StatusAccepted \<or> status = StatusRunning"

text \<open>The second look at the grant that matched \<open>matched\<close>, on the notice the inbox has now.\<close>

definition recheck_grant ::
  "('l) golib_scheme \<Rightarrow> RequestNotice option \<Rightarrow> RequestNotice \<Rightarrow> ApprovalLevel \<Rightarrow> string \<Rightarrow> unit fallible" where
  "recheck_grant L matched current level grantID =
     (case matched of None \<Rightarrow> ok () | Some m \<Rightarrow>
      case approvedNoticeBindingFor L m of Inl e \<Rightarrow> err e | Inr matchedBinding \<Rightarrow>
      case approvedNoticeBindingFor L current of Inl e \<Rightarrow> err e | Inr currentBinding \<Rightarrow>
      if \<not> sameApprovedNoticeBinding L matchedBinding currentBinding then err ErrRequestChanged
      else attempt the_authority (\<lambda>authority.
        case approvalCandidateForNotice current of Inl e \<Rightarrow> err e | Inr candidate \<Rightarrow>
        on_approvals (\<lambda>io. Match L authority candidate (io_now io) (io_write io)) (\<lambda>result.
          case result of Inl e \<Rightarrow> err (ErrGrants e)
          | Inr None \<Rightarrow> err ErrNotCovered
          | Inr (Some g) \<Rightarrow> if gr_GrantID g \<noteq> grantID \<or> gr_Level g \<noteq> level then err ErrNotCovered else ok ())))"

definition recover_decided :: "('l) golib_scheme \<Rightarrow> string \<Rightarrow> RequestStatus \<Rightarrow> RequestStatus fallible" where
  "recover_decided L r status =
     journal_get r (\<lambda>found. case found of None \<Rightarrow> err ErrAcceptedUnbound | Some op \<Rightarrow>
       attempt (if mu_Phase op = mutationDecisionPrepared \<or> mu_Phase op = mutationClaimPrepared
                then requireCurrentApprovalAuthority op else ok ())
         (\<lambda>_. attempt (recoverOperation L r status) (\<lambda>_. ok status)))"

definition allowOnceWithApprovalForNotice ::
  "('l) golib_scheme \<Rightarrow> ServiceConfig \<Rightarrow> string \<Rightarrow> ApprovalLevel \<Rightarrow> string \<Rightarrow> bool \<Rightarrow> RequestNotice option \<Rightarrow> RequestStatus fallible" where
  "allowOnceWithApprovalForNotice L cf request level grantID grantPersisted matched =
     (let r = TrimSpace request in
      if r = [] then err ErrNoRequestID
      else pending_get r (\<lambda>found. case found of None \<Rightarrow> err ErrNotPending | Some record \<Rightarrow>
        let n = pn_Notice record; status = rn_Status n in
        if \<not> approvable status then err (ErrNotApprovable status)
        else case validateNotice cf n of Inl e \<Rightarrow> err e | Inr _ \<Rightarrow>
        attempt (recheck_grant L matched n level grantID) (\<lambda>_.
        if status \<noteq> StatusAwaitingApproval then recover_decided L r status
        else journal_get r (\<lambda>prepared. look hasActiveExecution (\<lambda>busy.
          if prepared = None \<and> busy then err errReceiverBusy
          else attempt (prepareDecision L n DecisionAllowOnce level grantID grantPersisted) (\<lambda>op. commitAllowOnce L r op))))))"

definition AllowOnce :: "('l) golib_scheme \<Rightarrow> ServiceConfig \<Rightarrow> string \<Rightarrow> unit fallible" where
  "AllowOnce L cf request =
     attempt (allowOnceWithApprovalForNotice L cf request ApprovalLevelAskAlways [] False None) (\<lambda>_. ok ())"

record ApprovalResult =
  ar_RequestID :: string
  ar_Status :: RequestStatus
  ar_Level :: ApprovalLevel
  ar_Grant :: "ApprovalGrant option"

text \<open>Saving the grant of a standing approval, unless an earlier attempt has.\<close>

definition save_grant ::
  "('l) golib_scheme \<Rightarrow> string \<Rightarrow> ApprovalLevel \<Rightarrow> ApprovalAuthority \<Rightarrow> ApprovalCandidate \<Rightarrow> mutationRecord \<Rightarrow>
   (mutationRecord \<times> ApprovalGrant option) fallible" where
  "save_grant L r level authority candidate op =
     (if \<not> mu_ApprovalGrantPersisted op then
        on_approvals (\<lambda>io. Upsert L authority level candidate (io_now io) (io_write io)) (\<lambda>saved.
          case saved of Inl e \<Rightarrow> err (ErrGrants e) | Inr g \<Rightarrow>
          attempt (journal_update r (confirm_grant (mu_DecisionID op) level (case g of None \<Rightarrow> [] | Some g \<Rightarrow> gr_GrantID g)))
            (\<lambda>op'. ok (op', g)))
      else on_approvals (\<lambda>io. List authority (io_now io) (io_write io)) (\<lambda>listed.
        case listed of Inl e \<Rightarrow> err (ErrGrants e)
        | Inr grants \<Rightarrow> ok (op, find (\<lambda>g. gr_GrantID g = mu_ApprovalGrantID op) grants)))"

definition approve_standing :: "('l) golib_scheme \<Rightarrow> ServiceConfig \<Rightarrow> string \<Rightarrow> ApprovalLevel \<Rightarrow> RequestNotice \<Rightarrow> ApprovalResult fallible" where
  "approve_standing L cf r level n =
     (if rn_Status n \<noteq> StatusAwaitingApproval then err (ErrNoStanding (rn_Status n))
      else busy_elsewhere r (\<lambda>busy.
        if busy then err errReceiverBusy
        else case validateNotice cf n of Inl e \<Rightarrow> err e | Inr _ \<Rightarrow>
        case approvalCandidateForNotice n of Inl e \<Rightarrow> err e | Inr candidate \<Rightarrow>
        attempt the_authority (\<lambda>authority.
        attempt (prepareDecision L n DecisionAllowOnce level (stableApprovalGrantID L authority level candidate) False) (\<lambda>op.
        attempt (save_grant L r level authority candidate op) (\<lambda>(op', grant).
        attempt (commitAllowOnce L r op') (\<lambda>status.
        ok \<lparr>ar_RequestID = r, ar_Status = status, ar_Level = level, ar_Grant = grant\<rparr>))))))"

definition Approve :: "('l) golib_scheme \<Rightarrow> ServiceConfig \<Rightarrow> string \<Rightarrow> ApprovalLevel \<Rightarrow> ApprovalResult fallible" where
  "Approve L cf request level =
     (let r = TrimSpace request in
      if r = [] then err ErrNoRequestID
      else if \<not> ApprovalLevel_Valid level then err ErrBadLevel
      else pending_get r (\<lambda>found. case found of None \<Rightarrow> err ErrNotPending | Some record \<Rightarrow>
        if level = ApprovalLevelAskAlways then
          attempt (allowOnceWithApprovalForNotice L cf r ApprovalLevelAskAlways [] False None) (\<lambda>status.
            ok \<lparr>ar_RequestID = r, ar_Status = status, ar_Level = level, ar_Grant = None\<rparr>)
        else approve_standing L cf r level (pn_Notice record)))"

definition ApprovalGrants :: "ApprovalGrant list fallible" where
  "ApprovalGrants =
     attempt the_authority (\<lambda>authority.
     on_approvals (\<lambda>io. List authority (io_now io) (io_write io)) (\<lambda>listed.
       case listed of Inl e \<Rightarrow> err (ErrGrants e) | Inr grants \<Rightarrow> ok grants))"

definition RevokeApprovalGrant :: "string \<Rightarrow> unit fallible" where
  "RevokeApprovalGrant grantID =
     attempt the_authority (\<lambda>authority.
     on_approvals (\<lambda>io. Revoke authority grantID (io_now io) (io_stamp io) (io_write io)) (\<lambda>revoked.
       case revoked of Inl e \<Rightarrow> err (ErrGrants e) | Inr False \<Rightarrow> err ErrGrantNotFound | Inr True \<Rightarrow> ok ()))"

definition maybeAutoApprove :: "('l) golib_scheme \<Rightarrow> ServiceConfig \<Rightarrow> RequestNotice \<Rightarrow> unit prog" where
  "maybeAutoApprove L cf n =
     (if rn_Status n \<noteq> StatusAwaitingApproval \<or> TrimSpace (rn_RequesterMemberID n) = [] then Ret ()
      else ignore (attempt the_authority (\<lambda>authority.
        pending_get (rn_RequestID n) (\<lambda>found. case found of None \<Rightarrow> ok () | Some current \<Rightarrow>
          if rn_Status (pn_Notice current) \<noteq> StatusAwaitingApproval then ok ()
          else case approvalCandidateForNotice (pn_Notice current) of Inl e \<Rightarrow> err e | Inr candidate \<Rightarrow>
          on_approvals (\<lambda>io. Match L authority candidate (io_now io) (io_write io)) (\<lambda>result.
            case result of Inl e \<Rightarrow> err (ErrGrants e)
            | Inr None \<Rightarrow> ok ()
            | Inr (Some g) \<Rightarrow> attempt (allowOnceWithApprovalForNotice L cf (rn_RequestID (pn_Notice current)) (gr_Level g) (gr_GrantID g) True
                                (Some (pn_Notice current))) (\<lambda>_. ok ()))))))"

section \<open>Denying and inspecting\<close>

definition Deny :: "('l) golib_scheme \<Rightarrow> string \<Rightarrow> unit fallible" where
  "Deny L r =
     pending_get r (\<lambda>found. case found of None \<Rightarrow> err ErrNotPending | Some record \<Rightarrow>
       if rn_Status (pn_Notice record) \<noteq> StatusAwaitingApproval then err (ErrNotDeniable (rn_Status (pn_Notice record)))
       else attempt (prepareDecision L (pn_Notice record) DecisionDeny (ApprovalLevelOther []) [] False) (\<lambda>op.
         attempt (decide r op) (\<lambda>status.
         if status \<noteq> StatusRejected \<and> status \<noteq> StatusExpired \<and> status \<noteq> StatusCancelled then err (ErrUnexpected status)
         else forget r)))"

definition Service_InspectProposal :: "('l) golib_scheme \<Rightarrow> string \<Rightarrow> ProposalPayload fallible" where
  "Service_InspectProposal L request =
     (let r = TrimSpace request in
      if r = [] then err ErrNoRequestID
      else pending_get r (\<lambda>found. case found of None \<Rightarrow> err ErrNotPending | Some record \<Rightarrow>
        if rn_Status (pn_Notice record) \<noteq> StatusAwaitingApproval then err (ErrNotInspectable (rn_Status (pn_Notice record)))
        else Ask (CallInspectProposal r) (\<lambda>a. case an_proposal a of Inl e \<Rightarrow> err (ErrCall e) | Inr None \<Rightarrow> err ErrNoProposal
          | Inr (Some p) \<Rightarrow> (case validateProposal L (pn_Notice record) p of Inl e \<Rightarrow> err e | Inr _ \<Rightarrow> ok p))))"

section \<open>Inbox and events\<close>

text \<open>The first loop of \<open>reconcile\<close>: whether each conversation has a local session.\<close>

fun mark_resumes :: "RequestNotice list \<Rightarrow> RequestNotice list fallible" where
  "mark_resumes [] = ok []"
| "mark_resumes (n # ns) =
     Ask (CallResumes (rn_ConversationID n)) (\<lambda>a. case an_resumes a of Inl e \<Rightarrow> err (ErrCall e) | Inr resumes \<Rightarrow>
       attempt (mark_resumes ns) (\<lambda>ns'. ok (n\<lparr>rn_ResumesSession := resumes\<rparr> # ns')))"

fun reconcile_inbox :: "('l) golib_scheme \<Rightarrow> ServiceConfig \<Rightarrow> RequestNotice list \<Rightarrow> unit fallible" where
  "reconcile_inbox L cf [] = ok ()"
| "reconcile_inbox L cf (n # ns) =
     attempt (recoverOperation L (rn_RequestID n) (rn_Status n)) (\<lambda>_.
     pending_get (rn_RequestID n) (\<lambda>found.
       bindp (case found of None \<Rightarrow> Ret () | Some record \<Rightarrow>
                if rn_Status (pn_Notice record) = StatusAwaitingApproval then maybeAutoApprove L cf (pn_Notice record) else Ret ())
         (\<lambda>_. reconcile_inbox L cf ns)))"

text \<open>The last loop: operations of the journal whose request is not in the inbox.\<close>

fun reconcile_journal :: "('l) golib_scheme \<Rightarrow> string list \<Rightarrow> mutationRecord list \<Rightarrow> unit fallible" where
  "reconcile_journal L seen [] = ok ()"
| "reconcile_journal L seen (op # ops) =
     (let r = mu_RequestID op in
      if r \<in> set seen then reconcile_journal L seen ops
      else Ask (CallGetRequest r) (\<lambda>a. case an_request a of
          Inl CallNotFound \<Rightarrow> cancelExecution r (attempt (forget r) (\<lambda>_. reconcile_journal L seen ops))
        | Inl e \<Rightarrow> err (ErrCall e)
        | Inr None \<Rightarrow> err ErrMismatchedRequest
        | Inr (Some q) \<Rightarrow>
            if rq_RequestID q \<noteq> r then err ErrMismatchedRequest
            else if mu_ConversationID op \<noteq> [] \<and> rq_ConversationID q \<noteq> mu_ConversationID op then err ErrMismatchedRequest
            else attempt (recoverOperation L r (rq_Status q)) (\<lambda>_. reconcile_journal L seen ops)))"

definition reconcile :: "('l) golib_scheme \<Rightarrow> ServiceConfig \<Rightarrow> unit fallible" where
  "reconcile L cf =
     Ask CallInbox (\<lambda>a. case an_inbox a of Inl e \<Rightarrow> err (ErrCall e) | Inr requests \<Rightarrow>
       attempt (mark_resumes requests) (\<lambda>requests.
       attempt (on_pending (\<lambda>io. PendingStore_Replace (io_stamp io) (io_write io) requests)) (\<lambda>_.
       attempt (reconcile_inbox L cf requests) (\<lambda>_.
       look (\<lambda>s. mutation_List (sv_mutations s)) (\<lambda>ops. reconcile_journal L (map rn_RequestID requests) ops)))))"

text \<open>The events of the stream; \<open>None\<close> is a payload that cannot be decoded.\<close>

datatype stream_event = EventReady | EventPeerRequest "RequestNotice option" | EventPeerCancelled "string option" | EventOther string

definition peer_request :: "('l) golib_scheme \<Rightarrow> ServiceConfig \<Rightarrow> RequestNotice \<Rightarrow> unit fallible" where
  "peer_request L cf notice =
     (let n = default_status notice in
      Ask (CallResumes (rn_ConversationID n)) (\<lambda>a. case an_resumes a of Inl e \<Rightarrow> err (ErrCall e) | Inr resumes \<Rightarrow>
        let n = n\<lparr>rn_ResumesSession := resumes\<rparr> in
        attempt (on_pending (\<lambda>io. PendingStore_Upsert (io_stamp io) (io_write io) n)) (\<lambda>_.
        if rn_Status n = StatusAccepted \<or> rn_Status n = StatusRunning then
          look sv_running (\<lambda>running. if \<not> running then err ErrNotRunning else recoverOperation L (rn_RequestID n) (rn_Status n))
        else if rn_Status n = StatusAwaitingApproval then
          look sv_running (\<lambda>running. if running then bindp (maybeAutoApprove L cf n) (\<lambda>_. ok ()) else ok ())
        else ok ())))"

definition handleEvent :: "('l) golib_scheme \<Rightarrow> ServiceConfig \<Rightarrow> stream_event \<Rightarrow> unit fallible" where
  "handleEvent L cf ev =
     (case ev of
        EventReady \<Rightarrow> ok ()
      | EventPeerRequest None \<Rightarrow> err ErrDecode
      | EventPeerRequest (Some n) \<Rightarrow> peer_request L cf n
      | EventPeerCancelled None \<Rightarrow> err ErrDecode
      | EventPeerCancelled (Some r) \<Rightarrow> cancelExecution r (forget r)
      | EventOther _ \<Rightarrow> ok ())"

section \<open>The life of the service\<close>

text \<open>
  One connection to the event stream delivers the events \<open>evs\<close> until the connection ends or a handler
  fails; \<open>stopped\<close> says that the service's context was cancelled meanwhile. The answer is whether
  the connection counts as healthy.
\<close>

fun stream_events :: "('l) golib_scheme \<Rightarrow> ServiceConfig \<Rightarrow> stream_event list \<Rightarrow> bool prog" where
  "stream_events L cf [] = Ret False"
| "stream_events L cf (ev # evs) =
     bindp (handleEvent L cf ev) (\<lambda>x. case x of
         Inl _ \<Rightarrow> Ret (ev = EventReady)
       | Inr _ \<Rightarrow> bindp (stream_events L cf evs) (\<lambda>ready. Ret (ev = EventReady \<or> ready)))"

definition eventStreamAttempt :: "('l) golib_scheme \<Rightarrow> ServiceConfig \<Rightarrow> stream_event list \<Rightarrow> bool \<Rightarrow> bool prog" where
  "eventStreamAttempt L cf evs stopped =
     bindp (stream_events L cf evs) (\<lambda>ready.
       if stopped then Ret ready else bindp (reconcile L cf) (\<lambda>x. Ret (ready \<or> x = Inr ())))"

text \<open>
  The loop of \<open>Run\<close> over the connections it makes; the delays before the next ones are returned. The
  loop ends with the first connection during which the service was stopped.
\<close>

fun connect_loop :: "('l) golib_scheme \<Rightarrow> ServiceConfig \<Rightarrow> reconnectBackoff \<Rightarrow> (stream_event list \<times> bool) list \<Rightarrow> duration list prog" where
  "connect_loop L cf b [] = Ret []"
| "connect_loop L cf b ((evs, stopped) # rest) =
     bindp (eventStreamAttempt L cf evs stopped) (\<lambda>healthy.
       if stopped then Ret []
       else let (b', delay) = backoff_next healthy b in
         bindp (connect_loop L cf b' rest) (\<lambda>delays. Ret (delay # delays)))"

definition describe_runtime :: "ServiceConfig \<Rightarrow> Capabilities \<Rightarrow> RuntimeDescriptor" where
  "describe_runtime cf c =
     \<lparr>rd_ID = cp_RuntimeID c, rd_DisplayName = cp_DisplayName c, rd_Version = cp_Version c,
      rd_Capabilities =
        \<lparr>rc_Resume = cp_SupportsResume c, rc_StructuredEvents = cp_SupportsStreaming c, rc_Skills = cp_PreservesLocalContext c,
         rc_MCP = cp_LoadsLocalMCPs c, rc_ReadOnly = supportsDefaultPolicy c PolicyReadOnly,
         rc_GuardedWrite = supportsDefaultPolicy c PolicyGuardedWrite, rc_ReturnedFiles = cf_artifacts cf \<and> cf_AllowWrites cf\<rparr>\<rparr>"

text \<open>Taking the directory over: both files are read again once the process owns them.\<close>

definition take_over :: "('l) golib_scheme \<Rightarrow> unit fallible" where
  "take_over L =
     look sv_running (\<lambda>running. if running then err ErrAlreadyRunning
     else Ask CallLock (\<lambda>a. case an_done a of Inl e \<Rightarrow> err (ErrCall e) | Inr _ \<Rightarrow>
       attempt (on_mutations (\<lambda>io. mutation_Reload (io_readable io) (io_stamp io) (io_write io))) (\<lambda>_.
       on_approvals (\<lambda>io. Reload L (io_readable io) (io_now io) (io_write io)) (\<lambda>x. case x of Inl e \<Rightarrow> err (ErrGrants e) | Inr _ \<Rightarrow>
       change (\<lambda>s. s\<lparr>sv_running := True\<rparr>) (ok ())))))"

text \<open>The deferred end of \<open>Run\<close>: no new executions, and the contexts of the running ones are cancelled.\<close>

definition shut_down :: "'r prog \<Rightarrow> 'r prog" where
  "shut_down p = change (\<lambda>s. s\<lparr>sv_running := False, sv_active := map (\<lambda>(r, _). (r, True)) (sv_active s)\<rparr>) p"

definition come_online :: "('l) golib_scheme \<Rightarrow> ServiceConfig \<Rightarrow> unit fallible" where
  "come_online L cf =
     Ask CallProbe (\<lambda>a. case an_probe a of Inl e \<Rightarrow> err (ErrCall e) | Inr c \<Rightarrow>
       if \<not> cp_Available c then err ErrRuntimeUnavailable
       else change (\<lambda>s. s\<lparr>sv_heartbeat := (sv_heartbeat s)\<lparr>hb_Runtime := describe_runtime cf c\<rparr>\<rparr>)
         (look sv_heartbeat (\<lambda>h. Ask (CallHeartbeat h) (\<lambda>a. case an_card a of Inl e \<Rightarrow> err (ErrCall e) | Inr reply \<Rightarrow>
           attempt (activateApprovalAuthority cf reply) (\<lambda>_. reconcile L cf)))))"

definition Run :: "('l) golib_scheme \<Rightarrow> ServiceConfig \<Rightarrow> (stream_event list \<times> bool) list \<Rightarrow> duration list fallible" where
  "Run L cf connections =
     attempt (take_over L) (\<lambda>_.
     bindp (attempt (come_online L cf) (\<lambda>_. bindp (connect_loop L cf \<lparr>rb_current = 0\<rparr> connections) ok))
       (\<lambda>x. shut_down (Ret x)))"

text \<open>One tick of \<open>heartbeatLoop\<close>.\<close>

definition heartbeat_tick :: "('l) golib_scheme \<Rightarrow> ServiceConfig \<Rightarrow> unit prog" where
  "heartbeat_tick L cf =
     look sv_heartbeat (\<lambda>h. Ask (CallHeartbeat h) (\<lambda>a.
       bindp (case an_card a of Inl _ \<Rightarrow> Ret (Inr ()) | Inr reply \<Rightarrow> activateApprovalAuthority cf reply)
         (\<lambda>_. ignore (reconcile L cf))))"

text \<open>
  The service of a process that starts on the files of an earlier one: every store is loaded, and a
  file that cannot be loaded keeps the process from starting. The heartbeat is the configured one;
  its runtime is filled in when the service comes online.
\<close>

definition NewService :: "('l) golib_scheme \<Rightarrow> io \<Rightarrow> Service \<Rightarrow> Service option" where
  "NewService L io s =
     (let (pd, r1) = restarted (pending_load (io_readable io) (io_stamp io) (io_write io)) (sv_pending s);
          (mu, r2) = restarted (mutation_Reload (io_readable io) (io_stamp io) (io_write io)) (sv_mutations s);
          (ap, r3) = load L (io_readable io) (io_now io) (io_write io) ((sv_approvals s)\<lparr>st_grants := [], st_revocations := []\<rparr>) in
      if r1 = Inr () \<and> r2 = Inr () \<and> r3 = Inr ()
      then Some (s\<lparr>sv_pending := pd, sv_mutations := mu, sv_approvals := ap,
                   sv_authority := \<lparr>au_Fingerprint = [], au_RecipientAgentID = []\<rparr>, sv_running := False, sv_active := []\<rparr>)
      else None)"

text \<open>What goroutines run: the service itself, its heartbeat, and the calls of the control server.\<close>

definition entry_points :: "('l) golib_scheme \<Rightarrow> ServiceConfig \<Rightarrow> unit prog set" where
  "entry_points L cf =
     range (\<lambda>connections. ignore (Run L cf connections)) \<union> {heartbeat_tick L cf} \<union>
     range (\<lambda>request. ignore (AllowOnce L cf request)) \<union> range (\<lambda>(request, level). ignore (Approve L cf request level)) \<union>
     range (\<lambda>request. ignore (Deny L request)) \<union> range (\<lambda>request. ignore (Service_InspectProposal L request)) \<union>
     {ignore ApprovalGrants} \<union> range (\<lambda>grantID. ignore (RevokeApprovalGrant grantID))"

end
