(* ===== verification/Receiver_Safety.thy ===== *)
theory Receiver_Safety
  imports Receiver_System Receiver_Decisions
begin

text \<open>
  What a call of the receiver must be justified by, the steps of its journal that need no permit, and
  the rules for programs that neither need nor take one (\<open>keeps\<close>): they say which journal records
  such a program knows when it returns.
\<close>

section \<open>What justifies a call\<close>

text \<open>A journal record that was seen in memory; the time of its last update does not matter.\<close>

definition knows :: "obs set \<Rightarrow> string \<Rightarrow> mutationRecord \<Rightarrow> bool" where
  "knows H r op \<longleftrightarrow> mu_RequestID op = r \<and>
     (\<exists>s s' t. Step s s' \<in> H \<and> (mutation_Get r (sv_mutations s) = Some (op\<lparr>mu_UpdatedAt := t\<rparr>) \<or>
                                mutation_Get r (sv_mutations s') = Some (op\<lparr>mu_UpdatedAt := t\<rparr>)))"

definition on_disk :: "string \<Rightarrow> mutationRecord \<Rightarrow> Service \<Rightarrow> bool" where
  "on_disk r op s \<longleftrightarrow> (\<exists>snap. ls_file (sv_mutations s) = Some (Some snap) \<and> map_of (sp_Entries snap) r = Some op)"

text \<open>
  What must have happened before the runtime is called with \<open>req\<close> for the claim \<open>c\<close> of request \<open>r\<close>: a
  journal record with the claim, whose authority was the service's and whose notice was in the inbox;
  a payload from the relay that matches the notice; the relay's confirmation that the claim runs;
  and the start boundary on disk.
\<close>

definition approved_run :: "('l) golib_scheme \<Rightarrow> ServiceConfig \<Rightarrow> obs set \<Rightarrow> string \<Rightarrow> string \<Rightarrow> RunRequest \<Rightarrow> bool" where
  "approved_run L cf H r c req \<longleftrightarrow>
     (\<exists>op b payload. knows H r op \<and> mu_Phase op = mutationClaimPrepared \<and> mu_ExecutionClaimID op = c \<and> mu_ApprovedNotice op = Some b \<and>
        (\<exists>s s'. Step s s' \<in> H \<and> authority_current op (sv_authority s) = Inr ()) \<and>
        (\<exists>s s' n. Step s s' \<in> H \<and> notice_current L op (PendingStore_Get r (sv_pending s)) = Inr n) \<and>
        (\<exists>a. Heard (CallFetchExecution r) a \<in> H \<and> an_execution a = Inr (Some payload)) \<and>
        validateExecutionPayloadAgainstApprovedBinding L b payload = Inr () \<and>
        (\<exists>a m. Heard (CallMarkRunning r c) a \<in> H \<and> an_mutation a = Inr m \<and> mutationStatus m r = Inr StatusRunning) \<and>
        (\<exists>s s' op'. Step s s' \<in> H \<and> on_disk r op' s' \<and> mu_ExecutionClaimID op' = c \<and> mu_Phase op' = mutationRuntimeStarted) \<and>
        (\<exists>workspaces sandbox. resolveRequestedWorkspaces cf (ep_RequestedAccess payload) = Inr workspaces \<and>
           req = run_request cf payload workspaces sandbox))"

definition justified :: "('l) golib_scheme \<Rightarrow> ServiceConfig \<Rightarrow> obs set \<Rightarrow> call \<Rightarrow> bool" where
  "justified L cf H q =
     (case q of
        CallDecide r d \<Rightarrow> \<exists>op. knows H r op \<and> mu_DecisionID op = dp_DecisionID d \<and> mu_Decision op = dp_Decision d
      | CallSubmitResult r x \<Rightarrow>
          \<exists>op. knows H r op \<and> mu_Phase op = mutationResultPrepared \<and> mu_Result op = Some x \<and> mu_ExecutionClaimID op = rp_ExecutionClaimID x
      | CallExecute r c req \<Rightarrow> approved_run L cf H r c req
      | _ \<Rightarrow> True)"

lemma knows_mono: "knows H r op \<Longrightarrow> H \<subseteq> H' \<Longrightarrow> knows H' r op"
  unfolding knows_def by blast

lemma approved_run_mono: "approved_run L cf H r c req \<Longrightarrow> H \<subseteq> H' \<Longrightarrow> approved_run L cf H' r c req"
proof -
  assume run: "approved_run L cf H r c req" and sub: "H \<subseteq> H'"
  from run obtain op b payload where op: "knows H r op" "mu_Phase op = mutationClaimPrepared" "mu_ExecutionClaimID op = c" "mu_ApprovedNotice op = Some b"
    and seen: "\<exists>s s'. Step s s' \<in> H \<and> authority_current op (sv_authority s) = Inr ()"
      "\<exists>s s' n. Step s s' \<in> H \<and> notice_current L op (PendingStore_Get r (sv_pending s)) = Inr n"
      "\<exists>a. Heard (CallFetchExecution r) a \<in> H \<and> an_execution a = Inr (Some payload)"
      "\<exists>a m. Heard (CallMarkRunning r c) a \<in> H \<and> an_mutation a = Inr m \<and> mutationStatus m r = Inr StatusRunning"
      "\<exists>s s' op'. Step s s' \<in> H \<and> on_disk r op' s' \<and> mu_ExecutionClaimID op' = c \<and> mu_Phase op' = mutationRuntimeStarted"
    and rest: "validateExecutionPayloadAgainstApprovedBinding L b payload = Inr ()"
      "\<exists>workspaces sandbox. resolveRequestedWorkspaces cf (ep_RequestedAccess payload) = Inr workspaces \<and> req = run_request cf payload workspaces sandbox"
    unfolding approved_run_def by blast
  from seen sub have
    "\<exists>s s'. Step s s' \<in> H' \<and> authority_current op (sv_authority s) = Inr ()"
    "\<exists>s s' n. Step s s' \<in> H' \<and> notice_current L op (PendingStore_Get r (sv_pending s)) = Inr n"
    "\<exists>a. Heard (CallFetchExecution r) a \<in> H' \<and> an_execution a = Inr (Some payload)"
    "\<exists>a m. Heard (CallMarkRunning r c) a \<in> H' \<and> an_mutation a = Inr m \<and> mutationStatus m r = Inr StatusRunning"
    "\<exists>s s' op'. Step s s' \<in> H' \<and> on_disk r op' s' \<and> mu_ExecutionClaimID op' = c \<and> mu_Phase op' = mutationRuntimeStarted"
    by blast+
  with op(2-4) rest knows_mono [OF op(1) sub] show ?thesis unfolding approved_run_def by blast
qed

lemma justified_mono: "justified L cf H q \<Longrightarrow> H \<subseteq> H' \<Longrightarrow> justified L cf H' q"
  unfolding justified_def by (auto split: call.splits intro: knows_mono approved_run_mono)

section \<open>Steps of the journal\<close>

definition jrecs :: "mutationStore \<Rightarrow> (string \<times> mutationRecord) set" where
  "jrecs st = set (ls_entries st) \<union> (case ls_file st of Some (Some snap) \<Rightarrow> set (sp_Entries snap) | _ \<Rightarrow> {})"

lemma recs_jrecs: "recs s = jrecs (sv_mutations s)"
  by (simp add: recs_def jrecs_def)

lemma journal_keyed: "well_formed s \<Longrightarrow> distinct (map fst (ls_entries (sv_mutations s)))"
  by (simp add: well_formed_def journal_inv_def journal_ok_def keyed_def)

lemma journal_get_key: "well_formed s \<Longrightarrow> mutation_Get r (sv_mutations s) = Some op \<Longrightarrow> mu_RequestID op = r"
  by (auto simp: well_formed_def journal_inv_def journal_ok_def record_ok_def mutation_Get_def dest!: map_of_SomeD)

lemma set_update_subset: "set (AList.update k v al) \<subseteq> insert (k, v) (set al)"
  by (induction al) auto

lemma save_recs: "jrecs (fst (save_or_restore (mutation_write t w) al st)) \<subseteq> jrecs st \<union> set al"
  by (cases w) (auto simp: save_or_restore_def mutation_write_def write_snapshot_def Let_def jrecs_def)

lemma update_recs:
  "jrecs (fst (mutation_Update now t w r f st)) \<subseteq>
     jrecs st \<union> {(r, op\<lparr>mu_UpdatedAt := now\<rparr>) | op cur. map_of (ls_entries st) r = Some cur \<and> f cur = Some op}"
proof -
  have "set (AList.update r op (ls_entries st)) \<subseteq> jrecs st \<union> {(r, op)}" for op
    using set_update_subset [of r op "ls_entries st"] by (auto simp: jrecs_def)
  then have "jrecs (fst (save_or_restore (mutation_write t w) (AList.update r op (ls_entries st)) st)) \<subseteq> jrecs st \<union> {(r, op)}" for op
    using save_recs [of t w "AList.update r op (ls_entries st)" st] by blast
  note saved = this
  show ?thesis
  proof (cases "\<exists>cur op. map_of (ls_entries st) r = Some cur \<and> f cur = Some op")
    case True
    then obtain cur op where op: "map_of (ls_entries st) r = Some cur" "f cur = Some op" by blast
    then have "fst (mutation_Update now t w r f st) = st \<or>
        fst (mutation_Update now t w r f st) = fst (save_or_restore (mutation_write t w) (AList.update r (op\<lparr>mu_UpdatedAt := now\<rparr>) (ls_entries st)) st)"
      by (auto simp: mutation_Update_def Let_def split: sum.splits prod.splits)
    with saved [of "op\<lparr>mu_UpdatedAt := now\<rparr>"] op show ?thesis by auto
  next
    case False
    then have "fst (mutation_Update now t w r f st) = st" by (auto simp: mutation_Update_def split: option.splits)
    then show ?thesis by simp
  qed
qed

text \<open>The step of one store call is a step of the journal.\<close>

lemma update_well_formed: "well_formed s \<Longrightarrow> well_formed (s\<lparr>sv_mutations := fst (mutation_Update now t w r f (sv_mutations s))\<rparr>)"
  unfolding well_formed_def by (simp add: journal_step_inv [OF j_update])

lemma remove_well_formed: "well_formed s \<Longrightarrow> well_formed (s\<lparr>sv_mutations := fst (mutation_Remove t w r (sv_mutations s))\<rparr>)"
  unfolding well_formed_def by (simp add: journal_step_inv [OF j_remove])

lemma put_well_formed: "well_formed s \<Longrightarrow> well_formed (s\<lparr>sv_mutations := fst (mutation_Put now t w op (sv_mutations s))\<rparr>)"
  unfolding well_formed_def by (simp add: journal_step_inv [OF j_put])

lemma reload_well_formed: "well_formed s \<Longrightarrow> well_formed (s\<lparr>sv_mutations := fst (mutation_Reload readable now w (sv_mutations s))\<rparr>)"
  unfolding well_formed_def by (simp add: journal_step_inv [OF j_reload])

text \<open>Updates that need no permit.\<close>

definition tame :: "(mutationRecord \<Rightarrow> mutationRecord option) \<Rightarrow> bool" where
  "tame f \<longleftrightarrow> (\<forall>cur op. f cur = Some op \<longrightarrow> descends cur op)"

lemma tame_updates: "tame (claim_after_decision op)" "tame (confirm_grant d l g)" "tame (start_boundary c)"
  by (auto simp: tame_def descends_def late_def claim_after_decision_def confirm_grant_def start_boundary_def split: if_splits)

lemma descends_updated [simp]: "descends cur (op\<lparr>mu_UpdatedAt := t\<rparr>) = descends cur op"
  by (simp add: descends_def late_def)

lemma update_calm:
  assumes "well_formed s" "tame f"
  shows "ordinary io s (s\<lparr>sv_mutations := fst (mutation_Update now t w r f (sv_mutations s))\<rparr>)"
proof -
  have "accounted io s k op" if "(k, op) \<in> jrecs (fst (mutation_Update now t w r f (sv_mutations s)))" for k op
  proof -
    from that update_recs [of now t w r f "sv_mutations s"]
    consider "(k, op) \<in> recs s" | op' cur where "k = r" "op = op'\<lparr>mu_UpdatedAt := now\<rparr>" "map_of (ls_entries (sv_mutations s)) r = Some cur" "f cur = Some op'"
      by (auto simp: recs_jrecs)
    then show ?thesis
    proof cases
      case 2
      then have "(r, cur) \<in> recs s" by (auto simp: recs_def dest: map_of_SomeD)
      with 2 assms(2) show ?thesis by (auto simp: accounted_def tame_def)
    qed (rule accounted_self)
  qed
  then show ?thesis using update_well_formed [OF assms(1)] by (auto simp: ordinary_def recs_jrecs)
qed

lemma subset_calm: "well_formed s' \<Longrightarrow> recs s' \<subseteq> recs s \<Longrightarrow> ordinary io s s'"
  by (auto simp: ordinary_def intro: accounted_self)

lemma remove_calm: "well_formed s \<Longrightarrow> ordinary io s (s\<lparr>sv_mutations := fst (mutation_Remove t w r (sv_mutations s))\<rparr>)"
proof (intro subset_calm remove_well_formed)
  have "set (AList.delete r (ls_entries st)) \<subseteq> jrecs st" for st :: mutationStore by (auto simp: AList.delete_eq jrecs_def)
  then show "recs (s\<lparr>sv_mutations := fst (mutation_Remove t w r (sv_mutations s))\<rparr>) \<subseteq> recs s"
    using save_recs [of t w "AList.delete r (ls_entries (sv_mutations s))" "sv_mutations s"]
    by (auto simp: recs_jrecs mutation_Remove_def split: option.splits)
qed

lemma reload_recs: "journal_inv st \<Longrightarrow> jrecs (fst (mutation_Reload readable now w st)) \<subseteq> jrecs st"
proof -
  assume inv: "journal_inv st"
  have "copy_into (sp_Entries snap) [] = sp_Entries snap" if "ls_file st = Some (Some snap)" for snap
    using inv that copy_into_fresh [of "[]" "sp_Entries snap"] by (simp add: journal_inv_def journal_ok_def keyed_def)
  then show ?thesis
    by (cases w) (auto simp: mutation_Reload_def jrecs_def mutation_write_def write_snapshot_def Let_def split: option.splits sum.splits)
qed

lemma reload_calm: "well_formed s \<Longrightarrow> ordinary io s (s\<lparr>sv_mutations := fst (mutation_Reload readable now w (sv_mutations s))\<rparr>)"
  using reload_recs by (intro subset_calm reload_well_formed) (auto simp: recs_jrecs well_formed_def)

lemma put_calm:
  assumes "well_formed s" "mu_ExecutionClaimID op = [] \<or> Some (mu_ExecutionClaimID op) = new_claim io" "mu_Phase op = mutationDecisionPrepared"
  shows "ordinary io s (s\<lparr>sv_mutations := fst (mutation_Put now t w op (sv_mutations s))\<rparr>)"
proof -
  let ?op = "op\<lparr>mu_UpdatedAt := now\<rparr>"
  have "jrecs (fst (mutation_Put now t w op (sv_mutations s))) \<subseteq> insert (mu_RequestID op, ?op) (recs s)"
    using save_recs [of t w "AList.update (mu_RequestID op) ?op (ls_entries (sv_mutations s))" "sv_mutations s"]
      set_update_subset [of "mu_RequestID op" ?op "ls_entries (sv_mutations s)"]
    by (auto simp: mutation_Put_def recs_jrecs jrecs_def split: sum.splits)
  moreover have "accounted io s (mu_RequestID op) ?op" using assms(2,3) by (auto simp: accounted_def)
  ultimately have "\<forall>(k, op)\<in>jrecs (fst (mutation_Put now t w op (sv_mutations s))). accounted io s k op"
    using accounted_self by blast
  then show ?thesis using put_well_formed [OF assms(1)] by (simp add: ordinary_def recs_jrecs)
qed

lemma other_calm: "well_formed s \<Longrightarrow> sv_mutations s' = sv_mutations s \<Longrightarrow> inbox_inv (sv_pending s') \<Longrightarrow> ordinary io s s'"
  by (intro subset_calm) (auto simp: well_formed_def recs_jrecs)

text \<open>The operations of the inbox file a notice under its identifier.\<close>

lemma inbox_write:
  assumes "inbox_inv st" "\<forall>(k, rec)\<in>set al. rn_RequestID (pn_Notice rec) = k"
  shows "inbox_inv (fst (save_keeping (pending_write t w) al st))"
  using assms by (cases w) (auto simp: inbox_inv_def save_keeping_def pending_write_def write_snapshot_def Let_def)

lemma in_AList_update: "x \<in> set (AList.update k v al) \<Longrightarrow> x = (k, v) \<or> x \<in> set al"
  by (induction al) (auto split: if_splits)

lemma inbox_entry: "inbox_inv st \<Longrightarrow> map_of (ls_entries st) k = Some rec \<Longrightarrow> rn_RequestID (pn_Notice rec) = k"
  by (auto simp: inbox_inv_def dest!: map_of_SomeD)

lemma inbox_status: "inbox_inv st \<Longrightarrow> inbox_inv (fst (PendingStore_UpdateStatus t w r status st))"
  unfolding PendingStore_UpdateStatus_def
  by (auto split: option.splits dest!: in_AList_update intro!: inbox_write dest: inbox_entry) (auto simp: inbox_inv_def)

lemma inbox_removed: "inbox_inv st \<Longrightarrow> inbox_inv (fst (PendingStore_Remove t w r st))"
  unfolding PendingStore_Remove_def
  by (auto split: option.splits intro!: inbox_write) (auto simp: inbox_inv_def AList.delete_eq)

lemma inbox_upsert: "inbox_inv st \<Longrightarrow> inbox_inv (fst (PendingStore_Upsert t w n st))"
  unfolding PendingStore_Upsert_def
  by (auto intro!: inbox_write dest!: in_AList_update simp: received_record_def default_status_def) (auto simp: inbox_inv_def)

lemma set_copy_into: "set (copy_into xs al) \<subseteq> set xs \<union> set al"
proof (induction xs arbitrary: al)
  case (Cons x xs)
  have "set (copy_into (x # xs) al) \<subseteq> set xs \<union> set (AList.update (fst x) (snd x) al)"
    using Cons [of "AList.update (fst x) (snd x) al"] by (simp add: copy_into_def case_prod_beta)
  then show ?case using set_update_subset [of "fst x" "snd x" al] by auto
qed (simp add: copy_into_def)

lemma inbox_replace: "inbox_inv st \<Longrightarrow> inbox_inv (fst (PendingStore_Replace t w ns st))"
  unfolding PendingStore_Replace_def
proof (rule inbox_write)
  show "\<forall>(k, rec)\<in>set (copy_into (replace_entries t st ns) []). rn_RequestID (pn_Notice rec) = k"
    using set_copy_into [of "replace_entries t st ns" "[]"] by (auto simp: replace_entries_def received_record_def default_status_def)
qed

section \<open>Programs without permits\<close>

text \<open>
  \<open>keeps L cf K p G\<close>: knowing the journal records \<open>K\<close>, the program \<open>p\<close> needs no permit and takes
  none, and after it returned \<open>x\<close> the records \<open>G x\<close> are known as well.
\<close>

definition all_known :: "(string \<times> mutationRecord) set \<Rightarrow> history \<Rightarrow> bool" where
  "all_known K h \<longleftrightarrow> (\<forall>(r, op)\<in>K. knows (set h) r op)"

definition keeps ::
  "('l) golib_scheme \<Rightarrow> ServiceConfig \<Rightarrow> (string \<times> mutationRecord) set \<Rightarrow> 'r prog \<Rightarrow> ('r \<Rightarrow> (string \<times> mutationRecord) set) \<Rightarrow> bool" where
  "keeps L cf K p G \<longleftrightarrow>
     (\<forall>h. all_known K h \<longrightarrow> safe (justified L cf) p Idle h (\<lambda>x q h'. q = Idle \<and> all_known (K \<union> G x) h'))"

abbreviation nothing :: "'r \<Rightarrow> (string \<times> mutationRecord) set" where
  "nothing \<equiv> \<lambda>_. {}"

definition found_op :: "string \<Rightarrow> (service_error, mutationRecord) result \<Rightarrow> (string \<times> mutationRecord) set" where
  "found_op r x = (case x of Inl _ \<Rightarrow> {} | Inr op \<Rightarrow> {(r, op)})"

lemma found_op_simps [simp]: "found_op r (Inl e) = {}" "found_op r (Inr op) = {(r, op)}"
  by (simp_all add: found_op_def)

lemma all_known_more: "all_known K h \<Longrightarrow> set h \<subseteq> set h' \<Longrightarrow> all_known K h'"
  by (auto simp: all_known_def intro: knows_mono)

lemma all_known_cons [intro]: "all_known K h \<Longrightarrow> all_known K (x # h)"
  by (erule all_known_more) auto

lemma all_known_Un [simp]: "all_known (K \<union> K') h \<longleftrightarrow> all_known K h \<and> all_known K' h"
  by (auto simp: all_known_def)

lemma all_known_empty [simp]: "all_known {} h"
  by (simp add: all_known_def)

lemma all_known_insert [simp]: "all_known (insert (r, op) K) h \<longleftrightarrow> knows (set h) r op \<and> all_known K h"
  by (auto simp: all_known_def)

lemma keeps_more: "keeps L cf K p G \<Longrightarrow> K \<subseteq> K' \<Longrightarrow> keeps L cf K' p G"
  unfolding keeps_def
proof (intro allI impI)
  fix h assume k: "\<forall>h. all_known K h \<longrightarrow> safe (justified L cf) p Idle h (\<lambda>x q h'. q = Idle \<and> all_known (K \<union> G x) h')"
    and sub: "K \<subseteq> K'" and all: "all_known K' h"
  then have "all_known K h" by (auto simp: all_known_def)
  with k have "safe (justified L cf) p Idle h (\<lambda>x q h'. (q = Idle \<and> all_known (K \<union> G x) h') \<and> set h \<subseteq> set h')"
    by (intro safe_grows) auto
  then show "safe (justified L cf) p Idle h (\<lambda>x q h'. q = Idle \<and> all_known (K' \<union> G x) h')"
    by (rule safe_mono) (auto intro: all_known_more [OF all])
qed

lemma keeps_Ret: "G x \<subseteq> K \<Longrightarrow> keeps L cf K (Ret x) G"
  by (auto simp: keeps_def all_known_def)

lemma keeps_ok: "G (Inr v) \<subseteq> K \<Longrightarrow> keeps L cf K (ok v) G"
  by (simp add: ok_def keeps_Ret)

lemma keeps_err: "G (Inl e) \<subseteq> K \<Longrightarrow> keeps L cf K (err e) G"
  by (simp add: err_def keeps_Ret)

lemma keeps_bindp: "keeps L cf K p G \<Longrightarrow> (\<And>x. keeps L cf (K \<union> G x) (q x) G') \<Longrightarrow> keeps L cf K (bindp p q) G'"
  unfolding keeps_def safe_bindp
proof (intro allI impI)
  fix h
  assume p: "\<forall>h. all_known K h \<longrightarrow> safe (justified L cf) p Idle h (\<lambda>x q h'. q = Idle \<and> all_known (K \<union> G x) h')"
    and q: "\<And>x. \<forall>h. all_known (K \<union> G x) h \<longrightarrow> safe (justified L cf) (q x) Idle h (\<lambda>y q h'. q = Idle \<and> all_known (K \<union> G x \<union> G' y) h')"
    and h: "all_known K h"
  from p h have "safe (justified L cf) p Idle h (\<lambda>x q h'. q = Idle \<and> all_known (K \<union> G x) h')" by blast
  then show "safe (justified L cf) p Idle h (\<lambda>x pm h. safe (justified L cf) (q x) pm h (\<lambda>x q h'. q = Idle \<and> all_known (K \<union> G' x) h'))"
  proof (rule safe_mono)
    fix x pm h'
    assume "pm = Idle \<and> all_known (K \<union> G x) h'"
    with q [of x] have "safe (justified L cf) (q x) pm h' (\<lambda>y q h'. q = Idle \<and> all_known (K \<union> G x \<union> G' y) h')" by blast
    then show "safe (justified L cf) (q x) pm h' (\<lambda>x q h'. q = Idle \<and> all_known (K \<union> G' x) h')" by (rule safe_mono) auto
  qed
qed

lemma keeps_attempt:
  assumes "keeps L cf K p G" "\<And>v. keeps L cf (K \<union> G (Inr v)) (k v) G'" "\<And>e. G' (Inl e) = {}"
  shows "keeps L cf K (attempt p k) G'"
  unfolding attempt_def using assms by (intro keeps_bindp [OF assms(1)]) (auto split: sum.splits intro!: keeps_Ret)

text \<open>Atomic steps that are ordinary.\<close>

lemma keeps_Atomic:
  assumes "\<And>io s. well_formed s \<Longrightarrow> ordinary io s (u io s)" "\<And>io s. well_formed s \<Longrightarrow> all_known (N io s) [Step s (u io s)]"
    "\<And>io s. well_formed s \<Longrightarrow> keeps L cf (K \<union> N io s) (k io s) G"
  shows "keeps L cf K (Atomic u k) G"
  unfolding keeps_def safe.simps
proof (intro allI impI)
  fix h io s
  assume h: "all_known K h" and s: "well_formed s"
  have "all_known (N io s) (Step s (u io s) # h)" by (rule all_known_more [OF assms(2) [OF s]]) auto
  with h have "all_known (K \<union> N io s) (Step s (u io s) # h)" by auto
  then have "safe (justified L cf) (k io s) Idle (Step s (u io s) # h) (\<lambda>x q h'. q = Idle \<and> all_known (K \<union> N io s \<union> G x) h')"
    using assms(3) [OF s, of io] by (auto simp: keeps_def)
  then have "safe (justified L cf) (k io s) Idle (Step s (u io s) # h) (\<lambda>x q h'. q = Idle \<and> all_known (K \<union> G x) h')"
    by (rule safe_mono) auto
  then show "\<exists>p'. step_allowed io s (u io s) Idle p' \<and> safe (justified L cf) (k io s) p' (Step s (u io s) # h) (\<lambda>x q h'. q = Idle \<and> all_known (K \<union> G x) h')"
    using assms(1) [OF s, of io] by (auto simp: step_allowed_def)
qed

lemma keeps_look: "(\<And>s. well_formed s \<Longrightarrow> keeps L cf K (k (f s)) G) \<Longrightarrow> keeps L cf K (look f k) G"
  unfolding look_def by (rule keeps_Atomic [where N = "\<lambda>_ _. {}"]) auto

lemma keeps_change:
  "(\<And>s. sv_mutations (f s) = sv_mutations s \<and> sv_pending (f s) = sv_pending s) \<Longrightarrow> keeps L cf K p G \<Longrightarrow> keeps L cf K (change f p) G"
  unfolding change_def by (rule keeps_Atomic [where N = "\<lambda>_ _. {}"]) (auto intro!: other_calm simp: well_formed_def)

lemma keeps_on_pending: "(\<And>io st. inbox_inv st \<Longrightarrow> inbox_inv (fst (f io st))) \<Longrightarrow> keeps L cf K (on_pending f) nothing"
  unfolding on_pending_def
  by (rule keeps_Atomic [where N = "\<lambda>_ _. {}"]) (auto intro!: other_calm keeps_ok keeps_err simp: well_formed_def split: sum.splits)

lemma keeps_on_approvals: "(\<And>x. keeps L cf K (k x) G) \<Longrightarrow> keeps L cf K (on_approvals f k) G"
  unfolding on_approvals_def by (rule keeps_Atomic [where N = "\<lambda>_ _. {}"]) (auto intro!: other_calm simp: well_formed_def)

lemma keeps_pending_get:
  "(\<And>x. \<forall>rec. x = Some rec \<longrightarrow> rn_RequestID (pn_Notice rec) = r \<Longrightarrow> keeps L cf K (k x) G) \<Longrightarrow> keeps L cf K (pending_get r k) G"
  unfolding pending_get_def by (rule keeps_look) (auto simp: well_formed_def PendingStore_Get_def inbox_entry)

lemma knows_get: "well_formed s \<Longrightarrow> mutation_Get r (sv_mutations s) = Some op \<Longrightarrow> knows {Step s s'} r op"
  unfolding knows_def using journal_get_key by (intro conjI exI [of _ s] exI [of _ s'] exI [of _ "mu_UpdatedAt op"]) auto

lemma keeps_journal_get:
  assumes "keeps L cf K (k None) G" "\<And>op. mu_RequestID op = r \<Longrightarrow> keeps L cf (insert (r, op) K) (k (Some op)) G"
  shows "keeps L cf K (journal_get r k) G"
  unfolding journal_get_def look_def
proof (rule keeps_Atomic [where N = "\<lambda>_ s. case mutation_Get r (sv_mutations s) of None \<Rightarrow> {} | Some op \<Rightarrow> {(r, op)}"])
  fix io :: io and s :: Service
  assume s: "well_formed s"
  show "all_known (case mutation_Get r (sv_mutations s) of None \<Rightarrow> {} | Some op \<Rightarrow> {(r, op)}) [Step s s]"
    using knows_get [OF s] by (auto split: option.splits)
  show "keeps L cf (K \<union> (case mutation_Get r (sv_mutations s) of None \<Rightarrow> {} | Some op \<Rightarrow> {(r, op)})) (k (mutation_Get r (sv_mutations s))) G"
    using assms journal_get_key [OF s] by (auto split: option.splits)
qed auto

lemma knows_update:
  assumes "well_formed s" "mutation_Update now t w r f (sv_mutations s) = (st', Inr op)"
  shows "knows {Step s (s\<lparr>sv_mutations := st'\<rparr>)} r op"
proof -
  from assms(2) obtain r0 where v: "mu_RequestID r0 = r" "op = r0\<lparr>mu_UpdatedAt := now\<rparr>"
    "save_or_restore (mutation_write t w) (AList.update r op (ls_entries (sv_mutations s))) (sv_mutations s) = (st', Inr ())"
    by (auto simp: mutation_Update_def Let_def split: option.splits sum.splits if_splits prod.splits)
  then have "ls_entries st' = AList.update r op (ls_entries (sv_mutations s))"
    by (cases w) (auto simp: save_or_restore_def mutation_write_def write_snapshot_def Let_def)
  then have "mutation_Get r st' = Some op" by (simp add: mutation_Get_def AList.update_conv')
  then show ?thesis
    using v(1,2) unfolding knows_def
    by (intro conjI exI [of _ s] exI [of _ "s\<lparr>sv_mutations := st'\<rparr>"] exI [of _ now]) auto
qed

lemma keeps_journal_update:
  assumes "tame f"
  shows "keeps L cf K (journal_update r f) (found_op r)"
  unfolding journal_update_def on_mutations_def
proof (rule keeps_Atomic [where N = "\<lambda>io s. case snd (mutation_Update (io_now io) (io_stamp io) (io_write io) r f (sv_mutations s)) of
      Inl _ \<Rightarrow> {} | Inr op \<Rightarrow> {(r, op)}"])
  fix io :: io and s :: Service
  assume s: "well_formed s"
  obtain st' x where up: "mutation_Update (io_now io) (io_stamp io) (io_write io) r f (sv_mutations s) = (st', x)" by fastforce
  show "all_known (case snd (mutation_Update (io_now io) (io_stamp io) (io_write io) r f (sv_mutations s)) of Inl _ \<Rightarrow> {} | Inr op \<Rightarrow> {(r, op)})
      [Step s (s\<lparr>sv_mutations := fst (mutation_Update (io_now io) (io_stamp io) (io_write io) r f (sv_mutations s))\<rparr>)]"
    using knows_update [OF s] up by (auto split: sum.splits)
qed (auto intro!: update_calm assms keeps_ok keeps_err split: sum.splits)

lemma keeps_journal_remove: "keeps L cf K (journal_remove r) nothing"
  unfolding journal_remove_def on_mutations_def
  by (rule keeps_Atomic [where N = "\<lambda>_ _. {}"]) (auto intro!: remove_calm keeps_ok keeps_err split: sum.splits)

lemma keeps_Ask:
  assumes "\<And>h. all_known K h \<Longrightarrow> justified L cf (set h) q" "\<And>r c req. q \<noteq> CallExecute r c req" "\<And>a. keeps L cf K (k a) G"
  shows "keeps L cf K (Ask q k) G"
proof -
  have "after_call Idle q = Idle" "call_allowed Idle q" using assms(2) by (cases q; simp add: call_allowed_def)+
  moreover have "safe (justified L cf) (k a) Idle (Heard q a # Called q # h) (\<lambda>x q h'. q = Idle \<and> all_known (K \<union> G x) h')"
    if "all_known K h" for h a
    using assms(3) [of a] that by (auto simp only: keeps_def intro: all_known_cons)
  ultimately show ?thesis using assms(1) by (simp only: keeps_def safe.simps) blast
qed

lemma keeps_Go: "keeps L cf K p G \<Longrightarrow> keeps L cf K (Go r p) G"
  by (simp add: keeps_def)

end
