(* ===== verification/Receiver_Methods.thy ===== *)
theory Receiver_Methods
  imports Receiver_Safety
begin

text \<open>
  Every method of the receiver service keeps to its permits. All but the execution of a request need
  none; the execution takes one at the runtime-start boundary and uses it once. The locale of
  permitted programs is interpreted on the methods.
\<close>

section \<open>The methods\<close>

lemmas keeps_intros =
  keeps_ok keeps_err keeps_Ret keeps_look keeps_on_approvals keeps_pending_get keeps_Go

lemma keeps_forget: "keeps L cf K (forget r) nothing"
  unfolding forget_def pending_remove_def by (rule keeps_attempt [OF keeps_on_pending [OF inbox_removed]]) (auto intro: keeps_journal_remove)

lemma keeps_pending_status: "keeps L cf K (pending_status r st) nothing"
  unfolding pending_status_def by (rule keeps_on_pending [OF inbox_status])

lemma keeps_authority: "keeps L cf K (requireCurrentApprovalAuthority op) nothing"
  unfolding requireCurrentApprovalAuthority_def by (intro keeps_intros) simp

lemma keeps_still_approved: "keeps L cf K (still_approved L op) nothing"
  unfolding still_approved_def requireCurrentApprovedNotice_def
  by (rule keeps_attempt [OF keeps_authority]) (intro keeps_intros | simp)+

lemma keeps_the_authority: "keeps L cf K the_authority nothing"
  unfolding the_authority_def by (intro keeps_intros) simp

lemma keeps_cancel: "keeps L cf K p G \<Longrightarrow> keeps L cf K (cancelExecution r p) G"
  unfolding cancelExecution_def by (rule keeps_change) auto

lemma keeps_activate: "keeps L cf K (activateApprovalAuthority cf' reply) nothing"
  unfolding activateApprovalAuthority_def Let_def
  by (auto intro!: keeps_intros keeps_change split: option.splits sum.splits)

lemma keeps_enter: "keeps L cf K (enter_execution r) nothing"
  unfolding enter_execution_def
  by (rule keeps_Atomic [where N = "\<lambda>_ _. {}"]) (auto intro!: other_calm keeps_intros simp: well_formed_def)

lemma keeps_startExecution: "keeps L cf K (startExecution L r st) nothing"
  unfolding startExecution_def
  by (auto intro!: keeps_journal_get keeps_intros keeps_attempt [OF keeps_still_approved] keeps_enter)

text \<open>A submission needs the record it comes from, a decision the journal record of it.\<close>

lemma keeps_replay: "(r, op) \<in> K \<Longrightarrow> keeps L cf K (replayPreparedResult op) nothing"
proof -
  assume K: "(r, op) \<in> K"
  have "justified L cf (set h) (CallSubmitResult (mu_RequestID op) x)"
    if "all_known K h" "mu_Phase op = mutationResultPrepared" "mu_Result op = Some x" "rp_ExecutionClaimID x = mu_ExecutionClaimID op" for h x
  proof -
    have "knows (set h) r op" using that(1) K by (auto simp: all_known_def)
    then have "knows (set h) (mu_RequestID op) op" by (simp add: knows_def)
    then show ?thesis using that(2-4) by (auto simp: justified_def)
  qed
  then show ?thesis
    unfolding replayPreparedResult_def
    by (auto intro!: keeps_Ask keeps_intros keeps_forget split: option.splits sum.splits)
qed

lemma keeps_decide: "(r, op) \<in> K \<Longrightarrow> keeps L cf K (decide r op) nothing"
  unfolding decide_def
  by (rule keeps_Ask) (auto simp: justified_def all_known_def intro!: keeps_intros split: sum.splits)

lemma keeps_accepted: "keeps L cf K (accepted_by_relay L r op st) nothing"
  unfolding accepted_by_relay_def
  by (auto intro!: keeps_intros keeps_attempt [OF keeps_still_approved] keeps_attempt [OF keeps_journal_update [OF tame_updates(1)]]
      keeps_attempt [OF keeps_pending_status] keeps_startExecution keeps_pending_status split: mutationPhase.splits)

lemma keeps_handle: "(r, op) \<in> K \<Longrightarrow> keeps L cf K (handleDecisionMutation L r op st) nothing"
  unfolding handleDecisionMutation_def
  by (auto intro!: keeps_intros keeps_accepted keeps_cancel keeps_forget keeps_replay)

lemma keeps_commit: "(r, op) \<in> K \<Longrightarrow> keeps L cf K (commitAllowOnce L r op) nothing"
  unfolding commitAllowOnce_def
  by (rule keeps_attempt [OF keeps_still_approved], rule keeps_attempt [OF keeps_decide], simp, rule keeps_attempt [OF keeps_handle])
    (auto intro!: keeps_intros)

lemma keeps_ensure: "(r, op) \<in> K \<Longrightarrow> keeps L cf K (ensurePreparedStandingGrant L r op) (found_op r)"
  unfolding ensurePreparedStandingGrant_def
  by (auto intro!: keeps_intros keeps_attempt [OF keeps_still_approved] keeps_attempt [OF keeps_the_authority]
      keeps_journal_update tame_updates simp: Let_def split: sum.splits)

lemma keeps_replay_decision: "(r, op) \<in> K \<Longrightarrow> keeps L cf K (replay_decision L r op) nothing"
  unfolding replay_decision_def
  by (rule keeps_attempt [OF keeps_ensure], assumption, rule keeps_attempt [OF keeps_decide]) (auto intro!: keeps_handle)

lemma keeps_if_approved: "keeps L cf K p nothing \<Longrightarrow> keeps L cf K q nothing \<Longrightarrow> keeps L cf K (if_approved L op p q) nothing"
  unfolding if_approved_def by (rule keeps_bindp [OF keeps_still_approved]) (auto split: sum.splits)

lemma keeps_busy: "(\<And>b. keeps L cf K (k b) G) \<Longrightarrow> keeps L cf K (busy_elsewhere r k) G"
  unfolding busy_elsewhere_def by (auto intro!: keeps_intros)

lemma keeps_if: "keeps L cf K p G \<Longrightarrow> keeps L cf K q G \<Longrightarrow> keeps L cf K (if b then p else q) G"
  by simp

lemma keeps_recover_awaiting: "found = None \<or> (\<exists>op. found = Some op \<and> (r, op) \<in> K) \<Longrightarrow> keeps L cf K (recover_awaiting L r found) nothing"
  unfolding recover_awaiting_def
  by (auto intro!: keeps_if keeps_intros keeps_busy keeps_if_approved keeps_replay_decision keeps_journal_remove)

lemma keeps_recover_accepted: "found = None \<or> (\<exists>op. found = Some op \<and> (r, op) \<in> K) \<Longrightarrow> keeps L cf K (recover_accepted L r found) nothing"
  unfolding recover_accepted_def
  by (auto intro!: keeps_if keeps_intros keeps_if_approved keeps_replay_decision keeps_startExecution)

lemma keeps_recover_running: "found = None \<or> (\<exists>op. found = Some op \<and> (r, op) \<in> K) \<Longrightarrow> keeps L cf K (recover_running L r found) nothing"
  unfolding recover_running_def
  by (auto intro!: keeps_intros keeps_if_approved keeps_replay_decision keeps_startExecution split: mutationPhase.splits)

lemma keeps_recoverOperation: "keeps L cf K (recoverOperation L r st) nothing"
  unfolding recoverOperation_def
  by (rule keeps_journal_get; intro keeps_if keeps_recover_awaiting keeps_recover_accepted keeps_recover_running keeps_cancel keeps_forget keeps_err)
    (auto intro!: keeps_if keeps_replay keeps_forget)

lemma new_claim_id: "newExecutionClaimID (io_claim io) = new_claim io"
  by (simp add: newExecutionClaimID_def newOpaqueID_def new_claim_def)

text \<open>What is drawn and put is new, and known from then on.\<close>

lemma knows_put:
  assumes "mutation_Put now t w op (sv_mutations s) = (st', Inr ())" "mu_RequestID op = r"
  shows "knows {Step s (s\<lparr>sv_mutations := st'\<rparr>)} r op"
proof -
  from assms(1) have "save_or_restore (mutation_write t w) (AList.update (mu_RequestID op) (op\<lparr>mu_UpdatedAt := now\<rparr>) (ls_entries (sv_mutations s))) (sv_mutations s) = (st', Inr ())"
    by (auto simp: mutation_Put_def split: sum.splits)
  then have "ls_entries st' = AList.update (mu_RequestID op) (op\<lparr>mu_UpdatedAt := now\<rparr>) (ls_entries (sv_mutations s))"
    by (cases w) (auto simp: save_or_restore_def mutation_write_def write_snapshot_def Let_def)
  then have "mutation_Get r st' = Some (op\<lparr>mu_UpdatedAt := now\<rparr>)" using assms(2) by (simp add: mutation_Get_def AList.update_conv')
  then show ?thesis
    using assms(2) unfolding knows_def
    by (intro conjI exI [of _ s] exI [of _ "s\<lparr>sv_mutations := st'\<rparr>"] exI [of _ now]) auto
qed

lemma keeps_draw:
  assumes "\<And>d c. mu_RequestID (build d c) = r" "\<And>d c. mu_ExecutionClaimID (build d c) = c" "\<And>d c. mu_Phase (build d c) = mutationDecisionPrepared"
  shows "keeps L cf K (draw_and_put allow build) (found_op r)"
  unfolding draw_and_put_def
proof (rule keeps_Atomic [where N = "\<lambda>io s. case (newOpaqueID ''decision_'' (io_decision io), if allow then newExecutionClaimID (io_claim io) else Some []) of
      (Some d, Some c) \<Rightarrow> (case snd (mutation_Put (io_now io) (io_stamp io) (io_write io) (build d c) (sv_mutations s)) of Inl _ \<Rightarrow> {} | Inr _ \<Rightarrow> {(r, build d c)})
    | _ \<Rightarrow> {}"], goal_cases)
  case (1 io s)
  then show ?case
    using assms by (auto intro!: put_calm simp: new_claim_id split: option.splits)
next
  case (2 io s)
  then show ?case
    using knows_put [OF _ assms(1)] by (auto split: option.splits sum.splits simp: prod_eq_iff)
next
  case (3 io s)
  then show ?case by (auto intro!: keeps_ok keeps_err split: option.splits sum.splits)
qed

lemma keeps_prepare: "rn_RequestID n = r \<Longrightarrow> keeps L cf K (prepareDecision L n d l g b) (found_op r)"
proof -
  assume r: "rn_RequestID n = r"
  have "keeps L cf K (prepare_or_reuse L n d l g b au ap) (found_op r)" for K au ap
    unfolding prepare_or_reuse_def r
    by (rule keeps_journal_get) (auto intro!: keeps_draw keeps_intros simp: prepared_operation_def r)
  then show ?thesis
    unfolding prepareDecision_def
    by (auto intro!: keeps_intros keeps_attempt [OF keeps_the_authority] split: sum.splits)
qed

lemma keeps_recheck: "keeps L cf K (recheck_grant L m n l g) nothing"
  unfolding recheck_grant_def
  by (auto intro!: keeps_intros keeps_attempt [OF keeps_the_authority] split: option.splits sum.splits)

lemma keeps_recover_decided: "keeps L cf K (recover_decided L r st) nothing"
  unfolding recover_decided_def
  by (auto intro!: keeps_journal_get keeps_intros keeps_attempt [where G = nothing] keeps_authority keeps_recoverOperation)

lemma keeps_allow: "keeps L cf K (allowOnceWithApprovalForNotice L cf' q l g b m) nothing"
  unfolding allowOnceWithApprovalForNotice_def Let_def
  by (auto intro!: keeps_pending_get keeps_intros keeps_attempt [OF keeps_recheck] keeps_recover_decided keeps_journal_get
      keeps_attempt [OF keeps_prepare [OF refl]] keeps_commit split: option.splits sum.splits)

lemma keeps_AllowOnce: "keeps L cf K (AllowOnce L cf' q) nothing"
  unfolding AllowOnce_def by (rule keeps_attempt [OF keeps_allow]) (auto intro: keeps_ok)

lemma keeps_save_grant:
  "(r, op) \<in> K \<Longrightarrow> keeps L cf K (save_grant L r l au ca op) (\<lambda>x. case x of Inl _ \<Rightarrow> {} | Inr (op', _) \<Rightarrow> {(r, op')})"
  unfolding save_grant_def
  by (auto intro!: keeps_intros keeps_attempt [OF keeps_journal_update [OF tame_updates(2)]] split: sum.splits)

lemma keeps_approve_standing: "rn_RequestID n = r \<Longrightarrow> keeps L cf K (approve_standing L cf' r l n) nothing"
  unfolding approve_standing_def
  by (auto intro!: keeps_intros keeps_busy keeps_attempt [OF keeps_the_authority] keeps_attempt [OF keeps_prepare [OF refl]]
      keeps_attempt [OF keeps_save_grant] keeps_attempt [OF keeps_commit] split: sum.splits)

lemma keeps_Approve: "keeps L cf K (Approve L cf' q l) nothing"
  unfolding Approve_def Let_def
  by (auto intro!: keeps_intros keeps_pending_get keeps_attempt [OF keeps_allow] keeps_approve_standing split: option.splits)

lemma keeps_ApprovalGrants: "keeps L cf K ApprovalGrants nothing"
  unfolding ApprovalGrants_def by (auto intro!: keeps_attempt [OF keeps_the_authority] keeps_intros split: sum.splits)

lemma keeps_RevokeApprovalGrant: "keeps L cf K (RevokeApprovalGrant g) nothing"
  unfolding RevokeApprovalGrant_def by (auto intro!: keeps_attempt [OF keeps_the_authority] keeps_intros split: sum.splits bool.splits)

lemma keeps_ignore: "keeps L cf K p G \<Longrightarrow> keeps L cf K (ignore p) nothing"
  unfolding ignore_def by (erule keeps_bindp) (simp add: keeps_Ret)

lemma keeps_auto: "keeps L cf K (maybeAutoApprove L cf' n) nothing"
proof -
  have "keeps L cf K (attempt the_authority (\<lambda>authority.
      pending_get (rn_RequestID n) (\<lambda>found. case found of None \<Rightarrow> ok () | Some current \<Rightarrow>
        if rn_Status (pn_Notice current) \<noteq> StatusAwaitingApproval then ok ()
        else case approvalCandidateForNotice (pn_Notice current) of Inl e \<Rightarrow> err e | Inr candidate \<Rightarrow>
        on_approvals (\<lambda>io. Match L authority candidate (io_now io) (io_write io)) (\<lambda>result.
          case result of Inl e \<Rightarrow> err (ErrGrants e)
          | Inr None \<Rightarrow> ok ()
          | Inr (Some g) \<Rightarrow> attempt (allowOnceWithApprovalForNotice L cf' (rn_RequestID (pn_Notice current)) (gr_Level g) (gr_GrantID g) True
                              (Some (pn_Notice current))) (\<lambda>_. ok ()))))) nothing" (is "keeps _ _ _ ?p _")
    by (auto intro!: keeps_attempt [OF keeps_the_authority] keeps_intros keeps_attempt [OF keeps_allow] split: option.splits sum.splits)
  then show ?thesis unfolding maybeAutoApprove_def by (auto intro!: keeps_Ret intro: keeps_ignore)
qed

lemma keeps_Deny: "keeps L cf K (Deny L r) nothing"
  unfolding Deny_def
  by (auto intro!: keeps_pending_get keeps_intros keeps_attempt [OF keeps_prepare [OF refl]] keeps_attempt [OF keeps_decide] keeps_forget
      split: option.splits)

text \<open>Calls that need no justification.\<close>

lemma plain_calls [simp]:
  "justified L cf H CallLock" "justified L cf H CallProbe" "justified L cf H (CallHeartbeat hb)" "justified L cf H CallInbox"
  "justified L cf H (CallGetRequest r)" "justified L cf H (CallInspectProposal r)" "justified L cf H (CallFetchExecution r)"
  "justified L cf H (CallMarkRunning r c)" "justified L cf H (CallResumes r)" "justified L cf H (CallMaterialize ds)"
  "justified L cf H (CallCollectResults sb)" "justified L cf H (CallCleanup sb)"
  by (simp_all add: justified_def)

lemma keeps_Inspect: "keeps L cf K (Service_InspectProposal L q) nothing"
  unfolding Service_InspectProposal_def Let_def
  by (auto intro!: keeps_pending_get keeps_intros keeps_Ask split: option.splits sum.splits)

lemma keeps_mark_resumes: "keeps L cf K (mark_resumes ns) nothing"
  by (induction ns arbitrary: K) (auto intro!: keeps_intros keeps_Ask keeps_attempt split: sum.splits)

lemma keeps_reconcile_inbox: "keeps L cf K (reconcile_inbox L cf' ns) nothing"
proof (induction ns arbitrary: K)
  case (Cons n ns)
  have "keeps L cf K (case found of None \<Rightarrow> Ret () | Some record \<Rightarrow>
      if rn_Status (pn_Notice record) = StatusAwaitingApproval then maybeAutoApprove L cf' (pn_Notice record) else Ret ()) nothing" for K found
    by (auto intro!: keeps_Ret keeps_auto split: option.splits)
  with Cons show ?case
    by (auto intro!: keeps_attempt [OF keeps_recoverOperation] keeps_pending_get keeps_bindp)
qed (simp add: keeps_ok)

lemma keeps_reconcile_journal: "keeps L cf K (reconcile_journal L seen ops) nothing"
  by (induction ops arbitrary: K)
    (auto simp: Let_def intro!: keeps_intros keeps_Ask keeps_cancel keeps_attempt [OF keeps_forget] keeps_attempt [OF keeps_recoverOperation]
      split: sum.splits option.splits call_error.splits)

lemma keeps_reconcile: "keeps L cf K (reconcile L cf') nothing"
  unfolding reconcile_def
  by (auto intro!: keeps_Ask keeps_intros keeps_attempt [OF keeps_mark_resumes] keeps_attempt [OF keeps_on_pending [OF inbox_replace]]
      keeps_attempt [OF keeps_reconcile_inbox] keeps_reconcile_journal split: sum.splits)

lemma keeps_peer_request: "keeps L cf K (peer_request L cf' n) nothing"
  unfolding peer_request_def Let_def
  by (auto intro!: keeps_Ask keeps_intros keeps_attempt [OF keeps_on_pending [OF inbox_upsert]] keeps_recoverOperation keeps_bindp [OF keeps_auto]
      split: sum.splits)

lemma keeps_handleEvent: "keeps L cf K (handleEvent L cf' ev) nothing"
  unfolding handleEvent_def
  by (auto intro!: keeps_intros keeps_peer_request keeps_cancel keeps_forget split: stream_event.splits option.splits)

lemma keeps_stream: "keeps L cf K (stream_events L cf' evs) nothing"
  by (induction evs arbitrary: K) (auto intro!: keeps_Ret keeps_bindp [OF keeps_handleEvent] keeps_bindp split: sum.splits)

lemma keeps_attempt_stream: "keeps L cf K (eventStreamAttempt L cf' evs stopped) nothing"
  unfolding eventStreamAttempt_def
  by (auto intro!: keeps_bindp [OF keeps_stream] keeps_Ret keeps_bindp [OF keeps_reconcile])

lemma keeps_connect: "keeps L cf K (connect_loop L cf' b cs) nothing"
  by (induction cs arbitrary: K b)
    (auto intro!: keeps_Ret keeps_bindp [OF keeps_attempt_stream] keeps_bindp split: prod.splits)

lemma keeps_take_over: "keeps L cf K (take_over L) nothing"
proof -
  have "keeps L cf K (on_mutations (\<lambda>io. mutation_Reload (io_readable io) (io_stamp io) (io_write io))) nothing" for K
    unfolding on_mutations_def
    by (rule keeps_Atomic [where N = "\<lambda>_ _. {}"]) (auto intro!: reload_calm keeps_ok keeps_err split: sum.splits)
  then show ?thesis
    unfolding take_over_def
    by (auto intro!: keeps_intros keeps_Ask keeps_attempt keeps_change split: sum.splits)
qed

lemma keeps_come_online: "keeps L cf K (come_online L cf') nothing"
  unfolding come_online_def
  by (auto intro!: keeps_Ask keeps_intros keeps_change keeps_attempt [OF keeps_activate] keeps_reconcile split: sum.splits)

lemma keeps_Run: "keeps L cf K (Run L cf' cs) nothing"
  unfolding Run_def shut_down_def
  by (rule keeps_attempt [OF keeps_take_over], rule keeps_bindp [where G = nothing])
    (auto intro!: keeps_attempt [OF keeps_come_online] keeps_bindp [OF keeps_connect] keeps_change keeps_intros)

lemma keeps_heartbeat: "keeps L cf K (heartbeat_tick L cf') nothing"
  unfolding heartbeat_tick_def
  by (auto intro!: keeps_intros keeps_Ask keeps_bindp [where G = nothing] keeps_activate keeps_ignore [OF keeps_reconcile] split: sum.splits)

section \<open>The execution of a request\<close>

lemma keeps_safe: "keeps L cf K p G \<Longrightarrow> all_known K h \<Longrightarrow> safe (justified L cf) p Idle h (\<lambda>_ _ _. True)"
  unfolding keeps_def by (auto elim: safe_mono)

lemma safe_calm:
  assumes "\<And>io s. well_formed s \<Longrightarrow> ordinary io s (u io s)" "\<And>io s. well_formed s \<Longrightarrow> safe J (k io s) p (Step s (u io s) # h) Q"
  shows "safe J (Atomic u k) p h Q"
  using assms by (auto simp: step_allowed_def)

lemma safe_look: "(\<And>s. well_formed s \<Longrightarrow> safe J (k (f s)) p (Step s s # h) Q) \<Longrightarrow> safe J (look f k) p h Q"
  unfolding look_def by (rule safe_calm) auto

lemma safe_on_pending:
  assumes "\<And>io st. inbox_inv st \<Longrightarrow> inbox_inv (fst (f io st))" "\<And>x s s'. Q x p (Step s s' # h)"
  shows "safe J (on_pending f) p h Q"
  unfolding on_pending_def
  using assms by (intro safe_calm) (auto intro!: other_calm simp: well_formed_def err_def ok_def split: sum.splits)

text \<open>A result is prepared once, by the goroutine that holds the claim.\<close>

lemma prepare_reports:
  assumes "well_formed s" "rp_ExecutionClaimID x = c"
  shows "reports io r c x s (s\<lparr>sv_mutations := fst (mutation_Update now t w r (prepare_result x) (sv_mutations s))\<rparr>)"
proof -
  let ?P = "\<lambda>op. mu_ExecutionClaimID op = c \<and> mu_Phase op = mutationResultPrepared \<and> mu_Result op = Some x \<and>
    (\<exists>cur. (r, cur) \<in> recs s \<and> mu_ExecutionClaimID cur = c \<and> late cur)"
  have new: "?P (op\<lparr>mu_UpdatedAt := now\<rparr>)" if "map_of (ls_entries (sv_mutations s)) r = Some cur" "prepare_result x cur = Some op" for op cur
  proof -
    have "(r, cur) \<in> recs s" using that(1) by (auto simp: recs_def dest: map_of_SomeD)
    moreover have "mu_ExecutionClaimID cur = c \<and> late cur \<and> mu_ExecutionClaimID op = c \<and> mu_Phase op = mutationResultPrepared \<and> mu_Result op = Some x"
      using that(2) assms(2) by (auto simp: prepare_result_def samePreparedResult_def late_def split: if_splits mutationPhase.splits option.splits)
    ultimately show ?thesis by auto
  qed
  have "accounted io s k op \<or> k = r \<and> ?P op" if "(k, op) \<in> jrecs (fst (mutation_Update now t w r (prepare_result x) (sv_mutations s)))" for k op
  proof -
    from that update_recs [of now t w r "prepare_result x" "sv_mutations s"]
    consider "(k, op) \<in> recs s" | op' cur where "k = r" "op = op'\<lparr>mu_UpdatedAt := now\<rparr>"
      "map_of (ls_entries (sv_mutations s)) r = Some cur" "prepare_result x cur = Some op'"
      unfolding recs_jrecs by blast
    then show ?thesis
    proof cases
      case 1
      then show ?thesis using accounted_self by blast
    next
      case 2
      then show ?thesis using new [OF 2(3,4)] by blast
    qed
  qed
  then show ?thesis using update_well_formed [OF assms(1)] by (auto simp: reports_def recs_jrecs)
qed

lemma knows_after_update:
  assumes "well_formed s" "snd (mutation_Update now t w r f (sv_mutations s)) = Inr op"
  shows "knows (set (Step s (s\<lparr>sv_mutations := fst (mutation_Update now t w r f (sv_mutations s))\<rparr>) # h)) r op"
proof -
  have "mutation_Update now t w r f (sv_mutations s) = (fst (mutation_Update now t w r f (sv_mutations s)), Inr op)"
    using assms(2) by (metis prod.collapse)
  from knows_update [OF assms(1) this] show ?thesis by (rule knows_mono) simp
qed

lemma safe_submit:
  assumes "holds p = Some (r, c)" "rp_ExecutionClaimID x = c" "mu_RequestID op = r"
  shows "safe (justified L cf) (prepareAndSubmitResult op x) p h (\<lambda>_ _ _. True)"
proof -
  have "safe (justified L cf) (attempt (journal_update r (prepare_result x)) replayPreparedResult) p h (\<lambda>_ _ _. True)"
    unfolding attempt_def journal_update_def on_mutations_def safe_bindp safe.simps
  proof (intro allI impI exI [of _ Idle] conjI)
    fix io :: io and s
    assume s: "well_formed s"
    let ?U = "mutation_Update (io_now io) (io_stamp io) (io_write io) r (prepare_result x) (sv_mutations s)"
    show "step_allowed io s (s\<lparr>sv_mutations := fst ?U\<rparr>) p Idle"
      unfolding step_allowed_def using prepare_reports [OF s assms(2)] assms(1) by blast
    have "safe (justified L cf) (replayPreparedResult op') Idle (Step s (s\<lparr>sv_mutations := fst ?U\<rparr>) # h) (\<lambda>_ _ _. True)"
      if "snd ?U = Inr op'" for op'
      by (rule keeps_safe [OF keeps_replay [of r op' "{(r, op')}"]]) (simp_all only: all_known_insert all_known_empty knows_after_update [OF s that] insert_iff simp_thms)
    then show "safe (justified L cf) (case snd ?U of Inl e \<Rightarrow> err (ErrJournal e) | Inr v \<Rightarrow> ok v) Idle (Step s (s\<lparr>sv_mutations := fst ?U\<rparr>) # h)
        (\<lambda>x p h. safe (justified L cf) (case x of Inl e \<Rightarrow> Ret (Inl e) | Inr v \<Rightarrow> replayPreparedResult v) p h (\<lambda>_ _ _. True))"
      by (simp add: err_def ok_def split: sum.splits)
  qed
  then show ?thesis using assms(3) by (simp add: prepareAndSubmitResult_def err_def)
qed

lemma safe_failure:
  assumes "holds p = Some (r, c)"
  shows "safe (justified L cf) (submitFailure cf' r c e) p h (\<lambda>_ _ _. True)"
  unfolding submitFailure_def journal_get_def ignore_def
proof (rule safe_look)
  fix s assume s: "well_formed s"
  have claim: "rp_ExecutionClaimID (failure_result cf' c e) = c" by (simp add: failure_result_def)
  show "safe (justified L cf) (case mutation_Get r (sv_mutations s) of None \<Rightarrow> Ret () | Some op \<Rightarrow>
      if mu_ExecutionClaimID op \<noteq> c then Ret () else bindp (prepareAndSubmitResult op (failure_result cf' c e)) (\<lambda>_. Ret ())) p (Step s s # h) (\<lambda>_ _ _. True)"
    using safe_submit [OF assms claim journal_get_key [OF s], where L = L and cf = cf] by (simp add: safe_bindp split: option.splits)
qed

lemma safe_report:
  assumes "holds p = Some (r, mu_ExecutionClaimID op)" "mu_RequestID op = r"
  shows "safe (justified L cf) (report cf' r op req sb run) p h (\<lambda>_ _ _. True)"
proof -
  have submitted: "safe (justified L cf) (prepareAndSubmitResult op (completed_result (mu_ExecutionClaimID op) run files)) p h (\<lambda>_ _ _. True)" for files h
    by (rule safe_submit [OF assms(1) _ assms(2)]) (simp add: completed_result_def)
  have call: "call_allowed p (CallCollectResults b)" for b by (simp add: call_allowed_def)
  show ?thesis
    unfolding report_def ignore_def
    using submitted call safe_failure [OF assms(1), where L = L and cf = cf] by (simp add: safe_bindp split: option.splits sum.splits)
qed

text \<open>The runtime is called under the permit, on a request that the history approves.\<close>

definition approves :: "('l) golib_scheme \<Rightarrow> ServiceConfig \<Rightarrow> history \<Rightarrow> string \<Rightarrow> string \<Rightarrow> ExecutionPayload \<Rightarrow> bool" where
  "approves L cf h r c payload \<longleftrightarrow>
     (\<forall>workspaces sandbox. resolveRequestedWorkspaces cf (ep_RequestedAccess payload) = Inr workspaces \<longrightarrow>
        approved_run L cf (set h) r c (run_request cf payload workspaces sandbox))"

lemma approves_cons: "approves L cf h r c payload \<Longrightarrow> approves L cf (x # h) r c payload"
  unfolding approves_def by (auto intro: approved_run_mono [of L cf "set h"])

lemma safe_run_in:
  assumes "mu_RequestID op = r" "mu_ExecutionClaimID op = c" "approves L cf h r c payload"
  shows "safe (justified L cf) (run_in cf r op payload sb) (MayRun r c) h (\<lambda>_ _ _. True)"
proof (cases "resolveRequestedWorkspaces cf (ep_RequestedAccess payload)")
  case (Inl e)
  then show ?thesis using safe_failure [of "MayRun r c" r c L cf] assms(2) by (simp add: run_in_def Let_def)
next
  case (Inr ws)
  have "justified L cf (set h) (CallExecute r c (run_request cf payload ws sb))"
    using assms(3) Inr by (simp add: approves_def justified_def)
  moreover have "safe (justified L cf) (report cf r op req sb run) (MayReport r c) h' (\<lambda>_ _ _. True)" for req run h'
    by (rule safe_report) (use assms(1,2) in simp_all)
  moreover have "safe (justified L cf) (submitFailure cf r c e) (MayReport r c) h' (\<lambda>_ _ _. True)" for e h' by (rule safe_failure) simp
  ultimately show ?thesis
    using Inr assms(2) by (simp add: run_in_def Let_def call_allowed_def split: sum.splits)
qed

lemma safe_execute_started:
  assumes "mu_RequestID op = r" "mu_ExecutionClaimID op = c" "approves L cf h r c payload"
  shows "safe (justified L cf) (execute_started cf r op payload) (MayRun r c) h (\<lambda>_ _ _. True)"
  unfolding execute_started_def pending_status_def safe_bindp
proof (rule safe_on_pending [OF inbox_status])
  fix x s s'
  let ?h = "Step s s' # h"
  have ready: "approves L cf (y # z # ?h) r c payload" "approves L cf ?h r c payload" for y z
    using approves_cons assms(3) by blast+
  have fails: "safe (justified L cf) (submitFailure cf r c e) (MayRun r c) h' (\<lambda>_ _ _. True)" for e h' by (rule safe_failure) simp
  have plain: "call_allowed p (CallMaterialize ds)" "call_allowed p (CallCleanup b)" for p ds b by (simp_all add: call_allowed_def)
  have runs: "safe (justified L cf) (run_in cf r op payload (Some sb)) (MayRun r c) (y # z # ?h)
      (\<lambda>_ p h. safe (justified L cf) (Ask (CallCleanup sb) (\<lambda>_. Ret ())) p h (\<lambda>_ _ _. True))" for sb y z
    by (rule safe_mono [OF safe_run_in [OF assms(1,2) ready(1)]]) (simp add: plain)
  show "safe (justified L cf) (if cf_artifacts cf then
       Ask (CallMaterialize (ep_Attachments payload)) (\<lambda>a. case an_sandbox a of
           Inl e \<Rightarrow> submitFailure cf r (mu_ExecutionClaimID op) (ErrCall e)
         | Inr sb \<Rightarrow> bindp (run_in cf r op payload (Some sb)) (\<lambda>_. Ask (CallCleanup sb) (\<lambda>_. Ret ())))
     else if ep_Attachments payload \<noteq> [] then submitFailure cf r (mu_ExecutionClaimID op) ErrArtifactsUnavailable
     else run_in cf r op payload None) (MayRun r c) ?h (\<lambda>_ _ _. True)"
    using safe_run_in [OF assms(1,2) ready(2)] fails plain runs assms(2)
    by (auto simp add: safe_bindp simp del: safe.simps(3) split: sum.splits) (auto simp add: safe_bindp split: sum.splits)
qed

text \<open>The update that crosses the boundary, when its write succeeds.\<close>

lemma boundary_crossed:
  assumes "well_formed s" "c \<noteq> []" "snd (mutation_Update now t w r (start_boundary c) (sv_mutations s)) = Inr op"
  defines "s' \<equiv> s\<lparr>sv_mutations := fst (mutation_Update now t w r (start_boundary c) (sv_mutations s))\<rparr>"
  shows "starts r c s s'" "on_disk r op s'" "mu_RequestID op = r" "mu_ExecutionClaimID op = c" "mu_Phase op = mutationRuntimeStarted"
proof -
  let ?es = "ls_entries (sv_mutations s)"
  from assms(3) obtain cur r0 where v: "map_of ?es r = Some cur" "start_boundary c cur = Some r0" "mu_RequestID r0 = r" "op = r0\<lparr>mu_UpdatedAt := now\<rparr>"
    "snd (save_or_restore (mutation_write t w) (AList.update r op ?es) (sv_mutations s)) = Inr ()"
    "fst (mutation_Update now t w r (start_boundary c) (sv_mutations s)) = fst (save_or_restore (mutation_write t w) (AList.update r op ?es) (sv_mutations s))"
    by (auto simp: mutation_Update_def Let_def split: option.splits sum.splits if_splits prod.splits)
  from v(2) have cur: "mu_ExecutionClaimID cur = c" "mu_Phase cur = mutationClaimPrepared" "r0 = cur\<lparr>mu_Phase := mutationRuntimeStarted\<rparr>"
    by (auto simp: start_boundary_def split: if_splits)
  show op: "mu_RequestID op = r" "mu_ExecutionClaimID op = c" "mu_Phase op = mutationRuntimeStarted" using v(3,4) cur by auto
  have w: "w = WriteDone" using v(5) by (cases w) (auto simp: save_or_restore_def mutation_write_def write_snapshot_def Let_def)
  then have saved: "ls_entries (sv_mutations s') = AList.update r op ?es"
    "\<exists>snap. ls_file (sv_mutations s') = Some (Some snap) \<and> sp_Entries snap = AList.update r op ?es"
    using v(6) by (simp_all add: s'_def save_or_restore_def mutation_write_def write_snapshot_def Let_def)
  then show "on_disk r op s'" by (auto simp: on_disk_def AList.update_conv')
  have "distinct (map fst (AList.update r op ?es))" using journal_keyed [OF assms(1)] by (rule distinct_update)
  then have "(r, op') \<in> set (AList.update r op ?es) \<Longrightarrow> op' = op" for op'
    by (auto simp: AList.update_conv' dest!: map_of_is_SomeI)
  then have only: "(r, op') \<in> recs s' \<Longrightarrow> op' = op" for op' using saved by (auto simp: recs_def)
  have "(r, cur) \<in> recs s" using v(1) by (auto simp: recs_def dest: map_of_SomeD)
  then show "starts r c s s'" unfolding starts_def using only op cur assms(2) by blast
qed

lemma safe_boundary:
  assumes "c \<noteq> []"
    and started: "\<And>op h'. mu_RequestID op = r \<Longrightarrow> mu_ExecutionClaimID op = c \<Longrightarrow> set h \<subseteq> set h' \<Longrightarrow>
      (\<exists>s s' op'. Step s s' \<in> set h' \<and> on_disk r op' s' \<and> mu_ExecutionClaimID op' = c \<and> mu_Phase op' = mutationRuntimeStarted) \<Longrightarrow>
      safe (justified L cf) (k op) (MayRun r c) h' (\<lambda>_ _ _. True)"
  shows "safe (justified L cf) (bindp (journal_update r (start_boundary c)) (\<lambda>x. case x of Inl _ \<Rightarrow> Ret () | Inr op \<Rightarrow> k op)) Idle h (\<lambda>_ _ _. True)"
  unfolding journal_update_def on_mutations_def safe_bindp safe.simps
proof (intro allI impI)
  fix io :: io and s
  assume s: "well_formed s"
  let ?U = "mutation_Update (io_now io) (io_stamp io) (io_write io) r (start_boundary c) (sv_mutations s)"
  let ?s = "s\<lparr>sv_mutations := fst ?U\<rparr>"
  have ordinary: "ordinary io s ?s" by (rule update_calm [OF s tame_updates(3)])
  let ?k = "\<lambda>p. safe (justified L cf) (case snd ?U of Inl e \<Rightarrow> err (ErrJournal e) | Inr v \<Rightarrow> ok v) p (Step s ?s # h)
    (\<lambda>x p h. safe (justified L cf) (case x of Inl _ \<Rightarrow> Ret () | Inr op \<Rightarrow> k op) p h (\<lambda>_ _ _. True))"
  show "\<exists>p'. step_allowed io s ?s Idle p' \<and> ?k p'"
  proof (cases "snd ?U")
    case (Inl e)
    then have "?k Idle" by (simp add: err_def)
    with ordinary show ?thesis by (auto simp: step_allowed_def)
  next
    case (Inr op)
    note crossed = boundary_crossed [OF s assms(1) Inr]
    have "safe (justified L cf) (k op) (MayRun r c) (Step s ?s # h) (\<lambda>_ _ _. True)"
      using crossed(2-5) by (intro started) auto
    then have "?k (MayRun r c)" using Inr by (simp add: ok_def)
    moreover have "step_allowed io s ?s Idle (MayRun r c)" using ordinary crossed(1) by (auto simp: step_allowed_def)
    ultimately show ?thesis by blast
  qed
qed

lemma safe_execute_claimed:
  assumes "knows (set h) r op" "mu_Phase op = mutationClaimPrepared" "mu_ExecutionClaimID op \<noteq> []" "mu_ApprovedNotice op = Some b"
    "\<exists>s s'. Step s s' \<in> set h \<and> authority_current op (sv_authority s) = Inr ()"
    "\<exists>s s' n. Step s s' \<in> set h \<and> notice_current L op (PendingStore_Get r (sv_pending s)) = Inr n"
  shows "safe (justified L cf) (execute_claimed L cf r op b) Idle h (\<lambda>_ _ _. True)"
proof -
  let ?c = "mu_ExecutionClaimID op"
  have go: "safe (justified L cf) (bindp (journal_update r (start_boundary ?c)) (\<lambda>x. case x of Inl _ \<Rightarrow> Ret () | Inr op' \<Rightarrow> execute_started cf r op' payload))
      Idle h' (\<lambda>_ _ _. True)"
    if "set h \<subseteq> set h'" "Heard (CallFetchExecution r) a1 \<in> set h'" "an_execution a1 = Inr (Some payload)"
      "validateExecutionPayloadAgainstApprovedBinding L b payload = Inr ()"
      "Heard (CallMarkRunning r ?c) a2 \<in> set h'" "an_mutation a2 = Inr m" "mutationStatus m r = Inr StatusRunning" for h' a1 a2 m payload
  proof (rule safe_boundary [OF assms(3)])
    fix op' :: mutationRecord and h''
    assume op': "mu_RequestID op' = r" "mu_ExecutionClaimID op' = ?c" and sub: "set h' \<subseteq> set h''"
      and disk: "\<exists>s s' op'. Step s s' \<in> set h'' \<and> on_disk r op' s' \<and> mu_ExecutionClaimID op' = ?c \<and> mu_Phase op' = mutationRuntimeStarted"
    have "set h \<subseteq> set h''" using that(1) sub by blast
    then have seen: "knows (set h'') r op" "\<exists>s s'. Step s s' \<in> set h'' \<and> authority_current op (sv_authority s) = Inr ()"
      "\<exists>s s' n. Step s s' \<in> set h'' \<and> notice_current L op (PendingStore_Get r (sv_pending s)) = Inr n"
      "Heard (CallFetchExecution r) a1 \<in> set h''" "Heard (CallMarkRunning r ?c) a2 \<in> set h''"
      using assms(5,6) knows_mono [OF assms(1)] that(2,5) sub by blast+
    have "approves L cf h'' r ?c payload"
      unfolding approves_def approved_run_def using seen disk assms(2,4) that(3,4,6,7) by blast
    then show "safe (justified L cf) (execute_started cf r op' payload) (MayRun r ?c) h'' (\<lambda>_ _ _. True)"
      by (rule safe_execute_started [OF op'])
  qed
  have plain: "call_allowed Idle (CallFetchExecution r)" "call_allowed Idle (CallMarkRunning r ?c)" by (simp_all add: call_allowed_def)
  have mark: "safe (justified L cf) (Ask (CallMarkRunning r ?c) (\<lambda>a. case an_mutation a of Inl _ \<Rightarrow> Ret () | Inr m \<Rightarrow>
      if mutationStatus m r \<noteq> Inr StatusRunning then Ret ()
      else bindp (journal_update r (start_boundary ?c)) (\<lambda>updated. case updated of Inl _ \<Rightarrow> Ret () | Inr op' \<Rightarrow> execute_started cf r op' payload)))
      Idle (Heard (CallFetchExecution r) a1 # Called (CallFetchExecution r) # h) (\<lambda>_ _ _. True)"
    if "an_execution a1 = Inr (Some payload)" "validateExecutionPayloadAgainstApprovedBinding L b payload = Inr ()" for a1 payload
    unfolding safe.simps after_call.simps
  proof (intro conjI allI plain plain_calls)
    fix a2
    let ?h = "Heard (CallMarkRunning r ?c) a2 # Called (CallMarkRunning r ?c) # Heard (CallFetchExecution r) a1 # Called (CallFetchExecution r) # h"
    have *: "safe (justified L cf) (bindp (journal_update r (start_boundary ?c)) (\<lambda>x. case x of Inl _ \<Rightarrow> Ret () | Inr op' \<Rightarrow> execute_started cf r op' payload))
        Idle ?h (\<lambda>_ _ _. True)" if "an_mutation a2 = Inr m" "mutationStatus m r = Inr StatusRunning" for m
      by (rule go [OF _ _ \<open>an_execution a1 = Inr (Some payload)\<close> \<open>validateExecutionPayloadAgainstApprovedBinding L b payload = Inr ()\<close> _ that]) auto
    show "safe (justified L cf) (case an_mutation a2 of Inl _ \<Rightarrow> Ret () | Inr m \<Rightarrow>
      if mutationStatus m r \<noteq> Inr StatusRunning then Ret ()
      else bindp (journal_update r (start_boundary ?c)) (\<lambda>updated. case updated of Inl _ \<Rightarrow> Ret () | Inr op' \<Rightarrow> execute_started cf r op' payload))
      Idle ?h (\<lambda>_ _ _. True)"
      using * by (simp split: sum.splits)
  qed
  show ?thesis
    unfolding execute_claimed_def safe.simps(3) after_call.simps
    using plain(1) mark by (simp del: safe.simps(3) split: sum.splits option.splits)
qed

lemma safe_still_approved:
  assumes "\<And>e h'. Q (Inl e) p h'" "\<And>s1 s2 rec. authority_current op (sv_authority s1) = Inr () \<Longrightarrow>
      notice_current L op (PendingStore_Get (mu_RequestID op) (sv_pending s2)) = Inr rec \<Longrightarrow> Q (Inr rec) p (Step s2 s2 # Step s1 s1 # h)"
  shows "safe J (still_approved L op) p h Q"
  unfolding still_approved_def attempt_def requireCurrentApprovalAuthority_def requireCurrentApprovedNotice_def pending_get_def safe_bindp
proof (rule safe_look)
  fix s1
  have "Q (notice_current L op (PendingStore_Get (mu_RequestID op) (sv_pending s2))) p (Step s2 s2 # Step s1 s1 # h)"
    if "authority_current op (sv_authority s1) = Inr ()" for s2
    using assms that by (cases "notice_current L op (PendingStore_Get (mu_RequestID op) (sv_pending s2))") auto
  then show "safe J (Ret (authority_current op (sv_authority s1))) p (Step s1 s1 # h)
      (\<lambda>x p h. safe J (case x of Inl e \<Rightarrow> Ret (Inl e) | Inr v \<Rightarrow> look (\<lambda>s. PendingStore_Get (mu_RequestID op) (sv_pending s)) (\<lambda>found. Ret (notice_current L op found))) p h Q)"
    using assms(1) by (cases "authority_current op (sv_authority s1)") (auto intro: safe_look)
qed

lemma safe_execute: "safe (justified L cf) (execute L cf r) Idle h (\<lambda>_ _ _. True)"
  unfolding execute_def journal_get_def
proof (rule safe_look)
  fix s assume s: "well_formed s"
  have claimed: "safe (justified L cf) (bindp (still_approved L op) (\<lambda>checked. case checked of Inl _ \<Rightarrow> Ret () | Inr _ \<Rightarrow>
      case mu_ApprovedNotice op of None \<Rightarrow> Ret () | Some binding \<Rightarrow> execute_claimed L cf r op binding)) Idle (Step s s # h) (\<lambda>_ _ _. True)"
    if op: "mutation_Get r (sv_mutations s) = Some op" "mu_Phase op = mutationClaimPrepared" "mu_ExecutionClaimID op \<noteq> []" for op
  proof -
    have id: "mu_RequestID op = r" by (rule journal_get_key [OF s op(1)])
    have known: "knows (set (x # y # Step s s # h)) r op" for x y by (rule knows_mono [OF knows_get [OF s op(1), of s]]) simp
    have "safe (justified L cf) (execute_claimed L cf r op b) Idle (Step s2 s2 # Step s1 s1 # Step s s # h) (\<lambda>_ _ _. True)"
      if "mu_ApprovedNotice op = Some b" "authority_current op (sv_authority s1) = Inr ()" "notice_current L op (PendingStore_Get r (sv_pending s2)) = Inr n" for b s1 s2 n
      using known op(2,3) that by (intro safe_execute_claimed) auto
    then show ?thesis
      unfolding safe_bindp by (intro safe_still_approved) (auto simp: id split: option.splits)
  qed
  have replay: "safe (justified L cf) (ignore (replayPreparedResult op)) Idle (Step s s # h) (\<lambda>_ _ _. True)"
    if "mutation_Get r (sv_mutations s) = Some op" for op
    using keeps_safe [OF keeps_ignore [OF keeps_replay [of r op "{(r, op)}"]], where L = L and cf = cf and h = "Step s s # h"]
      knows_mono [OF knows_get [OF s that, of s]] by simp
  show "safe (justified L cf) (case mutation_Get r (sv_mutations s) of None \<Rightarrow> Ret () | Some op \<Rightarrow>
       if mu_Phase op = mutationResultPrepared then ignore (replayPreparedResult op)
       else if mu_Phase op \<noteq> mutationClaimPrepared \<or> mu_ExecutionClaimID op = [] then Ret ()
       else bindp (still_approved L op) (\<lambda>checked. case checked of Inl _ \<Rightarrow> Ret () | Inr _ \<Rightarrow>
         case mu_ApprovedNotice op of None \<Rightarrow> Ret () | Some binding \<Rightarrow> execute_claimed L cf r op binding)) Idle (Step s s # h) (\<lambda>_ _ _. True)"
    using claimed replay by (simp split: option.splits)
qed

lemma safe_goroutine: "safe (justified L cf) (execution_goroutine L cf r) Idle h (\<lambda>_ _ _. True)"
proof -
  have "safe (justified L cf) (change (\<lambda>s. s\<lparr>sv_active := AList.delete r (sv_active s)\<rparr>) (Ret ())) p h (\<lambda>_ _ _. True)" for p h
    unfolding change_def by (rule safe_calm) (auto intro!: other_calm simp: well_formed_def)
  then show ?thesis
    unfolding execution_goroutine_def safe_bindp by (intro safe_mono [OF safe_execute])
qed

section \<open>The system of the receiver\<close>

lemma restart_inbox: "inbox_inv st \<Longrightarrow> inbox_inv (fst (restarted (pending_load readable t w) st))"
proof -
  assume inv: "inbox_inv st"
  let ?R = "\<lambda>st :: PendingStore. set (ls_entries st) \<union> (case ls_file st of Some (Some snap) \<Rightarrow> set (sp_Entries snap) | _ \<Rightarrow> {})"
  have kept: "x \<in> set (copy_into (pending_kept (sp_Entries snap)) []) \<Longrightarrow> x \<in> set (sp_Entries snap)" for x and snap :: "PendingRecord snapshot"
    using set_copy_into [of "pending_kept (sp_Entries snap)" "[]"] by (auto simp: pending_kept_def)
  have "?R (fst (restarted (pending_load readable t w) st)) \<subseteq> ?R st"
    by (cases w) (auto simp: restarted_def pending_load_def pending_write_def write_snapshot_def Let_def split: option.splits dest: kept)
  with inv show ?thesis unfolding inbox_inv_def by blast
qed

lemma restart_journal:
  assumes "journal_inv st"
  shows "journal_inv (fst (restarted (mutation_Reload readable t w) st))" "jrecs (fst (restarted (mutation_Reload readable t w) st)) \<subseteq> jrecs st"
proof -
  have empty: "journal_inv (st\<lparr>ls_entries := []\<rparr>)" "jrecs (st\<lparr>ls_entries := []\<rparr>) \<subseteq> jrecs st"
    using assms by (auto simp: journal_inv_def journal_ok_def keyed_def jrecs_def)
  show "journal_inv (fst (restarted (mutation_Reload readable t w) st))"
    unfolding restarted_def by (rule journal_step_inv [OF j_reload empty(1)])
  show "jrecs (fst (restarted (mutation_Reload readable t w) st)) \<subseteq> jrecs st"
    unfolding restarted_def using reload_recs [OF empty(1)] empty(2) by blast
qed

lemma restart_service:
  assumes "well_formed s" "NewService L io s = Some s'"
  shows "well_formed s' \<and> recs s' \<subseteq> recs s"
proof -
  have "sv_pending s' = fst (restarted (pending_load (io_readable io) (io_stamp io) (io_write io)) (sv_pending s))"
    "sv_mutations s' = fst (restarted (mutation_Reload (io_readable io) (io_stamp io) (io_write io)) (sv_mutations s))"
    using assms(2) by (auto simp: NewService_def Let_def case_prod_beta split: if_splits)
  with assms(1) restart_inbox restart_journal show ?thesis by (simp add: well_formed_def recs_jrecs)
qed

lemma entries_are_safe: "p \<in> entry_points L cf \<Longrightarrow> safe (justified L cf) p Idle [] (\<lambda>_ _ _. True)"
  unfolding entry_points_def
  by (elim UnE rangeE singletonE)
    (auto intro!: keeps_safe [where K = "{}"] keeps_ignore keeps_Run keeps_heartbeat keeps_AllowOnce keeps_Approve keeps_Deny keeps_Inspect
      keeps_ApprovalGrants keeps_RevokeApprovalGrant)

interpretation receiver: permitted_programs "entry_points L cf" "execution_goroutine L cf" "NewService L" "justified L cf"
  for L :: "('l) golib_scheme" and cf :: ServiceConfig
  by unfold_locales (auto intro: justified_mono entries_are_safe safe_goroutine dest: restart_service)

abbreviation receiver_step :: "('l) golib_scheme \<Rightarrow> ServiceConfig \<Rightarrow> system \<Rightarrow> system \<Rightarrow> bool" where
  "receiver_step L cf \<equiv> sys_step (entry_points L cf) (execution_goroutine L cf) (NewService L)"

end
