(* ===== verification/Approval_Theorems.thy ===== *)
theory Approval_Theorems
  imports Approval_Store
begin

text \<open>
  What the standing approvals promise: the invariant of the store over every operation and every
  write outcome, what a match means, revocation, the fixed conversation window, and the file.
\<close>

section \<open>Normal forms\<close>

definition access_norm :: "RequestedAccess \<Rightarrow> bool" where
  "access_norm x \<longleftrightarrow>
     TrimSpace (ra_WorkspaceAlias x) = ra_WorkspaceAlias x \<and> validApprovalValue (ra_WorkspaceAlias x) 200 False \<and>
     \<not> ContainsAny (ra_WorkspaceAlias x) [CHR ''/'', CHR 0x5C] \<and>
     (ra_Mode x = PermissionReadOnly \<or> ra_Mode x = PermissionGuardedWrite)"

lemma normalize_accesses_norm:
  "normalize_accesses seen xs = Inr ys \<Longrightarrow>
   list_all access_norm ys \<and> distinct (map ra_WorkspaceAlias ys) \<and> set seen \<inter> ra_WorkspaceAlias ` set ys = {}"
proof (induction xs arbitrary: seen ys)
  case (Cons x xs)
  let ?al = "TrimSpace (ra_WorkspaceAlias x)"
  from Cons.prems obtain zs where zs: "normalize_accesses (?al # seen) xs = Inr zs" "ys = x\<lparr>ra_WorkspaceAlias := ?al\<rparr> # zs"
    by (auto simp: Let_def split: if_splits sum.splits)
  from Cons.IH [OF zs(1)] Cons.prems zs show ?case
    by (auto simp: Let_def access_norm_def split: if_splits)
qed simp

lemma normalize_accesses_id:
  "list_all access_norm xs \<Longrightarrow> distinct (map ra_WorkspaceAlias xs) \<Longrightarrow> set seen \<inter> ra_WorkspaceAlias ` set xs = {} \<Longrightarrow>
   normalize_accesses seen xs = Inr xs"
proof (induction xs arbitrary: seen)
  case (Cons x xs)
  have "normalize_accesses (ra_WorkspaceAlias x # seen) xs = Inr xs"
    by (rule Cons.IH) (use Cons.prems in auto)
  with Cons.prems show ?case by (auto simp: Let_def access_norm_def)
qed simp

definition scope_norm :: "ApprovalAccessScope \<Rightarrow> bool" where
  "scope_norm s \<longleftrightarrow>
     0 \<le> sc_MaxAttachmentCount s \<and> sc_MaxAttachmentCount s \<le> int MaxAttachments \<and>
     0 \<le> sc_MaxAttachmentBytes s \<and> sc_MaxAttachmentBytes s \<le> MaxRequestPayloadBytes \<and>
     (sc_MaxAttachmentCount s = 0 \<longrightarrow> sc_MaxAttachmentBytes s = 0) \<and>
     list_all access_norm (sc_RequestedAccess s) \<and> distinct (map ra_WorkspaceAlias (sc_RequestedAccess s)) \<and>
     sorted (map ra_WorkspaceAlias (sc_RequestedAccess s))"

lemma normalize_scope_norm: "normalizeApprovalAccessScope s = Inr s' \<Longrightarrow> scope_norm s'"
  by (auto simp: normalizeApprovalAccessScope_def scope_norm_def list_all_iff distinct_map
      dest!: normalize_accesses_norm split: if_splits sum.splits)

lemma normalize_scope_id: "scope_norm s \<Longrightarrow> normalizeApprovalAccessScope s = Inr s"
  using normalize_accesses_id [of "sc_RequestedAccess s" "[]"] sort_key_id_if_sorted [of ra_WorkspaceAlias "sc_RequestedAccess s"]
  by (auto simp: normalizeApprovalAccessScope_def scope_norm_def)

lemma normalize_authority_id: "normalizeApprovalAuthority a = Inr a' \<Longrightarrow> normalizeApprovalAuthority a' = Inr a'"
  by (auto simp: normalizeApprovalAuthority_def Let_def split: if_splits)

text \<open>A normalized candidate.\<close>

definition cand_norm :: "bool \<Rightarrow> ApprovalCandidate \<Rightarrow> bool" where
  "cand_norm r c \<longleftrightarrow>
     TrimSpace (ca_RequesterMemberID c) = ca_RequesterMemberID c \<and>
     TrimSpace (ca_RequesterDisplayName c) = ca_RequesterDisplayName c \<and>
     TrimSpace (ca_ConversationID c) = ca_ConversationID c \<and>
     (ca_RequesterMemberID c = [] \<and> \<not> r \<or> validApprovalValue (ca_RequesterMemberID c) 200 False) \<and>
     (ca_ConversationID c = [] \<or> validApprovalValue (ca_ConversationID c) 200 False) \<and>
     (ca_RequesterDisplayName c = [] \<or> validApprovalValue (ca_RequesterDisplayName c) 200 True) \<and>
     scope_norm (ca_AccessScope c)"

lemma normalize_candidate_norm: "normalizeApprovalCandidate c r = Inr c' \<Longrightarrow> cand_norm r c'"
  by (auto simp: normalizeApprovalCandidate_def cand_norm_def Let_def dest: normalize_scope_norm split: if_splits sum.splits)

lemma normalize_candidate_iff: "normalizeApprovalCandidate c r = Inr c \<longleftrightarrow> cand_norm r c"
proof
  assume "cand_norm r c"
  then show "normalizeApprovalCandidate c r = Inr c"
    by (auto simp: normalizeApprovalCandidate_def cand_norm_def Let_def normalize_scope_id)
qed (rule normalize_candidate_norm)

section \<open>Coverage of scopes\<close>

lemma allowed_modes_Some:
  "distinct (map ra_WorkspaceAlias xs) \<Longrightarrow>
   allowed_modes xs a = Some m \<longleftrightarrow> (\<exists>x\<in>set xs. ra_WorkspaceAlias x = a \<and> ra_Mode x = m)"
proof -
  assume "distinct (map ra_WorkspaceAlias xs)"
  then have "distinct (map fst (rev (map (\<lambda>x. (ra_WorkspaceAlias x, ra_Mode x)) xs)))"
    by (simp add: rev_map [symmetric] comp_def)
  then show ?thesis by (auto simp: allowed_modes_def map_of_eq_Some_iff)
qed

text \<open>What coverage means, on normalized scopes.\<close>

definition scope_le :: "ApprovalAccessScope \<Rightarrow> ApprovalAccessScope \<Rightarrow> bool" where
  "scope_le r c \<longleftrightarrow>
     sc_MaxAttachmentCount r \<le> sc_MaxAttachmentCount c \<and> sc_MaxAttachmentBytes r \<le> sc_MaxAttachmentBytes c \<and>
     (\<forall>x\<in>set (sc_RequestedAccess r). \<exists>y\<in>set (sc_RequestedAccess c).
        ra_WorkspaceAlias y = ra_WorkspaceAlias x \<and>
        (ra_Mode x = PermissionGuardedWrite \<longrightarrow> ra_Mode y = PermissionGuardedWrite))"

lemma allowed_modes_case:
  "distinct (map ra_WorkspaceAlias xs) \<Longrightarrow>
   (case allowed_modes xs a of None \<Rightarrow> False | Some m \<Rightarrow> P m) \<longleftrightarrow>
   (\<exists>y\<in>set xs. ra_WorkspaceAlias y = a \<and> P (ra_Mode y))"
proof -
  assume d: "distinct (map ra_WorkspaceAlias xs)"
  have "(case allowed_modes xs a of None \<Rightarrow> False | Some m \<Rightarrow> P m) \<longleftrightarrow> (\<exists>m. allowed_modes xs a = Some m \<and> P m)"
    by (simp split: option.split)
  also have "\<dots> \<longleftrightarrow> (\<exists>y\<in>set xs. ra_WorkspaceAlias y = a \<and> P (ra_Mode y))"
    by (auto simp: allowed_modes_Some [OF d])
  finally show ?thesis .
qed

lemma rank_le: "approvalPermissionRank m' \<le> approvalPermissionRank m \<longleftrightarrow> (m' = PermissionGuardedWrite \<longrightarrow> m = PermissionGuardedWrite)"
  by (simp add: approvalPermissionRank_def)

lemma approvalScopeCovers_iff:
  "approvalScopeCovers c r \<longleftrightarrow>
   (\<exists>c' r'. normalizeApprovalAccessScope c = Inr c' \<and> normalizeApprovalAccessScope r = Inr r' \<and> scope_le r' c')"
proof -
  have "distinct (map ra_WorkspaceAlias (sc_RequestedAccess c'))" if "normalizeApprovalAccessScope c = Inr c'" for c'
    using normalize_scope_norm [OF that] by (simp add: scope_norm_def)
  then show ?thesis
    by (auto simp: approvalScopeCovers_def scope_le_def list_all_iff allowed_modes_case rank_le not_less
        split: sum.split)
qed

lemma scope_le_refl: "scope_le s s"
  by (auto simp: scope_le_def)

lemma scope_le_trans: "scope_le a b \<Longrightarrow> scope_le b c \<Longrightarrow> scope_le a c"
  unfolding scope_le_def by (elim conjE, intro conjI) (auto, metis)


section \<open>The invariant of the store\<close>

text \<open>SHA-256 digests are 32 bytes.\<close>

definition sha256_32 :: "('l) golib_scheme \<Rightarrow> bool" where
  "sha256_32 L \<longleftrightarrow> (\<forall>x. length (sha256_sum L x) = 32)"

lemma validApprovalGrantID_stable: "sha256_32 L \<Longrightarrow> validApprovalGrantID (stableApprovalGrantID L a l c)"
  by (simp add: validApprovalGrantID_def stableApprovalGrantID_def sha256_hex_def sha256_32_def HasPrefix_iff)

text \<open>
  What \<open>load\<close> accepts: keys are distinct, every grant is valid and lies under its identifier, every
  tombstone is well formed, and no identifier is both granted and revoked.
\<close>

definition store_ok :: "('l) golib_scheme \<Rightarrow> (string \<times> ApprovalGrant) list \<Rightarrow> (string \<times> ApprovalRevocation) list \<Rightarrow> bool" where
  "store_ok L grants revs \<longleftrightarrow>
     distinct (map fst grants) \<and> distinct (map fst revs) \<and> list_all (load_grant_ok L) grants \<and>
     list_all (load_revocation_ok grants) revs"

text \<open>A snapshot on disk is one of this version with a valid content.\<close>

fun file_ok :: "('l) golib_scheme \<Rightarrow> approvalSnapshot option option \<Rightarrow> bool" where
  "file_ok L None = True"
| "file_ok L (Some None) = False"
| "file_ok L (Some (Some s)) \<longleftrightarrow> sn_Version s = approvalStoreVersion \<and> store_ok L (sn_Grants s) (sn_Revocations s)"

definition approval_inv :: "('l) golib_scheme \<Rightarrow> ApprovalStore \<Rightarrow> bool" where
  "approval_inv L st \<longleftrightarrow> store_ok L (st_grants st) (st_revocations st) \<and> file_ok L (st_file st)"

text \<open>What a valid grant is.\<close>

fun shape_ok :: "ApprovalLevel \<Rightarrow> ApprovalGrant \<Rightarrow> bool" where
  "shape_ok ApprovalLevelConversation30m g \<longleftrightarrow>
     gr_RequesterMemberID g \<noteq> [] \<and> gr_ConversationID g \<noteq> [] \<and>
     gr_ExpiresAt g = Some (gr_CreatedAt g + ApprovalConversationWindow)"
| "shape_ok ApprovalLevelTeammateAlways g \<longleftrightarrow>
     gr_RequesterMemberID g \<noteq> [] \<and> gr_ConversationID g = [] \<and> gr_ExpiresAt g = None"
| "shape_ok ApprovalLevelAllAlways g \<longleftrightarrow>
     gr_RequesterMemberID g = [] \<and> gr_RequesterDisplayName g = [] \<and> gr_ConversationID g = [] \<and> gr_ExpiresAt g = None"
| "shape_ok _ g \<longleftrightarrow> False"

definition grant_ok :: "('l) golib_scheme \<Rightarrow> ApprovalGrant \<Rightarrow> bool" where
  "grant_ok L g \<longleftrightarrow>
     normalizeApprovalAuthority (grant_authority g) = Inr (grant_authority g) \<and> gr_CreatedAt g \<noteq> zero_time \<and>
     cand_norm (gr_Level g \<noteq> ApprovalLevelAllAlways) (grant_candidate g) \<and> shape_ok (gr_Level g) g \<and>
     gr_GrantID g = stableApprovalGrantID L (grant_authority g) (gr_Level g) (grant_candidate g) \<and>
     validApprovalGrantID (gr_GrantID g)"

lemma same_scope_eq: "sameApprovalAccessScope l r \<longleftrightarrow> l = r"
  by (cases l; cases r) (auto simp: sameApprovalAccessScope_def)

lemma candidate_eq:
  "ca_RequesterMemberID c = gr_RequesterMemberID g \<Longrightarrow> ca_RequesterDisplayName c = gr_RequesterDisplayName g \<Longrightarrow>
   ca_ConversationID c = gr_ConversationID g \<Longrightarrow> ca_AccessScope c = gr_AccessCeiling g \<Longrightarrow> c = grant_candidate g"
  by (cases c) (simp add: grant_candidate_def)

lemma validate_iff: "validateApprovalGrant L g = Inr () \<longleftrightarrow> grant_ok L g"
proof (cases "cand_norm (gr_Level g \<noteq> ApprovalLevelAllAlways) (grant_candidate g)")
  case True
  then have "normalizeApprovalCandidate (grant_candidate g) (gr_Level g \<noteq> ApprovalLevelAllAlways) = Inr (grant_candidate g)"
    by (simp add: normalize_candidate_iff)
  then show ?thesis using True
    by (cases "gr_Level g") (simp_all add: validateApprovalGrant_def grant_ok_def same_scope_eq standing_def, auto simp: grant_candidate_def)
next
  case False
  then have "normalizeApprovalCandidate (grant_candidate g) (gr_Level g \<noteq> ApprovalLevelAllAlways) \<noteq> Inr (grant_candidate g)"
    by (simp add: normalize_candidate_iff)
  then show ?thesis using False
    by (auto simp: validateApprovalGrant_def grant_ok_def same_scope_eq dest: candidate_eq split: sum.splits if_splits)
qed

lemma grant_ok_new:
  assumes "normalizeApprovalAuthority a' = Inr a" "standing level" "standing_candidate level c' = Inr c" "now \<noteq> zero_time" "sha256_32 L"
  shows "grant_ok L (newApprovalGrant L a level c now)"
proof -
  from assms(3) have c: "cand_norm True c" "level = ApprovalLevelConversation30m \<Longrightarrow> ca_ConversationID c \<noteq> []"
    by (auto simp: standing_candidate_def dest: normalize_candidate_norm split: sum.splits if_splits)
  have a: "normalizeApprovalAuthority \<lparr>au_Fingerprint = au_Fingerprint a, au_RecipientAgentID = au_RecipientAgentID a\<rparr> = Inr a"
    using normalize_authority_id [OF assms(1)] by (cases a) simp
  have m: "ca_RequesterMemberID c \<noteq> []" using c(1) by (auto simp: cand_norm_def validApprovalValue_def)
  have "validApprovalGrantID (stableApprovalGrantID L a level x)" for x by (rule validApprovalGrantID_stable, fact)
  then show ?thesis using assms(2,4) a c m
    by (cases level)
      (auto simp: grant_ok_def newApprovalGrant_def grant_authority_def grant_candidate_def cand_norm_def
        stableApprovalGrantID_def grant_payload_def standing_def)
qed

text \<open>Replacing the ceiling and the display name of a grant keeps it valid.\<close>

lemma cand_norm_widen:
  "cand_norm r c \<Longrightarrow> cand_norm r c' \<Longrightarrow>
   cand_norm r (c\<lparr>ca_AccessScope := ca_AccessScope c', ca_RequesterDisplayName := ca_RequesterDisplayName c'\<rparr>)"
  by (simp add: cand_norm_def)

lemma grant_ok_widen:
  assumes "grant_ok L g" "grant_ok L g'" "gr_Level g' = gr_Level g"
  shows "grant_ok L (g\<lparr>gr_AccessCeiling := gr_AccessCeiling g', gr_RequesterDisplayName := gr_RequesterDisplayName g'\<rparr>)"
proof -
  let ?w = "g\<lparr>gr_AccessCeiling := gr_AccessCeiling g', gr_RequesterDisplayName := gr_RequesterDisplayName g'\<rparr>"
  have c: "grant_candidate ?w = (grant_candidate g)\<lparr>ca_AccessScope := ca_AccessScope (grant_candidate g'),
      ca_RequesterDisplayName := ca_RequesterDisplayName (grant_candidate g')\<rparr>" and a: "grant_authority ?w = grant_authority g"
    by (simp_all add: grant_candidate_def grant_authority_def)
  have "stableApprovalGrantID L x l (c\<lparr>ca_AccessScope := s, ca_RequesterDisplayName := n\<rparr>) = stableApprovalGrantID L x l c"
    for x l c s n by (simp add: stableApprovalGrantID_def grant_payload_def)
  moreover have "shape_ok (gr_Level g) ?w" using assms by (cases "gr_Level g") (simp_all add: grant_ok_def)
  ultimately show ?thesis using assms cand_norm_widen unfolding grant_ok_def c a by auto
qed

section \<open>Identifiers\<close>

lemma validApprovalValue_no_nul: "validApprovalValue v n sp \<Longrightarrow> CHR 0x00 \<notin> set v"
  using no_nul [of v] by (auto simp: validApprovalValue_def list_ex_iff)

lemma nul_split [simp]:
  "CHR 0x00 \<notin> set a \<Longrightarrow> CHR 0x00 \<notin> set b \<Longrightarrow> a @ CHR 0x00 # s = b @ CHR 0x00 # t \<longleftrightarrow> a = b \<and> s = t"
proof (induction a arbitrary: b)
  case Nil
  then show ?case by (cases b) auto
next
  case (Cons c a)
  then show ?case by (cases b) auto
qed

lemma level_string_inj: "standing l \<Longrightarrow> standing l' \<Longrightarrow> level_string l = level_string l' \<Longrightarrow> l = l'"
  by (cases l; cases l') (auto simp: standing_def)

lemma grant_payload_inj:
  assumes "normalizeApprovalAuthority a = Inr a" "normalizeApprovalAuthority a' = Inr a'" "standing l" "standing l'"
    "CHR 0x00 \<notin> set (ca_RequesterMemberID c)" "CHR 0x00 \<notin> set (ca_RequesterMemberID c')"
    "grant_payload a l c = grant_payload a' l' c'"
  shows "a = a' \<and> l = l' \<and>
    (l \<noteq> ApprovalLevelAllAlways \<longrightarrow> ca_RequesterMemberID c = ca_RequesterMemberID c') \<and>
    (l = ApprovalLevelConversation30m \<longrightarrow> ca_ConversationID c = ca_ConversationID c')"
proof -
  have nn: "CHR 0x00 \<notin> set (au_Fingerprint x)" "CHR 0x00 \<notin> set (au_RecipientAgentID x)" if "normalizeApprovalAuthority x = Inr x" for x
    using that validApprovalValue_no_nul by (auto simp: normalizeApprovalAuthority_def Let_def split: if_splits) (metis ApprovalAuthority.select_convs)+
  have ls: "CHR 0x00 \<notin> set (level_string x)" if "standing x" for x using that by (cases x) (auto simp: standing_def)
  let ?m = "\<lambda>l c. if l = ApprovalLevelConversation30m \<or> l = ApprovalLevelTeammateAlways then ca_RequesterMemberID c else []"
  have m: "CHR 0x00 \<notin> set (?m x c)" "CHR 0x00 \<notin> set (?m x c')" for x using assms(5,6) by auto
  have "au_Fingerprint a = au_Fingerprint a'" "au_RecipientAgentID a = au_RecipientAgentID a'" "level_string l = level_string l'"
    "?m l c = ?m l' c'"
    "(if l = ApprovalLevelConversation30m then ca_ConversationID c else []) =
     (if l' = ApprovalLevelConversation30m then ca_ConversationID c' else [])"
    using assms(7) nn [OF assms(1)] nn [OF assms(2)] ls [OF assms(3)] ls [OF assms(4)] m
    unfolding grant_payload_def Let_def by simp_all
  moreover have "l = l'" using level_string_inj [OF assms(3,4)] calculation(3) by blast
  ultimately show ?thesis using assms(3) by (cases a; cases a'; cases l) (auto simp: standing_def)
qed

section \<open>Preservation\<close>

lemma load_grant_ok_iff: "load_grant_ok L (k, g) \<longleftrightarrow> k \<noteq> [] \<and> k = gr_GrantID g \<and> grant_ok L g"
  by (auto simp: load_grant_ok_def validate_iff)

lemma grant_ok_id_nonempty: "grant_ok L g \<Longrightarrow> gr_GrantID g \<noteq> []"
  by (auto simp: grant_ok_def validApprovalGrantID_def)

lemma store_ok_filter:
  assumes "store_ok L gs rs"
  shows "store_ok L (filter P gs) rs"
proof -
  have "map_of gs k = None \<Longrightarrow> map_of (filter P gs) k = None" for k
    by (auto simp: map_of_eq_None_iff)
  then show ?thesis using assms
    by (auto simp: store_ok_def distinct_map_filter list_all_iff load_revocation_ok_def)
qed

lemma set_AList_update: "set (AList.update k v al) \<subseteq> insert (k, v) (set al)"
  by (induction al) auto

lemma load_revocation_ok_other:
  "load_revocation_ok gs x \<Longrightarrow> map_of gs' (fst x) = None \<Longrightarrow> load_revocation_ok gs' x"
  by (cases x) (simp add: load_revocation_ok_def)

lemma load_revocation_ok_not_granted: "load_revocation_ok gs x \<Longrightarrow> map_of gs (fst x) = None"
  by (cases x) (simp add: load_revocation_ok_def)

lemma store_ok_put:
  assumes "store_ok L gs rs" "grant_ok L g" "map_of rs (gr_GrantID g) = None"
  shows "store_ok L (AList.update (gr_GrantID g) g gs) rs"
  unfolding store_ok_def
proof (intro conjI)
  show "list_all (load_grant_ok L) (AList.update (gr_GrantID g) g gs)"
    using assms(1) set_AList_update [of "gr_GrantID g" g gs] grant_ok_id_nonempty [OF assms(2)] assms(2)
    by (auto simp: store_ok_def list_all_iff load_grant_ok_iff)
  show "list_all (load_revocation_ok (AList.update (gr_GrantID g) g gs)) rs"
    unfolding list_all_iff
  proof
    fix x assume x: "x \<in> set rs"
    then have "load_revocation_ok gs x" using assms(1) by (simp add: store_ok_def list_all_iff)
    moreover have "fst x \<noteq> gr_GrantID g" using x assms(3) unfolding map_of_eq_None_iff by force
    ultimately show "load_revocation_ok (AList.update (gr_GrantID g) g gs) x"
      using load_revocation_ok_not_granted [of gs x] load_revocation_ok_other [of gs x] by (simp add: update_conv')
  qed
qed (use assms(1) in \<open>auto simp: store_ok_def distinct_update\<close>)

lemma store_ok_unrevoke: "store_ok L gs rs \<Longrightarrow> store_ok L gs (AList.delete k rs)"
  by (auto simp: store_ok_def list_all_iff distinct_map_filter AList.delete_eq)

lemma store_ok_revoke:
  assumes "store_ok L gs rs" "validApprovalGrantID k" "rv_RevokedAt r \<noteq> zero_time"
    "normalizeApprovalAuthority (revocation_authority r) = Inr (revocation_authority r)"
  shows "store_ok L (AList.delete k gs) (AList.update k r rs)"
  unfolding store_ok_def
proof (intro conjI)
  show "list_all (load_revocation_ok (AList.delete k gs)) (AList.update k r rs)"
    unfolding list_all_iff
  proof
    fix x assume "x \<in> set (AList.update k r rs)"
    then consider "x = (k, r)" | "x \<in> set rs" using set_AList_update [of k r rs] by blast
    then show "load_revocation_ok (AList.delete k gs) x"
    proof cases
      case 1
      with assms(2-4) show ?thesis by (simp add: load_revocation_ok_def AList.delete_conv')
    next
      case 2
      with assms(1) have "load_revocation_ok gs x" by (simp add: store_ok_def list_all_iff)
      then show ?thesis using load_revocation_ok_not_granted [of gs x] load_revocation_ok_other [of gs x]
        by (simp add: AList.delete_conv')
    qed
  qed
qed (use assms(1) in \<open>auto simp: store_ok_def list_all_iff distinct_update distinct_map_filter AList.delete_eq\<close>)

lemma writeLocked_simps:
  "st_grants (fst (writeLocked now w st)) = st_grants st"
  "st_revocations (fst (writeLocked now w st)) = st_revocations st"
  "store_ok L (st_grants st) (st_revocations st) \<Longrightarrow> file_ok L (st_file st) \<Longrightarrow> file_ok L (st_file (fst (writeLocked now w st)))"
  by (auto simp: writeLocked_def Let_def split: write_outcome.split)

lemma writeLocked_inv:
  "store_ok L (st_grants st) (st_revocations st) \<Longrightarrow> file_ok L (st_file st) \<Longrightarrow> approval_inv L (fst (writeLocked now w st))"
  by (simp add: approval_inv_def writeLocked_simps)

lemma persist_inv:
  assumes "approval_inv L before" "store_ok L (st_grants st) (st_revocations st)" "file_ok L (st_file st)"
  shows "approval_inv L (fst (persist before changed now w ans st))"
  using assms writeLocked_inv [OF assms(2,3), of now w]
  by (auto simp: persist_def roll_back_def approval_inv_def split: prod.splits sum.splits)

lemma prune_simps [simp]:
  "st_grants (fst (pruneLocked a now st)) = filter (\<lambda>(_, g). \<not> grant_stale a now g) (st_grants st)"
  "st_revocations (fst (pruneLocked a now st)) = st_revocations st" "st_file (fst (pruneLocked a now st)) = st_file st"
  by (simp_all add: pruneLocked_def)

lemma pruneAndPersist_inv: "approval_inv L st \<Longrightarrow> approval_inv L (fst (pruneAndPersistLocked a now w st))"
  unfolding pruneAndPersistLocked_def case_prod_beta Let_def
  by (rule persist_inv) (auto simp: approval_inv_def intro: store_ok_filter)

text \<open>No grant of the store has the digest of another payload.\<close>

definition no_collision :: "('l) golib_scheme \<Rightarrow> (string \<times> ApprovalGrant) list \<Rightarrow> string \<Rightarrow> bool" where
  "no_collision L gs p \<longleftrightarrow>
     (\<forall>(k, g)\<in>set gs. let q = grant_payload (grant_authority g) (gr_Level g) (grant_candidate g) in
        sha256_sum L q = sha256_sum L p \<longrightarrow> q = p)"


lemma put_grant_inv:
  assumes "approval_inv L before" "store_ok L (st_grants st) (st_revocations st)" "file_ok L (st_file st)"
    "grant_ok L grant" "map_of (st_revocations st) (gr_GrantID grant) = None" "ca_AccessScope c = gr_AccessCeiling grant"
    "\<And>g. map_of (st_grants st) (gr_GrantID grant) = Some g \<Longrightarrow> gr_Level g = gr_Level grant"
  shows "approval_inv L (fst (put_grant before changed now w c grant st))"
proof (cases "map_of (st_grants st) (gr_GrantID grant)")
  case None
  then show ?thesis using assms store_ok_put [OF assms(2,4,5)]
    by (auto simp: put_grant_def intro!: persist_inv)
next
  case (Some g)
  then have "(gr_GrantID grant, g) \<in> set (st_grants st)" by (rule map_of_SomeD)
  then have g: "grant_ok L g" "gr_GrantID g = gr_GrantID grant"
    using assms(2) by (auto simp: store_ok_def list_all_iff load_grant_ok_iff)
  let ?w = "g\<lparr>gr_AccessCeiling := gr_AccessCeiling grant, gr_RequesterDisplayName := gr_RequesterDisplayName grant\<rparr>"
  have "grant_ok L ?w" using grant_ok_widen [OF g(1) assms(4)] assms(7) [OF Some] by simp
  from store_ok_put [OF assms(2) this] have "store_ok L (AList.update (gr_GrantID grant) ?w (st_grants st)) (st_revocations st)"
    using g(2) assms(5) by simp
  then show ?thesis using assms(1,2,3,6) Some by (auto simp: put_grant_def Let_def intro!: persist_inv)
qed

lemma new_grant_sel [simp]:
  "gr_GrantID (newApprovalGrant L a l c now) = stableApprovalGrantID L a l c" "gr_Level (newApprovalGrant L a l c now) = l"
  "gr_AccessCeiling (newApprovalGrant L a l c now) = ca_AccessScope c"
  "gr_AuthorityFingerprint (newApprovalGrant L a l c now) = au_Fingerprint a"
  "gr_RecipientAgentID (newApprovalGrant L a l c now) = au_RecipientAgentID a"
  by (cases l; simp add: newApprovalGrant_def)+

text \<open>A stored grant under the identifier of a payload was made for that payload.\<close>

lemma stored_level:
  assumes "store_ok L gs rs" "no_collision L gs (grant_payload a l c)" "map_of gs (stableApprovalGrantID L a l c) = Some g"
    "normalizeApprovalAuthority a = Inr a" "standing l" "CHR 0x00 \<notin> set (ca_RequesterMemberID c)"
  shows "grant_ok L g \<and> grant_authority g = a \<and> gr_Level g = l \<and>
    (l \<noteq> ApprovalLevelAllAlways \<longrightarrow> gr_RequesterMemberID g = ca_RequesterMemberID c) \<and>
    (l = ApprovalLevelConversation30m \<longrightarrow> gr_ConversationID g = ca_ConversationID c)"
proof -
  have m: "(stableApprovalGrantID L a l c, g) \<in> set gs" using assms(3) by (rule map_of_SomeD)
  then have g: "grant_ok L g" "gr_GrantID g = stableApprovalGrantID L a l c"
    using assms(1) by (auto simp: store_ok_def list_all_iff load_grant_ok_iff)
  then have "sha256_sum L (grant_payload (grant_authority g) (gr_Level g) (grant_candidate g)) = sha256_sum L (grant_payload a l c)"
    by (simp add: grant_ok_def stableApprovalGrantID_def sha256_hex_def)
  with assms(2) m have eq: "grant_payload (grant_authority g) (gr_Level g) (grant_candidate g) = grant_payload a l c"
    by (auto simp: no_collision_def Let_def)
  have "standing (gr_Level g)" using g(1) by (cases "gr_Level g") (auto simp: grant_ok_def standing_def)
  moreover have "CHR 0x00 \<notin> set (ca_RequesterMemberID (grant_candidate g))"
    using g(1) validApprovalValue_no_nul by (auto simp: grant_ok_def cand_norm_def)
  ultimately have "grant_authority g = a \<and> gr_Level g = l \<and>
    (gr_Level g \<noteq> ApprovalLevelAllAlways \<longrightarrow> ca_RequesterMemberID (grant_candidate g) = ca_RequesterMemberID c) \<and>
    (gr_Level g = ApprovalLevelConversation30m \<longrightarrow> ca_ConversationID (grant_candidate g) = ca_ConversationID c)"
    using grant_payload_inj [OF _ assms(4) _ assms(5) _ assms(6) eq] g(1) by (simp add: grant_ok_def)
  then show ?thesis using g(1) by (auto simp: grant_candidate_def)
qed

section \<open>Steps of the store\<close>

text \<open>The identifier an \<open>Upsert\<close> writes, if its arguments are accepted.\<close>

definition upsert_id ::
  "('l) golib_scheme \<Rightarrow> ApprovalAuthority \<Rightarrow> ApprovalLevel \<Rightarrow> ApprovalCandidate \<Rightarrow> string option" where
  "upsert_id L authority level candidate =
     (case (normalizeApprovalAuthority authority, standing_candidate level candidate) of
        (Inr a, Inr c) \<Rightarrow> if standing level then Some (stableApprovalGrantID L a level c) else None
      | _ \<Rightarrow> None)"

text \<open>The digest of what is to be stored is not that of a different stored grant.\<close>

definition collision_free ::
  "('l) golib_scheme \<Rightarrow> ApprovalAuthority \<Rightarrow> ApprovalLevel \<Rightarrow> ApprovalCandidate \<Rightarrow> ApprovalStore \<Rightarrow> bool" where
  "collision_free L authority level candidate st \<longleftrightarrow>
     (\<forall>a c. normalizeApprovalAuthority authority = Inr a \<longrightarrow> standing_candidate level candidate = Inr c \<longrightarrow>
        no_collision L (st_grants st) (grant_payload a level c))"

text \<open>
  One operation, labelled with the identifier if it is an accepted \<open>Upsert\<close>. Clocks never show Go's
  zero time.
\<close>

inductive approval_step ::
  "('l) golib_scheme \<Rightarrow> string option \<Rightarrow> ApprovalStore \<Rightarrow> ApprovalStore \<Rightarrow> bool" for L where
  op_list: "approval_step L None st (fst (List authority now w st))"
| op_prune: "approval_step L None st (fst (Prune authority now w st))"
| op_match: "approval_step L None st (fst (Match L authority candidate now w st))"
| op_upsert: "now \<noteq> zero_time \<Longrightarrow> collision_free L authority level candidate st \<Longrightarrow>
    approval_step L (upsert_id L authority level candidate) st (fst (Upsert L authority level candidate now w st))"
| op_restore: "now \<noteq> zero_time \<Longrightarrow> collision_free L authority level candidate st \<Longrightarrow>
    approval_step L None st (fst (RestorePrepared L authority level candidate grantedAt now w st))"
| op_revoke: "revokedAt \<noteq> zero_time \<Longrightarrow> approval_step L None st (fst (Revoke authority grant now revokedAt w st))"
| op_reload: "approval_step L None st (fst (Reload L readable now w st))"

lemma List_fst: "fst (List au now w st) = st \<or> (\<exists>a. fst (List au now w st) = fst (pruneAndPersistLocked a now w st))"
  by (auto simp: List_def split: sum.splits prod.splits) (metis fst_conv)+

lemma Match_fst: "fst (Match L au c now w st) = st \<or> (\<exists>a. fst (Match L au c now w st) = fst (pruneAndPersistLocked a now w st))"
  by (auto simp: Match_def split: sum.splits prod.splits) (metis fst_conv)+

lemma no_collision_filter: "no_collision L gs p \<Longrightarrow> no_collision L (filter P gs) p"
  by (auto simp: no_collision_def)

lemma standing_candidate_norm:
  assumes "standing_candidate l c' = Inr c"
  shows "CHR 0x00 \<notin> set (ca_RequesterMemberID c)"
proof -
  have "normalizeApprovalCandidate c' True = Inr c"
    using assms by (auto simp: standing_candidate_def split: sum.splits if_splits)
  then show ?thesis using normalize_candidate_norm validApprovalValue_no_nul by (fastforce simp: cand_norm_def)
qed

text \<open>The state after the pruning, and what is put into it.\<close>

lemma put_after_prune_inv:
  assumes "approval_inv L st" "normalizeApprovalAuthority au = Inr a" "standing level" "standing_candidate level c' = Inr c"
    "t \<noteq> zero_time" "sha256_32 L" "no_collision L (st_grants st) (grant_payload a level c)"
    "st_grants st2 = filter P (st_grants st)" "st_file st2 = st_file st"
    "store_ok L (st_grants st) (st_revocations st2)" "map_of (st_revocations st2) (stableApprovalGrantID L a level c) = None"
  shows "approval_inv L (fst (put_grant st changed now w c (newApprovalGrant L a level c t) st2))"
proof (rule put_grant_inv [OF assms(1)])
  show ok: "store_ok L (st_grants st2) (st_revocations st2)" unfolding assms(8) by (rule store_ok_filter) (rule assms(10))
  show "file_ok L (st_file st2)" using assms(1,9) by (simp add: approval_inv_def)
  show "grant_ok L (newApprovalGrant L a level c t)" by (rule grant_ok_new [OF assms(2-6)])
  fix g
  assume "map_of (st_grants st2) (gr_GrantID (newApprovalGrant L a level c t)) = Some g"
  moreover have "no_collision L (st_grants st2) (grant_payload a level c)"
    unfolding assms(8) by (rule no_collision_filter) (rule assms(7))
  ultimately show "gr_Level g = gr_Level (newApprovalGrant L a level c t)"
    using stored_level [OF ok _ _ normalize_authority_id [OF assms(2)] assms(3) standing_candidate_norm [OF assms(4)]] by simp
qed (use assms(11) in simp_all)

lemma Upsert_inv:
  assumes inv: "approval_inv L st" and sha: "sha256_32 L" and "now \<noteq> zero_time" "collision_free L authority level candidate st"
  shows "approval_inv L (fst (Upsert L authority level candidate now w st))"
proof (cases "normalizeApprovalAuthority authority")
  case (Inr a)
  have s: "store_ok L (st_grants st) (st_revocations st)" "file_ok L (st_file st)" using inv by (simp_all add: approval_inv_def)
  have pr: "approval_inv L (fst (persist st ch now w ans (fst (pruneLocked a now st))))" for ch and ans :: "(approval_error, ApprovalGrant option) result"
    by (rule persist_inv [OF inv]) (use s store_ok_filter in auto)
  show ?thesis
  proof (cases "standing level \<and> (\<exists>c. standing_candidate level candidate = Inr c)")
    case True
    then obtain c where c: "standing level" "standing_candidate level candidate = Inr c" by blast
    note put = put_after_prune_inv [OF inv Inr c assms(3) sha]
    have nc: "no_collision L (st_grants st) (grant_payload a level c)" using assms(4) Inr c by (simp add: collision_free_def)
    let ?id = "stableApprovalGrantID L a level c"
    have "map_of (AList.delete ?id (st_revocations st)) ?id = None" by (simp add: AList.delete_conv')
    then show ?thesis using put [OF nc] s store_ok_unrevoke [OF s(1)] c
      by (auto simp: Upsert_def Inr Let_def case_prod_beta standing_def)
  next
    case False
    then show ?thesis using inv pr by (auto simp: Upsert_def Inr Let_def case_prod_beta standing_def split: sum.splits)
  qed
qed (use inv in \<open>simp add: Upsert_def\<close>)

lemma RestorePrepared_inv:
  assumes inv: "approval_inv L st" and sha: "sha256_32 L" and "now \<noteq> zero_time" "collision_free L authority level candidate st"
  shows "approval_inv L (fst (RestorePrepared L authority level candidate grantedAt now w st))"
proof (cases "normalizeApprovalAuthority authority")
  case (Inr a)
  have s: "store_ok L (st_grants st) (st_revocations st)" "file_ok L (st_file st)" using inv by (simp_all add: approval_inv_def)
  have pr: "approval_inv L (fst (persist st ch now w ans (fst (pruneLocked a now st))))" for ch and ans :: "(approval_error, ApprovalGrant option) result"
    by (rule persist_inv [OF inv]) (use s store_ok_filter in auto)
  show ?thesis
  proof (cases "standing level \<and> grantedAt \<noteq> zero_time \<and> (\<exists>c. standing_candidate level candidate = Inr c)")
    case True
    then obtain c where c: "standing level" "standing_candidate level candidate = Inr c" by blast
    define t where "t = (if now < grantedAt then now else grantedAt)"
    have t: "t \<noteq> zero_time" using True assms(3) by (simp add: t_def)
    note put = put_after_prune_inv [OF inv Inr c t sha]
    have nc: "no_collision L (st_grants st) (grant_payload a level c)" using assms(4) Inr c by (simp add: collision_free_def)
    show ?thesis using put [OF nc, of "fst (pruneLocked a now st)"] pr s c True
      by (simp add: RestorePrepared_def Inr Let_def case_prod_beta t_def [symmetric])
  next
    case False
    then show ?thesis using inv by (auto simp: RestorePrepared_def Inr Let_def split: sum.splits)
  qed
qed (use inv in \<open>simp add: RestorePrepared_def\<close>)

lemma Revoke_inv:
  assumes inv: "approval_inv L st" and "revokedAt \<noteq> zero_time"
  shows "approval_inv L (fst (Revoke authority grant now revokedAt w st))"
proof (cases "normalizeApprovalAuthority authority")
  case (Inr a)
  let ?st1 = "fst (pruneLocked a now st)" let ?id = "TrimSpace grant"
  let ?r = "\<lparr>rv_AuthorityFingerprint = au_Fingerprint a, rv_RecipientAgentID = au_RecipientAgentID a, rv_RevokedAt = revokedAt\<rparr>"
  have s: "store_ok L (st_grants ?st1) (st_revocations ?st1)" "file_ok L (st_file ?st1)"
    using inv store_ok_filter by (auto simp: approval_inv_def)
  have "revocation_authority ?r = a" by (cases a) (simp add: revocation_authority_def)
  then have "validApprovalGrantID ?id \<Longrightarrow> store_ok L (AList.delete ?id (st_grants ?st1)) (AList.update ?id ?r (st_revocations ?st1))"
    using normalize_authority_id [OF Inr] assms(2) by (intro store_ok_revoke [OF s(1)]) simp_all
  then show ?thesis using s inv
    by (auto simp: Revoke_def Inr Let_def case_prod_beta intro!: persist_inv)
qed (use inv in \<open>simp add: Revoke_def\<close>)

lemma load_inv:
  assumes inv: "approval_inv L st"
  shows "approval_inv L (fst (load L readable now w st))"
proof (cases "st_file st")
  case None
  then show ?thesis using inv by (simp add: load_def approval_inv_def writeLocked_simps)
next
  case (Some content)
  then obtain snap where snap: "content = Some snap" "sn_Version snap = approvalStoreVersion" "store_ok L (sn_Grants snap) (sn_Revocations snap)"
    using inv by (cases content) (auto simp: approval_inv_def)
  let ?gs = "filter (\<lambda>(_, g). \<not> approvalGrantExpired g now) (sn_Grants snap)"
  have "store_ok L ?gs (sn_Revocations snap)" by (rule store_ok_filter) (rule snap(3))
  then show ?thesis using inv Some snap
    by (auto simp: load_def Let_def approval_inv_def approvalStoreVersion_def legacyApprovalStoreVersion_def
        scopedApprovalStoreVersion_def intro!: writeLocked_inv [unfolded approval_inv_def, THEN conjunct1]
        writeLocked_inv [unfolded approval_inv_def, THEN conjunct2])
qed


lemma approval_step_inv:
  assumes "approval_step L lbl st st'" "approval_inv L st" "sha256_32 L"
  shows "approval_inv L st'"
  using assms(1)
proof cases
  case (op_list authority now w)
  then show ?thesis using List_fst [of authority now w st] assms(2) by (auto intro: pruneAndPersist_inv)
next
  case (op_match authority candidate now w)
  then show ?thesis using Match_fst [of L authority candidate now w st] assms(2) by (auto intro: pruneAndPersist_inv)
next
  case op_prune
  then show ?thesis using assms(2) by (auto simp: Prune_def intro: pruneAndPersist_inv split: sum.splits)
next
  case op_reload
  then show ?thesis using assms(2) by (simp add: Reload_def load_inv)
qed (use assms in \<open>auto intro: Upsert_inv RestorePrepared_inv Revoke_inv\<close>)

definition new_store :: ApprovalStore where
  "new_store = \<lparr>st_grants = [], st_revocations = [], st_file = None\<rparr>"

abbreviation approval_steps :: "('l) golib_scheme \<Rightarrow> ApprovalStore \<Rightarrow> ApprovalStore \<Rightarrow> bool" where
  "approval_steps L \<equiv> (\<lambda>s s'. \<exists>lbl. approval_step L lbl s s')\<^sup>*\<^sup>*"

lemma approval_steps_inv: "approval_steps L st st' \<Longrightarrow> approval_inv L st \<Longrightarrow> sha256_32 L \<Longrightarrow> approval_inv L st'"
  by (induction rule: rtranclp_induct) (auto intro: approval_step_inv)

lemma new_store_inv: "approval_inv L new_store"
  by (simp add: new_store_def approval_inv_def store_ok_def)

section \<open>An example\<close>

definition demo_golib :: golib where
  "demo_golib = \<lparr>sha256_sum = (\<lambda>x. take 32 (drop 28 x @ replicate 32 CHR ''x'')), uni_lower = id, uni_upper = id, uni_fold = (=),
     base64_decode = Some, media_type_ok = (\<lambda>_. True)\<rparr>"

definition demo_authority :: ApprovalAuthority where
  "demo_authority = \<lparr>au_Fingerprint = ''f'', au_RecipientAgentID = ''b''\<rparr>"

definition demo_scope :: ApprovalAccessScope where
  "demo_scope = \<lparr>sc_RequestedAccess = [\<lparr>ra_WorkspaceAlias = ''w'', ra_Mode = PermissionReadOnly\<rparr>],
     sc_MaxAttachmentCount = 0, sc_MaxAttachmentBytes = 0\<rparr>"

definition demo_candidate :: ApprovalCandidate where
  "demo_candidate = \<lparr>ca_RequesterMemberID = ''m'', ca_RequesterDisplayName = [], ca_ConversationID = ''c'',
     ca_AccessScope = demo_scope\<rparr>"

definition demo_grant :: ApprovalGrant where
  "demo_grant = newApprovalGrant demo_golib demo_authority ApprovalLevelConversation30m demo_candidate 1"

definition demo_store :: ApprovalStore where
  "demo_store = fst (Upsert demo_golib demo_authority ApprovalLevelConversation30m demo_candidate 1 WriteDone new_store)"

lemma demo_sha: "sha256_32 demo_golib"
  by (auto simp: sha256_32_def demo_golib_def)

lemma demo_valid_values: "validApprovalValue ''f'' n sp = (0 < n)" "validApprovalValue ''b'' n sp = (0 < n)" "validApprovalValue ''m'' n sp = (0 < n)"
  "validApprovalValue ''c'' n sp = (0 < n)" "validApprovalValue ''w'' n sp = (0 < n)"
  by (auto simp: validApprovalValue_def runes_def bytes_def IsControl_def IsSpace_def)

lemma demo_trim: "TrimSpace ''f'' = ''f''" "TrimSpace ''b'' = ''b''" "TrimSpace ''m'' = ''m''" "TrimSpace ''c'' = ''c''" "TrimSpace ''w'' = ''w''"
  by (simp_all add: TrimSpace_id IsSpace_def)

lemma demo_normal:
  "normalizeApprovalAuthority demo_authority = Inr demo_authority"
  "normalizeApprovalCandidate demo_candidate r = Inr demo_candidate"
  "standing_candidate l demo_candidate = Inr demo_candidate" "scope_norm demo_scope"
proof -
  show "scope_norm demo_scope"
    by (simp add: scope_norm_def demo_scope_def access_norm_def demo_valid_values demo_trim ContainsAny_def MaxRequestPayloadBytes_def)
  then show c: "normalizeApprovalCandidate demo_candidate r = Inr demo_candidate" for r
    by (simp add: normalize_candidate_iff cand_norm_def demo_candidate_def demo_valid_values demo_trim)
  show "standing_candidate l demo_candidate = Inr demo_candidate"
    by (simp add: standing_candidate_def c) (simp add: demo_candidate_def)
qed (simp add: normalizeApprovalAuthority_def demo_authority_def demo_valid_values demo_trim)

lemma demo_upsert:
  "Upsert demo_golib demo_authority ApprovalLevelConversation30m demo_candidate 1 WriteDone new_store =
     (demo_store, Inr (Some demo_grant))" "st_grants demo_store = [(gr_GrantID demo_grant, demo_grant)]"
  "st_revocations demo_store = []"
  by (simp_all add: demo_store_def Upsert_def demo_normal new_store_def pruneLocked_def put_grant_def persist_def
      writeLocked_def demo_grant_def Let_def)

lemma demo_step: "approval_steps demo_golib new_store demo_store"
proof -
  have "approval_step demo_golib (upsert_id demo_golib demo_authority ApprovalLevelConversation30m demo_candidate) new_store demo_store"
    unfolding demo_store_def by (rule op_upsert) (simp_all add: zero_time_def collision_free_def no_collision_def new_store_def)
  then show ?thesis by blast
qed

text \<open>
  C25. The approval store stays well formed. From an empty store, any sequence of operations, whatever
  the clocks show and whether writes succeed, fail or are replaced without being synced, keeps:
  distinct identifiers; every grant valid for its authority, subject, level and identifier; well-formed
  tombstones; no identifier both granted and revoked; and a file that can be loaded again.
\<close>

theorem approval_store_invariant:
  assumes "approval_steps L new_store st" "sha256_32 L"
  shows "approval_inv L st"
  using approval_steps_inv [OF assms(1) new_store_inv assms(2)] .

theorem approval_store_invariant_witness: "approval_inv demo_golib demo_store"
  by (rule approval_store_invariant [OF demo_step demo_sha])

section \<open>Matching\<close>

lemma match_levels_Some:
  "match_levels L a c gs ls = Some g \<Longrightarrow>
   \<exists>l\<in>set ls. map_of gs (stableApprovalGrantID L a l c) = Some g \<and> approvalScopeCovers (gr_AccessCeiling g) (ca_AccessScope c) \<and>
     (l = ApprovalLevelConversation30m \<longrightarrow> ca_ConversationID c \<noteq> [])"
  by (induction ls) (auto split: if_splits option.splits)

lemma pruneAndPersist_Inr:
  "pruneAndPersistLocked a now w st = (st', Inr n) \<Longrightarrow>
   st_grants st' = filter (\<lambda>(_, g). \<not> grant_stale a now g) (st_grants st) \<and> st_revocations st' = st_revocations st"
  by (auto simp: pruneAndPersistLocked_def persist_def writeLocked_def pruneLocked_def Let_def
      split: if_splits write_outcome.splits)

lemma Match_Some:
  assumes "Match L authority candidate now w st = (st', Inr (Some g))"
  obtains a c l where "normalizeApprovalAuthority authority = Inr a" "normalizeApprovalCandidate candidate False = Inr c"
    "ca_RequesterMemberID c \<noteq> []" "standing l" "map_of (filter (\<lambda>(_, g). \<not> grant_stale a now g) (st_grants st)) (stableApprovalGrantID L a l c) = Some g"
    "approvalScopeCovers (gr_AccessCeiling g) (ca_AccessScope c)" "st_grants st' = filter (\<lambda>(_, g). \<not> grant_stale a now g) (st_grants st)"
proof -
  from assms obtain a c n where r: "normalizeApprovalAuthority authority = Inr a" "normalizeApprovalCandidate candidate False = Inr c"
    "pruneAndPersistLocked a now w st = (st', Inr n)" "ca_RequesterMemberID c \<noteq> []"
    and m: "match_levels L a c (st_grants st') [ApprovalLevelConversation30m, ApprovalLevelTeammateAlways, ApprovalLevelAllAlways] = Some g"
    by (auto simp: Match_def split: sum.splits prod.splits if_splits)
  from match_levels_Some [OF m] obtain l where "standing l" "map_of (st_grants st') (stableApprovalGrantID L a l c) = Some g"
    "approvalScopeCovers (gr_AccessCeiling g) (ca_AccessScope c)"
    by (metis ApprovalLevel.distinct(1,3,5) ApprovalLevel_Valid.simps(3-5) empty_iff empty_set set_ConsD standing_def)
  with pruneAndPersist_Inr [OF r(3)] r show thesis by (intro that [of a c l]) auto
qed

definition match_collision_free ::
  "('l) golib_scheme \<Rightarrow> ApprovalAuthority \<Rightarrow> ApprovalCandidate \<Rightarrow> ApprovalStore \<Rightarrow> bool" where
  "match_collision_free L authority candidate st \<longleftrightarrow>
     (\<forall>a c l. normalizeApprovalAuthority authority = Inr a \<longrightarrow> normalizeApprovalCandidate candidate False = Inr c \<longrightarrow>
        standing l \<longrightarrow> no_collision L (st_grants st) (grant_payload a l c))"

text \<open>
  C23. An automatic approval is one the recipient gave. If \<open>Match\<close> finds a grant for a request (digests
  of different payloads being different), the store held that grant for exactly this authority, it has
  not expired, the request names a member, the grant is for that member unless it is for all teammates,
  and for that conversation and within 30 minutes of its creation if it is a conversation grant; and
  the request asks for no workspace, mode or attachment volume beyond the grant's ceiling.
\<close>

theorem match_is_sound:
  assumes "approval_inv L st" "Match L authority candidate now w st = (st', Inr (Some g))"
    "match_collision_free L authority candidate st"
  shows "\<exists>a c. normalizeApprovalAuthority authority = Inr a \<and> normalizeApprovalCandidate candidate False = Inr c \<and>
    (gr_GrantID g, g) \<in> set (st_grants st) \<and> grant_authority g = a \<and> \<not> approvalGrantExpired g now \<and>
    ca_RequesterMemberID c \<noteq> [] \<and>
    (gr_Level g \<noteq> ApprovalLevelAllAlways \<longrightarrow> gr_RequesterMemberID g = ca_RequesterMemberID c) \<and>
    (gr_Level g = ApprovalLevelConversation30m \<longrightarrow> gr_ConversationID g = ca_ConversationID c \<and>
       now < gr_CreatedAt g + ApprovalConversationWindow) \<and>
    scope_le (ca_AccessScope c) (gr_AccessCeiling g)"
  using assms(2)
proof (elim Match_Some)
  fix a c l
  assume a: "normalizeApprovalAuthority authority = Inr a" and c: "normalizeApprovalCandidate candidate False = Inr c"
    and mem: "ca_RequesterMemberID c \<noteq> []" and l: "standing l"
    and g: "map_of (filter (\<lambda>(_, g). \<not> grant_stale a now g) (st_grants st)) (stableApprovalGrantID L a l c) = Some g"
    and cov: "approvalScopeCovers (gr_AccessCeiling g) (ca_AccessScope c)"
  have gin: "(stableApprovalGrantID L a l c, g) \<in> set (st_grants st)" and ns: "\<not> grant_stale a now g"
    using map_of_SomeD [OF g] by auto
  have "map_of (st_grants st) (stableApprovalGrantID L a l c) = Some g"
    using gin assms(1) by (auto simp: approval_inv_def store_ok_def)
  moreover have nul: "CHR 0x00 \<notin> set (ca_RequesterMemberID c)"
    using normalize_candidate_norm [OF c] validApprovalValue_no_nul mem by (auto simp: cand_norm_def)
  ultimately have lv: "grant_ok L g" "grant_authority g = a" "gr_Level g = l"
    "l \<noteq> ApprovalLevelAllAlways \<longrightarrow> gr_RequesterMemberID g = ca_RequesterMemberID c"
    "l = ApprovalLevelConversation30m \<longrightarrow> gr_ConversationID g = ca_ConversationID c"
    using stored_level [of L "st_grants st" "st_revocations st" a l c g] assms(1,3) a c l normalize_authority_id [OF a]
    by (auto simp: approval_inv_def match_collision_free_def)
  have "gr_GrantID g = stableApprovalGrantID L a l c" using assms(1) gin
    by (auto simp: approval_inv_def store_ok_def list_all_iff load_grant_ok_iff)
  moreover have "scope_norm (ca_AccessScope c)" "scope_norm (gr_AccessCeiling g)"
    using normalize_candidate_norm [OF c] lv(1) by (auto simp: cand_norm_def grant_ok_def grant_candidate_def)
  then have "scope_le (ca_AccessScope c) (gr_AccessCeiling g)" using cov by (auto simp: approvalScopeCovers_iff normalize_scope_id)
  moreover have "\<not> approvalGrantExpired g now" using ns by (simp add: grant_stale_def)
  moreover have "l = ApprovalLevelConversation30m \<longrightarrow> now < gr_CreatedAt g + ApprovalConversationWindow"
    using lv(1,3) calculation(3) by (auto simp: grant_ok_def approvalGrantExpired_def)
  ultimately show ?thesis using a c gin mem lv by auto
qed


theorem match_is_sound_witness:
  "Match demo_golib demo_authority demo_candidate 2 WriteDone demo_store = (demo_store, Inr (Some demo_grant)) \<and>
   2 < gr_CreatedAt demo_grant + ApprovalConversationWindow"
proof -
  have covers: "approvalScopeCovers (gr_AccessCeiling demo_grant) (ca_AccessScope demo_candidate)"
    using scope_le_refl normalize_scope_id [OF demo_normal(4)]
    by (simp add: demo_grant_def approvalScopeCovers_iff) (simp add: demo_candidate_def)
  have fresh: "\<not> grant_stale demo_authority 2 demo_grant"
    by (simp add: demo_grant_def grant_stale_def approvalGrantExpired_def newApprovalGrant_def ApprovalConversationWindow_def
        minute_def second_def)
  have m: "ca_RequesterMemberID demo_candidate \<noteq> []" "ca_ConversationID demo_candidate \<noteq> []" by (simp_all add: demo_candidate_def)
  have p: "pruneAndPersistLocked demo_authority 2 WriteDone demo_store = (demo_store, Inr 0)"
    by (simp add: pruneAndPersistLocked_def pruneLocked_def demo_upsert(2) fresh persist_def)
  have eq: "Match demo_golib demo_authority demo_candidate 2 WriteDone demo_store = (demo_store, Inr (Some demo_grant))"
    using covers m by (simp add: Match_def demo_normal p demo_upsert(2)) (simp add: demo_grant_def)
  have lvl: "gr_Level demo_grant = ApprovalLevelConversation30m" by (simp add: demo_grant_def)
  have inv: "approval_inv demo_golib demo_store"
    by (rule approval_steps_inv [OF demo_step new_store_inv demo_sha])
  have "match_collision_free demo_golib demo_authority demo_candidate demo_store"
    unfolding match_collision_free_def
  proof (intro allI impI)
    fix a c l
    assume "normalizeApprovalAuthority demo_authority = Inr a" "normalizeApprovalCandidate demo_candidate False = Inr c" "standing l"
    then have "a = demo_authority" "c = demo_candidate" "standing l" by (simp_all add: demo_normal)
    then show "no_collision demo_golib (st_grants demo_store) (grant_payload a l c)"
      by (cases l) (auto simp: demo_normal demo_upsert(2) no_collision_def Let_def grant_payload_def demo_grant_def standing_def
          newApprovalGrant_def grant_authority_def grant_candidate_def demo_golib_def demo_authority_def demo_candidate_def)
  qed
  from match_is_sound [OF inv eq this] eq lvl show ?thesis by auto
qed


section \<open>Revocation\<close>

text \<open>A tombstone in memory and in the file.\<close>

definition tombstoned :: "string \<Rightarrow> ApprovalStore \<Rightarrow> bool" where
  "tombstoned k st \<longleftrightarrow>
     k \<in> fst ` set (st_revocations st) \<and>
     (\<forall>snap. st_file st = Some (Some snap) \<longrightarrow> k \<in> fst ` set (sn_Revocations snap))"

lemma writeLocked_tombstoned: "tombstoned k st \<Longrightarrow> tombstoned k (fst (writeLocked now w st))"
  by (auto simp: tombstoned_def writeLocked_def Let_def split: write_outcome.splits)

lemma persist_tombstoned:
  assumes "tombstoned k before" "k \<in> fst ` set (st_revocations st)" "st_file st = st_file before"
  shows "tombstoned k (fst (persist before changed now w ans st))"
  using assms by (auto simp: tombstoned_def persist_def writeLocked_def roll_back_def Let_def split: write_outcome.splits)

lemma pruneAndPersist_tombstoned: "tombstoned k st \<Longrightarrow> tombstoned k (fst (pruneAndPersistLocked a now w st))"
  unfolding pruneAndPersistLocked_def case_prod_beta Let_def
  by (rule persist_tombstoned) (auto simp: tombstoned_def)

lemma put_grant_tombstoned:
  assumes "tombstoned k before" "k \<in> fst ` set (st_revocations st)" "st_file st = st_file before"
  shows "tombstoned k (fst (put_grant before changed now w c g st))"
  using assms by (auto simp: put_grant_def Let_def split: option.splits intro!: persist_tombstoned)

lemma keys_update: "fst ` set (AList.update k v al) = insert k (fst ` set al)"
  by (induction al) auto

lemma Upsert_tombstoned:
  assumes "tombstoned k st" "upsert_id L authority level candidate \<noteq> Some k"
  shows "tombstoned k (fst (Upsert L authority level candidate now w st))"
proof -
  have "k \<in> fst ` set (st_revocations st)" using assms(1) by (simp add: tombstoned_def)
  then have "k \<noteq> x \<Longrightarrow> k \<in> fst ` set (AList.delete x (st_revocations st))" for x by (auto simp: AList.delete_eq image_iff)
  moreover have "standing level \<Longrightarrow> normalizeApprovalAuthority authority = Inr a \<Longrightarrow> standing_candidate level candidate = Inr c \<Longrightarrow>
      k \<noteq> stableApprovalGrantID L a level c" for a c
    using assms(2) by (auto simp: upsert_id_def)
  ultimately show ?thesis using assms(1) \<open>k \<in> fst ` set (st_revocations st)\<close>
    by (auto simp: Upsert_def Let_def case_prod_beta standing_def split: sum.splits
        intro!: persist_tombstoned put_grant_tombstoned)
qed

lemma Revoke_tombstoned:
  assumes "tombstoned k st"
  shows "tombstoned k (fst (Revoke authority grant now revokedAt w st))"
  using assms
  by (auto simp: Revoke_def Let_def case_prod_beta keys_update split: sum.splits intro!: persist_tombstoned)
    (auto simp: tombstoned_def keys_update)

lemma load_tombstoned:
  assumes "tombstoned k st" "approval_inv L st"
  shows "tombstoned k (fst (load L readable now w st))"
proof (cases "st_file st")
  case (Some content)
  then obtain snap where snap: "content = Some snap" "sn_Version snap = approvalStoreVersion"
    using assms(2) by (cases content) (auto simp: approval_inv_def)
  then have "tombstoned k (st\<lparr>st_grants := x, st_revocations := sn_Revocations snap\<rparr>)" for x
    using assms(1) Some by (auto simp: tombstoned_def)
  then show ?thesis using Some snap assms(1)
    by (auto simp: load_def Let_def approvalStoreVersion_def legacyApprovalStoreVersion_def intro: writeLocked_tombstoned)
qed (use assms in \<open>simp add: load_def writeLocked_tombstoned\<close>)

lemma approval_step_tombstoned:
  assumes "approval_step L lbl st st'" "tombstoned k st" "approval_inv L st" "lbl \<noteq> Some k"
  shows "tombstoned k st'"
  using assms(1)
proof cases
  case (op_list authority now w)
  then show ?thesis using List_fst [of authority now w st] assms(2) by (auto intro: pruneAndPersist_tombstoned)
next
  case (op_match authority candidate now w)
  then show ?thesis using Match_fst [of L authority candidate now w st] assms(2) by (auto intro: pruneAndPersist_tombstoned)
next
  case op_prune
  then show ?thesis using assms(2) by (auto simp: Prune_def intro: pruneAndPersist_tombstoned split: sum.splits)
next
  case op_reload
  then show ?thesis using assms(2,3) by (simp add: Reload_def load_tombstoned)
next
  case op_upsert
  then show ?thesis using assms(2,4) Upsert_tombstoned by auto
next
  case op_restore
  then show ?thesis using assms(2)
    by (auto simp: RestorePrepared_def Let_def case_prod_beta split: sum.splits
        intro!: persist_tombstoned put_grant_tombstoned) (auto simp: tombstoned_def)
next
  case op_revoke
  then show ?thesis using assms(2) Revoke_tombstoned by auto
qed

text \<open>Operations other than an \<open>Upsert\<close> of the identifier.\<close>

abbreviation steps_without_upsert :: "('l) golib_scheme \<Rightarrow> string \<Rightarrow> ApprovalStore \<Rightarrow> ApprovalStore \<Rightarrow> bool" where
  "steps_without_upsert L k \<equiv> (\<lambda>s s'. \<exists>lbl. lbl \<noteq> Some k \<and> approval_step L lbl s s')\<^sup>*\<^sup>*"

lemma steps_tombstoned:
  assumes "steps_without_upsert L k st st'" "tombstoned k st" "approval_inv L st" "sha256_32 L"
  shows "tombstoned k st' \<and> approval_inv L st'"
  using assms(1)
proof (induction rule: rtranclp_induct)
  case (step y z)
  then show ?case using approval_step_tombstoned approval_step_inv assms(4) by blast
qed (use assms in simp)

lemma tombstoned_not_granted:
  assumes "tombstoned k st" "approval_inv L st"
  shows "map_of (st_grants st) k = None" "map_of (st_revocations st) k \<noteq> None"
proof -
  obtain r where r: "(k, r) \<in> set (st_revocations st)" using assms(1) by (auto simp: tombstoned_def)
  then show "map_of (st_grants st) k = None"
    using assms(2) load_revocation_ok_not_granted [of "st_grants st" "(k, r)"] by (auto simp: approval_inv_def store_ok_def list_all_iff)
  show "map_of (st_revocations st) k \<noteq> None" using r by (metis map_of_eq_None_iff fst_conv image_eqI)
qed

lemma Revoke_True:
  assumes "Revoke authority k now t w st = (st', Inr True)"
  shows "tombstoned (TrimSpace k) st' \<and> w = WriteDone"
  using assms
  by (auto simp: Revoke_def Let_def case_prod_beta persist_def writeLocked_def tombstoned_def keys_update
      split: sum.splits if_splits write_outcome.splits)

text \<open>
  C24. A revoked approval stays revoked. After \<open>Revoke\<close> reported that it removed a grant, no sequence of
  operations brings it back, crash recovery (\<open>RestorePrepared\<close>), reloads of the file and failing writes
  included, unless the recipient explicitly approves the same scope again (\<open>Upsert\<close> of that
  identifier): the grant is not in the store, \<open>Match\<close> never returns it, and \<open>RestorePrepared\<close> for it
  fails.
\<close>

theorem revoked_stays_revoked:
  assumes "Revoke authority k now t w st = (st1, Inr True)" "t \<noteq> zero_time" "approval_inv L st" "sha256_32 L"
    "steps_without_upsert L (TrimSpace k) st1 st2"
  shows "map_of (st_grants st2) (TrimSpace k) = None \<and>
    (gr_GrantID g = TrimSpace k \<longrightarrow> snd (Match L authority' candidate now' w' st2) \<noteq> Inr (Some g)) \<and>
    (upsert_id L authority' level candidate = Some (TrimSpace k) \<longrightarrow>
       (\<exists>e. snd (RestorePrepared L authority' level candidate grantedAt now' w' st2) = Inl e))"
proof (intro conjI impI)
  have inv1: "approval_inv L st1" using Revoke_inv [OF assms(3,2), of authority k now w] assms(1) by simp
  have tb: "tombstoned (TrimSpace k) st2" and inv: "approval_inv L st2"
    using steps_tombstoned [OF assms(5) _ inv1 assms(4)] Revoke_True [OF assms(1)] by blast+
  note ng = tombstoned_not_granted [OF tb inv]
  show "map_of (st_grants st2) (TrimSpace k) = None" by (rule ng)
  show "snd (Match L authority' candidate now' w' st2) \<noteq> Inr (Some g)" if id: "gr_GrantID g = TrimSpace k"
  proof
    assume "snd (Match L authority' candidate now' w' st2) = Inr (Some g)"
    then obtain st3 where "Match L authority' candidate now' w' st2 = (st3, Inr (Some g))" by (metis prod.collapse)
    then show False
    proof (elim Match_Some)
      fix a c l
      assume "map_of (filter (\<lambda>(_, g). \<not> grant_stale a now' g) (st_grants st2)) (stableApprovalGrantID L a l c) = Some g"
      then have "(stableApprovalGrantID L a l c, g) \<in> set (st_grants st2)" using map_of_SomeD by fastforce
      moreover from this have "gr_GrantID g = stableApprovalGrantID L a l c"
        using inv by (auto simp: approval_inv_def store_ok_def list_all_iff load_grant_ok_iff)
      ultimately show False using ng(1) id by (auto simp: map_of_eq_None_iff image_iff)
    qed
  qed
  show "\<exists>e. snd (RestorePrepared L authority' level candidate grantedAt now' w' st2) = Inl e"
    if "upsert_id L authority' level candidate = Some (TrimSpace k)"
    using that ng(2)
    by (auto simp: upsert_id_def RestorePrepared_def Let_def case_prod_beta persist_def
        split: sum.splits if_splits prod.splits)
qed

lemma demo_grant_id: "validApprovalGrantID (gr_GrantID demo_grant)" "TrimSpace (gr_GrantID demo_grant) = gr_GrantID demo_grant"
proof -
  show v: "validApprovalGrantID (gr_GrantID demo_grant)" using validApprovalGrantID_stable [OF demo_sha] by (simp add: demo_grant_def)
  then have "is_hex_digit (last (gr_GrantID demo_grant))"
    using last_in_set [of "drop (length ''grant_'') (gr_GrantID demo_grant)"]
    by (auto simp: validApprovalGrantID_def hex_ok_def list_all_iff last_drop)
  moreover have "hd (gr_GrantID demo_grant) = CHR ''g''" by (simp add: demo_grant_def stableApprovalGrantID_def)
  ultimately show "TrimSpace (gr_GrantID demo_grant) = gr_GrantID demo_grant"
    using hex_digit_not_space by (intro TrimSpace_id) (auto simp: IsSpace_def demo_grant_def stableApprovalGrantID_def)
qed

definition demo_revoked_store :: ApprovalStore where
  "demo_revoked_store = fst (Revoke demo_authority (gr_GrantID demo_grant) 2 3 WriteDone demo_store)"

lemma demo_revoke: "Revoke demo_authority (gr_GrantID demo_grant) 2 3 WriteDone demo_store = (demo_revoked_store, Inr True)"
proof -
  have fresh: "\<not> grant_stale demo_authority 2 demo_grant"
    by (simp add: demo_grant_def grant_stale_def approvalGrantExpired_def newApprovalGrant_def ApprovalConversationWindow_def
        minute_def second_def)
  show ?thesis unfolding demo_revoked_store_def
    by (simp add: Revoke_def demo_normal demo_grant_id pruneLocked_def demo_upsert(2) fresh persist_def writeLocked_def Let_def)
qed

theorem revoked_stays_revoked_witness:
  "map_of (st_grants demo_revoked_store) (gr_GrantID demo_grant) = None \<and>
   (\<exists>e. snd (RestorePrepared demo_golib demo_authority ApprovalLevelConversation30m demo_candidate 1 4 WriteDone demo_revoked_store) = Inl e)"
proof -
  have "approval_inv demo_golib demo_store" by (rule approval_steps_inv [OF demo_step new_store_inv demo_sha])
  moreover have "upsert_id demo_golib demo_authority ApprovalLevelConversation30m demo_candidate = Some (gr_GrantID demo_grant)"
    by (simp add: upsert_id_def demo_normal demo_grant_def standing_def)
  ultimately show ?thesis
    using revoked_stays_revoked [OF demo_revoke _ _ demo_sha rtranclp.rtrancl_refl] by (simp add: demo_grant_id zero_time_def)
qed

section \<open>The fixed window, rollback and the file\<close>

lemma put_grant_existing:
  assumes "map_of (st_grants st) (gr_GrantID grant) = Some g" "put_grant before changed now w c grant st = (st', Inr r)"
  shows "\<exists>g'. map_of (st_grants st') (gr_GrantID grant) = Some g' \<and> r = Some g' \<and> gr_CreatedAt g' = gr_CreatedAt g \<and>
    gr_ExpiresAt g' = gr_ExpiresAt g"
  using assms
  by (auto simp: put_grant_def persist_def writeLocked_def update_conv' Let_def split: if_splits write_outcome.splits)
    (metis)+

text \<open>
  The 30-minute window never slides. An accepted \<open>Upsert\<close> of a grant that is already there and
  not stale leaves one grant under the identifier, with the creation and expiry times it had.
\<close>

theorem window_never_slides:
  assumes "map_of (st_grants st) k = Some g" "distinct (map fst (st_grants st))" "normalizeApprovalAuthority authority = Inr a"
    "\<not> grant_stale a now g" "upsert_id L authority level candidate = Some k"
    "Upsert L authority level candidate now w st = (st', Inr r)"
  shows "\<exists>g'. map_of (st_grants st') k = Some g' \<and> r = Some g' \<and> gr_CreatedAt g' = gr_CreatedAt g \<and> gr_ExpiresAt g' = gr_ExpiresAt g"
proof -
  obtain c where c: "standing_candidate level candidate = Inr c" "standing level" "k = stableApprovalGrantID L a level c"
    using assms(3,5) by (auto simp: upsert_id_def split: sum.splits if_splits)
  have "(k, g) \<in> set (st_grants st)" using assms(1) by (rule map_of_SomeD)
  then have "map_of (filter (\<lambda>(_, g). \<not> grant_stale a now g) (st_grants st)) k = Some g"
    using assms(2,4) by (intro map_of_is_SomeI) (auto simp: distinct_map_filter)
  moreover have "\<exists>ch st2. st_grants st2 = filter (\<lambda>(_, g). \<not> grant_stale a now g) (st_grants st) \<and>
      put_grant st ch now w c (newApprovalGrant L a level c now) st2 = (st', Inr r)"
    using assms(6) c assms(3)
    by (intro exI conjI) (auto simp: Upsert_def Let_def case_prod_beta standing_def)
  ultimately show ?thesis using put_grant_existing c(3) new_grant_sel(1) by metis
qed

lemma put_grant_done: "\<exists>r. snd (put_grant before changed now WriteDone c g st) = Inr r"
  by (auto simp: put_grant_def persist_def writeLocked_def Let_def split: option.split)

theorem window_never_slides_witness:
  "\<exists>st' g'. Upsert demo_golib demo_authority ApprovalLevelConversation30m demo_candidate 5 WriteDone demo_store = (st', Inr (Some g')) \<and>
     gr_ExpiresAt g' = Some (1 + ApprovalConversationWindow)"
proof -
  have fresh: "\<not> grant_stale demo_authority 5 demo_grant"
    by (simp add: demo_grant_def grant_stale_def approvalGrantExpired_def newApprovalGrant_def ApprovalConversationWindow_def
        minute_def second_def)
  have id: "upsert_id demo_golib demo_authority ApprovalLevelConversation30m demo_candidate = Some (gr_GrantID demo_grant)"
    by (simp add: upsert_id_def demo_normal demo_grant_def standing_def)
  obtain st' r where up: "Upsert demo_golib demo_authority ApprovalLevelConversation30m demo_candidate 5 WriteDone demo_store = (st', Inr r)"
  proof -
    obtain r where "snd (Upsert demo_golib demo_authority ApprovalLevelConversation30m demo_candidate 5 WriteDone demo_store) = Inr r"
      unfolding Upsert_def demo_normal using put_grant_done by (simp add: demo_normal Let_def case_prod_beta) blast
    then show thesis using that by (metis prod.collapse)
  qed
  have "gr_ExpiresAt demo_grant = Some (1 + ApprovalConversationWindow)" by (simp add: demo_grant_def newApprovalGrant_def)
  then show ?thesis
    using window_never_slides [OF _ _ demo_normal(1) fresh id up] up by (auto simp: demo_upsert(2))
qed

lemma roll_back_self [simp]: "roll_back st st = st"
  by (simp add: roll_back_def)

lemma persist_rolled:
  "snd (persist before changed now w ans st) = Inl ErrPersist \<Longrightarrow> ans \<noteq> Inl ErrPersist \<Longrightarrow>
   roll_back before (fst (persist before changed now w ans st)) = fst (persist before changed now w ans st)"
  by (auto simp: persist_def roll_back_def split: if_splits prod.splits sum.splits)

lemma put_grant_rolled:
  "snd (put_grant before changed now w c g st) = Inl ErrPersist \<Longrightarrow>
   roll_back before (fst (put_grant before changed now w c g st)) = fst (put_grant before changed now w c g st)"
  by (auto simp: put_grant_def Let_def intro!: persist_rolled split: option.splits)

lemma pruneAndPersist_rolled:
  "snd (pruneAndPersistLocked a now w st) = Inl ErrPersist \<Longrightarrow>
   roll_back st (fst (pruneAndPersistLocked a now w st)) = fst (pruneAndPersistLocked a now w st)"
  by (auto simp: pruneAndPersistLocked_def Let_def case_prod_beta intro!: persist_rolled)

text \<open>
  A failed write changes nothing in memory: when an operation of the approval store reports that
  it could not persist, the grants and tombstones it works with are exactly those before the call.
\<close>

theorem failed_write_rolls_back:
  "(snd (List authority now w st) = Inl ErrPersist \<longrightarrow> roll_back st (fst (List authority now w st)) = fst (List authority now w st)) \<and>
   (snd (Prune authority now w st) = Inl ErrPersist \<longrightarrow> roll_back st (fst (Prune authority now w st)) = fst (Prune authority now w st)) \<and>
   (snd (Match L authority candidate now w st) = Inl ErrPersist \<longrightarrow>
      roll_back st (fst (Match L authority candidate now w st)) = fst (Match L authority candidate now w st)) \<and>
   (snd (Upsert L authority level candidate now w st) = Inl ErrPersist \<longrightarrow>
      roll_back st (fst (Upsert L authority level candidate now w st)) = fst (Upsert L authority level candidate now w st)) \<and>
   (snd (RestorePrepared L authority level candidate grantedAt now w st) = Inl ErrPersist \<longrightarrow>
      roll_back st (fst (RestorePrepared L authority level candidate grantedAt now w st)) =
      fst (RestorePrepared L authority level candidate grantedAt now w st)) \<and>
   (snd (Revoke authority k now t w st) = Inl ErrPersist \<longrightarrow>
      roll_back st (fst (Revoke authority k now t w st)) = fst (Revoke authority k now t w st))"
proof (intro conjI impI)
  assume a: "snd (List authority now w st) = Inl ErrPersist"
  then show "roll_back st (fst (List authority now w st)) = fst (List authority now w st)"
    using pruneAndPersist_rolled [of _ now w st] by (auto simp: List_def split: sum.splits prod.splits) (metis fst_conv snd_conv)
next
  assume a: "snd (Match L authority candidate now w st) = Inl ErrPersist"
  then show "roll_back st (fst (Match L authority candidate now w st)) = fst (Match L authority candidate now w st)"
    using pruneAndPersist_rolled [of _ now w st] by (auto simp: Match_def split: sum.splits prod.splits) (metis fst_conv snd_conv)
qed (auto simp: Prune_def Upsert_def RestorePrepared_def Revoke_def Let_def case_prod_beta split: sum.splits if_splits
     intro: pruneAndPersist_rolled persist_rolled put_grant_rolled)

theorem failed_write_rolls_back_witness:
  "snd (Revoke demo_authority (gr_GrantID demo_grant) 2 3 WriteUnsynced demo_store) = Inl ErrPersist \<and>
   st_grants (fst (Revoke demo_authority (gr_GrantID demo_grant) 2 3 WriteUnsynced demo_store)) = [(gr_GrantID demo_grant, demo_grant)]"
proof -
  have fresh: "\<not> grant_stale demo_authority 2 demo_grant"
    by (simp add: demo_grant_def grant_stale_def approvalGrantExpired_def newApprovalGrant_def ApprovalConversationWindow_def
        minute_def second_def)
  have err: "snd (Revoke demo_authority (gr_GrantID demo_grant) 2 3 WriteUnsynced demo_store) = Inl ErrPersist"
    by (simp add: Revoke_def demo_normal demo_grant_id pruneLocked_def demo_upsert(2) fresh persist_def writeLocked_def Let_def)
  then have "roll_back demo_store (fst (Revoke demo_authority (gr_GrantID demo_grant) 2 3 WriteUnsynced demo_store)) =
      fst (Revoke demo_authority (gr_GrantID demo_grant) 2 3 WriteUnsynced demo_store)"
    using failed_write_rolls_back [of demo_authority 2 WriteUnsynced demo_store demo_golib demo_candidate ApprovalLevelAllAlways 1
        "gr_GrantID demo_grant" 3] by blast
  then have "st_grants (fst (Revoke demo_authority (gr_GrantID demo_grant) 2 3 WriteUnsynced demo_store)) = st_grants demo_store"
    by (metis (no_types) ApprovalStore.select_convs(1) ApprovalStore.surjective ApprovalStore.update_convs(1,2) roll_back_def)
  with err show ?thesis by (simp add: demo_upsert(2))
qed

text \<open>
  What is written can be read back: loading the file after a successful write, in any process and
  at any later time, succeeds and gives the same tombstones and exactly the grants that have not
  expired since.
\<close>

theorem approval_file_roundtrip:
  assumes "store_ok L (st_grants st) (st_revocations st)" "writeLocked now WriteDone st = (st1, Inr ())" "st_file st0 = st_file st1"
  shows "\<exists>st2. load L True now' WriteDone st0 = (st2, Inr ()) \<and> st_revocations st2 = st_revocations st \<and>
    st_grants st2 = filter (\<lambda>(_, g). \<not> approvalGrantExpired g now') (st_grants st)"
proof -
  let ?gs = "filter (\<lambda>(_, g). \<not> approvalGrantExpired g now') (st_grants st)"
  have "store_ok L ?gs (st_revocations st)" by (rule store_ok_filter) (rule assms(1))
  with assms show ?thesis
    by (auto simp: writeLocked_def load_def store_ok_def Let_def approvalStoreVersion_def legacyApprovalStoreVersion_def)
qed

theorem approval_file_roundtrip_witness:
  "\<exists>st2. load demo_golib True 2 WriteDone (new_store\<lparr>st_file := st_file demo_store\<rparr>) = (st2, Inr ()) \<and>
     st_grants st2 = [(gr_GrantID demo_grant, demo_grant)]"
proof -
  have "approval_inv demo_golib demo_store" by (rule approval_steps_inv [OF demo_step new_store_inv demo_sha])
  then have ok: "store_ok demo_golib (st_grants demo_store) (st_revocations demo_store)" by (simp add: approval_inv_def)
  have fl: "writeLocked 1 WriteDone demo_store = (demo_store, Inr ())"
    by (simp add: writeLocked_def demo_store_def Upsert_def demo_normal new_store_def pruneLocked_def put_grant_def persist_def Let_def)
  have "\<not> approvalGrantExpired demo_grant 2"
    by (simp add: demo_grant_def approvalGrantExpired_def newApprovalGrant_def ApprovalConversationWindow_def minute_def second_def)
  then show ?thesis
    using approval_file_roundtrip [OF ok fl, of "new_store\<lparr>st_file := st_file demo_store\<rparr>" 2] by (auto simp: demo_upsert(2))
qed

text \<open>
  Coverage of scopes is a preorder on the scopes the store accepts: a ceiling covers itself, and a
  request covered by a scope that is itself covered by a ceiling is covered by the ceiling; so
  re-approving within a ceiling never needs, and never gives, more than the ceiling.
\<close>

theorem scope_coverage_preorder:
  "approvalScopeCovers s s = (\<exists>s'. normalizeApprovalAccessScope s = Inr s') \<and>
   (approvalScopeCovers a b \<and> approvalScopeCovers b c \<longrightarrow> approvalScopeCovers a c)"
  by (auto simp: approvalScopeCovers_iff scope_le_refl intro: scope_le_trans)

theorem scope_coverage_preorder_witness: "approvalScopeCovers demo_scope demo_scope"
  using scope_coverage_preorder [of demo_scope demo_scope demo_scope demo_scope] normalize_scope_id [OF demo_normal(4)] by auto

end
