(* ===== verification/Receiver_Scenario.thy ===== *)
theory Receiver_Scenario
  imports Receiver_Methods Approval_Theorems
begin

text \<open>
  What a program of the receiver does when no other goroutine and no crash gets in its way. \<open>surely\<close>
  runs a program alone: whatever the machine does within \<open>G\<close> and the outside answers within \<open>A\<close>, the
  program returns and \<open>Q\<close> holds of its result, of the service, of the log and of the requests it
  started goroutines for. Every program returns: a \<open>prog\<close> is a well-founded tree.
\<close>

section \<open>A program alone\<close>

primrec surely ::
  "(call \<Rightarrow> call_answer \<Rightarrow> bool) \<Rightarrow> (io \<Rightarrow> bool) \<Rightarrow> 'r prog \<Rightarrow> ('r \<Rightarrow> Service \<Rightarrow> history \<Rightarrow> string list \<Rightarrow> bool) \<Rightarrow>
   Service \<Rightarrow> history \<Rightarrow> string list \<Rightarrow> bool" where
  "surely A G (Ret x) Q s l gs \<longleftrightarrow> Q x s l gs"
| "surely A G (Atomic u k) Q s l gs \<longleftrightarrow> (\<forall>io. G io \<longrightarrow> surely A G (k io s) Q (u io s) (Step s (u io s) # l) gs)"
| "surely A G (Ask q k) Q s l gs \<longleftrightarrow> (\<forall>a. A q a \<longrightarrow> surely A G (k a) Q s (Heard q a # Called q # l) gs)"
| "surely A G (Go r prog) Q s l gs \<longleftrightarrow> surely A G prog Q s l (r # gs)"

named_theorems alone \<open>how the building blocks of the programs run alone\<close>

lemma prog_induct [case_names Ret Atomic Ask Go]:
  assumes "\<And>x. P (Ret x)" "\<And>u k. (\<And>io s. P (k io s)) \<Longrightarrow> P (Atomic u k)" "\<And>q k. (\<And>a. P (k a)) \<Longrightarrow> P (Ask q k)" "\<And>r p. P p \<Longrightarrow> P (Go r p)"
  shows "P p"
proof (induction p)
  case (Atomic u k)
  have "P (k io s)" for io s by (rule Atomic [of "k io"]) simp_all
  then show ?case by (rule assms(2))
qed (simp_all add: assms)

lemma surely_bindp [alone]: "surely A G (bindp p q) Q s l gs \<longleftrightarrow> surely A G p (\<lambda>x s l gs. surely A G (q x) Q s l gs) s l gs"
  by (induction p arbitrary: s l gs rule: prog_induct) auto

lemma surely_mono: "surely A G p Q s l gs \<Longrightarrow> (\<And>x s l gs. Q x s l gs \<Longrightarrow> R x s l gs) \<Longrightarrow> surely A G p R s l gs"
  by (induction p arbitrary: s l gs rule: prog_induct) auto

text \<open>The log only grows.\<close>

lemma surely_grow: "surely A G p Q s l gs \<Longrightarrow> set l' \<subseteq> set l \<Longrightarrow> surely A G p (\<lambda>x s l gs. Q x s l gs \<and> set l' \<subseteq> set l) s l gs"
  by (induction p arbitrary: s l gs rule: prog_induct) (simp_all add: subset_insertI2)

lemma surely_heard:
  "surely A G p Q s l gs \<Longrightarrow> \<forall>q a. Heard q a \<in> set l \<longrightarrow> A q a \<Longrightarrow>
     surely A G p (\<lambda>x s l gs. Q x s l gs \<and> (\<forall>q a. Heard q a \<in> set l \<longrightarrow> A q a)) s l gs"
  by (induction p arbitrary: s l gs rule: prog_induct) simp_all

lemma surely_attempt [alone]:
  "surely A G (attempt p k) Q s l gs \<longleftrightarrow>
     surely A G p (\<lambda>x s l gs. case x of Inl e \<Rightarrow> Q (Inl e) s l gs | Inr v \<Rightarrow> surely A G (k v) Q s l gs) s l gs"
  unfolding attempt_def surely_bindp
  by (intro iffI; elim surely_mono; simp split: sum.splits)

lemma surely_basic [alone]:
  "surely A G (err e) Q' s l gs \<longleftrightarrow> Q' (Inl e) s l gs"
  "surely A G (ok v) Q' s l gs \<longleftrightarrow> Q' (Inr v) s l gs"
  "surely A G (ignore p) Q s l gs \<longleftrightarrow> surely A G p (\<lambda>_. Q ()) s l gs"
  "surely A G (look f k) R s l gs \<longleftrightarrow> (\<forall>io. G io \<longrightarrow> surely A G (k (f s)) R s (Step s s # l) gs)"
  "surely A G (change g p') R s l gs \<longleftrightarrow> (\<forall>io. G io \<longrightarrow> surely A G p' R (g s) (Step s (g s) # l) gs)"
  by (simp_all add: err_def ok_def ignore_def look_def change_def surely_bindp)

lemmas surely_gets [alone] =
  journal_get_def pending_get_def

text \<open>The system can do what a program does alone.\<close>

lemma surely_steps:
  assumes "surely A G prog Q (sy_service y) (sy_log y) gs" "sy_threads y i = Some (h, prog)" "\<not> awaiting h"
    "finite (dom (sy_threads y))" "G io" "new_claim io = None" "\<And>q. A q (ans q)"
    "\<forall>r\<in>set gs. \<exists>j. j \<noteq> i \<and> sy_threads y j = Some ([], goroutine r)"
  shows "\<exists>y' h' gs'. (sys_step entries goroutine restart)\<^sup>*\<^sup>* y y' \<and> Q () (sy_service y') (sy_log y') gs' \<and>
    sy_threads y' i = Some (h', Ret ()) \<and> finite (dom (sy_threads y')) \<and>
    (\<forall>r\<in>set gs'. \<exists>j. j \<noteq> i \<and> sy_threads y' j = Some ([], goroutine r))"
  using assms
proof (induction prog arbitrary: y h gs rule: prog_induct)
  case (Ret x)
  then show ?case by (intro exI [of _ y] exI [of _ h] exI [of _ gs]) auto
next
  case (Atomic u k)
  let ?s = "u io (sy_service y)"
  let ?y = "y\<lparr>sy_service := ?s, sy_threads := (sy_threads y)(i \<mapsto> (Step (sy_service y) ?s # h, k io (sy_service y))),
         sy_log := Step (sy_service y) ?s # sy_log y, sy_drawn := drawing io (sy_drawn y)\<rparr>"
  have st: "sys_step entries goroutine restart y ?y"
    using Atomic.prems(2,6) by (intro sys_step.atomic) (simp_all add: fresh_draw_def)
  have fin: "finite (dom (sy_threads ?y))" using Atomic.prems(4) by (simp del: fun_upd_apply)
  have gs: "\<forall>r\<in>set gs. \<exists>j. j \<noteq> i \<and> sy_threads ?y j = Some ([], goroutine r)" using Atomic.prems(8) by auto
  have "\<exists>y' h' gs'. (sys_step entries goroutine restart)\<^sup>*\<^sup>* ?y y' \<and> Q () (sy_service y') (sy_log y') gs' \<and>
    sy_threads y' i = Some (h', Ret ()) \<and> finite (dom (sy_threads y')) \<and>
    (\<forall>r\<in>set gs'. \<exists>j. j \<noteq> i \<and> sy_threads y' j = Some ([], goroutine r))"
    by (rule Atomic.IH [of io "sy_service y" ?y gs "Step (sy_service y) ?s # h", OF _ _ _ fin Atomic.prems(5-7) gs])
      (use Atomic.prems(1,5) in simp_all)
  then show ?case using converse_rtranclp_into_rtranclp [where r = "sys_step entries goroutine restart", OF st] by blast
next
  case (Ask q k)
  let ?y1 = "y\<lparr>sy_threads := (sy_threads y)(i \<mapsto> (Called q # h, Ask q k)), sy_log := Called q # sy_log y\<rparr>"
  let ?y = "?y1\<lparr>sy_threads := (sy_threads ?y1)(i \<mapsto> (Heard q (ans q) # Called q # h, k (ans q))), sy_log := Heard q (ans q) # sy_log ?y1\<rparr>"
  have st1: "sys_step entries goroutine restart y ?y1" using Ask.prems(2,3) by (rule sys_step.issue)
  have st2: "sys_step entries goroutine restart ?y1 ?y" by (rule sys_step.reply) simp_all
  have fin: "finite (dom (sy_threads ?y))" using Ask.prems(4) by (simp del: fun_upd_apply)
  have gs: "\<forall>r\<in>set gs. \<exists>j. j \<noteq> i \<and> sy_threads ?y j = Some ([], goroutine r)" using Ask.prems(8) by auto
  have "\<exists>y' h' gs'. (sys_step entries goroutine restart)\<^sup>*\<^sup>* ?y y' \<and> Q () (sy_service y') (sy_log y') gs' \<and>
    sy_threads y' i = Some (h', Ret ()) \<and> finite (dom (sy_threads y')) \<and>
    (\<forall>r\<in>set gs'. \<exists>j. j \<noteq> i \<and> sy_threads y' j = Some ([], goroutine r))"
    by (rule Ask.IH [of "ans q" ?y gs "Heard q (ans q) # Called q # h", OF _ _ _ fin Ask.prems(5-7) gs])
      (use Ask.prems(1,7) in simp_all)
  then show ?case
    using converse_rtranclp_into_rtranclp [where r = "sys_step entries goroutine restart", OF st1]
      converse_rtranclp_into_rtranclp [where r = "sys_step entries goroutine restart", OF st2] by blast
next
  case (Go r prog)
  obtain j where j: "sy_threads y j = None" using Go.prems(4) ex_new_if_finite [OF infinite_UNIV_nat] by blast
  then have ij: "j \<noteq> i" using Go.prems(2) by auto
  let ?y = "y\<lparr>sy_threads := (sy_threads y)(i \<mapsto> (h, prog), j \<mapsto> ([], goroutine r))\<rparr>"
  have st: "sys_step entries goroutine restart y ?y" using Go.prems(2) j by (rule sys_step.spawn)
  have fin: "finite (dom (sy_threads ?y))" using Go.prems(4) by (simp del: fun_upd_apply)
  have gs: "\<forall>x\<in>set (r # gs). \<exists>j. j \<noteq> i \<and> sy_threads ?y j = Some ([], goroutine x)"
    using Go.prems(8) ij j by (auto simp: fun_upd_def) (metis option.distinct(1))
  have "\<exists>y' h' gs'. (sys_step entries goroutine restart)\<^sup>*\<^sup>* ?y y' \<and> Q () (sy_service y') (sy_log y') gs' \<and>
    sy_threads y' i = Some (h', Ret ()) \<and> finite (dom (sy_threads y')) \<and>
    (\<forall>r\<in>set gs'. \<exists>j. j \<noteq> i \<and> sy_threads y' j = Some ([], goroutine r))"
    by (rule Go.IH [of ?y "r # gs" h, OF _ _ Go.prems(3) fin Go.prems(5-7) gs]) (use Go.prems(1) ij in simp_all)
  then show ?case using converse_rtranclp_into_rtranclp [where r = "sys_step entries goroutine restart", OF st] by blast
qed

section \<open>Writes that succeed\<close>

definition writes_done :: "io \<Rightarrow> bool" where
  "writes_done io \<longleftrightarrow> io_write io = WriteDone"

lemma surely_update:
  assumes "mutation_Get r (sv_mutations s) = Some op" "f op = Some op'" "mu_RequestID op' = r" "validateMutationRecord op' = Inr ()"
    "\<And>t j o'. mutation_Get r j = Some (op'\<lparr>mu_UpdatedAt := t\<rparr>) \<Longrightarrow> o' = Step s (s\<lparr>sv_mutations := j\<rparr>) \<Longrightarrow>
      Q (Inr (op'\<lparr>mu_UpdatedAt := t\<rparr>)) (s\<lparr>sv_mutations := j\<rparr>) (o' # l) gs"
  shows "surely A writes_done (journal_update r f) Q s l gs"
  using assms
  by (auto simp: journal_update_def on_mutations_def mutation_Update_def mutation_Get_def save_or_restore_def mutation_write_def
      write_snapshot_def writes_done_def update_conv' ok_def Let_def)

lemma surely_status:
  assumes "PendingStore_Get r (sv_pending s) = Some n"
    "\<And>pd o'. PendingStore_Get r pd = Some (n\<lparr>pn_Notice := (pn_Notice n)\<lparr>rn_Status := status\<rparr>\<rparr>) \<Longrightarrow> o' = Step s (s\<lparr>sv_pending := pd\<rparr>) \<Longrightarrow>
      Q (Inr ()) (s\<lparr>sv_pending := pd\<rparr>) (o' # l) gs"
  shows "surely A writes_done (pending_status r status) Q s l gs"
  using assms
  by (auto simp: pending_status_def on_pending_def PendingStore_UpdateStatus_def PendingStore_Get_def save_keeping_def pending_write_def
      write_snapshot_def writes_done_def update_conv' ok_def Let_def)

lemma surely_pending_remove:
  assumes "\<And>pd o'. PendingStore_Get r pd = None \<Longrightarrow> o' = Step s (s\<lparr>sv_pending := pd\<rparr>) \<Longrightarrow> Q (Inr ()) (s\<lparr>sv_pending := pd\<rparr>) (o' # l) gs"
  shows "surely A writes_done (pending_remove r) Q s l gs"
  using assms [of "sv_pending s"] assms
  by (auto simp: pending_remove_def on_pending_def PendingStore_Remove_def PendingStore_Get_def save_keeping_def pending_write_def
      write_snapshot_def writes_done_def delete_conv' ok_def Let_def split: option.split)

lemma surely_journal_remove:
  assumes "\<And>j o'. mutation_Get r j = None \<Longrightarrow> o' = Step s (s\<lparr>sv_mutations := j\<rparr>) \<Longrightarrow> Q (Inr ()) (s\<lparr>sv_mutations := j\<rparr>) (o' # l) gs"
  shows "surely A writes_done (journal_remove r) Q s l gs"
  using assms [of "sv_mutations s"] assms
  by (auto simp: journal_remove_def on_mutations_def mutation_Remove_def mutation_Get_def save_or_restore_def mutation_write_def
      write_snapshot_def writes_done_def delete_conv' ok_def Let_def split: option.split)

lemma surely_forget:
  assumes "\<And>pd j s1 s2. PendingStore_Get r pd = None \<Longrightarrow> mutation_Get r j = None \<Longrightarrow>
      Q (Inr ()) (s\<lparr>sv_pending := pd, sv_mutations := j\<rparr>) (Step s1 s2 # Step s s1 # l) gs"
  shows "surely A writes_done (forget r) Q s l gs"
  unfolding forget_def surely_attempt
  by (intro surely_pending_remove) (auto intro!: surely_journal_remove assms)

section \<open>Delivering a result\<close>

definition submissions :: "string \<Rightarrow> history \<Rightarrow> ResultPayload list" where
  "submissions r h = concat (map (\<lambda>o'. case o' of Called (CallSubmitResult r' x) \<Rightarrow> if r' = r then [x] else [] | _ \<Rightarrow> []) h)"

lemma submissions_simps [simp]:
  "submissions r [] = []"
  "submissions r (Step s s' # h) = submissions r h"
  "submissions r (Heard q a # h) = submissions r h"
  "submissions r (Called q # h) = (case q of CallSubmitResult r' x \<Rightarrow> if r' = r then [x] else [] | _ \<Rightarrow> []) @ submissions r h"
  by (simp_all add: submissions_def)

text \<open>The request is over: one result was submitted for it and the receiver has forgotten it.\<close>

definition concluded :: "string \<Rightarrow> ResultPayload \<Rightarrow> Service \<Rightarrow> history \<Rightarrow> bool" where
  "concluded r x s l \<longleftrightarrow> mutation_Get r (sv_mutations s) = None \<and> PendingStore_Get r (sv_pending s) = None \<and> submissions r l = [x]"

text \<open>A relay that accepts decisions, gives out the payload, lets the claims in \<open>C\<close> run and confirms results; what the others answer is open.\<close>

fun helpful :: "string set \<Rightarrow> string \<Rightarrow> ExecutionPayload \<Rightarrow> call \<Rightarrow> call_answer \<Rightarrow> bool" where
  "helpful C r payload (CallFetchExecution r') a \<longleftrightarrow> an_execution a = Inr (Some payload)"
| "helpful C r payload (CallDecide r' d) a \<longleftrightarrow> (\<exists>m. an_mutation a = Inr m \<and> mutationStatus m r = Inr StatusAccepted)"
| "helpful C r payload (CallMarkRunning r' c) a \<longleftrightarrow> c \<notin> C \<or> (\<exists>m. an_mutation a = Inr m \<and> mutationStatus m r = Inr StatusRunning)"
| "helpful C r payload (CallSubmitResult r' x) a \<longleftrightarrow>
     rp_State x = StatusOther [] \<or> (\<exists>m. an_mutation a = Inr m \<and> mutationStatus m r = Inr (rp_State x))"
| "helpful C r payload (CallExecute r' c req) a \<longleftrightarrow> an_run a \<noteq> Inl CallCanceled"
| "helpful C r payload q a \<longleftrightarrow> True"

lemma surely_replay:
  assumes "mu_RequestID op = r" "mu_Phase op = mutationResultPrepared" "mu_Result op = Some x" "rp_ExecutionClaimID x = mu_ExecutionClaimID op"
    "rp_State x \<noteq> StatusOther []" "submissions r l = []" "\<And>s' l'. concluded r x s' l' \<Longrightarrow> Q (Inr ()) s' l' gs"
  shows "surely (helpful C r payload) writes_done (replayPreparedResult op) Q s l gs"
  using assms
  by (auto simp: replayPreparedResult_def concluded_def split: sum.splits intro!: surely_forget)

section \<open>Valid records on the way\<close>

lemma valid_parts:
  "validateMutationRecordWithLegacy op a b = Inr () \<longleftrightarrow>
     validate_identity op = Inr () \<and> validate_authority op a b = Inr () \<and> validate_level op = Inr () \<and> validate_phase op = Inr ()"
  by (auto simp: validateMutationRecordWithLegacy_def split: sum.splits)

lemma validate_frame:
  assumes "mu_RequestID op' = mu_RequestID op" "mu_Decision op' = mu_Decision op" "mu_ApprovalLevel op' = mu_ApprovalLevel op"
    "mu_ApprovalGrantID op' = mu_ApprovalGrantID op" "mu_ApprovalGrantPersisted op' = mu_ApprovalGrantPersisted op"
    "mu_ApprovalAuthorityFingerprint op' = mu_ApprovalAuthorityFingerprint op"
    "mu_ApprovalRecipientAgentID op' = mu_ApprovalRecipientAgentID op" "mu_ApprovedNotice op' = mu_ApprovedNotice op"
  shows "validate_authority op' a b = validate_authority op a b" "validate_level op' = validate_level op"
proof -
  have same: "record_authority op' = record_authority op" by (simp add: record_authority_def assms)
  show "validate_authority op' a b = validate_authority op a b" "validate_level op' = validate_level op"
    unfolding validate_authority_def validate_level_def same assms by (rule refl)+
qed

lemma validate_other_phase:
  assumes "validate_identity op = Inr ()" "p \<noteq> mutationPhaseOther []"
  shows "validate_identity (op\<lparr>mu_Phase := p, mu_Result := x\<rparr>) = Inr ()" "validate_identity (op\<lparr>mu_Phase := p\<rparr>) = Inr ()"
    "validate_authority (op\<lparr>mu_Phase := p, mu_Result := x\<rparr>) a b = validate_authority op a b"
    "validate_authority (op\<lparr>mu_Phase := p\<rparr>) a b = validate_authority op a b"
    "validate_level (op\<lparr>mu_Phase := p, mu_Result := x\<rparr>) = validate_level op" "validate_level (op\<lparr>mu_Phase := p\<rparr>) = validate_level op"
proof -
  show "validate_identity (op\<lparr>mu_Phase := p, mu_Result := x\<rparr>) = Inr ()" "validate_identity (op\<lparr>mu_Phase := p\<rparr>) = Inr ()"
    using assms by (auto simp: validate_identity_def validDecision_def split: if_splits)
qed (rule validate_frame; simp)+

lemma valid_claim:
  assumes "validateMutationRecord op = Inr ()" "mu_Phase op = mutationClaimPrepared \<or> mu_Phase op = mutationRuntimeStarted"
  shows "mu_ExecutionClaimID op \<noteq> []" "mu_Result op = None" "mu_RequestID op \<noteq> []"
  using assms by (auto simp: validateMutationRecord_def valid_parts validate_phase_def validate_identity_def Let_def split: if_splits)

lemma valid_started:
  assumes "validateMutationRecord op = Inr ()" "mu_Phase op = mutationClaimPrepared"
  shows "validateMutationRecord (op\<lparr>mu_Phase := mutationRuntimeStarted\<rparr>) = Inr ()"
proof -
  from assms(1) have v: "validate_identity op = Inr ()" "validate_authority op False False = Inr ()" "validate_level op = Inr ()" "validate_phase op = Inr ()"
    by (simp_all add: validateMutationRecord_def valid_parts)
  with assms(2) have "validate_phase (op\<lparr>mu_Phase := mutationRuntimeStarted\<rparr>) = Inr ()" by (simp add: validate_phase_def Let_def)
  with v show ?thesis unfolding validateMutationRecord_def valid_parts by (simp add: validate_other_phase [OF v(1)])
qed

lemma valid_result:
  assumes "validateMutationRecord op = Inr ()" "mu_Phase op = mutationRuntimeStarted" "rp_ExecutionClaimID x = mu_ExecutionClaimID op"
    "rp_State x = StatusCompleted \<or> rp_State x = StatusFailed"
  shows "validateMutationRecord (op\<lparr>mu_Phase := mutationResultPrepared, mu_Result := Some x\<rparr>) = Inr ()"
proof -
  from assms(1) have v: "validate_identity op = Inr ()" "validate_authority op False False = Inr ()" "validate_level op = Inr ()"
    by (simp_all add: validateMutationRecord_def valid_parts)
  moreover have "validate_phase (op\<lparr>mu_Phase := mutationResultPrepared, mu_Result := Some x\<rparr>) = Inr ()"
    using assms(3,4) valid_claim(1) [OF assms(1)] assms(2) by (auto simp: validate_phase_def Let_def)
  ultimately show ?thesis unfolding validateMutationRecord_def valid_parts by (simp add: validate_other_phase [OF v(1)])
qed

text \<open>A loaded record that passes the checks of an execution could have been written by this version.\<close>

lemma bound_is_strict:
  assumes "validateMutationRecordForLoad op = Inr ()" "authority_current op au = Inr ()" "notice_current L op found = Inr n"
  shows "validateMutationRecord op = Inr ()"
proof -
  have "mu_ApprovalAuthorityFingerprint op \<noteq> []"
    using assms(2) by (auto simp: authority_current_def approvalAuthorityFromMutation_def split: if_splits sum.splits)
  moreover have "mu_ApprovedNotice op \<noteq> None" using assms(3) by (cases "mu_ApprovedNotice op") (simp_all add: notice_current_def)
  ultimately have "validate_authority op True True = Inr () \<Longrightarrow> validate_authority op False False = Inr ()"
    by (auto simp: validate_authority_def Let_def split: if_splits)
  with assms(1) show ?thesis by (simp add: validateMutationRecord_def validateMutationRecordForLoad_def valid_parts)
qed

section \<open>An execution alone\<close>

text \<open>The execution has crossed the start boundary; and it is over.\<close>

definition started_alone :: "string \<Rightarrow> mutationRecord \<Rightarrow> Service \<Rightarrow> history \<Rightarrow> bool" where
  "started_alone r op s l \<longleftrightarrow> mutation_Get r (sv_mutations s) = Some op \<and> mu_RequestID op = r \<and> validateMutationRecord op = Inr () \<and>
     mu_Phase op = mutationRuntimeStarted \<and> submissions r l = []"

definition over :: "string \<Rightarrow> string \<Rightarrow> Service \<Rightarrow> history \<Rightarrow> bool" where
  "over r c s l \<longleftrightarrow> (\<exists>x. concluded r x s l \<and> rp_ExecutionClaimID x = c \<and> (rp_State x = StatusCompleted \<or> rp_State x = StatusFailed))"

text \<open>Over, and without files to fetch and with known workspaces the runtime was asked to do what was approved.\<close>

definition answered :: "ServiceConfig \<Rightarrow> ExecutionPayload \<Rightarrow> string \<Rightarrow> string \<Rightarrow> Service \<Rightarrow> history \<Rightarrow> bool" where
  "answered cf payload r c s l \<longleftrightarrow> over r c s l \<and>
     (\<forall>ws. \<not> cf_artifacts cf \<and> ep_Attachments payload = [] \<and> resolveRequestedWorkspaces cf (ep_RequestedAccess payload) = Inr ws \<longrightarrow>
        Called (CallExecute r c (run_request cf payload ws None)) \<in> set l)"

lemma started_alone_log [simp]:
  "started_alone r op s (Step s1 s2 # l) = started_alone r op s l" "started_alone r op s (Heard q a # l) = started_alone r op s l"
  "started_alone r op s (Called (CallExecute r' c' req) # l) = started_alone r op s l"
  "started_alone r op s (Called (CallMaterialize ds) # l) = started_alone r op s l"
  "started_alone r op s (Called (CallCollectResults sb) # l) = started_alone r op s l"
  "started_alone r op (s\<lparr>sv_pending := pd\<rparr>) l = started_alone r op s l"
  by (auto simp: started_alone_def)

lemma over_log [simp]:
  "over r c s (Heard q a # Called (CallCleanup sb) # l) = over r c s l" "over r c s (Step s1 s2 # l) = over r c s l"
  "over r c (s\<lparr>sv_active := x\<rparr>) l = over r c s l"
  by (auto simp: over_def concluded_def)

lemma answered_log [simp]:
  "answered cf payload r c (s\<lparr>sv_active := x\<rparr>) (Step s1 s2 # l) = answered cf payload r c s l"
  by (simp add: answered_def)

lemma surely_submit:
  assumes "started_alone r op s l" "rp_ExecutionClaimID x = mu_ExecutionClaimID op" "rp_State x = StatusCompleted \<or> rp_State x = StatusFailed"
    "\<And>s' l'. over r (mu_ExecutionClaimID op) s' l' \<Longrightarrow> Q (Inr ()) s' l' gs"
  shows "surely (helpful C r payload) writes_done (prepareAndSubmitResult op x) Q s l gs"
proof -
  from assms(1) have op: "mutation_Get r (sv_mutations s) = Some op" "mu_RequestID op = r" "validateMutationRecord op = Inr ()"
    "mu_Phase op = mutationRuntimeStarted" "submissions r l = []" by (simp_all add: started_alone_def)
  let ?op = "op\<lparr>mu_Phase := mutationResultPrepared, mu_Result := Some x\<rparr>"
  have "prepare_result x op = Some ?op" using op(4) assms(2) by (simp add: prepare_result_def)
  moreover have "validateMutationRecord ?op = Inr ()" by (rule valid_result) (use op assms in simp_all)
  moreover have "rp_State x \<noteq> StatusOther []" using assms(3) by auto
  moreover have "Q (Inr ()) s' l' gs" if "concluded r x s' l'" for s' l' using that assms(2-4) by (auto simp: over_def)
  ultimately show ?thesis
    using op assms(2,3) unfolding prepareAndSubmitResult_def surely_attempt
    by (simp add: surely_attempt) (rule surely_update [of r s op _ ?op]; simp add: surely_replay)
qed

lemma surely_failure:
  assumes "started_alone r op s l" "\<And>s' l'. over r (mu_ExecutionClaimID op) s' l' \<Longrightarrow> Q () s' l' gs"
  shows "surely (helpful C r payload) writes_done (submitFailure cf r (mu_ExecutionClaimID op) e) Q s l gs"
  using assms by (auto simp: submitFailure_def alone failure_result_def started_alone_def intro!: surely_submit)

lemma surely_report:
  assumes "started_alone r op s l" "\<And>s' l'. over r (mu_ExecutionClaimID op) s' l' \<Longrightarrow> Q () s' l' gs"
  shows "surely (helpful C r payload) writes_done (report cf r op req sandbox run) Q s l gs"
  using assms
  by (auto simp: report_def alone completed_result_def intro!: surely_submit surely_failure split: option.split sum.split)

lemma surely_run_in:
  assumes "started_alone r op s l" "\<And>s' l'. over r (mu_ExecutionClaimID op) s' l' \<Longrightarrow> Q () s' l' gs"
  shows "surely (helpful C r payload) writes_done (run_in cf r op payload sandbox) Q s l gs"
  using assms
  by (auto simp: run_in_def alone Let_def intro!: surely_report surely_failure split: sum.split)

lemma surely_run_plain:
  assumes "started_alone r op s l" "resolveRequestedWorkspaces cf (ep_RequestedAccess payload) = Inr ws"
    "\<And>s' l'. over r (mu_ExecutionClaimID op) s' l' \<Longrightarrow> Called (CallExecute r (mu_ExecutionClaimID op) (run_request cf payload ws sandbox)) \<in> set l' \<Longrightarrow> Q () s' l' gs"
  shows "surely (helpful C r payload) writes_done (run_in cf r op payload sandbox) Q s l gs"
proof -
  let ?q = "CallExecute r (mu_ExecutionClaimID op) (run_request cf payload ws sandbox)"
  have run: "surely (helpful C r payload) writes_done
      (case an_run a of Inl e \<Rightarrow> if e = CallCanceled then Ret () else submitFailure cf r (mu_ExecutionClaimID op) (ErrCall e)
        | Inr run \<Rightarrow> report cf r op (run_request cf payload ws sandbox) sandbox run)
      (\<lambda>_ s' l' gs'. (over r (mu_ExecutionClaimID op) s' l' \<and> gs' = gs) \<and> set [Called ?q] \<subseteq> set l') s (Heard ?q a # Called ?q # l) gs"
    if "an_run a \<noteq> Inl CallCanceled" for a
    using assms(1) that by (intro surely_grow) (auto split: sum.split intro!: surely_report surely_failure)
  show ?thesis
    using assms(2) by (simp add: run_in_def Let_def) (intro allI impI, rule surely_mono [OF run], auto intro: assms(3))
qed

lemma surely_execute_started:
  assumes "started_alone r op s l" "PendingStore_Get r (sv_pending s) = Some n"
    "\<And>s' l'. answered cf payload r (mu_ExecutionClaimID op) s' l' \<Longrightarrow> Q () s' l' gs"
  shows "surely (helpful C r payload) writes_done (execute_started cf r op payload) Q s l gs"
proof -
  have over: "Q () s' l' gs"
    if "over r (mu_ExecutionClaimID op) s' l'" "cf_artifacts cf \<or> ep_Attachments payload \<noteq> [] \<or> (\<exists>e. resolveRequestedWorkspaces cf (ep_RequestedAccess payload) = Inl e)"
    for s' l' using that assms(3) by (auto simp: answered_def)
  have plain: "surely (helpful C r payload) writes_done (run_in cf r op payload None) Q s l gs"
    if "started_alone r op s l" "\<not> cf_artifacts cf" "ep_Attachments payload = []" for s l
  proof (cases "resolveRequestedWorkspaces cf (ep_RequestedAccess payload)")
    case (Inl e)
    then show ?thesis using that over by (auto intro!: surely_run_in)
  next
    case (Inr ws)
    then show ?thesis using that assms(3) by (intro surely_run_plain) (auto simp: answered_def)
  qed
  show ?thesis
    unfolding execute_started_def surely_bindp using assms(1) over plain
    by (intro surely_status [OF assms(2)])
      (auto simp: alone intro!: surely_run_in surely_failure split: sum.split)
qed

text \<open>The request waits for its goroutine: the claim is in the journal and everything still fits.\<close>

definition claimed_alone :: "('l) golib_scheme \<Rightarrow> string \<Rightarrow> string \<Rightarrow> approvedNoticeBinding \<Rightarrow> Service \<Rightarrow> history \<Rightarrow> bool" where
  "claimed_alone L r c b s l \<longleftrightarrow> (\<exists>op n. mutation_Get r (sv_mutations s) = Some op \<and> mu_RequestID op = r \<and> validateMutationRecord op = Inr () \<and>
     mu_Phase op = mutationClaimPrepared \<and> mu_ExecutionClaimID op = c \<and> mu_ApprovedNotice op = Some b \<and>
     authority_current op (sv_authority s) = Inr () \<and> notice_current L op (PendingStore_Get r (sv_pending s)) = Inr n) \<and> submissions r l = []"

lemma surely_execute:
  assumes "claimed_alone L r c b s l" "validateExecutionPayloadAgainstApprovedBinding L b payload = Inr ()"
    "\<And>s' l'. answered cf payload r c s' l' \<Longrightarrow> Q () s' l' gs" "c \<in> C"
  shows "surely (helpful C r payload) writes_done (execute L cf r) Q s l gs"
proof -
  from assms(1) obtain op n where get: "mutation_Get r (sv_mutations s) = Some op" and op: "mu_RequestID op = r" "validateMutationRecord op = Inr ()"
    and phase: "mu_Phase op = mutationClaimPrepared" and c: "mu_ExecutionClaimID op = c" and b: "mu_ApprovedNotice op = Some b"
    and current: "authority_current op (sv_authority s) = Inr ()" "notice_current L op (PendingStore_Get r (sv_pending s)) = Inr n"
    and log: "submissions r l = []" unfolding claimed_alone_def by blast
  note claim = valid_claim [OF op(2)]
  obtain rec where rec: "PendingStore_Get r (sv_pending s) = Some rec" using current(2) b by (auto simp: notice_current_def split: if_splits option.splits)
  have boundary: "surely (helpful C r payload) writes_done (journal_update r (start_boundary (mu_ExecutionClaimID op)))
      (\<lambda>x s l gs. surely (helpful C r payload) writes_done (case x of Inl _ \<Rightarrow> Ret () | Inr op1 \<Rightarrow> execute_started cf r op1 payload) Q s l gs) s l gs"
    if "submissions r l = []" for l
  proof (rule surely_update [OF get])
    show "start_boundary (mu_ExecutionClaimID op) op = Some (op\<lparr>mu_Phase := mutationRuntimeStarted\<rparr>)" using phase by (simp add: start_boundary_def)
    show valid: "validateMutationRecord (op\<lparr>mu_Phase := mutationRuntimeStarted\<rparr>) = Inr ()" by (rule valid_started [OF op(2) phase])
    fix t j o'
    assume "mutation_Get r j = Some (op\<lparr>mu_Phase := mutationRuntimeStarted, mu_UpdatedAt := t\<rparr>)" "o' = Step s (s\<lparr>sv_mutations := j\<rparr>)"
    then show "surely (helpful C r payload) writes_done
        (case Inr (op\<lparr>mu_Phase := mutationRuntimeStarted, mu_UpdatedAt := t\<rparr>) of Inl _ \<Rightarrow> Ret () | Inr op1 \<Rightarrow> execute_started cf r op1 payload)
        Q (s\<lparr>sv_mutations := j\<rparr>) (o' # l) gs"
      using valid op that rec assms(3) c by (auto simp: started_alone_def validateMutationRecord_def intro!: surely_execute_started)
  qed (simp add: op)
  show ?thesis
    using get phase b current log assms(2,4) c op(2) claim(1,2) rec
    by (auto simp: op(1) execute_def execute_claimed_def alone still_approved_def requireCurrentApprovalAuthority_def requireCurrentApprovedNotice_def
        split: sum.splits intro!: boundary)
qed

lemma surely_goroutine:
  assumes "claimed_alone L r c b s l" "validateExecutionPayloadAgainstApprovedBinding L b payload = Inr ()"
    "\<And>s' l'. answered cf payload r c s' l' \<Longrightarrow> \<not> hasActiveRequest r s' \<Longrightarrow> Q () s' l' gs" "c \<in> C"
  shows "surely (helpful C r payload) writes_done (execution_goroutine L cf r) Q s l gs"
  unfolding execution_goroutine_def surely_bindp
  by (rule surely_execute [OF assms(1,2)]) (auto simp: alone hasActiveRequest_def delete_conv' assms(4) intro!: assms(3))

section \<open>An allowance alone\<close>

lemma surely_narrow:
  "surely A G p Q s l gs \<Longrightarrow> (\<And>q a. A' q a \<Longrightarrow> A q a) \<Longrightarrow> (\<And>io. G' io \<Longrightarrow> G io) \<Longrightarrow> surely A' G' p Q s l gs"
  by (induction p arbitrary: s l gs rule: prog_induct) auto

definition identifiers_drawn :: "io \<Rightarrow> bool" where
  "identifiers_drawn io \<longleftrightarrow> writes_done io \<and> (\<exists>d c. io_decision io = Some d \<and> io_claim io = Some c \<and> length d = 32 \<and> length c = 32)"

lemma notice_current_status:
  assumes "notice_current L op (Some n) = Inr n'"
  shows "\<exists>n'. notice_current L op (Some (n\<lparr>pn_Notice := (pn_Notice n)\<lparr>rn_Status := st\<rparr>\<rparr>)) = Inr n'"
  using assms
  by (auto simp: notice_current_def validateNoticeAgainstApprovedBinding_def approvedNoticeBindingFor_def notice_binding_def Let_def
      split: option.splits if_splits sum.splits)

lemma current_frame:
  assumes "mu_RequestID op' = mu_RequestID op" "mu_ApprovalAuthorityFingerprint op' = mu_ApprovalAuthorityFingerprint op"
    "mu_ApprovalRecipientAgentID op' = mu_ApprovalRecipientAgentID op" "mu_ApprovedNotice op' = mu_ApprovedNotice op"
  shows "authority_current op' au = authority_current op au" "notice_current L op' found = notice_current L op found"
  unfolding authority_current_def approvalAuthorityFromMutation_def record_authority_def notice_current_def assms by (rule refl)+

lemma surely_start:
  assumes "claimed_alone L r c b s l" "sv_running s" "\<not> hasActiveRequest r s" "status = StatusAccepted \<or> status = StatusRunning"
    "\<And>s' l'. claimed_alone L r c b s' l' \<Longrightarrow> Q (Inr ()) s' l' (r # gs)"
  shows "surely A G (startExecution L r status) Q s l gs"
proof -
  have "claimed_alone L r c b (s\<lparr>sv_active := (r, False) # sv_active s\<rparr>) (Step s1 s2 # Step s3 s4 # Step s5 s6 # Step s7 s8 # l)" for s1 s2 s3 s4 s5 s6 s7 s8
    using assms(1) by (simp add: claimed_alone_def)
  from assms(5) [OF this] show ?thesis
    using assms(1-4) unfolding claimed_alone_def
    by (auto simp: startExecution_def alone still_approved_def requireCurrentApprovalAuthority_def requireCurrentApprovedNotice_def enter_execution_def)
qed

lemma valid_claimed:
  assumes "validateMutationRecord op = Inr ()" "mu_Phase op = mutationDecisionPrepared" "mu_Decision op = DecisionAllowOnce"
  shows "validateMutationRecord (op\<lparr>mu_Phase := mutationClaimPrepared\<rparr>) = Inr ()" "mu_ExecutionClaimID op \<noteq> []"
proof -
  from assms(1) have v: "validate_identity op = Inr ()" "validate_authority op False False = Inr ()" "validate_level op = Inr ()" "validate_phase op = Inr ()"
    by (simp_all add: validateMutationRecord_def valid_parts)
  with assms(2,3) show claim: "mu_ExecutionClaimID op \<noteq> []" by (auto simp: validate_phase_def Let_def split: if_splits)
  with v(4) assms(2,3) have "validate_phase (op\<lparr>mu_Phase := mutationClaimPrepared\<rparr>) = Inr ()"
    by (auto simp: validate_phase_def Let_def split: if_splits)
  with v show "validateMutationRecord (op\<lparr>mu_Phase := mutationClaimPrepared\<rparr>) = Inr ()"
    unfolding validateMutationRecord_def valid_parts by (simp add: validate_other_phase [OF v(1)])
qed

text \<open>An allowance is in the journal and was not sent yet.\<close>

definition decided_alone :: "('l) golib_scheme \<Rightarrow> string \<Rightarrow> mutationRecord \<Rightarrow> Service \<Rightarrow> history \<Rightarrow> bool" where
  "decided_alone L r op s l \<longleftrightarrow> (\<exists>t. mutation_Get r (sv_mutations s) = Some (op\<lparr>mu_UpdatedAt := t\<rparr>)) \<and> mu_RequestID op = r \<and>
     validateMutationRecord op = Inr () \<and> mu_Phase op = mutationDecisionPrepared \<and> mu_Decision op = DecisionAllowOnce \<and>
     authority_current op (sv_authority s) = Inr () \<and> (\<exists>n. notice_current L op (PendingStore_Get r (sv_pending s)) = Inr n) \<and>
     sv_running s \<and> \<not> hasActiveRequest r s \<and> submissions r l = []"

lemma surely_still_approved:
  assumes "authority_current op (sv_authority s) = Inr ()" "notice_current L op (PendingStore_Get (mu_RequestID op) (sv_pending s)) = Inr n"
    "Q (Inr n) s (Step s s # Step s s # l) gs"
  shows "surely A G (still_approved L op) Q s l gs"
  using assms by (simp add: still_approved_def requireCurrentApprovalAuthority_def requireCurrentApprovedNotice_def alone)

lemma surely_accepted:
  assumes "decided_alone L r op s l" "mu_ApprovedNotice op = Some b"
    "\<And>s' l'. claimed_alone L r (mu_ExecutionClaimID op) b s' l' \<Longrightarrow> Q (Inr ()) s' l' (r # gs)"
  shows "surely A writes_done (accepted_by_relay L r op StatusAccepted) Q s l gs"
proof -
  from assms(1) obtain t n where get: "mutation_Get r (sv_mutations s) = Some (op\<lparr>mu_UpdatedAt := t\<rparr>)" and op: "mu_RequestID op = r"
      "validateMutationRecord op = Inr ()" "mu_Phase op = mutationDecisionPrepared" "mu_Decision op = DecisionAllowOnce"
    and current: "authority_current op (sv_authority s) = Inr ()" "notice_current L op (PendingStore_Get r (sv_pending s)) = Inr n"
    and idle: "sv_running s" "\<not> hasActiveRequest r s" and log: "submissions r l = []" unfolding decided_alone_def by blast
  note valid = valid_claimed [OF op(2-4)]
  obtain rec where rec: "PendingStore_Get r (sv_pending s) = Some rec" using current(2) assms(2) by (auto simp: notice_current_def split: if_splits option.splits)
  let ?op = "\<lambda>t. op\<lparr>mu_Phase := mutationClaimPrepared, mu_UpdatedAt := t\<rparr>"
  obtain n' where n': "notice_current L op (Some (rec\<lparr>pn_Notice := (pn_Notice rec)\<lparr>rn_Status := StatusAccepted\<rparr>\<rparr>)) = Inr n'"
    using notice_current_status [of L op rec n] current(2) rec by metis
  have claimed: "claimed_alone L r (mu_ExecutionClaimID op) b (s\<lparr>sv_mutations := j, sv_pending := pd\<rparr>) (Step s1 s2 # Step s3 s4 # Step s s # Step s s # l)"
    if "map_option (mu_UpdatedAt_update (\<lambda>_. 0)) (mutation_Get r j) = Some (?op 0)"
      "PendingStore_Get r pd = Some (rec\<lparr>pn_Notice := (pn_Notice rec)\<lparr>rn_Status := StatusAccepted\<rparr>\<rparr>)" for j pd s1 s2 s3 s4
  proof -
    from that(1) obtain x where x: "mutation_Get r j = Some x" "x\<lparr>mu_UpdatedAt := 0\<rparr> = ?op 0" by auto
    from x(2) have "x = ?op (mu_UpdatedAt x)" by (cases x; cases op) simp
    then obtain t' where "mutation_Get r j = Some (?op t')" using x(1) by metis
    then show ?thesis
      using that(2) valid op(1) assms(2) current(1) n' log current_frame(1) [of "?op t'" op] current_frame(2) [of "?op t'" op L]
      by (auto simp: claimed_alone_def validateMutationRecord_def)
  qed
  have "validateMutationRecord (?op t) = Inr ()" using valid(1) by (simp add: validateMutationRecord_def)
  moreover have "notice_current L op (Some rec) = Inr n" using current(2) rec by simp
  ultimately show ?thesis
    unfolding accepted_by_relay_def using valid(2) idle(2)
    by (auto simp: surely_attempt claim_after_decision_def op rec idle(1) hasActiveRequest_def
        intro!: surely_still_approved [OF current(1)] surely_update [OF get, of _ "?op t"] surely_status [of r _ rec]
          surely_start [of L r "mu_ExecutionClaimID op" b] claimed assms(3))
qed

lemma surely_commit:
  assumes "decided_alone L r op s l" "mu_ApprovedNotice op = Some b"
    "\<And>s' l'. claimed_alone L r (mu_ExecutionClaimID op) b s' l' \<Longrightarrow> Q (Inr StatusAccepted) s' l' (r # gs)"
  shows "surely (helpful C r payload) writes_done (commitAllowOnce L r op) Q s l gs"
proof -
  have log: "decided_alone L r op s (Heard q a # Called (CallDecide r d) # Step s s # Step s s # l)" for q a d
    using assms(1) by (auto simp: decided_alone_def)
  from assms(1) obtain n where "authority_current op (sv_authority s) = Inr ()" and r: "mu_RequestID op = r"
    and "notice_current L op (PendingStore_Get r (sv_pending s)) = Inr n" unfolding decided_alone_def by blast
  then show ?thesis
    unfolding commitAllowOnce_def r [symmetric]
    by (auto simp: surely_attempt decide_def handleDecisionMutation_def surely_basic
        intro!: surely_still_approved surely_accepted [OF log assms(2), folded r] assms(3) [folded r])
qed

text \<open>A notice that the recipient may allow: it waits in the inbox, and nothing is running.\<close>

definition allowable :: "('l) golib_scheme \<Rightarrow> ServiceConfig \<Rightarrow> string \<Rightarrow> PendingRecord \<Rightarrow> approvedNoticeBinding \<Rightarrow> Service \<Rightarrow> bool" where
  "allowable L cf r rec b s \<longleftrightarrow> PendingStore_Get r (sv_pending s) = Some rec \<and> rn_RequestID (pn_Notice rec) = r \<and> r \<noteq> [] \<and> TrimSpace r = r \<and>
     rn_Status (pn_Notice rec) = StatusAwaitingApproval \<and> validateNotice cf (pn_Notice rec) = Inr () \<and>
     approvedNoticeBindingFor L (pn_Notice rec) = Inr b \<and> normalizeApprovalAuthority (sv_authority s) = Inr (sv_authority s) \<and>
     mutation_Get r (sv_mutations s) = None \<and> sv_running s \<and> sv_active s = []"

lemma normalized_authority:
  assumes "normalizeApprovalAuthority a = Inr a"
  shows "TrimSpace (au_Fingerprint a) = au_Fingerprint a" "TrimSpace (au_RecipientAgentID a) = au_RecipientAgentID a"
    "au_Fingerprint a \<noteq> []" "au_RecipientAgentID a \<noteq> []"
  using assms by (cases a; auto simp: normalizeApprovalAuthority_def validApprovalValue_def Let_def split: if_splits)+

lemma same_binding_refl:
  assumes "validateApprovedNoticeBinding b r"
  shows "sameApprovedNoticeBinding L b b"
proof -
  have "is_ascii (TrimSpace (nb_PromptSHA256 b))"
    using assms hex_ok_ascii by (auto simp: validateApprovedNoticeBinding_def Let_def is_ascii_def)
  then show ?thesis
    by (simp add: sameApprovedNoticeBinding_def sameRequestedAccess_def sameArtifactDescriptors_def list_all2_refl EqualFold_ascii_refl)
qed

lemma prepared_is_bound:
  assumes "allowable L cf r rec b s" "length d = 32" "length c = 32"
    "op = prepared_operation (pn_Notice rec) DecisionAllowOnce ApprovalLevelAskAlways [] False (sv_authority s) (Some b) (''decision_'' @ hex_encode d) (''claim_'' @ hex_encode c)"
  shows "validateMutationRecord op = Inr ()" "authority_current op (sv_authority s) = Inr ()" "notice_current L op (Some rec) = Inr rec"
proof -
  from assms(1) have al: "rn_RequestID (pn_Notice rec) = r" "r \<noteq> []" "approvedNoticeBindingFor L (pn_Notice rec) = Inr b"
    "normalizeApprovalAuthority (sv_authority s) = Inr (sv_authority s)" by (simp_all add: allowable_def)
  note au = normalized_authority [OF al(4)]
  have b: "validateApprovedNoticeBinding b r" using al(1,3) by (auto simp: approvedNoticeBindingFor_def Let_def split: if_splits)
  have rec: "record_authority op = sv_authority s" by (simp add: assms(4) record_authority_def prepared_operation_def)
  have "validate_identity op = Inr ()"
    using al(1,2) assms(2,3) by (simp add: assms(4) validate_identity_def prepared_operation_def validDecision_def validLocalOpaqueID_def)
  moreover have "validate_authority op False False = Inr ()"
    using au(3,4) al(1,4) b unfolding validate_authority_def rec by (simp add: assms(4) prepared_operation_def)
  moreover have "validate_level op = Inr ()" "validate_phase op = Inr ()"
    by (simp_all add: assms(4) validate_level_def validate_phase_def prepared_operation_def standing_def validDecision_def)
  ultimately show "validateMutationRecord op = Inr ()" by (simp add: validateMutationRecord_def valid_parts)
  show "authority_current op (sv_authority s) = Inr ()"
    using au al(4) rec by (simp add: authority_current_def approvalAuthorityFromMutation_def currentApprovalAuthority_def)
      (simp add: assms(4) prepared_operation_def)
  show "notice_current L op (Some rec) = Inr rec"
    using al(1,3) b same_binding_refl [OF b, of L]
    by (simp add: assms(4) notice_current_def prepared_operation_def validateNoticeAgainstApprovedBinding_def)
qed

lemma surely_draw:
  assumes "\<And>d c. length d = 32 \<Longrightarrow> length c = 32 \<Longrightarrow> validateMutationRecord (build (''decision_'' @ hex_encode d) (''claim_'' @ hex_encode c)) = Inr ()"
    "\<And>d c. mu_RequestID (build d c) = r"
    "\<And>d c t j o'. length d = 32 \<Longrightarrow> length c = 32 \<Longrightarrow>
      mutation_Get r j = Some ((build (''decision_'' @ hex_encode d) (''claim_'' @ hex_encode c))\<lparr>mu_UpdatedAt := t\<rparr>) \<Longrightarrow>
      o' = Step s (s\<lparr>sv_mutations := j\<rparr>) \<Longrightarrow>
      Q (Inr (build (''decision_'' @ hex_encode d) (''claim_'' @ hex_encode c))) (s\<lparr>sv_mutations := j\<rparr>) (o' # l) gs"
  shows "surely A identifiers_drawn (draw_and_put True build) Q s l gs"
  unfolding draw_and_put_def surely.simps
proof (intro allI impI)
  fix io assume "identifiers_drawn io"
  then obtain d c where io: "io_write io = WriteDone" "io_decision io = Some d" "io_claim io = Some c" "length d = 32" "length c = 32"
    by (auto simp: identifiers_drawn_def writes_done_def)
  let ?op = "build (''decision_'' @ hex_encode d) (''claim_'' @ hex_encode c)"
  obtain j where j: "mutation_Put (io_now io) (io_stamp io) WriteDone ?op (sv_mutations s) = (j, Inr ())" "mutation_Get r j = Some (?op\<lparr>mu_UpdatedAt := io_now io\<rparr>)"
    using assms(1) [OF io(4,5)] assms(2)
    by (auto simp: mutation_Put_def save_or_restore_def mutation_write_def write_snapshot_def Let_def mutation_Get_def update_conv')
  from assms(3) [OF io(4,5) j(2) refl] show
    "surely A identifiers_drawn
      (case (newOpaqueID ''decision_'' (io_decision io), if True then newExecutionClaimID (io_claim io) else Some []) of
        (Some d, Some c) \<Rightarrow> (case snd (mutation_Put (io_now io) (io_stamp io) (io_write io) (build d c) (sv_mutations s)) of
          Inl e \<Rightarrow> err (ErrJournal e) | Inr _ \<Rightarrow> ok (build d c)) | _ \<Rightarrow> err ErrRandom) Q
      (case (newOpaqueID ''decision_'' (io_decision io), if True then newExecutionClaimID (io_claim io) else Some []) of
        (Some d, Some c) \<Rightarrow> s\<lparr>sv_mutations := fst (mutation_Put (io_now io) (io_stamp io) (io_write io) (build d c) (sv_mutations s))\<rparr> | _ \<Rightarrow> s)
      (Step s (case (newOpaqueID ''decision_'' (io_decision io), if True then newExecutionClaimID (io_claim io) else Some []) of
        (Some d, Some c) \<Rightarrow> s\<lparr>sv_mutations := fst (mutation_Put (io_now io) (io_stamp io) (io_write io) (build d c) (sv_mutations s))\<rparr> | _ \<Rightarrow> s) # l) gs"
    using j(1) by (simp add: io newOpaqueID_def newExecutionClaimID_def surely_basic)
qed

lemma surely_allow_notice:
  assumes "allowable L cf r rec b s" "submissions r l = []" "\<And>s' l' c. claimed_alone L r c b s' l' \<Longrightarrow> Q (Inr StatusAccepted) s' l' (r # gs)"
  shows "surely (helpful C r payload) identifiers_drawn (allowOnceWithApprovalForNotice L cf r ApprovalLevelAskAlways [] False None) Q s l gs"
proof -
  let ?op = "\<lambda>d c. prepared_operation (pn_Notice rec) DecisionAllowOnce ApprovalLevelAskAlways [] False (sv_authority s) (Some b) (''decision_'' @ hex_encode d) (''claim_'' @ hex_encode c)"
  from assms(1) have al: "PendingStore_Get r (sv_pending s) = Some rec" "rn_RequestID (pn_Notice rec) = r" "r \<noteq> []" "TrimSpace r = r"
    "rn_Status (pn_Notice rec) = StatusAwaitingApproval" "validateNotice cf (pn_Notice rec) = Inr ()"
    "approvedNoticeBindingFor L (pn_Notice rec) = Inr b" "normalizeApprovalAuthority (sv_authority s) = Inr (sv_authority s)"
    "mutation_Get r (sv_mutations s) = None" "sv_running s" "sv_active s = []" by (simp_all add: allowable_def)
  have au: "currentApprovalAuthority (sv_authority s) = Inr (sv_authority s)"
    using normalized_authority [OF al(8)] by (simp add: currentApprovalAuthority_def)
  have commit: "surely (helpful C r payload) identifiers_drawn (commitAllowOnce L r (?op d c)) Q (s\<lparr>sv_mutations := j\<rparr>) l' gs"
    if "length d = 32" "length c = 32" "mutation_Get r j = Some (?op d c\<lparr>mu_UpdatedAt := t\<rparr>)" "submissions r l' = []" for d c j t l'
  proof (rule surely_narrow [OF surely_commit])
    show "decided_alone L r (?op d c) (s\<lparr>sv_mutations := j\<rparr>) l'"
      using prepared_is_bound [OF assms(1) that(1,2) refl] that(3,4) al unfolding decided_alone_def
      by (auto simp: prepared_operation_def hasActiveRequest_def)
    show "mu_ApprovedNotice (?op d c) = Some b" by (simp add: prepared_operation_def)
  qed (auto simp: identifiers_drawn_def intro: assms(3))
  have "surely (helpful C r payload) identifiers_drawn
      (draw_and_put True (prepared_operation (pn_Notice rec) DecisionAllowOnce ApprovalLevelAskAlways [] False (sv_authority s) (Some b)))
      (\<lambda>x s l gs. case x of Inl e \<Rightarrow> Q (Inl e) s l gs | Inr op \<Rightarrow> surely (helpful C r payload) identifiers_drawn (commitAllowOnce L r op) Q s l gs) s l' gs" if "submissions r l' = []" for l'
  proof (rule surely_draw [where r = r], goal_cases)
    case (1 d c)
    then show ?case by (rule prepared_is_bound(1) [OF assms(1) _ _ refl])
  next
    case (2 d c)
    show ?case by (simp add: prepared_operation_def al(2))
  next
    case (3 d c t j o')
    with commit [OF 3(1-3), of "o' # l'"] that show ?case by simp
  qed
  then show ?thesis
    using al(1,3-7,9,11) au assms(2)
    by (simp add: allowOnceWithApprovalForNotice_def alone approvable_def recheck_grant_def hasActiveExecution_def
        prepareDecision_def the_authority_def prepare_or_reuse_def al(2))
qed

lemma surely_allow:
  assumes "allowable L cf r rec b s" "submissions r l = []" "\<And>s' l' c. claimed_alone L r c b s' l' \<Longrightarrow> Q (Inr ()) s' l' (r # gs)"
  shows "surely (helpful C r payload) identifiers_drawn (AllowOnce L cf r) Q s l gs"
  unfolding AllowOnce_def surely_attempt
  by (rule surely_allow_notice [OF assms(1,2)]) (simp add: surely_basic assms(3))

text \<open>The same request again, when the relay has the decision and the claim is in the journal.\<close>

lemma surely_resume:
  assumes "claimed_alone L r c b s l" "sv_running s" "\<not> hasActiveRequest r s" "TrimSpace r = r" "r \<noteq> []"
    "PendingStore_Get r (sv_pending s) = Some rec" "rn_Status (pn_Notice rec) = StatusAccepted" "validateNotice cf (pn_Notice rec) = Inr ()"
    "\<And>s' l'. claimed_alone L r c b s' l' \<Longrightarrow> Q () s' l' (r # gs)"
  shows "surely A G (ignore (AllowOnce L cf r)) Q s l gs"
proof -
  from assms(1) obtain op n where op: "mutation_Get r (sv_mutations s) = Some op" "mu_RequestID op = r" "mu_Phase op = mutationClaimPrepared"
      "authority_current op (sv_authority s) = Inr ()" "notice_current L op (PendingStore_Get r (sv_pending s)) = Inr n"
    unfolding claimed_alone_def by blast
  have start: "surely A G (startExecution L r StatusAccepted) (\<lambda>x s' l' gs'. x = Inr () \<and> Q () s' l' gs') s l' gs" if "submissions r l' = []" for l'
    using assms(1-3,9) that by (intro surely_start [of L r c b]) (auto simp: claimed_alone_def)
  have "submissions r l = []" using assms(1) by (simp add: claimed_alone_def)
  then show ?thesis
    using op(1,3-5) assms(4-8)
    by (auto simp: op(2) alone AllowOnce_def allowOnceWithApprovalForNotice_def approvable_def recheck_grant_def recover_decided_def
        requireCurrentApprovalAuthority_def recoverOperation_def recover_accepted_def if_approved_def still_approved_def
        requireCurrentApprovedNotice_def intro!: surely_mono [OF start])
qed

section \<open>An example\<close>

definition recv_access :: "RequestedAccess list" where
  "recv_access = [\<lparr>ra_WorkspaceAlias = ''w'', ra_Mode = PermissionReadOnly\<rparr>]"

definition recv_prompt :: string where
  "recv_prompt = ''review it''"

definition recv_request :: RequestNotice where
  "recv_request = demo_notice\<lparr>rn_Status := StatusAwaitingApproval, rn_PromptBytes := 9, rn_RequestedAccess := recv_access,
     rn_PromptSHA256 := sha256_hex demo_golib recv_prompt\<rparr>"

definition recv_payload :: ExecutionPayload where
  "recv_payload = \<lparr>ep_RequestID = ''r1'', ep_ConversationID = ''c1'', ep_RequesterAgentID = ''a1'', ep_RequesterMemberID = ''m1'',
     ep_RequesterDisplayName = ''A'', ep_Title = ''t'', ep_Prompt = recv_prompt, ep_RequestedAccess = recv_access, ep_Attachments = [],
     ep_ExpiresAt = 60\<rparr>"

definition recv_bound :: approvedNoticeBinding where
  "recv_bound = notice_binding demo_golib recv_request"

definition recv_config :: ServiceConfig where
  "recv_config = \<lparr>cf_workspaces = [(''w'', ''/work/app'')], cf_AllowWrites = False, cf_artifacts = False, cf_fingerprint = ''f'',
     cf_describe = (\<lambda>_. ''failed'')\<rparr>"

definition recv_inbox_with :: "RequestStatus \<Rightarrow> PendingStore" where
  "recv_inbox_with status = \<lparr>ls_entries = [(''r1'', \<lparr>pn_Notice = recv_request\<lparr>rn_Status := status\<rparr>, pn_ReceivedAt = 3\<rparr>)], ls_file = None\<rparr>"

text \<open>A service to which a request has come, and one that crashed after its recipient had allowed it.\<close>

definition recv_heartbeat :: AgentHeartbeat where
  "recv_heartbeat = \<lparr>hb_DisplayName = ''B'', hb_DeviceName = ''d'', hb_Availability = AvailabilityAvailable, hb_AcceptingRequests = True,
     hb_Runtime = \<lparr>rd_ID = ''codex'', rd_DisplayName = ''Codex'', rd_Version = ''1'', rd_Capabilities =
       \<lparr>rc_Resume = True, rc_StructuredEvents = True, rc_Skills = True, rc_MCP = True, rc_ReadOnly = True, rc_GuardedWrite = False,
        rc_ReturnedFiles = False\<rparr>\<rparr>,
     hb_PermissionMode = PermissionReadOnly, hb_Capabilities = [], hb_WorkspaceAliases = [''w'']\<rparr>"

definition recv_waiting :: Service where
  "recv_waiting = \<lparr>sv_pending = recv_inbox_with StatusAwaitingApproval, sv_approvals = new_store, sv_mutations = empty_journal,
     sv_heartbeat = recv_heartbeat, sv_authority = demo_authority, sv_running = True, sv_active = []\<rparr>"

definition recv_claim :: string where
  "recv_claim = ''claim_'' @ hex_encode (replicate 32 CHR 0xBB)"

definition recv_decided :: mutationRecord where
  "recv_decided = prepared_operation recv_request DecisionAllowOnce ApprovalLevelAskAlways [] False demo_authority (Some recv_bound)
     (''decision_'' @ hex_encode (replicate 32 CHR ''d'')) recv_claim"

definition recv_claimed :: Service where
  "recv_claimed = recv_waiting\<lparr>sv_pending := recv_inbox_with StatusAccepted,
     sv_mutations := \<lparr>ls_entries = [(''r1'', recv_decided\<lparr>mu_Phase := mutationClaimPrepared\<rparr>)], ls_file = None\<rparr>\<rparr>"

definition recv_answer :: "RequestStatus \<Rightarrow> call_answer" where
  "recv_answer status = \<lparr>an_done = Inr (), an_probe = Inl CallNotFound, an_card = Inr None, an_inbox = Inr [recv_request], an_request = Inr None,
     an_mutation = Inr (Some \<lparr>mr_RequestID = ''r1'', mr_ConversationID = ''c1'', mr_Status = status\<rparr>), an_proposal = Inr None,
     an_execution = Inr (Some recv_payload), an_resumes = Inr False, an_sandbox = Inl CallNotFound,
     an_run = Inr \<lparr>rs_FinalText = ''looks good'', rs_Session = None\<rparr>, an_files = Inr []\<rparr>"

fun recv_world :: "call \<Rightarrow> call_answer" where
  "recv_world (CallMarkRunning r c) = (if c = recv_claim then recv_answer StatusRunning else (recv_answer StatusRunning)\<lparr>an_mutation := Inl CallNotFound\<rparr>)"
| "recv_world (CallDecide r d) = recv_answer StatusAccepted"
| "recv_world (CallSubmitResult r x) = recv_answer (rp_State x)"
| "recv_world _ = recv_answer StatusRunning"

definition recv_system :: system where
  "recv_system = \<lparr>sy_service = recv_claimed, sy_threads = Map.empty, sy_log = [], sy_drawn = {recv_claim}\<rparr>"

text \<open>This relay lets no other claim run.\<close>

definition recv_relay :: "call \<Rightarrow> call_answer \<Rightarrow> bool" where
  "recv_relay q a \<longleftrightarrow> helpful {recv_claim} ''r1'' recv_payload q a \<and> (\<forall>r c. q = CallMarkRunning r c \<and> c \<noteq> recv_claim \<longrightarrow> an_mutation a = Inl CallNotFound)"

lemma recv_helpful: "recv_relay q (recv_world q)"
  unfolding recv_relay_def
  by (cases q) (auto simp: recv_answer_def mutationStatus_def)

lemma recv_sha_value: "sha256_hex demo_golib recv_prompt = hex_encode (replicate 32 CHR ''x'')"
  by (simp add: sha256_hex_def demo_golib_def recv_prompt_def)

lemmas recv_bound_simps = recv_bound_def notice_binding_def recv_request_def demo_notice_def recv_sha_value approvedNoticeBindingVersion_def

lemma recv_digest: "validateApprovedNoticeBinding recv_bound ''r1''"
  by (simp add: validateApprovedNoticeBinding_def recv_bound_simps hex_decoded_len_def)

lemma recv_payload_fits: "validateExecutionPayloadAgainstApprovedBinding demo_golib recv_bound recv_payload = Inr ()"
proof -
  have "length recv_prompt = 9" by (simp add: recv_prompt_def)
  moreover have "EqualFold demo_golib (hex_encode s) (hex_encode s)" for s by (simp add: EqualFold_ascii_refl hex_ok_ascii)
  ultimately show ?thesis
    by (simp add: validateExecutionPayloadAgainstApprovedBinding_def recv_payload_def recv_bound_simps hex_decoded_len_def
        sameRequestedAccess_def sameArtifactDescriptors_def list_all2_refl)
qed

lemma recv_notice_ok: "validateNotice recv_config (recv_request\<lparr>rn_Status := status\<rparr>) = Inr ()"
  by (simp add: validateNotice_def recv_request_def demo_notice_def recv_config_def recv_access_def resolveRequestedWorkspaces_def demo_trim MaxRequestPayloadBytes_def)

lemma recv_allowable: "allowable demo_golib recv_config ''r1'' \<lparr>pn_Notice = recv_request, pn_ReceivedAt = 3\<rparr> recv_bound recv_waiting"
proof -
  have same: "recv_request\<lparr>rn_Status := StatusAwaitingApproval\<rparr> = recv_request" by (simp add: recv_request_def)
  have "approvedNoticeBindingFor demo_golib recv_request = Inr recv_bound"
    using recv_digest by (simp add: approvedNoticeBindingFor_def recv_bound_def recv_request_def demo_notice_def Let_def)
  then show ?thesis
    using recv_notice_ok [of StatusAwaitingApproval] demo_normal(1)
    by (simp add: allowable_def recv_waiting_def recv_inbox_with_def PendingStore_Get_def same mutation_Get_def empty_journal_def TrimSpace_id IsSpace_def)
      (simp add: recv_request_def demo_notice_def)
qed

lemma recv_record:
  "validateMutationRecord (recv_decided\<lparr>mu_Phase := mutationClaimPrepared\<rparr>) = Inr ()"
  "claimed_alone demo_golib ''r1'' recv_claim recv_bound recv_claimed []"
proof -
  have sv: "sv_authority recv_waiting = demo_authority" "sv_authority recv_claimed = demo_authority" by (simp_all add: recv_waiting_def recv_claimed_def)
  have ok: "validateMutationRecord recv_decided = Inr ()" "authority_current recv_decided demo_authority = Inr ()"
    "notice_current demo_golib recv_decided (Some \<lparr>pn_Notice = recv_request, pn_ReceivedAt = 3\<rparr>) = Inr \<lparr>pn_Notice = recv_request, pn_ReceivedAt = 3\<rparr>"
    using prepared_is_bound [OF recv_allowable _ _ refl, of "replicate 32 CHR ''d''" "replicate 32 CHR 0xBB"]
    by (simp_all add: recv_decided_def recv_claim_def sv)
  show valid: "validateMutationRecord (recv_decided\<lparr>mu_Phase := mutationClaimPrepared\<rparr>) = Inr ()"
    by (rule valid_claimed [OF ok(1)]) (simp_all add: recv_decided_def prepared_operation_def)
  obtain n where "notice_current demo_golib recv_decided (Some \<lparr>pn_Notice = recv_request\<lparr>rn_Status := StatusAccepted\<rparr>, pn_ReceivedAt = 3\<rparr>) = Inr n"
    using notice_current_status [OF ok(3), of StatusAccepted] by auto
  then show "claimed_alone demo_golib ''r1'' recv_claim recv_bound recv_claimed []"
    using valid ok(2) sv current_frame(1) [of "recv_decided\<lparr>mu_Phase := mutationClaimPrepared\<rparr>" recv_decided]
      current_frame(2) [of "recv_decided\<lparr>mu_Phase := mutationClaimPrepared\<rparr>" recv_decided demo_golib]
    by (auto simp: claimed_alone_def recv_claimed_def mutation_Get_def PendingStore_Get_def recv_inbox_with_def)
      (simp_all add: recv_decided_def prepared_operation_def recv_request_def demo_notice_def)
qed

lemma recv_initial: "initial recv_system"
  using strict_loads [OF recv_record(1)]
  by (simp add: initial_def recv_system_def recv_claimed_def well_formed_def journal_inv_def journal_ok_def keyed_def record_ok_def inbox_inv_def
      recv_waiting_def recv_inbox_with_def recs_def late_def)
    (simp add: recv_decided_def prepared_operation_def recv_request_def demo_notice_def)

lemma recv_day:
  "\<exists>y. (receiver_step demo_golib recv_config)\<^sup>*\<^sup>* recv_system y \<and> answered recv_config recv_payload ''r1'' recv_claim (sy_service y) (sy_log y) \<and>
    (\<forall>q a. Heard q a \<in> set (sy_log y) \<longrightarrow> recv_relay q a)"
proof -
  let ?S = "receiver_step demo_golib recv_config" and ?p = "ignore (AllowOnce demo_golib recv_config ''r1'')"
  define io where "io = \<lparr>io_now = 5, io_stamp = 5, io_readable = True, io_write = WriteDone, io_decision = None, io_claim = None\<rparr>"
  have io: "writes_done io" "new_claim io = None" by (simp_all add: io_def writes_done_def new_claim_def)
  let ?y = "recv_system\<lparr>sy_threads := [0 \<mapsto> ([], ?p)]\<rparr>"
  have "?p \<in> entry_points demo_golib recv_config" by (auto simp: entry_points_def)
  then have "?S recv_system (recv_system\<lparr>sy_threads := (sy_threads recv_system)(0 \<mapsto> ([], ?p))\<rparr>)"
    by (rule sys_step.invoke) (simp add: recv_system_def)
  then have start: "?S recv_system ?y" by (simp add: recv_system_def)
  let ?claimed = "\<lambda>_ s l gs. claimed_alone demo_golib ''r1'' recv_claim recv_bound s l \<and> gs = [''r1'']"
    and ?heard = "\<lambda>l. \<forall>q a. Heard q a \<in> set l \<longrightarrow> recv_relay q a"
  have resume: "surely recv_relay writes_done ?p ?claimed (sy_service ?y) (sy_log ?y) []"
    by (rule surely_resume [of demo_golib _ recv_claim recv_bound, where rec = "\<lparr>pn_Notice = recv_request\<lparr>rn_Status := StatusAccepted\<rparr>, pn_ReceivedAt = 3\<rparr>"])
      (use recv_record(2) recv_notice_ok in \<open>auto simp: recv_system_def recv_claimed_def recv_waiting_def hasActiveRequest_def TrimSpace_id IsSpace_def
        PendingStore_Get_def recv_inbox_with_def\<close>)
  obtain y1 j where y1: "?S\<^sup>*\<^sup>* ?y y1" "claimed_alone demo_golib ''r1'' recv_claim recv_bound (sy_service y1) (sy_log y1)" "?heard (sy_log y1)"
      "finite (dom (sy_threads y1))" "sy_threads y1 j = Some ([], execution_goroutine demo_golib recv_config ''r1'')"
    using surely_steps [OF surely_heard [OF resume] _ _ _ io recv_helpful, of 0 "[]" "execution_goroutine demo_golib recv_config" "entry_points demo_golib recv_config" "NewService demo_golib"]
    by (auto simp: recv_system_def)
  have run: "surely recv_relay writes_done (execution_goroutine demo_golib recv_config ''r1'')
      (\<lambda>_ s l _. answered recv_config recv_payload ''r1'' recv_claim s l) (sy_service y1) (sy_log y1) []"
    by (rule surely_narrow [OF surely_goroutine [OF y1(2) recv_payload_fits, where C = "{recv_claim}"]]) (auto simp: recv_relay_def)
  obtain y2 where "?S\<^sup>*\<^sup>* y1 y2" "answered recv_config recv_payload ''r1'' recv_claim (sy_service y2) (sy_log y2)" "?heard (sy_log y2)"
    using surely_steps [OF surely_heard [OF run y1(3)] y1(5) _ y1(4) io recv_helpful, of "execution_goroutine demo_golib recv_config" "entry_points demo_golib recv_config" "NewService demo_golib"] by auto
  then show ?thesis using start y1(1) by (meson converse_rtranclp_into_rtranclp rtranclp_trans)
qed

end
