(* ===== verification/Receiver_Theorems.thy ===== *)
theory Receiver_Theorems
  imports Receiver_Scenario
begin

text \<open>
  What the receiver service guarantees, for every interleaving of its goroutines, every answer of the
  relay and of the runtime, every outcome of its file writes and any number of crashes.
\<close>

section \<open>Lemmas\<close>

lemma knows_results:
  assumes "knows H r op" "mu_Phase op = mutationResultPrepared" "mu_Result op = Some x" "H \<subseteq> set (sy_log y)"
  shows "x \<in> ever r (mu_ExecutionClaimID op) y"
proof -
  from assms(1) obtain s s' t where st: "Step s s' \<in> H"
    "mutation_Get r (sv_mutations s) = Some (op\<lparr>mu_UpdatedAt := t\<rparr>) \<or> mutation_Get r (sv_mutations s') = Some (op\<lparr>mu_UpdatedAt := t\<rparr>)"
    by (auto simp: knows_def)
  have "mutation_Get r (sv_mutations s) = Some (op\<lparr>mu_UpdatedAt := t\<rparr>) \<Longrightarrow> x \<in> results_of r (mu_ExecutionClaimID op) s" for s
    unfolding results_of_def recs_def mutation_Get_def using assms(2,3)
    by (intro CollectI exI [of _ "op\<lparr>mu_UpdatedAt := t\<rparr>"]) (auto dest: map_of_SomeD)
  then show ?thesis using st assms(4) unfolding ever_def by blast
qed

lemma in_log: "x \<in> set l \<Longrightarrow> \<exists>l1 l2. l = l1 @ x # l2"
  by (simp add: split_list)

lemma validated_payload:
  assumes "validateExecutionPayloadAgainstApprovedBinding L b p = Inr ()"
  shows "ep_RequestID p = nb_RequestID b" "ep_ConversationID p = nb_ConversationID b" "ep_RequesterAgentID p = nb_RequesterAgentID b"
    "ep_RequesterMemberID p = nb_RequesterMemberID b" "ep_RequesterDisplayName p = nb_RequesterDisplayName b" "ep_Title p = nb_Title b"
    "ep_RequestedAccess p = nb_RequestedAccess b" "ep_Attachments p = nb_Attachments b" "int (length (ep_Prompt p)) = nb_PromptBytes b"
    "EqualFold L (sha256_hex L (ep_Prompt p)) (TrimSpace (nb_PromptSHA256 b))"
  using assms unfolding validateExecutionPayloadAgainstApprovedBinding_def
  by (auto simp: Let_def sameRequestedAccess_def sameArtifactDescriptors_def list_all2_eq split: if_splits)

text \<open>What the example shows: the runtime was called for the claim, and one result was submitted.\<close>

lemma recv_resolve: "resolveRequestedWorkspaces recv_config (ep_RequestedAccess recv_payload) = Inr [\<lparr>ws_Path = ''/work/app'', ws_Mode = WorkspaceReadOnly\<rparr>]"
  by (simp add: resolveRequestedWorkspaces_def recv_config_def recv_payload_def recv_access_def demo_trim)

lemma in_submissions: "x \<in> set (submissions r h) \<longleftrightarrow> Called (CallSubmitResult r x) \<in> set h"
  by (auto simp: submissions_def split: obs.splits call.splits if_splits)

lemma recv_log:
  obtains y x where "(receiver_step demo_golib recv_config)\<^sup>*\<^sup>* recv_system y" "\<forall>q a. Heard q a \<in> set (sy_log y) \<longrightarrow> recv_relay q a"
    "Called (CallExecute ''r1'' recv_claim (run_request recv_config recv_payload [\<lparr>ws_Path = ''/work/app'', ws_Mode = WorkspaceReadOnly\<rparr>] None)) \<in> set (sy_log y)"
    "Called (CallSubmitResult ''r1'' x) \<in> set (sy_log y)" "rp_ExecutionClaimID x = recv_claim"
proof -
  from recv_day obtain y where y: "(receiver_step demo_golib recv_config)\<^sup>*\<^sup>* recv_system y"
    "answered recv_config recv_payload ''r1'' recv_claim (sy_service y) (sy_log y)" "\<forall>q a. Heard q a \<in> set (sy_log y) \<longrightarrow> recv_relay q a" by blast
  then obtain x where "submissions ''r1'' (sy_log y) = [x]" "rp_ExecutionClaimID x = recv_claim"
    by (auto simp: answered_def over_def concluded_def)
  moreover have "\<not> cf_artifacts recv_config" "ep_Attachments recv_payload = []" by (simp_all add: recv_config_def recv_payload_def)
  ultimately show thesis
    using y recv_resolve in_submissions [of x "''r1''" "sy_log y"] by (intro that [of y x]) (auto simp: answered_def)
qed

section \<open>Properties\<close>

text \<open>
  C4. The runtime is started at most once for an execution claim. However goroutines interleave,
  whatever the relay answers and however often the process crashes and restarts, even in the middle
  of a run, the log never holds two calls of the runtime for one claim of one request.
\<close>

theorem runtime_runs_once:
  assumes "initial y0" "(receiver_step L cf)\<^sup>*\<^sup>* y0 y"
  shows "run_calls r c (sy_log y) \<le> 1"
  by (rule receiver.runs_at_most_once [OF assms(2,1)])

theorem runtime_runs_once_witness:
  "\<exists>y. (receiver_step demo_golib recv_config)\<^sup>*\<^sup>* recv_system y \<and> run_calls ''r1'' recv_claim (sy_log y) = 1"
proof -
  from recv_log obtain y req where y: "(receiver_step demo_golib recv_config)\<^sup>*\<^sup>* recv_system y"
    "Called (CallExecute ''r1'' recv_claim req) \<in> set (sy_log y)" by metis
  then have "0 < run_calls ''r1'' recv_claim (sy_log y)" by (force simp: run_calls_def filter_empty_conv)
  with runtime_runs_once [OF recv_initial y(1), of "''r1''" recv_claim] y(1) show ?thesis by (metis le_antisym less_eq_Suc_le One_nat_def)
qed

text \<open>
  C2. What the runtime is given was approved. Before a call of the runtime, the journal held an
  allowance with the claim, bound to the service's authority and to a notice that was in the inbox;
  the relay had confirmed that this claim runs, and the start boundary was on disk. The request is
  the approved one: its identifier, conversation, title and requester are those of the notice, its
  prompt has the length and the SHA-256 digest of the notice, and its directories are those the
  recipient configured for the aliases the notice asked for.
\<close>

theorem run_is_approved:
  assumes "initial y0" "(receiver_step L cf)\<^sup>*\<^sup>* y0 y" "sy_log y = l1 @ Called (CallExecute r c req) # l2"
  shows "\<exists>op b. knows (set l2) r op \<and> mu_ExecutionClaimID op = c \<and> mu_ApprovedNotice op = Some b \<and>
    (\<exists>s s'. Step s s' \<in> set l2 \<and> authority_current op (sv_authority s) = Inr ()) \<and>
    (\<exists>s s' n. Step s s' \<in> set l2 \<and> notice_current L op (PendingStore_Get r (sv_pending s)) = Inr n) \<and>
    (\<exists>a m. Heard (CallMarkRunning r c) a \<in> set l2 \<and> an_mutation a = Inr m \<and> mutationStatus m r = Inr StatusRunning) \<and>
    (\<exists>s s' op'. Step s s' \<in> set l2 \<and> on_disk r op' s' \<and> mu_ExecutionClaimID op' = c \<and> mu_Phase op' = mutationRuntimeStarted) \<and>
    rr_RequestID req = nb_RequestID b \<and> rr_ConversationID req = nb_ConversationID b \<and> rr_Title req = nb_Title b \<and>
    rr_Requester req = nb_RequesterDisplayName b \<and> int (length (rr_Prompt req)) = nb_PromptBytes b \<and>
    EqualFold L (sha256_hex L (rr_Prompt req)) (TrimSpace (nb_PromptSHA256 b)) \<and>
    resolveRequestedWorkspaces cf (nb_RequestedAccess b) = Inr (rr_Workspaces req)"
proof -
  have "approved_run L cf (set l2) r c req" using receiver.calls_justified [OF assms(2,1,3)] by (simp add: justified_def)
  then obtain op b payload ws sb where run: "knows (set l2) r op" "mu_ExecutionClaimID op = c" "mu_ApprovedNotice op = Some b"
      "\<exists>s s'. Step s s' \<in> set l2 \<and> authority_current op (sv_authority s) = Inr ()"
      "\<exists>s s' n. Step s s' \<in> set l2 \<and> notice_current L op (PendingStore_Get r (sv_pending s)) = Inr n"
      "\<exists>a m. Heard (CallMarkRunning r c) a \<in> set l2 \<and> an_mutation a = Inr m \<and> mutationStatus m r = Inr StatusRunning"
      "\<exists>s s' op'. Step s s' \<in> set l2 \<and> on_disk r op' s' \<and> mu_ExecutionClaimID op' = c \<and> mu_Phase op' = mutationRuntimeStarted"
    and valid: "validateExecutionPayloadAgainstApprovedBinding L b payload = Inr ()"
    and req: "resolveRequestedWorkspaces cf (ep_RequestedAccess payload) = Inr ws" "req = run_request cf payload ws sb"
    unfolding approved_run_def by blast
  have "rr_RequestID req = nb_RequestID b \<and> rr_ConversationID req = nb_ConversationID b \<and> rr_Title req = nb_Title b \<and>
      rr_Requester req = nb_RequesterDisplayName b \<and> int (length (rr_Prompt req)) = nb_PromptBytes b \<and>
      EqualFold L (sha256_hex L (rr_Prompt req)) (TrimSpace (nb_PromptSHA256 b)) \<and>
      resolveRequestedWorkspaces cf (nb_RequestedAccess b) = Inr (rr_Workspaces req)"
    using validated_payload [OF valid] req by (simp add: run_request_def)
  with run show ?thesis by blast
qed

theorem run_is_approved_witness:
  "\<exists>y l1 l2 req op. (receiver_step demo_golib recv_config)\<^sup>*\<^sup>* recv_system y \<and> sy_log y = l1 @ Called (CallExecute ''r1'' recv_claim req) # l2 \<and>
     knows (set l2) ''r1'' op \<and> mu_ExecutionClaimID op = recv_claim \<and> int (length (rr_Prompt req)) = 9"
proof -
  let ?req = "run_request recv_config recv_payload [\<lparr>ws_Path = ''/work/app'', ws_Mode = WorkspaceReadOnly\<rparr>] None"
  from recv_log obtain y where y: "(receiver_step demo_golib recv_config)\<^sup>*\<^sup>* recv_system y"
    "Called (CallExecute ''r1'' recv_claim ?req) \<in> set (sy_log y)" by metis
  from in_log [OF y(2)] obtain l1 l2 where l: "sy_log y = l1 @ Called (CallExecute ''r1'' recv_claim ?req) # l2" by blast
  from run_is_approved [OF recv_initial y(1) l] obtain op where "knows (set l2) ''r1'' op" "mu_ExecutionClaimID op = recv_claim" by blast
  moreover have "int (length (rr_Prompt ?req)) = 9" by (simp add: run_request_def recv_payload_def recv_prompt_def)
  ultimately show ?thesis using y(1) l by blast
qed

text \<open>
  C7. A claim has one result. All results that are ever submitted to the relay for one execution
  claim are equal: a restarted receiver repeats the prepared result and never makes up another.
\<close>

theorem one_result_per_claim:
  assumes "initial y0" "(receiver_step L cf)\<^sup>*\<^sup>* y0 y" "Called (CallSubmitResult r x) \<in> set (sy_log y)"
    "Called (CallSubmitResult r x') \<in> set (sy_log y)" "rp_ExecutionClaimID x = rp_ExecutionClaimID x'" "rp_ExecutionClaimID x \<noteq> []"
  shows "x = x'"
proof -
  have "x \<in> ever r (rp_ExecutionClaimID x) y" if called: "Called (CallSubmitResult r x) \<in> set (sy_log y)" for x
  proof -
    from in_log [OF called] obtain l1 l2 where l: "sy_log y = l1 @ Called (CallSubmitResult r x) # l2" by blast
    with receiver.calls_justified [OF assms(2,1) l] obtain op where
      "knows (set l2) r op" "mu_Phase op = mutationResultPrepared" "mu_Result op = Some x" "mu_ExecutionClaimID op = rp_ExecutionClaimID x"
      by (auto simp: justified_def)
    with knows_results [of "set l2" r op x y] l show ?thesis by auto
  qed
  from this [OF assms(3)] this [OF assms(4)] have "x \<in> ever r (rp_ExecutionClaimID x) y" "x' \<in> ever r (rp_ExecutionClaimID x) y"
    by (simp_all add: assms(5))
  then show ?thesis by (rule receiver.one_result [OF assms(2,1,6)])
qed

theorem one_result_per_claim_witness:
  "\<exists>y x. (receiver_step demo_golib recv_config)\<^sup>*\<^sup>* recv_system y \<and>
     {x'. Called (CallSubmitResult ''r1'' x') \<in> set (sy_log y) \<and> rp_ExecutionClaimID x' = recv_claim} = {x}"
proof -
  from recv_log obtain y x where y: "(receiver_step demo_golib recv_config)\<^sup>*\<^sup>* recv_system y"
    "Called (CallSubmitResult ''r1'' x) \<in> set (sy_log y)" "rp_ExecutionClaimID x = recv_claim" by metis
  have "recv_claim \<noteq> []" by (simp add: recv_claim_def)
  with one_result_per_claim [OF recv_initial y(1) _ y(2)] y(3) have
    "{x'. Called (CallSubmitResult ''r1'' x') \<in> set (sy_log y) \<and> rp_ExecutionClaimID x' = recv_claim} \<subseteq> {x}" by fastforce
  with y show ?thesis by blast
qed

text \<open>
  C6. The relay is told only what the journal holds. Every decision that is sent to the relay, at
  first or again, and every result, was seen in the journal before the call: the decision under its
  identifier, the result as the prepared one of the claim.
\<close>

theorem relay_hears_only_the_journal:
  assumes "initial y0" "(receiver_step L cf)\<^sup>*\<^sup>* y0 y" "sy_log y = l1 @ Called q # l2"
  shows "(\<forall>r d. q = CallDecide r d \<longrightarrow>
      (\<exists>op. knows (set l2) r op \<and> mu_DecisionID op = dp_DecisionID d \<and> mu_Decision op = dp_Decision d)) \<and>
    (\<forall>r x. q = CallSubmitResult r x \<longrightarrow>
      (\<exists>op. knows (set l2) r op \<and> mu_Phase op = mutationResultPrepared \<and> mu_Result op = Some x \<and> mu_ExecutionClaimID op = rp_ExecutionClaimID x))"
  using receiver.calls_justified [OF assms(2,1,3)] by (auto simp: justified_def)

theorem relay_hears_only_the_journal_witness:
  "\<exists>y l1 l2 x op. (receiver_step demo_golib recv_config)\<^sup>*\<^sup>* recv_system y \<and> sy_log y = l1 @ Called (CallSubmitResult ''r1'' x) # l2 \<and>
     knows (set l2) ''r1'' op \<and> mu_Phase op = mutationResultPrepared \<and> mu_Result op = Some x"
proof -
  from recv_log obtain y x where y: "(receiver_step demo_golib recv_config)\<^sup>*\<^sup>* recv_system y"
    "Called (CallSubmitResult ''r1'' x) \<in> set (sy_log y)" by metis
  from in_log [OF y(2)] obtain l1 l2 where l: "sy_log y = l1 @ Called (CallSubmitResult ''r1'' x) # l2" by blast
  from relay_hears_only_the_journal [OF recv_initial y(1) l] obtain op where "knows (set l2) ''r1'' op" "mu_Phase op = mutationResultPrepared" "mu_Result op = Some x"
    by blast
  with y(1) l show ?thesis by blast
qed

text \<open>
  C13. An allowed request is answered. The recipient allows a request that waits in the inbox while
  nothing else runs; when the relay accepts the decision, hands out the payload that was announced
  and confirms, when the files can be written and the runtime is not cancelled, then the allowance
  starts one goroutine, and that goroutine ends with exactly one result submitted, completed or
  failed, with the request gone from the inbox, the journal and the running executions; and when
  there are no attachments and the workspaces are known, the runtime was given what was approved.
\<close>

theorem allowed_request_is_answered:
  assumes "allowable L cf r rec b s" "validateExecutionPayloadAgainstApprovedBinding L b payload = Inr ()"
  shows "surely (helpful UNIV r payload) identifiers_drawn
    (attempt (AllowOnce L cf r) (\<lambda>_. bindp (execution_goroutine L cf r) ok))
    (\<lambda>x s' l' gs. x = Inr () \<and> gs = [r] \<and> (\<exists>c. answered cf payload r c s' l') \<and> \<not> hasActiveRequest r s') s [] []"
proof -
  have run: "surely (helpful UNIV r payload) identifiers_drawn (execution_goroutine L cf r)
      (\<lambda>_ s' l' gs. gs = [r] \<and> (\<exists>c. answered cf payload r c s' l') \<and> \<not> hasActiveRequest r s') s1 l1 [r]"
    if "claimed_alone L r c b s1 l1" for c s1 l1
    by (rule surely_narrow [OF surely_goroutine [OF that assms(2)]]) (auto simp: identifiers_drawn_def)
  show ?thesis
    unfolding surely_attempt
    by (rule surely_allow [OF assms(1)]) (auto simp: surely_bindp surely_basic intro!: surely_mono [OF run])
qed

theorem allowed_request_is_answered_witness:
  "surely (helpful UNIV ''r1'' recv_payload) identifiers_drawn
    (attempt (AllowOnce demo_golib recv_config ''r1'') (\<lambda>_. bindp (execution_goroutine demo_golib recv_config ''r1'') ok))
    (\<lambda>x s' l' gs. x = Inr () \<and> gs = [''r1''] \<and> (\<exists>c. answered recv_config recv_payload ''r1'' c s' l') \<and> \<not> hasActiveRequest ''r1'' s') recv_waiting [] []"
  using allowed_request_is_answered [OF recv_allowable recv_payload_fits] .

text \<open>
  C14. A prepared result is delivered. A goroutine that finds a prepared result in the journal
  submits exactly this result, once, and does not run anything; when the relay confirms it and the
  files can be written, the request is gone from the inbox, the journal and the running executions.
\<close>

theorem prepared_result_is_delivered:
  assumes "journal_inv (sv_mutations s)" "mutation_Get r (sv_mutations s) = Some op" "mu_Phase op = mutationResultPrepared"
  shows "\<exists>x. mu_Result op = Some x \<and> surely (helpful UNIV r payload) writes_done (execution_goroutine L cf r)
    (\<lambda>_ s' l' gs. concluded r x s' l' \<and> \<not> hasActiveRequest r s' \<and> gs = [] \<and> (\<forall>c. run_calls r c l' = 0)) s [] []"
proof -
  have "record_ok (r, op)" using assms(1,2) by (auto simp: journal_inv_def journal_ok_def mutation_Get_def dest: map_of_SomeD)
  then have op: "mu_RequestID op = r" "validate_phase op = Inr ()" by (simp_all add: record_ok_def validateMutationRecordForLoad_def valid_parts)
  then obtain x where x: "mu_Result op = Some x" "rp_ExecutionClaimID x = mu_ExecutionClaimID op" "rp_State x \<noteq> StatusOther []"
    using assms(3) by (auto simp: validate_phase_def Let_def split: option.splits if_splits)
  have "surely (helpful UNIV r payload) writes_done (execution_goroutine L cf r)
    (\<lambda>_ s' l' gs. concluded r x s' l' \<and> \<not> hasActiveRequest r s' \<and> gs = [] \<and> (\<forall>c. run_calls r c l' = 0)) s [] []"
    using assms(2,3) op x
    by (auto simp: execution_goroutine_def execute_def alone replayPreparedResult_def concluded_def hasActiveRequest_def delete_conv' run_calls_def
        split: sum.splits intro!: surely_forget)
  with x(1) show ?thesis by blast
qed

definition recv_result :: ResultPayload where
  "recv_result = \<lparr>rp_ExecutionClaimID = recv_claim, rp_State = StatusCompleted, rp_Answer = ''looks good'', rp_Error = [], rp_ResultFiles = []\<rparr>"

definition recv_prepared :: mutationRecord where
  "recv_prepared = recv_decided\<lparr>mu_Phase := mutationResultPrepared, mu_Result := Some recv_result\<rparr>"

lemma recv_prepared_journal:
  "journal_inv \<lparr>ls_entries = [(''r1'', recv_prepared)], ls_file = None\<rparr>"
proof -
  let ?op = "recv_decided\<lparr>mu_Phase := mutationRuntimeStarted\<rparr>"
  have "validateMutationRecord ?op = Inr ()" using valid_started [OF recv_record(1)] by simp
  then have "validateMutationRecord (?op\<lparr>mu_Phase := mutationResultPrepared, mu_Result := Some recv_result\<rparr>) = Inr ()"
    by (rule valid_result) (simp_all add: recv_result_def recv_decided_def prepared_operation_def)
  from strict_loads [OF this] have "validateMutationRecordForLoad recv_prepared = Inr ()" by (simp add: recv_prepared_def)
  then show ?thesis
    by (simp add: journal_inv_def journal_ok_def keyed_def record_ok_def)
      (simp add: recv_prepared_def recv_decided_def prepared_operation_def recv_request_def demo_notice_def)
qed

theorem prepared_result_is_delivered_witness:
  "\<exists>x. mu_Result recv_prepared = Some x \<and> surely (helpful UNIV ''r1'' recv_payload) writes_done (execution_goroutine demo_golib recv_config ''r1'')
    (\<lambda>_ s' l' gs. concluded ''r1'' x s' l' \<and> \<not> hasActiveRequest ''r1'' s' \<and> gs = [] \<and> (\<forall>c. run_calls ''r1'' c l' = 0))
    (recv_waiting\<lparr>sv_mutations := \<lparr>ls_entries = [(''r1'', recv_prepared)], ls_file = None\<rparr>\<rparr>) [] []"
  by (rule prepared_result_is_delivered) (simp_all add: recv_prepared_journal mutation_Get_def, simp add: recv_prepared_def)

text \<open>
  C33. Recovery cannot finish a denial. A crash between writing a denial to the journal and telling the
  relay leaves a prepared denial. When the service starts again it finds the request still waiting,
  sends the denial again, and when the relay confirms the rejection the recovery of the inbox
  fails: \<open>handleDecisionMutation\<close> has no case for a rejected request. The request stays in the inbox
  and in the journal.
\<close>

theorem replayed_denial_fails:
  assumes "rn_Status n = StatusAwaitingApproval" "mutation_Get (rn_RequestID n) (sv_mutations s) = Some op" "mu_Phase op = mutationDecisionPrepared"
    "mu_Decision op = DecisionDeny" "mu_DecisionID op \<noteq> []" "mu_ApprovalLevel op = ApprovalLevelOther []"
    "\<And>q a. A q a \<Longrightarrow> \<exists>m. an_mutation a = Inr m \<and> mutationStatus m (rn_RequestID n) = Inr StatusRejected"
  shows "surely A G (reconcile_inbox L cf (n # ns))
    (\<lambda>x s' l' gs. x = Inl (ErrUnexpected StatusRejected) \<and> s' = s \<and>
       Called (CallDecide (rn_RequestID n) \<lparr>dp_Decision = DecisionDeny, dp_DecisionID = mu_DecisionID op\<rparr>) \<in> set l') s l gs"
  using assms(1-6)
  by (auto simp: alone recoverOperation_def recover_awaiting_def replay_decision_def ensurePreparedStandingGrant_def standing_def decide_def
      handleDecisionMutation_def dest!: assms(7))

theorem replayed_denial_fails_witness:
  "surely (\<lambda>q a. a = recv_answer StatusRejected) writes_done (reconcile_inbox demo_golib recv_config [recv_request])
    (\<lambda>x s' l' gs. x = Inl (ErrUnexpected StatusRejected) \<and>
       s' = recv_waiting\<lparr>sv_mutations := \<lparr>ls_entries = [(''r1'', recv_decided\<lparr>mu_Decision := DecisionDeny, mu_ApprovalLevel := ApprovalLevelOther []\<rparr>)], ls_file = None\<rparr>\<rparr> \<and>
       Called (CallDecide (rn_RequestID recv_request) \<lparr>dp_Decision = DecisionDeny,
         dp_DecisionID = mu_DecisionID (recv_decided\<lparr>mu_Decision := DecisionDeny, mu_ApprovalLevel := ApprovalLevelOther []\<rparr>)\<rparr>) \<in> set l')
    (recv_waiting\<lparr>sv_mutations := \<lparr>ls_entries = [(''r1'', recv_decided\<lparr>mu_Decision := DecisionDeny, mu_ApprovalLevel := ApprovalLevelOther []\<rparr>)], ls_file = None\<rparr>\<rparr>) [] []"
  by (rule replayed_denial_fails)
    (simp_all add: recv_request_def demo_notice_def mutation_Get_def recv_decided_def prepared_operation_def recv_answer_def mutationStatus_def)

section \<open>Reconnecting\<close>

fun retry_delays :: "reconnectBackoff \<Rightarrow> bool list \<Rightarrow> duration list" where
  "retry_delays b [] = []"
| "retry_delays b (healthy # hs) = (let (b', delay) = backoff_next healthy b in delay # retry_delays b' hs)"

text \<open>The delay a failing connection would get next, by the number of failures before it.\<close>

definition backoff_after :: "reconnectBackoff \<Rightarrow> nat \<Rightarrow> bool" where
  "backoff_after b k \<longleftrightarrow> (if rb_current b \<le> 0 then second else rb_current b) = min (2 ^ k) 30 * second"

lemma backoff_after_next:
  assumes "backoff_after b k"
  shows "snd (backoff_next healthy b) = (if healthy then second else min (2 ^ k) 30 * second)"
    "backoff_after (fst (backoff_next healthy b)) (if healthy then 0 else Suc k)"
proof -
  have sec: "second = 1000000000" by (simp add: second_def)
  have pow: "(2::int) ^ k < 15 \<Longrightarrow> (2::int) ^ k \<le> 8" "(15::int) \<le> 2 ^ k \<Longrightarrow> 16 \<le> (2::int) ^ k"
  proof -
    have "k \<le> 3 \<or> 4 \<le> k" by arith
    moreover have "k \<le> 3 \<Longrightarrow> (2::int) ^ k \<le> 2 ^ 3" "4 \<le> k \<Longrightarrow> (2::int) ^ 4 \<le> 2 ^ k" by (intro power_increasing; simp)+
    ultimately show "(2::int) ^ k < 15 \<Longrightarrow> (2::int) ^ k \<le> 8" "(15::int) \<le> 2 ^ k \<Longrightarrow> 16 \<le> (2::int) ^ k" by auto
  qed
  show "snd (backoff_next healthy b) = (if healthy then second else min (2 ^ k) 30 * second)"
    using assms by (auto simp: backoff_next_def backoff_after_def Let_def initialReconnectDelay_def split: if_splits)
  show "backoff_after (fst (backoff_next healthy b)) (if healthy then 0 else Suc k)"
    using assms pow
    by (auto simp: backoff_next_def backoff_after_def Let_def initialReconnectDelay_def maximumReconnectDelay_def sec i64_id min_def split: if_splits)
qed

definition failures_before :: "bool list \<Rightarrow> nat \<Rightarrow> nat" where
  "failures_before hs i = length (takeWhile Not (rev (take i hs)))"

lemma retry_delays_nth:
  assumes "backoff_after b k" "i < length hs"
  shows "retry_delays b hs ! i = (if hs ! i then second else min (2 ^ (if True \<in> set (take i hs) then failures_before hs i else k + i)) 30 * second)"
  using assms
proof (induction hs arbitrary: b k i)
  case (Cons h hs)
  obtain b' d where n: "backoff_next h b = (b', d)" by fastforce
  with backoff_after_next [OF Cons.prems(1), of h] have d: "d = (if h then second else min (2 ^ k) 30 * second)" "backoff_after b' (if h then 0 else Suc k)"
    by simp_all
  show ?case
  proof (cases i)
    case 0
    with n d(1) show ?thesis by simp
  next
    case (Suc j)
    with Cons.IH [OF d(2), of j] Cons.prems(2) n show ?thesis
      by (auto simp: failures_before_def takeWhile_append takeWhile_eq_all_conv)
  qed
qed simp

lemma retry_delays_length [simp]: "length (retry_delays b hs) = length hs"
  by (induction hs arbitrary: b) (simp_all split: prod.split)

text \<open>
  Reconnecting backs off and recovers. After a connection that came up the next attempt waits one
  second; after the \<open>n\<close>-th connection in a row that did not, \<open>2^(n-1)\<close> seconds and never more than
  thirty. No wait is shorter than a second, and the doubling never overflows.
\<close>

theorem reconnect_delays:
  assumes "i < length hs"
  shows "retry_delays \<lparr>rb_current = 0\<rparr> hs ! i = (if hs ! i then second else min (2 ^ failures_before hs i) 30 * second) \<and>
    second \<le> retry_delays \<lparr>rb_current = 0\<rparr> hs ! i \<and> retry_delays \<lparr>rb_current = 0\<rparr> hs ! i \<le> 30 * second"
proof -
  have "backoff_after \<lparr>rb_current = 0\<rparr> 0" by (simp add: backoff_after_def)
  moreover have "failures_before hs i = i" if "True \<notin> set (take i hs)"
  proof -
    have "takeWhile Not (rev (take i hs)) = rev (take i hs)" using that by (auto simp: takeWhile_eq_all_conv)
    then have "failures_before hs i = length (rev (take i hs))" unfolding failures_before_def by (rule arg_cong)
    then show ?thesis using assms by simp
  qed
  ultimately have eq: "retry_delays \<lparr>rb_current = 0\<rparr> hs ! i = (if hs ! i then second else min (2 ^ failures_before hs i) 30 * second)"
    using retry_delays_nth [of "\<lparr>rb_current = 0\<rparr>" 0 i hs] assms by auto
  have "1 \<le> (2::int) ^ failures_before hs i" by simp
  then show ?thesis unfolding eq by (simp add: second_def)
qed

theorem reconnect_delays_witness:
  "retry_delays \<lparr>rb_current = 0\<rparr> [False, False, False, False, False, False, True, False] ! 5 = 30 * second"
proof -
  have "failures_before [False, False, False, False, False, False, True, False] 5 = 5" by code_simp
  with reconnect_delays [of 5 "[False, False, False, False, False, False, True, False]"] show ?thesis by simp
qed

text \<open>
  No credential leaves in an answer. Wherever a completed result mentions one of the credential
  prefixes of the relay, of GitHub or of OpenAI at the beginning of a word, no credential character
  follows it: every credential in the runtime's text was replaced.
\<close>

theorem answer_has_no_credential:
  "\<not> has_credential False (rp_Answer (completed_result claim run files))"
  by (simp add: completed_result_def RedactSensitiveText_def redacted_has_no_credential)

end
