(* ===== verification/End_To_End.thy ===== *)
theory End_To_End
  imports Collab_Theorems Receiver_Theorems
begin

text \<open>
  The relay and the receiver together. The receiver treats the relay's answers as arbitrary; here
  they come from the collaboration store: whenever the receiver hears that a claim runs, a call of
  \<open>MarkRunning\<close> with this claim has returned on some database, and all these databases lie on one
  history of the store.
\<close>

definition one_history :: "relay_db set \<Rightarrow> bool" where
  "one_history D \<longleftrightarrow> (\<forall>d\<in>D. reachable d) \<and> (\<forall>d\<in>D. \<forall>d'\<in>D. relay_steps d d' \<or> relay_steps d' d)"

definition relay_backed :: "string \<Rightarrow> relay_db set \<Rightarrow> string \<Rightarrow> history \<Rightarrow> bool" where
  "relay_backed org D r h \<longleftrightarrow>
     (\<forall>c a m. Heard (CallMarkRunning r c) a \<in> set h \<and> an_mutation a = Inr m \<and> mutationStatus m r = Inr StatusRunning \<longrightarrow>
        (\<exists>atts p db d m'. MarkRunning atts p r c db = (d, Inr m') \<and> pr_OrganizationID p = org \<and> d \<in> D))"

definition executions :: "string \<Rightarrow> history \<Rightarrow> history" where
  "executions r h = filter (\<lambda>o'. case o' of Called (CallExecute r' c req) \<Rightarrow> r' = r | _ \<Rightarrow> False) h"

lemma in_executions: "o' \<in> set (executions r h) \<longleftrightarrow> o' \<in> set h \<and> (\<exists>c req. o' = Called (CallExecute r c req))"
  by (auto simp: executions_def split: obs.splits call.splits)

lemma executions_of_one_claim:
  assumes "\<And>c' req. Called (CallExecute r c' req) \<in> set h \<Longrightarrow> c' = c"
  shows "length (executions r h) = run_calls r c h"
proof -
  have "executions r h = filter (\<lambda>o'. case o' of Called (CallExecute r' c' _) \<Rightarrow> r' = r \<and> c' = c | _ \<Rightarrow> False) h"
    unfolding executions_def by (rule filter_cong [OF refl]) (auto split: obs.splits call.splits dest: assms)
  then show ?thesis by (simp add: run_calls_def)
qed

lemma run_was_confirmed:
  assumes "initial y0" "(receiver_step L cf)\<^sup>*\<^sup>* y0 y" "Called (CallExecute r c req) \<in> set (sy_log y)"
  shows "\<exists>a m. Heard (CallMarkRunning r c) a \<in> set (sy_log y) \<and> an_mutation a = Inr m \<and> mutationStatus m r = Inr StatusRunning"
proof -
  from in_log [OF assms(3)] obtain l1 l2 where l: "sy_log y = l1 @ Called (CallExecute r c req) # l2" by blast
  have "approved_run L cf (set l2) r c req" using receiver.calls_justified [OF assms(2,1) l] by (simp add: justified_def)
  then show ?thesis unfolding approved_run_def l by auto
qed

lemma confirmed_claims_agree:
  assumes "one_history D" "relay_backed org D r h"
    "Heard (CallMarkRunning r c) a \<in> set h" "an_mutation a = Inr m" "mutationStatus m r = Inr StatusRunning"
    "Heard (CallMarkRunning r c') a' \<in> set h" "an_mutation a' = Inr m'" "mutationStatus m' r = Inr StatusRunning"
  shows "c' = c"
proof -
  obtain atts p db d m1 where one: "MarkRunning atts p r c db = (d, Inr m1)" "pr_OrganizationID p = org" "d \<in> D"
    using assms(2-5) unfolding relay_backed_def by blast
  obtain atts' p' db' d' m2 where two: "MarkRunning atts' p' r c' db' = (d', Inr m2)" "pr_OrganizationID p' = org" "d' \<in> D"
    using assms(2,6-8) unfolding relay_backed_def by blast
  from assms(1) one(3) two(3) consider "reachable d" "relay_steps d d'" | "reachable d'" "relay_steps d' d"
    unfolding one_history_def by blast
  then show ?thesis
    using claims_agree [OF one(1) two(1)] claims_agree [OF two(1) one(1)] one(2) two(2) by cases auto
qed

section \<open>Properties\<close>

text \<open>
  C1. A request is executed at most once. When the relay's confirmations come from its store, a
  receiver starts its runtime at most once for a request, over all claims, restarts, repeated
  approvals, lost replies and interleavings of the receiver, and all interleavings of the relay with
  other daemons.
\<close>

theorem request_runs_once:
  assumes "initial y0" "(receiver_step L cf)\<^sup>*\<^sup>* y0 y" "one_history D" "relay_backed org D r (sy_log y)"
  shows "length (executions r (sy_log y)) \<le> 1"
proof (cases "executions r (sy_log y) = []")
  case False
  then obtain c req where c: "Called (CallExecute r c req) \<in> set (sy_log y)" using in_executions by (metis list.set_sel(1))
  have "c' = c" if "Called (CallExecute r c' req') \<in> set (sy_log y)" for c' req'
    using run_was_confirmed [OF assms(1,2) c] run_was_confirmed [OF assms(1,2) that] confirmed_claims_agree [OF assms(3,4)] by blast
  then show ?thesis using executions_of_one_claim [of r "sy_log y" c] receiver.runs_at_most_once [OF assms(2,1), of r c] by simp
qed simp

text \<open>The example of the receiver with the relay of the collaboration store: both have the same claim.\<close>

lemma same_claim: "recv_claim = Collab_Scenario.demo_claim"
  unfolding recv_claim_def Collab_Scenario.demo_claim_def by code_simp

lemma recv_backed:
  assumes "\<forall>q a. Heard q a \<in> set h \<longrightarrow> recv_relay q a"
  shows "relay_backed ''o'' {demo_running} ''r1'' h"
proof -
  have "MarkRunning (\<lambda>_. Redis_Model.calm 0) demo_bob ''r1'' recv_claim demo_accepted = (demo_running, Inr (mutation (sr_Request demo_request_running)))"
    by (simp add: same_claim demo_mark demo_running_eq)
  moreover have "pr_OrganizationID demo_bob = ''o''" by (simp add: demo_bob_def)
  ultimately show ?thesis using assms unfolding relay_backed_def recv_relay_def by fastforce
qed

theorem request_runs_once_witness:
  "\<exists>y. (receiver_step demo_golib recv_config)\<^sup>*\<^sup>* recv_system y \<and> relay_backed ''o'' {demo_running} ''r1'' (sy_log y) \<and>
     length (executions ''r1'' (sy_log y)) = 1"
proof -
  from recv_log obtain y req where y: "(receiver_step demo_golib recv_config)\<^sup>*\<^sup>* recv_system y" "\<forall>q a. Heard q a \<in> set (sy_log y) \<longrightarrow> recv_relay q a"
    "Called (CallExecute ''r1'' recv_claim req) \<in> set (sy_log y)" by metis
  have "executions ''r1'' (sy_log y) \<noteq> []" using y(3) in_executions by (metis list.distinct(1) list.set_cases list.set_intros(1) empty_iff list.set(1))
  moreover have "one_history {demo_running}" using demo_reachable(2) by (simp add: one_history_def)
  ultimately show ?thesis
    using request_runs_once [OF recv_initial y(1) _ recv_backed [OF y(2)]] y(1) recv_backed [OF y(2)]
    by (metis le_antisym length_greater_0_conv less_eq_Suc_le One_nat_def)
qed

end
