(* ===== verification/Receiver_Calls.thy ===== *)
theory Receiver_Calls
  imports Receiver_Decisions
begin

text \<open>
  How often a method of the receiver service turns to the outside: to the relay, to the runtime and
  to the artifact directory. No method retries by itself.
\<close>

text \<open>At most \<open>n\<close> calls on every path, whatever is answered and whatever the state is.\<close>

primrec at_most :: "'r prog \<Rightarrow> nat \<Rightarrow> bool" where
  "at_most (Ret x) = (\<lambda>n. True)"
| "at_most (Atomic u k) = (\<lambda>n. \<forall>io s. at_most (k io s) n)"
| "at_most (Ask q k) = (\<lambda>n. 0 < n \<and> (\<forall>a. at_most (k a) (n - 1)))"
| "at_most (Go r prog) = at_most prog"

lemma at_most_mono: "at_most p n \<Longrightarrow> n \<le> m \<Longrightarrow> at_most p m"
proof (induction p arbitrary: n m)
  case (Atomic u k)
  have "at_most (k io s) n \<Longrightarrow> at_most (k io s) m" for io s by (rule Atomic.IH [of "k io" "k io s" n m]) (use Atomic.prems in simp_all)
  with Atomic.prems show ?case by simp
next
  case (Ask q k)
  have "at_most (k a) (n - 1) \<Longrightarrow> at_most (k a) (m - 1)" for a by (rule Ask.IH) (use Ask.prems in auto)
  with Ask.prems show ?case by auto
qed simp_all

lemma at_most_bindp:
  assumes "at_most p n" "\<And>x. at_most (q x) m" "n + m \<le> k"
  shows "at_most (bindp p q) k"
  using assms
proof (induction p arbitrary: n k)
  case (Ret x)
  then show ?case using at_most_mono [of "q x" m k] by simp
next
  case (Atomic u c)
  have "at_most (bindp (c io s) q) k" for io s by (rule Atomic.IH [of "c io" "c io s" n]) (use Atomic.prems in simp_all)
  then show ?case by simp
next
  case (Ask r c)
  have "at_most (bindp (c a) q) (k - 1)" for a by (rule Ask.IH [of "c a" "n - 1"]) (use Ask.prems in auto)
  then show ?case using Ask.prems by auto
qed simp

lemma at_most_attempt:
  assumes "at_most p n" "\<And>x. at_most (q x) m" "n + m \<le> k"
  shows "at_most (attempt p q) k"
  unfolding attempt_def
proof (rule at_most_bindp [OF assms(1) _ assms(3)])
  show "at_most (case x of Inl e \<Rightarrow> Ret (Inl e) | Inr v \<Rightarrow> q v) m" for x by (cases x) (simp_all add: assms(2))
qed

lemma at_most_basic [simp]:
  "at_most (err e) n" "at_most (ok v) n" "at_most (look f k) n \<longleftrightarrow> (\<forall>s. at_most (k (f s)) n)" "at_most (change g p) n \<longleftrightarrow> at_most p n"
  by (simp_all add: err_def ok_def look_def change_def)

lemma at_most_ignore: "at_most p n \<Longrightarrow> at_most (ignore p) n"
  unfolding ignore_def by (rule at_most_bindp [where n = n and m = 0]) simp_all

lemma at_most_stores [simp]:
  "at_most (pending_status r st) n" "at_most (pending_remove r) n" "at_most (journal_update r f) n" "at_most (journal_remove r) n"
  "at_most (on_pending g) n" "at_most (on_approvals h k) n \<longleftrightarrow> (\<forall>io (s::Service). at_most (k (snd (h io (sv_approvals s)))) n)"
  "at_most (pending_get r kp) n \<longleftrightarrow> (\<forall>s::Service. at_most (kp (PendingStore_Get r (sv_pending s))) n)"
  "at_most (journal_get r kj) n \<longleftrightarrow> (\<forall>s::Service. at_most (kj (mutation_Get r (sv_mutations s))) n)"
  by (simp_all add: pending_status_def pending_remove_def journal_update_def journal_remove_def on_pending_def on_approvals_def on_mutations_def
      pending_get_def journal_get_def split: sum.split)

lemma at_most_forget [simp]: "at_most (forget r) n"
  unfolding forget_def by (rule at_most_attempt [where n = 0 and m = 0]) simp_all

lemma at_most_checks [simp]:
  "at_most (requireCurrentApprovalAuthority op) n" "at_most (requireCurrentApprovedNotice L op) n" "at_most (the_authority) n"
  by (simp_all add: requireCurrentApprovalAuthority_def requireCurrentApprovedNotice_def the_authority_def)

lemma at_most_still_approved [simp]: "at_most (still_approved L op) n"
  unfolding still_approved_def by (rule at_most_attempt [where n = 0 and m = 0]) simp_all

lemma at_most_start [simp]: "at_most (startExecution L r status) n"
proof -
  have enter: "at_most (enter_execution r) n" by (simp add: enter_execution_def)
  have "at_most (attempt (still_approved L op) (\<lambda>_. enter_execution r)) n" for op
    by (rule at_most_attempt [where n = 0 and m = n]) (simp_all add: enter)
  with enter show ?thesis by (auto simp: startExecution_def split: option.split)
qed

lemma at_most_replay [simp]: "0 < n \<Longrightarrow> at_most (replayPreparedResult op) n"
  by (auto simp: replayPreparedResult_def split: option.split sum.split)

lemma at_most_submit [simp]: "0 < n \<Longrightarrow> at_most (prepareAndSubmitResult op x) n"
  unfolding prepareAndSubmitResult_def by (auto intro!: at_most_attempt [where n = 0 and m = 1])

lemma at_most_failure [simp]: "0 < n \<Longrightarrow> at_most (submitFailure cf r c e) n"
  by (auto simp: submitFailure_def at_most_ignore split: option.split)

lemma at_most_run_in [simp]: "2 < n \<Longrightarrow> at_most (run_in cf r op payload sandbox) n"
  by (auto simp: run_in_def report_def Let_def at_most_ignore split: sum.split option.split)

lemma at_most_execute_started [simp]: "4 < n \<Longrightarrow> at_most (execute_started cf r op payload) n"
proof -
  assume n: "4 < n"
  have "at_most (bindp (run_in cf r op payload (Some sb)) (\<lambda>_. Ask (CallCleanup sb) (\<lambda>_. Ret ()))) (n - 1)" for sb
    by (rule at_most_bindp [where n = 3 and m = 1]) (use n in auto)
  then show ?thesis
    unfolding execute_started_def
    by (intro at_most_bindp [where n = 0 and m = n]) (use n in \<open>auto split: sum.split\<close>)
qed

lemma at_most_execute [simp]: "6 < n \<Longrightarrow> at_most (execute L cf r) n"
proof -
  assume n: "6 < n"
  have "at_most (bindp (journal_update r f) (\<lambda>u. case u of Inl _ \<Rightarrow> Ret () | Inr op \<Rightarrow> execute_started cf r op payload)) (n - Suc (Suc 0))" for f payload
    by (rule at_most_bindp [where n = 0 and m = 5]) (use n in \<open>auto split: sum.split\<close>)
  then have "at_most (execute_claimed L cf r op b) n" for op b
    using n by (auto simp: execute_claimed_def split: sum.split option.split)
  then have "at_most (bindp (still_approved L op) (\<lambda>x. case x of Inl _ \<Rightarrow> Ret () | Inr _ \<Rightarrow>
      case mu_ApprovedNotice op of None \<Rightarrow> Ret () | Some b \<Rightarrow> execute_claimed L cf r op b)) n" for op
    by (intro at_most_bindp [where n = 0 and m = n]) (auto split: sum.split option.split)
  then show ?thesis using n by (auto simp: execute_def at_most_ignore split: option.split)
qed

lemma at_most_handle [simp]: "0 < n \<Longrightarrow> at_most (handleDecisionMutation L r op status) n"
proof -
  assume n: "0 < n"
  have status: "at_most (attempt (pending_status r st) (\<lambda>_. startExecution L r st')) n" for st st'
    by (rule at_most_attempt [where n = 0 and m = n]) simp_all
  have "at_most (accepted_by_relay L r op status) n"
    unfolding accepted_by_relay_def by (auto simp: status intro!: at_most_attempt [where n = 0 and m = n] split: mutationPhase.split)
  then show ?thesis using n by (auto simp: handleDecisionMutation_def cancelExecution_def)
qed

lemma at_most_decide [simp]: "0 < n \<Longrightarrow> at_most (decide r op) n"
  by (auto simp: decide_def split: sum.split)

lemma at_most_commit [simp]: "1 < n \<Longrightarrow> at_most (commitAllowOnce L r op) n"
  unfolding commitAllowOnce_def
  by (rule at_most_attempt [where n = 0 and m = 2]; simp?; rule at_most_attempt [where n = 1 and m = 1]; simp?;
      rule at_most_attempt [where n = 1 and m = 0]; simp)

lemma at_most_ensure [simp]: "at_most (ensurePreparedStandingGrant L r op) n"
  unfolding ensurePreparedStandingGrant_def
  by (auto simp: Let_def intro!: at_most_attempt [where n = 0 and m = n] split: sum.split)

lemma at_most_recover [simp]: "1 < n \<Longrightarrow> at_most (recoverOperation L r status) n"
proof -
  assume n: "1 < n"
  have replay: "at_most (replay_decision L r op) n" for op
    unfolding replay_decision_def
    by (rule at_most_attempt [where n = 0 and m = 2]; (use n in simp)?; rule at_most_attempt [where n = 1 and m = 1]; simp)
  have approved: "at_most (if_approved L op p q) n" if "at_most p n" "at_most q n" for op p q
    unfolding if_approved_def by (intro at_most_bindp [where n = 0 and m = n]) (use that in \<open>auto split: sum.split\<close>)
  show ?thesis
    using n replay by (auto simp: recoverOperation_def recover_awaiting_def recover_accepted_def recover_running_def busy_elsewhere_def cancelExecution_def
        intro!: approved split: option.split mutationPhase.split)
qed

lemma at_most_prepare [simp]: "at_most (prepareDecision L n' d level g gp) n"
proof -
  have "at_most (prepare_or_reuse L n' d level g gp au b) n" for au b
    by (auto simp: prepare_or_reuse_def draw_and_put_def split: option.split sum.split)
  then show ?thesis unfolding prepareDecision_def by (auto intro!: at_most_attempt [where n = 0 and m = n] split: sum.split)
qed

lemma at_most_recheck [simp]: "at_most (recheck_grant L matched n' level g) n"
  unfolding recheck_grant_def
  by (auto intro!: at_most_attempt [where n = 0 and m = n] split: option.split sum.split)

lemma at_most_allow_notice [simp]: "1 < n \<Longrightarrow> at_most (allowOnceWithApprovalForNotice L cf r level g gp matched) n"
proof -
  assume n: "1 < n"
  have inner: "at_most (attempt (recoverOperation L r status) (\<lambda>_. ok v)) n" for r status and v :: RequestStatus
    by (rule at_most_attempt [where n = n and m = 0]) (use n in simp_all)
  have recover: "at_most (recover_decided L r status) n" for r status
    unfolding recover_decided_def by (auto intro!: inner at_most_attempt [where n = 0 and m = n] split: option.split)
  have "at_most (attempt (prepareDecision L n' d level g gp) (\<lambda>op. commitAllowOnce L r op)) n" for n' d r
    by (rule at_most_attempt [where n = 0 and m = n]) (use n in simp_all)
  then show ?thesis
    unfolding allowOnceWithApprovalForNotice_def Let_def
    by (auto simp: recover intro!: at_most_attempt [where n = 0 and m = n] split: option.split sum.split)
qed

lemma at_most_standing [simp]: "1 < n \<Longrightarrow> at_most (approve_standing L cf r level n') n"
proof -
  assume n: "1 < n"
  have save: "at_most (save_grant L r level au c op) k" for au c op k
    unfolding save_grant_def by (auto intro!: at_most_attempt [where n = 0 and m = k] split: sum.split)
  have commit: "at_most (attempt (commitAllowOnce L r op) (\<lambda>status. ok (f status))) n" for op and f :: "RequestStatus \<Rightarrow> ApprovalResult"
    by (rule at_most_attempt [where n = n and m = 0]) (use n in simp_all)
  show ?thesis
    unfolding approve_standing_def busy_elsewhere_def
    by (auto simp: save intro!: commit at_most_attempt [where n = 0 and m = n] split: sum.split)
qed

section \<open>Property\<close>

text \<open>
  C34. Every action of the recipient ends after a fixed number of calls. Whatever the relay, the
  runtime and the files do, denying and inspecting turn to the outside at most once, allowing,
  approving and recovering one request at most twice, and an execution at most seven times: there
  is no path on which one of them retries.
\<close>

theorem actions_end:
  "at_most (Deny L r) 1 \<and> at_most (Service_InspectProposal L r) 1 \<and> at_most (AllowOnce L cf r) 2 \<and> at_most (Approve L cf r level) 2 \<and>
   at_most (maybeAutoApprove L cf n) 2 \<and> at_most (recoverOperation L r status) 2 \<and> at_most (execution_goroutine L cf r) 7"
proof (intro conjI)
  show "at_most (Deny L r) 1"
  proof -
    have inner: "at_most (attempt (decide r op) (\<lambda>status. if c status then err (e status) else forget r)) 1" for op c e
      by (rule at_most_attempt [where n = 1 and m = 0]) simp_all
    show ?thesis
      unfolding Deny_def by (auto intro!: inner at_most_attempt [where n = 0 and m = 1] split: option.split)
  qed
  show "at_most (Service_InspectProposal L r) 1"
    by (auto simp: Service_InspectProposal_def Let_def split: option.split sum.split)
  show "at_most (AllowOnce L cf r) 2"
    unfolding AllowOnce_def by (rule at_most_attempt [where n = 2 and m = 0]) simp_all
  show "at_most (Approve L cf r level) 2"
    unfolding Approve_def Let_def by (auto intro!: at_most_attempt [where n = 2 and m = 0] split: option.split)
  show "at_most (maybeAutoApprove L cf n) 2"
  proof -
    have "at_most (attempt (allowOnceWithApprovalForNotice L cf r level g gp m) (\<lambda>_. ok ())) 2" for r level g gp m
      by (rule at_most_attempt [where n = 2 and m = 0]) simp_all
    then show ?thesis
      unfolding maybeAutoApprove_def
      by (auto intro!: at_most_ignore at_most_attempt [where n = 0 and m = 2] split: option.split sum.split)
  qed
  show "at_most (execution_goroutine L cf r) 7"
    unfolding execution_goroutine_def by (rule at_most_bindp [where n = 7 and m = 0]) simp_all
qed simp

end
