(* ===== verification/Controller.thy ===== *)
theory Controller
  imports Pending_Store Runtime_Helpers
begin

text \<open>
  The runtime controller (\<open>internal/receiver/controller.go\<close>): executions of one conversation one
  after the other, at most \<open>maxConcurrent\<close> at a time, each with the session the conversation had.

  A lock of a conversation is an object with an address, since the code compares pointers and several
  objects may exist for one conversation over time. A call of \<open>Execute\<close> is a goroutine; its states
  are the points between two operations on shared state, and \<open>controller_step\<close> lets the calls
  interleave at these points. A channel of capacity one is whether its token is in it, the channel
  of the semaphore is the number of tokens in it.
\<close>

section \<open>State\<close>

record conversationLock =
  cl_gate :: bool
  cl_refs :: int

record Controller =
  ct_locks :: "string \<Rightarrow> nat option"
  ct_heap :: "conversationLock list"
  ct_sem :: nat
  ct_max :: nat
  ct_store :: FileSessionStore

datatype execute_error =
    ExecInvalid run_request_error | ExecCancelled | ExecLoad "unit store_error" | ExecRuntime string
  | ExecForeignSession string | ExecSave "unit store_error"

type_synonym outcome = "(execute_error, RunResult) result"

text \<open>
  Where a call is. In the states that leave, the call still owns what it is about to give back: the
  token of the semaphore, the token of the gate, its reference to the lock.
\<close>

datatype execution =
    Arrived RunRequest
  | Waiting RunRequest nat
  | Woken RunRequest nat
  | Queued RunRequest nat
  | Loading RunRequest nat
  | Running RunRequest nat
  | Saving RunRequest nat RunResult
  | LeavingSem string nat outcome
  | LeavingGate string nat outcome
  | LeavingRef string nat outcome
  | Finished outcome

section \<open>Operations\<close>

text \<open>The first critical section of \<open>lockConversation\<close>: find or make the lock and count the caller.\<close>

definition lock_ref :: "string \<Rightarrow> Controller \<Rightarrow> Controller \<times> nat" where
  "lock_ref conv c =
     (case ct_locks c conv of
        Some a \<Rightarrow> (c\<lparr>ct_heap := (ct_heap c)[a := (ct_heap c ! a)\<lparr>cl_refs := cl_refs (ct_heap c ! a) + 1\<rparr>]\<rparr>, a)
      | None \<Rightarrow>
          let a = length (ct_heap c) in
          (c\<lparr>ct_locks := (ct_locks c)(conv \<mapsto> a), ct_heap := ct_heap c @ [\<lparr>cl_gate = True, cl_refs = 1\<rparr>]\<rparr>, a))"

text \<open>\<open>None\<close> is an operation that blocks.\<close>

definition gate_receive :: "nat \<Rightarrow> Controller \<Rightarrow> Controller option" where
  "gate_receive a c =
     (if cl_gate (ct_heap c ! a) then Some (c\<lparr>ct_heap := (ct_heap c)[a := (ct_heap c ! a)\<lparr>cl_gate := False\<rparr>]\<rparr>) else None)"

definition gate_send :: "nat \<Rightarrow> Controller \<Rightarrow> Controller option" where
  "gate_send a c =
     (if cl_gate (ct_heap c ! a) then None else Some (c\<lparr>ct_heap := (ct_heap c)[a := (ct_heap c ! a)\<lparr>cl_gate := True\<rparr>]\<rparr>))"

definition releaseConversationRef :: "string \<Rightarrow> nat \<Rightarrow> Controller \<Rightarrow> Controller" where
  "releaseConversationRef conv a c =
     (let refs = cl_refs (ct_heap c ! a) - 1;
          c' = c\<lparr>ct_heap := (ct_heap c)[a := (ct_heap c ! a)\<lparr>cl_refs := refs\<rparr>]\<rparr>
      in if refs = 0 \<and> ct_locks c conv = Some a then c'\<lparr>ct_locks := (ct_locks c)(conv := None)\<rparr> else c')"

definition sem_send :: "Controller \<Rightarrow> Controller option" where
  "sem_send c = (if ct_sem c < ct_max c then Some (c\<lparr>ct_sem := ct_sem c + 1\<rparr>) else None)"

definition sem_receive :: "Controller \<Rightarrow> Controller option" where
  "sem_receive c = (if 0 < ct_sem c then Some (c\<lparr>ct_sem := ct_sem c - 1\<rparr>) else None)"

definition NewController :: "FileSessionStore \<Rightarrow> int \<Rightarrow> Controller option" where
  "NewController store maxConcurrent =
     (if maxConcurrent \<le> 0 then None
      else Some \<lparr>ct_locks = Map.empty, ct_heap = [], ct_sem = 0, ct_max = nat maxConcurrent, ct_store = store\<rparr>)"

definition ResumesConversation :: "string \<Rightarrow> Controller \<Rightarrow> (unit store_error, bool) result" where
  "ResumesConversation conv c =
     (case SessionStore_Get conv (ct_store c) of Inl e \<Rightarrow> Inl e | Inr session \<Rightarrow> Inr (session \<noteq> None))"

text \<open>\<open>Probe\<close>, given what the adapter's probe answers; the code hands on the capabilities with the error.\<close>

definition Controller_Probe :: "Policy \<Rightarrow> (string, Capabilities) result \<Rightarrow> (string + policy_error, Capabilities) result" where
  "Controller_Probe configured probed =
     (case probed of Inl e \<Rightarrow> Inl (Inl e) | Inr capabilities \<Rightarrow>
        if \<not> cp_Available capabilities then Inr capabilities
        else case ValidatePolicySupport capabilities configured of
          Inl e \<Rightarrow> Inl (Inr e) | Inr _ \<Rightarrow> Inr capabilities)"

text \<open>After the runtime: forget, refuse or keep the session it returned. \<open>rr_Session\<close> is the one it was given.\<close>

definition save_session :: "string \<Rightarrow> time \<Rightarrow> write_outcome \<Rightarrow> RunRequest \<Rightarrow> RunResult \<Rightarrow> FileSessionStore \<Rightarrow> FileSessionStore \<times> outcome" where
  "save_session adapterID now w req result store =
     (case rs_Session result of
        None \<Rightarrow>
          if rr_Session req = None then (store, Inr result)
          else (case SessionStore_Delete now w (rr_ConversationID req) store of
                  (store', Inl e) \<Rightarrow> (store', Inl (ExecSave e)) | (store', Inr _) \<Rightarrow> (store', Inr result))
      | Some session \<Rightarrow>
          if se_RuntimeID session \<noteq> adapterID then (store, Inl (ExecForeignSession (se_RuntimeID session)))
          else (case SessionStore_Put now w (rr_ConversationID req) session store of
                  (store', Inl e) \<Rightarrow> (store', Inl (ExecSave e)) | (store', Inr _) \<Rightarrow> (store', Inr result)))"

section \<open>Interleaved calls\<close>

datatype event = Arrival | Cancellation nat | Progress nat

type_synonym executions = "Controller \<times> execution list"

text \<open>
  One rule per operation of \<open>Execute\<close> and \<open>lockConversation\<close>. A cancelled context is seen where the
  code looks at it: waiting for the gate, right after getting it, and waiting for the semaphore. The
  runtime ends with any result or error.
\<close>

inductive controller_step :: "string \<Rightarrow> event \<Rightarrow> executions \<Rightarrow> executions \<Rightarrow> bool" for adapterID where
  arrive: "controller_step adapterID Arrival (c, xs) (c, xs @ [Arrived req])"
| refuse: "i < length xs \<Longrightarrow> xs ! i = Arrived req \<Longrightarrow> ValidateRunRequest req = Inl e \<Longrightarrow>
    controller_step adapterID (Progress i) (c, xs) (c, xs[i := Finished (Inl (ExecInvalid e))])"
| enter: "i < length xs \<Longrightarrow> xs ! i = Arrived req \<Longrightarrow> ValidateRunRequest req = Inr () \<Longrightarrow> lock_ref (rr_ConversationID req) c = (c', a) \<Longrightarrow>
    controller_step adapterID (Progress i) (c, xs) (c', xs[i := Waiting req a])"
| give_up: "i < length xs \<Longrightarrow> xs ! i = Waiting req a \<Longrightarrow>
    controller_step adapterID (Cancellation i) (c, xs) (c, xs[i := LeavingRef (rr_ConversationID req) a (Inl ExecCancelled)])"
| wake: "i < length xs \<Longrightarrow> xs ! i = Waiting req a \<Longrightarrow> gate_receive a c = Some c' \<Longrightarrow>
    controller_step adapterID (Progress i) (c, xs) (c', xs[i := Woken req a])"
| woken_cancelled: "i < length xs \<Longrightarrow> xs ! i = Woken req a \<Longrightarrow>
    controller_step adapterID (Cancellation i) (c, xs) (c, xs[i := LeavingGate (rr_ConversationID req) a (Inl ExecCancelled)])"
| queue: "i < length xs \<Longrightarrow> xs ! i = Woken req a \<Longrightarrow>
    controller_step adapterID (Progress i) (c, xs) (c, xs[i := Queued req a])"
| leave_queue: "i < length xs \<Longrightarrow> xs ! i = Queued req a \<Longrightarrow>
    controller_step adapterID (Cancellation i) (c, xs) (c, xs[i := LeavingGate (rr_ConversationID req) a (Inl ExecCancelled)])"
| admit: "i < length xs \<Longrightarrow> xs ! i = Queued req a \<Longrightarrow> sem_send c = Some c' \<Longrightarrow>
    controller_step adapterID (Progress i) (c, xs) (c', xs[i := Loading req a])"
| load_failed: "i < length xs \<Longrightarrow> xs ! i = Loading req a \<Longrightarrow> SessionStore_Get (rr_ConversationID req) (ct_store c) = Inl e \<Longrightarrow>
    controller_step adapterID (Progress i) (c, xs) (c, xs[i := LeavingSem (rr_ConversationID req) a (Inl (ExecLoad e))])"
| start: "i < length xs \<Longrightarrow> xs ! i = Loading req a \<Longrightarrow> SessionStore_Get (rr_ConversationID req) (ct_store c) = Inr stored \<Longrightarrow>
    controller_step adapterID (Progress i) (c, xs) (c, xs[i := Running (req\<lparr>rr_Session := stored\<rparr>) a])"
| run_failed: "i < length xs \<Longrightarrow> xs ! i = Running req a \<Longrightarrow>
    controller_step adapterID (Progress i) (c, xs) (c, xs[i := LeavingSem (rr_ConversationID req) a (Inl (ExecRuntime text))])"
| ran: "i < length xs \<Longrightarrow> xs ! i = Running req a \<Longrightarrow>
    controller_step adapterID (Progress i) (c, xs) (c, xs[i := Saving req a result])"
| save: "i < length xs \<Longrightarrow> xs ! i = Saving req a result \<Longrightarrow> save_session adapterID now w req result (ct_store c) = (store, out) \<Longrightarrow>
    controller_step adapterID (Progress i) (c, xs) (c\<lparr>ct_store := store\<rparr>, xs[i := LeavingSem (rr_ConversationID req) a out])"
| leave_sem: "i < length xs \<Longrightarrow> xs ! i = LeavingSem conv a out \<Longrightarrow> sem_receive c = Some c' \<Longrightarrow>
    controller_step adapterID (Progress i) (c, xs) (c', xs[i := LeavingGate conv a out])"
| leave_gate: "i < length xs \<Longrightarrow> xs ! i = LeavingGate conv a out \<Longrightarrow> gate_send a c = Some c' \<Longrightarrow>
    controller_step adapterID (Progress i) (c, xs) (c', xs[i := LeavingRef conv a out])"
| leave_ref: "i < length xs \<Longrightarrow> xs ! i = LeavingRef conv a out \<Longrightarrow>
    controller_step adapterID (Progress i) (c, xs) (releaseConversationRef conv a c, xs[i := Finished out])"

definition any_step :: "string \<Rightarrow> executions \<Rightarrow> executions \<Rightarrow> bool" where
  "any_step adapterID s s' \<longleftrightarrow> (\<exists>e. controller_step adapterID e s s')"

text \<open>The steps of the calls that are there, cancellations included.\<close>

definition own_step :: "string \<Rightarrow> executions \<Rightarrow> executions \<Rightarrow> bool" where
  "own_step adapterID s s' \<longleftrightarrow> (\<exists>e. e \<noteq> Arrival \<and> controller_step adapterID e s s')"

section \<open>What a call owns\<close>

text \<open>The conversation and the lock a call refers to.\<close>

fun refers :: "execution \<Rightarrow> (string \<times> nat) option" where
  "refers (Waiting req a) = Some (rr_ConversationID req, a)"
| "refers (Woken req a) = Some (rr_ConversationID req, a)"
| "refers (Queued req a) = Some (rr_ConversationID req, a)"
| "refers (Loading req a) = Some (rr_ConversationID req, a)"
| "refers (Running req a) = Some (rr_ConversationID req, a)"
| "refers (Saving req a result) = Some (rr_ConversationID req, a)"
| "refers (LeavingSem conv a out) = Some (conv, a)"
| "refers (LeavingGate conv a out) = Some (conv, a)"
| "refers (LeavingRef conv a out) = Some (conv, a)"
| "refers _ = None"

fun holds_gate :: "execution \<Rightarrow> bool" where
  "holds_gate (Woken req a) = True"
| "holds_gate (Queued req a) = True"
| "holds_gate (Loading req a) = True"
| "holds_gate (Running req a) = True"
| "holds_gate (Saving req a result) = True"
| "holds_gate (LeavingSem conv a out) = True"
| "holds_gate (LeavingGate conv a out) = True"
| "holds_gate _ = False"

fun holds_sem :: "execution \<Rightarrow> bool" where
  "holds_sem (Loading req a) = True"
| "holds_sem (Running req a) = True"
| "holds_sem (Saving req a result) = True"
| "holds_sem (LeavingSem conv a out) = True"
| "holds_sem _ = False"

text \<open>The session a call was given, while it may still change the store.\<close>

fun given :: "execution \<Rightarrow> (string \<times> SessionRef option) option" where
  "given (Running req a) = Some (rr_ConversationID req, rr_Session req)"
| "given (Saving req a result) = Some (rr_ConversationID req, rr_Session req)"
| "given _ = None"

definition users :: "nat \<Rightarrow> execution list \<Rightarrow> execution list" where
  "users a xs = filter (\<lambda>x. map_option snd (refers x) = Some a) xs"

definition holders :: "nat \<Rightarrow> execution list \<Rightarrow> execution list" where
  "holders a xs = filter (\<lambda>x. map_option snd (refers x) = Some a \<and> holds_gate x) xs"

text \<open>
  The invariant: the table names exactly the locks that are referred to; a lock is counted once per
  call that refers to it, and its gate is shut exactly while one call holds it; the semaphore counts
  the calls that hold it; a session that was handed out is still the one in the store.
\<close>

definition table_ok :: "Controller \<Rightarrow> bool" where
  "table_ok c \<longleftrightarrow>
     (\<forall>conv a. ct_locks c conv = Some a \<longrightarrow> a < length (ct_heap c) \<and> 0 < cl_refs (ct_heap c ! a)) \<and> inj_on (ct_locks c) (dom (ct_locks c))"

definition refs_ok :: "Controller \<Rightarrow> execution list \<Rightarrow> bool" where
  "refs_ok c xs \<longleftrightarrow> (\<forall>i < length xs. \<forall>conv a. refers (xs ! i) = Some (conv, a) \<longrightarrow> ct_locks c conv = Some a)"

definition locks_ok :: "Controller \<Rightarrow> execution list \<Rightarrow> bool" where
  "locks_ok c xs \<longleftrightarrow>
     (\<forall>a < length (ct_heap c). cl_refs (ct_heap c ! a) = int (length (users a xs)) \<and>
        length (holders a xs) = (if cl_gate (ct_heap c ! a) then 0 else 1))"

definition sem_ok :: "Controller \<Rightarrow> execution list \<Rightarrow> bool" where
  "sem_ok c xs \<longleftrightarrow> ct_sem c = length (filter holds_sem xs) \<and> ct_sem c \<le> ct_max c \<and> 0 < ct_max c"

definition sessions_ok :: "Controller \<Rightarrow> execution list \<Rightarrow> bool" where
  "sessions_ok c xs \<longleftrightarrow>
     (\<forall>i < length xs. \<forall>conv stored. given (xs ! i) = Some (conv, stored) \<longrightarrow> SessionStore_Get conv (ct_store c) = Inr stored)"

definition controller_inv :: "executions \<Rightarrow> bool" where
  "controller_inv s \<longleftrightarrow> table_ok (fst s) \<and> refs_ok (fst s) (snd s) \<and> locks_ok (fst s) (snd s) \<and> sem_ok (fst s) (snd s) \<and> sessions_ok (fst s) (snd s)"

section \<open>Counting\<close>

lemma length_filter_update:
  "i < length xs \<Longrightarrow> length (filter P (xs[i := y])) + (if P (xs ! i) then 1 else 0) = length (filter P xs) + (if P y then 1 else 0)"
proof (induction xs arbitrary: i)
  case (Cons x xs)
  then show ?case by (cases i) auto
qed simp

lemma two_in_filter:
  assumes "i < length xs" "j < length xs" "i \<noteq> j" "P (xs ! i)" "P (xs ! j)"
  shows "2 \<le> length (filter P xs)"
proof -
  have "card {i, j} \<le> card {k. k < length xs \<and> P (xs ! k)}" by (rule card_mono) (use assms in auto)
  then show ?thesis using assms(3) by (simp add: length_filter_conv_card)
qed

text \<open>A step of one call that leaves what it refers to as it is.\<close>

lemma refs_ok_keep:
  "refs_ok c xs \<Longrightarrow> i < length xs \<Longrightarrow> refers y = refers (xs ! i) \<or> refers y = None \<Longrightarrow> ct_locks c' = ct_locks c \<Longrightarrow> refs_ok c' (xs[i := y])"
  unfolding refs_ok_def by (auto simp: nth_list_update)

lemma table_ok_keep:
  "table_ok c \<Longrightarrow> ct_locks c' = ct_locks c \<Longrightarrow> length (ct_heap c') = length (ct_heap c) \<Longrightarrow>
   (\<And>a. a < length (ct_heap c) \<Longrightarrow> cl_refs (ct_heap c ! a) \<le> cl_refs (ct_heap c' ! a)) \<Longrightarrow> table_ok c'"
  unfolding table_ok_def by (metis order_less_le_trans)

lemma users_update:
  "i < length xs \<Longrightarrow> length (users a (xs[i := y])) + (if map_option snd (refers (xs ! i)) = Some a then 1 else 0) =
     length (users a xs) + (if map_option snd (refers y) = Some a then 1 else 0)"
  unfolding users_def by (rule length_filter_update)

lemma holders_update:
  "i < length xs \<Longrightarrow> length (holders a (xs[i := y])) + (if map_option snd (refers (xs ! i)) = Some a \<and> holds_gate (xs ! i) then 1 else 0) =
     length (holders a xs) + (if map_option snd (refers y) = Some a \<and> holds_gate y then 1 else 0)"
  unfolding holders_def by (rule length_filter_update)

lemma locks_ok_keep:
  assumes "locks_ok c xs" "i < length xs" "map_option snd (refers y) = map_option snd (refers (xs ! i))" "holds_gate y = holds_gate (xs ! i)"
    "ct_heap c' = ct_heap c"
  shows "locks_ok c' (xs[i := y])"
  using assms users_update [of i xs _ y] holders_update [of i xs _ y] by (auto simp: locks_ok_def)

lemma sem_ok_keep:
  assumes "sem_ok c xs" "i < length xs" "holds_sem y = holds_sem (xs ! i)" "ct_sem c' = ct_sem c" "ct_max c' = ct_max c"
  shows "sem_ok c' (xs[i := y])"
  using assms length_filter_update [of i xs holds_sem y] by (auto simp: sem_ok_def)

lemma sessions_ok_keep:
  "sessions_ok c xs \<Longrightarrow> i < length xs \<Longrightarrow> given y = None \<or> given y = given (xs ! i) \<Longrightarrow> ct_store c' = ct_store c \<Longrightarrow> sessions_ok c' (xs[i := y])"
  unfolding sessions_ok_def by (auto simp: nth_list_update)

lemma same_lock:
  assumes "controller_inv (c, xs)" "i < length xs" "refers (xs ! i) = Some (conv, a)"
  shows "ct_locks c conv = Some a" "a < length (ct_heap c)" "0 < cl_refs (ct_heap c ! a)"
proof -
  show lock: "ct_locks c conv = Some a" using assms by (simp add: controller_inv_def refs_ok_def)
  with assms(1) show "a < length (ct_heap c)" "0 < cl_refs (ct_heap c ! a)" by (simp_all add: controller_inv_def table_ok_def)
qed

lemma one_holder:
  assumes "controller_inv (c, xs)" "i < length xs" "j < length xs" "holds_gate (xs ! i)" "holds_gate (xs ! j)"
    "refers (xs ! i) = Some (conv, a)" "refers (xs ! j) = Some (conv, b)"
  shows "i = j"
proof (rule ccontr)
  assume "i \<noteq> j"
  have "a = b" using same_lock [OF assms(1,2,6)] same_lock [OF assms(1,3,7)] by simp
  then have "2 \<le> length (holders a xs)"
    unfolding holders_def by (intro two_in_filter [of i _ j]) (use assms \<open>i \<noteq> j\<close> in auto)
  moreover have "length (holders a xs) \<le> 1"
    using assms(1) same_lock(2) [OF assms(1,2,6)] by (auto simp: controller_inv_def locks_ok_def)
  ultimately show False by simp
qed


lemma other_lock:
  assumes "controller_inv (c, xs)" "i < length xs" "j < length xs" "i \<noteq> j" "holds_gate (xs ! i)" "holds_gate (xs ! j)"
    "refers (xs ! i) = Some (conv, a)" "refers (xs ! j) = Some (conv', b)"
  shows "conv \<noteq> conv' \<and> a \<noteq> b"
proof -
  have "conv \<noteq> conv'" using one_holder [OF assms(1-3,5-7), of b] assms(4,8) by auto
  moreover have "ct_locks c conv = Some a" "ct_locks c conv' = Some b" by (rule same_lock(1) [OF assms(1,2,7)] same_lock(1) [OF assms(1,3,8)])+
  ultimately show ?thesis using assms(1) by (auto simp: controller_inv_def table_ok_def inj_on_def dom_def)
qed

lemma gate_shut:
  assumes "controller_inv (c, xs)" "i < length xs" "refers (xs ! i) = Some (conv, a)"
  shows "cl_gate (ct_heap c ! a) \<longleftrightarrow> (\<forall>x\<in>set xs. holds_gate x \<longrightarrow> map_option snd (refers x) \<noteq> Some a)"
proof -
  have "length (holders a xs) = (if cl_gate (ct_heap c ! a) then 0 else 1)"
    using assms(1) same_lock(2) [OF assms] by (simp add: controller_inv_def locks_ok_def)
  then have "cl_gate (ct_heap c ! a) \<longleftrightarrow> holders a xs = []" by (auto split: if_splits)
  then show ?thesis by (auto simp: holders_def filter_empty_conv)
qed

section \<open>The invariant is kept\<close>

lemma inv_parts: "controller_inv (c, xs) \<longleftrightarrow> table_ok c \<and> refs_ok c xs \<and> locks_ok c xs \<and> sem_ok c xs \<and> sessions_ok c xs"
  by (simp add: controller_inv_def)

text \<open>A step that changes no shared state and keeps what the call owns.\<close>

lemma quiet_step:
  assumes "controller_inv (c, xs)" "i < length xs" "refers y = refers (xs ! i)" "holds_gate y = holds_gate (xs ! i)"
    "holds_sem y = holds_sem (xs ! i)" "given y = None \<or> given y = given (xs ! i)"
  shows "controller_inv (c, xs[i := y])"
  using assms by (auto simp: inv_parts intro: refs_ok_keep locks_ok_keep sem_ok_keep sessions_ok_keep)

lemma arrive_inv: "controller_inv (c, xs) \<Longrightarrow> refers y = None \<Longrightarrow> given y = None \<Longrightarrow> \<not> holds_sem y \<Longrightarrow> controller_inv (c, xs @ [y])"
  by (auto simp: inv_parts refs_ok_def locks_ok_def sem_ok_def sessions_ok_def nth_append users_def holders_def less_Suc_eq)

lemma lock_ref_inv:
  assumes inv: "controller_inv (c, xs)" and i: "i < length xs" "xs ! i = Arrived req" and lock: "lock_ref (rr_ConversationID req) c = (c', a)"
  shows "controller_inv (c', xs[i := Waiting req a])"
proof -
  let ?conv = "rr_ConversationID req" and ?ys = "xs[i := Waiting req a]"
  have users: "length (users b ?ys) = length (users b xs) + (if b = a then 1 else 0)" for b
    using users_update [of i xs b "Waiting req a"] i by auto
  have holders: "length (holders b ?ys) = length (holders b xs)" for b using holders_update [of i xs b "Waiting req a"] i by simp
  have sem: "sem_ok c' ?ys" if "ct_sem c' = ct_sem c" "ct_max c' = ct_max c"
    using inv i that by (intro sem_ok_keep [of c xs]) (auto simp: inv_parts)
  have sessions: "sessions_ok c' ?ys" if "ct_store c' = ct_store c"
    using inv i that by (intro sessions_ok_keep [of c xs]) (auto simp: inv_parts)
  show ?thesis
  proof (cases "ct_locks c ?conv")
    case None
    then have c': "c' = c\<lparr>ct_locks := (ct_locks c)(?conv \<mapsto> a), ct_heap := ct_heap c @ [\<lparr>cl_gate = True, cl_refs = 1\<rparr>]\<rparr>" "a = length (ct_heap c)"
      using lock by (auto simp: lock_ref_def Let_def)
    have fresh: "a \<notin> ran (ct_locks c)" using inv c'(2) by (auto simp: inv_parts table_ok_def ran_def)
    then have none: "map_option snd (refers x) \<noteq> Some a" if "x \<in> set xs" for x
      using inv that by (auto simp: inv_parts refs_ok_def in_set_conv_nth ran_def)
    have old: "b < a \<and> 0 < cl_refs (ct_heap c ! b)" if "ct_locks c k = Some b" for k b
      using inv that by (simp add: inv_parts table_ok_def c'(2))
    have "inj_on (ct_locks c) (dom (ct_locks c))" using inv by (simp add: inv_parts table_ok_def)
    then have "inj_on (ct_locks c') (dom (ct_locks c'))"
      using fresh unfolding c'(1) by (auto simp: inj_on_def ran_def dom_def)
    then have "table_ok c'"
      using old unfolding table_ok_def by (auto simp: c' nth_append intro: less_SucI)
    moreover have "refs_ok c' ?ys" using inv i None unfolding c' by (auto simp: inv_parts refs_ok_def nth_list_update)
    moreover have "users a xs = []" "holders a xs = []" using none by (auto simp: users_def holders_def filter_empty_conv)
    then have "locks_ok c' ?ys"
      using inv unfolding c'(1) locks_ok_def users holders
      by (auto simp: inv_parts locks_ok_def nth_append c'(2) less_Suc_eq)
    ultimately show ?thesis using sem sessions c' by (simp add: inv_parts)
  next
    case (Some b)
    then have c': "c' = c\<lparr>ct_heap := (ct_heap c)[a := (ct_heap c ! a)\<lparr>cl_refs := cl_refs (ct_heap c ! a) + 1\<rparr>]\<rparr>" "b = a"
      using lock by (auto simp: lock_ref_def)
    have tab: "table_ok c" using inv by (simp add: inv_parts)
    with Some c'(2) have a: "a < length (ct_heap c)" by (simp add: table_ok_def)
    have "table_ok c'" by (rule table_ok_keep [OF tab]) (use a in \<open>simp_all add: c'(1) nth_list_update\<close>)
    moreover have "refs_ok c' ?ys" using inv i Some unfolding c' by (auto simp: inv_parts refs_ok_def nth_list_update)
    moreover have "locks_ok c' ?ys"
      using inv a unfolding c'(1) locks_ok_def users holders by (auto simp: inv_parts locks_ok_def nth_list_update)
    ultimately show ?thesis using sem sessions c' by (simp add: inv_parts)
  qed
qed

lemma gate_inv:
  assumes inv: "controller_inv (c, xs)" and i: "i < length xs" "refers (xs ! i) = Some (conv, a)" "refers y = Some (conv, a)"
    and c': "c' = c\<lparr>ct_heap := (ct_heap c)[a := (ct_heap c ! a)\<lparr>cl_gate := g\<rparr>]\<rparr>" "cl_gate (ct_heap c ! a) \<noteq> g"
      "holds_gate (xs ! i) \<longleftrightarrow> g" "holds_gate y \<longleftrightarrow> \<not> g"
    and keeps: "holds_sem y = holds_sem (xs ! i)" "given y = None"
  shows "controller_inv (c', xs[i := y])"
proof -
  note lock = same_lock [OF inv i(1,2)]
  have users: "length (users b (xs[i := y])) = length (users b xs)" for b using users_update [of i xs b y] i by simp
  have holders: "length (holders b (xs[i := y])) + (if b = a \<and> g then 1 else 0) = length (holders b xs) + (if b = a \<and> \<not> g then 1 else 0)" for b
    using holders_update [of i xs b y] i c'(3,4) by auto
  have "locks_ok c' (xs[i := y])"
    unfolding locks_ok_def users
  proof (intro allI impI conjI)
    fix b
    assume b: "b < length (ct_heap c')"
    then have old: "cl_refs (ct_heap c ! b) = int (length (users b xs))" "length (holders b xs) = (if cl_gate (ct_heap c ! b) then 0 else 1)"
      using inv by (simp_all add: inv_parts locks_ok_def c'(1))
    show "cl_refs (ct_heap c' ! b) = int (length (users b xs))" using old(1) b lock(2) by (simp add: c'(1) nth_list_update)
    show "length (holders b (xs[i := y])) = (if cl_gate (ct_heap c' ! b) then 0 else 1)"
      using old(2) holders [of b] c'(2) b lock(2) by (cases g; cases "b = a") (simp_all add: c'(1) nth_list_update)
  qed
  moreover have "table_ok c" using inv by (simp add: inv_parts)
  then have "table_ok c'" by (rule table_ok_keep) (use lock(2) in \<open>simp_all add: c'(1) nth_list_update\<close>)
  ultimately show ?thesis
    using inv i keeps by (auto simp: inv_parts c'(1) intro: refs_ok_keep sem_ok_keep sessions_ok_keep)
qed

lemma sem_inv:
  assumes "controller_inv (c, xs)" "i < length xs" "refers y = refers (xs ! i)" "holds_gate y = holds_gate (xs ! i)"
    "given y = None" "holds_sem y \<noteq> holds_sem (xs ! i)" "(if holds_sem y then sem_send c else sem_receive c) = Some c'"
  shows "controller_inv (c', xs[i := y])"
proof -
  have "ct_locks c' = ct_locks c \<and> ct_heap c' = ct_heap c \<and> ct_store c' = ct_store c \<and> ct_max c' = ct_max c"
    using assms(7) by (auto simp: sem_send_def sem_receive_def split: if_splits)
  moreover have "sem_ok c' (xs[i := y])"
    using assms length_filter_update [of i xs holds_sem y]
    by (auto simp: inv_parts sem_ok_def sem_send_def sem_receive_def split: if_splits)
  ultimately show ?thesis
    using assms by (auto simp: inv_parts intro: refs_ok_keep locks_ok_keep sessions_ok_keep table_ok_keep)
qed

lemma leave_ref_inv:
  assumes inv: "controller_inv (c, xs)" and i: "i < length xs" "xs ! i = LeavingRef conv a out"
  shows "controller_inv (releaseConversationRef conv a c, xs[i := Finished out])"
proof -
  let ?c = "releaseConversationRef conv a c" and ?ys = "xs[i := Finished out]"
  note lock = same_lock [OF inv i(1), of conv a, unfolded i(2) refers.simps, OF refl]
  have users: "length (users b ?ys) + (if b = a then 1 else 0) = length (users b xs)" for b
    using users_update [of i xs b "Finished out"] i by auto
  have holders: "length (holders b ?ys) = length (holders b xs)" for b using holders_update [of i xs b "Finished out"] i by simp
  have parts: "ct_sem ?c = ct_sem c" "ct_max ?c = ct_max c" "ct_store ?c = ct_store c"
    "ct_heap ?c = (ct_heap c)[a := (ct_heap c ! a)\<lparr>cl_refs := cl_refs (ct_heap c ! a) - 1\<rparr>]"
    "ct_locks ?c = (if cl_refs (ct_heap c ! a) = 1 then (ct_locks c)(conv := None) else ct_locks c)"
    using lock(1) by (auto simp: releaseConversationRef_def Let_def)
  have refs: "cl_refs (ct_heap c ! a) = int (length (users a xs))" using inv lock(2) by (simp add: inv_parts locks_ok_def)
  have only: "b \<noteq> a" if "cl_refs (ct_heap c ! a) = 1" "j < length ?ys" "refers (?ys ! j) = Some (conv', b)" for j conv' b
  proof
    assume "b = a"
    then have "?ys ! j \<in> set (users a ?ys)" using that by (simp add: users_def)
    moreover have "length (users a ?ys) = 0" using users [of a] refs that(1) by simp
    ultimately show False by simp
  qed
  have inj: "inj_on (ct_locks c) (dom (ct_locks c))" and old: "\<And>k b. ct_locks c k = Some b \<Longrightarrow> b < length (ct_heap c) \<and> 0 < cl_refs (ct_heap c ! b)"
    using inv by (simp_all add: inv_parts table_ok_def)
  have alone: "b \<noteq> a" if "ct_locks c k = Some b" "k \<noteq> conv" for k b using inj lock(1) that by (auto simp: inj_on_def dom_def)
  have "inj_on (ct_locks ?c) (dom (ct_locks ?c))" using inj unfolding parts by (auto simp: inj_on_def dom_def)
  moreover have "b < length (ct_heap ?c) \<and> 0 < cl_refs (ct_heap ?c ! b)" if "ct_locks ?c k = Some b" for k b
  proof (cases "b = a")
    case True
    then have "k = conv" using that alone [of k b] unfolding parts by (auto split: if_splits)
    then have "cl_refs (ct_heap c ! a) \<noteq> 1" using that unfolding parts by (auto split: if_splits)
    with True lock show ?thesis by (simp add: parts)
  next
    case False
    then show ?thesis using that old unfolding parts by (auto split: if_splits)
  qed
  ultimately have "table_ok ?c" unfolding table_ok_def by blast
  moreover have "refs_ok ?c ?ys"
    unfolding refs_ok_def parts
  proof (intro allI impI)
    fix j conv' b
    assume j: "j < length ?ys" "refers (?ys ! j) = Some (conv', b)"
    then have "ct_locks c conv' = Some b" using inv i by (auto simp: inv_parts refs_ok_def nth_list_update split: if_splits)
    then show "(if cl_refs (ct_heap c ! a) = 1 then (ct_locks c)(conv := None) else ct_locks c) conv' = Some b"
      using only [OF _ j] lock(1) by auto
  qed
  moreover have "locks_ok ?c ?ys"
    unfolding locks_ok_def holders
  proof (intro allI impI conjI)
    fix b
    assume b: "b < length (ct_heap ?c)"
    with inv have "cl_refs (ct_heap c ! b) = int (length (users b xs))" "length (holders b xs) = (if cl_gate (ct_heap c ! b) then 0 else 1)"
      by (simp_all add: inv_parts locks_ok_def parts)
    then show "cl_refs (ct_heap ?c ! b) = int (length (users b ?ys))" "length (holders b xs) = (if cl_gate (ct_heap ?c ! b) then 0 else 1)"
      using users [of b] b lock(2) by (auto simp: parts nth_list_update split: if_splits)
  qed
  moreover have "sem_ok ?c ?ys" using inv i parts by (intro sem_ok_keep [of c xs]) (auto simp: inv_parts)
  moreover have "sessions_ok ?c ?ys" using inv i parts by (intro sessions_ok_keep [of c xs]) (auto simp: inv_parts)
  ultimately show ?thesis by (simp add: inv_parts)
qed


lemma save_session_others:
  "save_session adapterID now w req result store = (store', out) \<Longrightarrow> conv \<noteq> rr_ConversationID req \<Longrightarrow>
   SessionStore_Get conv store' = SessionStore_Get conv store"
  by (cases w)
    (auto simp: save_session_def SessionStore_Put_def SessionStore_Delete_def SessionStore_Get_def save_keeping_def session_write_def
      write_snapshot_def update_conv' delete_conv' split: option.splits prod.splits sum.splits if_splits)

lemma session_save_inv:
  assumes inv: "controller_inv (c, xs)" and i: "i < length xs" "xs ! i = Saving req a result"
    and save: "save_session adapterID now w req result (ct_store c) = (store, out)"
  shows "controller_inv (c\<lparr>ct_store := store\<rparr>, xs[i := LeavingSem (rr_ConversationID req) a out])"
proof -
  let ?ys = "xs[i := LeavingSem (rr_ConversationID req) a out]"
  have "SessionStore_Get conv store = Inr stored" if j: "j < length ?ys" "given (?ys ! j) = Some (conv, stored)" for j conv stored
  proof -
    have "j \<noteq> i" using i j by auto
    with j have x: "given (xs ! j) = Some (conv, stored)" "j < length xs" by simp_all
    then obtain b where "refers (xs ! j) = Some (conv, b)" "holds_gate (xs ! j)" by (cases "xs ! j") auto
    with one_holder [OF inv i(1) x(2)] i(2) \<open>j \<noteq> i\<close> have "conv \<noteq> rr_ConversationID req" by auto
    with save_session_others [OF save] x inv show ?thesis by (auto simp: inv_parts sessions_ok_def)
  qed
  then have "sessions_ok (c\<lparr>ct_store := store\<rparr>) ?ys" by (simp add: sessions_ok_def)
  with inv i show ?thesis by (auto simp: inv_parts intro: refs_ok_keep locks_ok_keep sem_ok_keep table_ok_keep)
qed

lemma start_inv:
  assumes "controller_inv (c, xs)" "i < length xs" "xs ! i = Loading req a" "SessionStore_Get (rr_ConversationID req) (ct_store c) = Inr stored"
  shows "controller_inv (c, xs[i := Running (req\<lparr>rr_Session := stored\<rparr>) a])"
proof -
  have "sessions_ok c (xs[i := Running (req\<lparr>rr_Session := stored\<rparr>) a])"
    using assms by (auto simp: inv_parts sessions_ok_def nth_list_update)
  with assms show ?thesis by (auto simp: inv_parts intro: refs_ok_keep locks_ok_keep sem_ok_keep)
qed

text \<open>The facts of one step are in the conclusion of its rule; each rule is one of the lemmas above.\<close>

lemma controller_step_inv: "controller_step adapterID e s s' \<Longrightarrow> controller_inv s \<Longrightarrow> controller_inv s'"
proof (induction rule: controller_step.induct)
  case (enter i xs req c c' a)
  then show ?case by (blast intro: lock_ref_inv)
next
  case (wake i xs req a c c')
  then show ?case by (auto intro!: gate_inv [where g = False] simp: gate_receive_def split: if_splits)
next
  case (leave_gate i xs conv a out c c')
  then show ?case by (auto intro!: gate_inv [where g = True] simp: gate_send_def split: if_splits)
next
  case (admit i xs req a c c')
  then show ?case by (intro sem_inv [of c xs i]) auto
next
  case (leave_sem i xs conv a out c c')
  then show ?case by (intro sem_inv [of c xs i]) auto
qed (auto intro: quiet_step arrive_inv start_inv session_save_inv leave_ref_inv)

lemma controller_steps_inv: "(any_step adapterID)\<^sup>*\<^sup>* s s' \<Longrightarrow> controller_inv s \<Longrightarrow> controller_inv s'"
  by (induction rule: rtranclp_induct) (auto simp: any_step_def dest: controller_step_inv)

lemma lock_ref_max: "ct_max (fst (lock_ref conv c)) = ct_max c"
  by (simp add: lock_ref_def Let_def split: option.split)

lemma release_max: "ct_max (releaseConversationRef conv a c) = ct_max c"
  by (simp add: releaseConversationRef_def Let_def)

lemma controller_step_max: "controller_step adapterID e s s' \<Longrightarrow> ct_max (fst s') = ct_max (fst s)"
proof (induction rule: controller_step.induct)
  case (enter i xs req c c' a)
  then show ?case using lock_ref_max [of "rr_ConversationID req" c] by simp
qed (auto simp: release_max gate_receive_def gate_send_def sem_send_def sem_receive_def split: if_splits)

lemma controller_steps_max: "(any_step adapterID)\<^sup>*\<^sup>* s s' \<Longrightarrow> ct_max (fst s') = ct_max (fst s)"
  by (induction rule: rtranclp_induct) (auto simp: any_step_def dest: controller_step_max)

lemma NewController_inv: "NewController store maxConcurrent = Some c \<Longrightarrow> controller_inv (c, [])"
  by (auto simp: NewController_def inv_parts table_ok_def refs_ok_def locks_ok_def sem_ok_def sessions_ok_def split: if_splits)


section \<open>Progress\<close>

text \<open>Every step of a call brings it closer to its end.\<close>

fun stage :: "execution \<Rightarrow> nat" where
  "stage (Arrived req) = 10"
| "stage (Waiting req a) = 9"
| "stage (Woken req a) = 8"
| "stage (Queued req a) = 7"
| "stage (Loading req a) = 6"
| "stage (Running req a) = 5"
| "stage (Saving req a result) = 4"
| "stage (LeavingSem conv a out) = 3"
| "stage (LeavingGate conv a out) = 2"
| "stage (LeavingRef conv a out) = 1"
| "stage (Finished out) = 0"

definition work :: "executions \<Rightarrow> nat" where
  "work s = sum_list (map stage (snd s))"

lemma work_update: "i < length xs \<Longrightarrow> stage y < stage (xs ! i) \<Longrightarrow> sum_list (map stage (xs[i := y])) < sum_list (map stage xs)"
proof (induction xs arbitrary: i)
  case (Cons x xs)
  then show ?case by (cases i) auto
qed simp

lemma own_step_work: "own_step adapterID s s' \<Longrightarrow> work s' < work s"
proof -
  have "e \<noteq> Arrival \<longrightarrow> work s' < work s" if "controller_step adapterID e s s'" for e
    using that by (induction rule: controller_step.induct) (simp_all add: work_def work_update)
  moreover assume "own_step adapterID s s'"
  ultimately show ?thesis by (auto simp: own_step_def)
qed

lemma own_steps_work: "(own_step adapterID ^^ n) s s' \<Longrightarrow> n + work s' \<le> work s"
proof (induction n arbitrary: s')
  case (Suc n)
  then obtain s1 where "(own_step adapterID ^^ n) s s1" "own_step adapterID s1 s'" by auto
  with Suc.IH [of s1] own_step_work [of adapterID s1 s'] show ?case by simp
qed simp

lemma any_stepI: "controller_step adapterID e s s' \<Longrightarrow> any_step adapterID s s'"
  by (auto simp: any_step_def)

lemma own_steps_any: "(own_step adapterID ^^ n) s s' \<Longrightarrow> (any_step adapterID)\<^sup>*\<^sup>* s s'"
proof (induction n arbitrary: s')
  case (Suc n)
  then obtain s1 where "(any_step adapterID)\<^sup>*\<^sup>* s s1" "own_step adapterID s1 s'" by auto
  then show ?case by (auto simp: own_step_def intro: any_stepI rtranclp.rtrancl_into_rtrancl)
qed simp

lemma stage_le: "stage x \<le> 10"
  by (cases x) simp_all

lemma work_le: "work (c, xs) \<le> 10 * length xs"
  unfolding work_def using stage_le by (induction xs) (auto simp: add_mono)

text \<open>States in which a call never blocks: what it gives back was its own.\<close>

fun may_block :: "execution \<Rightarrow> bool" where
  "may_block (Waiting req a) = True"
| "may_block (Queued req a) = True"
| "may_block (Finished out) = True"
| "may_block _ = False"

lemma holder_counts:
  assumes inv: "controller_inv (c, xs)" and i: "i < length xs" "refers (xs ! i) = Some (conv, a)" "holds_gate (xs ! i)"
  shows "\<not> cl_gate (ct_heap c ! a)"
proof -
  have "xs ! i \<in> set (holders a xs)" using i by (simp add: holders_def)
  then have "length (holders a xs) \<noteq> 0" by auto
  with inv same_lock(2) [OF inv i(1,2)] show ?thesis by (auto simp: inv_parts locks_ok_def)
qed

lemma sem_counts: "controller_inv (c, xs) \<Longrightarrow> i < length xs \<Longrightarrow> holds_sem (xs ! i) \<Longrightarrow> 0 < ct_sem c"
  by (auto simp: inv_parts sem_ok_def filter_empty_conv intro: nth_mem)

lemma unblocked_step:
  assumes inv: "controller_inv (c, xs)" and i: "i < length xs" "\<not> may_block (xs ! i)"
  shows "\<exists>s'. controller_step adapterID (Progress i) (c, xs) s'"
proof (cases "xs ! i")
  case (Arrived req)
  obtain c' a where "lock_ref (rr_ConversationID req) c = (c', a)" by fastforce
  with Arrived i show ?thesis by (cases "ValidateRunRequest req") (auto intro: controller_step.intros)
next
  case (Loading req a)
  with i show ?thesis by (cases "SessionStore_Get (rr_ConversationID req) (ct_store c)") (auto intro: controller_step.intros)
next
  case (Saving req a result)
  obtain store out where "save_session adapterID 0 WriteDone req result (ct_store c) = (store, out)" by fastforce
  with Saving i show ?thesis by (auto intro: controller_step.intros)
next
  case (LeavingSem conv a out)
  then have "sem_receive c \<noteq> None" using sem_counts [OF inv i(1)] by (simp add: sem_receive_def)
  with LeavingSem i show ?thesis by (auto intro: controller_step.intros)
next
  case (LeavingGate conv a out)
  then have "gate_send a c \<noteq> None" using holder_counts [OF inv i(1)] by (simp add: gate_send_def)
  with LeavingGate i show ?thesis by (auto intro: controller_step.intros)
qed (use i in \<open>auto intro: controller_step.intros\<close>)

lemma call_progress:
  assumes inv: "controller_inv (c, xs)" and i: "i < length xs" "\<forall>out. xs ! i \<noteq> Finished out"
  shows "\<exists>k s'. controller_step adapterID (Progress k) (c, xs) s'"
proof (cases "\<exists>k < length xs. \<not> may_block (xs ! k)")
  case True
  then show ?thesis using unblocked_step [OF inv] by blast
next
  case False
  then have blocked: "\<not> holds_sem x" "holds_gate x \<Longrightarrow> \<exists>req a. x = Queued req a" if "x \<in> set xs" for x
    using that by (cases x; auto simp: in_set_conv_nth)+
  show ?thesis
  proof (cases "\<exists>k < length xs. \<exists>req a. xs ! k = Queued req a")
    case True
    then obtain k req a where k: "k < length xs" "xs ! k = Queued req a" by blast
    have "filter holds_sem xs = []" using blocked(1) by (simp add: filter_empty_conv)
    then have "sem_send c \<noteq> None" using inv by (simp add: inv_parts sem_ok_def sem_send_def)
    with k show ?thesis by (auto intro: controller_step.admit)
  next
    case none: False
    then obtain req a where w: "xs ! i = Waiting req a" using False i by (cases "xs ! i") auto
    have "holders a xs = []" using blocked(2) none by (fastforce simp: holders_def filter_empty_conv in_set_conv_nth)
    then have "gate_receive a c \<noteq> None"
      using inv same_lock(2) [OF inv i(1), of "rr_ConversationID req" a] w
      by (auto simp: inv_parts locks_ok_def gate_receive_def split: if_splits)
    with i(1) w show ?thesis by (auto intro: controller_step.wake)
  qed
qed

lemma all_finished:
  assumes inv: "controller_inv (c, xs)" and "\<forall>x\<in>set xs. \<exists>out. x = Finished out"
  shows "ct_locks c = Map.empty" "ct_sem c = 0"
proof -
  have fin: "refers x = None" "\<not> holds_sem x" if "x \<in> set xs" for x using assms(2) that by fastforce+
  then have users: "users a xs = []" for a by (simp add: users_def filter_empty_conv)
  show "ct_locks c = Map.empty"
  proof (rule ext, rule ccontr)
    fix conv
    assume "ct_locks c conv \<noteq> Map.empty conv"
    then obtain a where "ct_locks c conv = Some a" by auto
    with inv have "a < length (ct_heap c)" "0 < cl_refs (ct_heap c ! a)" by (simp_all add: inv_parts table_ok_def)
    with inv users [of a] show False by (auto simp: inv_parts locks_ok_def)
  qed
  show "ct_sem c = 0" using inv fin(2) by (simp add: inv_parts sem_ok_def)
qed


section \<open>Example\<close>

text \<open>Two requests of one conversation: the first runs, the second waits for it.\<close>

definition ctl_request :: "string \<Rightarrow> RunRequest" where
  "ctl_request r = \<lparr>rr_RequestID = r, rr_ConversationID = ''c1'', rr_Title = [], rr_Requester = [], rr_Prompt = ''p'', rr_Attachments = [],
     rr_Workspaces = [], rr_ReturnDirectory = [], rr_RequestedPolicy = None, rr_Session = None\<rparr>"

definition ctl_start :: Controller where
  "ctl_start = \<lparr>ct_locks = Map.empty, ct_heap = [], ct_sem = 0, ct_max = 2, ct_store = \<lparr>ls_entries = [], ls_file = None\<rparr>\<rparr>"

definition ctl_busy :: Controller where
  "ctl_busy = \<lparr>ct_locks = [''c1'' \<mapsto> 0], ct_heap = [\<lparr>cl_gate = False, cl_refs = 2\<rparr>], ct_sem = 1, ct_max = 2,
     ct_store = \<lparr>ls_entries = [], ls_file = None\<rparr>\<rparr>"

lemma ctl_new: "NewController \<lparr>ls_entries = [], ls_file = None\<rparr> 2 = Some ctl_start"
  by (simp add: NewController_def ctl_start_def)

lemma ctl_valid: "ValidateRunRequest (ctl_request r) = Inr () \<longleftrightarrow> TrimSpace r \<noteq> []"
proof -
  have "TrimSpace ''c1'' = ''c1''" "TrimSpace ''p'' = ''p''" by (rule TrimSpace_id; simp add: IsSpace_def)+
  then show ?thesis by (auto simp: ValidateRunRequest_def ctl_request_def)
qed

lemma ctl_reached:
  "(any_step ''codex'')\<^sup>*\<^sup>* (ctl_start, []) (ctl_busy, [Running (ctl_request ''r1'') 0, Waiting (ctl_request ''r2'') 0])"
proof -
  have valid: "ValidateRunRequest (ctl_request ''r1'') = Inr ()" "ValidateRunRequest (ctl_request ''r2'') = Inr ()"
    using TrimSpace_id [of "''r1''"] TrimSpace_id [of "''r2''"] by (simp_all add: ctl_valid IsSpace_def)
  let ?r1 = "ctl_request ''r1''" and ?r2 = "ctl_request ''r2''"
  define c1 where "c1 = fst (lock_ref ''c1'' ctl_start)"
  define c2 where "c2 = fst (lock_ref ''c1'' c1)"
  define c3 where "c3 = c2\<lparr>ct_heap := [\<lparr>cl_gate = False, cl_refs = 2\<rparr>]\<rparr>"
  have refs: "lock_ref (rr_ConversationID ?r1) ctl_start = (c1, 0)" "lock_ref (rr_ConversationID ?r2) c1 = (c2, 0)"
    by (simp_all add: c1_def c2_def lock_ref_def ctl_start_def ctl_request_def)
  have gate: "gate_receive 0 c2 = Some c3" by (simp add: gate_receive_def c3_def c2_def c1_def lock_ref_def ctl_start_def)
  have sem: "sem_send c3 = Some ctl_busy"
    by (simp add: sem_send_def c3_def c2_def c1_def lock_ref_def ctl_start_def ctl_busy_def)
  have load: "SessionStore_Get (rr_ConversationID ?r1) (ct_store ctl_busy) = Inr None" "?r1\<lparr>rr_Session := None\<rparr> = ?r1"
    by (simp_all add: SessionStore_Get_def ctl_busy_def ctl_request_def)
  note go = converse_rtranclp_into_rtranclp [of "any_step ''codex''", OF any_stepI]
  have steps:
    "controller_step ''codex'' Arrival (ctl_start, []) (ctl_start, [Arrived ?r1])"
    "controller_step ''codex'' Arrival (ctl_start, [Arrived ?r1]) (ctl_start, [Arrived ?r1, Arrived ?r2])"
    using arrive [of "''codex''" ctl_start "[]" ?r1] arrive [of "''codex''" ctl_start "[Arrived ?r1]" ?r2] by simp_all
  have enters:
    "controller_step ''codex'' (Progress 0) (ctl_start, [Arrived ?r1, Arrived ?r2]) (c1, [Waiting ?r1 0, Arrived ?r2])"
    "controller_step ''codex'' (Progress 1) (c1, [Waiting ?r1 0, Arrived ?r2]) (c2, [Waiting ?r1 0, Waiting ?r2 0])"
    using enter [of 0 "[Arrived ?r1, Arrived ?r2]", OF _ _ valid(1) refs(1)] enter [of 1 "[Waiting ?r1 0, Arrived ?r2]", OF _ _ valid(2) refs(2)]
    by simp_all
  have runs:
    "controller_step ''codex'' (Progress 0) (c2, [Waiting ?r1 0, Waiting ?r2 0]) (c3, [Woken ?r1 0, Waiting ?r2 0])"
    "controller_step ''codex'' (Progress 0) (c3, [Woken ?r1 0, Waiting ?r2 0]) (c3, [Queued ?r1 0, Waiting ?r2 0])"
    "controller_step ''codex'' (Progress 0) (c3, [Queued ?r1 0, Waiting ?r2 0]) (ctl_busy, [Loading ?r1 0, Waiting ?r2 0])"
    "controller_step ''codex'' (Progress 0) (ctl_busy, [Loading ?r1 0, Waiting ?r2 0]) (ctl_busy, [Running ?r1 0, Waiting ?r2 0])"
    using wake [of 0 "[Waiting ?r1 0, Waiting ?r2 0]", OF _ _ gate] queue [of 0 "[Woken ?r1 0, Waiting ?r2 0]" ?r1 0]
      admit [of 0 "[Queued ?r1 0, Waiting ?r2 0]", OF _ _ sem] start [of 0 "[Loading ?r1 0, Waiting ?r2 0]", OF _ _ load(1)] load(2)
    by simp_all
  show ?thesis
    by (rule go [OF steps(1)], rule go [OF steps(2)], rule go [OF enters(1)], rule go [OF enters(2)], rule go [OF runs(1)],
        rule go [OF runs(2)], rule go [OF runs(3)], rule go [OF runs(4)], rule rtranclp.rtrancl_refl)
qed

section \<open>Properties\<close>

text \<open>
  C19. Conversations run one execution at a time. However calls arrive, are cancelled and interleave, the
  calls of a conversation share the one lock the table has for it, whose gate is shut exactly while one of them
  holds it. Two calls that hold their gate at the same time, in whatever phase from the wakening to the
  release (waiting for a slot, loading, running, saving, leaving), belong to different conversations and
  hold different locks, so two calls that run the runtime do; at most
  \<open>maxConcurrent\<close> calls run it, and what a running call was given as its session is still what the
  store has for its conversation: no other call changes it meanwhile.
\<close>

theorem conversations_run_alone:
  assumes "NewController store maxConcurrent = Some c0" "(any_step adapterID)\<^sup>*\<^sup>* (c0, []) (c, xs)"
  shows "(\<forall>i conv a. i < length xs \<and> refers (xs ! i) = Some (conv, a) \<longrightarrow> ct_locks c conv = Some a \<and>
      (cl_gate (ct_heap c ! a) \<longleftrightarrow> (\<forall>x\<in>set xs. holds_gate x \<longrightarrow> map_option snd (refers x) \<noteq> Some a))) \<and>
    (\<forall>i j conv conv' a b. i < length xs \<and> j < length xs \<and> i \<noteq> j \<and> holds_gate (xs ! i) \<and> holds_gate (xs ! j) \<and>
      refers (xs ! i) = Some (conv, a) \<and> refers (xs ! j) = Some (conv', b) \<longrightarrow> conv \<noteq> conv' \<and> a \<noteq> b) \<and>
    (\<forall>i j req req' a b. i < length xs \<and> j < length xs \<and> i \<noteq> j \<and> xs ! i = Running req a \<and> xs ! j = Running req' b \<longrightarrow>
      rr_ConversationID req \<noteq> rr_ConversationID req') \<and>
    int (length (filter (\<lambda>x. \<exists>req a. x = Running req a) xs)) \<le> maxConcurrent \<and>
    (\<forall>req a. Running req a \<in> set xs \<longrightarrow> SessionStore_Get (rr_ConversationID req) (ct_store c) = Inr (rr_Session req))"
proof -
  have inv: "controller_inv (c, xs)" by (rule controller_steps_inv [OF assms(2) NewController_inv [OF assms(1)]])
  have "length (filter (\<lambda>x. \<exists>req a. x = Running req a) xs) \<le> length (filter holds_sem xs)"
    by (induction xs) auto
  also have "\<dots> \<le> ct_max c" using inv by (simp add: inv_parts sem_ok_def)
  finally have "int (length (filter (\<lambda>x. \<exists>req a. x = Running req a) xs)) \<le> maxConcurrent"
    using controller_steps_max [OF assms(2)] assms(1) by (auto simp: NewController_def split: if_splits)
  moreover have "conv \<noteq> conv' \<and> a \<noteq> b"
    if "i < length xs \<and> j < length xs \<and> i \<noteq> j \<and> holds_gate (xs ! i) \<and> holds_gate (xs ! j) \<and>
      refers (xs ! i) = Some (conv, a) \<and> refers (xs ! j) = Some (conv', b)" for i j conv conv' a b
    using other_lock [OF inv, of i j] that by blast
  moreover have "rr_ConversationID req \<noteq> rr_ConversationID req'"
    if "i < length xs \<and> j < length xs \<and> i \<noteq> j \<and> xs ! i = Running req a \<and> xs ! j = Running req' b" for i j req req' a b
    using other_lock [OF inv, of i j "rr_ConversationID req" a "rr_ConversationID req'" b] that by simp
  moreover have "ct_locks c conv = Some a \<and>
      (cl_gate (ct_heap c ! a) \<longleftrightarrow> (\<forall>x\<in>set xs. holds_gate x \<longrightarrow> map_option snd (refers x) \<noteq> Some a))"
    if "i < length xs \<and> refers (xs ! i) = Some (conv, a)" for i conv a
    using same_lock(1) [OF inv] gate_shut [OF inv] that by blast
  moreover have "SessionStore_Get (rr_ConversationID req) (ct_store c) = Inr (rr_Session req)" if "Running req a \<in> set xs" for req a
    using inv that by (fastforce simp: inv_parts sessions_ok_def in_set_conv_nth)
  ultimately show ?thesis by (intro conjI allI impI) blast+
qed

theorem conversations_run_alone_witness:
  "(any_step ''codex'')\<^sup>*\<^sup>* (ctl_start, []) (ctl_busy, [Running (ctl_request ''r1'') 0, Waiting (ctl_request ''r2'') 0]) \<and>
   SessionStore_Get ''c1'' (ct_store ctl_busy) = Inr None"
  using conversations_run_alone [OF ctl_new ctl_reached] ctl_reached by (auto simp: ctl_request_def)

text \<open>
  C20. Calls end and leave nothing behind. From any state that can be reached, the calls that are there
  take at most ten steps each; a call that has not returned can always be brought forward by a step of
  one of them that is no cancellation, so there is no deadlock; and when none of them can take a step
  all have returned, the lock table is empty and the semaphore is free.
\<close>

theorem calls_end_cleanly:
  assumes "NewController store maxConcurrent = Some c0" "(any_step adapterID)\<^sup>*\<^sup>* (c0, []) s" "(own_step adapterID ^^ n) s (c, xs)"
  shows "n \<le> 10 * length (snd s) \<and>
    ((\<exists>x\<in>set xs. \<forall>out. x \<noteq> Finished out) \<longrightarrow> (\<exists>k s'. controller_step adapterID (Progress k) (c, xs) s')) \<and>
    ((\<nexists>s'. own_step adapterID (c, xs) s') \<longrightarrow> (\<forall>x\<in>set xs. \<exists>out. x = Finished out) \<and> ct_locks c = Map.empty \<and> ct_sem c = 0)"
proof -
  have "(any_step adapterID)\<^sup>*\<^sup>* s (c, xs)" by (rule own_steps_any [OF assms(3)])
  with assms(2) have inv: "controller_inv (c, xs)" using controller_steps_inv NewController_inv [OF assms(1)] by (meson rtranclp_trans)
  have bound: "n \<le> 10 * length (snd s)" using own_steps_work [OF assms(3)] work_le [of "fst s" "snd s"] by simp
  have progress: "\<exists>k s'. controller_step adapterID (Progress k) (c, xs) s'" if "x \<in> set xs" "\<forall>out. x \<noteq> Finished out" for x
    using call_progress [OF inv] that by (metis in_set_conv_nth)
  have "(\<forall>x\<in>set xs. \<exists>out. x = Finished out) \<and> ct_locks c = Map.empty \<and> ct_sem c = 0" if stuck: "\<nexists>s'. own_step adapterID (c, xs) s'"
  proof -
    have fin: "\<forall>x\<in>set xs. \<exists>out. x = Finished out"
      using progress stuck unfolding own_step_def by (metis event.distinct(3))
    with all_finished [OF inv fin] show ?thesis by blast
  qed
  with bound progress show ?thesis by blast
qed

theorem calls_end_cleanly_witness:
  "\<exists>k s'. controller_step ''codex'' (Progress k) (ctl_busy, [Running (ctl_request ''r1'') 0, Waiting (ctl_request ''r2'') 0]) s'"
proof -
  have "(own_step ''codex'' ^^ 0) (ctl_busy, [Running (ctl_request ''r1'') 0, Waiting (ctl_request ''r2'') 0])
      (ctl_busy, [Running (ctl_request ''r1'') 0, Waiting (ctl_request ''r2'') 0])" by simp
  from calls_end_cleanly [OF ctl_new ctl_reached this] show ?thesis by auto
qed

end
