(* ===== verification/Relay_Server.thy ===== *)
theory Relay_Server
  imports Admin_Theorems Handler_Theorems
begin

text \<open>
  The administrative HTTP server of the relay (\<open>internal/server/server.go\<close>), one definition per
  handler, over the stores of \<open>Admin_Store\<close> and \<open>Collab_Store\<close> and the hub.

  A request carries what the handlers read of it: the values of the \<open>Authorization\<close> header, the content
  type, what the JSON decoder finds in the body, the path value and the query. Replies are those of
  \<open>Collab_Handler\<close>. \<open>env\<close> is what the other clients do before each read of \<open>Authenticate\<close>; a handler that
  gives up earlier leaves the state in which these reads would have ended. \<open>mime.ParseMediaType\<close> is an
  argument, \<open>None\<close> when it fails.
\<close>

section \<open>Requests and errors\<close>

record 'b server_request =
  hq_Authorization :: "string list"
  hq_ContentType :: string
  hq_Body :: "'b json_body"
  hq_ID :: string
  hq_limit :: string
  hq_member_id :: string

record serverlib = adminlib +
  ParseMediaType :: "string \<Rightarrow> string option"

fun server_writeStoreError :: "admin_error \<Rightarrow> http_error" where
  "server_writeStoreError AdmUnauthorized = HTTPError 401 ''unauthorized''"
| "server_writeStoreError AdmForbidden = HTTPError 403 ''forbidden''"
| "server_writeStoreError AdmNotFound = HTTPError 404 ''not_found''"
| "server_writeStoreError AdmInviteExpired = HTTPError 410 ''invite_expired''"
| "server_writeStoreError AdmInviteUsed = HTTPError 409 ''invite_used''"
| "server_writeStoreError AdmInviteRevoked = HTTPError 409 ''invite_revoked''"
| "server_writeStoreError AdmAlreadyBootstrapped = HTTPError 409 ''already_bootstrapped''"
| "server_writeStoreError AdmNotBootstrapped = HTTPError 503 ''not_bootstrapped''"
| "server_writeStoreError AdmConflict = HTTPError 409 ''conflict''"
| "server_writeStoreError AdmInvalid = HTTPError 400 ''invalid_request''"
| "server_writeStoreError _ = HTTPError 500 ''internal_error''"

definition internalError :: http_error where
  "internalError = HTTPError 500 ''internal_error''"

definition knownStoreError :: "admin_error \<Rightarrow> bool" where
  "knownStoreError e \<longleftrightarrow>
     e = AdmAlreadyBootstrapped \<or> e = AdmNotBootstrapped \<or> e = AdmUnauthorized \<or> e = AdmForbidden \<or> e = AdmNotFound \<or>
     e = AdmConflict \<or> e = AdmInviteExpired \<or> e = AdmInviteUsed \<or> e = AdmInviteRevoked \<or> e = AdmInvalid"

definition handleStoreError :: "admin_error \<Rightarrow> http_error" where
  "handleStoreError e = (if knownStoreError e then server_writeStoreError e else internalError)"

section \<open>Credentials of a request\<close>

text \<open>
  \<open>strings.Fields\<close>: the runs of runes that are not white space. \<open>cur\<close> is the run being read, in
  reverse.
\<close>

function fields_from :: "nat list \<Rightarrow> nat list \<Rightarrow> nat list list" where
  "fields_from cur [] = (if cur = [] then [] else [rev cur])"
| "fields_from cur (b # bs) =
     (case DecodeRune (b # bs) of
        (r, w) \<Rightarrow>
          if IsSpace r then (if cur = [] then [] else [rev cur]) @ fields_from [] (drop (w - 1) bs)
          else fields_from (rev (take w (b # bs)) @ cur) (drop (w - 1) bs))"
  by pat_completeness auto
termination
  by (relation "measure (\<lambda>(cur, bs). length bs)") auto

definition Fields :: "string \<Rightarrow> string list" where
  "Fields s = map of_bytes (fields_from [] (bytes s))"

definition bearerToken :: "('l) golib_scheme \<Rightarrow> 'b server_request \<Rightarrow> (admin_error, string) result" where
  "bearerToken L r =
     (case hq_Authorization r of
        [value] \<Rightarrow>
          (case Fields value of
             [scheme, token] \<Rightarrow>
               if \<not> EqualFold L scheme ''Bearer'' \<or> length token > 256 then Inl AdmUnauthorized else Inr token
           | _ \<Rightarrow> Inl AdmUnauthorized)
      | _ \<Rightarrow> Inl AdmUnauthorized)"

definition AuthenticateRequest :: "('l) golib_scheme \<Rightarrow> (nat \<Rightarrow> admin_db) \<Rightarrow> 'b server_request \<Rightarrow> (admin_error, Principal) result" where
  "AuthenticateRequest L s r =
     (case bearerToken L r of Inl _ \<Rightarrow> Inl AdmUnauthorized | Inr token \<Rightarrow> Authenticate L token (s 0) (s 1) (s 2))"

definition server_requireAdmin :: "('l) golib_scheme \<Rightarrow> (nat \<Rightarrow> admin_db) \<Rightarrow> 'b server_request \<Rightarrow> (http_error, Principal) result" where
  "server_requireAdmin L s r =
     (case AuthenticateRequest L s r of
        Inl e \<Rightarrow> Inl (handleStoreError e)
      | Inr p \<Rightarrow> if \<not> IsAdmin p then Inl (server_writeStoreError AdmForbidden) else Inr p)"

definition server_decodeJSON :: "('l) serverlib_scheme \<Rightarrow> 'b server_request \<Rightarrow> (http_error, 'b) result" where
  "server_decodeJSON L r =
     (if hq_ContentType r \<noteq> [] \<and> ParseMediaType L (hq_ContentType r) \<noteq> Some ''application/json''
      then Inl (HTTPError 400 ''invalid_request'')
      else case hq_Body r of
        BadJSON \<Rightarrow> Inl (HTTPError 400 ''invalid_request'')
      | TrailingJSON _ \<Rightarrow> Inl (HTTPError 400 ''invalid_request'')
      | OneJSON v \<Rightarrow> Inr v)"

definition validIdempotencyKey :: "string \<Rightarrow> string \<Rightarrow> bool" where
  "validIdempotencyKey value prefix =
     (let v = TrimSpace value in
      \<not> (\<not> HasPrefix v prefix \<or> length v \<noteq> length prefix + 64) \<and> hex_ok (drop (length prefix) v))"

definition validEnrollmentIdempotencyKey :: "string \<Rightarrow> bool" where
  "validEnrollmentIdempotencyKey value = validIdempotencyKey value ''tr_enroll_''"

section \<open>The handler and its simple routes\<close>

text \<open>What \<open>NewHandler\<close> keeps of its configuration; \<open>hn_evicter\<close> is whether an evicter is set.\<close>

record server_handler =
  hn_bootstrapTokenHash :: string
  hn_bootstrapConfigured :: bool
  hn_evicter :: bool

definition NewHandler :: "('l) golib_scheme \<Rightarrow> string \<Rightarrow> bool \<Rightarrow> server_handler" where
  "NewHandler L configToken evicter =
     (let bootstrapToken = TrimSpace configToken;
          h = \<lparr>hn_bootstrapTokenHash = replicate 32 (CHR 0x00), hn_bootstrapConfigured = False, hn_evicter = evicter\<rparr> in
      if bootstrapToken \<noteq> [] then h\<lparr>hn_bootstrapTokenHash := sha256_sum L bootstrapToken, hn_bootstrapConfigured := True\<rparr> else h)"

definition validBootstrapToken :: "('l) golib_scheme \<Rightarrow> server_handler \<Rightarrow> string \<Rightarrow> bool" where
  "validBootstrapToken L sh rawToken \<longleftrightarrow>
     Kind token_kinds rawToken = Inr TokenBootstrap \<and> sha256_sum L (TrimSpace rawToken) = hn_bootstrapTokenHash sh"

definition live :: "unit http_reply" where
  "live = Success False 200 ()"

definition ready :: "admin_db \<Rightarrow> unit http_reply" where
  "ready d = (if \<not> db_up d then Failure (HTTPError 503 ''not_ready'') else Success False 200 ())"

text \<open>The one field of the answer that is not constant.\<close>

definition serverInfo :: "admin_db \<Rightarrow> bool http_reply" where
  "serverInfo d = (case IsBootstrapped d of Inl e \<Rightarrow> Failure internalError | Inr initialized \<Rightarrow> Success False 200 initialized)"

definition me :: "('l) golib_scheme \<Rightarrow> view_env \<Rightarrow> 'b server_request \<Rightarrow> admin_db \<Rightarrow> Principal http_reply" where
  "me L env r db =
     (case AuthenticateRequest L (after env db) r of Inl e \<Rightarrow> Failure (handleStoreError e) | Inr p \<Rightarrow> Success False 200 p)"

text \<open>The last lines of most handlers.\<close>

definition reply_with :: "bool \<Rightarrow> nat \<Rightarrow> (admin_error, 'a) result \<Rightarrow> 'a http_reply" where
  "reply_with no_store code x = (case x of Inl e \<Rightarrow> Failure (handleStoreError e) | Inr v \<Rightarrow> Success no_store code v)"

section \<open>Bootstrap and enrolment\<close>

record bootstrap_request =
  bq_OrganizationName :: string
  bq_AdminDisplayName :: string
  bq_AdminEmail :: string
  bq_AdminTokenHash :: string
  bq_IdempotencyKey :: string

definition bootstrap_handler ::
  "('l) serverlib_scheme \<Rightarrow> server_handler \<Rightarrow> (nat \<Rightarrow> string) \<Rightarrow> time \<Rightarrow> time \<Rightarrow> view_env \<Rightarrow> (nat \<Rightarrow> admin_db attempt) \<Rightarrow>
   bootstrap_request server_request \<Rightarrow> admin_db \<Rightarrow> admin_db \<times> BootstrapResult http_reply" where
  "bootstrap_handler L sh rnd now wall see atts r db =
     (if \<not> hn_bootstrapConfigured sh then (db, Failure (HTTPError 503 ''bootstrap_not_configured''))
      else case bearerToken L r of Inl _ \<Rightarrow> (db, Failure (server_writeStoreError AdmUnauthorized)) | Inr rawToken \<Rightarrow>
      if \<not> validBootstrapToken L sh rawToken then (db, Failure (server_writeStoreError AdmUnauthorized))
      else case server_decodeJSON L r of Inl e \<Rightarrow> (db, Failure e) | Inr request \<Rightarrow>
      if \<not> validIdempotencyKey (bq_IdempotencyKey request) ''tr_bootstrap_'' then (db, Failure (server_writeStoreError AdmInvalid))
      else apsnd (reply_with True 201)
        (Bootstrap L rnd wall see atts
           \<lparr>bi_OrganizationName = bq_OrganizationName request, bi_AdminDisplayName = bq_AdminDisplayName request,
            bi_AdminEmail = bq_AdminEmail request, bi_AdminTokenHash = bq_AdminTokenHash request,
            bi_IdempotencyHash = Hash L (bq_IdempotencyKey request), bi_Now = now\<rparr> db))"

record enroll_request =
  eq_DisplayName :: string
  eq_DeviceName :: string
  eq_Runtime :: string
  eq_PermissionProfile :: string
  eq_DeviceTokenHash :: string
  eq_IdempotencyKey :: string

definition enroll_handler ::
  "('l) serverlib_scheme \<Rightarrow> (nat \<Rightarrow> string) \<Rightarrow> time \<Rightarrow> time \<Rightarrow> view_env \<Rightarrow> view_env \<Rightarrow> (nat \<Rightarrow> admin_db attempt) \<Rightarrow> view_env \<Rightarrow>
   enroll_request server_request \<Rightarrow> admin_db \<Rightarrow> admin_db \<times> EnrollResult http_reply" where
  "enroll_handler L rnd now wall env see atts post r db =
     (case bearerToken L r of Inl _ \<Rightarrow> (db, Failure (server_writeStoreError AdmUnauthorized)) | Inr inviteToken \<Rightarrow>
      case server_decodeJSON L r of Inl e \<Rightarrow> (db, Failure e) | Inr request \<Rightarrow>
      if \<not> validEnrollmentIdempotencyKey (eq_IdempotencyKey request) then (db, Failure (server_writeStoreError AdmInvalid))
      else apsnd (reply_with True 201)
        (Enroll L rnd wall env see atts post inviteToken
           \<lparr>ei_DisplayName = eq_DisplayName request, ei_DeviceName = eq_DeviceName request, ei_Runtime = eq_Runtime request,
            ei_PermissionProfile = eq_PermissionProfile request, ei_DeviceTokenHash = eq_DeviceTokenHash request,
            ei_IdempotencyKeyHash = Hash L (eq_IdempotencyKey request), ei_Now = now\<rparr> db))"

section \<open>Administration\<close>

text \<open>
  \<open>with_admin\<close> is how every administrative handler begins; \<open>k\<close> is the rest of it, which starts in the
  state the last read of \<open>Authenticate\<close> saw.
\<close>

definition with_admin ::
  "('l) golib_scheme \<Rightarrow> view_env \<Rightarrow> 'b server_request \<Rightarrow> admin_db \<Rightarrow> (Principal \<Rightarrow> admin_db \<Rightarrow> admin_db \<times> 'a http_reply) \<Rightarrow>
   admin_db \<times> 'a http_reply" where
  "with_admin L env r db k =
     (let s = after env db in case server_requireAdmin L s r of Inl e \<Rightarrow> (s 2, Failure e) | Inr p \<Rightarrow> k p (s 2))"

text \<open>The body of a rotation: the hash of the new token and the idempotency key.\<close>

definition rotateAdminCredential ::
  "('l) serverlib_scheme \<Rightarrow> (nat \<Rightarrow> string) \<Rightarrow> time \<Rightarrow> time \<Rightarrow> view_env \<Rightarrow> (admin_db \<Rightarrow> admin_db) \<Rightarrow> (nat \<Rightarrow> admin_db attempt) \<Rightarrow>
   (string \<times> string) server_request \<Rightarrow> admin_db \<Rightarrow> admin_db \<times> RotateAdminCredentialResult http_reply" where
  "rotateAdminCredential L rnd now wall env senv atts r db =
     with_admin L env r db (\<lambda>p d.
       case server_decodeJSON L r of Inl e \<Rightarrow> (d, Failure e) | Inr (newTokenHash, key) \<Rightarrow>
       if \<not> validIdempotencyKey key ''tr_rotate_'' then (d, Failure (server_writeStoreError AdmInvalid))
       else apsnd (reply_with True 201)
         (RotateAdminCredential L rnd wall senv atts p
            \<lparr>ro_NewTokenHash = newTokenHash, ro_IdempotencyHash = Hash L key, ro_Now = now\<rparr> d))"

record invite_request =
  iq_DisplayName :: string
  iq_Email :: string
  iq_MemberID :: string
  iq_ExpiresInSeconds :: int

definition invite_seconds :: "invite_request \<Rightarrow> (http_error, int) result" where
  "invite_seconds request =
     (let seconds = (if iq_ExpiresInSeconds request = 0 then 24 * 3600 else iq_ExpiresInSeconds request) in
      if seconds < 60 \<or> seconds > 30 * 24 * 3600 then Inl (HTTPError 400 ''invalid_request'') else Inr seconds)"

text \<open>The answer is the invitation and its token, the only place where the token appears.\<close>

definition createInvite ::
  "('l) serverlib_scheme \<Rightarrow> string option \<Rightarrow> (nat \<Rightarrow> string) \<Rightarrow> time \<Rightarrow> time \<Rightarrow> view_env \<Rightarrow> view_env \<Rightarrow> bool \<Rightarrow>
   invite_request server_request \<Rightarrow> admin_db \<Rightarrow> admin_db \<times> (Invite \<times> string) http_reply" where
  "createInvite L random rnd now wall env senv reply r db =
     with_admin L env r db (\<lambda>p d.
       case server_decodeJSON L r of Inl e \<Rightarrow> (d, Failure e) | Inr request \<Rightarrow>
       case invite_seconds request of Inl e \<Rightarrow> (d, Failure e) | Inr seconds \<Rightarrow>
       case NewToken random TokenInvite of Inl _ \<Rightarrow> (d, Failure internalError) | Inr inviteToken \<Rightarrow>
       apsnd (\<lambda>x. reply_with True 201 (map_sum id (\<lambda>invite. (invite, inviteToken)) x))
         (CreateInvite L rnd wall senv reply p
            \<lparr>ci_DisplayName = iq_DisplayName request, ci_Email = iq_Email request, ci_ExistingMemberID = iq_MemberID request,
             ci_ExpiresAt = now + seconds * 1000000000, ci_InviteTokenHash = Hash L inviteToken, ci_Now = now\<rparr> d))"

definition listInvites ::
  "('l) golib_scheme \<Rightarrow> time \<Rightarrow> view_env \<Rightarrow> view_env \<Rightarrow> unit server_request \<Rightarrow> admin_db \<Rightarrow> admin_db \<times> Invite list http_reply" where
  "listInvites L clock env senv r db =
     with_admin L env r db (\<lambda>p d. (d, reply_with False 200 (ListInvites clock senv p d)))"

definition revokeInvite ::
  "('l) golib_scheme \<Rightarrow> (nat \<Rightarrow> string) \<Rightarrow> view_env \<Rightarrow> (admin_db \<Rightarrow> admin_db) \<Rightarrow> (nat \<Rightarrow> admin_db attempt) \<Rightarrow>
   unit server_request \<Rightarrow> admin_db \<Rightarrow> admin_db \<times> unit http_reply" where
  "revokeInvite L rnd env senv atts r db =
     with_admin L env r db (\<lambda>p d. apsnd (reply_with False 204) (RevokeInvite rnd senv atts p (hq_ID r) d))"

definition listMembers ::
  "('l) golib_scheme \<Rightarrow> view_env \<Rightarrow> view_env \<Rightarrow> unit server_request \<Rightarrow> admin_db \<Rightarrow> admin_db \<times> Member list http_reply" where
  "listMembers L env senv r db =
     with_admin L env r db (\<lambda>p d. (d, reply_with False 200 (ListMembers senv p d)))"

definition listDevices ::
  "('l) golib_scheme \<Rightarrow> view_env \<Rightarrow> view_env \<Rightarrow> unit server_request \<Rightarrow> admin_db \<Rightarrow> admin_db \<times> Device list http_reply" where
  "listDevices L env senv r db =
     with_admin L env r db (\<lambda>p d. (d, reply_with False 200 (ListDevices senv p (hq_member_id r) d)))"

definition audit_limit :: "string \<Rightarrow> (http_error, int) result" where
  "audit_limit raw =
     (if raw = [] then Inr 100
      else case Atoi raw of
        None \<Rightarrow> Inl (HTTPError 400 ''invalid_request'')
      | Some parsed \<Rightarrow> if parsed < 1 \<or> parsed > 500 then Inl (HTTPError 400 ''invalid_request'') else Inr parsed)"

definition listAudit ::
  "('l) golib_scheme \<Rightarrow> view_env \<Rightarrow> view_env \<Rightarrow> unit server_request \<Rightarrow> admin_db \<Rightarrow> admin_db \<times> AuditEvent list http_reply" where
  "listAudit L env senv r db =
     with_admin L env r db (\<lambda>p d.
       case audit_limit (hq_limit r) of Inl e \<Rightarrow> (d, Failure e) | Inr limit \<Rightarrow>
       (d, reply_with False 200 (ListAuditEvents senv p limit d)))"

section \<open>Revocation\<close>

text \<open>
  The method \<open>evictRevokedAgents\<close>: nothing without an evicter or without agents. The evicter works on
  the part of the database the collaboration store knows. A panic of the hub has no result.
\<close>

definition evictRevokedAgents ::
  "server_handler \<Rightarrow> bool \<Rightarrow> RevocationResult \<Rightarrow> admin_db \<Rightarrow> Hub \<Rightarrow> (Hub \<times> admin_db \<times> (relay_error, unit) result) option" where
  "evictRevokedAgents sh reply result d h =
     (if \<not> hn_evicter sh \<or> rv_AgentIDs result = [] then Some (h, d, Inr ())
      else map_option (\<lambda>(h', r, res). (h', relay_db.extend r (relay_db.more d), res))
             (EvictRevokedAgents reply (rv_OrganizationID result) (rv_AgentIDs result) h (relay_db.truncate d)))"

text \<open>
  What both handlers do with the answer of the store. Between the commit and the eviction, \<open>denv\<close> and
  \<open>henv\<close> are what the others do to the database and to the hub.
\<close>

definition finish_revocation ::
  "server_handler \<Rightarrow> bool \<Rightarrow> (admin_db \<Rightarrow> admin_db) \<Rightarrow> (Hub \<Rightarrow> Hub) \<Rightarrow> Hub \<Rightarrow> RevocationResult admin_reply \<Rightarrow>
   (admin_db \<times> Hub \<times> unit http_reply) option" where
  "finish_revocation sh reply denv henv h x =
     (case x of
        (d, Inl e) \<Rightarrow> Some (d, h, Failure (handleStoreError e))
      | (d, Inr result) \<Rightarrow>
         map_option (\<lambda>(h', d', res). (d', h', case res of Inl _ \<Rightarrow> Failure internalError | Inr _ \<Rightarrow> Success False 204 ()))
           (evictRevokedAgents sh reply result (denv d) (henv h)))"

definition revokeMember ::
  "('l) golib_scheme \<Rightarrow> server_handler \<Rightarrow> (nat \<Rightarrow> string) \<Rightarrow> view_env \<Rightarrow> (admin_db \<Rightarrow> admin_db) \<Rightarrow> view_env \<Rightarrow> (nat \<Rightarrow> admin_db attempt) \<Rightarrow>
   (admin_db \<Rightarrow> admin_db) \<Rightarrow> (Hub \<Rightarrow> Hub) \<Rightarrow> bool \<Rightarrow> unit server_request \<Rightarrow> admin_db \<Rightarrow> Hub \<Rightarrow> (admin_db \<times> Hub \<times> unit http_reply) option" where
  "revokeMember L sh rnd env senv see atts denv henv reply r db h =
     (let s = after env db in
      case server_requireAdmin L s r of Inl e \<Rightarrow> Some (s 2, h, Failure e) | Inr p \<Rightarrow>
      finish_revocation sh reply denv henv h (RevokeMember rnd senv see atts p (hq_ID r) (s 2)))"

definition revokeDevice ::
  "('l) golib_scheme \<Rightarrow> server_handler \<Rightarrow> (nat \<Rightarrow> string) \<Rightarrow> view_env \<Rightarrow> (admin_db \<Rightarrow> admin_db) \<Rightarrow> (nat \<Rightarrow> admin_db attempt) \<Rightarrow>
   (admin_db \<Rightarrow> admin_db) \<Rightarrow> (Hub \<Rightarrow> Hub) \<Rightarrow> bool \<Rightarrow> unit server_request \<Rightarrow> admin_db \<Rightarrow> Hub \<Rightarrow> (admin_db \<times> Hub \<times> unit http_reply) option" where
  "revokeDevice L sh rnd env senv atts denv henv reply r db h =
     (let s = after env db in
      case server_requireAdmin L s r of Inl e \<Rightarrow> Some (s 2, h, Failure e) | Inr p \<Rightarrow>
      finish_revocation sh reply denv henv h (RevokeDevice rnd senv atts p (hq_ID r) (s 2)))"

end
