(* ===== verification/Relay_Server_Theorems.thy ===== *)
theory Relay_Server_Theorems
  imports Relay_Server
begin

text \<open>
  What the administrative server promises: no administration without an administrator, no bootstrap
  without the configured token, and revocations that are complete when the reply leaves.
\<close>

section \<open>The eviction as steps\<close>

lemma extend_truncate [simp]: "relay_db.extend (relay_db.truncate d) (relay_db.more d) = d"
  by (simp add: relay_db.defs)

lemma lift_relay_steps:
  "relay_steps (relay_db.truncate d) r \<Longrightarrow> admin_steps d (relay_db.extend r (relay_db.more d))"
proof (induction rule: rtranclp_induct)
  case base
  show ?case by simp
next
  case (step y z)
  have "admin_step (relay_db.extend y (relay_db.more d)) (relay_db.extend z (relay_db.more (relay_db.extend y (relay_db.more d))))"
    by (rule adm_relay) (simp add: step.hyps(2))
  moreover have "relay_db.more (relay_db.extend y (relay_db.more d)) = relay_db.more d" by (simp add: relay_db.defs)
  ultimately show ?case using step.IH by simp
qed

lemma evict_one_steps: "relay_steps d (evict_one org a d)"
proof -
  have "relay_step d (revoke_one org a d)"
    "relay_step (revoke_one org a d) (drop_from_set (agentsKey org) a (revoke_one org a d))"
    "relay_step (drop_from_set (agentsKey org) a (revoke_one org a d)) (evict_one org a d)"
    unfolding evict_one_def by (rule step_revoke step_drop_present step_drop_agent)+
  then show ?thesis by (meson converse_rtranclp_into_rtranclp rtranclp.rtrancl_refl)
qed

lemma evict_steps: "relay_steps d (fold (evict_one org) ids d)"
proof (induction ids arbitrary: d)
  case (Cons a ids)
  show ?case using evict_one_steps [of d org a] Cons.IH [of "evict_one org a d"] by (auto intro: rtranclp_trans)
qed simp

lemma revoke_all_steps: "revoke_all org ids h = Some h' \<Longrightarrow> hub_next_state\<^sup>*\<^sup>* h h'"
proof (induction ids arbitrary: h)
  case (Cons a ids)
  then obtain h1 where h1: "Hub_Revoke org a h = Some h1" "revoke_all org ids h1 = Some h'" by (auto split: option.splits)
  have "hub_next_state h h1" unfolding hub_next_state_def using hub_revoke [of h org a] h1(1) by simp
  then show ?case using Cons.IH [OF h1(2)] by (rule converse_rtranclp_into_rtranclp)
qed simp

text \<open>What the eviction of a revocation does, from a hub in any reachable state.\<close>

lemma evicted:
  assumes "hub_ok h"
  shows "\<exists>h' d' res. evictRevokedAgents sh reply result d h = Some (h', d', res) \<and> admin_steps d d' \<and> hub_next_state\<^sup>*\<^sup>* h h' \<and>
    (hn_evicter sh \<and> TrimSpace (rv_OrganizationID result) \<noteq> [] \<longrightarrow>
       (\<forall>a\<in>set (cleanAgentIDs (rv_AgentIDs result)). IsRevoked (rv_OrganizationID result) a h')) \<and>
    (reply \<and> db_up d \<longrightarrow> res = Inr ())"
proof (cases "\<not> hn_evicter sh \<or> rv_AgentIDs result = []")
  case True
  then show ?thesis by (auto simp: evictRevokedAgents_def cleanAgentIDs_def)
next
  case False
  let ?org = "rv_OrganizationID result" let ?ids = "cleanAgentIDs (rv_AgentIDs result)"
  from hub_ok_revoke_all [OF assms, of ?org ?ids] obtain h' where
    h': "revoke_all ?org ?ids h = Some h'" "\<forall>a\<in>set ?ids. IsRevoked ?org a h'" by blast
  show ?thesis
  proof (cases "TrimSpace ?org = [] \<or> ?ids = []")
    case True
    then show ?thesis using False
      by (auto simp: evictRevokedAgents_def EvictRevokedAgents_def Let_def)
  next
    case nonempty: False
    obtain r res where r: "evictPresence reply ?org ?ids (relay_db.truncate d) = (r, res)" by fastforce
    then have "relay_steps (relay_db.truncate d) r" using evict_steps [of "relay_db.truncate d" ?org ?ids]
      by (auto simp: evictPresence_def split: if_splits)
    then show ?thesis using False nonempty h' r revoke_all_steps [OF h'(1)]
      by (auto simp: evictRevokedAgents_def EvictRevokedAgents_def evictPresence_def Let_def intro: lift_relay_steps)
  qed
qed

lemma finish_revocation_some:
  assumes "hub_ok (henv h)"
  shows "\<exists>y. finish_revocation sh reply denv henv h x = Some y"
proof (cases "snd x")
  case (Inl e)
  then show ?thesis by (cases x) (auto simp: finish_revocation_def)
next
  case (Inr result)
  then show ?thesis using evicted [OF assms, of sh reply result "denv (fst x)"] by (cases x) (auto simp: finish_revocation_def)
qed

lemma finish_revocation_204:
  assumes "hub_ok (henv h)" "db_up (denv d)"
  shows "\<exists>d' h'. finish_revocation sh True denv henv h (d, Inr result) = Some (d', h', Success False 204 ())"
  using evicted [OF assms(1), of sh True result "denv d"] assms(2) by (auto simp: finish_revocation_def)

lemma finish_revocation_done:
  assumes "finish_revocation sh reply denv henv h x = Some (d', h', Success b code v)" "hub_ok h" "hub_next_state\<^sup>*\<^sup>* h (henv h)" "obeys denv"
  obtains d result where "x = (d, Inr result)" "code = 204" "admin_steps d d'" "hub_next_state\<^sup>*\<^sup>* h h'"
    "hn_evicter sh \<and> TrimSpace (rv_OrganizationID result) \<noteq> [] \<longrightarrow>
       (\<forall>a\<in>set (cleanAgentIDs (rv_AgentIDs result)). IsRevoked (rv_OrganizationID result) a h')"
proof -
  obtain d result where x: "x = (d, Inr result)" using assms(1) by (cases x; cases "snd x") (auto simp: finish_revocation_def)
  have "hub_ok (henv h)" using hub_steps_revoked [OF assms(3,2)] by blast
  from evicted [OF this, of sh reply result "denv d"] obtain h1 d1 res where
    e: "evictRevokedAgents sh reply result (denv d) (henv h) = Some (h1, d1, res)"
    "admin_steps (denv d) d1" "hub_next_state\<^sup>*\<^sup>* (henv h) h1"
    "hn_evicter sh \<and> TrimSpace (rv_OrganizationID result) \<noteq> [] \<longrightarrow>
       (\<forall>a\<in>set (cleanAgentIDs (rv_AgentIDs result)). IsRevoked (rv_OrganizationID result) a h1)" by blast
  then have eq: "d1 = d'" "h1 = h'" "code = 204"
    using assms(1) unfolding x by (auto simp: finish_revocation_def split: sum.splits)
  have "admin_steps d d'" "hub_next_state\<^sup>*\<^sup>* h h'"
    using e(2,3) environmentD(1) [OF assms(4), of d] assms(3) eq by (auto intro: rtranclp_trans)
  with that [OF x eq(3)] e(4) eq show thesis by blast
qed

section \<open>What a 204 means\<close>

text \<open>An identifier of the store has no white space around it.\<close>

lemma validID_trim:
  assumes "validID v (c # p)" "(of_char c :: nat) < 128" "\<not> IsSpace (of_char c)"
  shows "TrimSpace v = v"
proof -
  obtain t where v: "v = c # p @ t" "length t = 32" "hex_ok t"
    using assms(1) by (auto simp: validID_def HasPrefix_iff)
  have "is_hex_digit (last v)" using v by (cases t rule: rev_cases) (auto simp: hex_ok_def)
  then show ?thesis using assms(2,3) v(1) hex_digit_not_space by (intro TrimSpace_id) auto
qed

lemma organization_not_blank: "validID v ''org_'' \<Longrightarrow> TrimSpace v \<noteq> []"
  using validID_trim [of v "CHR ''o''"] by (auto simp: IsSpace_def dest: validID_nonempty)


text \<open>
  What the agents of a revocation lose for good: the hub refuses them, and what they asked for and was
  not accepted when the reply left is never accepted. (What was accepted before may still run.) \<open>d\<close> is
  the state in which the reply left, \<open>e\<close> and \<open>k\<close> later ones of the database and the hub.
\<close>

definition agent_cut_off :: "string \<Rightarrow> admin_db \<Rightarrow> admin_db \<Rightarrow> Hub \<Rightarrow> string \<Rightarrow> bool" where
  "agent_cut_off org d e k a \<longleftrightarrow>
     IsRevoked org (TrimSpace a) k \<and> hub_subscribers k (hub_key org (TrimSpace a)) = [] \<and> revoked_in (relay_db.truncate e) org a \<and>
     (\<forall>j s s'. readStoredRequest (relay_db.truncate d) org j = Inr s \<and> not_accepted (status s) \<and> rq_RequesterAgentID (sr_Request s) = a \<and>
        readStoredRequest (relay_db.truncate e) org j = Inr s' \<longrightarrow> not_accepted (status s'))"

lemma agents_cut_off:
  assumes "reachable (relay_db.truncate d1)" "revoked_in (relay_db.truncate d1) org a" "admin_steps d1 d" "admin_steps d e"
    and "hub_ok h" "hub_next_state\<^sup>*\<^sup>* h k" "IsRevoked org (TrimSpace a) h"
  shows "agent_cut_off org d e k a"
proof -
  have k: "hub_ok k" "IsRevoked org (TrimSpace a) k" using hub_steps_revoked [OF assms(6,5)] assms(7) by (auto simp: IsRevoked_def)
  have d: "relay_steps (relay_db.truncate d1) (relay_db.truncate d)" "relay_steps (relay_db.truncate d) (relay_db.truncate e)"
    using admin_steps_relay assms(3,4) by blast+
  have r: "reachable (relay_db.truncate d)" "revoked_in (relay_db.truncate d) org a"
    using reachable_steps [OF assms(1) d(1)] relay_steps_revoked [OF d(1) assms(1,2)] by blast+
  then show ?thesis
    using k d(2) revoked_not_accepted relay_steps_revoked [OF d(2) r] by (auto simp: agent_cut_off_def hub_ok_def IsRevoked_def)
qed

lemma clean_agent: "a \<in> set agents \<Longrightarrow> TrimSpace a \<noteq> [] \<Longrightarrow> TrimSpace a \<in> set (cleanAgentIDs agents)"
  by (auto simp: cleanAgentIDs_def)

lemma server_requireAdmin_ok:
  "server_requireAdmin L s r = Inr p \<Longrightarrow> AuthenticateRequest L s r = Inr p \<and> IsAdmin p"
  by (auto simp: server_requireAdmin_def split: sum.splits if_splits)

text \<open>A request that is authenticated carries a token that is.\<close>

lemma AuthenticateRequest_ok:
  "AuthenticateRequest L s r = Inr q \<Longrightarrow> \<exists>tok. Authenticate L tok (s 0) (s 1) (s 2) = Inr q"
  by (auto simp: AuthenticateRequest_def split: sum.splits)

lemma revoked_cells_never_authenticate:
  assumes "admin_inv d" "admin_steps d (s 0)" "admin_steps (s 0) (s 1)" "admin_steps (s 1) (s 2)" "AuthenticateRequest L s r = Inr q"
  shows "\<exists>x. ad_devices d (deviceKey (pr_OrganizationID q) i) = Some (Json x, None) \<and> de_Status x = AdmRevoked \<Longrightarrow> i \<noteq> [] \<Longrightarrow> pr_DeviceID q \<noteq> i"
    "\<exists>m. ad_members d (memberKey (pr_OrganizationID q) i) = Some (Json m, None) \<and> me_Status m = AdmRevoked \<Longrightarrow> pr_MemberID q \<noteq> i"
proof -
  have later: "admin_steps d (s 1)" "admin_steps d (s 2)" using assms(2-4) rtranclp_trans by metis+
  obtain tok where tok: "Authenticate L tok (s 0) (s 1) (s 2) = Inr q" using AuthenticateRequest_ok [OF assms(5)] by blast
  note active = Authenticate_active [OF tok admin_steps_inv [OF later(1) assms(1)] admin_steps_inv [OF later(2) assms(1)]]
  show "pr_DeviceID q \<noteq> i" if "\<exists>x. ad_devices d (deviceKey (pr_OrganizationID q) i) = Some (Json x, None) \<and> de_Status x = AdmRevoked" "i \<noteq> []"
    using active(2) revoked_stays(1) [OF later(2) assms(1) that(1)] that(2) by auto
  show "pr_MemberID q \<noteq> i" if "\<exists>m. ad_members d (memberKey (pr_OrganizationID q) i) = Some (Json m, None) \<and> me_Status m = AdmRevoked"
    using active(1) revoked_stays(2) [OF later(1) assms(1) that] by auto
qed


text \<open>What the two revocations share: the reply of the store, the eviction, and what comes later.\<close>

lemma revocation_effect:
  assumes "finish_revocation sh reply denv henv h y = Some (d, h', Success b code v)" "obeys denv" "hn_evicter sh"
    and "hub_next_state\<^sup>*\<^sup>* NewHub h" "hub_next_state\<^sup>*\<^sup>* h (henv h)" "admin_inv db" "reachable (relay_db.truncate db)" "admin_steps db (fst y)"
    and "\<And>d1 res. y = (d1, Inr res) \<Longrightarrow> validID org ''org_'' \<and> rv_OrganizationID res = org \<and>
      (\<forall>a\<in>set (rv_AgentIDs res). TrimSpace a \<noteq> [] \<longrightarrow> revoked_in (relay_db.truncate d1) org a)"
    and "admin_steps d e" "hub_next_state\<^sup>*\<^sup>* h' k"
  shows "\<exists>d1 res. y = (d1, Inr res) \<and> code = 204 \<and> admin_steps db d1 \<and> admin_steps d1 d \<and> admin_inv d1 \<and>
    (\<forall>a\<in>set (rv_AgentIDs res). TrimSpace a \<noteq> [] \<longrightarrow> agent_cut_off org d e k a)"
proof -
  have hub: "hub_ok h" by (rule hub_reachable_ok [OF assms(4)])
  obtain d1 res where y: "y = (d1, Inr res)" and out: "code = 204" "admin_steps d1 d" "hub_next_state\<^sup>*\<^sup>* h h'"
    "hn_evicter sh \<and> TrimSpace (rv_OrganizationID res) \<noteq> [] \<longrightarrow>
       (\<forall>a\<in>set (cleanAgentIDs (rv_AgentIDs res)). IsRevoked (rv_OrganizationID res) a h')"
    by (rule finish_revocation_done [OF assms(1) hub assms(5,2)])
  have d1: "admin_steps db d1" using assms(8) y by simp
  have "agent_cut_off org d e k a" if a: "a \<in> set (rv_AgentIDs res)" "TrimSpace a \<noteq> []" for a
  proof (rule agents_cut_off [OF _ _ out(2) assms(10) _ assms(11)])
    show "reachable (relay_db.truncate d1)" using reachable_steps [OF assms(7)] admin_steps_relay [OF d1] by blast
    show "revoked_in (relay_db.truncate d1) org a" using assms(9) [OF y] a by blast
    show "hub_ok h'" using hub_steps_revoked [OF out(3) hub] by blast
    show "IsRevoked org (TrimSpace a) h'"
      using out(4) assms(3) assms(9) [OF y] organization_not_blank clean_agent [OF a] by auto
  qed
  with y out(1,2) d1 admin_steps_inv [OF d1 assms(6)] show ?thesis by blast
qed

text \<open>
  C15. Deleting a device cuts it off. If the server answers 204 to \<open>DELETE /v1/admin/devices/{device_id}\<close>,
  then the caller was an administrator and the device's record was revoked in some state \<open>d1\<close> before
  the reply; and from the reply on, whatever else happens, no request authenticates as this
  device, its agent has no event stream and gets none, and no request of the agent that was not
  accepted when the reply left is accepted, running, completed or failed. A request accepted before
  is not cancelled: its recipient may still run it.
\<close>

theorem deleted_device_is_cut_off:
  assumes "admin_inv db" "reachable (relay_db.truncate db)" "\<And>n. obeys (env n)" "obeys senv" "attempts (\<lambda>_. True) atts" "obeys denv"
    and "hub_next_state\<^sup>*\<^sup>* NewHub h" "hub_next_state\<^sup>*\<^sup>* h (henv h)" "hn_evicter sh"
    and "revokeDevice L sh rnd env senv atts denv henv reply r db h = Some (d, h', Success b code v)"
    and "admin_steps d e" "hub_next_state\<^sup>*\<^sup>* h' k"
  shows "\<exists>p d1 x. AuthenticateRequest L (after env db) r = Inr p \<and> IsAdmin p \<and> code = 204 \<and> admin_steps db d1 \<and> admin_steps d1 d \<and>
    ad_devices d1 (deviceKey (pr_OrganizationID p) (hq_ID r)) = Some (Json x, None) \<and> de_Status x = AdmRevoked \<and>
    (TrimSpace (de_AgentID x) \<noteq> [] \<longrightarrow> agent_cut_off (pr_OrganizationID p) d e k (de_AgentID x)) \<and>
    (\<forall>s q. admin_steps e (s 0) \<and> admin_steps (s 0) (s 1) \<and> admin_steps (s 1) (s 2) \<and> AuthenticateRequest L s r' = Inr q \<and>
       pr_OrganizationID q = pr_OrganizationID p \<longrightarrow> pr_DeviceID q \<noteq> hq_ID r)"
proof -
  obtain p where p: "AuthenticateRequest L (after env db) r = Inr p" "IsAdmin p" and
    fin: "finish_revocation sh reply denv henv h (RevokeDevice rnd senv atts p (hq_ID r) (after env db 2)) = Some (d, h', Success b code v)"
    using assms(10) by (auto simp: revokeDevice_def Let_def dest: server_requireAdmin_ok split: sum.splits)
  let ?o = "pr_OrganizationID p" let ?y = "RevokeDevice rnd senv atts p (hq_ID r) (after env db 2)"
  have s2: "admin_steps db (after env db 2)" by (rule after_steps [OF assms(3)])
  have inv2: "admin_inv (after env db 2)" by (rule admin_steps_inv [OF s2 assms(1)])
  note store = RevokeDevice_steps [OF inv2 assms(4,5), where rnd = rnd and p = p and deviceID = "hq_ID r"]
  have steps: "admin_steps db (fst ?y)" using s2 store(1) by (rule rtranclp_trans)
  have found: "validID ?o ''org_'' \<and> (\<exists>x. ad_devices d1 (deviceKey ?o (hq_ID r)) = Some (Json x, None) \<and> de_Status x = AdmRevoked \<and>
      res = \<lparr>rv_OrganizationID = ?o, rv_AgentIDs = [de_AgentID x]\<rparr>) \<and>
    (\<forall>a\<in>set (rv_AgentIDs res). TrimSpace a \<noteq> [] \<longrightarrow> revoked_in (relay_db.truncate d1) ?o a)" if "?y = (d1, Inr res)" for d1 res
    using store(2) [OF that] revoke_device_done by blast
  have "\<exists>d1 res. ?y = (d1, Inr res) \<and> code = 204 \<and> admin_steps db d1 \<and> admin_steps d1 d \<and> admin_inv d1 \<and>
    (\<forall>a\<in>set (rv_AgentIDs res). TrimSpace a \<noteq> [] \<longrightarrow> agent_cut_off ?o d e k a)"
    by (rule revocation_effect [OF fin assms(6,9,7,8,1,2) steps _ assms(11,12)]) (use found in fastforce)
  then obtain d1 res where y: "?y = (d1, Inr res)" and out: "code = 204" "admin_steps db d1" "admin_steps d1 d" "admin_inv d1"
    "\<forall>a\<in>set (rv_AgentIDs res). TrimSpace a \<noteq> [] \<longrightarrow> agent_cut_off ?o d e k a" by blast
  from found [OF y] obtain x where cell: "ad_devices d1 (deviceKey ?o (hq_ID r)) = Some (Json x, None)" "de_Status x = AdmRevoked"
    "res = \<lparr>rv_OrganizationID = ?o, rv_AgentIDs = [de_AgentID x]\<rparr>" by blast
  have "hq_ID r \<noteq> []" using y by (auto simp: RevokeDevice_def Let_def dest: validID_nonempty split: sum.splits if_splits)
  then have "pr_DeviceID q \<noteq> hq_ID r" if "admin_steps e (s 0)" "admin_steps (s 0) (s 1)" "admin_steps (s 1) (s 2)"
    "AuthenticateRequest L s r' = Inr q" "pr_OrganizationID q = ?o" for s q
    using revoked_cells_never_authenticate(1) [OF out(4) _ that(2-4)] that(1,5) cell out(3) assms(11)
    by (metis (no_types, lifting) rtranclp_trans)
  with p out cell show ?thesis by (intro exI [of _ p] exI [of _ d1] exI [of _ x]) auto
qed

text \<open>
  C16. Deleting a member cuts it off. If the server answers 204 to \<open>DELETE /v1/admin/members/{member_id}\<close>,
  then from the reply on no request authenticates as this member, from whichever device, and
  every agent the revocation found on the member's devices is cut off as above: no event stream, and
  none of its requests that was not accepted when the reply left is ever accepted.
\<close>

theorem deleted_member_is_cut_off:
  assumes "admin_inv db" "reachable (relay_db.truncate db)" "\<And>n. obeys (env n)" "obeys senv" "attempts (\<lambda>_. True) atts" "obeys denv" "\<And>n. obeys (see n)"
    and "hub_next_state\<^sup>*\<^sup>* NewHub h" "hub_next_state\<^sup>*\<^sup>* h (henv h)" "hn_evicter sh"
    and "revokeMember L sh rnd env senv see atts denv henv reply r db h = Some (d, h', Success b code v)"
    and "admin_steps d e" "hub_next_state\<^sup>*\<^sup>* h' k"
  shows "\<exists>p d1 res. AuthenticateRequest L (after env db) r = Inr p \<and> IsAdmin p \<and> code = 204 \<and> admin_steps d1 d \<and>
    RevokeMember rnd senv see atts p (hq_ID r) (after env db 2) = (d1, Inr res) \<and>
    (\<forall>a\<in>set (rv_AgentIDs res). TrimSpace a \<noteq> [] \<longrightarrow> agent_cut_off (pr_OrganizationID p) d e k a) \<and>
    (\<forall>s q. admin_steps e (s 0) \<and> admin_steps (s 0) (s 1) \<and> admin_steps (s 1) (s 2) \<and> AuthenticateRequest L s r' = Inr q \<and>
       pr_OrganizationID q = pr_OrganizationID p \<longrightarrow> pr_MemberID q \<noteq> hq_ID r)"
proof -
  obtain p where p: "AuthenticateRequest L (after env db) r = Inr p" "IsAdmin p" and
    fin: "finish_revocation sh reply denv henv h (RevokeMember rnd senv see atts p (hq_ID r) (after env db 2)) = Some (d, h', Success b code v)"
    using assms(11) by (auto simp: revokeMember_def Let_def dest: server_requireAdmin_ok split: sum.splits)
  let ?o = "pr_OrganizationID p" let ?y = "RevokeMember rnd senv see atts p (hq_ID r) (after env db 2)"
  have s2: "admin_steps db (after env db 2)" by (rule after_steps [OF assms(3)])
  have inv2: "admin_inv (after env db 2)" by (rule admin_steps_inv [OF s2 assms(1)])
  note store = RevokeMember_steps [where see = see, OF inv2 assms(4,5,7), where rnd = rnd and p = p and memberID = "hq_ID r"]
  have steps: "admin_steps db (fst ?y)" using s2 store(1) by (rule rtranclp_trans)
  have found: "validID ?o ''org_'' \<and> (\<exists>x. ad_members d1 (memberKey ?o (hq_ID r)) = Some (Json x, None) \<and> me_Status x = AdmRevoked) \<and>
    rv_OrganizationID res = ?o \<and> (\<forall>a\<in>set (rv_AgentIDs res). TrimSpace a \<noteq> [] \<longrightarrow> revoked_in (relay_db.truncate d1) ?o a)"
    if "?y = (d1, Inr res)" for d1 res
    using store(2) [OF that] revoke_member_done by blast
  have "\<exists>d1 res. ?y = (d1, Inr res) \<and> code = 204 \<and> admin_steps db d1 \<and> admin_steps d1 d \<and> admin_inv d1 \<and>
    (\<forall>a\<in>set (rv_AgentIDs res). TrimSpace a \<noteq> [] \<longrightarrow> agent_cut_off ?o d e k a)"
    by (rule revocation_effect [OF fin assms(6,10,8,9,1,2) steps _ assms(12,13)]) (use found in fastforce)
  then obtain d1 res where y: "?y = (d1, Inr res)" and out: "code = 204" "admin_steps d1 d" "admin_inv d1"
    "\<forall>a\<in>set (rv_AgentIDs res). TrimSpace a \<noteq> [] \<longrightarrow> agent_cut_off ?o d e k a" by blast
  have "pr_MemberID q \<noteq> hq_ID r" if "admin_steps e (s 0)" "admin_steps (s 0) (s 1)" "admin_steps (s 1) (s 2)"
    "AuthenticateRequest L s r' = Inr q" "pr_OrganizationID q = ?o" for s q
    using revoked_cells_never_authenticate(2) [OF out(3) _ that(2-4)] that(1,5) found [OF y] out(2) assms(12)
    by (metis (no_types, lifting) rtranclp_trans)
  with p out y show ?thesis by blast
qed


section \<open>Who may do what\<close>

lemma he_status_handle: "he_status (handleStoreError e) \<in> {401, 403, 404, 410, 409, 503, 400, 500}"
  by (cases e) (auto simp: handleStoreError_def knownStoreError_def internalError_def)

lemma Authenticate_error:
  "Authenticate L tok d0 d1 d2 = Inl e \<Longrightarrow> e \<in> {AdmUnauthorized, AdmRedis, AdmDecode}"
  by (auto simp: Authenticate_def readMember_def readDevice_def readCredential_def readJSON_def Let_def
      split: sum.splits if_splits option.splits raw.splits)

lemma server_requireAdmin_error:
  assumes "\<not> (\<exists>p. AuthenticateRequest L s r = Inr p \<and> IsAdmin p)"
  shows "\<exists>e. server_requireAdmin L s r = Inl e \<and> he_status e \<in> {401, 403, 500}"
proof (cases "AuthenticateRequest L s r")
  case (Inl e)
  then have "e \<in> {AdmUnauthorized, AdmRedis, AdmDecode}"
    by (auto simp: AuthenticateRequest_def dest: Authenticate_error split: sum.splits)
  with Inl show ?thesis by (auto simp: server_requireAdmin_def handleStoreError_def knownStoreError_def internalError_def)
qed (use assms in \<open>simp add: server_requireAdmin_def\<close>)

lemma same_credentials:
  "hq_Authorization r' = hq_Authorization r \<Longrightarrow> server_requireAdmin L s r' = server_requireAdmin L s r"
  by (simp add: server_requireAdmin_def AuthenticateRequest_def bearerToken_def)

text \<open>
  C18. No credential, no effect. A request whose bearer credential does not authenticate as an
  administrator is answered 401, 403 or 500 by every administrative route, in the state it found;
  bootstrap without the configured bootstrap token, and enrolment without a token of the invitation
  kind, are refused without touching the database.
\<close>

theorem credentials_are_required:
  assumes "hq_Authorization rotation = hq_Authorization r" "hq_Authorization invitation = hq_Authorization r"
  shows "((\<nexists>p. AuthenticateRequest L (after env db) r = Inr p \<and> IsAdmin p) \<longrightarrow>
      (\<exists>e. he_status e \<in> {401, 403, 500} \<and>
      rotateAdminCredential L rnd now wall env senv atts rotation db = (after env db 2, Failure e) \<and>
      createInvite L random rnd now wall env see reply invitation db = (after env db 2, Failure e) \<and>
      listInvites L now env see r db = (after env db 2, Failure e) \<and> revokeInvite L rnd env senv atts r db = (after env db 2, Failure e) \<and>
      listMembers L env see r db = (after env db 2, Failure e) \<and> listDevices L env see r db = (after env db 2, Failure e) \<and>
      listAudit L env see r db = (after env db 2, Failure e) \<and>
      revokeMember L sh rnd env senv see atts denv henv reply r db h = Some (after env db 2, h, Failure e) \<and>
      revokeDevice L sh rnd env senv atts denv henv reply r db h = Some (after env db 2, h, Failure e))) \<and>
    (\<not> (\<exists>t. bearerToken L boot = Inr t \<and> sha256_sum L (TrimSpace t) = sha256_sum L (TrimSpace configured)) \<longrightarrow>
      (\<exists>e. he_status e \<in> {401, 503} \<and> bootstrap_handler L (NewHandler L configured evicter) rnd now wall see atts boot db = (db, Failure e))) \<and>
    (\<not> (\<exists>t. bearerToken L enr = Inr t \<and> Kind token_kinds t = Inr TokenInvite) \<longrightarrow>
      (\<exists>e. he_status e \<in> {400, 401} \<and> enroll_handler L rnd now wall env see atts post enr db = (db, Failure e)))"
proof (intro conjI impI)
  assume "\<nexists>p. AuthenticateRequest L (after env db) r = Inr p \<and> IsAdmin p"
  then obtain e where e: "server_requireAdmin L (after env db) r = Inl e" "he_status e \<in> {401, 403, 500}"
    using server_requireAdmin_error [of L "after env db" r] by blast
  note all = e(1) same_credentials [OF assms(1)] same_credentials [OF assms(2)]
  show "(\<exists>e. he_status e \<in> {401, 403, 500} \<and>
      rotateAdminCredential L rnd now wall env senv atts rotation db = (after env db 2, Failure e) \<and>
      createInvite L random rnd now wall env see reply invitation db = (after env db 2, Failure e) \<and>
      listInvites L now env see r db = (after env db 2, Failure e) \<and> revokeInvite L rnd env senv atts r db = (after env db 2, Failure e) \<and>
      listMembers L env see r db = (after env db 2, Failure e) \<and> listDevices L env see r db = (after env db 2, Failure e) \<and>
      listAudit L env see r db = (after env db 2, Failure e) \<and>
      revokeMember L sh rnd env senv see atts denv henv reply r db h = Some (after env db 2, h, Failure e) \<and>
      revokeDevice L sh rnd env senv atts denv henv reply r db h = Some (after env db 2, h, Failure e))"
    using e(2) by (intro exI [of _ e])
      (simp add: all rotateAdminCredential_def createInvite_def listInvites_def revokeInvite_def listMembers_def listDevices_def
        listAudit_def revokeMember_def revokeDevice_def with_admin_def Let_def del: insert_iff)
next
  assume "\<not> (\<exists>t. bearerToken L boot = Inr t \<and> sha256_sum L (TrimSpace t) = sha256_sum L (TrimSpace configured))"
  then show "(\<exists>e. he_status e \<in> {401, 503} \<and> bootstrap_handler L (NewHandler L configured evicter) rnd now wall see atts boot db = (db, Failure e))"
    by (auto simp: bootstrap_handler_def NewHandler_def validBootstrapToken_def Let_def split: sum.splits)
next
  assume "\<not> (\<exists>t. bearerToken L enr = Inr t \<and> Kind token_kinds t = Inr TokenInvite)"
  then show "(\<exists>e. he_status e \<in> {400, 401} \<and> enroll_handler L rnd now wall env see atts post enr db = (db, Failure e))"
    by (auto simp: enroll_handler_def server_decodeJSON_def reply_with_def handleStoreError_def knownStoreError_def Enroll_def
        split: sum.splits json_body.splits if_splits)
qed

section \<open>Bearer tokens\<close>

lemma fields_from_word:
  "list_all (\<lambda>b. b < 128 \<and> \<not> IsSpace b) w \<Longrightarrow> fields_from cur (w @ bs) = fields_from (rev w @ cur) bs"
  by (induction w arbitrary: cur) auto

lemma fields_two:
  assumes "v \<noteq> []" "w \<noteq> []" "list_all (\<lambda>b. b < 128 \<and> \<not> IsSpace b) v" "list_all (\<lambda>b. b < 128 \<and> \<not> IsSpace b) w"
  shows "fields_from [] (v @ 32 # w) = [v, w]"
proof -
  have "fields_from [] w = [w]" using fields_from_word [OF assms(4), of "[]" "[]"] assms(2) by simp
  moreover have "IsSpace 32" by (simp add: IsSpace_def)
  ultimately show ?thesis using fields_from_word [OF assms(3), of "[]" "32 # w"] assms(1) by simp
qed

lemma bearerToken_word:
  assumes "hq_Authorization r = [''Bearer '' @ t]" "t \<noteq> []" "length t \<le> 256" "list_all (\<lambda>c. (of_char c :: nat) < 128 \<and> \<not> IsSpace (of_char c)) t"
  shows "bearerToken L r = Inr t"
proof -
  have b: "bytes (''Bearer '' @ t) = bytes ''Bearer'' @ 32 # bytes t" by (simp add: bytes_def)
  have w: "list_all (\<lambda>b. b < 128 \<and> \<not> IsSpace b) (bytes ''Bearer'')" by (simp add: bytes_def IsSpace_def)
  have "Fields (''Bearer '' @ t) = [''Bearer'', t]"
    unfolding Fields_def b
    by (subst fields_two [OF _ _ w]) (use assms(2,4) in \<open>simp_all add: list_all_iff, simp_all add: bytes_def list_all_iff\<close>)
  then show ?thesis using assms(1,3) by (simp add: bearerToken_def EqualFold_def is_ascii_def)
qed


section \<open>An invitation works\<close>

lemma with_admin_success:
  assumes "with_admin L env r db k = (d, Success nc code v)"
  obtains p where "AuthenticateRequest L (after env db) r = Inr p" "IsAdmin p" "k p (after env db 2) = (d, Success nc code v)"
  using assms by (auto simp: with_admin_def server_requireAdmin_def Let_def split: sum.splits if_splits)

lemma reply_success [simp]:
  "reply_with b c x = Success nc code v \<longleftrightarrow> x = Inr v \<and> nc = b \<and> code = c"
  by (auto simp: reply_with_def split: sum.splits)

lemma map_sum_Inr [simp]: "map_sum id f x = Inr v \<longleftrightarrow> (\<exists>u. x = Inr u \<and> v = f u)"
  by (cases x) auto

lemma apsnd_pair [simp]: "apsnd f x = (d, y) \<longleftrightarrow> fst x = d \<and> f (snd x) = y"
  by (cases x) auto

lemma createInvite_201:
  assumes "createInvite L (Some bs) rnd now wall env senv reply req db = (d, Success nc code (invite, token))" "now \<noteq> zero_time"
  obtains p d2 where "token = ''tr_inv_'' @ hex_encode bs" "d = create_invite_commit (randomID (rnd 1) ''aud_'') p invite (Hash L token) now d2"
    "db_up d2" "validID (iv_OrganizationID invite) ''org_''" "iv_ID invite = randomID (rnd 0) ''inv_''" "iv_Status invite = AdmPending"
    "now < iv_ExpiresAt invite" "iv_DisplayName invite \<noteq> [] \<longrightarrow> adm_validLabel (iv_DisplayName invite) 100"
    "iv_MemberID invite \<noteq> [] \<longrightarrow> validID (iv_MemberID invite) ''mem_''"
proof -
  obtain p where k: "(case server_decodeJSON L req of Inl e \<Rightarrow> (after env db 2, Failure e) | Inr request \<Rightarrow>
       case invite_seconds request of Inl e \<Rightarrow> (after env db 2, Failure e) | Inr seconds \<Rightarrow>
       case NewToken (Some bs) TokenInvite of Inl _ \<Rightarrow> (after env db 2, Failure internalError) | Inr inviteToken \<Rightarrow>
       apsnd (\<lambda>x. reply_with True 201 (map_sum id (\<lambda>invite. (invite, inviteToken)) x))
         (CreateInvite L rnd wall senv reply p
            \<lparr>ci_DisplayName = iq_DisplayName request, ci_Email = iq_Email request, ci_ExistingMemberID = iq_MemberID request,
             ci_ExpiresAt = now + seconds * 1000000000, ci_InviteTokenHash = Hash L inviteToken, ci_Now = now\<rparr> (after env db 2))) =
      (d, Success nc code (invite, token))"
    using assms(1) unfolding createInvite_def by (rule with_admin_success)
  then obtain input seconds where i: "server_decodeJSON L req = Inr input" "invite_seconds input = Inr seconds" by (auto split: sum.splits)
  let ?c = "CreateInvite L rnd wall senv reply p
      \<lparr>ci_DisplayName = iq_DisplayName input, ci_Email = iq_Email input, ci_ExistingMemberID = iq_MemberID input,
       ci_ExpiresAt = now + seconds * 1000000000, ci_InviteTokenHash = Hash L token, ci_Now = now\<rparr> (after env db 2)"
  have token: "token = ''tr_inv_'' @ hex_encode bs" and c: "?c = (d, Inr invite)"
    using k i by (simp_all add: NewToken_def prod_eq_iff)
  show thesis
    by (rule that [OF token, of p "if iv_MemberID invite = [] then senv 2 (senv 0 (after env db 2)) else senv 2 (senv 1 (senv 0 (after env db 2)))"])
      (use c assms(2) in \<open>auto simp: CreateInvite_def Let_def normalizedTime_def split: sum.splits if_splits dest: requireAdmin_ok\<close>)
qed


definition enrolled_device :: "(nat \<Rightarrow> string) \<Rightarrow> EnrollInput \<Rightarrow> Invite \<Rightarrow> Member \<Rightarrow> Device" where
  "enrolled_device rnd i invite member =
     \<lparr>de_ID = randomID (rnd 1) ''dev_'', de_OrganizationID = iv_OrganizationID invite, de_MemberID = me_ID member,
      de_AgentID = randomID (rnd 2) ''agent_'', de_Name = ei_DeviceName i, de_Runtime = ei_Runtime i,
      de_PermissionProfile = ei_PermissionProfile i, de_Status = AdmActive, de_CreatedAt = ei_Now i, de_LastSeenAt = None, de_RevokedAt = None\<rparr>"

text \<open>An enrolment on a quiet database, with an invitation that is pending and details nobody used yet.\<close>

lemma Enroll_fresh:
  fixes L :: "('l) adminlib_scheme"
  assumes "db_up e" "Kind token_kinds token = Inr TokenInvite" "i = normalize_enroll L wall input" "validate_enroll i"
    and "rget (db_clock e) (ad_enrollments e) (enrollmentIdempotencyKey (ei_IdempotencyKeyHash i)) = None"
    and "rget (db_clock e) (ad_invitetokens e) (inviteTokenKey (Hash L token)) =
      Some (Json \<lparr>ir_OrganizationID = iv_OrganizationID invite, ir_InviteID = iv_ID invite\<rparr>)"
    and "validID (iv_OrganizationID invite) ''org_''" "validID (iv_ID invite) ''inv_''"
    and "readInvite e (iv_OrganizationID invite) (iv_ID invite) = Inr invite" "iv_Status invite = AdmPending" "ei_Now i < iv_ExpiresAt invite"
    and "\<not> credential_exists e (ei_DeviceTokenHash i)"
    and "rget (db_clock e) (ad_organizations e) (organizationKey (iv_OrganizationID invite)) = Some (Json organization)"
    and "enroll_member (randomID (rnd 0) ''mem_'') i invite e = Inr member" "adm_validLabel (me_DisplayName member) 100"
  defines "result \<equiv> \<lparr>er_Organization = organization, er_Member = member, er_Device = enrolled_device rnd i invite member\<rparr>"
  shows "Enroll L rnd wall (\<lambda>_ d. d) (\<lambda>_ d. d) (\<lambda>_. calm c) (\<lambda>_ d. d) token input e =
    (enroll_commit (randomID (rnd 3) ''aud_'') \<lparr>ir_OrganizationID = iv_OrganizationID invite, ir_InviteID = iv_ID invite\<rparr> (Hash L token)
       (enrollmentRequestHash L (Hash L token) i) i invite (iv_MemberID invite = []) result e, Inr result)"
proof -
  let ?ref = "\<lparr>ir_OrganizationID = iv_OrganizationID invite, ir_InviteID = iv_ID invite\<rparr>"
  have none: "readEnrollmentRecord s (enrollmentIdempotencyKey (ei_IdempotencyKeyHash i)) h rh = Inr None" if "s 0 = e" for s h rh
    using that assms(1,5) by (simp add: readEnrollmentRecord_None)
  have "enroll_body rnd ?ref (Hash L token) rh i (\<lambda>_ d. d) (calm c) e =
      TxExec (enroll_commit (randomID (rnd 3) ''aud_'') ?ref (Hash L token) rh i invite (iv_MemberID invite = []) result) result" for rh
    using assms(1,6,9-15) by (simp add: enroll_body_def none readJSON_def result_def enrolled_device_def Let_def del: read_record)
  then show ?thesis
    using assms(1,2,4,6-8) none by (simp add: Enroll_def watch_loop_calm Let_def assms(3) [symmetric])
qed

text \<open>After it, the device's token authenticates as the device.\<close>

lemma enrolled_authenticates:
  assumes "db_up e" "Kind token_kinds tok = Inr TokenDevice" "Hash L tok = ei_DeviceTokenHash i"
    and "validID (iv_OrganizationID invite) ''org_''" "me_Status (er_Member result) = AdmActive" "de_Status (er_Device result) = AdmActive"
    and "de_MemberID (er_Device result) = me_ID (er_Member result)" "validID (me_ID (er_Member result)) ''mem_''" "validID (de_ID (er_Device result)) ''dev_''"
    and "d = enroll_commit ev ref h rh i invite new result e"
    and "new \<or> readMember e (iv_OrganizationID invite) (me_ID (er_Member result)) = Inr (er_Member result)"
  shows "\<exists>p. Authenticate L tok d d d = Inr p \<and> pr_OrganizationID p = iv_OrganizationID invite \<and> pr_MemberID p = me_ID (er_Member result) \<and>
    pr_DeviceID p = de_ID (er_Device result) \<and> pr_AgentID p = de_AgentID (er_Device result) \<and> \<not> IsAdmin p"
proof -
  have "readCredential d (ei_DeviceTokenHash i) =
      Inr \<lparr>cd_Kind = TokenDevice, cd_OrganizationID = iv_OrganizationID invite, cd_MemberID = me_ID (er_Member result),
        cd_DeviceID = de_ID (er_Device result), cd_IssuedAt = ei_Now i\<rparr>"
    "readMember d (iv_OrganizationID invite) (me_ID (er_Member result)) = Inr (er_Member result)"
    "readDevice d (iv_OrganizationID invite) (de_ID (er_Device result)) = Inr (er_Device result)"
    using assms(1,11) unfolding assms(10) by (auto simp: enroll_commit_def Let_def)
  then show ?thesis using assms(2-9) by (simp add: Authenticate_def admin_principal_def IsAdmin_def Let_def del: read_record)
qed


lemma minted_bearer:
  assumes "NewToken (Some bs) kind = Inr t" "length bs = 32" "hq_Authorization r = [''Bearer '' @ t]"
  shows "bearerToken L r = Inr t" "Kind token_kinds t = Inr kind"
proof -
  obtain p where p: "tokenPrefixes kind = Some p" "t = p @ hex_encode bs"
    using assms(1) by (auto simp: NewToken_def split: option.splits)
  have "list_all (\<lambda>c. (of_char c :: nat) < 128 \<and> \<not> IsSpace (of_char c)) p" "p \<noteq> []" "length p \<le> 9"
    using p(1) by (cases kind; auto simp: IsSpace_def)+
  moreover have "list_all (\<lambda>c. (of_char c :: nat) < 128 \<and> \<not> IsSpace (of_char c)) (hex_encode bs)"
    using hex_encode_digits [of bs] by (auto simp: list_all_iff dest: hex_digit_not_space)
  ultimately show "bearerToken L r = Inr t"
    using assms(2,3) by (intro bearerToken_word) (auto simp: p(2))
  show "Kind token_kinds t = Inr kind" by (rule Kind_NewToken [OF assms(1,2)]) simp
qed

text \<open>An invitation that is pending has not changed since, and its token is kept until its deadline.\<close>

lemma invite_step:
  assumes "admin_step d d'" "ad_invites d k = Some (Json x, None)"
  shows "\<exists>y. ad_invites d' k = Some (Json y, None) \<and> (y = x \<or> iv_Status y \<noteq> AdmPending) \<and> (iv_Status x \<noteq> AdmPending \<longrightarrow> iv_Status y \<noteq> AdmPending)"
  using assms(1)
proof cases
  case (adm_enroll rnd ref inviteHash requestHash i see a f y)
  then show ?thesis using assms(2)
    by (cases "k = inviteKey (ir_OrganizationID ref) (ir_InviteID ref)"; elim enroll_body_ExecD) (auto simp: commit_defs Let_def rget_def)
next
  case (adm_revoke_invite p eventID inviteID a f y)
  then show ?thesis using assms(2)
    by (cases "k = inviteKey (pr_OrganizationID p) inviteID"; elim revoke_invite_body_ExecD) (auto simp: commit_defs Let_def)
qed (use assms(2) in \<open>auto simp: commit_defs Let_def dest!: rotate_body_ExecD elim!: revoke_device_body_ExecD revoke_member_body_ExecD\<close>)

lemma pending_invitation:
  assumes "admin_steps d e" "ad_invites d k = Some (Json x, None)" "ad_invitetokens d h = Some t"
  shows "\<exists>y. ad_invites e k = Some (Json y, None) \<and> (y = x \<or> iv_Status y \<noteq> AdmPending) \<and> ad_invitetokens e h = Some t"
  using assms(1)
proof (induction rule: rtranclp_induct)
  case (step e e')
  then obtain y where y: "ad_invites e k = Some (Json y, None)" "y = x \<or> iv_Status y \<noteq> AdmPending" "ad_invitetokens e h = Some t" by blast
  have "ad_invitetokens e' h = Some t"
    using step.hyps(2) by (rule step_tokens_cases) (use y(3) in \<open>auto simp: rset_def\<close>)
  then show ?case using invite_step [OF step.hyps(2) y(1)] y(2) by blast
qed (use assms(2,3) in blast)

lemma hash_is_normal:
  fixes L :: "('l) golib_scheme"
  assumes "\<And>s. length (sha256_sum L s) = 32"
  shows "ToLower L (TrimSpace (Hash L t)) = Hash L t"
proof -
  have "sha256_sum L (TrimSpace t) \<noteq> []" using assms [of "TrimSpace t"] by auto
  then show ?thesis by (simp add: Hash_def sha256_hex_def)
qed

text \<open>
  C17. An invitation works. If the server answers a creation with an invitation, then, whatever the
  servers do meanwhile, as long as the invitation is still pending (it was neither used nor revoked) and its time
  has run out neither on the relay's clock nor on the database's, a request that carries the token of the answer, names
  a device and sends the hash of a token the device has drawn is answered 201, provided nobody else writes during the request,
  its idempotency key and the hash are new, and, for an invitation of a new member, somebody has given the member a
  name, or, for one of an existing member, that member is there, active and named; and at once the
  device's own token authenticates as the new device of that member, which is no administrator.
\<close>

theorem invitation_enrolls_a_device:
  fixes L :: "('l) serverlib_scheme"
  assumes "createInvite L (Some bs) rnd now wall env senv reply req db = (d, Success nc code (invite, token))" "length bs = 32" "length (rnd 0) = 16"
    and "now \<noteq> zero_time" "admin_steps d e" "readInvite e (iv_OrganizationID invite) (iv_ID invite) = Inr pending" "iv_Status pending = AdmPending"
    and "db_clock e \<le> db_clock d + (iv_ExpiresAt invite - now)" "now' \<noteq> zero_time" "now' < iv_ExpiresAt invite"
    and "hq_Authorization er = [''Bearer '' @ token]" "server_decodeJSON L er = Inr q" "validEnrollmentIdempotencyKey (eq_IdempotencyKey q)"
    and "i = normalize_enroll L wall' \<lparr>ei_DisplayName = eq_DisplayName q, ei_DeviceName = eq_DeviceName q, ei_Runtime = eq_Runtime q,
      ei_PermissionProfile = eq_PermissionProfile q, ei_DeviceTokenHash = eq_DeviceTokenHash q,
      ei_IdempotencyKeyHash = Hash L (eq_IdempotencyKey q), ei_Now = now'\<rparr>"
    and "validate_enroll i"
    and "if iv_MemberID invite = [] then iv_DisplayName invite \<noteq> [] \<or> ei_DisplayName i \<noteq> []
      else \<exists>m. readMember e (iv_OrganizationID invite) (iv_MemberID invite) = Inr m \<and> me_ID m = iv_MemberID invite \<and>
        me_Status m = AdmActive \<and> adm_validLabel (me_DisplayName m) 100"
    and "rget (db_clock e) (ad_enrollments e) (enrollmentIdempotencyKey (ei_IdempotencyKeyHash i)) = None"
    and "rget (db_clock e) (ad_credentials e) (credentialKey (ei_DeviceTokenHash i)) = None"
    and "rget (db_clock e) (ad_organizations e) (organizationKey (iv_OrganizationID invite)) = Some (Json organization)"
    and "NewToken (Some bs') TokenDevice = Inr tok" "length bs' = 32" "eq_DeviceTokenHash q = Hash L tok" "hq_Authorization ar = [''Bearer '' @ tok]"
    and "\<And>s. length (sha256_sum L s) = 32" "\<And>n. length (rnd' n) = 16"
  shows "\<exists>d' result p. enroll_handler L rnd' now' wall' (\<lambda>_ d. d) (\<lambda>_ d. d) (\<lambda>_. calm c) (\<lambda>_ d. d) er e = (d', Success True 201 result) \<and>
    er_Organization result = organization \<and> de_Name (er_Device result) = ei_DeviceName i \<and> de_MemberID (er_Device result) = me_ID (er_Member result) \<and>
    (iv_MemberID invite \<noteq> [] \<longrightarrow> me_ID (er_Member result) = iv_MemberID invite) \<and>
    AuthenticateRequest L (\<lambda>_. d') ar = Inr p \<and> pr_OrganizationID p = iv_OrganizationID invite \<and> pr_MemberID p = me_ID (er_Member result) \<and>
    pr_DeviceID p = de_ID (er_Device result) \<and> \<not> IsAdmin p"
proof -
  obtain p d2 where token: "token = ''tr_inv_'' @ hex_encode bs" and
    d: "d = create_invite_commit (randomID (rnd 1) ''aud_'') p invite (Hash L token) now d2" "db_up d2" and
    inv: "validID (iv_OrganizationID invite) ''org_''" "iv_ID invite = randomID (rnd 0) ''inv_''" "iv_Status invite = AdmPending"
      "now < iv_ExpiresAt invite" "iv_DisplayName invite \<noteq> [] \<longrightarrow> adm_validLabel (iv_DisplayName invite) 100"
      "iv_MemberID invite \<noteq> [] \<longrightarrow> validID (iv_MemberID invite) ''mem_''"
    using createInvite_201 [OF assms(1,4)] by blast
  let ?ref = "\<lparr>ir_OrganizationID = iv_OrganizationID invite, ir_InviteID = iv_ID invite\<rparr>"
  let ?org = "iv_OrganizationID invite" and ?deadline = "db_clock d + invite_retention (iv_ExpiresAt invite) now"
  have mint: "NewToken (Some bs) TokenInvite = Inr token" by (simp add: NewToken_def token)
  note tokens = minted_bearer [OF mint assms(2,11)] minted_bearer [OF assms(20,21,23)]
  have ret: "0 < invite_retention (iv_ExpiresAt invite) now" "db_clock e < ?deadline"
    using inv(4) assms(8) by (simp_all add: invite_retention_def Let_def hour_def minute_def second_def)
  have "ad_invites d (inviteKey ?org (iv_ID invite)) = Some (Json invite, None)" "ad_invitetokens d (inviteTokenKey (Hash L token)) = Some (Json ?ref, Some ?deadline)"
    using ret(1) unfolding d(1) by (simp_all add: create_invite_commit_def Let_def rset_def)
  from pending_invitation [OF assms(5) this] assms(6,7)
  have e: "db_up e" "readInvite e ?org (iv_ID invite) = Inr invite" "rget (db_clock e) (ad_invitetokens e) (inviteTokenKey (Hash L token)) = Some (Json ?ref)"
    using ret(2) by (auto simp: rget_def expired_at_def)
  have i: "ei_Now i = now'" "ei_DeviceTokenHash i = Hash L tok"
    using assms(9,22) hash_is_normal [OF assms(24)] by (simp_all add: assms(14) normalize_enroll_def normalizedTime_def)
  obtain member where m: "enroll_member (randomID (rnd' 0) ''mem_'') i invite e = Inr member" and name: "adm_validLabel (me_DisplayName member) 100"
    and me: "me_Status member = AdmActive" "validID (me_ID member) ''mem_''" "iv_MemberID invite \<noteq> [] \<longrightarrow> me_ID member = iv_MemberID invite"
      "iv_MemberID invite = [] \<or> readMember e ?org (me_ID member) = Inr member"
  proof (cases "iv_MemberID invite = []")
    case True
    then show thesis using assms(15,16,25) inv(5)
      by (intro that [of "\<lparr>me_ID = randomID (rnd' 0) ''mem_'', me_OrganizationID = iv_OrganizationID invite,
          me_DisplayName = (if iv_DisplayName invite = [] then ei_DisplayName i else iv_DisplayName invite),
          me_Email = iv_Email invite, me_Role = RoleMember, me_Status = AdmActive, me_CreatedAt = ei_Now i, me_RevokedAt = None\<rparr>"])
        (auto simp: enroll_member_def validate_enroll_def)
  next
    case False
    then show thesis using assms(16) inv(6) by (auto simp: enroll_member_def simp del: read_record intro: that)
  qed
  let ?r = "\<lparr>er_Organization = organization, er_Member = member, er_Device = enrolled_device rnd' i invite member\<rparr>"
  let ?c = "enroll_commit (randomID (rnd' 3) ''aud_'') ?ref (Hash L token)
       (enrollmentRequestHash L (Hash L token) i) i invite (iv_MemberID invite = []) ?r e"
  have "Enroll L rnd' wall' (\<lambda>_ d. d) (\<lambda>_ d. d) (\<lambda>_. calm c) (\<lambda>_ d. d) token
      \<lparr>ei_DisplayName = eq_DisplayName q, ei_DeviceName = eq_DeviceName q, ei_Runtime = eq_Runtime q,
       ei_PermissionProfile = eq_PermissionProfile q, ei_DeviceTokenHash = eq_DeviceTokenHash q,
       ei_IdempotencyKeyHash = Hash L (eq_IdempotencyKey q), ei_Now = now'\<rparr> e = (?c, Inr ?r)"
    by (rule Enroll_fresh [where rnd = rnd' and invite = invite and i = i and organization = organization and member = member, OF e(1) tokens(2) assms(14,15,17) e(3) inv(1) _ e(2) inv(3) _ _ assms(19) m name])
      (use assms(3,10,18) inv(2) i(1) e(1) in \<open>simp_all add: credential_exists_def\<close>)
  then have reply: "enroll_handler L rnd' now' wall' (\<lambda>_ d. d) (\<lambda>_ d. d) (\<lambda>_. calm c) (\<lambda>_ d. d) er e = (?c, Success True 201 ?r)"
    by (simp add: enroll_handler_def tokens(1) assms(12,13))
  have "\<exists>p. Authenticate L tok ?c ?c ?c = Inr p \<and> pr_OrganizationID p = ?org \<and> pr_MemberID p = me_ID (er_Member ?r) \<and>
    pr_DeviceID p = de_ID (er_Device ?r) \<and> pr_AgentID p = de_AgentID (er_Device ?r) \<and> \<not> IsAdmin p"
    by (rule enrolled_authenticates [OF e(1) tokens(4) i(2) [symmetric] inv(1) _ _ _ _ _ refl])
      (use assms(25) me in \<open>simp_all add: enrolled_device_def del: read_record\<close>)
  then obtain p where "Authenticate L tok ?c ?c ?c = Inr p" "pr_OrganizationID p = ?org" "pr_MemberID p = me_ID (er_Member ?r)"
    "pr_DeviceID p = de_ID (er_Device ?r)" "\<not> IsAdmin p" by blast
  with reply me(3) show ?thesis
    by (intro exI [of _ ?c] exI [of _ ?r] exI [of _ p]) (simp add: AuthenticateRequest_def tokens(3) enrolled_device_def)
qed

section \<open>Examples\<close>

definition srv_lib :: serverlib where
  "srv_lib = adminlib.extend adm_lib (serverlib.fields Some)"

definition srv_handler :: server_handler where
  "srv_handler = NewHandler adm_lib [] True"

definition srv_request :: "string \<Rightarrow> string \<Rightarrow> 'b json_body \<Rightarrow> 'b server_request" where
  "srv_request token i body =
     \<lparr>hq_Authorization = [''Bearer '' @ token], hq_ContentType = [], hq_Body = body, hq_ID = i, hq_limit = [], hq_member_id = []\<rparr>"

lemma srv_request_fields [simp]:
  "hq_Authorization (srv_request token i body) = [''Bearer '' @ token]" "hq_ContentType (srv_request token i body) = []"
  "hq_Body (srv_request token i body) = body" "hq_ID (srv_request token i body) = i"
  by (simp_all add: srv_request_def)

lemma srv_minted:
  "NewToken (Some (replicate 32 c)) TokenAdmin = Inr (adm_token ''tr_admin_'' c)"
  "NewToken (Some (replicate 32 c)) TokenInvite = Inr (adm_token ''tr_inv_'' c)"
  "NewToken (Some (replicate 32 c)) TokenDevice = Inr (adm_token ''tr_dev_'' c)"
  by (simp_all add: NewToken_def adm_token_def)

lemma srv_bearer [simp]:
  "bearerToken L (srv_request (adm_token ''tr_admin_'' c) i body) = Inr (adm_token ''tr_admin_'' c)"
  "bearerToken L (srv_request (adm_token ''tr_inv_'' c) i body) = Inr (adm_token ''tr_inv_'' c)"
  "bearerToken L (srv_request (adm_token ''tr_dev_'' c) i body) = Inr (adm_token ''tr_dev_'' c)"
  by (rule minted_bearer(1) [OF srv_minted(1)] minted_bearer(1) [OF srv_minted(2)] minted_bearer(1) [OF srv_minted(3)]; simp)+

lemma srv_lib_fields [simp]:
  "sha256_sum srv_lib = sha256_sum adm_lib" "ParseMediaType srv_lib = Some" "length (sha256_sum adm_lib s) = 32"
  "uni_lower srv_lib = uni_lower adm_lib" "json_enrollment srv_lib = json_enrollment adm_lib"
  by (simp_all add: srv_lib_def adm_lib_def adminlib.defs serverlib.defs)

lemma srv_lib_same [simp]: "Hash srv_lib t = Hash adm_lib t" "ToLower srv_lib t = ToLower adm_lib t"
  by (simp_all add: Hash_def sha256_hex_def ToLower_def)

lemma srv_authenticates:
  "AuthenticateRequest adm_lib (\<lambda>_. adm_db) (srv_request (adm_token ''tr_admin_'' CHR ''1'') i body) = Inr adm_root"
  by (simp add: AuthenticateRequest_def Authenticate_def readCredential_def readMember_def readJSON_def admin_principal_def adm_people del: read_record)

lemma srv_admin: "IsAdmin adm_root"
  by (simp add: IsAdmin_def adm_root_def)

lemma srv_root: "server_requireAdmin adm_lib (\<lambda>_. adm_db) (srv_request (adm_token ''tr_admin_'' CHR ''1'') i body) = Inr adm_root"
  by (simp add: server_requireAdmin_def srv_authenticates srv_admin)

lemma srv_relay [simp]: "reachable (relay_db.truncate adm_db)"
  using adm_relay_reachable by simp

text \<open>The administrator deletes the first device.\<close>

lemma srv_deletes_device:
  "\<exists>d h'. revokeDevice adm_lib srv_handler (\<lambda>_. replicate 16 CHR ''e'') (\<lambda>_ d. d) id (\<lambda>_. calm 0) id id True
     (srv_request (adm_token ''tr_admin_'' CHR ''1'') (adm_id ''dev_'' CHR ''1'') BadJSON) adm_db NewHub = Some (d, h', Success False 204 ())"
proof -
  have "db_up adm_revoked_device" by (simp add: adm_revoked_device_def revoke_device_commit_def Let_def)
  with finish_revocation_204 [of id NewHub id adm_revoked_device] show ?thesis
    by (simp add: revokeDevice_def srv_root adm_revoke_device hub_ok_new)
qed

theorem deleted_device_is_cut_off_witness:
  "\<exists>d h'. revokeDevice adm_lib srv_handler (\<lambda>_. replicate 16 CHR ''e'') (\<lambda>_ d. d) id (\<lambda>_. calm 0) id id True
     (srv_request (adm_token ''tr_admin_'' CHR ''1'') (adm_id ''dev_'' CHR ''1'') BadJSON) adm_db NewHub = Some (d, h', Success False 204 ()) \<and>
   admin_steps adm_db d"
proof -
  obtain d h' where del: "revokeDevice adm_lib srv_handler (\<lambda>_. replicate 16 CHR ''e'') (\<lambda>_ d. d) id (\<lambda>_. calm 0) id id True
     (srv_request (adm_token ''tr_admin_'' CHR ''1'') (adm_id ''dev_'' CHR ''1'') BadJSON) adm_db NewHub = Some (d, h', Success False 204 ())"
    using srv_deletes_device by blast
  have "hn_evicter srv_handler" by (simp add: srv_handler_def NewHandler_def Let_def)
  from deleted_device_is_cut_off [where r' = "srv_request [] [] (BadJSON :: unit json_body)", OF adm_db_inv srv_relay environment_id(1,2,3,2) _ _ this del rtranclp.rtrancl_refl rtranclp.rtrancl_refl]
  have "\<exists>d1. admin_steps adm_db d1 \<and> admin_steps d1 d" by auto
  with del show ?thesis by (meson rtranclp_trans)
qed


text \<open>The administrator deletes Alice.\<close>

definition srv_delete_alice :: "(admin_db \<times> Hub \<times> unit http_reply) option" where
  "srv_delete_alice = revokeMember adm_lib srv_handler (\<lambda>_. replicate 16 CHR ''e'') (\<lambda>_ d. d) id (\<lambda>_ d. d) (\<lambda>_. calm 0) id id True
     (srv_request (adm_token ''tr_admin_'' CHR ''1'') (me_ID adm_alice) BadJSON) adm_db NewHub"

lemma srv_deletes_alice: "\<exists>d h'. srv_delete_alice = Some (d, h', Success False 204 ())"
proof -
  have "readMember adm_db adm_org (me_ID adm_alice) = Inr adm_alice" "me_Status adm_alice = AdmActive" "validID (me_ID adm_alice) ''mem_''"
    "me_ID adm_alice \<noteq> me_ID adm_boss"
    by (simp_all add: adm_people)
  then obtain d res where d: "RevokeMember (\<lambda>_. replicate 16 CHR ''e'') id (\<lambda>_ d. d) (\<lambda>_. calm 0) adm_root (me_ID adm_alice) adm_db = (d, Inr res)" "db_up d"
    by (simp add: RevokeMember_def watch_loop_calm revoke_member_body_def Let_def revoke_member_commit_def smembers_def del: read_record)
  with finish_revocation_204 [of id NewHub id d] show ?thesis
    by (simp add: srv_delete_alice_def revokeMember_def srv_root hub_ok_new)
qed

theorem deleted_member_is_cut_off_witness:
  "\<exists>d h'. srv_delete_alice = Some (d, h', Success False 204 ()) \<and>
     (\<forall>q. AuthenticateRequest adm_lib (\<lambda>_. d) (srv_request (adm_token ''tr_dev_'' CHR ''2'') [] (BadJSON :: unit json_body)) = Inr q \<and>
        pr_OrganizationID q = adm_org \<longrightarrow> pr_MemberID q \<noteq> me_ID adm_alice)"
proof -
  obtain d h' where del: "srv_delete_alice = Some (d, h', Success False 204 ())" using srv_deletes_alice by blast
  have "hn_evicter srv_handler" by (simp add: srv_handler_def NewHandler_def Let_def)
  from deleted_member_is_cut_off [where r' = "srv_request (adm_token ''tr_dev_'' CHR ''2'') [] (BadJSON :: unit json_body)" and see = "\<lambda>_ d. d",
      OF adm_db_inv srv_relay environment_id(1,2,3,2,1) _ _ this del [unfolded srv_delete_alice_def] rtranclp.rtrancl_refl rtranclp.rtrancl_refl]
  have later: "\<forall>s q. admin_steps d (s 0) \<and> admin_steps (s 0) (s 1) \<and> admin_steps (s 1) (s 2) \<and>
      AuthenticateRequest adm_lib s (srv_request (adm_token ''tr_dev_'' CHR ''2'') [] (BadJSON :: unit json_body)) = Inr q \<and>
      pr_OrganizationID q = adm_org \<longrightarrow> pr_MemberID q \<noteq> me_ID adm_alice"
    by (simp add: srv_authenticates) blast
  have "\<forall>q. AuthenticateRequest adm_lib (\<lambda>_. d) (srv_request (adm_token ''tr_dev_'' CHR ''2'') [] (BadJSON :: unit json_body)) = Inr q \<and>
      pr_OrganizationID q = adm_org \<longrightarrow> pr_MemberID q \<noteq> me_ID adm_alice"
    using later [rule_format, of "\<lambda>_. d"] by simp
  with del show ?thesis by blast
qed

theorem credentials_are_required_witness:
  "\<exists>e. he_status e \<in> {401, 403, 500} \<and>
     revokeDevice srv_lib srv_handler (\<lambda>_. []) (\<lambda>_ d. d) id (\<lambda>_. calm 0) id id True
       (srv_request (adm_token ''tr_inv_'' CHR ''1'') (adm_id ''dev_'' CHR ''1'') BadJSON) adm_db NewHub = Some (adm_db, NewHub, Failure e)"
proof -
  let ?r = "srv_request (adm_token ''tr_inv_'' CHR ''1'') (adm_id ''dev_'' CHR ''1'') (BadJSON :: unit json_body)"
  have "AuthenticateRequest srv_lib (\<lambda>_. adm_db) ?r = Inl AdmUnauthorized" by (simp add: AuthenticateRequest_def Authenticate_def)
  with credentials_are_required [of "srv_request (adm_token ''tr_inv_'' CHR ''1'') [] BadJSON" ?r "srv_request (adm_token ''tr_inv_'' CHR ''1'') [] BadJSON"
      srv_lib "\<lambda>_ d. d" adm_db "\<lambda>_. []" 0 0 id "\<lambda>_. calm 0" None "\<lambda>_ d. d" True srv_handler id id NewHub]
  show ?thesis by (simp del: insert_iff) blast
qed


text \<open>Alice is invited, and enrols a device that draws its token from the byte \<open>6\<close>.\<close>

definition srv_db :: admin_db where
  "srv_db = adm_db\<lparr>ad_organizations := rset 0 (organizationKey adm_org) adm_organization 0 Map.empty\<rparr>"

definition srv_invite :: Invite where
  "srv_invite = \<lparr>iv_ID = adm_id ''inv_'' CHR ''v'', iv_OrganizationID = adm_org, iv_CreatedBy = me_ID adm_boss, iv_MemberID = [],
     iv_DisplayName = ''Alice'', iv_Email = [], iv_Status = AdmPending, iv_CreatedAt = 1, iv_ExpiresAt = 60000000001, iv_UsedAt = None,
     iv_UsedByMemberID = [], iv_RevokedAt = None\<rparr>"

definition srv_invited :: admin_db where
  "srv_invited = create_invite_commit (adm_id ''aud_'' CHR ''v'') adm_root srv_invite (adm_hash ''tr_inv_'' CHR ''5'') 1 srv_db"

lemma srv_db_fields [simp]:
  "db_up srv_db" "db_clock srv_db = 0" "ad_members srv_db = ad_members adm_db" "ad_credentials srv_db = ad_credentials adm_db"
  "ad_organizations srv_db = rset 0 (organizationKey adm_org) adm_organization 0 Map.empty" "ad_enrollments srv_db = Map.empty"
  by (simp_all add: srv_db_def)

lemma srv_invites:
  "createInvite srv_lib (Some (replicate 32 CHR ''5'')) (\<lambda>_. replicate 16 CHR ''v'') 1 0 (\<lambda>_ d. d) (\<lambda>_ d. d) True
     (srv_request (adm_token ''tr_admin_'' CHR ''1'') [] (OneJSON \<lparr>iq_DisplayName = ''Alice'', iq_Email = [], iq_MemberID = [], iq_ExpiresInSeconds = 60\<rparr>))
     srv_db = (srv_invited, Success True 201 (srv_invite, adm_token ''tr_inv_'' CHR ''5''))"
proof -
  have a: "Authenticate srv_lib (adm_token ''tr_admin_'' CHR ''1'') srv_db srv_db srv_db = Inr adm_root"
    by (simp add: Authenticate_def readCredential_def readMember_def readJSON_def admin_principal_def adm_people del: read_record)
  have r: "requireAdmin srv_db adm_root = Inr ()"
    by (simp add: requireAdmin_def readMember_def readJSON_def srv_admin del: read_record) (simp add: adm_people)
  have v: "validHash (hex_encode (rev (hex_encode (replicate 16 c))))" for c by simp
  have e: "normalizeEmail srv_lib [] = []" by (simp add: normalizeEmail_def ToLower_def is_ascii_def)
  have "CreateInvite srv_lib (\<lambda>_. replicate 16 CHR ''v'') 0 (\<lambda>_ d. d) True adm_root
      \<lparr>ci_DisplayName = ''Alice'', ci_Email = [], ci_ExistingMemberID = [], ci_ExpiresAt = 1 + 60 * 1000000000,
       ci_InviteTokenHash = Hash srv_lib (adm_token ''tr_inv_'' CHR ''5''), ci_Now = 1\<rparr> srv_db = (srv_invited, Inr srv_invite)"
    using r v e by (simp add: CreateInvite_def normalizedTime_def zero_time_def srv_invited_def srv_invite_def Let_def)
  then show ?thesis
    using a srv_admin srv_minted(2) [of "CHR ''5''"]
    by (simp add: createInvite_def with_admin_def server_requireAdmin_def AuthenticateRequest_def server_decodeJSON_def invite_seconds_def)
qed

theorem invitation_enrolls_a_device_witness:
  "\<exists>d result p. AuthenticateRequest srv_lib (\<lambda>_. d) (srv_request (adm_token ''tr_dev_'' CHR ''6'') [] (BadJSON :: unit json_body)) = Inr p \<and>
     pr_DeviceID p = de_ID (er_Device result) \<and> de_Name (er_Device (result :: EnrollResult)) = ''x''"
proof -
  let ?key = "''tr_enroll_'' @ hex_encode (replicate 32 CHR ''k'')"
  define q where "q = \<lparr>eq_DisplayName = [], eq_DeviceName = ''x'', eq_Runtime = ''codex'', eq_PermissionProfile = ''read_only'',
      eq_DeviceTokenHash = Hash srv_lib (adm_token ''tr_dev_'' CHR ''6''), eq_IdempotencyKey = ?key\<rparr>"
  define i where "i = normalize_enroll srv_lib 0 \<lparr>ei_DisplayName = eq_DisplayName q, ei_DeviceName = eq_DeviceName q, ei_Runtime = eq_Runtime q,
      ei_PermissionProfile = eq_PermissionProfile q, ei_DeviceTokenHash = eq_DeviceTokenHash q,
      ei_IdempotencyKeyHash = Hash srv_lib (eq_IdempotencyKey q), ei_Now = 2\<rparr>"
  have trim: "TrimSpace ?key = ?key" by (rule TrimSpace_token) (simp_all add: IsSpace_def)
  have key: "validEnrollmentIdempotencyKey (eq_IdempotencyKey q)"
    unfolding q_def enroll_request.simps validEnrollmentIdempotencyKey_def validIdempotencyKey_def trim by (simp add: HasPrefix_def)
  have hash: "ToLower srv_lib (TrimSpace (Hash srv_lib t)) = Hash srv_lib t" for t by (rule hash_is_normal) simp
  have valid: "validate_enroll i" "ei_DeviceName i = ''x''" "eq_DeviceTokenHash q = Hash srv_lib (adm_token ''tr_dev_'' CHR ''6'')"
    using hash by (simp_all add: i_def q_def normalize_enroll_def validate_enroll_def validPermissionProfile_def Let_def del: srv_lib_same)
      (simp add: Hash_def sha256_hex_def)
  have "ei_DeviceTokenHash i = adm_hash ''tr_dev_'' CHR ''6''" using hash by (simp add: i_def q_def normalize_enroll_def)
  then have new: "ei_DeviceTokenHash i \<noteq> adm_hash ''tr_admin_'' CHR ''1''" "ei_DeviceTokenHash i \<noteq> adm_hash ''tr_dev_'' CHR ''2''" by simp_all
  have same: "relay_db.extend ((relay_db.truncate d)\<lparr>db_clock := 5\<rparr>) (relay_db.more d) = d\<lparr>db_clock := 5\<rparr>" for d :: admin_db
    by (cases d) (simp add: relay_db.defs)
  have "relay_step (relay_db.truncate srv_invited) ((relay_db.truncate srv_invited)\<lparr>db_clock := 5\<rparr>)"
    by (rule step_tick) (simp add: srv_invited_def create_invite_commit_def Let_def relay_db.defs)
  from adm_relay [OF this] have steps: "admin_steps srv_invited (srv_invited\<lparr>db_clock := 5\<rparr>)"
    unfolding same by (rule r_into_rtranclp)
  have "\<exists>d' result p. enroll_handler srv_lib (\<lambda>_. replicate 16 CHR ''n'') 2 0 (\<lambda>_ d. d) (\<lambda>_ d. d) (\<lambda>_. calm 0) (\<lambda>_ d. d)
      (srv_request (adm_token ''tr_inv_'' CHR ''5'') [] (OneJSON q)) (srv_invited\<lparr>db_clock := 5\<rparr>) = (d', Success True 201 result) \<and>
    er_Organization result = adm_organization \<and> de_Name (er_Device result) = ei_DeviceName i \<and> de_MemberID (er_Device result) = me_ID (er_Member result) \<and>
    (iv_MemberID srv_invite \<noteq> [] \<longrightarrow> me_ID (er_Member result) = iv_MemberID srv_invite) \<and>
    AuthenticateRequest srv_lib (\<lambda>_. d') (srv_request (adm_token ''tr_dev_'' CHR ''6'') [] (BadJSON :: unit json_body)) = Inr p \<and>
    pr_OrganizationID p = iv_OrganizationID srv_invite \<and> pr_MemberID p = me_ID (er_Member result) \<and>
    pr_DeviceID p = de_ID (er_Device result) \<and> \<not> IsAdmin p"
    by (rule invitation_enrolls_a_device [where pending = srv_invite, OF srv_invites _ _ _ steps _ _ _ _ _ _ _ key i_def valid(1) _ _ _ _ srv_minted(3) _ valid(3)])
      (simp_all add: zero_time_def server_decodeJSON_def srv_invited_def create_invite_commit_def Let_def srv_invite_def new [simplified], simp_all add: rget_def)
  with valid(2) show ?thesis by auto
qed

end
