(* ===== verification/OS_Files.thy ===== *)
theory OS_Files
  imports Protocol "HOL-Library.AList" "HOL-Library.Word"
begin

unbundle bit_operations_syntax

text \<open>
  The files of a Unix system, as far as the program uses them: names, inodes, permissions and the
  calls of Go's package \<open>os\<close>. Any call may fail, a write that fails may have taken a part, and other
  processes of the user may change the disk before every call. The state remembers every disk a call
  has left, because the process may be killed between any two of them.

  A path is the list of its elements after \<open>filepath.Abs\<close> and \<open>filepath.Clean\<close>, the last element
  first: \<open>filepath.Dir\<close> is the tail and \<open>[]\<close> the root.
\<close>

type_synonym path = "string list"
type_synonym file_mode = "32 word"

datatype fnode = RegularFile string file_mode | DirectoryNode file_mode | SymlinkTo path

record disk =
  dk_names :: "(path \<times> nat) list"
  dk_nodes :: "nat \<Rightarrow> fnode"
  dk_next :: nat

text \<open>
  \<open>os_fails\<close> says which calls fail, by their kind and number, \<open>os_takes\<close> how many bytes a failing write
  takes, \<open>os_random\<close> what the random source yields, \<open>os_env\<close> what other processes do before a call.
\<close>

datatype os_op = Lookup | Opening | Transfer | Flushing | Naming | Drawing

record os =
  os_disk :: disk
  os_fails :: "os_op \<Rightarrow> nat \<Rightarrow> bool"
  os_takes :: "nat \<Rightarrow> nat"
  os_random :: "nat \<Rightarrow> string"
  os_umask :: file_mode
  os_env :: "nat \<Rightarrow> disk \<Rightarrow> disk"
  os_calls :: nat
  os_history :: "disk list"

datatype os_error =
    ErrNotExist | ErrExist | ErrFault | ErrNotPrivate | ErrWrongKind | ErrShortWrite | ErrChanged
  | ErrNoTemporary | ErrNoParent | ErrText string

type_synonym 'a os_call = "os \<Rightarrow> (os_error, 'a) result \<times> os"

section \<open>Sequencing\<close>

definition give :: "'a \<Rightarrow> 'a os_call" where
  "give x s = (Inr x, s)"

definition refuse :: "os_error \<Rightarrow> 'a os_call" where
  "refuse e s = (Inl e, s)"

text \<open>\<open>if err := m; err != nil { return err }\<close>, with and without a cleanup before the return, and a call whose
  error is dropped.\<close>

definition and_then :: "'a os_call \<Rightarrow> ('a \<Rightarrow> 'b os_call) \<Rightarrow> 'b os_call" where
  "and_then m k s = (case m s of (Inl e, s') \<Rightarrow> (Inl e, s') | (Inr x, s') \<Rightarrow> k x s')"

definition cleaning :: "'a os_call \<Rightarrow> 'u os_call \<Rightarrow> 'a os_call" where
  "cleaning m c s = (case m s of (Inl e, s') \<Rightarrow> (Inl e, snd (c s')) | (Inr x, s') \<Rightarrow> (Inr x, s'))"

definition both :: "'u os_call \<Rightarrow> 'v os_call \<Rightarrow> unit os_call" where
  "both m c s =
     (let (r1, s1) = m s; (r2, s2) = c s1 in
      case r1 of Inl e \<Rightarrow> (Inl e, s2) | Inr _ \<Rightarrow> (case r2 of Inl e \<Rightarrow> (Inl e, s2) | Inr _ \<Rightarrow> (Inr (), s2)))"

text \<open>A call that goes on with the outcome of another, error or not.\<close>

definition on_outcome :: "'a os_call \<Rightarrow> ((os_error, 'a) result \<Rightarrow> 'b os_call) \<Rightarrow> 'b os_call" where
  "on_outcome m k s = (case m s of (r, s') \<Rightarrow> k r s')"

text \<open>\<open>if err := m; err != nil && !errors.Is(err, e) { return err }\<close>.\<close>

definition forgiving :: "os_error \<Rightarrow> 'a os_call \<Rightarrow> 'b os_call \<Rightarrow> 'b os_call" where
  "forgiving e m k = on_outcome m (\<lambda>r. case r of Inl e' \<Rightarrow> if e' \<noteq> e then refuse e' else k | Inr _ \<Rightarrow> k)"

section \<open>System calls\<close>

text \<open>The system as a call finds it.\<close>

definition arrive :: "os \<Rightarrow> os" where
  "arrive s = s\<lparr>os_disk := os_env s (os_calls s) (os_disk s), os_calls := Suc (os_calls s)\<rparr>"

definition sys :: "os_op \<Rightarrow> (disk \<Rightarrow> (os_error, 'a) result \<times> disk) \<Rightarrow> 'a os_call" where
  "sys op f s =
     (let s' = arrive s in
      if os_fails s op (os_calls s) then (Inl ErrFault, s')
      else case f (os_disk s') of (r, d) \<Rightarrow> (r, s'\<lparr>os_disk := d, os_history := os_history s @ [d]\<rparr>))"

text \<open>A call that only reads.\<close>

definition peek :: "os_op \<Rightarrow> (disk \<Rightarrow> (os_error, 'a) result) \<Rightarrow> 'a os_call" where
  "peek op f s =
     (let s' = arrive s in
      if os_fails s op (os_calls s) then (Inl ErrFault, s') else (f (os_disk s'), s'))"

definition inode :: "disk \<Rightarrow> path \<Rightarrow> nat option" where
  "inode d p = map_of (dk_names d) p"

definition node :: "disk \<Rightarrow> path \<Rightarrow> fnode option" where
  "node d p = map_option (dk_nodes d) (inode d p)"

definition children :: "disk \<Rightarrow> path \<Rightarrow> string list" where
  "children d p = remdups (map (\<lambda>q. case q of [] \<Rightarrow> [] | n # _ \<Rightarrow> n) (filter (\<lambda>q. q \<noteq> [] \<and> tl q = p) (map fst (dk_names d))))"

text \<open>\<open>os.FileInfo\<close>; \<open>os.SameFile\<close> compares the inode.\<close>

record FileInfo =
  fi_ID :: nat
  fi_Node :: fnode

definition SameFile :: "FileInfo \<Rightarrow> FileInfo \<Rightarrow> bool" where
  "SameFile a b \<longleftrightarrow> fi_ID a = fi_ID b"

fun is_dir :: "fnode \<Rightarrow> bool" where
  "is_dir (DirectoryNode _) = True"
| "is_dir _ = False"

fun is_regular :: "fnode \<Rightarrow> bool" where
  "is_regular (RegularFile _ _) = True"
| "is_regular _ = False"

fun is_symlink :: "fnode \<Rightarrow> bool" where
  "is_symlink (SymlinkTo _) = True"
| "is_symlink _ = False"

fun perm :: "fnode \<Rightarrow> file_mode" where
  "perm (RegularFile _ m) = m"
| "perm (DirectoryNode m) = m"
| "perm (SymlinkTo _) = 0x1FF"

fun file_bytes :: "fnode \<Rightarrow> string" where
  "file_bytes (RegularFile b _) = b"
| "file_bytes _ = []"

definition Lstat :: "path \<Rightarrow> FileInfo os_call" where
  "Lstat p = peek Lookup (\<lambda>d. case inode d p of None \<Rightarrow> Inl ErrNotExist
     | Some i \<Rightarrow> Inr \<lparr>fi_ID = i, fi_Node = dk_nodes d i\<rparr>)"

text \<open>\<open>os.Stat\<close> follows a link; one that leads to another link counts as missing.\<close>

definition follow :: "disk \<Rightarrow> path \<Rightarrow> nat option" where
  "follow d p = (case inode d p of None \<Rightarrow> None
     | Some i \<Rightarrow> (case dk_nodes d i of SymlinkTo q \<Rightarrow>
         (case inode d q of Some j \<Rightarrow> if is_symlink (dk_nodes d j) then None else Some j | None \<Rightarrow> None)
       | _ \<Rightarrow> Some i))"

definition Stat :: "path \<Rightarrow> FileInfo os_call" where
  "Stat p = peek Lookup (\<lambda>d. case follow d p of None \<Rightarrow> Inl ErrNotExist
     | Some i \<Rightarrow> Inr \<lparr>fi_ID = i, fi_Node = dk_nodes d i\<rparr>)"

text \<open>The owner may add or take a name in a directory with the permissions \<open>wx\<close>, and open what is readable.\<close>

definition parent_ok :: "disk \<Rightarrow> path \<Rightarrow> bool" where
  "parent_ok d p = (p \<noteq> [] \<and> (case follow d (tl p) of None \<Rightarrow> False
     | Some i \<Rightarrow> is_dir (dk_nodes d i) \<and> perm (dk_nodes d i) AND 0xC0 = 0xC0))"

definition new_name :: "disk \<Rightarrow> path \<Rightarrow> fnode \<Rightarrow> disk" where
  "new_name d p n = d\<lparr>dk_names := (p, dk_next d) # dk_names d, dk_nodes := (dk_nodes d)(dk_next d := n),
     dk_next := Suc (dk_next d)\<rparr>"

definition Mkdir :: "path \<Rightarrow> file_mode \<Rightarrow> unit os_call" where
  "Mkdir p m s = sys Opening (\<lambda>d. if inode d p \<noteq> None then (Inl ErrExist, d)
     else if \<not> parent_ok d p then (Inl ErrNotExist, d)
     else (Inr (), new_name d p (DirectoryNode (m AND NOT (os_umask s))))) s"

text \<open>\<open>os.OpenFile\<close> with \<open>O_CREATE|O_EXCL\<close>; a handle is the inode.\<close>

definition OpenExclusive :: "path \<Rightarrow> file_mode \<Rightarrow> nat os_call" where
  "OpenExclusive p m s = sys Opening (\<lambda>d. if inode d p \<noteq> None then (Inl ErrExist, d)
     else if \<not> parent_ok d p then (Inl ErrNotExist, d)
     else (Inr (dk_next d), new_name d p (RegularFile [] (m AND 0x1FF AND NOT (os_umask s))))) s"

definition Open :: "path \<Rightarrow> nat os_call" where
  "Open p = peek Opening (\<lambda>d. case follow d p of None \<Rightarrow> Inl ErrNotExist
     | Some i \<Rightarrow> if perm (dk_nodes d i) AND 0x100 = 0 then Inl ErrFault else Inr i)"

definition handle_Stat :: "nat \<Rightarrow> FileInfo os_call" where
  "handle_Stat h = peek Lookup (\<lambda>d. Inr \<lparr>fi_ID = h, fi_Node = dk_nodes d h\<rparr>)"

definition appended :: "disk \<Rightarrow> nat \<Rightarrow> string \<Rightarrow> disk" where
  "appended d h b = (case dk_nodes d h of
       RegularFile c m \<Rightarrow> d\<lparr>dk_nodes := (dk_nodes d)(h := RegularFile (c @ b) m)\<rparr>
     | _ \<Rightarrow> d)"

text \<open>\<open>File.Write\<close> reports an error whenever it has not written everything.\<close>

definition Write :: "nat \<Rightarrow> string \<Rightarrow> nat os_call" where
  "Write h b s =
     (let s' = arrive s; fails = os_fails s Transfer (os_calls s);
          n = (if fails then min (os_takes s (os_calls s)) (length b) else length b);
          d = appended (os_disk s') h (take n b);
          s'' = s'\<lparr>os_disk := d, os_history := os_history s @ [d]\<rparr> in
      if fails then (Inl ErrFault, s'') else (Inr n, s''))"

definition ReadAll :: "nat \<Rightarrow> string os_call" where
  "ReadAll h = peek Transfer (\<lambda>d. Inr (file_bytes (dk_nodes d h)))"

fun with_perm :: "file_mode \<Rightarrow> fnode \<Rightarrow> fnode" where
  "with_perm m (RegularFile b _) = RegularFile b m"
| "with_perm m (DirectoryNode _) = DirectoryNode m"
| "with_perm m (SymlinkTo p) = SymlinkTo p"

definition Chmod :: "nat \<Rightarrow> file_mode \<Rightarrow> unit os_call" where
  "Chmod h m = sys Naming (\<lambda>d. (Inr (), d\<lparr>dk_nodes := (dk_nodes d)(h := with_perm m (dk_nodes d h))\<rparr>))"

text \<open>\<open>Sync\<close> and \<open>Close\<close> change nothing a running system can see.\<close>

definition Sync :: "nat \<Rightarrow> unit os_call" where
  "Sync h = peek Flushing (\<lambda>d. Inr ())"

definition Close :: "nat \<Rightarrow> unit os_call" where
  "Close h = peek Flushing (\<lambda>d. Inr ())"

definition Remove :: "path \<Rightarrow> unit os_call" where
  "Remove p = sys Naming (\<lambda>d. if inode d p = None then (Inl ErrNotExist, d)
     else if children d p \<noteq> [] \<or> \<not> parent_ok d p then (Inl ErrFault, d)
     else (Inr (), d\<lparr>dk_names := AList.delete p (dk_names d)\<rparr>))"

definition file_at :: "disk \<Rightarrow> path \<Rightarrow> bool" where
  "file_at d p = (case node d p of None \<Rightarrow> False | Some n \<Rightarrow> \<not> is_dir n)"

definition Rename :: "path \<Rightarrow> path \<Rightarrow> unit os_call" where
  "Rename p q = sys Naming (\<lambda>d. case inode d p of None \<Rightarrow> (Inl ErrNotExist, d)
     | Some i \<Rightarrow> if \<not> file_at d p \<or> \<not> parent_ok d p \<or> \<not> parent_ok d q \<or> (inode d q \<noteq> None \<and> \<not> file_at d q) then (Inl ErrFault, d)
         else (Inr (), d\<lparr>dk_names := AList.update q i (AList.delete p (dk_names d))\<rparr>))"

definition Link :: "path \<Rightarrow> path \<Rightarrow> unit os_call" where
  "Link p q = sys Naming (\<lambda>d. case inode d p of None \<Rightarrow> (Inl ErrNotExist, d)
     | Some i \<Rightarrow> if inode d q \<noteq> None then (Inl ErrExist, d)
         else if \<not> file_at d p \<or> \<not> parent_ok d q then (Inl ErrFault, d)
         else (Inr (), d\<lparr>dk_names := (q, i) # dk_names d\<rparr>))"

definition random_bytes :: "string os_call" where
  "random_bytes s = peek Drawing (\<lambda>d. Inr (os_random s (os_calls s))) s"

section \<open>Reasoning about sequences of calls\<close>

text \<open>
  From a disk with \<open>P\<close>, the call goes only through disks with \<open>I\<close> and ends with \<open>Q\<close>, or with \<open>E\<close> when it
  reports an error, if no other process interferes. \<open>F\<close> are the failures the system may show.
\<close>

definition quiet :: "os \<Rightarrow> bool" where
  "quiet s \<longleftrightarrow> os_env s = (\<lambda>_ d. d)"

definition triple ::
  "(os_op \<Rightarrow> nat \<Rightarrow> bool) \<Rightarrow> (disk \<Rightarrow> bool) \<Rightarrow> (disk \<Rightarrow> bool) \<Rightarrow> 'a os_call \<Rightarrow> ('a \<Rightarrow> disk \<Rightarrow> bool) \<Rightarrow> (disk \<Rightarrow> bool) \<Rightarrow> bool" where
  "triple F I P m Q E \<longleftrightarrow>
     (\<forall>s r s'. os_fails s = F \<and> quiet s \<longrightarrow> P (os_disk s) \<longrightarrow> m s = (r, s') \<longrightarrow>
        os_fails s' = F \<and> quiet s' \<and> (\<exists>new. os_history s' = os_history s @ new \<and> list_all I new) \<and>
        (case r of Inr x \<Rightarrow> Q x (os_disk s') | Inl _ \<Rightarrow> E (os_disk s')))"

lemma tripleD:
  assumes "triple F I P m Q E" "m s = (r, s')" "os_fails s = F \<and> quiet s" "P (os_disk s)"
  shows "os_fails s' = F \<and> quiet s'" "\<exists>new. os_history s' = os_history s @ new \<and> list_all I new"
    "case r of Inr x \<Rightarrow> Q x (os_disk s') | Inl _ \<Rightarrow> E (os_disk s')"
proof -
  have "os_fails s' = F \<and> quiet s' \<and> (\<exists>new. os_history s' = os_history s @ new \<and> list_all I new) \<and>
      (case r of Inr x \<Rightarrow> Q x (os_disk s') | Inl _ \<Rightarrow> E (os_disk s'))"
    using assms(1) [unfolded triple_def, rule_format, OF assms(3,4,2)] .
  then show "os_fails s' = F \<and> quiet s'" "\<exists>new. os_history s' = os_history s @ new \<and> list_all I new"
    "case r of Inr x \<Rightarrow> Q x (os_disk s') | Inl _ \<Rightarrow> E (os_disk s')" by blast+
qed

lemma tripleI:
  assumes "\<And>s r s'. os_fails s = F \<and> quiet s \<Longrightarrow> P (os_disk s) \<Longrightarrow> m s = (r, s') \<Longrightarrow>
    os_fails s' = F \<and> quiet s' \<and> (\<exists>new. os_history s' = os_history s @ new \<and> list_all I new) \<and>
    (case r of Inr x \<Rightarrow> Q x (os_disk s') | Inl _ \<Rightarrow> E (os_disk s'))"
  shows "triple F I P m Q E"
  unfolding triple_def using assms by blast

lemma triple_outcome:
  assumes m: "triple F I P m Q E" and k: "\<And>x. triple F I (Q x) (k (Inr x)) Q' E'" "\<And>e. triple F I E (k (Inl e)) Q' E'"
  shows "triple F I P (on_outcome m k) Q' E'"
proof (rule tripleI)
  fix s r s' assume F: "os_fails s = F \<and> quiet s" and P: "P (os_disk s)" and run: "on_outcome m k s = (r, s')"
  obtain r1 s1 where m1: "m s = (r1, s1)" by fastforce
  with run have k1: "k r1 s1 = (r, s')" by (simp add: on_outcome_def)
  note 1 = tripleD [OF m m1 F P]
  obtain P1 where t: "triple F I P1 (k r1) Q' E'" and p: "P1 (os_disk s1)"
    using 1(3) k by (cases r1) auto
  note 2 = tripleD [OF t k1 1(1) p]
  obtain new1 new2 where n: "os_history s1 = os_history s @ new1" "list_all I new1"
    "os_history s' = os_history s1 @ new2" "list_all I new2" using 1(2) 2(2) by blast
  then have "\<exists>new. os_history s' = os_history s @ new \<and> list_all I new" by (intro exI [of _ "new1 @ new2"]) simp
  then show "os_fails s' = F \<and> quiet s' \<and> (\<exists>new. os_history s' = os_history s @ new \<and> list_all I new) \<and>
      (case r of Inr x \<Rightarrow> Q' x (os_disk s') | Inl _ \<Rightarrow> E' (os_disk s'))"
    using 2(1,3) by blast
qed

lemma triple_give: "(\<And>d. P d \<Longrightarrow> Q x d) \<Longrightarrow> triple F I P (give x) Q E"
  by (rule tripleI) (auto simp: give_def)

lemma triple_refuse: "(\<And>d. P d \<Longrightarrow> E d) \<Longrightarrow> triple F I P (refuse e) Q E"
  by (rule tripleI) (auto simp: refuse_def)

lemma attempt_outcome: "and_then m k = on_outcome m (\<lambda>r. case r of Inl e \<Rightarrow> refuse e | Inr x \<Rightarrow> k x)"
  by (intro ext) (auto simp: and_then_def on_outcome_def refuse_def split: sum.splits prod.splits)

lemma cleaning_outcome: "cleaning m c = on_outcome m (\<lambda>r. case r of Inl e \<Rightarrow> on_outcome c (\<lambda>_. refuse e) | Inr x \<Rightarrow> give x)"
  by (intro ext) (auto simp: cleaning_def on_outcome_def refuse_def give_def split: sum.splits prod.splits)

lemma both_outcome:
  "both m c = on_outcome m (\<lambda>r1. on_outcome c (\<lambda>r2. case r1 of Inl e \<Rightarrow> refuse e
     | Inr _ \<Rightarrow> (case r2 of Inl e \<Rightarrow> refuse e | Inr _ \<Rightarrow> give ())))"
  by (intro ext) (auto simp: both_def on_outcome_def refuse_def give_def Let_def split: sum.splits prod.splits)

lemma triple_and_then:
  assumes "triple F I P m Q E" "\<And>x. triple F I (Q x) (k x) Q' E"
  shows "triple F I P (and_then m k) Q' E"
  unfolding attempt_outcome by (rule triple_outcome [OF assms(1)]) (auto intro: assms(2) triple_refuse)

lemma triple_cleaning:
  assumes "triple F I P m Q E'" "triple F I E' c (\<lambda>_. E) E"
  shows "triple F I P (cleaning m c) Q E"
  unfolding cleaning_outcome
  by (rule triple_outcome [OF assms(1)]) (auto intro!: triple_outcome [OF assms(2)] triple_refuse triple_give)

lemma triple_both:
  assumes "triple F I P m (\<lambda>_. Q) Q" "triple F I Q c (\<lambda>_. R) R"
  shows "triple F I P (both m c) (\<lambda>_. R) R"
  unfolding both_outcome
  by (rule triple_outcome [OF assms(1)]; rule triple_outcome [OF assms(2)])
    (auto intro!: triple_refuse triple_give split: sum.splits)

lemma triple_conseq:
  assumes "triple F I P m Q E" "\<And>d. P' d \<Longrightarrow> P d" "\<And>x d. Q x d \<Longrightarrow> Q' x d" "\<And>d. E d \<Longrightarrow> E' d" "\<And>d. I d \<Longrightarrow> I' d"
  shows "triple F I' P' m Q' E'"
proof (rule tripleI)
  fix s r s' assume F: "os_fails s = F \<and> quiet s" and P: "P' (os_disk s)" and run: "m s = (r, s')"
  note 1 = tripleD [OF assms(1) run F assms(2) [OF P]]
  have "\<exists>new. os_history s' = os_history s @ new \<and> list_all I' new"
    using 1(2) assms(5) by (auto simp: list_all_iff)
  moreover have "case r of Inr x \<Rightarrow> Q' x (os_disk s') | Inl _ \<Rightarrow> E' (os_disk s')"
    using 1(3) assms(3,4) by (cases r) auto
  ultimately show "os_fails s' = F \<and> quiet s' \<and> (\<exists>new. os_history s' = os_history s @ new \<and> list_all I' new) \<and>
      (case r of Inr x \<Rightarrow> Q' x (os_disk s') | Inl _ \<Rightarrow> E' (os_disk s'))"
    using 1(1) by blast
qed

lemma triple_pure: "(X \<Longrightarrow> triple F I P m Q E) \<Longrightarrow> triple F I (\<lambda>d. P d \<and> X) m Q E"
  unfolding triple_def by blast

lemma triple_if: "(b \<Longrightarrow> triple F I P m Q E) \<Longrightarrow> (\<not> b \<Longrightarrow> triple F I P m' Q E) \<Longrightarrow> triple F I P (if b then m else m') Q E"
  by simp

lemma triple_ex: "(\<And>b. triple F I (P b) m Q E) \<Longrightarrow> triple F I (\<lambda>d. \<exists>b. P b d) m Q E"
  unfolding triple_def by blast

text \<open>What follows a look at the disk knows the disk.\<close>

lemma triple_peek_outcome:
  assumes "\<And>r. triple F I (\<lambda>d. P d \<and> (r = f d \<or> r = Inl ErrFault)) (k r) Q E"
  shows "triple F I P (on_outcome (peek op f) k) Q E"
proof (rule tripleI)
  fix s r s' assume F: "os_fails s = F \<and> quiet s" and P: "P (os_disk s)" and run: "on_outcome (peek op f) k s = (r, s')"
  obtain r1 s1 where m1: "peek op f s = (r1, s1)" by fastforce
  with run have k1: "k r1 s1 = (r, s')" by (simp add: on_outcome_def)
  from m1 F have same: "os_disk s1 = os_disk s" "os_history s1 = os_history s" "os_fails s1 = F \<and> quiet s1"
    and r1: "r1 = f (os_disk s) \<or> r1 = Inl ErrFault"
    by (auto simp: peek_def Let_def arrive_def quiet_def split: if_splits)
  from tripleD [OF assms k1 same(3)] P r1 same
  show "os_fails s' = F \<and> quiet s' \<and> (\<exists>new. os_history s' = os_history s @ new \<and> list_all I new) \<and>
      (case r of Inr x \<Rightarrow> Q x (os_disk s') | Inl _ \<Rightarrow> E (os_disk s'))" by auto
qed

lemma triple_peek:
  assumes "\<And>d x. P d \<Longrightarrow> f d = Inr x \<Longrightarrow> Q x d"
    "\<And>d e. P d \<Longrightarrow> (\<exists>k. F op k) \<or> f d = Inl e \<Longrightarrow> E d"
  shows "triple F I P (peek op f) Q E"
proof (rule tripleI)
  fix s r s' assume F: "os_fails s = F \<and> quiet s" and P: "P (os_disk s)" and run: "peek op f s = (r, s')"
  show "os_fails s' = F \<and> quiet s' \<and> (\<exists>new. os_history s' = os_history s @ new \<and> list_all I new) \<and>
      (case r of Inr x \<Rightarrow> Q x (os_disk s') | Inl _ \<Rightarrow> E (os_disk s'))"
  proof (cases "F op (os_calls s)")
    case True
    with assms(2) [OF P] have "E (os_disk s)" using F by blast
    with True run F show ?thesis by (auto simp: peek_def Let_def arrive_def quiet_def)
  next
    case False
    with run F have "r = f (os_disk s)" "os_disk s' = os_disk s" "os_history s' = os_history s" "os_fails s' = F" "quiet s'"
      by (auto simp: peek_def Let_def arrive_def quiet_def)
    with assms [OF P] show ?thesis by (cases "f (os_disk s)") auto
  qed
qed

lemma triple_sys:
  assumes m: "\<And>s. m s = sys op (f s) s"
    and ok: "\<And>s d x d'. P d \<Longrightarrow> f s d = (Inr x, d') \<Longrightarrow> Q x d' \<and> I d'"
    and bad: "\<And>s d e d'. P d \<Longrightarrow> f s d = (Inl e, d') \<Longrightarrow> E d' \<and> I d'" "\<And>d. P d \<Longrightarrow> E d"
  shows "triple F I P m Q E"
proof (rule tripleI)
  fix s r s' assume F: "os_fails s = F \<and> quiet s" and P: "P (os_disk s)" and run: "m s = (r, s')"
  obtain r1 d1 where f: "f s (os_disk s) = (r1, d1)" by fastforce
  show "os_fails s' = F \<and> quiet s' \<and> (\<exists>new. os_history s' = os_history s @ new \<and> list_all I new) \<and>
      (case r of Inr x \<Rightarrow> Q x (os_disk s') | Inl _ \<Rightarrow> E (os_disk s'))"
    using run F P f ok [OF P, of s] bad(1) [OF P, of s] bad(2) [OF P]
    by (cases "F op (os_calls s)"; cases r1) (auto simp: m sys_def Let_def arrive_def quiet_def)
qed

lemma triple_drop: "triple F I P (random_bytes) (\<lambda>_. P) P"
  by (rule tripleI) (auto simp: random_bytes_def peek_def Let_def arrive_def quiet_def split: if_splits)

end
