(* ===== verification/Private_Files.thy ===== *)
theory Private_Files
  imports OS_Files Local_Store
begin

text \<open>
  Files that only the user may read (\<open>internal/privatefs/privatefs.go\<close> with \<open>privatefs_unix.go\<close>), and
  what the stores of the receiver rely on: a write replaces the file at once, with the old content
  or the new one at every moment, whatever fails and whenever the process is killed.
\<close>

section \<open>The Unix side\<close>

definition platformCreatePrivateDirectory :: "path \<Rightarrow> unit os_call" where
  "platformCreatePrivateDirectory p = Mkdir p 0x1C0"

definition platformValidatePrivateDirectory :: "FileInfo \<Rightarrow> unit os_call" where
  "platformValidatePrivateDirectory info =
     (if perm (fi_Node info) \<noteq> 0x1C0 then refuse ErrNotPrivate else give ())"

definition platformOpenNewPrivateFile :: "path \<Rightarrow> file_mode \<Rightarrow> nat os_call" where
  "platformOpenNewPrivateFile p mode = OpenExclusive p (mode AND 0x1FF)"

definition platformValidatePrivateRegularFile :: "FileInfo \<Rightarrow> unit os_call" where
  "platformValidatePrivateRegularFile info =
     (if perm (fi_Node info) AND 0x3F \<noteq> 0 then refuse ErrNotPrivate else give ())"

definition platformValidateContainedRegularFile :: "FileInfo \<Rightarrow> unit os_call" where
  "platformValidateContainedRegularFile info = give ()"

definition platformValidatePrivateFileHandle :: "nat \<Rightarrow> unit os_call" where
  "platformValidatePrivateFileHandle h = and_then (handle_Stat h) platformValidatePrivateRegularFile"

definition platformReplaceFile :: "path \<Rightarrow> path \<Rightarrow> unit os_call" where
  "platformReplaceFile old new = Rename old new"

definition platformPublishNewFile :: "path \<Rightarrow> path \<Rightarrow> unit os_call" where
  "platformPublishNewFile old new = Link old new"

definition platformSyncDirectory :: "path \<Rightarrow> unit os_call" where
  "platformSyncDirectory p = and_then (Open p) (\<lambda>h. both (Sync h) (Close h))"

section \<open>Directories\<close>

definition SyncDirectory :: "path \<Rightarrow> unit os_call" where
  "SyncDirectory p = platformSyncDirectory p"

definition validatePrivateDirectory :: "FileInfo \<Rightarrow> unit os_call" where
  "validatePrivateDirectory info =
     (if is_symlink (fi_Node info) \<or> \<not> is_dir (fi_Node info) then refuse ErrWrongKind
      else platformValidatePrivateDirectory info)"

definition ValidateDirectory :: "path \<Rightarrow> unit os_call" where
  "ValidateDirectory p = and_then (Lstat p) validatePrivateDirectory"

text \<open>
  The two loops of \<open>EnsureDirectory\<close>: up to the first directory that exists, collecting the missing
  ones, and down again creating them. The walk up ends at the root.
\<close>

fun missing_directories :: "path \<Rightarrow> path list \<Rightarrow> path list os_call" where
  "missing_directories p missing =
     on_outcome (Stat p) (\<lambda>r. case r of
       Inr info \<Rightarrow> if \<not> is_dir (fi_Node info) then refuse ErrWrongKind else give missing
     | Inl e \<Rightarrow> if e \<noteq> ErrNotExist then refuse e
         else case p of [] \<Rightarrow> refuse ErrNoParent
              | _ # dir \<Rightarrow> missing_directories dir (p # missing))"

declare missing_directories.simps [simp del]

fun create_directories :: "path list \<Rightarrow> unit os_call" where
  "create_directories [] = give ()"
| "create_directories (p # ps) =
     forgiving ErrExist (platformCreatePrivateDirectory p)
       (and_then (Lstat p) (\<lambda>info. and_then (validatePrivateDirectory info) (\<lambda>_.
         and_then (SyncDirectory (tl p)) (\<lambda>_. create_directories ps))))"

definition EnsureDirectory :: "path \<Rightarrow> unit os_call" where
  "EnsureDirectory p =
     on_outcome (Lstat p) (\<lambda>r. case r of
       Inr info \<Rightarrow> validatePrivateDirectory info
     | Inl e \<Rightarrow> if e \<noteq> ErrNotExist then refuse e
         else and_then (missing_directories p []) create_directories)"

definition CreateDirectory :: "path \<Rightarrow> unit os_call" where
  "CreateDirectory p =
     and_then (platformCreatePrivateDirectory p) (\<lambda>_. and_then (Lstat p) (\<lambda>info.
       and_then (cleaning (validatePrivateDirectory info) (Remove p)) (\<lambda>_.
         cleaning (SyncDirectory (tl p)) (Remove p))))"

section \<open>Files\<close>

definition OpenNewFile :: "path \<Rightarrow> file_mode \<Rightarrow> nat os_call" where
  "OpenNewFile p mode = platformOpenNewPrivateFile p mode"

definition validatePrivateRegularFile :: "FileInfo \<Rightarrow> unit os_call" where
  "validatePrivateRegularFile info =
     (if is_symlink (fi_Node info) \<or> \<not> is_regular (fi_Node info) then refuse ErrWrongKind
      else platformValidatePrivateRegularFile info)"

definition ValidateRegularFile :: "path \<Rightarrow> unit os_call" where
  "ValidateRegularFile p = and_then (Lstat p) validatePrivateRegularFile"

definition ValidateContainedRegularFile :: "path \<Rightarrow> unit os_call" where
  "ValidateContainedRegularFile p =
     and_then (ValidateDirectory (tl p)) (\<lambda>_. and_then (Lstat p) (\<lambda>info.
       if is_symlink (fi_Node info) \<or> \<not> is_regular (fi_Node info) then refuse ErrWrongKind
       else platformValidateContainedRegularFile info))"

text \<open>The loop of \<open>writeAndClose\<close>: every round writes at least one byte or ends.\<close>

fun write_rounds :: "nat \<Rightarrow> path \<Rightarrow> nat \<Rightarrow> string \<Rightarrow> unit os_call" where
  "write_rounds 0 p h b = give ()"
| "write_rounds (Suc n) p h b =
     (if b = [] then give ()
      else and_then (cleaning (Write h b) (both (Close h) (Remove p))) (\<lambda>written.
        if written = 0 then cleaning (refuse ErrShortWrite) (both (Close h) (Remove p))
        else write_rounds n p h (drop written b)))"

definition writeAndClose :: "path \<Rightarrow> nat \<Rightarrow> string \<Rightarrow> unit os_call" where
  "writeAndClose p h payload =
     and_then (write_rounds (Suc (length payload)) p h payload) (\<lambda>_.
       and_then (cleaning (Sync h) (both (Close h) (Remove p))) (\<lambda>_.
         cleaning (Close h) (Remove p)))"

fun temporary_attempts :: "nat \<Rightarrow> path \<Rightarrow> string \<Rightarrow> file_mode \<Rightarrow> (path \<times> nat) os_call" where
  "temporary_attempts 0 dir pre mode = refuse ErrNoTemporary"
| "temporary_attempts (Suc n) dir pre mode =
     and_then random_bytes (\<lambda>random.
       let p = (pre @ hex_encode random) # dir in
       on_outcome (OpenNewFile p mode) (\<lambda>r. case r of
         Inr h \<Rightarrow> give (p, h)
       | Inl e \<Rightarrow> if e \<noteq> ErrExist then refuse e else temporary_attempts n dir pre mode))"

definition createTemporary :: "path \<Rightarrow> string \<Rightarrow> file_mode \<Rightarrow> (path \<times> nat) os_call" where
  "createTemporary dir pre mode = temporary_attempts 100 dir pre mode"

definition WriteNewFile :: "path \<Rightarrow> string \<Rightarrow> file_mode \<Rightarrow> unit os_call" where
  "WriteNewFile p payload mode =
     and_then (OpenNewFile p mode) (\<lambda>h. and_then (writeAndClose p h payload) (\<lambda>_.
       and_then (cleaning (ValidateRegularFile p) (Remove p)) (\<lambda>_.
         cleaning (SyncDirectory (tl p)) (Remove p))))"

definition ReplaceFile :: "path \<Rightarrow> path \<Rightarrow> unit os_call" where
  "ReplaceFile old new =
     and_then (platformReplaceFile old new) (\<lambda>_. cleaning (ValidateRegularFile new) (Remove new))"

definition temporary_prefix :: "path \<Rightarrow> string" where
  "temporary_prefix p = ''.'' @ (case p of [] \<Rightarrow> ''/'' | base # _ \<Rightarrow> base) @ ''.private-''"

text \<open>The deferred removal of the temporary file runs until \<open>removeTemporary\<close> is cleared.\<close>

definition AtomicWriteFile :: "path \<Rightarrow> string \<Rightarrow> file_mode \<Rightarrow> unit os_call" where
  "AtomicWriteFile p payload mode =
     and_then (EnsureDirectory (tl p)) (\<lambda>_.
       and_then (createTemporary (tl p) (temporary_prefix p) mode) (\<lambda>(temporary, h).
         and_then (cleaning (and_then (writeAndClose temporary h payload) (\<lambda>_. ReplaceFile temporary p)) (Remove temporary)) (\<lambda>_.
           SyncDirectory (tl p))))"

definition AtomicWriteNewFile :: "path \<Rightarrow> string \<Rightarrow> file_mode \<Rightarrow> unit os_call" where
  "AtomicWriteNewFile p payload mode =
     and_then (EnsureDirectory (tl p)) (\<lambda>_.
       and_then (createTemporary (tl p) (temporary_prefix p) mode) (\<lambda>(temporary, h).
         and_then (cleaning
             (and_then (writeAndClose temporary h payload) (\<lambda>_.
               and_then (platformPublishNewFile temporary p) (\<lambda>_.
                 forgiving ErrNotExist (Remove temporary) (give ()))))
             (Remove temporary)) (\<lambda>_.
           and_then (cleaning (ValidateRegularFile p) (Remove p)) (\<lambda>_.
             SyncDirectory (tl p)))))"

definition ReadFile :: "path \<Rightarrow> string os_call" where
  "ReadFile p =
     and_then (ValidateDirectory (tl p)) (\<lambda>_. and_then (Lstat p) (\<lambda>before.
       and_then (validatePrivateRegularFile before) (\<lambda>_. and_then (Open p) (\<lambda>h.
         and_then (cleaning (platformValidatePrivateFileHandle h) (Close h)) (\<lambda>_.
           on_outcome (handle_Stat h) (\<lambda>opened.
             if (case opened of Inl _ \<Rightarrow> True | Inr i \<Rightarrow> \<not> SameFile before i)
             then cleaning (refuse ErrChanged) (Close h)
             else on_outcome (ReadAll h) (\<lambda>payload. on_outcome (Close h) (\<lambda>closed.
               case payload of Inl e \<Rightarrow> refuse e
               | Inr b \<Rightarrow> (case closed of Inl e \<Rightarrow> refuse e
                 | Inr _ \<Rightarrow> on_outcome (Lstat p) (\<lambda>after.
                     if (case after of Inl _ \<Rightarrow> True | Inr i \<Rightarrow> \<not> SameFile before i)
                     then refuse ErrChanged else give b))))))))))"

end
