(* ===== verification/Artifact_Manager.thy ===== *)
theory Artifact_Manager
  imports Private_Files Runtime_Helpers Collab_Validate
begin

text \<open>
  The directories in which a request's attachments and deliverables live on the recipient's machine
  (\<open>internal/artifact/manager.go\<close>), on the files of \<open>OS_Files\<close>.

  A handle of Go's \<open>os.Root\<close> is the path it was opened at. \<open>fetch\<close> is the relay client, \<open>type_of\<close> and
  \<open>detect\<close> are \<open>mime.TypeByExtension\<close> and \<open>http.DetectContentType\<close>, \<open>encode\<close> is base64 encoding. Errors that
  only differ in their text are \<open>ErrText\<close>.
\<close>

section \<open>Names and types\<close>

definition validateFilename :: "('l) golib_scheme \<Rightarrow> string \<Rightarrow> (path_error, unit) result" where
  "validateFilename L name = ValidatePortableFilename L name"

definition sensitive_names :: "string list" where
  "sensitive_names =
     [''.env'', ''.netrc'', ''.npmrc'', ''.pypirc'', ''.gitconfig'', ''.git-credentials'',
      ''credentials'', ''credentials.json'', ''id_rsa'', ''id_ed25519'', ''known_hosts'', ''authorized_keys'']"

definition sensitiveFilename :: "('l) golib_scheme \<Rightarrow> string \<Rightarrow> bool" where
  "sensitiveFilename L name =
     (let lower = ToLower L name in
      if lower \<in> set sensitive_names then True
      else if HasPrefix lower ''.env.'' then True
      else list_ex (HasSuffix lower) [''.pem'', ''.key'', ''.p12'', ''.pfx'', ''.kdbx''])"

definition forbiddenDeliverable :: "('l) golib_scheme \<Rightarrow> string \<Rightarrow> bool" where
  "forbiddenDeliverable L name =
     (let lower = ToLower L name in
      list_ex (HasSuffix lower)
        [''.exe'', ''.com'', ''.bat'', ''.cmd'', ''.ps1'', ''.sh'', ''.msi'', ''.app'', ''.zip'', ''.tar'', ''.tgz'',
         ''.gz'', ''.bz2'', ''.xz'', ''.7z'', ''.rar''])"

definition textualMIME :: "('l) golib_scheme \<Rightarrow> string \<Rightarrow> bool" where
  "textualMIME L value =
     (let mediaType = ToLower L (TrimSpace (takeWhile (\<lambda>c. c \<noteq> CHR '';'') value)) in
      HasPrefix mediaType ''text/'' \<or>
      mediaType \<in> set [''application/json'', ''application/xml'', ''application/yaml'', ''application/x-yaml'',
        ''application/javascript''])"

text \<open>\<open>filepath.Ext\<close>: from the last dot, if the name has one.\<close>

definition Ext :: "string \<Rightarrow> string" where
  "Ext name = (if CHR ''.'' \<in> set name then CHR ''.'' # rev (takeWhile (\<lambda>c. c \<noteq> CHR ''.'') (rev name)) else [])"

section \<open>What the relay sends\<close>

datatype descriptor_error =
    DescriptorNoID | DescriptorName path_error | DescriptorSize | DescriptorDigest | DescriptorDuplicateID
  | DescriptorDuplicateName | DescriptorTotal

fun check_descriptors ::
  "('l) golib_scheme \<Rightarrow> string list \<Rightarrow> string list \<Rightarrow> int \<Rightarrow> ArtifactDescriptor list \<Rightarrow> (descriptor_error, unit) result" where
  "check_descriptors L ids names tot [] = Inr ()"
| "check_descriptors L ids names tot (d # ds) =
     (if TrimSpace (ad_ArtifactID d) = [] then Inl DescriptorNoID
      else case validateFilename L (ad_Name d) of Inl e \<Rightarrow> Inl (DescriptorName e) | Inr _ \<Rightarrow>
        if ad_SizeBytes d < 0 \<or> MaxAttachmentBytes < ad_SizeBytes d then Inl DescriptorSize
        else if length (ad_SHA256 d) \<noteq> 64 then Inl DescriptorDigest
        else if \<not> hex_ok (ad_SHA256 d) then Inl DescriptorDigest
        else let nameKey = ToLower L (ad_Name d) in
          if ad_ArtifactID d \<in> set ids then Inl DescriptorDuplicateID
          else if nameKey \<in> set names then Inl DescriptorDuplicateName
          else let tot' = i64 (tot + ad_SizeBytes d) in
            if MaxRequestPayloadBytes < tot' then Inl DescriptorTotal
            else check_descriptors L (ad_ArtifactID d # ids) (nameKey # names) tot' ds)"

definition validateDescriptors :: "('l) golib_scheme \<Rightarrow> ArtifactDescriptor list \<Rightarrow> (descriptor_error, unit) result" where
  "validateDescriptors L ds = check_descriptors L [] [] 0 ds"

datatype content_error = ContentMetadata | ContentEncoding | ContentDecode | ContentSize | ContentDigest

definition verifyContent ::
  "('l) golib_scheme \<Rightarrow> ArtifactDescriptor \<Rightarrow> ArtifactContent option \<Rightarrow> (content_error, string) result" where
  "verifyContent L expected content =
     (case content of None \<Rightarrow> Inl ContentMetadata | Some c \<Rightarrow>
      if ac_Descriptor c \<noteq> expected then Inl ContentMetadata
      else if ac_Encoding c \<noteq> ''base64'' then Inl ContentEncoding
      else case base64_decode L (ac_ContentBase64 c) of None \<Rightarrow> Inl ContentDecode | Some payload \<Rightarrow>
        if int (length payload) \<noteq> ad_SizeBytes expected \<or> MaxAttachmentBytes < int (length payload) then Inl ContentSize
        else if \<not> EqualFold L (sha256_hex L payload) (ad_SHA256 expected) then Inl ContentDigest
        else Inr payload)"

section \<open>Managers and sandboxes\<close>

text \<open>\<open>mg_open\<close> is false for a nil manager.\<close>

record Manager =
  mg_basePath :: path
  mg_open :: bool

record SandboxFiles =
  sf_Root :: path
  sf_Attachments :: "path list"
  sf_ReturnDirectory :: path
  sf_name :: string
  sf_returnInfo :: "FileInfo option"

definition requestDirectoryPrefix :: string where
  "requestDirectoryPrefix = ''request-''"

text \<open>\<open>os.OpenRoot\<close>.\<close>

definition OpenRoot :: "path \<Rightarrow> unit os_call" where
  "OpenRoot p = and_then (Open p) (\<lambda>h. and_then (handle_Stat h) (\<lambda>info.
     if is_dir (fi_Node info) then give () else refuse ErrWrongKind))"

text \<open>\<open>blank\<close>: the configured path is blank; \<open>resolved\<close>: what \<open>EvalSymlinks\<close> makes of the path.\<close>

definition NewManager :: "bool \<Rightarrow> path \<Rightarrow> path option \<Rightarrow> Manager os_call" where
  "NewManager blank basePath resolved =
     (if blank then refuse (ErrText ''artifact runtime directory is required'')
      else and_then (EnsureDirectory basePath) (\<lambda>_. case resolved of None \<Rightarrow> refuse ErrFault | Some r \<Rightarrow>
        and_then (ValidateDirectory r) (\<lambda>_. on_outcome (Stat r) (\<lambda>info.
          if (case info of Inl _ \<Rightarrow> True | Inr i \<Rightarrow> \<not> is_dir (fi_Node i)) then refuse ErrWrongKind
          else and_then (OpenRoot r) (\<lambda>_. give \<lparr>mg_basePath = r, mg_open = True\<rparr>)))))"

fun request_directory_attempts :: "nat \<Rightarrow> path \<Rightarrow> string os_call" where
  "request_directory_attempts 0 base = refuse (ErrText ''could not allocate a unique request artifact directory'')"
| "request_directory_attempts (Suc n) base =
     and_then random_bytes (\<lambda>random.
       let name = requestDirectoryPrefix @ hex_encode random in
       on_outcome (CreateDirectory (name # base)) (\<lambda>r. case r of
         Inr _ \<Rightarrow> give name
       | Inl e \<Rightarrow> if e \<noteq> ErrExist then refuse e else request_directory_attempts n base))"

definition createRequestDirectory :: "Manager \<Rightarrow> string os_call" where
  "createRequestDirectory m = request_directory_attempts 10 (mg_basePath m)"

definition validateSandbox :: "Manager \<Rightarrow> SandboxFiles \<Rightarrow> bool" where
  "validateSandbox m sb \<longleftrightarrow>
     \<not> (\<not> mg_open m \<or> \<not> HasPrefix (sf_name sb) requestDirectoryPrefix \<or> \<not> fs_ValidPath (sf_name sb) \<or>
        ContainsAny (sf_name sb) [CHR ''/'', CHR 0x5C] \<or>
        sf_Root sb \<noteq> sf_name sb # mg_basePath m \<or>
        sf_ReturnDirectory sb \<noteq> ''return-files'' # sf_name sb # mg_basePath m)"

section \<open>Removing a directory\<close>

text \<open>
  \<open>removeAll\<close> and its loop over the entries. \<open>depth\<close> bounds the levels of directories; it is never
  reached on a disk with less (\<open>Artifact_Theorems\<close>).
\<close>

fun remove_entries :: "(path \<Rightarrow> unit os_call) \<Rightarrow> path \<Rightarrow> string list \<Rightarrow> unit os_call" where
  "remove_entries remove p [] = give ()"
| "remove_entries remove p (n # ns) = and_then (remove (n # p)) (\<lambda>_. remove_entries remove p ns)"

definition ReadDir :: "path \<Rightarrow> string list os_call" where
  "ReadDir p = peek Transfer (\<lambda>d. Inr (sort (children d p)))"

fun removeAll_at :: "nat \<Rightarrow> path \<Rightarrow> unit os_call" where
  "removeAll_at 0 p = refuse (ErrText ''depth'')"
| "removeAll_at (Suc depth) p =
     on_outcome (Lstat p) (\<lambda>r. case r of
       Inl e \<Rightarrow> if e = ErrNotExist then give () else refuse e
     | Inr info \<Rightarrow>
         if is_symlink (fi_Node info) \<or> \<not> is_dir (fi_Node info) then Remove p
         else and_then (Open p) (\<lambda>h. and_then (cleaning (Chmod h 0x1C0) (Close h)) (\<lambda>_. and_then (Close h) (\<lambda>_.
           and_then (OpenRoot p) (\<lambda>_. on_outcome (and_then (ReadDir p) (remove_entries (removeAll_at depth) p)) (\<lambda>rd.
             on_outcome (Close h) (\<lambda>closed. case rd of Inl e \<Rightarrow> refuse e | Inr _ \<Rightarrow>
               (case closed of Inl e \<Rightarrow> refuse e | Inr _ \<Rightarrow> Remove p))))))))"

definition Cleanup :: "nat \<Rightarrow> Manager \<Rightarrow> SandboxFiles \<Rightarrow> unit os_call" where
  "Cleanup depth m sb =
     (if \<not> validateSandbox m sb then refuse (ErrText ''artifact sandbox is not owned by this manager'')
      else removeAll_at depth (sf_name sb # mg_basePath m))"

section \<open>Fetching attachments\<close>

fun fetch_attachments ::
  "('l) golib_scheme \<Rightarrow> (string \<Rightarrow> (unit, ArtifactContent option) result) \<Rightarrow> path \<Rightarrow> string list \<Rightarrow> path list \<Rightarrow>
   ArtifactDescriptor list \<Rightarrow> path list os_call" where
  "fetch_attachments L fetch root seen attached [] = give attached"
| "fetch_attachments L fetch root seen attached (d # ds) =
     (let key = ToLower L (ad_Name d) in
      if key \<in> set seen then refuse (ErrText ''duplicate attachment filename'')
      else case fetch (ad_ArtifactID d) of Inl _ \<Rightarrow> refuse (ErrText ''fetch attachment'') | Inr content \<Rightarrow>
        (case verifyContent L d content of Inl _ \<Rightarrow> refuse (ErrText ''verify attachment'') | Inr payload \<Rightarrow>
          let absolute = ad_Name d # ''attachments'' # root in
          and_then (OpenNewFile absolute 0x100) (\<lambda>h.
          and_then (cleaning (Write h payload) (Close h)) (\<lambda>_.
          and_then (cleaning (Chmod h 0x100) (Close h)) (\<lambda>_.
          and_then (cleaning (Sync h) (Close h)) (\<lambda>_.
          and_then (Close h) (\<lambda>_.
          and_then (ValidateRegularFile absolute) (\<lambda>_.
            fetch_attachments L fetch root (key # seen) (attached @ [absolute]) ds))))))))"

definition fill_directories :: "path list os_call \<Rightarrow> SandboxFiles \<Rightarrow> SandboxFiles os_call" where
  "fill_directories fetched sb =
     (let attachments = ''attachments'' # sf_Root sb in
      and_then (CreateDirectory attachments) (\<lambda>_.
      and_then (CreateDirectory (sf_ReturnDirectory sb)) (\<lambda>_.
      and_then (Lstat (sf_ReturnDirectory sb)) (\<lambda>returnInfo.
        if is_symlink (fi_Node returnInfo) \<or> \<not> is_dir (fi_Node returnInfo) then refuse ErrWrongKind
        else and_then fetched (\<lambda>attached.
          and_then (SyncDirectory attachments) (\<lambda>_.
          and_then (Open attachments) (\<lambda>h.
          and_then (cleaning (Chmod h 0x140) (Close h)) (\<lambda>_.
          and_then (cleaning (Sync h) (Close h)) (\<lambda>_.
          and_then (Close h) (\<lambda>_.
            give (sb\<lparr>sf_Attachments := attached, sf_returnInfo := Some returnInfo\<rparr>)))))))))))"

definition fill_sandbox ::
  "('l) golib_scheme \<Rightarrow> (string \<Rightarrow> (unit, ArtifactContent option) result) \<Rightarrow> ArtifactDescriptor list \<Rightarrow> SandboxFiles \<Rightarrow>
   SandboxFiles os_call" where
  "fill_sandbox L fetch ds sb = fill_directories (fetch_attachments L fetch (sf_Root sb) [] [] ds) sb"

text \<open>\<open>have_fetcher\<close>: the fetcher is not nil. A sandbox that could not be filled is removed again.\<close>

definition Materialize ::
  "('l) golib_scheme \<Rightarrow> nat \<Rightarrow> bool \<Rightarrow> (string \<Rightarrow> (unit, ArtifactContent option) result) \<Rightarrow> Manager \<Rightarrow>
   ArtifactDescriptor list \<Rightarrow> SandboxFiles os_call" where
  "Materialize L depth have_fetcher fetch m ds =
     (if \<not> mg_open m then refuse (ErrText ''artifact manager is unavailable'')
      else if MaxAttachments < length ds then refuse (ErrText ''too many attachments'')
      else if ds \<noteq> [] \<and> \<not> have_fetcher then refuse (ErrText ''artifact fetcher is required'')
      else if validateDescriptors L ds \<noteq> Inr () then refuse (ErrText ''attachment descriptors'')
      else and_then (createRequestDirectory m) (\<lambda>name.
        let sb = \<lparr>sf_Root = name # mg_basePath m, sf_Attachments = [],
                  sf_ReturnDirectory = ''return-files'' # name # mg_basePath m, sf_name = name, sf_returnInfo = None\<rparr>
        in cleaning (fill_sandbox L fetch ds sb) (Cleanup depth m sb)))"

section \<open>Collecting deliverables\<close>

definition validateOwnedReturnRoot :: "SandboxFiles \<Rightarrow> Manager \<Rightarrow> unit os_call" where
  "validateOwnedReturnRoot sb m =
     (let p = ''return-files'' # sf_name sb # mg_basePath m in
      case sf_returnInfo sb of None \<Rightarrow> refuse (ErrText ''identity is unavailable'') | Some returnInfo \<Rightarrow>
      on_outcome (Stat p) (\<lambda>openedInfo. on_outcome (Lstat p) (\<lambda>current.
        case openedInfo of Inl _ \<Rightarrow> refuse ErrChanged | Inr opened \<Rightarrow>
        (case current of Inl _ \<Rightarrow> refuse ErrChanged | Inr now \<Rightarrow>
          if is_symlink (fi_Node now) \<or> \<not> is_dir (fi_Node now) \<or>
             \<not> SameFile returnInfo opened \<or> \<not> SameFile returnInfo now then refuse ErrChanged
          else give ()))))"

definition openOwnedReturnRoot :: "SandboxFiles \<Rightarrow> Manager \<Rightarrow> unit os_call" where
  "openOwnedReturnRoot sb m =
     (let p = ''return-files'' # sf_name sb # mg_basePath m in
      case sf_returnInfo sb of None \<Rightarrow> refuse (ErrText ''identity is unavailable'') | Some returnInfo \<Rightarrow>
      on_outcome (Lstat p) (\<lambda>current.
        if (case current of Inl _ \<Rightarrow> True
            | Inr i \<Rightarrow> is_symlink (fi_Node i) \<or> \<not> is_dir (fi_Node i) \<or> \<not> SameFile returnInfo i) then refuse ErrChanged
        else and_then (ValidateDirectory (sf_ReturnDirectory sb)) (\<lambda>_. and_then (OpenRoot p) (\<lambda>_.
          validateOwnedReturnRoot sb m))))"

text \<open>\<open>io.ReadAll\<close> of a limited reader.\<close>

definition ReadLimited :: "nat \<Rightarrow> nat \<Rightarrow> string os_call" where
  "ReadLimited h limit = peek Transfer (\<lambda>d. Inr (take limit (file_bytes (dk_nodes d h))))"

record mime_library =
  type_of :: "string \<Rightarrow> string"
  detect :: "string \<Rightarrow> string"
  encode :: "string \<Rightarrow> string"

definition collect_one ::
  "('l) golib_scheme \<Rightarrow> mime_library \<Rightarrow> SandboxFiles \<Rightarrow> path \<Rightarrow> int \<Rightarrow> string \<Rightarrow> (int \<times> AttachmentInput) os_call" where
  "collect_one L ml sb returnRoot tot name =
     (if validateFilename L name \<noteq> Inr () then refuse (ErrText ''invalid returned filename'')
      else if sensitiveFilename L name then refuse (ErrText ''sensitive-file policy'')
      else if forbiddenDeliverable L name then refuse (ErrText ''archive or executable'')
      else and_then (Lstat (name # returnRoot)) (\<lambda>before.
        if is_symlink (fi_Node before) \<or> \<not> is_regular (fi_Node before) then refuse ErrWrongKind
        else and_then (ValidateContainedRegularFile (name # sf_ReturnDirectory sb)) (\<lambda>_.
          if perm (fi_Node before) AND 0x49 \<noteq> 0 then refuse (ErrText ''executable'')
          else if MaxAttachmentBytes < int (length (file_bytes (fi_Node before))) then refuse (ErrText ''size'')
          else and_then (Open (name # returnRoot)) (\<lambda>h. on_outcome (handle_Stat h) (\<lambda>opened.
            if (case opened of Inl _ \<Rightarrow> True | Inr i \<Rightarrow> \<not> is_regular (fi_Node i) \<or> \<not> SameFile before i)
            then cleaning (refuse ErrChanged) (Close h)
            else on_outcome (ReadLimited h (nat (MaxAttachmentBytes + 1))) (\<lambda>rd. on_outcome (Close h) (\<lambda>closed.
              case rd of Inl e \<Rightarrow> refuse e | Inr payload \<Rightarrow>
              (case closed of Inl e \<Rightarrow> refuse e | Inr _ \<Rightarrow>
              on_outcome (Lstat (name # returnRoot)) (\<lambda>after.
                if (case after of Inl _ \<Rightarrow> True | Inr i \<Rightarrow> is_symlink (fi_Node i) \<or> \<not> SameFile before i) then refuse ErrChanged
                else if MaxAttachmentBytes < int (length payload) then refuse (ErrText ''size'')
                else let tot' = i64 (tot + int (length payload)) in
                  if MaxRequestPayloadBytes < tot' then refuse (ErrText ''total'')
                  else let ext = type_of ml (ToLower L (Ext name)); mimeType = (if ext = [] then detect ml payload else ext) in
                    if textualMIME L mimeType \<and> RedactSensitiveText payload \<noteq> payload then refuse (ErrText ''credential-shaped'')
                    else give (tot',
                      \<lparr>ai_Name = name, ai_MIMEType = mimeType, ai_Encoding = ''base64'', ai_SizeBytes = int (length payload),
                       ai_SHA256 = sha256_hex L payload, ai_ContentBase64 = encode ml payload\<rparr>))))))))))"

fun collect_loop ::
  "('l) golib_scheme \<Rightarrow> mime_library \<Rightarrow> SandboxFiles \<Rightarrow> path \<Rightarrow> int \<Rightarrow> string list \<Rightarrow> AttachmentInput list os_call" where
  "collect_loop L ml sb returnRoot tot [] = give []"
| "collect_loop L ml sb returnRoot tot (name # names) =
     and_then (collect_one L ml sb returnRoot tot name) (\<lambda>(tot', file).
       and_then (collect_loop L ml sb returnRoot tot' names) (\<lambda>files. give (file # files)))"

definition CollectResults ::
  "('l) golib_scheme \<Rightarrow> mime_library \<Rightarrow> Manager \<Rightarrow> SandboxFiles \<Rightarrow> AttachmentInput list os_call" where
  "CollectResults L ml m sb =
     (if \<not> validateSandbox m sb then refuse (ErrText ''artifact sandbox is not owned by this manager'')
      else let returnRoot = ''return-files'' # sf_name sb # mg_basePath m in
        and_then (openOwnedReturnRoot sb m) (\<lambda>_. and_then (ReadDir returnRoot) (\<lambda>entries.
          if MaxAttachments < length entries then refuse (ErrText ''too many files'')
          else and_then (collect_loop L ml sb returnRoot 0 entries) (\<lambda>results.
            and_then (validateOwnedReturnRoot sb m) (\<lambda>_. give results)))))"

end
