(* ===== verification/Private_Files_Theorems.thy ===== *)
theory Private_Files_Theorems
  imports Private_Files
begin

text \<open>
  What a write of a private file does to the disk: until the rename everything that was there is
  as it was, and after it the new content is in place. A store of the receiver sees one of the
  outcomes \<open>write_outcome\<close> names.
\<close>

section \<open>The phases of a write\<close>

definition wf_disk :: "disk \<Rightarrow> bool" where
  "wf_disk d \<longleftrightarrow> (\<forall>q i. inode d q = Some i \<longrightarrow> i < dk_next d)"

definition same_at :: "disk \<Rightarrow> disk \<Rightarrow> path \<Rightarrow> bool" where
  "same_at d0 d q \<longleftrightarrow> (\<forall>i. inode d0 q = Some i \<longrightarrow> inode d q = Some i \<and> dk_nodes d i = dk_nodes d0 i)"

definition still :: "disk \<Rightarrow> path \<Rightarrow> disk \<Rightarrow> bool" where
  "still d0 p d \<longleftrightarrow> wf_disk d0 \<and> wf_disk d \<and> dk_next d0 \<le> dk_next d \<and> inode d p = inode d0 p \<and> (\<forall>q. same_at d0 d q)"

definition staged :: "disk \<Rightarrow> path \<Rightarrow> path \<Rightarrow> nat \<Rightarrow> string \<Rightarrow> disk \<Rightarrow> bool" where
  "staged d0 p t h b d \<longleftrightarrow> still d0 p d \<and> t \<noteq> p \<and> inode d0 t = None \<and> dk_next d0 \<le> h \<and> inode d t = Some h \<and>
     (\<exists>m. dk_nodes d h = RegularFile b m \<and> m AND 0x3F = 0)"

definition staging :: "disk \<Rightarrow> path \<Rightarrow> path \<Rightarrow> nat \<Rightarrow> disk \<Rightarrow> bool" where
  "staging d0 p t h d \<longleftrightarrow> still d0 p d \<and> t \<noteq> p \<and> inode d0 t = None \<and> dk_next d0 \<le> h"

definition published :: "disk \<Rightarrow> path \<Rightarrow> string \<Rightarrow> disk \<Rightarrow> bool" where
  "published d0 p b d \<longleftrightarrow> (\<exists>i m. inode d p = Some i \<and> dk_nodes d i = RegularFile b m \<and> m AND 0x3F = 0) \<and>
     (\<forall>q. q \<noteq> p \<longrightarrow> same_at d0 d q)"

definition untorn :: "disk \<Rightarrow> path \<Rightarrow> string \<Rightarrow> disk \<Rightarrow> bool" where
  "untorn d0 p b d \<longleftrightarrow> still d0 p d \<or> published d0 p b d"

text \<open>The file is gone, everything else is there; this needs a lookup that fails.\<close>

definition lost :: "disk \<Rightarrow> path \<Rightarrow> disk \<Rightarrow> bool" where
  "lost d0 p d \<longleftrightarrow> inode d p = None \<and> (\<forall>q. q \<noteq> p \<longrightarrow> same_at d0 d q)"

definition withdrawn :: "(os_op \<Rightarrow> nat \<Rightarrow> bool) \<Rightarrow> disk \<Rightarrow> path \<Rightarrow> string \<Rightarrow> disk \<Rightarrow> bool" where
  "withdrawn F d0 p b d \<longleftrightarrow> (\<exists>k. F Lookup k) \<and> (published d0 p b d \<or> lost d0 p d)"

definition settled :: "(os_op \<Rightarrow> nat \<Rightarrow> bool) \<Rightarrow> disk \<Rightarrow> path \<Rightarrow> string \<Rightarrow> disk \<Rightarrow> bool" where
  "settled F d0 p b d \<longleftrightarrow> untorn d0 p b d \<or> withdrawn F d0 p b d"

lemmas phase_defs = wf_disk_def same_at_def still_def staged_def staging_def published_def

lemma staged_still: "staged d0 p t h b d \<Longrightarrow> still d0 p d"
  by (simp add: staged_def)

lemma staged_staging: "staged d0 p t h b d \<Longrightarrow> staging d0 p t h d"
  by (simp add: staged_def staging_def)

lemma staging_still: "staging d0 p t h d \<Longrightarrow> still d0 p d"
  by (simp add: staging_def)

section \<open>The calls in each phase\<close>

lemma still_old: "still d0 p d \<Longrightarrow> inode d0 q = Some i \<Longrightarrow> i < dk_next d0 \<and> inode d q = Some i \<and> dk_nodes d i = dk_nodes d0 i"
  by (auto simp: still_def same_at_def wf_disk_def)

lemma still_new:
  assumes s: "still d0 p d" and q: "q \<noteq> p" "inode d q = None"
  shows "still d0 p (new_name d q n)"
proof -
  have "same_at d0 (new_name d q n) r" for r
  proof (unfold same_at_def, intro allI impI)
    fix i assume i: "inode d0 r = Some i"
    with s have r: "inode d r = Some i" "dk_nodes d i = dk_nodes d0 i" "i < dk_next d"
      using still_old [OF s i] s by (auto simp: still_def)
    with q show "inode (new_name d q n) r = Some i \<and> dk_nodes (new_name d q n) i = dk_nodes d0 i"
      by (auto simp: new_name_def inode_def)
  qed
  with s q show ?thesis by (auto simp: still_def wf_disk_def new_name_def inode_def less_SucI)
qed

lemma Mkdir_still:
  assumes "q \<noteq> p" "\<And>d. still d0 p d \<Longrightarrow> I d"
  shows "triple F I (still d0 p) (Mkdir q m) (\<lambda>_. still d0 p) (still d0 p)"
  by (rule triple_sys [OF Mkdir_def]) (auto intro: assms(2) still_new [OF _ assms(1)] split: if_splits)

lemma look_same: "triple F I P (peek op f) (\<lambda>_. P) P"
  by (rule triple_peek) auto

lemma look_calls:
  "triple F I P (Lstat q) (\<lambda>_. P) P" "triple F I P (Stat q) (\<lambda>_. P) P" "triple F I P (Open q) (\<lambda>_. P) P"
  "triple F I P (handle_Stat h) (\<lambda>_. P) P" "triple F I P (Sync h) (\<lambda>_. P) P" "triple F I P (Close h) (\<lambda>_. P) P"
  "triple F I P random_bytes (\<lambda>_. P) P"
  by (simp_all add: Lstat_def Stat_def Open_def handle_Stat_def Sync_def Close_def look_same triple_drop)

lemma SyncDirectory_same: "triple F I P (SyncDirectory q) (\<lambda>_. P) P"
  unfolding SyncDirectory_def platformSyncDirectory_def
  by (rule triple_and_then [OF look_calls(3) triple_both [OF look_calls(5,6)]])

lemma validate_same:
  "triple F I P (validatePrivateDirectory info) (\<lambda>_. P) P"
  "triple F I P (validatePrivateRegularFile info) (\<lambda>_. P) P"
  by (auto simp: validatePrivateDirectory_def platformValidatePrivateDirectory_def
      validatePrivateRegularFile_def platformValidatePrivateRegularFile_def intro: triple_give triple_refuse)

text \<open>The missing directories are the path itself and directories above it.\<close>

lemma missing_same:
  "\<forall>q \<in> set ms. length q \<le> n \<Longrightarrow> length q \<le> n \<Longrightarrow>
   triple F I P (missing_directories q ms) (\<lambda>found d. P d \<and> (\<forall>q \<in> set found. length q \<le> n)) P"
proof (induction q arbitrary: ms)
  case Nil
  show ?case
    by (subst missing_directories.simps, rule triple_outcome [OF look_calls(2)])
      (auto intro!: triple_give triple_refuse Nil simp: Nil)
next
  case (Cons x q)
  have "triple F I P (missing_directories q ((x # q) # ms)) (\<lambda>found d. P d \<and> (\<forall>q \<in> set found. length q \<le> n)) P"
    by (rule Cons.IH) (use Cons.prems in auto)
  then show ?case
    by (subst missing_directories.simps, intro triple_outcome [OF look_calls(2)])
      (use Cons.prems in \<open>auto intro!: triple_give triple_refuse\<close>)
qed

lemma create_still:
  "\<forall>q \<in> set qs. q \<noteq> p \<Longrightarrow> (\<And>d. still d0 p d \<Longrightarrow> I d) \<Longrightarrow>
   triple F I (still d0 p) (create_directories qs) (\<lambda>_. still d0 p) (still d0 p)"
proof (induction qs)
  case Nil
  then show ?case by (auto intro: triple_give)
next
  case (Cons q qs)
  have rest: "triple F I (still d0 p) (create_directories qs) (\<lambda>_. still d0 p) (still d0 p)"
    using Cons by simp
  show ?case
    unfolding create_directories.simps forgiving_def platformCreatePrivateDirectory_def
    by (rule triple_outcome [OF Mkdir_still])
      (use Cons.prems in \<open>auto intro!: triple_refuse triple_and_then look_calls validate_same SyncDirectory_same rest\<close>)
qed

lemma EnsureDirectory_still:
  assumes "p \<noteq> []" "\<And>d. still d0 p d \<Longrightarrow> I d"
  shows "triple F I (still d0 p) (EnsureDirectory (tl p)) (\<lambda>_. still d0 p) (still d0 p)"
proof -
  let ?good = "\<lambda>found. \<forall>q \<in> set found. length q \<le> length (tl p)"
  have created: "triple F I (\<lambda>d. still d0 p d \<and> ?good found) (create_directories found) (\<lambda>_. still d0 p) (still d0 p)"
    for found
  proof (cases "?good found")
    case True
    with assms(1) have "\<forall>q \<in> set found. q \<noteq> p" by (auto simp: length_tl) (metis Suc_n_not_le_n Suc_pred length_greater_0_conv)
    from create_still [OF this assms(2)] show ?thesis by (rule triple_conseq) auto
  qed (auto intro: tripleI)
  have "triple F I (still d0 p) (and_then (missing_directories (tl p) []) create_directories) (\<lambda>_. still d0 p) (still d0 p)"
    by (rule triple_and_then [OF missing_same [where n = "length (tl p)"] created]) auto
  then show ?thesis
    unfolding EnsureDirectory_def
    by (intro triple_outcome [OF look_calls(1)]) (auto intro: validate_same triple_refuse)
qed

section \<open>Writing the temporary file\<close>

lemma private_bits:
  assumes "m AND 0x3F = (0 :: file_mode)"
  shows "(m AND k) AND 0x3F = 0"
proof -
  have "(m AND k) AND 0x3F = k AND (m AND 0x3F)" by (simp only: and.assoc and.left_commute)
  with assms show ?thesis by simp
qed

lemma still_absent: "still d0 p d \<Longrightarrow> inode d t = None \<Longrightarrow> inode d0 t = None"
  by (cases "inode d0 t") (auto simp: still_def same_at_def)

lemma temporary_differs: "(temporary_prefix p @ x) # tl p \<noteq> p"
proof
  assume "(temporary_prefix p @ x) # tl p = p"
  then obtain b where "p = b # tl p" "temporary_prefix p @ x = b" by (cases p) auto
  then have "length (temporary_prefix (b # tl p) @ x) = length b" by metis
  then show False by (simp add: temporary_prefix_def)
qed

lemma OpenNewFile_staged:
  assumes t: "t \<noteq> p" and m: "m AND 0x3F = 0" and I: "\<And>d. still d0 p d \<Longrightarrow> I d"
  shows "triple F I (still d0 p) (OpenNewFile t m) (\<lambda>h. staged d0 p t h []) (still d0 p)"
  unfolding OpenNewFile_def platformOpenNewPrivateFile_def
proof (rule triple_sys [OF OpenExclusive_def])
  fix s d x d'
  let ?m = "(m AND 0x1FF) AND 0x1FF AND NOT (os_umask s)"
  assume d: "still d0 p d" and run: "(if inode d t \<noteq> None then (Inl ErrExist, d)
     else if \<not> parent_ok d t then (Inl ErrNotExist, d) else (Inr (dk_next d), new_name d t (RegularFile [] ?m))) = (Inr x, d')"
  then have new: "inode d t = None" "x = dk_next d" "d' = new_name d t (RegularFile [] ?m)"
    by (auto split: if_splits)
  from still_new [OF d t new(1)] have s': "still d0 p d'" by (simp add: new(3))
  moreover have "inode d0 t = None" by (rule still_absent [OF d new(1)])
  moreover have "?m AND 0x3F = 0" by (intro private_bits m)
  moreover have "dk_next d0 \<le> dk_next d" using d by (simp add: still_def)
  ultimately show "staged d0 p t x [] d' \<and> I d'"
    using t I [OF s'] by (auto simp: staged_def new new_name_def inode_def)
qed (auto intro: I split: if_splits)

lemma temporary_attempts_staged:
  assumes m: "m AND 0x3F = 0" and I: "\<And>d. still d0 p d \<Longrightarrow> I d"
  shows "triple F I (still d0 p) (temporary_attempts n (tl p) (temporary_prefix p) m) (\<lambda>(t, h). staged d0 p t h []) (still d0 p)"
proof (induction n)
  case (Suc n)
  show ?case
    unfolding temporary_attempts.simps Let_def
    by (rule triple_and_then [OF look_calls(7)], rule triple_outcome [OF OpenNewFile_staged [OF temporary_differs m I]])
      (auto intro: triple_give triple_refuse Suc)
qed (auto intro: triple_refuse)

lemma Write_staged:
  assumes I: "\<And>d. still d0 p d \<Longrightarrow> I d"
  shows "triple F I (staged d0 p t h b) (Write h c) (\<lambda>n. staged d0 p t h (b @ take n c)) (staging d0 p t h)"
proof (rule tripleI)
  fix s r s' assume F: "os_fails s = F \<and> quiet s" and st: "staged d0 p t h b (os_disk s)" and run: "Write h c s = (r, s')"
  define n where "n = (if os_fails s Transfer (os_calls s) then min (os_takes s (os_calls s)) (length c) else length c)"
  define d where "d = appended (os_disk s) h (take n c)"
  from st obtain m where m: "dk_nodes (os_disk s) h = RegularFile b m" "m AND 0x3F = 0" by (auto simp: staged_def)
  then have d: "d = (os_disk s)\<lparr>dk_nodes := (dk_nodes (os_disk s))(h := RegularFile (b @ take n c) m)\<rparr>"
    by (simp add: d_def appended_def)
  have keep: "same_at d0 d q" for q
    using still_old [OF staged_still [OF st], of q] st by (auto simp: same_at_def staged_def d inode_def)
  have "staged d0 p t h (b @ take n c) d"
    using st m keep by (auto simp: staged_def still_def wf_disk_def d inode_def)
  then have "staged d0 p t h (b @ take n c) d" "I d" "staging d0 p t h d"
    by (auto intro: I staged_still staged_staging)
  moreover have "os_disk (arrive s) = os_disk s" "quiet (arrive s)" "os_fails (arrive s) = F" using F by (auto simp: arrive_def quiet_def)
  ultimately show "os_fails s' = F \<and> quiet s' \<and> (\<exists>new. os_history s' = os_history s @ new \<and> list_all I new) \<and>
      (case r of Inr x \<Rightarrow> staged d0 p t h (b @ take x c) (os_disk s') | Inl _ \<Rightarrow> staging d0 p t h (os_disk s'))"
    using run by (auto simp: Write_def Let_def n_def d_def quiet_def split: if_splits)
qed

lemma Remove_staging:
  assumes I: "\<And>d. still d0 p d \<Longrightarrow> I d"
  shows "triple F I (staging d0 p t h) (Remove t) (\<lambda>_. staging d0 p t h) (staging d0 p t h)"
  unfolding Remove_def
proof (rule triple_sys [OF refl])
  fix d x d'
  assume d: "staging d0 p t h d" and run: "(if inode d t = None then (Inl ErrNotExist, d)
     else if children d t \<noteq> [] \<or> \<not> parent_ok d t then (Inl ErrFault, d)
     else (Inr (), d\<lparr>dk_names := AList.delete t (dk_names d)\<rparr>)) = (Inr x, d')"
  then have d': "d' = d\<lparr>dk_names := AList.delete t (dk_names d)\<rparr>" by (auto split: if_splits)
  have "same_at d0 d' q" for q
    using still_old [OF staging_still [OF d], of q] d by (auto simp: same_at_def staging_def d' inode_def delete_conv')
  then have "staging d0 p t h d'"
    using d by (auto simp: staging_def still_def wf_disk_def d' inode_def delete_conv')
  then show "staging d0 p t h d' \<and> I d'" by (auto intro: I staging_still)
qed (auto intro: I staging_still split: if_splits)

lemma write_rounds_staged:
  assumes I: "\<And>d. still d0 p d \<Longrightarrow> I d"
  shows "length c < n \<Longrightarrow>
    triple F I (staged d0 p t h b) (write_rounds n t h c) (\<lambda>_. staged d0 p t h (b @ c)) (staging d0 p t h)"
proof (induction n arbitrary: b c)
  case (Suc n)
  have undo: "triple F I (staging d0 p t h) (both (Close h) (Remove t)) (\<lambda>_. staging d0 p t h) (staging d0 p t h)"
    by (rule triple_both [OF look_calls(6) Remove_staging [OF I]])
  have stop: "triple F I (staged d0 p t h b') (cleaning (refuse ErrShortWrite) (both (Close h) (Remove t))) Q (staging d0 p t h)" for b' Q
    by (rule triple_cleaning [OF _ undo]) (auto intro: triple_refuse staged_staging)
  have go: "triple F I (staged d0 p t h (b @ take k c)) (write_rounds n t h (drop k c)) (\<lambda>_. staged d0 p t h (b @ c)) (staging d0 p t h)"
    if "c \<noteq> []" "k \<noteq> 0" for k
  proof -
    have "length (drop k c) < n" using that Suc.prems by (cases c) auto
    from Suc.IH [OF this, of "b @ take k c"] show ?thesis by simp
  qed
  show ?case
  proof (cases "c = []")
    case False
    have "triple F I (staged d0 p t h b)
        (and_then (cleaning (Write h c) (both (Close h) (Remove t))) (\<lambda>written.
          if written = 0 then cleaning (refuse ErrShortWrite) (both (Close h) (Remove t))
          else write_rounds n t h (drop written c))) (\<lambda>_. staged d0 p t h (b @ c)) (staging d0 p t h)"
      by (rule triple_and_then [OF triple_cleaning [OF Write_staged [OF I] undo]]) (use False in \<open>auto intro: stop go\<close>)
    with False show ?thesis by simp
  qed (auto intro: triple_give)
qed simp

lemma writeAndClose_staged:
  assumes I: "\<And>d. still d0 p d \<Longrightarrow> I d"
  shows "triple F I (staged d0 p t h []) (writeAndClose t h payload) (\<lambda>_. staged d0 p t h payload) (staging d0 p t h)"
proof -
  have undo: "triple F I (staging d0 p t h) (both (Close h) (Remove t)) (\<lambda>_. staging d0 p t h) (staging d0 p t h)"
    by (rule triple_both [OF look_calls(6) Remove_staging [OF I]])
  have sync: "triple F I (staged d0 p t h payload) (cleaning (Sync h) (both (Close h) (Remove t)))
      (\<lambda>_. staged d0 p t h payload) (staging d0 p t h)"
    by (rule triple_cleaning [OF triple_conseq [OF look_calls(5) [where P = "staged d0 p t h payload"]] undo]) (auto intro: staged_staging)
  have close: "triple F I (staged d0 p t h payload) (cleaning (Close h) (Remove t))
      (\<lambda>_. staged d0 p t h payload) (staging d0 p t h)"
    by (rule triple_cleaning [OF triple_conseq [OF look_calls(6) [where P = "staged d0 p t h payload"]] Remove_staging [OF I]]) (auto intro: staged_staging)
  from write_rounds_staged [where I = I and c = payload and n = "Suc (length payload)" and F = F and t = t and h = h and b = "[]", OF I]
  have rounds: "triple F I (staged d0 p t h []) (write_rounds (Suc (length payload)) t h payload)
      (\<lambda>_. staged d0 p t h payload) (staging d0 p t h)" using I by simp
  show ?thesis unfolding writeAndClose_def
    by (rule triple_and_then [OF rounds triple_and_then [OF sync close]])
qed

section \<open>Publishing it\<close>

lemma Rename_published:
  assumes I: "\<And>d. still d0 p d \<Longrightarrow> I d" "\<And>d. published d0 p b d \<Longrightarrow> I d"
  shows "triple F I (staged d0 p t h b) (Rename t p) (\<lambda>_. published d0 p b) (staging d0 p t h)"
  unfolding Rename_def
proof (rule triple_sys [OF refl])
  fix d x d'
  assume d: "staged d0 p t h b d" and run: "(case inode d t of None \<Rightarrow> (Inl ErrNotExist, d)
     | Some i \<Rightarrow> if \<not> file_at d t \<or> \<not> parent_ok d t \<or> \<not> parent_ok d p \<or> (inode d p \<noteq> None \<and> \<not> file_at d p) then (Inl ErrFault, d)
         else (Inr (), d\<lparr>dk_names := AList.update p i (AList.delete t (dk_names d))\<rparr>)) = (Inr x, d')"
  then have d': "d' = d\<lparr>dk_names := AList.update p h (AList.delete t (dk_names d))\<rparr>"
    by (auto simp: staged_def split: if_splits)
  have "same_at d0 d' q" if "q \<noteq> p" for q
    using still_old [OF staged_still [OF d], of q] d that
    by (auto simp: same_at_def staged_def d' inode_def delete_conv' update_conv')
  then have "published d0 p b d'"
    using d by (auto simp: published_def staged_def d' inode_def update_conv')
  then show "published d0 p b d' \<and> I d'" by (auto intro: I)
qed (auto intro: I staged_still staged_staging split: if_splits option.splits)

lemma ValidateRegularFile_published:
  "triple F I (published d0 p b) (ValidateRegularFile p) (\<lambda>_. published d0 p b) (\<lambda>d. published d0 p b d \<and> (\<exists>k. F Lookup k))"
proof -
  define sealed where "sealed = (\<lambda>info :: FileInfo. \<exists>m. fi_Node info = RegularFile b m \<and> m AND 0x3F = 0)"
  have "triple F I (published d0 p b) (Lstat p) (\<lambda>info d. published d0 p b d \<and> sealed info)
      (\<lambda>d. published d0 p b d \<and> (\<exists>k. F Lookup k))"
    unfolding Lstat_def by (rule triple_peek) (auto simp: published_def sealed_def)
  moreover have "triple F I (\<lambda>d. published d0 p b d \<and> sealed info) (validatePrivateRegularFile info)
      (\<lambda>_. published d0 p b) E" for info E
    by (cases "sealed info")
      (auto simp: sealed_def validatePrivateRegularFile_def platformValidatePrivateRegularFile_def intro: triple_give tripleI)
  ultimately show ?thesis unfolding ValidateRegularFile_def by (rule triple_and_then)
qed

text \<open>Removing a name leaves every other name as it was.\<close>

lemma Remove_name:
  assumes gone: "\<And>d. P d \<Longrightarrow> Q (d\<lparr>dk_names := AList.delete q (dk_names d)\<rparr>)" "\<And>d. P d \<Longrightarrow> Q d" and I: "\<And>d. Q d \<Longrightarrow> I d"
  shows "triple F I P (Remove q) (\<lambda>_. Q) Q"
  unfolding Remove_def by (rule triple_sys [OF refl]) (auto intro: gone I split: if_splits)

lemma Remove_published:
  assumes I: "\<And>d. withdrawn F d0 p b d \<Longrightarrow> I d"
  shows "triple F I (\<lambda>d. published d0 p b d \<and> (\<exists>k. F Lookup k)) (Remove p) (\<lambda>_. withdrawn F d0 p b) (withdrawn F d0 p b)"
  by (rule Remove_name)
    (auto simp: I withdrawn_def published_def lost_def same_at_def inode_def delete_conv')

lemma ReplaceFile_published:
  assumes I: "\<And>d. settled F d0 p b d \<Longrightarrow> I d"
  shows "triple F I (staged d0 p t h b) (ReplaceFile t p) (\<lambda>_. published d0 p b) (\<lambda>d. staging d0 p t h d \<or> withdrawn F d0 p b d)"
proof -
  have I': "\<And>d. still d0 p d \<Longrightarrow> I d" "\<And>d. published d0 p b d \<Longrightarrow> I d" "\<And>d. withdrawn F d0 p b d \<Longrightarrow> I d"
    by (auto simp: I settled_def untorn_def)
  have rename: "triple F I (staged d0 p t h b) (Rename t p) (\<lambda>_. published d0 p b) (\<lambda>d. staging d0 p t h d \<or> withdrawn F d0 p b d)"
    by (rule triple_conseq [OF Rename_published [OF I'(1,2)]]) auto
  have check: "triple F I (published d0 p b) (cleaning (ValidateRegularFile p) (Remove p))
      (\<lambda>_. published d0 p b) (\<lambda>d. staging d0 p t h d \<or> withdrawn F d0 p b d)"
    by (rule triple_conseq [OF triple_cleaning [OF ValidateRegularFile_published Remove_published [OF I'(3)]]]) auto
  show ?thesis unfolding ReplaceFile_def platformReplaceFile_def
    by (rule triple_and_then [OF rename check])
qed

text \<open>The deferred removal of the temporary file, whose name did not exist before.\<close>

lemma Remove_temporary:
  assumes t: "t \<noteq> p" "inode d0 t = None" and I: "\<And>d. settled F d0 p b d \<Longrightarrow> I d"
  shows "triple F I (\<lambda>d. staging d0 p t h d \<or> withdrawn F d0 p b d) (Remove t) (\<lambda>_. settled F d0 p b) (settled F d0 p b)"
proof (rule Remove_name [OF _ _ I])
  fix d assume d: "staging d0 p t h d \<or> withdrawn F d0 p b d"
  let ?d' = "d\<lparr>dk_names := AList.delete t (dk_names d)\<rparr>"
  have same: "same_at d0 ?d' q" if "same_at d0 d q" for q
    using that t by (auto simp: same_at_def inode_def delete_conv')
  have names: "inode ?d' p = inode d p" "dk_nodes ?d' = dk_nodes d" using t(1) by (auto simp: inode_def delete_conv')
  have "staging d0 p t h d \<Longrightarrow> still d0 p ?d'"
    using same names by (auto simp: staging_def still_def wf_disk_def inode_def delete_conv' split: if_splits)
  moreover have "withdrawn F d0 p b d \<Longrightarrow> withdrawn F d0 p b ?d'"
    using same names by (auto simp: withdrawn_def published_def lost_def)
  ultimately show "settled F d0 p b ?d'" using d by (auto simp: settled_def untorn_def)
qed (auto simp: settled_def untorn_def staging_def)

lemma AtomicWriteFile_phases:
  assumes p: "p \<noteq> []" and m: "m AND 0x3F = 0"
  shows "triple F (settled F d0 p b) (still d0 p) (AtomicWriteFile p b m) (\<lambda>_. published d0 p b) (settled F d0 p b)"
proof -
  let ?I = "settled F d0 p b"
  have I: "\<And>d. still d0 p d \<Longrightarrow> ?I d" "\<And>d. published d0 p b d \<Longrightarrow> ?I d" by (auto simp: settled_def untorn_def)
  have staging_ends: "triple F ?I (staged d0 p t h []) (cleaning (and_then (writeAndClose t h b) (\<lambda>_. ReplaceFile t p)) (Remove t))
      (\<lambda>_. published d0 p b) ?I" for t h
  proof (cases "t \<noteq> p \<and> inode d0 t = None")
    case True
    then have t: "t \<noteq> p" "inode d0 t = None" by simp_all
    have "triple F ?I (staged d0 p t h []) (writeAndClose t h b) (\<lambda>_. staged d0 p t h b)
        (\<lambda>d. staging d0 p t h d \<or> withdrawn F d0 p b d)"
      by (rule triple_conseq [OF writeAndClose_staged [OF I(1)]]) auto
    from triple_cleaning [OF triple_and_then [OF this ReplaceFile_published] Remove_temporary [OF t]]
    show ?thesis by simp
  next
    case False
    then have "\<not> staged d0 p t h [] d" for d by (auto simp: staged_def)
    then show ?thesis by (simp add: triple_def)
  qed
  have sync: "triple F ?I (published d0 p b) (SyncDirectory (tl p)) (\<lambda>_. published d0 p b) ?I"
    by (rule triple_conseq [OF SyncDirectory_same [where P = "published d0 p b"]]) (auto intro: I)
  have temporary: "triple F ?I (still d0 p) (createTemporary (tl p) (temporary_prefix p) m)
      (\<lambda>(t, h). staged d0 p t h []) ?I"
    unfolding createTemporary_def
    by (rule triple_conseq [OF temporary_attempts_staged [OF m I(1)]]) (auto intro: I)
  have ensure: "triple F ?I (still d0 p) (EnsureDirectory (tl p)) (\<lambda>_. still d0 p) ?I"
    by (rule triple_conseq [OF EnsureDirectory_still [OF p I(1)]]) (auto intro: I)
  show ?thesis
    unfolding AtomicWriteFile_def
    by (rule triple_and_then [OF ensure triple_and_then [OF temporary]])
      (auto split: prod.splits intro!: triple_and_then [OF staging_ends sync])
qed

section \<open>What a store sees\<close>

definition contents :: "disk \<Rightarrow> path \<Rightarrow> string option" where
  "contents d p = (case node d p of Some (RegularFile b _) \<Rightarrow> Some b | _ \<Rightarrow> None)"

text \<open>The file of a store on the disk, when \<open>dec\<close> reads what it was written as.\<close>

definition stored_at :: "(string \<Rightarrow> 'v snapshot option) \<Rightarrow> disk \<Rightarrow> path \<Rightarrow> 'v snapshot option option" where
  "stored_at dec d p = map_option dec (contents d p)"

definition disks_between :: "os \<Rightarrow> os \<Rightarrow> disk list" where
  "disks_between s s' = drop (length (os_history s)) (os_history s')"

lemma contents_still: "still d0 p d \<Longrightarrow> contents d p = contents d0 p"
  by (cases "inode d0 p") (auto simp: contents_def node_def still_def same_at_def split: option.splits)

lemma contents_published: "published d0 p b d \<Longrightarrow> contents d p = Some b"
  by (auto simp: contents_def node_def published_def)

lemma still_start: "wf_disk d \<Longrightarrow> still d p d"
  by (simp add: still_def same_at_def)

lemma contents_lost: "lost d0 p d \<Longrightarrow> contents d p = None"
  by (simp add: contents_def node_def lost_def)

text \<open>
  C37. Writing a store's file atomically (AtomicWriteFile, with a private mode, while no other process
  touches the disk), whichever system calls fail and whatever part a failing write takes: on every disk the
  machine goes through, and so wherever the process is killed, the store reads its old snapshot or the new
  one, or, when the system fails some lookup of a name, no file at all (ReplaceFile deletes a published file
  whose check fails). The end is one of the three outcomes the stores' model knows, with the same
  verdict, or that loss of the file, which is answered with an error. Every other file that was there is
  still there, unchanged.
\<close>

theorem store_writes_are_atomic:
  assumes disk: "wf_disk (os_disk s)" and path: "p \<noteq> []" and mode: "mode AND 0x3F = 0" and alone: "quiet s"
    and codec: "dec (enc \<lparr>sp_Version = version, sp_UpdatedAt = now, sp_Entries = ls_entries st\<rparr>) =
      Some \<lparr>sp_Version = version, sp_UpdatedAt = now, sp_Entries = ls_entries st\<rparr>"
    and stored: "ls_file st = stored_at dec (os_disk s) p"
    and run: "AtomicWriteFile p (enc \<lparr>sp_Version = version, sp_UpdatedAt = now, sp_Entries = ls_entries st\<rparr>) mode s = (r, s')"
  shows "((\<exists>w. stored_at dec (os_disk s') p = ls_file (fst (write_snapshot version now w st)) \<and>
        (r = Inr () \<longleftrightarrow> snd (write_snapshot version now w st) = (Inr () :: ('e store_error, unit) result))) \<or>
      (\<exists>k. os_fails s Lookup k) \<and> r \<noteq> Inr () \<and> stored_at dec (os_disk s') p = None) \<and>
      (\<forall>d \<in> set (disks_between s s').
         stored_at dec d p \<in> {ls_file st, ls_file (fst (write_snapshot version now WriteDone st))} \<or>
         (\<exists>k. os_fails s Lookup k) \<and> stored_at dec d p = None) \<and>
      (\<forall>q n. q \<noteq> p \<longrightarrow> node (os_disk s) q = Some n \<longrightarrow> node (os_disk s') q = Some n)"
proof -
  let ?sn = "\<lparr>sp_Version = version, sp_UpdatedAt = now, sp_Entries = ls_entries st\<rparr>"
  let ?d0 = "os_disk s" and ?b = "enc ?sn" and ?F = "os_fails s"
  have old: "stored_at dec d p = ls_file st" if "still ?d0 p d" for d
    using contents_still [OF that] stored by (simp add: stored_at_def)
  have new: "stored_at dec d p = Some (Some ?sn)" if "published ?d0 p ?b d" for d
    using contents_published [OF that] codec by (simp add: stored_at_def)
  have none: "stored_at dec d p = None" if "lost ?d0 p d" for d
    using contents_lost [OF that] by (simp add: stored_at_def)
  have cases: "still ?d0 p d \<or> published ?d0 p ?b d \<or> (\<exists>k. ?F Lookup k) \<and> lost ?d0 p d" if "settled ?F ?d0 p ?b d" for d
    using that by (auto simp: settled_def untorn_def withdrawn_def)
  have others: "node (os_disk s') q = Some n" if "settled ?F ?d0 p ?b (os_disk s')" "q \<noteq> p" "node ?d0 q = Some n" for q n
    using cases [OF that(1)] that(2,3) by (auto simp: still_def published_def lost_def same_at_def node_def)
  note t = tripleD [OF AtomicWriteFile_phases [of p mode ?F ?d0 ?b, OF path mode] run conjI [OF refl alone] still_start [OF disk]]
  have "\<forall>d \<in> set (disks_between s s'). settled ?F ?d0 p ?b d"
    using t(2) by (auto simp: disks_between_def list_all_iff)
  then have between: "\<forall>d \<in> set (disks_between s s'). stored_at dec d p \<in> {ls_file st, Some (Some ?sn)} \<or>
      (\<exists>k. ?F Lookup k) \<and> stored_at dec d p = None"
    using old new none cases by blast
  have final: "settled ?F ?d0 p ?b (os_disk s')" using t(3) by (cases r) (auto simp: settled_def untorn_def)
  consider "r = Inr ()" "published ?d0 p ?b (os_disk s')" | "r \<noteq> Inr ()" "still ?d0 p (os_disk s')"
    | "r \<noteq> Inr ()" "published ?d0 p ?b (os_disk s')" | "r \<noteq> Inr ()" "\<exists>k. ?F Lookup k" "lost ?d0 p (os_disk s')"
    using t(3) cases [OF final] by (cases r) auto
  then have "(\<exists>w. stored_at dec (os_disk s') p = ls_file (fst (write_snapshot version now w st)) \<and>
        (r = Inr () \<longleftrightarrow> snd (write_snapshot version now w st) = (Inr () :: ('e store_error, unit) result))) \<or>
      (\<exists>k. ?F Lookup k) \<and> r \<noteq> Inr () \<and> stored_at dec (os_disk s') p = None"
  proof cases
    case 1 then show ?thesis using new by (intro disjI1 exI [of _ WriteDone]) (simp add: write_snapshot_def Let_def)
  next
    case 2 then show ?thesis using old by (intro disjI1 exI [of _ WriteFailed]) (simp add: write_snapshot_def Let_def)
  next
    case 3 then show ?thesis using new by (intro disjI1 exI [of _ WriteUnsynced]) (simp add: write_snapshot_def Let_def)
  next
    case 4 then show ?thesis using none by blast
  qed
  with between others [OF final] show ?thesis by (simp add: write_snapshot_def Let_def)
qed

text \<open>What \<open>ReadFile\<close> returns is what the file holds; it never changes the disk.\<close>

lemma Lstat_info:
  "triple F I (\<lambda>d. d = d0) (Lstat q) (\<lambda>info d. d = d0 \<and> inode d0 q = Some (fi_ID info) \<and> fi_Node info = dk_nodes d0 (fi_ID info)) (\<lambda>d. d = d0)"
  unfolding Lstat_def by (rule triple_peek) (auto split: option.splits)

lemma ReadFile_reads:
  "triple F I (\<lambda>d. d = d0) (ReadFile p) (\<lambda>b d. d = d0 \<and> contents d0 p = Some b) (\<lambda>d. d = d0)"
proof -
  let ?D = "\<lambda>d. d = d0"
  have dir: "triple F I ?D (ValidateDirectory (tl p)) (\<lambda>_. ?D) ?D"
    unfolding ValidateDirectory_def by (rule triple_and_then [OF look_calls(1)]) (rule validate_same)
  define at where "at = (\<lambda>info :: FileInfo. inode d0 p = Some (fi_ID info) \<and> fi_Node info = dk_nodes d0 (fi_ID info))"
  define plain where "plain = (\<lambda>info :: FileInfo. at info \<and> is_regular (fi_Node info))"
  have regular: "triple F I (\<lambda>d. ?D d \<and> at info) (validatePrivateRegularFile info) (\<lambda>_ d. ?D d \<and> plain info) ?D" for info
    by (auto simp: validatePrivateRegularFile_def platformValidatePrivateRegularFile_def plain_def
        intro!: triple_give triple_refuse)
  have opened: "triple F I (\<lambda>d. ?D d \<and> plain info) (Open p) (\<lambda>h d. ?D d \<and> plain info \<and> h = fi_ID info) ?D" for info
    unfolding Open_def
    by (rule triple_peek) (auto simp: follow_def plain_def at_def split: fnode.splits if_splits option.splits)
  have handle: "triple F I P (cleaning (platformValidatePrivateFileHandle h) (Close h)) (\<lambda>_. P) P" for h P
    by (rule triple_cleaning [OF _ look_calls(6)])
      (auto simp: platformValidatePrivateFileHandle_def platformValidatePrivateRegularFile_def
        intro!: triple_and_then [OF look_calls(4)] triple_give triple_refuse)
  have bytes: "triple F I (\<lambda>d. ?D d \<and> plain info \<and> h = fi_ID info) (ReadAll h) (\<lambda>b d. ?D d \<and> contents d0 p = Some b) ?D" for h info
    unfolding ReadAll_def
    by (rule triple_peek) (auto simp: contents_def node_def plain_def at_def split: fnode.splits elim!: is_regular.elims)
  have close: "triple F I (\<lambda>d. ?D d \<and> X) (Close h) (\<lambda>_ d. ?D d \<and> X) (\<lambda>d. ?D d \<and> X)" for h X by (rule look_calls(6))
  have last: "triple F I (\<lambda>d. ?D d \<and> contents d0 p = Some b)
      (on_outcome (Lstat p) (\<lambda>after. if (case after of Inl _ \<Rightarrow> True | Inr i \<Rightarrow> \<not> SameFile before i)
         then refuse ErrChanged else give b)) (\<lambda>b d. ?D d \<and> contents d0 p = Some b) ?D" for b before
    by (rule triple_outcome [OF look_calls(1)]) (auto intro!: triple_refuse triple_give)
  have tail: "triple F I (\<lambda>d. ?D d \<and> plain info \<and> h = fi_ID info)
      (on_outcome (ReadAll h) (\<lambda>payload. on_outcome (Close h) (\<lambda>closed.
         case payload of Inl e \<Rightarrow> refuse e | Inr b \<Rightarrow> (case closed of Inl e \<Rightarrow> refuse e
           | Inr _ \<Rightarrow> on_outcome (Lstat p) (\<lambda>after. if (case after of Inl _ \<Rightarrow> True | Inr i \<Rightarrow> \<not> SameFile before i)
               then refuse ErrChanged else give b))))) (\<lambda>b d. ?D d \<and> contents d0 p = Some b) ?D" for info h before
    by (rule triple_outcome [OF bytes]; rule triple_outcome [OF look_calls(6)])
      (auto intro!: triple_refuse last)
  have drop: "triple F I P (cleaning (refuse e) (Close h)) Q' ?D" if "\<And>d. P d \<Longrightarrow> ?D d" for P Q' e h
    by (rule triple_cleaning [OF triple_refuse look_calls(6)]) (rule that)
  have checked: "triple F I (\<lambda>d. ?D d \<and> plain info \<and> h = fi_ID info)
      (on_outcome (handle_Stat h) (\<lambda>opened. if (case opened of Inl _ \<Rightarrow> True | Inr i \<Rightarrow> \<not> SameFile info i)
         then cleaning (refuse ErrChanged) (Close h)
         else on_outcome (ReadAll h) (\<lambda>payload. on_outcome (Close h) (\<lambda>closed.
           case payload of Inl e \<Rightarrow> refuse e | Inr b \<Rightarrow> (case closed of Inl e \<Rightarrow> refuse e
             | Inr _ \<Rightarrow> on_outcome (Lstat p) (\<lambda>after. if (case after of Inl _ \<Rightarrow> True | Inr i \<Rightarrow> \<not> SameFile info i)
                 then refuse ErrChanged else give b)))))) (\<lambda>b d. ?D d \<and> contents d0 p = Some b) ?D" for info h
    by (rule triple_outcome [OF look_calls(4)]) (auto simp: tail intro!: drop)
  have looked: "triple F I ?D (Lstat p) (\<lambda>info d. ?D d \<and> at info) ?D"
    using Lstat_info [of F I d0 p] by (simp add: at_def)
  have handled: "triple F I (\<lambda>d. ?D d \<and> plain info \<and> h = fi_ID info)
      (cleaning (platformValidatePrivateFileHandle h) (Close h)) (\<lambda>_ d. ?D d \<and> plain info \<and> h = fi_ID info) ?D" for info h
    by (rule triple_conseq [OF handle [where P = "\<lambda>d. ?D d \<and> plain info \<and> h = fi_ID info"]]) auto
  show ?thesis unfolding ReadFile_def
    by (rule triple_and_then [OF dir], rule triple_and_then [OF looked], rule triple_and_then [OF regular],
        rule triple_and_then [OF opened], rule triple_and_then [OF handled checked])
qed

section \<open>Examples\<close>

definition demo_disk :: disk where
  "demo_disk = \<lparr>dk_names = [([], 0), ([''data''], 1), ([''store.json'', ''data''], 2)],
     dk_nodes = (\<lambda>i. if i = 2 then RegularFile ''old'' 0x180 else DirectoryNode 0x1C0), dk_next = 3\<rparr>"

definition demo_os :: "(os_op \<Rightarrow> nat \<Rightarrow> bool) \<Rightarrow> os" where
  "demo_os F = \<lparr>os_disk = demo_disk, os_fails = F, os_takes = (\<lambda>_. 2), os_random = (\<lambda>_. ''r''), os_umask = 0x12, os_env = (\<lambda>_ d. d),
     os_calls = 0, os_history = []\<rparr>"

definition demo_path :: path where
  "demo_path = [''store.json'', ''data'']"

lemma wf_demo_disk: "wf_disk demo_disk"
  by (auto simp: wf_disk_def demo_disk_def inode_def split: if_splits)

text \<open>
  The loss of the file happens: when the check of the file that was just put in place cannot
  look it up, \<open>ReplaceFile\<close> removes it, and neither the old nor the new content is left.
\<close>

lemma failed_lookup_loses_the_file:
  "contents demo_disk demo_path = Some ''old'' \<and>
   (\<exists>k. let (r, s') = AtomicWriteFile demo_path ''new'' 0x180 (demo_os (\<lambda>op n. op = Lookup \<and> n = k))
        in r = Inl ErrFault \<and> contents (os_disk s') demo_path = None)"
proof
  show "contents demo_disk demo_path = Some ''old''" by code_simp
  show "\<exists>k. let (r, s') = AtomicWriteFile demo_path ''new'' 0x180 (demo_os (\<lambda>op n. op = Lookup \<and> n = k))
        in r = Inl ErrFault \<and> contents (os_disk s') demo_path = None"
    by (rule exI [of _ 7]) code_simp
qed

lemma store_writes_are_atomic_witness:
  "let s = demo_os (\<lambda>op n. op = Flushing \<and> n = 9); sn = \<lparr>sp_Version = 1, sp_UpdatedAt = 5, sp_Entries = [(''k'', True)]\<rparr>;
       dec = (\<lambda>b. if b = ''new'' then Some sn else None); st = \<lparr>ls_entries = [(''k'', True)], ls_file = Some None\<rparr>;
       X = AtomicWriteFile demo_path ''new'' 0x180 s
   in fst X = Inl ErrFault \<and>
      (\<exists>w. stored_at dec (os_disk (snd X)) demo_path = ls_file (fst (write_snapshot 1 5 w st)) \<and>
        (fst X = Inr () \<longleftrightarrow> snd (write_snapshot 1 5 w st) = (Inr () :: (unit store_error, unit) result)))"
proof -
  let ?s = "demo_os (\<lambda>op n. op = Flushing \<and> n = 9)"
  let ?sn = "\<lparr>sp_Version = 1, sp_UpdatedAt = 5, sp_Entries = [(''k'', True)]\<rparr> :: bool snapshot"
  let ?dec = "\<lambda>b. if b = ''new'' then Some ?sn else None"
  let ?st = "\<lparr>ls_entries = [(''k'', True)], ls_file = Some None\<rparr> :: bool local_store"
  let ?X = "AtomicWriteFile demo_path ''new'' 0x180 ?s"
  have failed: "fst ?X = Inl ErrFault" by code_simp
  have old: "stored_at ?dec demo_disk demo_path = Some None" by code_simp
  have s: "os_disk (demo_os F) = demo_disk" "os_fails (demo_os F) = F" "demo_path \<noteq> []" "quiet (demo_os F)" for F
    by (simp_all add: quiet_def demo_os_def demo_path_def)
  have lookups: "\<nexists>k. os_fails ?s Lookup k" by (simp add: s)
  have "((\<exists>w. stored_at ?dec (os_disk (snd ?X)) demo_path = ls_file (fst (write_snapshot 1 5 w ?st)) \<and>
        (fst ?X = Inr () \<longleftrightarrow> snd (write_snapshot 1 5 w ?st) = (Inr () :: (unit store_error, unit) result))) \<or>
      (\<exists>k. os_fails ?s Lookup k) \<and> fst ?X \<noteq> Inr () \<and> stored_at ?dec (os_disk (snd ?X)) demo_path = None) \<and>
      (\<forall>d \<in> set (disks_between ?s (snd ?X)).
         stored_at ?dec d demo_path \<in> {ls_file ?st, ls_file (fst (write_snapshot 1 5 WriteDone ?st))} \<or>
         (\<exists>k. os_fails ?s Lookup k) \<and> stored_at ?dec d demo_path = None) \<and>
      (\<forall>q n. q \<noteq> demo_path \<longrightarrow> node (os_disk ?s) q = Some n \<longrightarrow> node (os_disk (snd ?X)) q = Some n)"
    by (rule store_writes_are_atomic [where enc = "\<lambda>_. ''new''" and mode = "0x180"])
      (simp_all add: old wf_demo_disk s)
  with failed lookups show ?thesis unfolding Let_def by blast
qed

end
