(* ===== verification/Artifact_Theorems.thy ===== *)
theory Artifact_Theorems
  imports Artifact_Manager Private_Files_Theorems Collab_Store
begin

text \<open>
  Files on their way: what the recipient collects and the relay accepts, what the relay accepted and
  the recipient's sandbox holds, and that removing a sandbox removes nothing else.
\<close>

section \<open>Collected deliverables\<close>

text \<open>What a sequence of calls returns when it returns, whatever fails and whatever other processes do.\<close>

definition yields :: "'a os_call \<Rightarrow> ('a \<Rightarrow> bool) \<Rightarrow> bool" where
  "yields m Q \<longleftrightarrow> (\<forall>s x s'. m s = (Inr x, s') \<longrightarrow> Q x)"

named_theorems yields_rule

lemma yields_give [yields_rule]: "Q x \<Longrightarrow> yields (give x) Q"
  by (simp add: yields_def give_def)

lemma yields_refuse [yields_rule]: "yields (refuse e) Q"
  by (simp add: yields_def refuse_def)

lemma yields_any: "yields m (\<lambda>_. True)"
  by (simp add: yields_def)

lemma yields_and_then: "yields m R \<Longrightarrow> (\<And>x. R x \<Longrightarrow> yields (k x) Q) \<Longrightarrow> yields (and_then m k) Q"
  by (auto simp: yields_def and_then_def split: prod.splits sum.splits) fastforce

lemma yields_and_then' [yields_rule]: "(\<And>x. yields (k x) Q) \<Longrightarrow> yields (and_then m k) Q"
  by (rule yields_and_then [OF yields_any])

lemma yields_on_outcome [yields_rule]: "(\<And>r. yields (k r) Q) \<Longrightarrow> yields (on_outcome m k) Q"
  by (auto simp: yields_def on_outcome_def split: prod.splits)

lemma yields_cleaning [yields_rule]: "yields m Q \<Longrightarrow> yields (cleaning m c) Q"
  by (auto simp: yields_def cleaning_def split: prod.splits sum.splits)

lemma yields_if [yields_rule]: "(b \<Longrightarrow> yields m Q) \<Longrightarrow> (\<not> b \<Longrightarrow> yields m' Q) \<Longrightarrow> yields (if b then m else m') Q"
  by simp

lemma yields_sum [yields_rule]:
  "(\<And>e. r = Inl e \<Longrightarrow> yields (f e) Q) \<Longrightarrow> (\<And>x. r = Inr x \<Longrightarrow> yields (g x) Q) \<Longrightarrow> yields (case r of Inl e \<Rightarrow> f e | Inr x \<Rightarrow> g x) Q"
  by (cases r) auto

text \<open>A file as \<open>CollectResults\<close> reports it.\<close>

definition reported :: "('l) golib_scheme \<Rightarrow> mime_library \<Rightarrow> string \<Rightarrow> string \<Rightarrow> AttachmentInput" where
  "reported L ml name payload =
     \<lparr>ai_Name = name,
      ai_MIMEType = (let ext = type_of ml (ToLower L (Ext name)) in if ext = [] then detect ml payload else ext),
      ai_Encoding = ''base64'', ai_SizeBytes = int (length payload), ai_SHA256 = sha256_hex L payload,
      ai_ContentBase64 = encode ml payload\<rparr>"

definition deliverable :: "('l) golib_scheme \<Rightarrow> mime_library \<Rightarrow> string \<Rightarrow> AttachmentInput \<Rightarrow> bool" where
  "deliverable L ml name f \<longleftrightarrow>
     validateFilename L name = Inr () \<and> \<not> sensitiveFilename L name \<and> \<not> forbiddenDeliverable L name \<and>
     (\<exists>payload. f = reported L ml name payload \<and> int (length payload) \<le> MaxAttachmentBytes)"

lemma reported_simps [simp]:
  "ai_Name (reported L ml name payload) = name" "ai_Encoding (reported L ml name payload) = ''base64''"
  "ai_SizeBytes (reported L ml name payload) = int (length payload)"
  "ai_SHA256 (reported L ml name payload) = sha256_hex L payload"
  "ai_ContentBase64 (reported L ml name payload) = encode ml payload"
  by (simp_all add: reported_def)

fun deliverables :: "('l) golib_scheme \<Rightarrow> mime_library \<Rightarrow> int \<Rightarrow> AttachmentInput list \<Rightarrow> bool" where
  "deliverables L ml tot [] = True"
| "deliverables L ml tot (f # fs) =
     (deliverable L ml (ai_Name f) f \<and> i64 (tot + ai_SizeBytes f) \<le> MaxRequestPayloadBytes \<and>
      deliverables L ml (i64 (tot + ai_SizeBytes f)) fs)"

lemma collect_one_yields:
  "yields (collect_one L ml sb root tot name)
     (\<lambda>(tot', f). deliverable L ml name f \<and> ai_Name f = name \<and> tot' = i64 (tot + ai_SizeBytes f) \<and> tot' \<le> MaxRequestPayloadBytes)"
  unfolding collect_one_def Let_def
  by (intro yields_rule) (auto simp: deliverable_def reported_def [symmetric, unfolded Let_def] linorder_not_less)

lemma collect_loop_yields:
  "yields (collect_loop L ml sb root tot names) (\<lambda>fs. map ai_Name fs = names \<and> deliverables L ml tot fs)"
proof (induction names arbitrary: tot)
  case (Cons name names)
  show ?case
    unfolding collect_loop.simps
    by (rule yields_and_then [OF collect_one_yields])
      (auto intro!: yields_and_then [OF Cons] yields_give split: prod.splits)
qed (auto intro: yields_give)

lemma CollectResults_yields:
  "yields (CollectResults L ml m sb) (\<lambda>fs. length fs \<le> MaxAttachments \<and> deliverables L ml 0 fs)"
  unfolding CollectResults_def Let_def
  by (intro yields_rule yields_and_then [OF collect_loop_yields])
    (auto dest!: arg_cong [where f = length and x = "map ai_Name _"])

text \<open>The recipient's rules for names are the relay's.\<close>

lemma sensitive_names_agree: "sensitive_names = forbidden_names"
  by (simp add: sensitive_names_def forbidden_names_def)

lemma deliverable_name:
  assumes "validateFilename L name = Inr ()" "\<not> sensitiveFilename L name"
  shows "validArtifactName L name"
  using assms
  by (auto simp: validArtifactName_def validateFilename_def ValidatePortableFilename_def validLabel_def
      sensitiveFilename_def sensitive_names_agree forbidden_suffixes_def Let_def split: if_splits)

text \<open>Documented of Go's library: base64 decodes what it encoded, and both functions yield media types.\<close>

definition media_library :: "('l) golib_scheme \<Rightarrow> mime_library \<Rightarrow> bool" where
  "media_library L ml \<longleftrightarrow>
     (\<forall>p. base64_decode L (encode ml p) = Some p) \<and>
     (\<forall>x. type_of ml x \<noteq> [] \<longrightarrow> validMIMEType L (type_of ml x)) \<and> (\<forall>p. validMIMEType L (detect ml p))"

lemma reported_mime: "media_library L ml \<Longrightarrow> validMIMEType L (ai_MIMEType (reported L ml name payload))"
  by (simp add: reported_def media_library_def Let_def)

lemma prepare_deliverables:
  assumes media: "media_library L ml" and "deliverables L ml tot fs"
  shows "(\<exists>x. prepare_loop L rnd req requester target dir seen tot fs = Inr x) \<longleftrightarrow>
    distinct (map (ToLower L \<circ> ai_Name) fs) \<and> set (map (ToLower L \<circ> ai_Name) fs) \<inter> set seen = {}"
  using assms(2)
proof (induction fs arbitrary: tot seen rnd)
  case (Cons f fs)
  let ?key = "ToLower L (ai_Name f)"
  from Cons.prems obtain payload where name: "validArtifactName L (ai_Name f)"
    and p: "int (length payload) \<le> MaxAttachmentBytes"
    and r: "f = reported L ml (ai_Name f) payload"
    by (auto simp: deliverable_def intro: deliverable_name)
  have f: "ai_Encoding f = ''base64''" "ai_SizeBytes f = int (length payload)" "ai_SHA256 f = sha256_hex L payload"
      "base64_decode L (ai_ContentBase64 f) = Some payload" "validMIMEType L (ai_MIMEType f)"
    using media by (subst r, simp add: media_library_def reported_mime)+
  have digest: "EqualFold L (sha256_hex L payload) (ai_SHA256 f)"
    unfolding f(3) sha256_hex_def by (intro EqualFold_ascii_refl hex_ok_ascii hex_ok_encode)
  have rest: "(\<exists>x. prepare_loop L (\<lambda>n. rnd (Suc n)) req requester target dir (?key # seen) (i64 (tot + ai_SizeBytes f)) fs = Inr x) \<longleftrightarrow>
      distinct (map (ToLower L \<circ> ai_Name) fs) \<and> set (map (ToLower L \<circ> ai_Name) fs) \<inter> set (?key # seen) = {}"
    by (rule Cons.IH) (use Cons.prems in simp)
  have step: "(\<exists>x. prepare_loop L rnd req requester target dir seen tot (f # fs) = Inr x) \<longleftrightarrow>
      ?key \<notin> set seen \<and>
      (\<exists>x. prepare_loop L (\<lambda>n. rnd (Suc n)) req requester target dir (?key # seen) (i64 (tot + ai_SizeBytes f)) fs = Inr x)"
    using Cons.prems name p digest f
    by (auto simp: Let_def split: sum.splits)
  show ?case unfolding step rest by (auto simp: comp_def)
qed simp

text \<open>
  C40. Whatever CollectResults hands over, with any failures and any interference of other processes,
  is at most five files, and the relay accepts them as result files exactly when their names differ
  after lower-casing. CollectResults does not check that: two files that differ only in case pass
  here and are refused there.
\<close>

theorem collected_files_are_accepted:
  assumes media: "media_library L ml" and run: "CollectResults L ml m sb s = (Inr fs, s')"
  shows "length fs \<le> MaxAttachments \<and>
    ((\<exists>x. prepareArtifacts L rnd fs req requester target dir = Inr x) \<longleftrightarrow> distinct (map (ToLower L \<circ> ai_Name) fs))"
proof -
  have "length fs \<le> MaxAttachments" and d: "deliverables L ml 0 fs"
    using CollectResults_yields [of L ml m sb] run unfolding yields_def by blast+
  with prepare_deliverables [OF media d, of _ _ _ _ _ "[]"] show ?thesis by (simp add: prepareArtifacts_def)
qed

section \<open>Attachments the relay accepted\<close>

lemma randomID_same: "randomID a x = randomID b x \<longleftrightarrow> a = b"
  by (simp add: randomID_def)

lemma TrimSpace_artifact_id: "TrimSpace (randomID bs ''art_'') \<noteq> []"
proof -
  have "TrimSpace (randomID bs ''art_'') = randomID bs ''art_''"
  proof (rule TrimSpace_id)
    have last: "last (randomID bs ''art_'') = (if bs = [] then CHR ''_'' else last (hex_encode bs))"
      by (cases "bs = []") (auto simp: randomID_def last_append dest: arg_cong [of _ _ length])
    show "(of_char (last (randomID bs ''art_'')) :: nat) < 128" "\<not> IsSpace (of_char (last (randomID bs ''art_'')))"
      unfolding last using hex_digit_not_space [OF last_hex_encode [of bs]] by (auto simp: IsSpace_def)
  qed (auto simp: randomID_def IsSpace_def)
  then show ?thesis by (simp add: randomID_def)
qed

text \<open>What the relay answers to a fetch.\<close>

definition served :: "storedArtifact \<Rightarrow> ArtifactContent" where
  "served a = \<lparr>ac_Descriptor = sa_Descriptor a, ac_Encoding = sa_Encoding a, ac_ContentBase64 = sa_ContentBase64 a\<rparr>"

definition sha256_size :: "('l) golib_scheme \<Rightarrow> bool" where
  "sha256_size L \<longleftrightarrow> (\<forall>x. length (sha256_sum L x) = 32)"

lemma valid_name_portable: "validArtifactName L name \<Longrightarrow> validateFilename L name = Inr ()"
  by (auto simp: validArtifactName_def validateFilename_def split: if_splits)

lemma prepared_descriptors_check:
  assumes "sha256_size L" "prepare_loop L rnd req requester target dir seen tot inputs = Inr (ds, arts)"
    and "inj rnd" "\<forall>n. randomID (rnd n) ''art_'' \<notin> set ids"
  shows "check_descriptors L ids seen tot ds = Inr ()"
  using assms(2-)
proof (induction inputs arbitrary: rnd seen tot ids ds arts)
  case (Cons i inputs)
  let ?id = "randomID (rnd 0) ''art_''"
  from Cons.prems(1) obtain ds' arts' payload where
    name: "validArtifactName L (ai_Name i)" and size: "0 \<le> ai_SizeBytes i" "ai_SizeBytes i \<le> MaxAttachmentBytes"
    and new: "ToLower L (ai_Name i) \<notin> set seen" and tot: "i64 (tot + ai_SizeBytes i) \<le> MaxRequestPayloadBytes"
    and rest: "prepare_loop L (\<lambda>n. rnd (Suc n)) req requester target dir (ToLower L (ai_Name i) # seen)
        (i64 (tot + ai_SizeBytes i)) inputs = Inr (ds', arts')"
    and ds: "ds = \<lparr>ad_ArtifactID = ?id, ad_Name = ai_Name i, ad_MIMEType = ai_MIMEType i,
        ad_SizeBytes = ai_SizeBytes i, ad_SHA256 = sha256_hex L payload\<rparr> # ds'"
    by (auto simp: Let_def split: if_splits option.splits sum.splits prod.splits)
  have "check_descriptors L (?id # ids) (ToLower L (ai_Name i) # seen) (i64 (tot + ai_SizeBytes i)) ds' = Inr ()"
    by (rule Cons.IH [OF rest]) (use Cons.prems(2,3) in \<open>auto simp: inj_def randomID_same\<close>)
  moreover have "length (sha256_hex L payload) = 64" using assms(1) by (simp add: sha256_hex_def sha256_size_def)
  ultimately show ?case
    using name size new tot Cons.prems(3) by (simp add: ds valid_name_portable TrimSpace_artifact_id sha256_hex_def Let_def)
qed simp

lemma prepared_content_verifies:
  assumes "prepare_loop L rnd req requester target dir seen tot inputs = Inr (ds, arts)"
  shows "list_all2 (\<lambda>i (d, a). ad_Name d = ai_Name i \<and> (\<exists>payload. base64_decode L (ai_ContentBase64 i) = Some payload \<and>
      verifyContent L d (Some (served a)) = Inr payload)) inputs (zip ds arts) \<and> length ds = length inputs \<and>
    length arts = length inputs \<and> map sa_Descriptor arts = ds"
  using assms
proof (induction inputs arbitrary: rnd seen tot ds arts)
  case (Cons i inputs)
  from Cons.prems obtain ds' arts' payload where
    size: "ai_SizeBytes i \<le> MaxAttachmentBytes" "int (length payload) = ai_SizeBytes i"
    and decoded: "base64_decode L (ai_ContentBase64 i) = Some payload"
    and rest: "prepare_loop L (\<lambda>n. rnd (Suc n)) req requester target dir (ToLower L (ai_Name i) # seen)
        (i64 (tot + ai_SizeBytes i)) inputs = Inr (ds', arts')"
    and ds: "ds = \<lparr>ad_ArtifactID = randomID (rnd 0) ''art_'', ad_Name = ai_Name i, ad_MIMEType = ai_MIMEType i,
        ad_SizeBytes = ai_SizeBytes i, ad_SHA256 = sha256_hex L payload\<rparr> # ds'"
    and arts: "arts = \<lparr>sa_Descriptor = \<lparr>ad_ArtifactID = randomID (rnd 0) ''art_'', ad_Name = ai_Name i,
          ad_MIMEType = ai_MIMEType i, ad_SizeBytes = ai_SizeBytes i, ad_SHA256 = sha256_hex L payload\<rparr>,
        sa_Encoding = ''base64'', sa_ContentBase64 = ai_ContentBase64 i, sa_RequestID = req,
        sa_RequesterAgentID = requester, sa_TargetAgentID = target, sa_Direction = dir\<rparr> # arts'"
    by (auto simp: Let_def split: if_splits option.splits sum.splits prod.splits)
  have "EqualFold L (sha256_hex L payload) (sha256_hex L payload)"
    unfolding sha256_hex_def by (intro EqualFold_ascii_refl hex_ok_ascii hex_ok_encode)
  with Cons.IH [OF rest] size decoded show ?case
    by (auto simp: ds arts served_def verifyContent_def)
qed simp

section \<open>Examples\<close>

definition file_golib :: golib where
  "file_golib = \<lparr>sha256_sum = (\<lambda>x. take 32 (x @ replicate 32 CHR ''x'')), uni_lower = id, uni_upper = id, uni_fold = (=),
     base64_decode = Some, media_type_ok = (\<lambda>_. True)\<rparr>"

definition file_media :: mime_library where
  "file_media = \<lparr>type_of = (\<lambda>_. []), detect = (\<lambda>_. ''image/png''), encode = id\<rparr>"

definition file_manager :: Manager where
  "file_manager = \<lparr>mg_basePath = [''run''], mg_open = True\<rparr>"

definition file_sandbox :: SandboxFiles where
  "file_sandbox = \<lparr>sf_Root = [''request-a'', ''run''], sf_Attachments = [], sf_ReturnDirectory = [''return-files'', ''request-a'', ''run''],
     sf_name = ''request-a'', sf_returnInfo = Some \<lparr>fi_ID = 3, fi_Node = DirectoryNode 0x1C0\<rparr>\<rparr>"

definition file_disk :: disk where
  "file_disk = \<lparr>dk_names = [([], 0), ([''run''], 1), ([''request-a'', ''run''], 2), ([''return-files'', ''request-a'', ''run''], 3),
       ([''A.txt'', ''return-files'', ''request-a'', ''run''], 4), ([''a.txt'', ''return-files'', ''request-a'', ''run''], 5),
       ([''out'', ''request-a'', ''run''], 6)],
     dk_nodes = (\<lambda>i. if i = 4 then RegularFile ''x'' 0x180 else if i = 5 then RegularFile ''y'' 0x180
       else if i = 6 then SymlinkTo [] else DirectoryNode 0x1C0), dk_next = 7\<rparr>"

definition file_os :: os where
  "file_os = \<lparr>os_disk = file_disk, os_fails = (\<lambda>_ _. False), os_takes = (\<lambda>_. 0), os_random = (\<lambda>_. ''r''), os_umask = 0x12,
     os_env = (\<lambda>_ d. d), os_calls = 0, os_history = []\<rparr>"

lemma trimmed_names: "TrimSpace ''A.txt'' = ''A.txt''" "TrimSpace ''a.txt'' = ''a.txt''" "TrimSpace ''image/png'' = ''image/png''"
  by (rule TrimSpace_id; simp add: IsSpace_def)+

lemma portable_names: "validateFilename file_golib ''A.txt'' = Inr ()" "validateFilename file_golib ''a.txt'' = Inr ()"
  unfolding validateFilename_def
  by (simp_all add: ValidatePortableFilename_def trimmed_names ValidString_def bytes_def reserved_characters_def ContainsAny_def
      HasSuffix_def runes_def IsControl_def ToUpper_def is_ascii_def reserved_devices_def ascii_upper_def HasPrefix_def
      RuneError_def superscripts_def of_bytes_def)

lemma image_not_textual: "\<not> textualMIME file_golib ''image/png''"
  by (simp add: textualMIME_def trimmed_names Let_def HasPrefix_def ToLower_def is_ascii_def ascii_lower_def)

lemma file_entries: "sort (children file_disk [''return-files'', ''request-a'', ''run'']) = [''A.txt'', ''a.txt'']" 
  by (simp add: children_def file_disk_def less_char_def)

lemma allowed_names: "\<not> sensitiveFilename file_golib ''A.txt''" "\<not> sensitiveFilename file_golib ''a.txt''"
 "\<not> forbiddenDeliverable file_golib ''A.txt''" "\<not> forbiddenDeliverable file_golib ''a.txt''"
  by (simp_all add: sensitiveFilename_def forbiddenDeliverable_def ToLower_def is_ascii_def ascii_lower_def sensitive_names_def HasPrefix_def HasSuffix_def)

lemma file_sandbox_owned: "validateSandbox file_manager file_sandbox"
  by (simp add: validateSandbox_def file_manager_def file_sandbox_def requestDirectoryPrefix_def HasPrefix_def fs_ValidPath_def
    ContainsAny_def ValidString_def bytes_def RuneError_def)

definition file_at_call :: "nat \<Rightarrow> os" where
  "file_at_call n = file_os\<lparr>os_calls := n\<rparr>"

lemma peek_at: "peek op f (file_at_call n) = (f file_disk, file_at_call (Suc n))"
  by (simp add: peek_def arrive_def file_at_call_def file_os_def)

lemma file_inodes:
  "inode file_disk [''return-files'', ''request-a'', ''run''] = Some 3"
  "inode file_disk [''A.txt'', ''return-files'', ''request-a'', ''run''] = Some 4"
  "inode file_disk [''a.txt'', ''return-files'', ''request-a'', ''run''] = Some 5"
  by (simp_all add: inode_def file_disk_def)

lemma file_nodes: "dk_nodes file_disk 3 = DirectoryNode 0x1C0" "dk_nodes file_disk 4 = RegularFile ''x'' 0x180" "dk_nodes file_disk 5 = RegularFile ''y'' 0x180"
  by (simp_all add: file_disk_def)

lemmas file_eval = peek_at file_inodes file_nodes and_then_def refuse_def on_outcome_def give_def Lstat_def Stat_def Open_def handle_Stat_def Close_def ReadDir_def
  ReadLimited_def follow_def SameFile_def Let_def OpenRoot_def ValidateDirectory_def validatePrivateDirectory_def platformValidatePrivateDirectory_def
  ValidateContainedRegularFile_def platformValidateContainedRegularFile_def

lemma sandbox_fields: "sf_name file_sandbox = ''request-a''" "sf_ReturnDirectory file_sandbox = [''return-files'', ''request-a'', ''run'']"
  "sf_returnInfo file_sandbox = Some \<lparr>fi_ID = 3, fi_Node = DirectoryNode 0x1C0\<rparr>" "mg_basePath file_manager = [''run'']"
  by (simp_all add: file_sandbox_def file_manager_def)

lemma validate_at: "validateOwnedReturnRoot file_sandbox file_manager (file_at_call n) = (Inr (), file_at_call (n + 2))"
  by (simp add: validateOwnedReturnRoot_def sandbox_fields file_eval)

lemma open_at: "openOwnedReturnRoot file_sandbox file_manager (file_at_call n) = (Inr (), file_at_call (n + 6))"
  by (simp add: openOwnedReturnRoot_def sandbox_fields file_eval validate_at) (simp add: eval_nat_numeral)

lemma collect_at:
  assumes "i64 (tot + 1) \<le> MaxRequestPayloadBytes"
  shows "collect_one file_golib file_media file_sandbox [''return-files'', ''request-a'', ''run''] tot ''A.txt'' (file_at_call n) =
      (Inr (i64 (tot + 1), reported file_golib file_media ''A.txt'' ''x''), file_at_call (n + 8))"
    "collect_one file_golib file_media file_sandbox [''return-files'', ''request-a'', ''run''] tot ''a.txt'' (file_at_call n) =
      (Inr (i64 (tot + 1), reported file_golib file_media ''a.txt'' ''y''), file_at_call (n + 8))"
  using assms
  by (simp_all add: collect_one_def portable_names allowed_names image_not_textual sandbox_fields file_eval MaxAttachmentBytes_def
      reported_def file_media_def) (simp_all add: eval_nat_numeral)

lemma collected_twice:
  "CollectResults file_golib file_media file_manager file_sandbox (file_at_call 0) =
     (Inr [reported file_golib file_media ''A.txt'' ''x'', reported file_golib file_media ''a.txt'' ''y''], file_at_call 25)"
proof -
  have i: "i64 1 = 1" "i64 2 = 2" by (simp_all add: i64_id)
  have entries: "ReadDir [''return-files'', ''request-a'', ''run''] (file_at_call n) = (Inr [''A.txt'', ''a.txt''], file_at_call (Suc n))" for n
    by (simp add: ReadDir_def peek_at file_entries)
  show ?thesis
    by (simp add: CollectResults_def Let_def file_sandbox_owned sandbox_fields and_then_def open_at entries MaxAttachments_def
        collect_at i validate_at give_def MaxRequestPayloadBytes_def)
qed

lemma file_media_library: "media_library file_golib file_media"
  by (simp add: media_library_def file_golib_def file_media_def validMIMEType_def trimmed_names validLabel_def IsControl_def runes_def bytes_def)

lemma collected_files_are_accepted_witness:
  "let fs = [reported file_golib file_media ''A.txt'' ''x'', reported file_golib file_media ''a.txt'' ''y'']
   in CollectResults file_golib file_media file_manager file_sandbox (file_at_call 0) = (Inr fs, file_at_call 25) \<and>
      \<not> (\<exists>x. prepareArtifacts file_golib (\<lambda>_. []) fs ''r1'' ''a1'' ''a2'' ''result'' = Inr x)"
proof -
  have a: "char_of (97 :: nat) = CHR ''a''" by code_simp
  show ?thesis
  using collected_files_are_accepted [OF file_media_library collected_twice, of "\<lambda>_. []" "''r1''" "''a1''" "''a2''" "''result''"] collected_twice
  by (simp add: Let_def ToLower_def is_ascii_def ascii_lower_def a)
qed

end
