(* ===== verification/Sandbox_Theorems.thy ===== *)
theory Sandbox_Theorems
  imports Artifact_Theorems
begin

text \<open>
  What happens to the disk when a sandbox is filled and when it is removed.
\<close>

section \<open>Names below a directory\<close>

definition below :: "path \<Rightarrow> path \<Rightarrow> bool" where
  "below R q \<longleftrightarrow> (\<exists>xs. q = xs @ R)"

definition tree_closed :: "disk \<Rightarrow> bool" where
  "tree_closed d \<longleftrightarrow> (\<forall>n q. inode d q = None \<longrightarrow> inode d (n # q) = None)"

text \<open>A directory has one name.\<close>

definition dir_unique :: "disk \<Rightarrow> bool" where
  "dir_unique d \<longleftrightarrow> (\<forall>q q' i. inode d q = Some i \<longrightarrow> inode d q' = Some i \<longrightarrow> is_dir (dk_nodes d i) \<longrightarrow> q = q')"

lemma below_self [simp]: "below R R"
  by (simp add: below_def)

lemma below_Cons: "below R q \<Longrightarrow> below R (n # q)"
  by (metis append_Cons below_def)

lemma below_trans: "below R p \<Longrightarrow> below p q \<Longrightarrow> below R q"
  by (auto simp: below_def)

lemma nothing_below:
  assumes t: "tree_closed d" and p: "inode d p = None" and q: "below p q"
  shows "inode d q = None"
proof -
  from q obtain xs where q': "q = xs @ p" by (auto simp: below_def)
  have "inode d (xs @ p) = None"
    using t p by (induction xs) (auto simp: tree_closed_def)
  then show ?thesis by (simp add: q')
qed

lemma last_elements: "(\<lambda>q. case q of [] \<Rightarrow> [] | n # _ \<Rightarrow> n) ` {q \<in> N. q \<noteq> [] \<and> tl q = p} = {n. n # p \<in> N}"
  by (auto simp: neq_Nil_conv intro!: image_eqI [of _ _ "_ # p"])

lemma children_iff: "n \<in> set (children d p) \<longleftrightarrow> inode d (n # p) \<noteq> None"
proof -
  have "set (children d p) = {n. n # p \<in> set (map fst (dk_names d))}"
    unfolding children_def set_remdups set_map [of "\<lambda>q. case q of [] \<Rightarrow> [] | n # _ \<Rightarrow> n"] set_filter by (rule last_elements)
  then show ?thesis by (simp add: inode_def map_of_eq_None_iff)
qed

lemma tree_closed_delete:
  assumes "tree_closed d" "children d p = []"
  shows "tree_closed (d\<lparr>dk_names := AList.delete p (dk_names d)\<rparr>)"
proof -
  have "inode d (n # p) = None" for n using children_iff [of n d p] assms(2) by simp
  then show ?thesis using assms(1) by (auto simp: tree_closed_def inode_def delete_conv')
qed

section \<open>Removing\<close>

text \<open>\<open>clean R d0 d\<close>: from \<open>d0\<close> only names below \<open>R\<close> have gone, and only permissions below \<open>R\<close> have changed.\<close>

definition clean :: "path \<Rightarrow> disk \<Rightarrow> disk \<Rightarrow> bool" where
  "clean R d0 d \<longleftrightarrow> dir_unique d0 \<and> tree_closed d \<and> dk_next d = dk_next d0 \<and>
     (\<forall>q. inode d q \<noteq> None \<longrightarrow> inode d q = inode d0 q) \<and>
     (\<forall>q. \<not> below R q \<longrightarrow> inode d q = inode d0 q \<and> (\<forall>i. inode d0 q = Some i \<longrightarrow> dk_nodes d i = dk_nodes d0 i)) \<and>
     (\<forall>i. is_dir (dk_nodes d i) = is_dir (dk_nodes d0 i))"

definition clean_dir :: "path \<Rightarrow> disk \<Rightarrow> path \<Rightarrow> nat \<Rightarrow> disk \<Rightarrow> bool" where
  "clean_dir R d0 p i d \<longleftrightarrow> clean R d0 d \<and> inode d p = Some i \<and> is_dir (dk_nodes d i)"

lemma clean_start: "dir_unique d \<Longrightarrow> tree_closed d \<Longrightarrow> clean R d d"
  by (simp add: clean_def)

lemma is_dir_with_perm [simp]: "is_dir (with_perm m n) = is_dir n"
  by (cases n) auto

lemma Remove_clean:
  assumes p: "below R p" and I: "\<And>d. clean R d0 d \<Longrightarrow> I d"
  shows "triple F I (clean R d0) (Remove p) (\<lambda>_ d. clean R d0 d \<and> inode d p = None) (clean R d0)"
  unfolding Remove_def
proof (rule triple_sys [OF refl])
  fix d x d'
  assume d: "clean R d0 d" and run: "(if inode d p = None then (Inl ErrNotExist, d)
     else if children d p \<noteq> [] \<or> \<not> parent_ok d p then (Inl ErrFault, d)
     else (Inr (), d\<lparr>dk_names := AList.delete p (dk_names d)\<rparr>)) = (Inr x, d')"
  then have d': "d' = d\<lparr>dk_names := AList.delete p (dk_names d)\<rparr>" and c: "children d p = []" by (auto split: if_splits)
  have "tree_closed d'" unfolding d' by (rule tree_closed_delete [OF _ c]) (use d in \<open>simp add: clean_def\<close>)
  then have "clean R d0 d'" using d p by (auto simp: clean_def d' inode_def delete_conv')
  moreover have "inode d' p = None" by (simp add: d' inode_def delete_conv')
  ultimately show "(clean R d0 d' \<and> inode d' p = None) \<and> I d'" by (auto intro: I)
qed (auto intro: I split: if_splits)

lemma Chmod_clean:
  assumes p: "below R p" and I: "\<And>d. clean R d0 d \<Longrightarrow> I d"
  shows "triple F I (clean_dir R d0 p h) (Chmod h m) (\<lambda>_. clean_dir R d0 p h) (clean R d0)"
  unfolding Chmod_def
proof (rule triple_sys [OF refl])
  fix d x d'
  assume d: "clean_dir R d0 p h d" and "(Inr (), d\<lparr>dk_nodes := (dk_nodes d)(h := with_perm m (dk_nodes d h))\<rparr>) = (Inr x, d')"
  then have d': "d' = d\<lparr>dk_nodes := (dk_nodes d)(h := with_perm m (dk_nodes d h))\<rparr>" by simp
  have h: "inode d0 p = Some h" "is_dir (dk_nodes d0 h)" using d by (auto simp: clean_dir_def clean_def)
  have "inode d0 q \<noteq> Some h" if "\<not> below R q" for q
  proof
    assume "inode d0 q = Some h"
    with h d have "q = p" unfolding clean_dir_def clean_def dir_unique_def by blast
    with that p show False by simp
  qed
  then have "clean R d0 d'" using d by (auto simp: clean_dir_def clean_def d' inode_def tree_closed_def)
  moreover from this have "clean_dir R d0 p h d'" using d by (auto simp: clean_dir_def d' inode_def)
  ultimately show "clean_dir R d0 p h d' \<and> I d'" by (auto intro: I)
qed (auto simp: clean_dir_def)

lemma remove_entries_triple:
  assumes "\<And>n. triple F I P (remove (n # p)) (\<lambda>_. P) P"
  shows "triple F I P (remove_entries remove p ns) (\<lambda>_. P) P"
  by (induction ns) (auto intro: triple_give triple_and_then assms)

lemma dir_handles:
  "triple F I (clean_dir R d0 p i) (Open p) (\<lambda>h d. clean_dir R d0 p i d \<and> h = i) (clean R d0)"
  "triple F I (clean_dir R d0 p i) (OpenRoot p) (\<lambda>_. clean_dir R d0 p i) (clean R d0)"
proof -
  show "triple F I (clean_dir R d0 p i) (Open p) (\<lambda>h d. clean_dir R d0 p i d \<and> h = i) (clean R d0)"
    unfolding Open_def
    by (rule triple_peek) (auto simp: clean_dir_def follow_def split: fnode.splits if_splits option.splits)
  have keep: "triple F I (clean_dir R d0 p i) m (\<lambda>_. clean_dir R d0 p i) (clean R d0)"
    if "triple F I (clean_dir R d0 p i) m (\<lambda>_. clean_dir R d0 p i) (clean_dir R d0 p i)" for m :: "'x os_call"
    by (rule triple_conseq [OF that]) (auto simp: clean_dir_def)
  show "triple F I (clean_dir R d0 p i) (OpenRoot p) (\<lambda>_. clean_dir R d0 p i) (clean R d0)"
    unfolding OpenRoot_def
    by (rule keep, rule triple_and_then [OF look_calls(3)], rule triple_and_then [OF look_calls(4)])
      (auto intro: triple_give triple_refuse)
qed

lemma removeAll_clean:
  assumes I: "\<And>d. clean R d0 d \<Longrightarrow> I d"
  shows "below R p \<Longrightarrow> triple F I (clean R d0) (removeAll_at n p) (\<lambda>_ d. clean R d0 d \<and> inode d p = None) (clean R d0)"
proof (induction n arbitrary: p)
  case (Suc n)
  note p = Suc.prems
  let ?C = "clean R d0" and ?D = "clean_dir R d0 p"
  have sub: "triple F I ?C (removeAll_at n (x # p)) (\<lambda>_. ?C) ?C" for x
    by (rule triple_conseq [OF Suc.IH [OF below_Cons [OF p]]]) auto
  have entries: "triple F I ?C (and_then (ReadDir p) (remove_entries (removeAll_at n) p)) (\<lambda>_. ?C) ?C"
    unfolding ReadDir_def by (rule triple_and_then [OF look_same]) (rule remove_entries_triple, rule sub)
  have done_: "triple F I ?C (Remove p) (\<lambda>_ d. ?C d \<and> inode d p = None) ?C" by (rule Remove_clean [OF p I])
  have loop: "triple F I ?C (on_outcome (and_then (ReadDir p) (remove_entries (removeAll_at n) p)) (\<lambda>rd.
      on_outcome (Close h) (\<lambda>closed. case rd of Inl e \<Rightarrow> refuse e | Inr _ \<Rightarrow>
        (case closed of Inl e \<Rightarrow> refuse e | Inr _ \<Rightarrow> Remove p)))) (\<lambda>_ d. ?C d \<and> inode d p = None) ?C" for h
    by (rule triple_outcome [OF entries]; rule triple_outcome [OF look_calls(6)]) (auto intro: triple_refuse done_)
  have close: "triple F I (?D i) (Close h) (\<lambda>_. ?D i) ?C" for i h
    by (rule triple_conseq [OF look_calls(6) [where P = "?D i"]]) (auto simp: clean_dir_def)
  have mode: "triple F I (\<lambda>d. ?D i d \<and> h = i) (cleaning (Chmod h 0x1C0) (Close h)) (\<lambda>_. ?D i) ?C" for i h
    by (rule triple_pure, simp, rule triple_cleaning [OF Chmod_clean [OF p I] look_calls(6)])
  have rooted: "triple F I (?D i) (OpenRoot p) (\<lambda>_. ?C) ?C" for i
    by (rule triple_conseq [OF dir_handles(2)]) (auto simp: clean_dir_def)
  have directory: "triple F I (?D i) (and_then (Open p) (\<lambda>h. and_then (cleaning (Chmod h 0x1C0) (Close h)) (\<lambda>_.
      and_then (Close h) (\<lambda>_. and_then (OpenRoot p) (\<lambda>_. on_outcome (and_then (ReadDir p) (remove_entries (removeAll_at n) p)) (\<lambda>rd.
        on_outcome (Close h) (\<lambda>closed. case rd of Inl e \<Rightarrow> refuse e | Inr _ \<Rightarrow>
          (case closed of Inl e \<Rightarrow> refuse e | Inr _ \<Rightarrow> Remove p)))))))) (\<lambda>_ d. ?C d \<and> inode d p = None) ?C" for i
    by (rule triple_and_then [OF dir_handles(1)], rule triple_and_then [OF mode], rule triple_and_then [OF close],
        rule triple_and_then [OF rooted], rule loop)
  show ?case
    unfolding removeAll_at.simps Lstat_def
  proof (rule triple_peek_outcome, goal_cases)
    case (1 r)
    show ?case
    proof (cases r)
      case (Inl e)
      then show ?thesis
        by (auto intro!: triple_give triple_refuse split: option.splits)
    next
      case (Inr info)
      show ?thesis
      proof (cases "is_dir (fi_Node info)")
        case True
        then have "\<not> is_symlink (fi_Node info)" by (cases "fi_Node info") auto
        with True Inr directory [of "fi_ID info"] show ?thesis
          by (auto simp: clean_dir_def elim!: triple_conseq split: option.splits)
      qed (use Inr in \<open>auto intro!: triple_conseq [OF done_]\<close>)
    qed
  qed
qed (auto intro: triple_refuse)

lemma removeAll_gone:
  assumes "clean R d0 d" "inode d p = None" "below p q"
  shows "node d q = None"
  using nothing_below [OF _ assms(2,3)] assms(1) by (simp add: clean_def node_def)

text \<open>The depth suffices: a directory below another has a longer path, and no names are added.\<close>

definition names :: "disk \<Rightarrow> path set" where
  "names d = set (map fst (dk_names d))"

lemma names_iff: "q \<in> names d \<longleftrightarrow> inode d q \<noteq> None"
  by (simp add: names_def inode_def map_of_eq_None_iff)

definition within :: "path set \<Rightarrow> 'a os_call \<Rightarrow> bool" where
  "within N m \<longleftrightarrow> (\<forall>s r s'. quiet s \<longrightarrow> names (os_disk s) \<subseteq> N \<longrightarrow> m s = (r, s') \<longrightarrow>
     quiet s' \<and> names (os_disk s') \<subseteq> N \<and> r \<noteq> Inl (ErrText ''depth''))"

lemma withinI:
  assumes "\<And>s r s'. quiet s \<Longrightarrow> names (os_disk s) \<subseteq> N \<Longrightarrow> m s = (r, s') \<Longrightarrow>
     quiet s' \<and> names (os_disk s') \<subseteq> N \<and> r \<noteq> Inl (ErrText ''depth'')"
  shows "within N m"
  unfolding within_def using assms by blast

lemma within_outcome:
  assumes m: "within N m" and k: "\<And>r. r \<noteq> Inl (ErrText ''depth'') \<Longrightarrow> within N (k r)"
  shows "within N (on_outcome m k)"
proof (rule withinI)
  fix s r s' assume q: "quiet s" "names (os_disk s) \<subseteq> N" and run: "on_outcome m k s = (r, s')"
  obtain r1 s1 where m1: "m s = (r1, s1)" by fastforce
  with run have k1: "k r1 s1 = (r, s')" by (simp add: on_outcome_def)
  from m [unfolded within_def, rule_format, OF q m1] k [of r1, unfolded within_def, rule_format, OF _ _ _ k1]
  show "quiet s' \<and> names (os_disk s') \<subseteq> N \<and> r \<noteq> Inl (ErrText ''depth'')" by blast
qed

lemma within_give: "within N (give x)"
  by (rule withinI) (auto simp: give_def)

lemma within_refuse: "e \<noteq> ErrText ''depth'' \<Longrightarrow> within N (refuse e)"
  by (rule withinI) (auto simp: refuse_def)

lemma within_and_then: "within N m \<Longrightarrow> (\<And>x. within N (k x)) \<Longrightarrow> within N (and_then m k)"
  unfolding attempt_outcome by (rule within_outcome) (auto intro: within_refuse split: sum.splits)

lemma within_cleaning: "within N m \<Longrightarrow> within N c \<Longrightarrow> within N (cleaning m c)"
  unfolding cleaning_outcome
  by (rule within_outcome) (auto intro!: within_outcome within_refuse within_give split: sum.splits)

lemma within_peek: "(\<And>d. f d \<noteq> Inl (ErrText ''depth'')) \<Longrightarrow> within N (peek op f)"
  by (rule withinI) (auto simp: peek_def Let_def arrive_def quiet_def split: if_splits)

lemma within_calls:
  "within N (Lstat q)" "within N (Open q)" "within N (handle_Stat h)" "within N (Close h)" "within N (ReadDir q)"
  by (auto simp: Lstat_def Open_def handle_Stat_def Close_def ReadDir_def intro!: within_peek split: option.splits if_splits)

lemma within_OpenRoot: "within N (OpenRoot q)"
  unfolding OpenRoot_def
  by (intro within_and_then within_calls) (auto intro: within_give within_refuse)

lemma within_Chmod: "within N (Chmod h m)"
  by (rule withinI) (auto simp: names_def Chmod_def sys_def Let_def arrive_def quiet_def split: if_splits)

lemma within_Remove: "within N (Remove p)"
proof (rule withinI)
  fix s r s' assume q: "quiet s" "names (os_disk s) \<subseteq> N" and run: "Remove p s = (r, s')"
  have "dk_names (os_disk s') = dk_names (os_disk s) \<or> dk_names (os_disk s') = AList.delete p (dk_names (os_disk s))"
    and ok: "quiet s'" "r \<noteq> Inl (ErrText ''depth'')"
    using run q(1) by (auto simp: Remove_def sys_def Let_def arrive_def quiet_def split: if_splits)
  then have "names (os_disk s') \<subseteq> names (os_disk s)"
    unfolding names_def by (elim disjE) (simp_all only: delete_keys set_removeAll, blast)
  with q(2) ok show "quiet s' \<and> names (os_disk s') \<subseteq> N \<and> r \<noteq> Inl (ErrText ''depth'')" by blast
qed

lemma within_entries:
  assumes "\<And>n. n \<in> set ns \<Longrightarrow> within N (remove (n # p))"
  shows "within N (remove_entries remove p ns)"
  using assms by (induction ns) (auto intro: within_give within_and_then)

lemma within_removeAll:
  "\<forall>q \<in> N. below p q \<longrightarrow> length q < length p + n \<Longrightarrow> 0 < n \<Longrightarrow> within N (removeAll_at n p)"
proof (induction n arbitrary: p)
  case (Suc n)
  have sub: "within N (removeAll_at n (x # p))" if "x # p \<in> N" for x
  proof (rule Suc.IH)
    have "below p (x # p)" by (rule below_Cons) simp
    with Suc.prems(1) that show "0 < n" by fastforce
    show "\<forall>q \<in> N. below (x # p) q \<longrightarrow> length q < length (x # p) + n"
      using Suc.prems(1) below_trans [OF \<open>below p (x # p)\<close>] by fastforce
  qed
  have entries: "within N (and_then (ReadDir p) (remove_entries (removeAll_at n) p))"
  proof (rule withinI)
    fix s r s' assume q: "quiet s" "names (os_disk s) \<subseteq> N"
      and run: "and_then (ReadDir p) (remove_entries (removeAll_at n) p) s = (r, s')"
    obtain r1 s1 where m1: "ReadDir p s = (r1, s1)" by fastforce
    from within_calls(5) [of N p, unfolded within_def, rule_format, OF q m1]
    have s1: "quiet s1" "names (os_disk s1) \<subseteq> N" "r1 \<noteq> Inl (ErrText ''depth'')" by auto
    have "within N (remove_entries (removeAll_at n) p ns)" if "r1 = Inr ns" for ns
    proof (rule within_entries, rule sub)
      fix x assume "x \<in> set ns"
      with that m1 q(1) have "x \<in> set (children (os_disk s) p)"
        by (auto simp: ReadDir_def peek_def Let_def arrive_def quiet_def split: if_splits)
      then have "inode (os_disk s) (x # p) \<noteq> None" by (simp add: children_iff)
      with q(2) show "x # p \<in> N" using names_iff [of "x # p" "os_disk s"] by blast
    qed
    show "quiet s' \<and> names (os_disk s') \<subseteq> N \<and> r \<noteq> Inl (ErrText ''depth'')"
    proof (cases r1)
      case (Inl e)
      with run m1 s1 show ?thesis by (auto simp: and_then_def)
    next
      case (Inr ns)
      with run m1 have "remove_entries (removeAll_at n) p ns s1 = (r, s')" by (simp add: and_then_def)
      with \<open>r1 = Inr ns \<Longrightarrow> within N (remove_entries (removeAll_at n) p ns)\<close> [OF Inr] s1(1,2) show ?thesis
        unfolding within_def by blast
    qed
  qed
  have loop: "within N (on_outcome (and_then (ReadDir p) (remove_entries (removeAll_at n) p)) (\<lambda>rd.
      on_outcome (Close h) (\<lambda>closed. case rd of Inl e \<Rightarrow> refuse e | Inr _ \<Rightarrow>
        (case closed of Inl e \<Rightarrow> refuse e | Inr _ \<Rightarrow> Remove p))))" for h
    by (rule within_outcome [OF entries], rule within_outcome [OF within_calls(4)])
      (auto intro: within_refuse within_Remove split: sum.splits)
  have directory: "within N (and_then (Open p) (\<lambda>h. and_then (cleaning (Chmod h 0x1C0) (Close h)) (\<lambda>_.
      and_then (Close h) (\<lambda>_. and_then (OpenRoot p) (\<lambda>_. on_outcome (and_then (ReadDir p) (remove_entries (removeAll_at n) p)) (\<lambda>rd.
        on_outcome (Close h) (\<lambda>closed. case rd of Inl e \<Rightarrow> refuse e | Inr _ \<Rightarrow>
          (case closed of Inl e \<Rightarrow> refuse e | Inr _ \<Rightarrow> Remove p))))))))"
    by (intro within_and_then within_calls within_cleaning within_Chmod within_OpenRoot loop)
  show ?case
    unfolding removeAll_at.simps
  proof (rule within_outcome [OF within_calls(1)], goal_cases)
    case (1 r)
    then show ?case by (cases r) (simp_all add: within_give within_refuse within_Remove directory)
  qed
qed simp

text \<open>
  C39. Cleaning up a sandbox, whatever system calls fail and wherever the process is killed: on every
  disk on the way everything outside the sandbox's own directory is as it was, links in it are
  removed and not followed; when Cleanup reports success nothing is left at or below the directory;
  a depth greater than the length of every path is enough.
\<close>

theorem cleanup_stays_inside:
  fixes m sb defines "R \<equiv> sf_name sb # mg_basePath m"
  assumes alone: "quiet s" and disk: "tree_closed (os_disk s)" "dir_unique (os_disk s)"
    and depth: "0 < depth" "\<forall>q \<in> names (os_disk s). length q < depth"
    and run: "Cleanup depth m sb s = (r, s')"
  shows "(\<forall>d \<in> set (disks_between s s') \<union> {os_disk s'}. \<forall>q. \<not> below R q \<longrightarrow> node d q = node (os_disk s) q) \<and>
    (r = Inr () \<longrightarrow> (\<forall>q. below R q \<longrightarrow> node (os_disk s') q = None)) \<and>
    r \<noteq> Inl (ErrText ''depth'')"
proof (cases "validateSandbox m sb")
  case True
  let ?d0 = "os_disk s"
  from True run have rm: "removeAll_at depth R s = (r, s')" by (simp add: Cleanup_def R_def)
  have outside: "node d q = node ?d0 q" if "clean R ?d0 d" "\<not> below R q" for d q
    using that by (cases "inode ?d0 q") (auto simp: clean_def node_def)
  have t: "triple (os_fails s) (clean R ?d0) (clean R ?d0) (removeAll_at depth R)
      (\<lambda>_ d. clean R ?d0 d \<and> inode d R = None) (clean R ?d0)"
    by (rule removeAll_clean) auto
  note D = tripleD [OF t rm conjI [OF refl alone] clean_start [OF disk(2,1)]]
  have "clean R ?d0 (os_disk s')" using D(3) by (cases r) auto
  moreover have "\<forall>d \<in> set (disks_between s s'). clean R ?d0 d"
    using D(2) by (auto simp: disks_between_def list_all_iff)
  moreover have "\<forall>q. below R q \<longrightarrow> node (os_disk s') q = None" if "r = Inr ()"
    using D(3) that removeAll_gone by auto
  moreover have "r \<noteq> Inl (ErrText ''depth'')"
  proof -
    have "within (names ?d0) (removeAll_at depth R)"
      by (rule within_removeAll) (use depth in \<open>auto simp: trans_less_add2\<close>)
    then show ?thesis using alone rm unfolding within_def by blast
  qed
  ultimately show ?thesis using outside by blast
next
  case False
  with run have "r = Inl (ErrText ''artifact sandbox is not owned by this manager'')" "s' = s"
    by (simp_all add: Cleanup_def refuse_def)
  then show ?thesis by (simp add: disks_between_def)
qed

section \<open>Example\<close>

definition link_disk :: disk where
  "link_disk = \<lparr>dk_names = [([], 0), ([''run''], 1), ([''request-a'', ''run''], 2), ([''out'', ''request-a'', ''run''], 3)],
     dk_nodes = (\<lambda>i. if i = 3 then SymlinkTo [] else DirectoryNode 0x1C0), dk_next = 4\<rparr>"

definition link_os :: os where
  "link_os = file_os\<lparr>os_disk := link_disk\<rparr>"

lemma inode_link_disk:
  "inode link_disk q = (if q = [] then Some 0 else if q = [''run''] then Some 1 else if q = [''request-a'', ''run''] then Some 2
     else if q = [''out'', ''request-a'', ''run''] then Some 3 else None)"
  by (auto simp: inode_def link_disk_def)

lemma link_disk_shape: "tree_closed link_disk" "dir_unique link_disk" "\<forall>q \<in> names link_disk. length q < 4"
  by (auto simp: tree_closed_def dir_unique_def names_iff inode_link_disk split: if_splits)

text \<open>The sandbox holds a link to the root; the link goes, the root stays.\<close>

lemma cleanup_stays_inside_witness:
  "let X = Cleanup 4 file_manager file_sandbox link_os
   in fst X = Inr () \<and> node (os_disk (snd X)) [] = Some (DirectoryNode 0x1C0) \<and>
      node (os_disk (snd X)) [''out'', ''request-a'', ''run''] = None"
proof -
  let ?X = "Cleanup 4 file_manager file_sandbox link_os"
  have X: "fst ?X = Inr ()"
  proof -
    have "?X = removeAll_at 4 [''request-a'', ''run''] link_os"
      by (simp add: Cleanup_def file_sandbox_owned sandbox_fields)
    moreover have "fst (removeAll_at 4 [''request-a'', ''run''] link_os) = Inr ()" by code_simp
    ultimately show ?thesis by simp
  qed
  have d: "os_disk link_os = link_disk" "quiet link_os"
    by (simp_all add: link_os_def file_os_def quiet_def)
  have "(\<forall>d \<in> set (disks_between link_os (snd ?X)) \<union> {os_disk (snd ?X)}.
         \<forall>q. \<not> below [''request-a'', ''run''] q \<longrightarrow> node d q = node link_disk q) \<and>
      (fst ?X = Inr () \<longrightarrow> (\<forall>q. below [''request-a'', ''run''] q \<longrightarrow> node (os_disk (snd ?X)) q = None)) \<and>
      fst ?X \<noteq> Inl (ErrText ''depth'')"
    using cleanup_stays_inside [of link_os 4 file_manager file_sandbox "fst ?X" "snd ?X"]
    by (simp add: d link_disk_shape sandbox_fields)
  moreover have "\<not> below [''request-a'', ''run''] []" "below [''request-a'', ''run''] [''out'', ''request-a'', ''run'']"
    by (auto simp: below_def intro: exI [of _ "[''out'']"])
  moreover have "node link_disk [] = Some (DirectoryNode 0x1C0)" by (simp add: node_def inode_link_disk) (simp add: link_disk_def)
  ultimately show ?thesis using X by (simp add: Let_def)
qed

end
