(* ===== verification/Delivery_Theorems.thy ===== *)
theory Delivery_Theorems
  imports Sandbox_Theorems
begin

text \<open>
  Attachments from the relay's database to the files of the recipient's sandbox.
\<close>

section \<open>The disk while a sandbox is filled\<close>

definition kept :: "disk \<Rightarrow> disk \<Rightarrow> bool" where
  "kept d0 d \<longleftrightarrow> wf_disk d0 \<and> wf_disk d \<and> dk_next d0 \<le> dk_next d \<and> tree_closed d \<and> dir_unique d \<and> (\<forall>q. same_at d0 d q)"

definition own :: "disk \<Rightarrow> path \<Rightarrow> disk \<Rightarrow> bool" where
  "own d0 R d \<longleftrightarrow> kept d0 d \<and> (\<forall>q. below R q \<longrightarrow> inode d0 q = None \<and> (\<forall>i. inode d q = Some i \<longrightarrow> dk_next d0 \<le> i))"

definition directory_at :: "disk \<Rightarrow> path \<Rightarrow> bool" where
  "directory_at d p \<longleftrightarrow> (\<exists>i. inode d p = Some i \<and> is_dir (dk_nodes d i))"

definition holding :: "disk \<Rightarrow> path \<Rightarrow> path set \<Rightarrow> (path \<times> string) list \<Rightarrow> disk \<Rightarrow> bool" where
  "holding d0 R Ds files d \<longleftrightarrow> own d0 R d \<and> (\<forall>p \<in> Ds. directory_at d p) \<and> (\<forall>(p, b) \<in> set files. contents d p = Some b)"

definition writing :: "disk \<Rightarrow> path \<Rightarrow> path set \<Rightarrow> (path \<times> string) list \<Rightarrow> path \<Rightarrow> nat \<Rightarrow> string \<Rightarrow> disk \<Rightarrow> bool" where
  "writing d0 R Ds files p h b d \<longleftrightarrow> holding d0 R Ds files d \<and> p \<notin> fst ` set files \<and> dk_next d0 \<le> h \<and> inode d p = Some h \<and>
     (\<forall>q. inode d q = Some h \<longrightarrow> q = p) \<and> (\<exists>m. dk_nodes d h = RegularFile b m)"

lemma own_kept: "own d0 R d \<Longrightarrow> kept d0 d"
  by (simp add: own_def)

lemma holding_own: "holding d0 R Ds files d \<Longrightarrow> own d0 R d"
  by (simp add: holding_def)

lemma writing_holding: "writing d0 R Ds files p h b d \<Longrightarrow> holding d0 R Ds files d"
  by (simp add: writing_def)

lemma writing_parts:
  assumes "writing d0 R Ds files p h b d"
  shows "holding d0 R Ds files d" "p \<notin> fst ` set files" "dk_next d0 \<le> h" "inode d p = Some h"
    "\<And>q. inode d q = Some h \<Longrightarrow> q = p" "\<exists>m. dk_nodes d h = RegularFile b m" "own d0 R d"
  using assms unfolding writing_def holding_def by blast+

lemma writing_own: "writing d0 R Ds files p h b d \<Longrightarrow> own d0 R d"
  by (rule writing_parts(7))

lemma kept_old: "kept d0 d \<Longrightarrow> inode d0 q = Some i \<Longrightarrow> i < dk_next d0 \<and> inode d q = Some i \<and> dk_nodes d i = dk_nodes d0 i"
  by (auto simp: kept_def same_at_def wf_disk_def)

lemma parent_exists: "parent_ok d p \<Longrightarrow> p \<noteq> [] \<and> inode d (tl p) \<noteq> None"
  by (auto simp: parent_ok_def follow_def split: option.splits)

lemma inode_new [simp]: "inode (new_name d p n) q = (if q = p then Some (dk_next d) else inode d q)"
  by (simp add: inode_def new_name_def)

lemma nodes_new: "dk_nodes (new_name d p n) = (dk_nodes d)(dk_next d := n)"
  by (simp add: new_name_def)

lemma kept_new:
  assumes k: "kept d0 d" and p: "inode d p = None" "parent_ok d p"
  shows "kept d0 (new_name d p n)"
proof -
  let ?d = "new_name d p n"
  have old: "inode d q = Some i \<Longrightarrow> i < dk_next d" for q i using k by (auto simp: kept_def wf_disk_def)
  have "dk_next ?d = Suc (dk_next d)" by (simp add: new_name_def)
  then have "wf_disk ?d" using old by (force simp: wf_disk_def less_Suc_eq split: if_splits)
  moreover have "tree_closed ?d"
    using k p parent_exists [OF p(2)] by (auto simp: kept_def tree_closed_def neq_Nil_conv)
  moreover have "dir_unique ?d"
    using k old by (auto simp: kept_def dir_unique_def nodes_new split: if_splits dest!: old)
  moreover have "same_at d0 ?d q" for q
    using kept_old [OF k, of q] old p by (force simp: same_at_def nodes_new)
  ultimately show ?thesis using k by (simp add: kept_def new_name_def)
qed

lemma own_new:
  assumes o: "own d0 R d" and p: "inode d p = None" "parent_ok d p"
  shows "own d0 R (new_name d p n)"
  using o kept_new [OF own_kept [OF o] p] by (auto simp: own_def kept_def)

lemma own_root:
  assumes k: "kept d0 d" and p: "inode d R = None" "parent_ok d R"
  shows "own d0 R (new_name d R n)"
proof -
  have none: "inode d q = None" if "below R q" for q
    using nothing_below [OF _ p(1) that] k by (simp add: kept_def)
  then have "inode d0 q = None" if "below R q" for q
    using kept_old [OF k, of q] that by (cases "inode d0 q") auto
  with none k kept_new [OF k p] show ?thesis by (auto simp: own_def kept_def)
qed

lemma directory_new: "directory_at d q \<Longrightarrow> wf_disk d \<Longrightarrow> inode d p = None \<Longrightarrow> directory_at (new_name d p n) q"
  by (force simp: directory_at_def nodes_new wf_disk_def)

lemma contents_new: "contents d q = Some b \<Longrightarrow> wf_disk d \<Longrightarrow> inode d p = None \<Longrightarrow> contents (new_name d p n) q = Some b"
  by (auto simp: contents_def node_def nodes_new wf_disk_def split: option.splits fnode.splits)

lemma holding_new:
  assumes h: "holding d0 R Ds files d" and p: "inode d p = None" "parent_ok d p"
  shows "holding d0 R Ds files (new_name d p n)"
proof -
  have "wf_disk d" using h by (auto simp: holding_def own_def kept_def)
  with h p own_new [OF holding_own [OF h] p] show ?thesis
    by (auto simp: holding_def intro: directory_new contents_new)
qed

definition intact :: "disk \<Rightarrow> disk \<Rightarrow> bool" where
  "intact d0 d \<longleftrightarrow> (\<forall>q. same_at d0 d q)"

lemma kept_intact: "kept d0 d \<Longrightarrow> intact d0 d" "own d0 R d \<Longrightarrow> intact d0 d" "holding d0 R Ds files d \<Longrightarrow> intact d0 d"
  by (simp_all add: intact_def kept_def own_def holding_def)

lemma Mkdir_holding:
  "triple F (intact d0) (holding d0 R Ds files) (Mkdir p m) (\<lambda>_. holding d0 R (insert p Ds) files) (own d0 R)"
proof (rule triple_sys [OF Mkdir_def])
  fix s d x d'
  assume h: "holding d0 R Ds files d" and run: "(if inode d p \<noteq> None then (Inl ErrExist, d)
     else if \<not> parent_ok d p then (Inl ErrNotExist, d)
     else (Inr (), new_name d p (DirectoryNode (m AND NOT (os_umask s))))) = (Inr x, d')"
  then have p: "inode d p = None" "parent_ok d p" and d': "d' = new_name d p (DirectoryNode (m AND NOT (os_umask s)))"
    by (auto split: if_splits)
  have "directory_at d' p" by (simp add: directory_at_def d' nodes_new)
  with holding_new [OF h p] have "holding d0 R (insert p Ds) files d'" by (simp add: holding_def d')
  then show "holding d0 R (insert p Ds) files d' \<and> intact d0 d'" by (blast intro: kept_intact)
qed (auto split: if_splits dest: holding_own kept_intact)

lemma Mkdir_root:
  "triple F (intact d0) (kept d0) (Mkdir R m) (\<lambda>_. holding d0 R {R} []) (kept d0)"
proof (rule triple_sys [OF Mkdir_def])
  fix s d x d'
  assume k: "kept d0 d" and run: "(if inode d R \<noteq> None then (Inl ErrExist, d)
     else if \<not> parent_ok d R then (Inl ErrNotExist, d)
     else (Inr (), new_name d R (DirectoryNode (m AND NOT (os_umask s))))) = (Inr x, d')"
  then have p: "inode d R = None" "parent_ok d R" and d': "d' = new_name d R (DirectoryNode (m AND NOT (os_umask s)))"
    by (auto split: if_splits)
  have "directory_at d' R" by (simp add: directory_at_def d' nodes_new)
  with own_root [OF k p] have "holding d0 R {R} [] d'" by (simp add: holding_def d')
  then show "holding d0 R {R} [] d' \<and> intact d0 d'" by (blast intro: kept_intact)
qed (auto split: if_splits dest: kept_intact)

lemma Remove_own:
  assumes p: "below R p"
  shows "triple F (intact d0) (own d0 R) (Remove p) (\<lambda>_. own d0 R) (own d0 R)"
  unfolding Remove_def
proof (rule triple_sys [OF refl])
  fix d x d'
  assume d: "own d0 R d" and run: "(if inode d p = None then (Inl ErrNotExist, d)
     else if children d p \<noteq> [] \<or> \<not> parent_ok d p then (Inl ErrFault, d)
     else (Inr (), d\<lparr>dk_names := AList.delete p (dk_names d)\<rparr>)) = (Inr x, d')"
  then have d': "d' = d\<lparr>dk_names := AList.delete p (dk_names d)\<rparr>" and c: "children d p = []" by (auto split: if_splits)
  have "tree_closed d'" unfolding d' by (rule tree_closed_delete [OF _ c]) (use d in \<open>simp add: own_def kept_def\<close>)
  moreover have "same_at d0 d' q" for q
  proof -
    have "inode d0 p = None" using d p by (simp add: own_def)
    then show ?thesis using kept_old [OF own_kept [OF d], of q] by (auto simp: same_at_def d' inode_def delete_conv')
  qed
  ultimately have "own d0 R d'"
    using d by (auto simp: own_def kept_def wf_disk_def dir_unique_def d' inode_def delete_conv')
  then show "own d0 R d' \<and> intact d0 d'" by (blast intro: kept_intact)
qed (auto split: if_splits dest: kept_intact)

lemma CreateDirectory_after:
  assumes made: "triple F (intact d0) P (Mkdir p 0x1C0) (\<lambda>_. Q) E" and p: "below R p"
    and Q: "\<And>d. Q d \<Longrightarrow> own d0 R d" and E: "\<And>d. own d0 R d \<Longrightarrow> E d"
  shows "triple F (intact d0) P (CreateDirectory p) (\<lambda>_. Q) E"
proof -
  have undo: "triple F (intact d0) Q (Remove p) (\<lambda>_. E) E"
    by (rule triple_conseq [OF Remove_own [OF p]]) (auto intro: Q E)
  have look: "triple F (intact d0) Q (Lstat p) (\<lambda>_. Q) E"
    by (rule triple_conseq [OF look_calls(1) [where P = Q]]) (auto intro: Q E)
  show ?thesis unfolding CreateDirectory_def platformCreatePrivateDirectory_def
    by (rule triple_and_then [OF made], rule triple_and_then [OF look],
        rule triple_and_then [OF triple_cleaning [OF validate_same(1) undo] triple_cleaning [OF SyncDirectory_same undo]])
qed

section \<open>Writing one attachment\<close>

lemma OpenNewFile_writing:
  assumes p: "below R p"
  shows "triple F (intact d0) (holding d0 R Ds files) (OpenNewFile p m) (\<lambda>h. writing d0 R Ds files p h []) (own d0 R)"
  unfolding OpenNewFile_def platformOpenNewPrivateFile_def
proof (rule triple_sys [OF OpenExclusive_def])
  fix s d x d'
  let ?n = "RegularFile [] ((m AND 0x1FF) AND 0x1FF AND NOT (os_umask s))"
  assume h: "holding d0 R Ds files d" and run: "(if inode d p \<noteq> None then (Inl ErrExist, d)
     else if \<not> parent_ok d p then (Inl ErrNotExist, d) else (Inr (dk_next d), new_name d p ?n)) = (Inr x, d')"
  then have new: "inode d p = None" "parent_ok d p" "x = dk_next d" and d': "d' = new_name d p ?n"
    by (auto split: if_splits)
  have wf: "wf_disk d" "dk_next d0 \<le> dk_next d" using h by (auto simp: holding_def own_def kept_def)
  have "p \<notin> fst ` set files"
    using h new(1) by (auto simp: holding_def contents_def node_def)
  with wf holding_new [OF h new(1,2)] have "writing d0 R Ds files p x [] d'"
    by (auto simp: writing_def d' nodes_new new(3) wf_disk_def)
  then show "writing d0 R Ds files p x [] d' \<and> intact d0 d'" by (blast dest: writing_own kept_intact(2))
qed (auto split: if_splits dest: holding_own kept_intact)

text \<open>Changing the file that is being written touches nothing else that is known.\<close>

lemma writing_update:
  assumes w: "writing d0 R Ds files p h b d" and n: "n = RegularFile c m"
  shows "writing d0 R Ds files p h c (d\<lparr>dk_nodes := (dk_nodes d)(h := n)\<rparr>)"
proof -
  let ?d = "d\<lparr>dk_nodes := (dk_nodes d)(h := n)\<rparr>"
  have i [simp]: "inode ?d q = inode d q" for q by (simp add: inode_def)
  have h: "dk_next d0 \<le> h" "inode d p = Some h" "\<forall>q. inode d q = Some h \<longrightarrow> q = p" "\<not> is_dir (dk_nodes d h)"
  proof -
    show "dk_next d0 \<le> h" "inode d p = Some h" "\<forall>q. inode d q = Some h \<longrightarrow> q = p" using writing_parts(3,4,5) [OF w] by blast+
    from writing_parts(6) [OF w] obtain m' where "dk_nodes d h = RegularFile b m'" by blast
    then show "\<not> is_dir (dk_nodes d h)" by simp
  qed
  have o: "own d0 R d" by (rule writing_parts(7) [OF w])
  have "same_at d0 ?d q" for q
    using kept_old [OF own_kept [OF o], of q] h(1) by (auto simp: same_at_def)
  moreover have "wf_disk ?d" "tree_closed ?d" using o by (simp_all add: own_def kept_def wf_disk_def tree_closed_def)
  moreover have "dir_unique ?d"
  proof -
    have "is_dir (dk_nodes ?d i) \<Longrightarrow> is_dir (dk_nodes d i)" for i using n by (auto split: if_splits)
    moreover have "dir_unique d" using o by (simp add: own_def kept_def)
    ultimately show ?thesis unfolding dir_unique_def i by blast
  qed
  ultimately have "own d0 R ?d" using o by (simp add: own_def kept_def)
  moreover have "directory_at ?d q" if "directory_at d q" for q
    using that h(4) by (auto simp: directory_at_def)
  moreover have "contents ?d q = Some b'" if "(q, b') \<in> set files" for q b'
  proof -
    from that writing_parts(2) [OF w] have "q \<noteq> p" by force
    with h(3) have "inode d q \<noteq> Some h" by blast
    moreover have "contents d q = Some b'" using writing_parts(1) [OF w] that by (auto simp: holding_def)
    ultimately show ?thesis by (auto simp: contents_def node_def split: option.splits)
  qed
  ultimately have "holding d0 R Ds files ?d" using writing_parts(1) [OF w] by (auto simp: holding_def)
  moreover have "\<exists>m. dk_nodes ?d h = RegularFile c m" using n by simp
  ultimately show ?thesis using writing_parts(2) [OF w] h(1,2,3) unfolding writing_def i by blast
qed

lemma Write_writing:
  "triple F (intact d0) (writing d0 R Ds files p h b) (Write h c) (\<lambda>_. writing d0 R Ds files p h (b @ c)) (own d0 R)"
proof (rule tripleI)
  fix s r s' assume F: "os_fails s = F \<and> quiet s" and w: "writing d0 R Ds files p h b (os_disk s)" and run: "Write h c s = (r, s')"
  define n where "n = (if os_fails s Transfer (os_calls s) then min (os_takes s (os_calls s)) (length c) else length c)"
  define d where "d = appended (os_disk s) h (take n c)"
  from writing_parts(6) [OF w] obtain m where m: "dk_nodes (os_disk s) h = RegularFile b m" by blast
  then have "d = (os_disk s)\<lparr>dk_nodes := (dk_nodes (os_disk s))(h := RegularFile (b @ take n c) m)\<rparr>"
    by (simp add: d_def appended_def)
  with writing_update [OF w refl, of "b @ take n c" m] have "writing d0 R Ds files p h (b @ take n c) d" by simp
  moreover from this have "intact d0 d" "own d0 R d" by (blast dest: writing_parts(7) kept_intact(2))+
  moreover have "os_disk (arrive s) = os_disk s" "quiet (arrive s)" "os_fails (arrive s) = F" using F by (auto simp: arrive_def quiet_def)
  ultimately show "os_fails s' = F \<and> quiet s' \<and> (\<exists>new. os_history s' = os_history s @ new \<and> list_all (intact d0) new) \<and>
      (case r of Inr x \<Rightarrow> writing d0 R Ds files p h (b @ c) (os_disk s') | Inl _ \<Rightarrow> own d0 R (os_disk s'))"
    using run by (auto simp: Write_def Let_def n_def d_def quiet_def split: if_splits)
qed

lemma Chmod_writing:
  "triple F (intact d0) (writing d0 R Ds files p h b) (Chmod h m) (\<lambda>_. writing d0 R Ds files p h b) (own d0 R)"
  unfolding Chmod_def
proof (rule triple_sys [OF refl])
  fix d x d'
  assume w: "writing d0 R Ds files p h b d" and "(Inr (), d\<lparr>dk_nodes := (dk_nodes d)(h := with_perm m (dk_nodes d h))\<rparr>) = (Inr x, d')"
  then have d': "d' = d\<lparr>dk_nodes := (dk_nodes d)(h := with_perm m (dk_nodes d h))\<rparr>" by simp
  have "\<exists>m'. with_perm m (dk_nodes d h) = RegularFile b m'" using writing_parts(6) [OF w] by auto
  with writing_update [OF w] have "writing d0 R Ds files p h b d'" by (auto simp: d')
  then show "writing d0 R Ds files p h b d' \<and> intact d0 d'" by (blast dest: writing_own kept_intact(2))
qed (auto dest: writing_own kept_intact)

lemma looks_writing:
  "triple F I (writing d0 R Ds files p h b) (Close h') (\<lambda>_. writing d0 R Ds files p h b) (own d0 R)"
  "triple F I (writing d0 R Ds files p h b) (cleaning (Sync h') (Close h')) (\<lambda>_. writing d0 R Ds files p h b) (own d0 R)"
  "triple F I (writing d0 R Ds files p h b) (ValidateRegularFile p)
     (\<lambda>_. holding d0 R Ds ((p, b) # files)) (own d0 R)"
proof -
  let ?W = "writing d0 R Ds files p h b"
  have weak: "triple F I ?W m (\<lambda>_. ?W) (own d0 R)" if "triple F I ?W m (\<lambda>_. ?W) ?W" for m :: "'x os_call"
    by (rule triple_conseq [OF that]) (auto dest: writing_own)
  show "triple F I ?W (Close h') (\<lambda>_. ?W) (own d0 R)" by (rule weak [OF look_calls(6)])
  show "triple F I ?W (cleaning (Sync h') (Close h')) (\<lambda>_. ?W) (own d0 R)"
    by (rule weak) (rule triple_cleaning [OF look_calls(5,6)])
  have "triple F I ?W (ValidateRegularFile p) (\<lambda>_. ?W) ?W"
    unfolding ValidateRegularFile_def by (rule triple_and_then [OF look_calls(1) validate_same(2)])
  moreover have "holding d0 R Ds ((p, b) # files) d" if "?W d" for d
    using writing_parts(1,4,6) [OF that] by (auto simp: holding_def contents_def node_def)
  ultimately show "triple F I ?W (ValidateRegularFile p) (\<lambda>_. holding d0 R Ds ((p, b) # files)) (own d0 R)"
    by (elim triple_conseq) (auto dest: writing_own)
qed

lemma clean_writing:
  assumes "triple F I P m Q (own d0 R)"
  shows "triple F I P (cleaning m (Close h)) Q (own d0 R)"
  by (rule triple_cleaning [OF assms look_calls(6)])

section \<open>Filling a sandbox\<close>

text \<open>\<open>payloads\<close>: what \<open>fetch\<close> yields for the descriptors once it is verified.\<close>

definition payloads ::
  "('l) golib_scheme \<Rightarrow> (string \<Rightarrow> (unit, ArtifactContent option) result) \<Rightarrow> ArtifactDescriptor list \<Rightarrow> string list \<Rightarrow> bool" where
  "payloads L fetch ds bs \<longleftrightarrow>
     list_all2 (\<lambda>d b. \<exists>c. fetch (ad_ArtifactID d) = Inr c \<and> verifyContent L d c = Inr b) ds bs"

definition attachment_paths :: "path \<Rightarrow> ArtifactDescriptor list \<Rightarrow> path list" where
  "attachment_paths R ds = map (\<lambda>d. ad_Name d # ''attachments'' # R) ds"

lemma fetch_attachments_holding:
  "triple F (intact d0) (holding d0 R Ds files) (fetch_attachments L fetch R seen attached ds)
     (\<lambda>paths d. paths = attached @ attachment_paths R ds \<and>
        (\<exists>bs. payloads L fetch ds bs \<and> holding d0 R Ds (rev (zip (attachment_paths R ds) bs) @ files) d)) (own d0 R)"
proof (induction ds arbitrary: seen attached files)
  case Nil
  show ?case by (auto intro!: triple_give simp: attachment_paths_def payloads_def)
next
  case (Cons d ds)
  let ?p = "ad_Name d # ''attachments'' # R"
  have p: "below R ?p" by (intro below_Cons below_self)
  show ?case
  proof (cases "\<exists>b c. fetch (ad_ArtifactID d) = Inr c \<and> verifyContent L d c = Inr b \<and> ToLower L (ad_Name d) \<notin> set seen")
    case False
    then consider "ToLower L (ad_Name d) \<in> set seen" | e where "ToLower L (ad_Name d) \<notin> set seen" "fetch (ad_ArtifactID d) = Inl e"
      | c e where "ToLower L (ad_Name d) \<notin> set seen" "fetch (ad_ArtifactID d) = Inr c" "verifyContent L d c = Inl e"
      by (metis sum.exhaust_sel)
    then have "\<exists>e. fetch_attachments L fetch R seen attached (d # ds) = refuse e"
    proof cases
      case 1
      then show ?thesis by (intro exI [of _ "ErrText ''duplicate attachment filename''"]) (simp add: Let_def)
    next
      case 2
      then show ?thesis by (intro exI [of _ "ErrText ''fetch attachment''"]) (simp add: Let_def)
    next
      case 3
      then show ?thesis by (intro exI [of _ "ErrText ''verify attachment''"]) (simp add: Let_def)
    qed
    then obtain e where e: "fetch_attachments L fetch R seen attached (d # ds) = refuse e" by blast
    show ?thesis unfolding e by (rule triple_refuse) (auto dest: holding_own)
  next
    case True
    then obtain b c where b: "fetch (ad_ArtifactID d) = Inr c" "verifyContent L d c = Inr b" "ToLower L (ad_Name d) \<notin> set seen"
      by blast
    have rest: "triple F (intact d0) (holding d0 R Ds ((?p, b) # files))
        (fetch_attachments L fetch R (ToLower L (ad_Name d) # seen) (attached @ [?p]) ds)
        (\<lambda>paths d'. paths = attached @ attachment_paths R (d # ds) \<and>
          (\<exists>bs. payloads L fetch (d # ds) bs \<and> holding d0 R Ds (rev (zip (attachment_paths R (d # ds)) bs) @ files) d')) (own d0 R)"
    proof (rule triple_conseq [OF Cons.IH], assumption, elim conjE exE)
      fix paths d' bs
      assume "paths = (attached @ [?p]) @ attachment_paths R ds" "payloads L fetch ds bs"
        "holding d0 R Ds (rev (zip (attachment_paths R ds) bs) @ (?p, b) # files) d'"
      then show "paths = attached @ attachment_paths R (d # ds) \<and>
          (\<exists>bs. payloads L fetch (d # ds) bs \<and> holding d0 R Ds (rev (zip (attachment_paths R (d # ds)) bs) @ files) d')"
        by (intro conjI exI [of _ "b # bs"]) (simp_all add: attachment_paths_def payloads_def b)
    qed
    have wrote: "triple F (intact d0) (writing d0 R Ds files ?p h []) (cleaning (Write h b) (Close h))
        (\<lambda>_. writing d0 R Ds files ?p h b) (own d0 R)" for h
      using clean_writing [OF Write_writing [of F d0 R Ds files ?p h "[]" b], of h] by simp
    show ?thesis
      by (simp add: b Let_def, rule triple_and_then [OF OpenNewFile_writing [OF p]], rule triple_and_then [OF wrote],
        rule triple_and_then [OF clean_writing [OF Chmod_writing]], rule triple_and_then [OF looks_writing(2)],
        rule triple_and_then [OF looks_writing(1)], rule triple_and_then [OF looks_writing(3) rest])
  qed
qed

lemma Chmod_directory:
  assumes A: "A \<in> Ds" "below R A"
  shows "triple F (intact d0) (\<lambda>d. holding d0 R Ds files d \<and> inode d A = Some h) (Chmod h m) (\<lambda>_. holding d0 R Ds files) (own d0 R)"
  unfolding Chmod_def
proof (rule triple_sys [OF refl])
  fix d :: disk and x d'
  let ?d = "d\<lparr>dk_nodes := (dk_nodes d)(h := with_perm m (dk_nodes d h))\<rparr>"
  assume d: "holding d0 R Ds files d \<and> inode d A = Some h" and "(Inr (), ?d) = (Inr x, d')"
  then have d': "d' = ?d" by simp
  have i: "inode ?d q = inode d q" for q by (simp add: inode_def)
  have o: "own d0 R d" using d by (simp add: holding_def)
  then have h: "dk_next d0 \<le> h" using d A by (auto simp: own_def)
  have dir: "is_dir (dk_nodes d h)" using d A by (auto simp: holding_def directory_at_def)
  have isd: "is_dir (((dk_nodes d)(h := with_perm m (dk_nodes d h))) i) = is_dir (dk_nodes d i)" for i by simp
  have "same_at d0 ?d q" for q
    using kept_old [OF own_kept [OF o], of q] h by (auto simp: same_at_def i)
  then have "own d0 R ?d"
    using o by (simp add: own_def kept_def wf_disk_def tree_closed_def dir_unique_def i isd del: fun_upd_apply)
  moreover have "directory_at ?d q" if "directory_at d q" for q
    using that by (simp add: directory_at_def i isd del: fun_upd_apply)
  moreover have "contents ?d q = Some b" if "contents d q = Some b" for q b
    using that dir by (auto simp: contents_def node_def i split: option.splits fnode.splits)
  ultimately have "holding d0 R Ds files ?d" using d by (auto simp: holding_def)
  then show "holding d0 R Ds files d' \<and> intact d0 d'" by (auto simp: d' dest: kept_intact)
qed (auto dest: holding_own kept_intact)

lemma Open_directory:
  assumes "A \<in> Ds"
  shows "triple F I (holding d0 R Ds files) (Open A) (\<lambda>h d. holding d0 R Ds files d \<and> inode d A = Some h) (own d0 R)"
  unfolding Open_def
  by (rule triple_peek)
    (use assms in \<open>auto simp: holding_def directory_at_def follow_def split: fnode.splits if_splits option.splits\<close>)

lemma holding_looks:
  "triple F I (holding d0 R Ds files) m (\<lambda>_. holding d0 R Ds files) (holding d0 R Ds files) \<Longrightarrow>
   triple F I (holding d0 R Ds files) m (\<lambda>_. holding d0 R Ds files) (own d0 R)"
  by (erule triple_conseq) (auto dest: holding_own)

lemma fill_sandbox_holding:
  assumes sb: "sf_Root sb = R" "sf_ReturnDirectory sb = ''return-files'' # R"
  shows "triple F (intact d0) (holding d0 R {R} []) (fill_sandbox L fetch ds sb)
     (\<lambda>sb' d. sf_Root sb' = R \<and> sf_Attachments sb' = attachment_paths R ds \<and>
        (\<exists>bs Ds. payloads L fetch ds bs \<and> holding d0 R Ds (rev (zip (attachment_paths R ds) bs)) d)) (own d0 R)"
proof -
  let ?A = "''attachments'' # R" and ?O = "''return-files'' # R" and ?I = "intact d0"
  have b: "below R ?A" "below R ?O" by (auto intro: below_Cons)
  have make: "triple F ?I (holding d0 R Ds []) (CreateDirectory p) (\<lambda>_. holding d0 R (insert p Ds) []) (own d0 R)"
    if "below R p" for p Ds
    by (rule CreateDirectory_after [OF Mkdir_holding that]) (auto dest: holding_own)
  let ?Ds = "{?O, ?A, R}"
  let ?files = "\<lambda>bs. rev (zip (attachment_paths R ds) bs)"
  let ?H = "\<lambda>bs. holding d0 R ?Ds (?files bs)"
  have sync: "triple F ?I (?H bs) (SyncDirectory ?A) (\<lambda>_. ?H bs) (own d0 R)" for bs
    by (rule holding_looks [OF SyncDirectory_same])
  have mode: "triple F ?I (\<lambda>d. ?H bs d \<and> inode d ?A = Some h) (cleaning (Chmod h 0x140) (Close h)) (\<lambda>_. ?H bs) (own d0 R)" for bs h
    by (rule clean_writing [OF Chmod_directory]) (auto intro: b)
  have close: "triple F ?I (?H bs) (cleaning (Sync h) (Close h)) (\<lambda>_. ?H bs) (own d0 R)"
    "triple F ?I (?H bs) (Close h) (\<lambda>_. ?H bs) (own d0 R)" for bs h
    by (rule holding_looks, rule triple_cleaning [OF look_calls(5,6)]) (rule holding_looks [OF look_calls(6)])
  have last: "triple F ?I (?H bs) (and_then (SyncDirectory ?A) (\<lambda>_. and_then (Open ?A) (\<lambda>h.
      and_then (cleaning (Chmod h 0x140) (Close h)) (\<lambda>_. and_then (cleaning (Sync h) (Close h)) (\<lambda>_. and_then (Close h) (\<lambda>_.
        give (sb\<lparr>sf_Attachments := attachment_paths R ds, sf_returnInfo := Some info\<rparr>)))))))
      (\<lambda>sb' d. sf_Root sb' = R \<and> sf_Attachments sb' = attachment_paths R ds \<and>
        (\<exists>bs Ds. payloads L fetch ds bs \<and> holding d0 R Ds (?files bs) d)) (own d0 R)"
    if "payloads L fetch ds bs" for bs info
    by (rule triple_and_then [OF sync], rule triple_and_then [OF Open_directory], simp, rule triple_and_then [OF mode],
        rule triple_and_then [OF close(1)], rule triple_and_then [OF close(2)], rule triple_give)
      (use that sb in auto)
  have fetched: "triple F ?I (holding d0 R ?Ds []) (fetch_attachments L fetch R [] [] ds)
      (\<lambda>paths d. (\<exists>bs. (?H bs d \<and> payloads L fetch ds bs)) \<and> paths = attachment_paths R ds) (own d0 R)"
    using fetch_attachments_holding [of F d0 R ?Ds "[]" L fetch "[]" "[]" ds]
    by (rule triple_conseq) auto
  have stored: "triple F ?I (\<lambda>d. (\<exists>bs. (?H bs d \<and> payloads L fetch ds bs)) \<and> paths = attachment_paths R ds)
      (and_then (SyncDirectory ?A) (\<lambda>_. and_then (Open ?A) (\<lambda>h.
      and_then (cleaning (Chmod h 0x140) (Close h)) (\<lambda>_. and_then (cleaning (Sync h) (Close h)) (\<lambda>_. and_then (Close h) (\<lambda>_.
        give (sb\<lparr>sf_Attachments := paths, sf_returnInfo := Some info\<rparr>)))))))
      (\<lambda>sb' d. sf_Root sb' = R \<and> sf_Attachments sb' = attachment_paths R ds \<and>
        (\<exists>bs Ds. payloads L fetch ds bs \<and> holding d0 R Ds (?files bs) d)) (own d0 R)" for paths info
    by (rule triple_pure, rule triple_ex, rule triple_pure) (use last in simp)
  have make1: "triple F ?I (holding d0 R {R} []) (CreateDirectory ?A) (\<lambda>_. holding d0 R {?A, R} []) (own d0 R)"
    using make [OF b(1), of "{R}"] by simp
  have make2: "triple F ?I (holding d0 R {?A, R} []) (CreateDirectory ?O) (\<lambda>_. holding d0 R ?Ds []) (own d0 R)"
    using make [OF b(2), of "{?A, R}"] by simp
  have pin: "triple F ?I (holding d0 R ?Ds []) (Lstat ?O) (\<lambda>_. holding d0 R ?Ds []) (own d0 R)"
    by (rule holding_looks [OF look_calls(1)])
  show ?thesis
    unfolding fill_sandbox_def fill_directories_def Let_def sb
    by (rule triple_and_then [OF make1], rule triple_and_then [OF make2], rule triple_and_then [OF pin],
        rule triple_if, rule triple_refuse, erule holding_own, rule triple_and_then [OF fetched stored])
qed

section \<open>A new sandbox\<close>

lemma createRequestDirectory_holding:
  "triple F (intact d0) (kept d0) (createRequestDirectory m) (\<lambda>name. holding d0 (name # mg_basePath m) {name # mg_basePath m} []) (kept d0)"
proof -
  have "triple F (intact d0) (kept d0) (request_directory_attempts n base) (\<lambda>name. holding d0 (name # base) {name # base} []) (kept d0)" for n base
  proof (induction n)
    case (Suc n)
    show ?case
      unfolding request_directory_attempts.simps Let_def
      by (rule triple_and_then [OF look_calls(7)], rule triple_outcome [OF CreateDirectory_after [OF Mkdir_root]])
        (auto intro: triple_give triple_refuse Suc dest: holding_own own_kept)
  qed (auto intro: triple_refuse)
  then show ?thesis by (simp add: createRequestDirectory_def)
qed

lemma Cleanup_own:
  assumes R: "R = sf_name sb # mg_basePath m"
  shows "triple F (intact d0) (own d0 R) (Cleanup depth m sb) (\<lambda>_. intact d0) (intact d0)"
proof (rule tripleI)
  fix s r s' assume F: "os_fails s = F \<and> quiet s" and o: "own d0 R (os_disk s)" and run: "Cleanup depth m sb s = (r, s')"
  have i: "intact d0 d" if "clean R (os_disk s) d" for d
    unfolding intact_def same_at_def
  proof (intro allI impI)
    fix q i assume q: "inode d0 q = Some i"
    with o have "\<not> below R q" by (auto simp: own_def)
    with that kept_old [OF own_kept [OF o] q] show "inode d q = Some i \<and> dk_nodes d i = dk_nodes d0 i"
      by (auto simp: clean_def)
  qed
  have start: "clean R (os_disk s) (os_disk s)" by (rule clean_start) (use o in \<open>simp_all add: own_def kept_def\<close>)
  have "triple F (intact d0) (clean R (os_disk s)) (Cleanup depth m sb) (\<lambda>_. intact d0) (intact d0)"
  proof (cases "validateSandbox m sb")
    case True
    then show ?thesis unfolding Cleanup_def
      by (simp add: R [symmetric], intro triple_conseq [OF removeAll_clean [where R = R and I = "intact d0"]]) (auto intro: i)
  qed (auto simp: Cleanup_def intro: triple_refuse i)
  from tripleD [OF this run F start] 
  show "os_fails s' = F \<and> quiet s' \<and> (\<exists>new. os_history s' = os_history s @ new \<and> list_all (intact d0) new) \<and>
      (case r of Inr _ \<Rightarrow> intact d0 (os_disk s') | Inl _ \<Rightarrow> intact d0 (os_disk s'))" by blast
qed

lemma Materialize_holding:
  "triple F (intact d0) (kept d0) (Materialize L depth have_fetcher fetch m ds)
     (\<lambda>sb d. intact d0 d \<and> inode d0 (sf_Root sb) = None \<and> sf_Attachments sb = attachment_paths (sf_Root sb) ds \<and>
        (\<exists>bs. payloads L fetch ds bs \<and> (\<forall>(p, b) \<in> set (zip (attachment_paths (sf_Root sb) ds) bs). contents d p = Some b)))
     (intact d0)"
proof -
  let ?new = "\<lambda>name. \<lparr>sf_Root = name # mg_basePath m, sf_Attachments = [],
      sf_ReturnDirectory = ''return-files'' # name # mg_basePath m, sf_name = name, sf_returnInfo = None\<rparr>"
  let ?Q = "\<lambda>sb d. intact d0 d \<and> inode d0 (sf_Root sb) = None \<and> sf_Attachments sb = attachment_paths (sf_Root sb) ds \<and>
        (\<exists>bs. payloads L fetch ds bs \<and> (\<forall>(p, b) \<in> set (zip (attachment_paths (sf_Root sb) ds) bs). contents d p = Some b))"
  have fill: "triple F (intact d0) (holding d0 (name # mg_basePath m) {name # mg_basePath m} [])
      (cleaning (fill_sandbox L fetch ds (?new name)) (Cleanup depth m (?new name))) ?Q (intact d0)" for name
  proof (rule triple_cleaning [OF _ Cleanup_own])
    show "triple F (intact d0) (holding d0 (name # mg_basePath m) {name # mg_basePath m} [])
        (fill_sandbox L fetch ds (?new name)) ?Q (own d0 (name # mg_basePath m))"
      by (rule triple_conseq [OF fill_sandbox_holding])
        (auto simp: holding_def own_def dest: kept_intact)
  qed simp
  have fresh: "triple F (intact d0) (kept d0) (createRequestDirectory m)
      (\<lambda>name. holding d0 (name # mg_basePath m) {name # mg_basePath m} []) (intact d0)"
    by (rule triple_conseq [OF createRequestDirectory_holding]) (auto dest: kept_intact)
  show ?thesis
    unfolding Materialize_def Let_def
    by (intro triple_if triple_and_then [OF fresh fill]) (auto intro: triple_refuse dest: kept_intact)
qed

section \<open>From the relay to the sandbox\<close>

lemma prepared_payloads:
  assumes prepared: "prepareArtifacts L rnd inputs req requester target dir = Inr (ds, arts)"
    and fetch: "\<forall>a \<in> set arts. fetch (ad_ArtifactID (sa_Descriptor a)) = Inr (Some (served a))"
    and bs: "payloads L fetch ds bs"
  shows "attachment_paths R ds = map (\<lambda>i. ai_Name i # ''attachments'' # R) inputs"
    "map Some bs = map (\<lambda>i. base64_decode L (ai_ContentBase64 i)) inputs"
proof -
  note v = prepared_content_verifies [OF prepared [unfolded prepareArtifacts_def]]
  then have len: "length ds = length inputs" "length arts = length inputs" "map sa_Descriptor arts = ds" by auto
  have at: "ad_Name (ds ! k) = ai_Name (inputs ! k) \<and> Some (bs ! k) = base64_decode L (ai_ContentBase64 (inputs ! k))"
    if k: "k < length inputs" for k
  proof -
    have d: "sa_Descriptor (arts ! k) = ds ! k" using len k by (metis nth_map)
    from v k len obtain payload where "ad_Name (ds ! k) = ai_Name (inputs ! k)"
      "base64_decode L (ai_ContentBase64 (inputs ! k)) = Some payload"
      "verifyContent L (ds ! k) (Some (served (arts ! k))) = Inr payload"
      by (auto simp: list_all2_conv_all_nth)
    moreover have "\<exists>c. fetch (ad_ArtifactID (ds ! k)) = Inr c \<and> verifyContent L (ds ! k) c = Inr (bs ! k)"
      using bs k len by (auto simp: payloads_def list_all2_conv_all_nth)
    moreover have "fetch (ad_ArtifactID (ds ! k)) = Inr (Some (served (arts ! k)))"
      using fetch k len d by (metis nth_mem)
    ultimately show ?thesis by auto
  qed
  show "attachment_paths R ds = map (\<lambda>i. ai_Name i # ''attachments'' # R) inputs"
    by (rule nth_equalityI) (use len at in \<open>auto simp: attachment_paths_def\<close>)
  have "length bs = length inputs" using bs len by (auto simp: payloads_def dest: list_all2_lengthD)
  then show "map Some bs = map (\<lambda>i. base64_decode L (ai_ContentBase64 i)) inputs"
    by (intro nth_equalityI) (use at in auto)
qed

text \<open>
  C38. Attachments that the relay accepted with a request (prepareArtifacts) pass the recipient's
  checks of their descriptors. If Materialize returns a sandbox, its directory is new, its list of
  attachments is the list of their names in order, and every file holds the bytes that were sent;
  whatever fails, every file that was there before is still there, unchanged, on every disk on the
  way. The relay serves what it stored; identifiers are not drawn twice.
\<close>

theorem attachments_arrive_unchanged:
  assumes prepared: "prepareArtifacts L rnd inputs req requester target dir = Inr (ds, arts)"
    and ids: "inj rnd" and sha: "sha256_size L"
    and fetch: "\<forall>a \<in> set arts. fetch (ad_ArtifactID (sa_Descriptor a)) = Inr (Some (served a))"
    and alone: "quiet s" and disk: "wf_disk (os_disk s)" "tree_closed (os_disk s)" "dir_unique (os_disk s)"
    and run: "Materialize L depth have_fetcher fetch m ds s = (r, s')"
  shows "validateDescriptors L ds = Inr () \<and>
    (\<forall>d \<in> set (disks_between s s') \<union> {os_disk s'}. \<forall>q n. node (os_disk s) q = Some n \<longrightarrow> node d q = Some n) \<and>
    (\<forall>sb. r = Inr sb \<longrightarrow> node (os_disk s) (sf_Root sb) = None \<and>
       sf_Attachments sb = map (\<lambda>i. ai_Name i # ''attachments'' # sf_Root sb) inputs \<and>
       (\<forall>i \<in> set inputs. base64_decode L (ai_ContentBase64 i) \<noteq> None \<and>
          contents (os_disk s') (ai_Name i # ''attachments'' # sf_Root sb) = base64_decode L (ai_ContentBase64 i)))"
proof -
  have checked: "validateDescriptors L ds = Inr ()"
    using prepared_descriptors_check [OF sha prepared [unfolded prepareArtifacts_def] ids, of "[]"]
    by (simp add: validateDescriptors_def)
  have start: "kept (os_disk s) (os_disk s)" using disk by (simp add: kept_def same_at_def)
  note t = tripleD [OF Materialize_holding run conjI [OF refl alone] start]
  have intact: "intact (os_disk s) d \<Longrightarrow> node (os_disk s) q = Some n \<Longrightarrow> node d q = Some n" for d q n
    by (auto simp: intact_def same_at_def node_def)
  have end': "intact (os_disk s) (os_disk s')" using t(3) by (cases r) auto
  have between: "\<forall>d \<in> set (disks_between s s'). intact (os_disk s) d"
    using t(2) by (auto simp: disks_between_def list_all_iff)
  have sandbox: "node (os_disk s) (sf_Root sb) = None \<and>
       sf_Attachments sb = map (\<lambda>i. ai_Name i # ''attachments'' # sf_Root sb) inputs \<and>
       (\<forall>i \<in> set inputs. base64_decode L (ai_ContentBase64 i) \<noteq> None \<and>
          contents (os_disk s') (ai_Name i # ''attachments'' # sf_Root sb) = base64_decode L (ai_ContentBase64 i))"
    if r: "r = Inr sb" for sb
  proof -
    from t(3) r obtain bs where sb: "inode (os_disk s) (sf_Root sb) = None"
      "sf_Attachments sb = attachment_paths (sf_Root sb) ds" and bs: "payloads L fetch ds bs"
      and held: "\<forall>(p, b) \<in> set (zip (attachment_paths (sf_Root sb) ds) bs). contents (os_disk s') p = Some b"
      by auto
    note p = prepared_payloads [OF prepared fetch bs]
    have "base64_decode L (ai_ContentBase64 i) \<noteq> None \<and>
        contents (os_disk s') (ai_Name i # ''attachments'' # sf_Root sb) = base64_decode L (ai_ContentBase64 i)"
      if "i \<in> set inputs" for i
    proof -
      from that obtain k where k: "k < length inputs" "inputs ! k = i" by (auto simp: in_set_conv_nth)
      have len: "length bs = length inputs" using arg_cong [OF p(2), of length] by simp
      have b: "Some (bs ! k) = base64_decode L (ai_ContentBase64 i)"
        using arg_cong [OF p(2), of "\<lambda>xs. xs ! k"] k len by simp
      have "(ai_Name i # ''attachments'' # sf_Root sb, bs ! k) \<in> set (zip (attachment_paths (sf_Root sb) ds) bs)"
        unfolding p(1) using k len by (auto simp: in_set_zip intro!: exI [of _ k])
      from bspec [OF held this] show ?thesis unfolding b [symmetric] by simp
    qed
    with sb p(1) show ?thesis by (auto simp: node_def)
  qed
  show ?thesis using checked intact end' between sandbox by blast
qed

section \<open>Examples\<close>

definition empty_disk :: disk where
  "empty_disk = \<lparr>dk_names = [([], 0), ([''run''], 1)], dk_nodes = (\<lambda>_. DirectoryNode 0x1C0), dk_next = 2\<rparr>"

definition empty_os :: os where
  "empty_os = \<lparr>os_disk = empty_disk, os_fails = (\<lambda>_ _. False), os_takes = (\<lambda>_. 0), os_random = (\<lambda>_. ''r''), os_umask = 0x12,
     os_env = (\<lambda>_ d. d), os_calls = 0, os_history = []\<rparr>"

definition sent_file :: AttachmentInput where
  "sent_file = reported file_golib file_media ''a.txt'' ''hello''"

definition sent_descriptor :: ArtifactDescriptor where
  "sent_descriptor = \<lparr>ad_ArtifactID = randomID [] ''art_'', ad_Name = ''a.txt'', ad_MIMEType = ''image/png'', ad_SizeBytes = 5,
     ad_SHA256 = sha256_hex file_golib ''hello''\<rparr>"

definition sent_artifact :: storedArtifact where
  "sent_artifact = \<lparr>sa_Descriptor = sent_descriptor, sa_Encoding = ''base64'', sa_ContentBase64 = ''hello'', sa_RequestID = ''r1'',
     sa_RequesterAgentID = ''a1'', sa_TargetAgentID = ''a2'', sa_Direction = ''input''\<rparr>"

definition sent_fetch :: "string \<Rightarrow> (unit, ArtifactContent option) result" where
  "sent_fetch _ = Inr (Some (served sent_artifact))"

definition draws :: "nat \<Rightarrow> string" where
  "draws n = replicate n CHR ''x''"

lemma sent_prepared:
  "prepareArtifacts file_golib draws [sent_file] ''r1'' ''a1'' ''a2'' ''input'' = Inr ([sent_descriptor], [sent_artifact])"
proof -
  have name: "validArtifactName file_golib ''a.txt''"
    by (rule deliverable_name [OF portable_names(2) allowed_names(2)])
  have mime: "validMIMEType file_golib ''image/png''"
    using file_media_library by (simp add: media_library_def file_media_def)
  have digest: "EqualFold file_golib (sha256_hex file_golib ''hello'') (sha256_hex file_golib ''hello'')"
    unfolding sha256_hex_def by (intro EqualFold_ascii_refl hex_ok_ascii hex_ok_encode)
  have content: "base64_decode file_golib ''hello'' = Some ''hello''" by (simp add: file_golib_def)
  show ?thesis
    by (simp add: prepareArtifacts_def sent_file_def reported_def file_media_def name mime digest content Let_def i64_id
        MaxAttachmentBytes_def MaxRequestPayloadBytes_def sent_artifact_def sent_descriptor_def draws_def)
qed

lemma sent_checked: "validateDescriptors file_golib [sent_descriptor] = Inr ()"
proof -
  have "inj draws" by (auto simp: inj_def draws_def dest: arg_cong [of _ _ length])
  moreover have "sha256_size file_golib" by (simp add: sha256_size_def file_golib_def min_def)
  ultimately show ?thesis
    using prepared_descriptors_check [OF _ sent_prepared [unfolded prepareArtifacts_def], of "[]"] by (simp add: validateDescriptors_def)
qed

lemma isl_cleaning: "isl (fst (and_then m (\<lambda>x. cleaning (k x) (c x)) s)) = isl (fst (and_then m k s))"
  by (auto simp: and_then_def cleaning_def split: prod.splits sum.splits)

lemma one_attempt:
  "\<not> isl (fst (and_then (request_directory_attempts (Suc 0) base) k s)) \<Longrightarrow>
   \<not> isl (fst (and_then (request_directory_attempts (Suc n) base) k s))"
  by (auto simp: and_then_def on_outcome_def give_def refuse_def Let_def split: prod.splits sum.splits if_splits)

text \<open>What is left to do for the example once its content is verified.\<close>

definition write_sent :: "path \<Rightarrow> path list os_call" where
  "write_sent root =
     (let absolute = ''a.txt'' # ''attachments'' # root in
      and_then (OpenNewFile absolute 0x100) (\<lambda>h. and_then (cleaning (Write h ''hello'') (Close h)) (\<lambda>_.
      and_then (cleaning (Chmod h 0x100) (Close h)) (\<lambda>_. and_then (cleaning (Sync h) (Close h)) (\<lambda>_.
      and_then (Close h) (\<lambda>_. and_then (ValidateRegularFile absolute) (\<lambda>_. give [absolute])))))))"

lemma fetch_sent: "fetch_attachments file_golib sent_fetch root [] [] [sent_descriptor] = write_sent root"
proof -
  have "verifyContent file_golib sent_descriptor (Some (served sent_artifact)) = Inr ''hello''"
    using prepared_content_verifies [OF sent_prepared [unfolded prepareArtifacts_def]]
    by (simp add: sent_file_def file_golib_def file_media_def)
  then show ?thesis by (simp add: sent_fetch_def write_sent_def Let_def) (simp add: sent_descriptor_def)
qed

definition sandbox_named :: "string \<Rightarrow> SandboxFiles" where
  "sandbox_named name = \<lparr>sf_Root = [name, ''run''], sf_Attachments = [], sf_ReturnDirectory = [''return-files'', name, ''run''],
     sf_name = name, sf_returnInfo = None\<rparr>"

lemma sandbox_root: "sf_Root (sandbox_named name) = [name, ''run'']"
  by (simp add: sandbox_named_def)

lemma sent_materialized: "\<not> isl (fst (Materialize file_golib 9 True sent_fetch file_manager [sent_descriptor] empty_os))"
proof -
  have "Materialize file_golib 9 True sent_fetch file_manager [sent_descriptor] =
      and_then (createRequestDirectory file_manager) (\<lambda>name.
        cleaning (fill_sandbox file_golib sent_fetch [sent_descriptor] (sandbox_named name)) (Cleanup 9 file_manager (sandbox_named name)))"
    by (simp add: Materialize_def sent_checked MaxAttachments_def file_manager_def sandbox_named_def Let_def)
  moreover have "\<not> isl (fst (and_then (request_directory_attempts (Suc 0) [''run''])
      (\<lambda>name. fill_directories (write_sent [name, ''run'']) (sandbox_named name)) empty_os))"
    by (simp add: and_then_def on_outcome_def give_def Let_def random_bytes_def peek_def sys_def arrive_def empty_os_def empty_disk_def
      CreateDirectory_def platformCreatePrivateDirectory_def Mkdir_def inode_def parent_ok_def follow_def new_name_def Lstat_def
      validatePrivateDirectory_def platformValidatePrivateDirectory_def cleaning_def SyncDirectory_def platformSyncDirectory_def
      Open_def both_def Sync_def Close_def fill_directories_def write_sent_def sandbox_named_def OpenNewFile_def
      platformOpenNewPrivateFile_def OpenExclusive_def Write_def appended_def Chmod_def ValidateRegularFile_def
      validatePrivateRegularFile_def platformValidatePrivateRegularFile_def requestDirectoryPrefix_def hex_encode_def hex_byte_def hex_digits_def)
  then have "\<not> isl (fst (and_then (request_directory_attempts (Suc 0) [''run''])
      (\<lambda>name. fill_sandbox file_golib sent_fetch [sent_descriptor] (sandbox_named name)) empty_os))"
    by (simp only: fill_sandbox_def fetch_sent sandbox_root not_False_eq_True)
  then have "\<not> isl (fst (and_then (createRequestDirectory file_manager)
      (\<lambda>name. fill_sandbox file_golib sent_fetch [sent_descriptor] (sandbox_named name)) empty_os))"
    using one_attempt [of "[''run'']" _ empty_os 9] by (simp add: createRequestDirectory_def sandbox_fields)
  ultimately show ?thesis by (simp only: isl_cleaning not_False_eq_True)
qed

lemma inode_empty_disk: "inode empty_disk q = (if q = [] then Some 0 else if q = [''run''] then Some 1 else None)"
  by (auto simp: inode_def empty_disk_def)

lemma empty_disk_shape: "wf_disk empty_disk" "tree_closed empty_disk" "dir_unique empty_disk"
  by (auto simp: wf_disk_def tree_closed_def dir_unique_def inode_empty_disk split: if_splits) (simp_all add: empty_disk_def)

lemma attachments_arrive_unchanged_witness:
  "let X = Materialize file_golib 9 True sent_fetch file_manager [sent_descriptor] empty_os; sb = projr (fst X)
   in \<not> isl (fst X) \<and> sf_Attachments sb = [''a.txt'' # ''attachments'' # sf_Root sb] \<and>
      contents (os_disk (snd X)) (''a.txt'' # ''attachments'' # sf_Root sb) = Some ''hello''"
proof -
  let ?X = "Materialize file_golib 9 True sent_fetch file_manager [sent_descriptor] empty_os"
  have s: "os_disk empty_os = empty_disk" "quiet empty_os" by (simp_all add: empty_os_def quiet_def)
  have "inj draws" by (auto simp: inj_def draws_def dest: arg_cong [of _ _ length])
  moreover have "sha256_size file_golib" by (simp add: sha256_size_def file_golib_def min_def)
  moreover have "\<forall>a \<in> set [sent_artifact]. sent_fetch (ad_ArtifactID (sa_Descriptor a)) = Inr (Some (served a))"
    by (simp add: sent_fetch_def)
  ultimately have "\<forall>sb. fst ?X = Inr sb \<longrightarrow>
       sf_Attachments sb = map (\<lambda>i. ai_Name i # ''attachments'' # sf_Root sb) [sent_file] \<and>
       (\<forall>i \<in> set [sent_file]. base64_decode file_golib (ai_ContentBase64 i) \<noteq> None \<and>
          contents (os_disk (snd ?X)) (ai_Name i # ''attachments'' # sf_Root sb) = base64_decode file_golib (ai_ContentBase64 i))"
    using attachments_arrive_unchanged [OF sent_prepared, of sent_fetch empty_os 9 True file_manager "fst ?X" "snd ?X"]
    by (simp add: s empty_disk_shape)
  moreover have "fst ?X = Inr (projr (fst ?X))" using sent_materialized by (cases "fst ?X") auto
  ultimately show ?thesis
    using sent_materialized by (simp add: Let_def sent_file_def file_golib_def file_media_def)
qed

end
