(* ===== verification/Spec2Isabelle.thy ===== *)
theory Spec2Isabelle
  imports Handler_Theorems Admin_Theorems End_To_End Receiver_Calls Controller Relay_Server_Theorems Delivery_Theorems
begin

text \<open>
  \<^bold>\<open>Team Relay.\<close> A relay server lets the agents of one organization send each other
  requests. The requester's device creates a request; the relay stores it in Redis and tells the
  recipient's device over an event stream; the recipient inspects the proposal, allows or denies
  it, claims the execution, runs a local coding agent under a policy that is the intersection of
  what was asked and what the recipient permits, and submits the result. Administrators enrol and
  revoke members and devices; a revocation must reach requests that are already on their way.

  \<^bold>\<open>Parts and where they are modelled.\<close>

  \<^item> \<^verbatim>\<open>Go_Prelude\<close>: the parts of Go's library the sources use (strings, UTF-8 runes, trimming,
    times, wrap-around of 64-bit integers, insertion sort by a less function) and the generic
    lemmas and theorem collections of the development.
  \<^item> \<^verbatim>\<open>Protocol\<close>: \<^verbatim>\<open>internal/protocol\<close>, the wire types as records and datatypes, the
    portable path checks. \<^verbatim>\<open>Auth\<close>: \<^verbatim>\<open>internal/auth\<close>, token kinds and principals.
  \<^item> \<^verbatim>\<open>Redis_Model\<close>: what both stores use of Redis. A family of keys is a map from keys to
    values with a deadline; a read sees a key until its deadline. An optimistic transaction is
    \<^verbatim>\<open>WATCH\<close>, reads, and \<^verbatim>\<open>EXEC\<close>; between any two commands other clients may run, given as
    an explicit list of interferences, and each command may fail in transport. The two locales of
    the theory prove once that a transaction loop moves the database only along the steps its
    commit is an instance of, whatever the interference.
  \<^item> \<^verbatim>\<open>Collab_Types\<close>, \<^verbatim>\<open>Collab_Validate\<close>, \<^verbatim>\<open>Collab_Store\<close>:
    \<^verbatim>\<open>internal/collaboration/store.go\<close>, every operation of its \<^verbatim>\<open>RedisStore\<close> and every
    validation. \<^verbatim>\<open>Collab_Protocol\<close> states what the store promises as a step relation on the
    database (create, decide, claim, submit, cancel, expire, heartbeat, revoke, passing time) with
    its invariants; \<^verbatim>\<open>Collab_Refine\<close> shows that each operation is a sequence of such steps.
  \<^item> \<^verbatim>\<open>Hub\<close>: \<^verbatim>\<open>internal/collaboration/hub.go\<close>, the bounded channels of live events.
    \<^verbatim>\<open>Collab_Handler\<close>: \<^verbatim>\<open>handler.go\<close> and \<^verbatim>\<open>eviction.go\<close>, every HTTP handler, the
    event stream, and the bridge that ends the streams of revoked agents.
  \<^item> \<^verbatim>\<open>Admin_Types\<close>, \<^verbatim>\<open>Admin_Store\<close>: \<^verbatim>\<open>internal/store\<close>, every operation of the
    administrative \<^verbatim>\<open>RedisStore\<close>. Its database record extends the one of the collaboration
    store, because a revocation writes the tombstones the other store watches.
    \<^verbatim>\<open>Admin_Protocol\<close> and \<^verbatim>\<open>Admin_Refine\<close> are the step relation, its invariant and the
    refinement.
  \<^item> \<^verbatim>\<open>Relay_Server\<close>, \<^verbatim>\<open>Relay_Server_Theorems\<close>: \<^verbatim>\<open>internal/server/server.go\<close>, the
    administrative HTTP API over both stores and the hub: credentials, bodies, every handler, and
    the end of a revocation, which closes the streams of the agents it cut off.
  \<^item> \<^verbatim>\<open>Local_Store\<close>, \<^verbatim>\<open>Pending_Store\<close>, \<^verbatim>\<open>Mutation_Store\<close>, \<^verbatim>\<open>Approval_Store\<close>:
    \<^verbatim>\<open>internal/receiver\<close>, the four files the recipient keeps: its inbox and sessions, the
    write-ahead journal of decisions and results, and the standing approvals. Each operation takes
    the outcome of its file write as an argument and returns memory and file.
  \<^item> \<^verbatim>\<open>Runtime_Policy\<close>, \<^verbatim>\<open>Runtime_Helpers\<close>: \<^verbatim>\<open>internal/runtime\<close>, narrowing a policy to a
    request, checking that a runtime enforces every control of it, and what all adapters share:
    the check of a run request, redaction, summaries, the prompt.
  \<^item> \<^verbatim>\<open>Receiver_Program\<close>: the state of the receiver service
    (\<^verbatim>\<open>internal/receiver/service.go\<close>) and the language of its methods. A method is a program: an
    atomic step on the state, a call to the outside with an arbitrary answer, the start of a
    goroutine, or a return; other goroutines may step between any two of these.
    \<^verbatim>\<open>Receiver_Checks\<close> has the checks, \<^verbatim>\<open>Receiver_Service\<close> and \<^verbatim>\<open>Receiver_Decisions\<close> the methods,
    translated one by one. \<^verbatim>\<open>Receiver_System\<close> puts them together: the goroutines of one process, a
    log of every change and call, crashes at any moment and restarts from the files. A goroutine
    past the runtime-start boundary holds a permit; the locale \<^verbatim>\<open>permitted_programs\<close> proves what
    follows for programs that keep to their permits, \<^verbatim>\<open>Receiver_Safety\<close> and \<^verbatim>\<open>Receiver_Methods\<close>
    show that the methods do. \<^verbatim>\<open>Receiver_Scenario\<close> (\<^verbatim>\<open>surely\<close>) says what a program does when it
    runs alone, \<^verbatim>\<open>Receiver_Calls\<close> bounds its calls. \<^verbatim>\<open>End_To_End\<close> lets the relay's answers come
    from the collaboration store.
  \<^item> \<^verbatim>\<open>Controller\<close>: \<^verbatim>\<open>internal/receiver/controller.go\<close>, the lock of each conversation and the
    slots of the runtime, as a transition system of interleaved calls.
  \<^item> \<^verbatim>\<open>OS_Files\<close>: the files of a Unix system (names, inodes, permissions), Go's calls on
    them, any of which may fail, and the rules to reason about sequences of calls.
    \<^verbatim>\<open>Private_Files\<close> and \<^verbatim>\<open>Private_Files_Theorems\<close>: \<^verbatim>\<open>internal/privatefs\<close>, the private files behind the
    receiver's stores. \<^verbatim>\<open>Artifact_Manager\<close>: \<^verbatim>\<open>internal/artifact\<close>, the sandboxes of attachments and
    deliverables; \<^verbatim>\<open>Artifact_Theorems\<close>, \<^verbatim>\<open>Sandbox_Theorems\<close>, \<^verbatim>\<open>Delivery_Theorems\<close> are about them.

  \<^bold>\<open>What the theorems show.\<close>

  \<^item> Collaboration (\<^verbatim>\<open>Collab_Theorems\<close>): every operation, under any interleaving and any
    failed command, follows the protocol of \<^verbatim>\<open>Collab_Protocol\<close>, which says without the code's
    closures who may move a request where, when, and what may change with it; finished requests, decisions, claims and proposals never
    change; one claim executes one allowance; nothing runs that was not allowed, or whose requester
    was revoked before it was accepted (an accepted request may still run, as \<^verbatim>\<open>docs/admin.md\<close> says); creation is idempotent for as long as the request is retained.
  \<^item> Administration (\<^verbatim>\<open>Admin_Theorems\<close>): revoked devices and members never authenticate
    again and their requests that were not accepted never run; an invite enrols once, an
    organization is bootstrapped once; a rotation swaps the credential; every change of a record is
    audited by one event that names it, and nothing else is; only administrators change anything.
  \<^item> Handlers and hub (\<^verbatim>\<open>Handler_Theorems\<close>, \<^verbatim>\<open>Hub\<close>): a notice is published at most once per
    stored request (never, when the extra read of a conversation's request fails); no channel is closed twice or sent to after closing; an event stream gives the
    backlog before live events, releases its subscription, and shows nothing to a revoked agent.
  \<^item> Recipient's files (\<^verbatim>\<open>Approval_Theorems\<close>, \<^verbatim>\<open>Mutation_Store\<close>, \<^verbatim>\<open>Pending_Store\<close>,
    \<^verbatim>\<open>Runtime_Policy\<close>): a standing approval covers only what it was granted for and stays
    revoked; the journal is write-ahead, its records stay valid and can be read back; a policy is
    only ever narrowed and a runtime that cannot enforce it is refused.
  \<^item> Receiver service (\<^verbatim>\<open>Receiver_Theorems\<close>, \<^verbatim>\<open>Receiver_Calls\<close>, \<^verbatim>\<open>End_To_End\<close>): for every
    interleaving, answer, failed write and crash, the runtime starts only for an allowance the relay
    confirmed, at most once for a claim and, with the relay of this repository, for a request; the
    relay hears only what the journal held; a prepared result is submitted unchanged; an allowed
    request is answered; no method retries.
  \<^item> Controller: two executions never hold the lock of one conversation together, from the wakening
    to the release, and all calls end.
  \<^item> Server: after the reply to a deletion the device or member is cut off from calls and streams, and
    its requests that are not accepted yet never are; an invitation enrols, as long as it is pending, the
    device that then authenticates; nothing without a
    credential.
  \<^item> Files: a store's file is replaced at once, so that a crash leaves the old snapshot or the new
    one, unless a lookup fails after the rename, when the code deletes the file; attachments the relay accepted arrive byte for byte; collected deliverables are accepted
    by the relay unless their names clash; removing a sandbox removes nothing else.

  \<^bold>\<open>Bounds.\<close> A transaction is tried five times, as in the code (\<^verbatim>\<open>for range 5\<close>); the loop
  is structural recursion on that number and running out is the code's conflict error. A hub
  channel buffers 32 events, an audit log keeps 10000, a directory answer has between one and fifty
  agents (\<^verbatim>\<open>handler.go\<close>; fifty by default); all are the code's constants. A program of the receiver
  is a well-founded tree: the loops of its methods run over lists. The only fuel is the
  depth of directories in \<^verbatim>\<open>removeAll_at\<close>; more than the length of every path is enough
  (\<^verbatim>\<open>cleanup_stays_inside\<close>).

  \<^bold>\<open>What is assumed of code outside the repository.\<close> SHA-256, HMAC and JSON encoding are
  parameters; a theorem that needs that two contents do not collide says so. Texts that go through
  JSON are UTF-8. Random identifiers are arguments; where a theorem needs them unused, the
  hypothesis is \<^verbatim>\<open>fresh_id\<close>, \<^verbatim>\<open>undrawn\<close> or, for the receiver's claims, part of its step relation. Redis
  keeps a key until its deadline and evicts nothing earlier. A \<^verbatim>\<open>WATCH\<close> fails whenever a watched
  key was written in between, and may fail otherwise: the model lets \<^verbatim>\<open>EXEC\<close> abort at any time.
  Reads of the administrative store outside a transaction may each see a different state. One
  receiver process runs on its files, which its lock file ensures; the mutexes that make longer
  sections of the service exclusive are left out, which only adds interleavings. The stores' writes have
  three outcomes; \<^verbatim>\<open>Private_Files_Theorems\<close> shows that there is only one other, the loss of the file
  when a lookup fails after the rename. The fingerprint and the description of the runtime, and
  \<^verbatim>\<open>mime.ParseMediaType\<close>, are parameters. Times are UTC nanoseconds; strings are UTF-8 byte lists;
  paths are those of Unix.

  \<^bold>\<open>Not modelled.\<close> The command-line programs, the desktop integration, the service installers and
  the process locks are input and output around the parts above or calls of the operating system;
  message texts and logging have no effect on state.
\<close>

end
